(* ===== verification/Prelude.thy ===== *)
theory Prelude
  imports Main "HOL-Library.Word"
begin

text \<open>
  Shared types and lemmas of the development: the driver's fixed-width integers, byte
  buffers with the checked memory operations behind \<open>NdisMoveMemory\<close>, the byte-order
  macros of \<open>include/rtmp_comm.h\<close> as a little-endian host sees them, byte-indexed
  tables, bytewise exclusive or and the splitting of a buffer into blocks.
\<close>

unbundle bit_operations_syntax

section \<open>Types\<close>

type_synonym u8 = "8 word"
type_synonym u16 = "16 word"
type_synonym u32 = "32 word"
type_synonym u64 = "64 word"
type_synonym bytes = "u8 list"

named_theorems table_at
  "values of the constant tables, one equation for each index"

named_theorems buf_len
  "lengths of the buffers the operations produce"

section \<open>Unsigned subtraction\<close>

text \<open>The difference of two \<open>UINT\<close> values, which wraps.\<close>

definition sub32 :: "nat \<Rightarrow> nat \<Rightarrow> nat" where
  "sub32 a b = (a + 4294967296 - b) mod 4294967296"

lemma sub32_le: "b \<le> a \<Longrightarrow> a < 4294967296 \<Longrightarrow> sub32 a b = a - b"
  by (simp add: sub32_def Nat.add_diff_assoc2 [symmetric] del: Nat.add_diff_assoc2)

section \<open>Options\<close>

lemma bind_Some_iff: "Option.bind x f = Some y \<longleftrightarrow> (\<exists>z. x = Some z \<and> f z = Some y)"
  by (cases x) auto

text \<open>\<open>feed f s xs\<close>: a loop whose turns may fault.\<close>

fun feed :: "('s \<Rightarrow> 'x \<Rightarrow> 's option) \<Rightarrow> 's \<Rightarrow> 'x list \<Rightarrow> 's option" where
  "feed f s [] = Some s"
| "feed f s (x # xs) = (case f s x of None \<Rightarrow> None | Some s' \<Rightarrow> feed f s' xs)"

lemma feed_append:
  "feed f s (xs @ ys) = (case feed f s xs of None \<Rightarrow> None | Some s' \<Rightarrow> feed f s' ys)"
  by (induction xs arbitrary: s) (simp_all split: option.split)

text \<open>Turns that undo the turns of a loop, in the opposite order, undo the loop.\<close>

lemma feed_inverse:
  assumes "\<And>x s. x \<in> set xs \<Longrightarrow> ok s \<Longrightarrow> \<exists>s'. f s x = Some s' \<and> ok s' \<and> g s' x = Some s"
    and "ok s"
  shows "\<exists>s'. feed f s xs = Some s' \<and> ok s' \<and> feed g s' (rev xs) = Some s"
  using assms
proof (induction xs arbitrary: s)
  case Nil
  then show ?case by simp
next
  case (Cons x xs)
  from Cons.prems(1) [of x s] Cons.prems(2) obtain s1 where
    one: "f s x = Some s1" "ok s1" "g s1 x = Some s" by auto
  from Cons.IH [OF Cons.prems(1) one(2)] obtain s' where
    "feed f s1 xs = Some s'" "ok s'" "feed g s' (rev xs) = Some s1" by auto
  with one show ?case by (simp add: feed_append)
qed

lemma feed_total:
  assumes "\<And>x s. x \<in> set xs \<Longrightarrow> ok s \<Longrightarrow> \<exists>s'. f s x = Some s' \<and> ok s'" and "ok s"
  shows "\<exists>s'. feed f s xs = Some s' \<and> ok s'"
  using assms
proof (induction xs arbitrary: s)
  case Nil
  then show ?case by simp
next
  case (Cons x xs)
  from Cons.prems(1) [of x s] Cons.prems(2) obtain s1 where "f s x = Some s1" "ok s1" by auto
  with Cons.IH [OF Cons.prems(1)] show ?case by simp
qed

section \<open>Buffers\<close>

text \<open>
  \<open>move_mem off n src dst\<close> is \<open>NdisMoveMemory(dst + off, src, n)\<close>; \<open>None\<close> stands for an access
  outside the source or the destination buffer, which C leaves undefined.
\<close>

definition move_mem :: "nat \<Rightarrow> nat \<Rightarrow> 'a list \<Rightarrow> 'a list \<Rightarrow> 'a list option" where
  "move_mem off n src dst =
     (if n \<le> length src \<and> off + n \<le> length dst
      then Some (take off dst @ take n src @ drop (off + n) dst) else None)"

lemma move_mem_length [buf_len]:
  "move_mem off n src dst = Some d \<Longrightarrow> length d = length dst"
  by (auto simp: move_mem_def split: if_splits)

lemma move_mem_tail:
  "length a = off \<Longrightarrow> length p = n \<Longrightarrow> length z = n \<Longrightarrow> move_mem off n p (a @ z) = Some (a @ p)"
  by (simp add: move_mem_def)

lemma move_mem_nth:
  assumes "move_mem off n src dst = Some d" and "i < length dst"
  shows "d ! i = (if off \<le> i \<and> i < off + n then src ! (i - off) else dst ! i)"
proof -
  from assms(1) have d: "d = take off dst @ take n src @ drop (off + n) dst"
    and n: "n \<le> length src" and o: "off + n \<le> length dst"
    by (auto simp: move_mem_def split: if_splits)
  show ?thesis using assms(2) n o unfolding d by (auto simp: nth_append)
qed

section \<open>Bytewise exclusive or\<close>

definition xor_bytes :: "bytes \<Rightarrow> bytes \<Rightarrow> bytes" where
  "xor_bytes a b = map2 (XOR) a b"

lemma xor_bytes_Nil [simp]: "xor_bytes [] b = []" "xor_bytes a [] = []"
  by (simp_all add: xor_bytes_def)

lemma xor_bytes_Cons [simp]: "xor_bytes (x # a) (y # b) = (x XOR y) # xor_bytes a b"
  by (simp add: xor_bytes_def)

lemma length_xor_bytes [simp, buf_len]: "length (xor_bytes a b) = min (length a) (length b)"
  by (simp add: xor_bytes_def)

lemma nth_xor_bytes [simp]:
  "i < length a \<Longrightarrow> i < length b \<Longrightarrow> xor_bytes a b ! i = a ! i XOR b ! i"
  by (simp add: xor_bytes_def)

lemma xor_word_cancel [simp]:
  fixes a b :: "'a::len word"
  shows "(a XOR b) XOR b = a" and "b XOR (b XOR a) = a" and "b XOR (a XOR b) = a"
    and "(b XOR a) XOR b = a"
  by (simp_all add: ac_simps)

lemma xor_bytes_cancel: "length a \<le> length k \<Longrightarrow> xor_bytes (xor_bytes a k) k = a"
  by (induction a arbitrary: k) (auto simp: Suc_le_length_iff)

lemma xor_bytes_commute: "xor_bytes a b = xor_bytes b a"
  by (induction a b rule: list_induct2') (auto simp: xor.commute)

lemma take_xor_bytes: "take n (xor_bytes a b) = xor_bytes (take n a) (take n b)"
  by (simp add: xor_bytes_def take_map take_zip)

lemma drop_xor_bytes: "drop n (xor_bytes a b) = xor_bytes (drop n a) (drop n b)"
  by (simp add: xor_bytes_def drop_map drop_zip)

lemma xor_bytes_append:
  "length a = length b \<Longrightarrow> xor_bytes (a @ c) (b @ d) = xor_bytes a b @ xor_bytes c d"
  by (simp add: xor_bytes_def)

lemma xor_bytes_take_right: "xor_bytes a (take (length a) b) = xor_bytes a b"
proof (induction a arbitrary: b)
  case Nil
  then show ?case by simp
next
  case (Cons x a)
  then show ?case by (cases b) auto
qed

lemma xor_bytes_eq_iff:
  assumes "length a = length b" "length b = length k"
  shows "xor_bytes a k = xor_bytes b k \<longleftrightarrow> a = b"
  using assms by (metis order_refl xor_bytes_cancel)

section \<open>Byte order\<close>

text \<open>The macros \<open>SWAP32\<close> and \<open>SWAP64\<close> as written.\<close>

definition SWAP32 :: "u32 \<Rightarrow> u32" where
  "SWAP32 x = push_bit 24 (x AND 0x000000ff) OR push_bit 8 (x AND 0x0000ff00) OR
     drop_bit 8 (x AND 0x00ff0000) OR drop_bit 24 (x AND 0xff000000)"

definition SWAP64 :: "u64 \<Rightarrow> u64" where
  "SWAP64 x = push_bit 56 (x AND 0x00000000000000ff) OR push_bit 40 (x AND 0x000000000000ff00) OR
     push_bit 24 (x AND 0x0000000000ff0000) OR push_bit 8 (x AND 0x00000000ff000000) OR
     drop_bit 8 (x AND 0x000000ff00000000) OR drop_bit 24 (x AND 0x0000ff0000000000) OR
     drop_bit 40 (x AND 0x00ff000000000000) OR drop_bit 56 (x AND 0xff00000000000000)"

text \<open>A little-endian host: what \<open>cpu2be32\<close> and its companions expand to there.\<close>

definition cpu2be32 :: "u32 \<Rightarrow> u32" where "cpu2be32 x = SWAP32 x"
definition cpu2be64 :: "u64 \<Rightarrow> u64" where "cpu2be64 x = SWAP64 x"
definition cpu2le32 :: "u32 \<Rightarrow> u32" where "cpu2le32 x = x"
definition cpu2le64 :: "u64 \<Rightarrow> u64" where "cpu2le64 x = x"

text \<open>Bytes of an integer in memory, and the integer read back from memory.\<close>

definition store32 :: "u32 \<Rightarrow> bytes" where
  "store32 w = map (\<lambda>i. ucast (drop_bit (8 * i) w)) [0..<4]"

definition store64 :: "u64 \<Rightarrow> bytes" where
  "store64 w = map (\<lambda>i. ucast (drop_bit (8 * i) w)) [0..<8]"

definition load32 :: "bytes \<Rightarrow> u32" where
  "load32 b = ucast (b ! 0) OR push_bit 8 (ucast (b ! 1)) OR
     push_bit 16 (ucast (b ! 2)) OR push_bit 24 (ucast (b ! 3))"

text \<open>Big-endian reading and writing, the form the standards use.\<close>

definition be32 :: "bytes \<Rightarrow> u32" where
  "be32 b = push_bit 24 (ucast (b ! 0)) OR push_bit 16 (ucast (b ! 1)) OR
     push_bit 8 (ucast (b ! 2)) OR ucast (b ! 3)"

definition put_be32 :: "u32 \<Rightarrow> bytes" where
  "put_be32 w = rev (store32 w)"

definition put_be64 :: "u64 \<Rightarrow> bytes" where
  "put_be64 w = rev (store64 w)"

lemma length_store [simp, buf_len]:
  "length (store32 w) = 4" "length (store64 v) = 8"
  "length (put_be32 w) = 4" "length (put_be64 v) = 8"
  by (simp_all add: store32_def store64_def put_be32_def put_be64_def)

section \<open>Words bit by bit\<close>

text \<open>
  Equations between words of a fixed width are proved index by index: the list of indices
  is unfolded to numerals and the library's \<open>bit_simps\<close> decide each conjunct.
\<close>

lemma upt_numeral:
  "[0..<4] = [0, 1, 2, 3]"
  "[0..<8] = [0, 1, 2, 3, 4, 5, 6, 7]"
  "[0..<16] = [0, 1, 2, 3, 4, 5, 6, 7, 8, 9, 10, 11, 12, 13, 14, 15]"
  "[0..<32] = [0, 1, 2, 3, 4, 5, 6, 7, 8, 9, 10, 11, 12, 13, 14, 15, 16, 17, 18, 19, 20, 21, 22, 23,
     24, 25, 26, 27, 28, 29, 30, 31]"
  "[0..<64] = [0, 1, 2, 3, 4, 5, 6, 7, 8, 9, 10, 11, 12, 13, 14, 15, 16, 17, 18, 19, 20, 21, 22, 23,
     24, 25, 26, 27, 28, 29, 30, 31, 32, 33, 34, 35, 36, 37, 38, 39, 40, 41, 42, 43, 44,
     45, 46, 47, 48, 49, 50, 51, 52, 53, 54, 55, 56, 57, 58, 59, 60, 61, 62, 63]"
  by code_simp+

lemma word_eq_upt:
  fixes x y :: "'a::len word"
  assumes "list_all (\<lambda>n. bit x n = bit y n) [0..<LENGTH('a)]"
  shows "x = y"
  using assms by (intro bit_word_eqI) (simp add: list_all_iff)

lemma u8_bit_beyond: "8 \<le> n \<Longrightarrow> \<not> bit (x :: u8) n"
  by (auto dest: bit_imp_le_length)

lemma u16_bit_beyond: "16 \<le> n \<Longrightarrow> \<not> bit (x :: u16) n"
  and u32_bit_beyond: "32 \<le> n \<Longrightarrow> \<not> bit (y :: u32) n"
  by (auto dest: bit_imp_le_length)

lemma load_store [simp]: "load32 (store32 w) = w"
  by (rule word_eq_upt) (simp add: load32_def store32_def bit_simps upt_numeral)

text \<open>Four bytes are the image of the word read from them.\<close>

lemma store_load32: "length b = 4 \<Longrightarrow> store32 (load32 b) = b"
proof -
  assume "length b = 4"
  then obtain w x y z where b: "b = [w, x, y, z]"
    by (auto simp: numeral_eq_Suc length_Suc_conv)
  have e: "load32 [w, x, y, z] = ucast w OR push_bit 8 (ucast x) OR push_bit 16 (ucast y)
      OR push_bit 24 (ucast z)"
    by (simp add: load32_def numeral_eq_Suc)
  show ?thesis unfolding b e
    by (simp only: store32_def upt_numeral list.map list.inject simp_thms)
      (intro conjI word_eq_upt; simp add: bit_simps upt_numeral u8_bit_beyond)
qed

lemma store_load: "length b = 4 \<Longrightarrow> b = store32 w \<longleftrightarrow> w = load32 b"
  using store_load32 by auto

lemma cpu2be32_load: "cpu2be32 (load32 b) = be32 b"
  by (rule word_eq_upt)
    (simp add: cpu2be32_def SWAP32_def load32_def be32_def bit_simps upt_numeral u8_bit_beyond)

lemma store_cpu2be32: "store32 (cpu2be32 w) = put_be32 w"
  by (simp add: store32_def put_be32_def cpu2be32_def SWAP32_def upt_numeral)
    (intro conjI word_eq_upt; simp add: bit_simps upt_numeral)

lemma store_cpu2be64: "store64 (cpu2be64 w) = put_be64 w"
  by (simp add: store64_def put_be64_def cpu2be64_def SWAP64_def upt_numeral)
    (intro conjI word_eq_upt; simp add: bit_simps upt_numeral)

section \<open>Tables indexed by a byte\<close>

definition byte_at :: "'a list \<Rightarrow> u8 \<Rightarrow> 'a" where
  "byte_at t x = t ! unat x"

text \<open>All bytes in order; a fact about every byte is one computation over this list.\<close>

definition all_bytes :: bytes where
  "all_bytes =
    [0x00, 0x01, 0x02, 0x03, 0x04, 0x05, 0x06, 0x07, 0x08, 0x09, 0x0a, 0x0b,
     0x0c, 0x0d, 0x0e, 0x0f, 0x10, 0x11, 0x12, 0x13, 0x14, 0x15, 0x16, 0x17,
     0x18, 0x19, 0x1a, 0x1b, 0x1c, 0x1d, 0x1e, 0x1f, 0x20, 0x21, 0x22, 0x23,
     0x24, 0x25, 0x26, 0x27, 0x28, 0x29, 0x2a, 0x2b, 0x2c, 0x2d, 0x2e, 0x2f,
     0x30, 0x31, 0x32, 0x33, 0x34, 0x35, 0x36, 0x37, 0x38, 0x39, 0x3a, 0x3b,
     0x3c, 0x3d, 0x3e, 0x3f, 0x40, 0x41, 0x42, 0x43, 0x44, 0x45, 0x46, 0x47,
     0x48, 0x49, 0x4a, 0x4b, 0x4c, 0x4d, 0x4e, 0x4f, 0x50, 0x51, 0x52, 0x53,
     0x54, 0x55, 0x56, 0x57, 0x58, 0x59, 0x5a, 0x5b, 0x5c, 0x5d, 0x5e, 0x5f,
     0x60, 0x61, 0x62, 0x63, 0x64, 0x65, 0x66, 0x67, 0x68, 0x69, 0x6a, 0x6b,
     0x6c, 0x6d, 0x6e, 0x6f, 0x70, 0x71, 0x72, 0x73, 0x74, 0x75, 0x76, 0x77,
     0x78, 0x79, 0x7a, 0x7b, 0x7c, 0x7d, 0x7e, 0x7f, 0x80, 0x81, 0x82, 0x83,
     0x84, 0x85, 0x86, 0x87, 0x88, 0x89, 0x8a, 0x8b, 0x8c, 0x8d, 0x8e, 0x8f,
     0x90, 0x91, 0x92, 0x93, 0x94, 0x95, 0x96, 0x97, 0x98, 0x99, 0x9a, 0x9b,
     0x9c, 0x9d, 0x9e, 0x9f, 0xa0, 0xa1, 0xa2, 0xa3, 0xa4, 0xa5, 0xa6, 0xa7,
     0xa8, 0xa9, 0xaa, 0xab, 0xac, 0xad, 0xae, 0xaf, 0xb0, 0xb1, 0xb2, 0xb3,
     0xb4, 0xb5, 0xb6, 0xb7, 0xb8, 0xb9, 0xba, 0xbb, 0xbc, 0xbd, 0xbe, 0xbf,
     0xc0, 0xc1, 0xc2, 0xc3, 0xc4, 0xc5, 0xc6, 0xc7, 0xc8, 0xc9, 0xca, 0xcb,
     0xcc, 0xcd, 0xce, 0xcf, 0xd0, 0xd1, 0xd2, 0xd3, 0xd4, 0xd5, 0xd6, 0xd7,
     0xd8, 0xd9, 0xda, 0xdb, 0xdc, 0xdd, 0xde, 0xdf, 0xe0, 0xe1, 0xe2, 0xe3,
     0xe4, 0xe5, 0xe6, 0xe7, 0xe8, 0xe9, 0xea, 0xeb, 0xec, 0xed, 0xee, 0xef,
     0xf0, 0xf1, 0xf2, 0xf3, 0xf4, 0xf5, 0xf6, 0xf7, 0xf8, 0xf9, 0xfa, 0xfb,
     0xfc, 0xfd, 0xfe, 0xff]"

lemma all_bytes_upt: "all_bytes = map word_of_nat [0..<256]"
  by (simp add: all_bytes_def upt_rec)

lemma byte_in_all_bytes: "(x :: u8) \<in> set all_bytes"
proof -
  have "x = word_of_nat (unat x)" and "unat x < 256"
    using unsigned_less [of x] by simp_all
  then show ?thesis unfolding all_bytes_upt set_map set_upt
    by (metis atLeast0LessThan imageI lessThan_iff)
qed

lemma table_at_all: "length t = 256 \<Longrightarrow> map (byte_at t) all_bytes = t"
  unfolding all_bytes_upt
  by (rule nth_equalityI) (simp_all add: byte_at_def unat_of_nat)

lemma byte_fun_eqI: "map f all_bytes = map g all_bytes \<Longrightarrow> f x = g x"
  using byte_in_all_bytes [of x] by simp

text \<open>The index of a byte, and an index masked with 0xff.\<close>

lemma unat_u8: "unat (x :: u8) < 256"
  using unsigned_less [of x] by simp

lemma length_all_bytes: "length all_bytes = 256"
  by (simp add: all_bytes_upt)

lemma unat_small8: "k < 256 \<Longrightarrow> unat (word_of_nat k :: u8) = k"
  by (simp add: unat_of_nat)

lemma and_ff_ucast: "unat (x AND 0xff :: u32) = unat (ucast x :: u8)"
  by (simp add: unsigned_ucast_eq take_bit_eq_mask mask_eq_exp_minus_1 unsigned_and_eq)

lemma nth_u32_mask: "kb ! unat (x AND 0xff :: u32) = byte_at kb (ucast x)"
  by (simp add: byte_at_def and_ff_ucast)

lemma and_ff_u8: "(x AND 0xff) = (x :: u8)"
  by (rule word_eq_upt) (simp add: bit_simps upt_numeral)

lemma ucast_mask: "ucast (x AND 0xff :: u32) = (ucast x :: u8)"
  by (rule word_eq_upt) (simp add: bit_simps upt_numeral)

lemma ucast_add8: "ucast (x + y :: u32) = (ucast x + ucast y :: u8)"
  by transfer
    (simp add: take_bit_eq_mod, subst (2) mod_add_eq [symmetric], simp add: mod_mod_cancel mod_add_eq)

lemma ucast_up_down8 [simp]: "ucast (ucast x :: u32) = (x :: u8)"
  by (rule word_eq_upt) (simp add: bit_simps upt_numeral)

section \<open>Tables built by a loop\<close>

text \<open>A loop that appends entries, each computed from earlier ones, builds the recursive table.\<close>

lemma foldl_schedule:
  assumes "\<And>i. n \<le> i \<Longrightarrow> i < m \<Longrightarrow> g (map w [0..<i]) i = map w [0..<i] @ [w i]" and "n \<le> m"
  shows "foldl g (map w [0..<n]) [n..<m] = map w [0..<m]"
proof -
  have "foldl g (map w [0..<n]) [n..<k] = map w [0..<k]" if "n \<le> k" "k \<le> m" for k
    using that by (induction k rule: dec_induct) (simp_all add: assms(1))
  from this [OF assms(2) order_refl] show ?thesis .
qed

section \<open>Splitting a buffer into blocks\<close>

text \<open>\<open>blocks n xs\<close>: the consecutive full blocks of \<open>n\<close> elements; an incomplete rest is dropped.\<close>

function blocks :: "nat \<Rightarrow> 'a list \<Rightarrow> 'a list list" where
  "blocks n xs = (if n = 0 \<or> length xs < n then [] else take n xs # blocks n (drop n xs))"
  by pat_completeness auto
termination
  by (relation "measure (\<lambda>(n, xs). length xs)") auto

declare blocks.simps [simp del]

lemma blocks_short: "length xs < n \<Longrightarrow> blocks n xs = []"
  by (simp add: blocks.simps)

lemma blocks_append:
  "0 < n \<Longrightarrow> length a = n \<Longrightarrow> blocks n (a @ xs) = a # blocks n xs"
  by (subst blocks.simps) simp

lemma blocks_one: "0 < n \<Longrightarrow> length a = n \<Longrightarrow> blocks n a = [a]"
  using blocks_append [of n a "[]"] by (simp add: blocks_short)

lemma blocks_append_dvd:
  assumes "0 < n" and "length a = k * n"
  shows "blocks n (a @ xs) = blocks n a @ blocks n xs"
  using assms
proof (induction k arbitrary: a)
  case 0
  then show ?case by (simp add: blocks_short)
next
  case (Suc k)
  have a: "a = take n a @ drop n a" "length (take n a) = n" "length (drop n a) = k * n"
    using Suc.prems by simp_all
  have "blocks n (a @ xs) = take n a # blocks n (drop n a @ xs)"
    using blocks_append [OF \<open>0 < n\<close> a(2), of "drop n a @ xs"]
    by (simp only: append_assoc [symmetric] append_take_drop_id)
  also have "\<dots> = (take n a # blocks n (drop n a)) @ blocks n xs"
    using Suc.IH [OF \<open>0 < n\<close> a(3)] by simp
  also have "take n a # blocks n (drop n a) = blocks n a"
    using blocks_append [OF \<open>0 < n\<close> a(2), of "drop n a"] a(1) by simp
  finally show ?case .
qed

lemma concat_blocks:
  assumes "0 < n" and "length a = k * n"
  shows "concat (blocks n a) = a"
  using assms
proof (induction k arbitrary: a)
  case 0
  then show ?case by (simp add: blocks_short)
next
  case (Suc k)
  then have "concat (blocks n (drop n a)) = drop n a" by simp
  with Suc.prems show ?case by (subst blocks.simps) simp
qed

lemma length_blocks_elem: "b \<in> set (blocks n xs) \<Longrightarrow> length b = n"
proof (induction n xs rule: blocks.induct)
  case (1 n xs)
  then show ?case by (subst (asm) (2) blocks.simps) (auto split: if_splits)
qed

lemma length_concat_blocks: "\<forall>b \<in> set bs. length b = n \<Longrightarrow> length (concat bs) = n * length bs"
  by (induction bs) auto

text \<open>Positions in a buffer made of blocks of one length.\<close>

lemma take_concat_blocks:
  "\<forall>b \<in> set bs. length b = n \<Longrightarrow> take (i * n) (concat bs) = concat (take i bs)"
proof (induction bs arbitrary: i)
  case Nil
  then show ?case by simp
next
  case (Cons b bs)
  then show ?case by (cases i) simp_all
qed

lemma drop_concat_blocks:
  "\<forall>b \<in> set bs. length b = n \<Longrightarrow> drop (i * n) (concat bs) = concat (drop i bs)"
proof (induction bs arbitrary: i)
  case Nil
  then show ?case by simp
next
  case (Cons b bs)
  then show ?case by (cases i) simp_all
qed

lemma concat_block_at:
  assumes "\<forall>b \<in> set bs. length b = n" and "i < length bs"
  shows "take n (drop (i * n) (concat bs)) = bs ! i"
    and "take (i * n) (concat bs) @ x @ drop (i * n + n) (concat bs) = concat (bs[i := x])"
proof -
  have "drop i bs = bs ! i # drop (Suc i) bs" using assms(2) by (rule Cons_nth_drop_Suc [symmetric])
  then show "take n (drop (i * n) (concat bs)) = bs ! i"
    using assms by (simp add: drop_concat_blocks)
  have "drop (i * n + n) (concat bs) = concat (drop (Suc i) bs)"
    using drop_concat_blocks [OF assms(1), of "Suc i"] by (simp add: add.commute)
  then show "take (i * n) (concat bs) @ x @ drop (i * n + n) (concat bs) = concat (bs[i := x])"
    using assms by (simp add: take_concat_blocks upd_conv_take_nth_drop)
qed

end
