(* ===== verification/Hash_Stream.thy ===== *)
theory Hash_Stream
  imports Prelude
begin

text \<open>
  The buffering shared by the three message digests of the driver (\<open>crypt_sha2.c\<close> for SHA-1
  and SHA-256, \<open>crypt_md5.c\<close>): the context structure, the step that hashes a full block,
  the append loop and the padding at the end, each with the block function as an argument.
  The specification is the Merkle-Damgaard construction over the padded message, and the
  relation \<open>absorbed\<close> says what a context that has taken in a message looks like.
\<close>

section \<open>Rotations\<close>

text \<open>The macros \<open>ROTR32\<close> and \<open>ROTL32\<close> of \<open>crypt_sha2.c\<close> and \<open>crypt_md5.c\<close>.\<close>

definition ROTR32 :: "u32 \<Rightarrow> nat \<Rightarrow> u32" where
  "ROTR32 x n = drop_bit n x OR push_bit (32 - n) x"

definition ROTL32 :: "u32 \<Rightarrow> nat \<Rightarrow> u32" where
  "ROTL32 x n = push_bit n x OR drop_bit (32 - n) x"

lemma ROTR32_rotr:
  assumes "n < 32"
  shows "ROTR32 x n = word_rotr n x"
proof (rule bit_word_eqI)
  fix i assume i: "i < LENGTH(32)"
  show "bit (ROTR32 x n) i = bit (word_rotr n x) i"
  proof (cases "i + n < 32")
    case True
    then show ?thesis using i by (auto simp: ROTR32_def bit_simps ac_simps)
  next
    case False
    then have "(i + n) mod 32 = i + n - 32" "i - (32 - n) = i + n - 32" "32 - n \<le> i"
      using i assms by (auto simp: le_mod_geq)
    moreover have "\<not> bit x (i + n)" "\<not> bit x (n + i)"
      using False bit_imp_le_length [of x "i + n"] by (auto simp: ac_simps)
    ultimately show ?thesis using i by (simp add: ROTR32_def bit_simps ac_simps)
  qed
qed

lemma ROTL32_rotl:
  assumes "0 < n" and "n < 32"
  shows "ROTL32 x n = word_rotl n x"
proof -
  have "ROTL32 x n = ROTR32 x (32 - n)"
    using assms by (simp add: ROTL32_def ROTR32_def or.commute)
  then show ?thesis using assms by (simp add: ROTR32_rotr word_rotl_eq_word_rotr)
qed

section \<open>The context and its operations\<close>

text \<open>
  \<open>SHA1_CTX_STRUC\<close>, \<open>SHA256_CTX_STRUC\<close> and \<open>MD5_CTX_STRUC\<close> have the same fields and
  differ in the number of words of \<open>HashValue\<close>.
\<close>

record hash_ctx =
  HashValue :: "u32 list"
  MessageLen :: u64
  Block :: bytes
  BlockLen :: u32

type_synonym block_fun = "u32 list \<Rightarrow> bytes \<Rightarrow> u32 list"

definition hash_init :: "u32 list \<Rightarrow> hash_ctx" where
  "hash_init iv = \<lparr>HashValue = iv, MessageLen = 0, Block = replicate 64 0, BlockLen = 0\<rparr>"

text \<open>Hash the buffered block, then clear the buffer: the frame of every \<open>RT_*_Hash\<close>.\<close>

definition hash_block :: "block_fun \<Rightarrow> hash_ctx \<Rightarrow> hash_ctx" where
  "hash_block f ctx = ctx\<lparr>HashValue := f (HashValue ctx) (Block ctx),
     Block := replicate 64 0, BlockLen := 0\<rparr>"

lemma append_progress:
  assumes "rest \<noteq> []" and "\<not> length rest - unat (64 - b :: u32) < length rest"
  shows "0 < unat b"
proof -
  from assms have "unat (64 - b) = 0" by (cases rest) auto
  then have "b = 64" by (simp add: unsigned_eq_0_iff)
  then show ?thesis by simp
qed

text \<open>
  The loop of every \<open>RT_*_Append\<close>; \<open>rest\<close> is the part of the message from \<open>appendLen\<close> on,
  so that \<open>diffLen\<close> is its length. The sum \<open>BlockLen + diffLen\<close> is a 32-bit sum, as in C;
  the copies are checked, so a sum that wraps shows as \<open>None\<close>.
\<close>

function append_loop :: "block_fun \<Rightarrow> hash_ctx \<Rightarrow> bytes \<Rightarrow> hash_ctx option" where
  "append_loop f ctx rest =
     (if rest = [] then Some ctx
      else
        let diffLen = word_of_nat (length rest) in
        if BlockLen ctx + diffLen < 64 then
          (case move_mem (unat (BlockLen ctx)) (length rest) rest (Block ctx) of
             None \<Rightarrow> None
           | Some b \<Rightarrow> Some (ctx\<lparr>Block := b, BlockLen := BlockLen ctx + diffLen\<rparr>))
        else
          let n = unat (64 - BlockLen ctx) in
          (case move_mem (unat (BlockLen ctx)) n rest (Block ctx) of
             None \<Rightarrow> None
           | Some b \<Rightarrow>
               append_loop f (hash_block f (ctx\<lparr>Block := b, BlockLen := 64\<rparr>)) (drop n rest)))"
  by pat_completeness auto
termination
  by (relation "measures [\<lambda>(f, ctx, rest). length rest, \<lambda>(f, ctx, rest). unat (BlockLen ctx)]")
    (auto simp: hash_block_def append_progress)

declare append_loop.simps [simp del]

definition hash_append :: "block_fun \<Rightarrow> hash_ctx \<Rightarrow> bytes \<Rightarrow> hash_ctx option" where
  "hash_append f ctx msg =
     map_option (\<lambda>c. c\<lparr>MessageLen := MessageLen c + ucast (word_of_nat (length msg) :: u32)\<rparr>)
       (append_loop f ctx msg)"

text \<open>
  The frame of every \<open>RT_*_End\<close>: the byte 0x80, the bit length in the last 8 bytes of a
  block (in byte order \<open>len64\<close>), and the hash value written out (each word through \<open>swap32\<close>).
\<close>

definition hash_end ::
  "block_fun \<Rightarrow> (u64 \<Rightarrow> u64) \<Rightarrow> (u32 \<Rightarrow> u32) \<Rightarrow> hash_ctx \<Rightarrow> (hash_ctx \<times> bytes) option" where
  "hash_end f len64 swap32 ctx =
     (case move_mem (unat (BlockLen ctx)) 1 [0x80] (Block ctx) of
        None \<Rightarrow> None
      | Some b \<Rightarrow>
          let ctx1 = ctx\<lparr>Block := b\<rparr>;
              ctx2 = (if BlockLen ctx1 > 55 then hash_block f ctx1 else ctx1);
              message_length_bits = len64 (MessageLen ctx2 * 8)
          in (case move_mem 56 8 (store64 message_length_bits) (Block ctx2) of
                None \<Rightarrow> None
              | Some b2 \<Rightarrow>
                  let ctx3 = hash_block f (ctx2\<lparr>Block := b2\<rparr>);
                      ctx4 = ctx3\<lparr>HashValue := map swap32 (HashValue ctx3)\<rparr>
                  in Some (ctx4, concat (map store32 (HashValue ctx4)))))"

text \<open>The 16 words of a block as the copy into \<open>W\<close> or \<open>X\<close> reads them.\<close>

definition load_words :: "bytes \<Rightarrow> u32 list" where
  "load_words b = map (\<lambda>i. load32 (drop (4 * i) b)) [0..<16]"

section \<open>The construction the standards define\<close>

text \<open>
  Padding: one byte 0x80, the least number of zero bytes that leaves room for 8 bytes in the
  last block, and the length in bits.
\<close>

definition md_pad :: "(u64 \<Rightarrow> bytes) \<Rightarrow> bytes \<Rightarrow> bytes" where
  "md_pad put64 m = m @ [0x80] @ replicate ((119 - length m mod 64) mod 64) 0
     @ put64 (word_of_nat (8 * length m))"

definition md_hash ::
  "block_fun \<Rightarrow> u32 list \<Rightarrow> (u64 \<Rightarrow> bytes) \<Rightarrow> (u32 \<Rightarrow> bytes) \<Rightarrow> bytes \<Rightarrow> bytes" where
  "md_hash f iv put64 put32 m =
     concat (map put32 (foldl f iv (blocks 64 (md_pad put64 m))))"

section \<open>Contexts that have absorbed a message\<close>

text \<open>
  \<open>buffered\<close>: the full blocks of the message are hashed and the rest is at the start of the
  cleared buffer. \<open>absorbed\<close> adds the message length, which the code updates after the loop.
\<close>

definition buffered :: "block_fun \<Rightarrow> u32 list \<Rightarrow> hash_ctx \<Rightarrow> bytes \<Rightarrow> bool" where
  "buffered f iv ctx m \<longleftrightarrow>
     (let full = 64 * (length m div 64) in
      HashValue ctx = foldl f iv (blocks 64 (take full m)) \<and>
      Block ctx = drop full m @ replicate (64 - length m mod 64) 0 \<and>
      BlockLen ctx = word_of_nat (length m mod 64))"

definition absorbed :: "block_fun \<Rightarrow> u32 list \<Rightarrow> hash_ctx \<Rightarrow> bytes \<Rightarrow> bool" where
  "absorbed f iv ctx m \<longleftrightarrow> buffered f iv ctx m \<and> MessageLen ctx = word_of_nat (length m)"

lemma buffered_MessageLen [simp]:
  "buffered f iv (c\<lparr>MessageLen := n\<rparr>) m = buffered f iv c m"
  by (simp add: buffered_def)

lemma unat_small32: "n < 4294967296 \<Longrightarrow> unat (word_of_nat n :: u32) = n"
  by (simp add: unat_of_nat)

lemma absorbed_init: "absorbed f iv (hash_init iv) []"
  by (simp add: absorbed_def buffered_def hash_init_def blocks_short)

lemma buffered_BlockLen:
  "buffered f iv ctx m \<Longrightarrow> unat (BlockLen ctx) = length m mod 64"
  by (simp add: buffered_def unat_small32 Let_def)

lemma length_rest: "length m - 64 * (length m div 64) = length m mod 64"
  by (simp add: minus_mult_div_eq_mod)

lemma small_div: "b < 64 \<Longrightarrow> (64 * a + b) div 64 = (a :: nat)"
  and small_mod: "b < 64 \<Longrightarrow> (64 * a + b) mod 64 = (b :: nat)"
  by simp_all

lemma fill_eq: "(l :: nat) + r = 64 \<Longrightarrow> m = 64 * q + r \<Longrightarrow> m + l = 64 * (q + 1)"
  by simp

text \<open>A message that does not fill the block goes into the buffer.\<close>

lemma buffered_partial:
  assumes buf: "buffered f iv ctx m" and fits: "length m mod 64 + length x < 64"
  shows "move_mem (length m mod 64) (length x) x (Block ctx)
           = Some (drop (64 * (length m div 64)) m @ x
               @ replicate (64 - (length m mod 64 + length x)) 0)"
    and "buffered f iv (ctx\<lparr>Block := drop (64 * (length m div 64)) m @ x
               @ replicate (64 - (length m mod 64 + length x)) 0,
             BlockLen := word_of_nat (length m mod 64 + length x)\<rparr>) (m @ x)"
proof -
  let ?r = "length m mod 64" and ?t = "drop (64 * (length m div 64)) m"
  have B: "Block ctx = ?t @ replicate (64 - ?r) 0"
    using buf by (simp add: buffered_def Let_def)
  show "move_mem ?r (length x) x (Block ctx)
     = Some (?t @ x @ replicate (64 - (?r + length x)) 0)"
    using fits by (simp add: move_mem_def B length_rest)
  have e: "length m + length x = 64 * (length m div 64) + (?r + length x)"
    using mult_div_mod_eq [of 64 "length m"] by linarith
  have q: "(length m + length x) div 64 = length m div 64"
    and r: "(length m + length x) mod 64 = ?r + length x"
    unfolding e using fits by (rule small_div, rule small_mod)
  have le: "64 * (length m div 64) \<le> length m" by simp
  show "buffered f iv (ctx\<lparr>Block := ?t @ x @ replicate (64 - (?r + length x)) 0,
      BlockLen := word_of_nat (?r + length x)\<rparr>) (m @ x)"
    using buf le by (simp add: buffered_def Let_def q r)
qed

text \<open>A message that fills the block exactly makes the buffer a block, which is hashed.\<close>

lemma buffered_fill:
  assumes buf: "buffered f iv ctx m" and len: "length x = 64 - length m mod 64"
  shows "move_mem (length m mod 64) (length x) (x @ y) (Block ctx)
           = Some (drop (64 * (length m div 64)) m @ x)"
    and "buffered f iv (hash_block f (ctx\<lparr>Block := drop (64 * (length m div 64)) m @ x,
             BlockLen := 64\<rparr>)) (m @ x)"
proof -
  let ?r = "length m mod 64" and ?q = "length m div 64"
  let ?t = "drop (64 * ?q) m" and ?u = "take (64 * ?q) m"
  have B: "Block ctx = ?t @ replicate (64 - ?r) 0"
    and H: "HashValue ctx = foldl f iv (blocks 64 ?u)"
    using buf by (simp_all add: buffered_def Let_def)
  have r64: "?r < 64" by simp
  show "move_mem ?r (length x) (x @ y) (Block ctx) = Some (?t @ x)"
    using len r64 by (simp add: move_mem_def B length_rest)
  have mx: "m @ x = ?u @ (?t @ x)" by simp
  have tl: "length (?t @ x) = 64" using len r64 length_rest [of m] by simp
  have ul: "length ?u = ?q * 64" by simp
  have "length x + ?r = 64" using len r64 by simp
  then have ml: "length m + length x = 64 * (?q + 1)"
    by (rule fill_eq) (rule mult_div_mod_eq [symmetric])
  have q: "(length m + length x) div 64 = ?q + 1" and r0: "(length m + length x) mod 64 = 0"
    by (simp_all only: ml) simp_all
  have "blocks 64 (?t @ x) = [?t @ x]"
    using blocks_append [of 64 "?t @ x" "[]"] tl by (simp add: blocks_short)
  then have "blocks 64 (?u @ (?t @ x)) = blocks 64 ?u @ [?t @ x]"
    using blocks_append_dvd [of 64 ?u ?q "?t @ x"] ul by simp
  then have "blocks 64 (m @ x) = blocks 64 ?u @ [?t @ x]"
    by (simp only: mx [symmetric])
  then show "buffered f iv (hash_block f (ctx\<lparr>Block := ?t @ x, BlockLen := 64\<rparr>)) (m @ x)"
    using ml by (simp add: buffered_def Let_def hash_block_def H q r0 del: blocks_append)
qed

text \<open>The loop takes in the whole message, whatever is buffered already.\<close>

lemma append_loop_buffered:
  assumes "buffered f iv ctx m" and "length x + 64 < 4294967296"
  shows "\<exists>c. append_loop f ctx x = Some c \<and> buffered f iv c (m @ x) \<and> MessageLen c = MessageLen ctx"
  using assms
proof (induction "length x" arbitrary: x m ctx rule: less_induct)
  case less
  note buf = less.prems(1)
  let ?r = "length m mod 64"
  have bl: "unat (BlockLen ctx) = ?r" using buf by (rule buffered_BlockLen)
  have r64: "?r < 64" by simp
  have sum: "unat (BlockLen ctx + word_of_nat (length x)) = ?r + length x"
    using less.prems(2) r64 bl by (simp add: unat_word_ariths unat_small32)
  have sum_less: "BlockLen ctx + word_of_nat (length x) < 64 \<longleftrightarrow> ?r + length x < 64"
    using sum by (simp add: word_less_nat_alt)
  show ?case
  proof (cases "x = []")
    case True
    with buf show ?thesis by (subst append_loop.simps) simp
  next
    case ne: False
    show ?thesis
    proof (cases "?r + length x < 64")
      case True
      let ?b = "drop (64 * (length m div 64)) m @ x @ replicate (64 - (?r + length x)) 0"
      have bl': "BlockLen ctx + word_of_nat (length x) = word_of_nat (?r + length x)"
        using buf by (simp add: buffered_def Let_def)
      have "append_loop f ctx x
          = Some (ctx\<lparr>Block := ?b, BlockLen := BlockLen ctx + word_of_nat (length x)\<rparr>)"
        using True ne buffered_partial(1) [OF buf True]
        by (subst append_loop.simps) (simp add: Let_def sum_less bl)
      with buffered_partial(2) [OF buf True] show ?thesis unfolding bl' by simp
    next
      case False
      let ?n = "64 - ?r"
      let ?c = "hash_block f (ctx\<lparr>Block := drop (64 * (length m div 64)) m @ take ?n x, BlockLen := 64\<rparr>)"
      have n: "unat (64 - BlockLen ctx) = ?n"
        using bl r64 by (simp add: unat_sub word_le_nat_alt)
      have len: "length (take ?n x) = ?n" using False by simp
      note fill = buffered_fill [OF buf len]
      have mv: "move_mem ?r ?n x (Block ctx) = Some (drop (64 * (length m div 64)) m @ take ?n x)"
        using fill(1) [of "drop ?n x"] len by simp
      have step: "append_loop f ctx x = append_loop f ?c (drop ?n x)"
        using ne False by (subst append_loop.simps) (simp add: Let_def sum_less bl n mv)
      have "length (drop ?n x) < length x" using ne r64 by (cases x) auto
      from less.hyps [OF this fill(2)] less.prems(2) show ?thesis
        unfolding step by (simp add: hash_block_def)
    qed
  qed
qed

theorem hash_append_absorbed:
  assumes "absorbed f iv ctx m" and "length x + 64 < 4294967296"
  shows "\<exists>c. hash_append f ctx x = Some c \<and> absorbed f iv c (m @ x)"
proof -
  from assms append_loop_buffered obtain c where "append_loop f ctx x = Some c"
    and "buffered f iv c (m @ x)" and "MessageLen c = MessageLen ctx"
    unfolding absorbed_def by blast
  with assms show ?thesis
    by (auto simp: hash_append_def absorbed_def unsigned_of_nat take_bit_nat_eq_self)
qed

text \<open>Two contexts that have absorbed the same message are equal: the chunking leaves no trace.\<close>

lemma absorbed_unique:
  "absorbed f iv c m \<Longrightarrow> absorbed f iv c' m \<Longrightarrow> c = c'"
  by (cases c; cases c') (simp add: absorbed_def buffered_def Let_def)

section \<open>The end of a message\<close>

lemma concat_map_length:
  "(\<And>x. length (g x) = n) \<Longrightarrow> length (concat (map g xs)) = n * length xs"
  by (induction xs) auto

lemma pad_one: "r \<le> 55 \<Longrightarrow> (119 - r) mod 64 = 55 - (r :: nat)"
  by (simp add: le_mod_geq)

lemma pad_two: "55 < r \<Longrightarrow> r < 64 \<Longrightarrow> (119 - r) mod 64 = (63 - r) + (56 :: nat)"
  by simp

text \<open>
  The two shapes of the last blocks: one block when the rest leaves 9 bytes free, two
  otherwise.
\<close>

lemma md_pad_blocks_one:
  assumes "length m mod 64 \<le> 55" and "length p = 8"
  shows "blocks 64 (m @ [0x80] @ replicate ((119 - length m mod 64) mod 64) 0 @ p)
    = blocks 64 (take (64 * (length m div 64)) m) @
      [drop (64 * (length m div 64)) m @ [0x80] @ replicate (55 - length m mod 64) 0 @ p]"
proof -
  let ?r = "length m mod 64" and ?q = "length m div 64"
  let ?t = "drop (64 * ?q) m" and ?u = "take (64 * ?q) m"
  have z: "(119 - ?r) mod 64 = 55 - ?r" using assms(1) by (rule pad_one)
  have tl: "length (?t @ [0x80] @ replicate (55 - ?r) 0 @ p) = 64"
    using assms by (simp add: length_rest)
  have e: "m @ [0x80] @ replicate (55 - ?r) 0 @ p
      = ?u @ (?t @ [0x80] @ replicate (55 - ?r) 0 @ p)"
    by simp
  have ul: "length ?u = ?q * 64" by simp
  show ?thesis
    unfolding z e blocks_append_dvd [OF zero_less_numeral ul]
      blocks_one [OF zero_less_numeral tl] ..
qed

lemma md_pad_blocks_two:
  assumes "55 < length m mod 64" and "length p = 8"
  shows "blocks 64 (m @ [0x80] @ replicate ((119 - length m mod 64) mod 64) 0 @ p)
    = blocks 64 (take (64 * (length m div 64)) m) @
      [drop (64 * (length m div 64)) m @ [0x80] @ replicate (63 - length m mod 64) 0,
       replicate 56 0 @ p]"
proof -
  let ?r = "length m mod 64" and ?q = "length m div 64"
  let ?t = "drop (64 * ?q) m" and ?u = "take (64 * ?q) m"
  have r64: "?r < 64" by simp
  have z: "(119 - ?r) mod 64 = (63 - ?r) + 56" using assms(1) r64 by (rule pad_two)
  have tl: "length (?t @ [0x80] @ replicate (63 - ?r) 0) = 64"
    using assms r64 by (simp add: length_rest)
  have pl: "length (replicate 56 0 @ p) = 64" using assms by simp
  have e: "m @ [0x80] @ replicate ((63 - ?r) + 56) 0 @ p
      = ?u @ ((?t @ [0x80] @ replicate (63 - ?r) 0) @ (replicate 56 0 @ p))"
    unfolding replicate_add by simp
  have ul: "length ?u = ?q * 64" by simp
  show ?thesis
    unfolding z e blocks_append_dvd [OF zero_less_numeral ul]
      blocks_append [OF zero_less_numeral tl] blocks_one [OF zero_less_numeral pl] ..
qed

theorem hash_end_absorbed:
  assumes abs: "absorbed f iv ctx m"
    and len: "\<And>w. store64 (len64 w) = put64 w" and put: "\<And>w. store32 (swap32 w) = put32 w"
  shows "\<exists>c. hash_end f len64 swap32 ctx = Some (c, md_hash f iv put64 put32 m)"
proof -
  let ?r = "length m mod 64" and ?q = "length m div 64"
  let ?t = "drop (64 * ?q) m" and ?H = "foldl f iv (blocks 64 (take (64 * ?q) m))"
  let ?p = "put64 (word_of_nat (8 * length m))"
  have r64: "?r < 64" by simp
  have B: "Block ctx = ?t @ replicate (64 - ?r) 0" and H: "HashValue ctx = ?H"
    and M: "MessageLen ctx = word_of_nat (length m)"
    using abs by (simp_all add: absorbed_def buffered_def Let_def)
  have bl: "unat (BlockLen ctx) = ?r"
    using abs buffered_BlockLen [of f iv ctx m] by (simp add: absorbed_def)
  have bl55: "BlockLen ctx > 55 \<longleftrightarrow> 55 < ?r" by (simp add: word_less_nat_alt bl)
  have put8: "length (put64 w) = 8" for w unfolding len [symmetric] by simp
  then have p8: "length ?p = 8" .
  have bits: "store64 (len64 (MessageLen ctx * 8)) = ?p"
    by (simp add: len M mult.commute)
  have mv1: "move_mem ?r 1 [0x80] (Block ctx) = Some (?t @ [0x80] @ replicate (63 - ?r) 0)"
    using r64 by (simp add: move_mem_def B length_rest)
  have out: "concat (map store32 (map swap32 hs)) = concat (map put32 hs)" for hs
    by (simp add: put comp_def)
  show ?thesis
  proof (cases "55 < ?r")
    case True
    have mv2: "move_mem 56 8 ?p (replicate 64 0) = Some (replicate 56 0 @ ?p)"
      unfolding move_mem_def p8 by (simp add: put8)
    have "md_hash f iv put64 put32 m = concat (map put32
        (f (f ?H (?t @ [0x80] @ replicate (63 - ?r) 0)) (replicate 56 0 @ ?p)))"
      by (simp add: md_hash_def md_pad_def md_pad_blocks_two [OF True p8, simplified])
    then show ?thesis
      using True bits mv1 mv2 out
      by (simp add: hash_end_def bl bl55 hash_block_def H Let_def del: map_map)
  next
    case False
    then have le: "?r \<le> 55" by simp
    have "63 - ?r = (55 - ?r) + 8" using le by simp
    then have rep: "replicate (63 - ?r) (0::u8) = replicate (55 - ?r) 0 @ replicate 8 0"
      by (metis replicate_add)
    have mv2: "move_mem 56 8 ?p (?t @ [0x80] @ replicate (63 - ?r) 0)
        = Some (?t @ [0x80] @ replicate (55 - ?r) 0 @ ?p)"
      using le move_mem_tail [of "?t @ [0x80] @ replicate (55 - ?r) 0" 56 ?p 8 "replicate 8 0"]
      unfolding rep by (simp add: length_rest put8)
    have "md_hash f iv put64 put32 m = concat (map put32
        (f ?H (?t @ [0x80] @ replicate (55 - ?r) 0 @ ?p)))"
      by (simp add: md_hash_def md_pad_def md_pad_blocks_one [OF le p8, simplified])
    then show ?thesis
      using False bits mv1 mv2 out
      by (simp add: hash_end_def bl bl55 hash_block_def H Let_def del: map_map)
  qed
qed

section \<open>The interface of a message digest\<close>

text \<open>
  What the clients of a digest (HMAC, the key derivations) rely on: a context takes in a
  message piece by piece, and the end of the message gives a digest of the whole of it.
  \<open>feed append c xs\<close> appends the pieces \<open>xs\<close> one after the other, and
  \<open>taken c m\<close> is the provider's relation between a context and the message it has taken in.
\<close>

locale message_digest =
  fixes start :: hash_ctx
    and append :: "hash_ctx \<Rightarrow> bytes \<Rightarrow> hash_ctx option"
    and finish :: "hash_ctx \<Rightarrow> (hash_ctx \<times> bytes) option"
    and taken :: "hash_ctx \<Rightarrow> bytes \<Rightarrow> bool"
    and digest :: "bytes \<Rightarrow> bytes"
    and dlen :: nat
  assumes taken_start: "taken start []"
    and taken_append: "taken c m \<Longrightarrow> length x + 64 < 4294967296 \<Longrightarrow>
      \<exists>c'. append c x = Some c' \<and> taken c' (m @ x)"
    and taken_unique: "taken c m \<Longrightarrow> taken c' m \<Longrightarrow> c = c'"
    and taken_finish: "taken c m \<Longrightarrow> \<exists>c'. finish c = Some (c', digest m)"
    and digest_length: "length (digest m) = dlen"
    and dlen_bound: "dlen \<le> 64"
begin

lemma feed_taken:
  assumes "taken c m" and "\<forall>x \<in> set xs. length x + 64 < 4294967296"
  shows "\<exists>c'. feed append c xs = Some c' \<and> taken c' (m @ concat xs)"
  using assms
proof (induction xs arbitrary: c m)
  case Nil
  then show ?case by simp
next
  case (Cons x xs)
  then obtain c1 where "append c x = Some c1" and "taken c1 (m @ x)"
    using taken_append by (metis list.set_intros(1))
  with Cons.IH [of c1 "m @ x"] Cons.prems(2) show ?case by simp
qed

text \<open>The digest of a message does not depend on how it is cut into pieces.\<close>

lemma digest_of_chunks:
  assumes "\<forall>x \<in> set xs. length x + 64 < 4294967296"
  shows "\<exists>c'. Option.bind (feed append start xs) finish = Some (c', digest (concat xs))"
proof -
  from feed_taken [OF taken_start assms] obtain c where
    "feed append start xs = Some c" and "taken c (concat xs)" by auto
  with taken_finish show ?thesis by fastforce
qed

lemma one_chunk:
  assumes "length x + 64 < 4294967296"
  shows "\<exists>c'. Option.bind (append start x) finish = Some (c', digest x)"
  using digest_of_chunks [of "[x]"] assms by (cases "append start x") simp_all

lemma two_chunks:
  assumes "length x + 64 < 4294967296" and "length y + 64 < 4294967296"
  shows "\<exists>c'. Option.bind (Option.bind (append start x) (\<lambda>c. append c y)) finish
    = Some (c', digest (x @ y))"
  using digest_of_chunks [of "[x, y]"] assms
  by (cases "append start x") (auto split: option.splits)

end

text \<open>
  Every block function with a fixed number of output words gives a digest: the shared
  buffering discharges all laws.
\<close>

lemma length_foldl_block:
  assumes "\<And>h b. length h = n \<Longrightarrow> length (f h b) = n" and "length iv = (n :: nat)"
  shows "length (foldl f iv bs) = n"
  using assms(2) by (induction bs arbitrary: iv) (simp_all add: assms(1))

lemma hash_message_digest:
  assumes "\<And>h b. length h = n \<Longrightarrow> length (f h b) = n" and "length iv = n" and "n \<le> 16"
    and "\<And>w. store64 (len64 w) = put64 w" and "\<And>w. store32 (swap32 w) = put32 w"
  shows "message_digest (hash_init iv) (hash_append f) (hash_end f len64 swap32)
    (absorbed f iv) (md_hash f iv put64 put32) (4 * n)"
proof
  show "absorbed f iv (hash_init iv) []" by (rule absorbed_init)
  show "\<exists>c'. hash_append f c x = Some c' \<and> absorbed f iv c' (m @ x)"
    if "absorbed f iv c m" "length x + 64 < 4294967296" for c m x
    using that by (rule hash_append_absorbed)
  show "c = c'" if "absorbed f iv c m" "absorbed f iv c' m" for c c' m
    using that by (rule absorbed_unique)
  show "\<exists>c'. hash_end f len64 swap32 c = Some (c', md_hash f iv put64 put32 m)"
    if "absorbed f iv c m" for c m
    using that assms(4,5) by (rule hash_end_absorbed)
  have "length (put32 w) = 4" for w unfolding assms(5) [symmetric] by simp
  then show "length (md_hash f iv put64 put32 m) = 4 * n" for m
    unfolding md_hash_def
    using length_foldl_block [of n f iv "blocks 64 (md_pad put64 m)", OF assms(1,2)]
    by (simp add: concat_map_length [of put32 4])
  show "4 * n \<le> 64" using assms(3) by simp
qed

end
