(* ===== verification/Crypt_Sha2.thy ===== *)
theory Crypt_Sha2
  imports Hash_Stream
begin

text \<open>
  SHA-1 and SHA-256, \<open>rt5572/common/crypt_sha2.c\<close>: the block functions as the code
  computes them, the three operations of each context, and the proof that they compute
  the digests of FIPS 180-4.
\<close>

section \<open>Basic functions and constants\<close>

definition SHR :: "u32 \<Rightarrow> nat \<Rightarrow> u32" where
  "SHR x n = drop_bit n x"

definition Ch :: "u32 \<Rightarrow> u32 \<Rightarrow> u32 \<Rightarrow> u32" where
  "Ch x y z = (x AND y) XOR (NOT x AND z)"

definition Maj :: "u32 \<Rightarrow> u32 \<Rightarrow> u32 \<Rightarrow> u32" where
  "Maj x y z = (x AND y) XOR (x AND z) XOR (y AND z)"

definition Parity :: "u32 \<Rightarrow> u32 \<Rightarrow> u32 \<Rightarrow> u32" where
  "Parity x y z = x XOR y XOR z"

definition SHA1_K :: "u32 list" where
  "SHA1_K = [0x5a827999, 0x6ed9eba1, 0x8f1bbcdc, 0xca62c1d6]"

definition SHA1_DefaultHashValue :: "u32 list" where
  "SHA1_DefaultHashValue = [0x67452301, 0xefcdab89, 0x98badcfe, 0x10325476, 0xc3d2e1f0]"

definition Zsigma_256_0 :: "u32 \<Rightarrow> u32" where
  "Zsigma_256_0 x = ROTR32 x 2 XOR ROTR32 x 13 XOR ROTR32 x 22"

definition Zsigma_256_1 :: "u32 \<Rightarrow> u32" where
  "Zsigma_256_1 x = ROTR32 x 6 XOR ROTR32 x 11 XOR ROTR32 x 25"

definition Sigma_256_0 :: "u32 \<Rightarrow> u32" where
  "Sigma_256_0 x = ROTR32 x 7 XOR ROTR32 x 18 XOR SHR x 3"

definition Sigma_256_1 :: "u32 \<Rightarrow> u32" where
  "Sigma_256_1 x = ROTR32 x 17 XOR ROTR32 x 19 XOR SHR x 10"

definition SHA256_K :: "u32 list" where
  "SHA256_K =
     [0x428a2f98, 0x71374491, 0xb5c0fbcf, 0xe9b5dba5] @
     [0x3956c25b, 0x59f111f1, 0x923f82a4, 0xab1c5ed5] @
     [0xd807aa98, 0x12835b01, 0x243185be, 0x550c7dc3] @
     [0x72be5d74, 0x80deb1fe, 0x9bdc06a7, 0xc19bf174] @
     [0xe49b69c1, 0xefbe4786, 0x0fc19dc6, 0x240ca1cc] @
     [0x2de92c6f, 0x4a7484aa, 0x5cb0a9dc, 0x76f988da] @
     [0x983e5152, 0xa831c66d, 0xb00327c8, 0xbf597fc7] @
     [0xc6e00bf3, 0xd5a79147, 0x06ca6351, 0x14292967] @
     [0x27b70a85, 0x2e1b2138, 0x4d2c6dfc, 0x53380d13] @
     [0x650a7354, 0x766a0abb, 0x81c2c92e, 0x92722c85] @
     [0xa2bfe8a1, 0xa81a664b, 0xc24b8b70, 0xc76c51a3] @
     [0xd192e819, 0xd6990624, 0xf40e3585, 0x106aa070] @
     [0x19a4c116, 0x1e376c08, 0x2748774c, 0x34b0bcb5] @
     [0x391c0cb3, 0x4ed8aa4a, 0x5b9cca4f, 0x682e6ff3] @
     [0x748f82ee, 0x78a5636f, 0x84c87814, 0x8cc70208] @
     [0x90befffa, 0xa4506ceb, 0xbef9a3f7, 0xc67178f2]"

definition SHA256_DefaultHashValue :: "u32 list" where
  "SHA256_DefaultHashValue =
    [0x6a09e667, 0xbb67ae85, 0x3c6ef372, 0xa54ff53a, 0x510e527f, 0x9b05688c, 0x1f83d9ab,
     0x5be0cd19]"

section \<open>SHA-1\<close>

definition RT_SHA1_Init :: "hash_ctx \<Rightarrow> hash_ctx" where
  "RT_SHA1_Init ctx = ctx\<lparr>HashValue := SHA1_DefaultHashValue, Block := replicate 64 0,
     MessageLen := 0, BlockLen := 0\<rparr>"

text \<open>
  \<open>RT_SHA1_Hash\<close>: the message schedule, the four loops of 20 rounds and the new hash value.
\<close>

definition SHA1_schedule :: "bytes \<Rightarrow> u32 list" where
  "SHA1_schedule b =
     foldl (\<lambda>W i. W @ [ROTL32 (W ! (i - 3) XOR W ! (i - 8) XOR W ! (i - 14) XOR W ! (i - 16)) 1])
       (map cpu2be32 (load_words b)) [16..<80]"

type_synonym sha1_vars = "u32 \<times> u32 \<times> u32 \<times> u32 \<times> u32"

fun SHA1_round ::
  "(u32 \<Rightarrow> u32 \<Rightarrow> u32 \<Rightarrow> u32) \<Rightarrow> u32 \<Rightarrow> u32 list \<Rightarrow> sha1_vars \<Rightarrow> nat \<Rightarrow> sha1_vars" where
  "SHA1_round f_t K W (a, b, c, d, e) t =
     (let T = ROTL32 a 5 + f_t b c d + e + K + W ! t in (T, a, ROTL32 b 30, c, d))"

definition SHA1_compress :: "u32 list \<Rightarrow> bytes \<Rightarrow> u32 list" where
  "SHA1_compress H b =
     (let W = SHA1_schedule b;
          v0 = (H ! 0, H ! 1, H ! 2, H ! 3, H ! 4);
          v1 = foldl (SHA1_round Ch (SHA1_K ! 0) W) v0 [0..<20];
          v2 = foldl (SHA1_round Parity (SHA1_K ! 1) W) v1 [20..<40];
          v3 = foldl (SHA1_round Maj (SHA1_K ! 2) W) v2 [40..<60];
          (a, b, c, d, e) = foldl (SHA1_round Parity (SHA1_K ! 3) W) v3 [60..<80]
      in [H ! 0 + a, H ! 1 + b, H ! 2 + c, H ! 3 + d, H ! 4 + e])"

definition RT_SHA1_Hash :: "hash_ctx \<Rightarrow> hash_ctx" where
  "RT_SHA1_Hash = hash_block SHA1_compress"

definition RT_SHA1_Append :: "hash_ctx \<Rightarrow> bytes \<Rightarrow> hash_ctx option" where
  "RT_SHA1_Append = hash_append SHA1_compress"

definition RT_SHA1_End :: "hash_ctx \<Rightarrow> (hash_ctx \<times> bytes) option" where
  "RT_SHA1_End = hash_end SHA1_compress cpu2be64 cpu2be32"

text \<open>A context after \<open>NdisZeroMemory(&ctx, sizeof(ctx))\<close>; \<open>n\<close> is the number of hash words.\<close>

definition zero_ctx :: "nat \<Rightarrow> hash_ctx" where
  "zero_ctx n = \<lparr>HashValue = replicate n 0, MessageLen = 0, Block = replicate 64 0, BlockLen = 0\<rparr>"

definition RT_SHA1 :: "bytes \<Rightarrow> bytes option" where
  "RT_SHA1 msg = map_option snd
     (Option.bind (RT_SHA1_Append (RT_SHA1_Init (zero_ctx 5)) msg) RT_SHA1_End)"

section \<open>SHA-256\<close>

definition RT_SHA256_Init :: "hash_ctx \<Rightarrow> hash_ctx" where
  "RT_SHA256_Init ctx = ctx\<lparr>HashValue := SHA256_DefaultHashValue, Block := replicate 64 0,
     MessageLen := 0, BlockLen := 0\<rparr>"

type_synonym sha256_vars =
  "u32 \<times> u32 \<times> u32 \<times> u32 \<times> u32 \<times> u32 \<times> u32 \<times> u32"

text \<open>One turn of the loop, which extends the schedule from the 17th round on.\<close>

fun SHA256_round :: "u32 list \<times> sha256_vars \<Rightarrow> nat \<Rightarrow> u32 list \<times> sha256_vars" where
  "SHA256_round (W, (a, b, c, d, e, f, g, h)) t =
     (let W' = (if t > 15
                then W @ [Sigma_256_1 (W ! (t - 2)) + W ! (t - 7) + Sigma_256_0 (W ! (t - 15))
                          + W ! (t - 16)]
                else W);
          T1 = h + Zsigma_256_1 e + Ch e f g + SHA256_K ! t + W' ! t;
          T2 = Zsigma_256_0 a + Maj a b c
      in (W', (T1 + T2, a, b, c, d + T1, e, f, g)))"

definition SHA256_compress :: "u32 list \<Rightarrow> bytes \<Rightarrow> u32 list" where
  "SHA256_compress H blk =
     (let W = map cpu2be32 (load_words blk);
          (_, (a, b, c, d, e, f, g, h)) =
            foldl SHA256_round
              (W, (H ! 0, H ! 1, H ! 2, H ! 3, H ! 4, H ! 5, H ! 6, H ! 7)) [0..<64]
      in [H ! 0 + a, H ! 1 + b, H ! 2 + c, H ! 3 + d, H ! 4 + e, H ! 5 + f, H ! 6 + g, H ! 7 + h])"

definition RT_SHA256_Hash :: "hash_ctx \<Rightarrow> hash_ctx" where
  "RT_SHA256_Hash = hash_block SHA256_compress"

definition RT_SHA256_Append :: "hash_ctx \<Rightarrow> bytes \<Rightarrow> hash_ctx option" where
  "RT_SHA256_Append = hash_append SHA256_compress"

definition RT_SHA256_End :: "hash_ctx \<Rightarrow> (hash_ctx \<times> bytes) option" where
  "RT_SHA256_End = hash_end SHA256_compress cpu2be64 cpu2be32"

definition RT_SHA256 :: "bytes \<Rightarrow> bytes option" where
  "RT_SHA256 msg = map_option snd
     (Option.bind (RT_SHA256_Append (RT_SHA256_Init (zero_ctx 8)) msg) RT_SHA256_End)"

section \<open>FIPS 180-4\<close>

text \<open>
  The standard's functions with its indices: one function and one constant for each round,
  rotations as the library's \<open>word_rotl\<close> and \<open>word_rotr\<close>, words read big-endian, and the
  schedule by recursion on the index.
\<close>

definition fips_word :: "bytes \<Rightarrow> nat \<Rightarrow> u32" where
  "fips_word b t = be32 (drop (4 * t) b)"

fun fips1_W :: "bytes \<Rightarrow> nat \<Rightarrow> u32" where
  "fips1_W b t =
     (if t < 16 then fips_word b t
      else word_rotl 1 (fips1_W b (t - 3) XOR fips1_W b (t - 8) XOR fips1_W b (t - 14)
        XOR fips1_W b (t - 16)))"

declare fips1_W.simps [simp del]

definition fips1_f :: "nat \<Rightarrow> u32 \<Rightarrow> u32 \<Rightarrow> u32 \<Rightarrow> u32" where
  "fips1_f t x y z =
     (if t < 20 then (x AND y) XOR (NOT x AND z)
      else if t < 40 then x XOR y XOR z
      else if t < 60 then (x AND y) XOR (x AND z) XOR (y AND z)
      else x XOR y XOR z)"

definition fips1_K :: "nat \<Rightarrow> u32" where
  "fips1_K t = (if t < 20 then 0x5a827999 else if t < 40 then 0x6ed9eba1
     else if t < 60 then 0x8f1bbcdc else 0xca62c1d6)"

fun fips1_step :: "bytes \<Rightarrow> sha1_vars \<Rightarrow> nat \<Rightarrow> sha1_vars" where
  "fips1_step blk (a, b, c, d, e) t =
     (word_rotl 5 a + fips1_f t b c d + e + fips1_K t + fips1_W blk t, a, word_rotl 30 b, c, d)"

definition fips1_block :: "u32 list \<Rightarrow> bytes \<Rightarrow> u32 list" where
  "fips1_block H blk =
     (case foldl (fips1_step blk) (H ! 0, H ! 1, H ! 2, H ! 3, H ! 4) [0..<80] of
        (a, b, c, d, e) \<Rightarrow> [a + H ! 0, b + H ! 1, c + H ! 2, d + H ! 3, e + H ! 4])"

definition fips_sha1 :: "bytes \<Rightarrow> bytes" where
  "fips_sha1 = md_hash fips1_block
     [0x67452301, 0xefcdab89, 0x98badcfe, 0x10325476, 0xc3d2e1f0] put_be64 put_be32"

fun fips256_W :: "bytes \<Rightarrow> nat \<Rightarrow> u32" where
  "fips256_W b t =
     (if t < 16 then fips_word b t
      else let s0 = fips256_W b (t - 15); s1 = fips256_W b (t - 2) in
        (word_rotr 17 s1 XOR word_rotr 19 s1 XOR drop_bit 10 s1) + fips256_W b (t - 7)
        + (word_rotr 7 s0 XOR word_rotr 18 s0 XOR drop_bit 3 s0) + fips256_W b (t - 16))"

declare fips256_W.simps [simp del]

fun fips256_step :: "bytes \<Rightarrow> sha256_vars \<Rightarrow> nat \<Rightarrow> sha256_vars" where
  "fips256_step blk (a, b, c, d, e, f, g, h) t =
     (let T1 = h + (word_rotr 6 e XOR word_rotr 11 e XOR word_rotr 25 e)
            + ((e AND f) XOR (NOT e AND g)) + SHA256_K ! t + fips256_W blk t;
          T2 = (word_rotr 2 a XOR word_rotr 13 a XOR word_rotr 22 a)
            + ((a AND b) XOR (a AND c) XOR (b AND c))
      in (T1 + T2, a, b, c, d + T1, e, f, g))"

definition fips256_block :: "u32 list \<Rightarrow> bytes \<Rightarrow> u32 list" where
  "fips256_block H blk =
     (case foldl (fips256_step blk)
        (H ! 0, H ! 1, H ! 2, H ! 3, H ! 4, H ! 5, H ! 6, H ! 7) [0..<64] of
        (a, b, c, d, e, f, g, h) \<Rightarrow>
          [a + H ! 0, b + H ! 1, c + H ! 2, d + H ! 3, e + H ! 4, f + H ! 5, g + H ! 6, h + H ! 7])"

definition fips_sha256 :: "bytes \<Rightarrow> bytes" where
  "fips_sha256 = md_hash fips256_block SHA256_DefaultHashValue put_be64 put_be32"

section \<open>The block functions are those of the standard\<close>

lemma load_words_be32: "map cpu2be32 (load_words b) = map (fips_word b) [0..<16]"
  by (simp add: load_words_def fips_word_def cpu2be32_load comp_def)

lemma fips1_W_step:
  "16 \<le> t \<Longrightarrow> fips1_W b t = word_rotl 1 (fips1_W b (t - 3) XOR fips1_W b (t - 8)
     XOR fips1_W b (t - 14) XOR fips1_W b (t - 16))"
  by (subst fips1_W.simps) simp

lemma SHA1_schedule_fips: "SHA1_schedule b = map (fips1_W b) [0..<80]"
proof -
  have "map (fips_word b) [0..<16] = map (fips1_W b) [0..<16]"
    by (simp add: fips1_W.simps [of b])
  then show ?thesis
    unfolding SHA1_schedule_def load_words_be32
    by (simp only:) (rule foldl_schedule; simp add: fips1_W_step ROTL32_rotl)
qed

lemma SHA1_round_fips:
  assumes "t < 80" and "f = fips1_f t" and "K = fips1_K t"
  shows "SHA1_round f K (map (fips1_W blk) [0..<80]) v t = fips1_step blk v t"
  using assms by (cases v) (simp add: ROTL32_rotl Let_def)

lemma foldl_cong_on:
  "(\<And>v t. t \<in> set ts \<Longrightarrow> g v t = h v t) \<Longrightarrow> foldl g v ts = foldl h v ts"
  by (induction ts arbitrary: v) auto

lemma upt_split: "a \<le> b \<Longrightarrow> b \<le> c \<Longrightarrow> foldl g (foldl g v [a..<b]) [b..<c] = foldl g v [a..<c]"
  by (metis foldl_append le_Suc_ex upt_add_eq_append)

lemma SHA1_compress_fips: "SHA1_compress = fips1_block"
proof (intro ext)
  fix H blk
  let ?W = "map (fips1_W blk) [0..<80]" and ?s = "fips1_step blk"
  have loop: "foldl (SHA1_round f K ?W) v [i..<j] = foldl ?s v [i..<j]"
    if "j \<le> 80" and "\<And>t. i \<le> t \<Longrightarrow> t < j \<Longrightarrow> f = fips1_f t \<and> K = fips1_K t" for f K v i j
    by (rule foldl_cong_on) (use that in \<open>auto intro!: SHA1_round_fips\<close>)
  have l0: "foldl (SHA1_round Ch (SHA1_K ! 0) ?W) v [0..<20] = foldl ?s v [0..<20]" for v
    by (rule loop) (auto simp: fips1_f_def fips1_K_def Ch_def SHA1_K_def fun_eq_iff)
  have l1: "foldl (SHA1_round Parity (SHA1_K ! 1) ?W) v [20..<40] = foldl ?s v [20..<40]" for v
    by (rule loop) (auto simp: fips1_f_def fips1_K_def Parity_def SHA1_K_def fun_eq_iff)
  have l2: "foldl (SHA1_round Maj (SHA1_K ! 2) ?W) v [40..<60] = foldl ?s v [40..<60]" for v
    by (rule loop) (auto simp: fips1_f_def fips1_K_def Maj_def SHA1_K_def fun_eq_iff)
  have l3: "foldl (SHA1_round Parity (SHA1_K ! 3) ?W) v [60..<80] = foldl ?s v [60..<80]" for v
    by (rule loop) (auto simp: fips1_f_def fips1_K_def Parity_def SHA1_K_def fun_eq_iff)
  have all: "foldl ?s (foldl ?s (foldl ?s (foldl ?s v [0..<20]) [20..<40]) [40..<60]) [60..<80]
      = foldl ?s v [0..<80]" for v
    by (simp only: upt_split zero_le_numeral numeral_le_iff semiring_norm)
  show "SHA1_compress H blk = fips1_block H blk"
    unfolding SHA1_compress_def fips1_block_def SHA1_schedule_fips Let_def l0 l1 l2 l3 all
    by (simp only: add.commute)
qed

lemma fips256_W_step:
  "16 \<le> t \<Longrightarrow> fips256_W b t = Sigma_256_1 (fips256_W b (t - 2)) + fips256_W b (t - 7)
     + Sigma_256_0 (fips256_W b (t - 15)) + fips256_W b (t - 16)"
  by (subst fips256_W.simps)
    (simp add: Let_def Sigma_256_0_def Sigma_256_1_def SHR_def ROTR32_rotr)

text \<open>
  The loop of SHA-256 extends the schedule while it runs the rounds: before round \<open>t\<close> it
  holds the words up to index \<open>max 16 t\<close>.
\<close>

lemma SHA256_round_fips:
  "SHA256_round (map (fips256_W blk) [0..<max 16 t], v) t
     = (map (fips256_W blk) [0..<max 16 (Suc t)], fips256_step blk v t)"
proof -
  obtain a b c d e f g h where v: "v = (a, b, c, d, e, f, g, h)" by (cases v) auto
  let ?W' = "if t > 15
    then map (fips256_W blk) [0..<max 16 t] @ [Sigma_256_1 (map (fips256_W blk) [0..<max 16 t] ! (t - 2))
      + map (fips256_W blk) [0..<max 16 t] ! (t - 7)
      + Sigma_256_0 (map (fips256_W blk) [0..<max 16 t] ! (t - 15))
      + map (fips256_W blk) [0..<max 16 t] ! (t - 16)]
    else map (fips256_W blk) [0..<max 16 t]"
  have W': "?W' = map (fips256_W blk) [0..<max 16 (Suc t)]"
  proof (cases "t > 15")
    case True
    then have m: "max 16 t = t" "max 16 (Suc t) = Suc t" by simp_all
    show ?thesis using True unfolding m by (simp add: fips256_W_step [of t])
  qed (simp add: max_def)
  have "t < max 16 (Suc t)" by simp
  then have wt: "map (fips256_W blk) [0..<max 16 (Suc t)] ! t = fips256_W blk t"
    by (simp only: nth_map length_upt nth_upt diff_zero add_0)
  show ?thesis
    unfolding v SHA256_round.simps W' Let_def wt
    by (simp add: Zsigma_256_0_def Zsigma_256_1_def ROTR32_rotr Ch_def Maj_def Let_def)
qed

lemma SHA256_compress_fips: "SHA256_compress = fips256_block"
proof (intro ext)
  fix H blk
  have run: "foldl SHA256_round (map (fips256_W blk) [0..<16], v) [0..<n]
    = (map (fips256_W blk) [0..<max 16 n], foldl (fips256_step blk) v [0..<n])" for v n
    by (induction n) (simp_all add: SHA256_round_fips del: SHA256_round.simps)
  have W0: "map (fips_word blk) [0..<16] = map (fips256_W blk) [0..<16]"
    by (simp add: fips256_W.simps [of blk])
  show "SHA256_compress H blk = fips256_block H blk"
    unfolding SHA256_compress_def fips256_block_def load_words_be32 W0 Let_def run
    by (simp only: prod.case add.commute)
qed

section \<open>The digests\<close>

lemma length_fips1_block: "length h = 5 \<Longrightarrow> length (fips1_block h b) = 5"
  by (simp add: fips1_block_def split: prod.split)

lemma length_fips256_block: "length h = 8 \<Longrightarrow> length (fips256_block h b) = 8"
  by (simp add: fips256_block_def split: prod.split)

lemma RT_SHA1_Init_eq: "RT_SHA1_Init ctx = hash_init SHA1_DefaultHashValue"
  by (cases ctx) (simp add: RT_SHA1_Init_def hash_init_def)

lemma RT_SHA256_Init_eq: "RT_SHA256_Init ctx = hash_init SHA256_DefaultHashValue"
  by (cases ctx) (simp add: RT_SHA256_Init_def hash_init_def)

abbreviation sha1_taken :: "hash_ctx \<Rightarrow> bytes \<Rightarrow> bool" where
  "sha1_taken \<equiv> absorbed fips1_block SHA1_DefaultHashValue"

abbreviation sha256_taken :: "hash_ctx \<Rightarrow> bytes \<Rightarrow> bool" where
  "sha256_taken \<equiv> absorbed fips256_block SHA256_DefaultHashValue"

interpretation sha1: message_digest "RT_SHA1_Init (zero_ctx 5)" RT_SHA1_Append RT_SHA1_End
  sha1_taken fips_sha1 20
proof -
  have "message_digest (hash_init SHA1_DefaultHashValue) (hash_append fips1_block)
    (hash_end fips1_block cpu2be64 cpu2be32) sha1_taken
    (md_hash fips1_block SHA1_DefaultHashValue put_be64 put_be32) (4 * 5)"
    by (rule hash_message_digest)
      (simp_all add: length_fips1_block SHA1_DefaultHashValue_def store_cpu2be64 store_cpu2be32)
  then show "message_digest (RT_SHA1_Init (zero_ctx 5)) RT_SHA1_Append RT_SHA1_End
      sha1_taken fips_sha1 20"
    by (simp add: RT_SHA1_Init_eq RT_SHA1_Append_def RT_SHA1_End_def SHA1_compress_fips
        fips_sha1_def SHA1_DefaultHashValue_def)
qed

interpretation sha256: message_digest "RT_SHA256_Init (zero_ctx 8)" RT_SHA256_Append RT_SHA256_End
  sha256_taken fips_sha256 32
proof -
  have "message_digest (hash_init SHA256_DefaultHashValue) (hash_append fips256_block)
    (hash_end fips256_block cpu2be64 cpu2be32) sha256_taken
    (md_hash fips256_block SHA256_DefaultHashValue put_be64 put_be32) (4 * 8)"
    by (rule hash_message_digest)
      (simp_all add: length_fips256_block SHA256_DefaultHashValue_def store_cpu2be64 store_cpu2be32)
  then show "message_digest (RT_SHA256_Init (zero_ctx 8)) RT_SHA256_Append RT_SHA256_End
      sha256_taken fips_sha256 32"
    by (simp add: RT_SHA256_Init_eq RT_SHA256_Append_def RT_SHA256_End_def SHA256_compress_fips
        fips_sha256_def)
qed

lemma RT_SHA1_digest:
  "length msg + 64 < 4294967296 \<Longrightarrow> RT_SHA1 msg = Some (fips_sha1 msg)"
  using sha1.one_chunk [of msg] by (auto simp: RT_SHA1_def)

lemma RT_SHA256_digest:
  "length msg + 64 < 4294967296 \<Longrightarrow> RT_SHA256 msg = Some (fips_sha256 msg)"
  using sha256.one_chunk [of msg] by (auto simp: RT_SHA256_def)

section \<open>Properties\<close>

text \<open>however a message is cut into pieces, initialising a SHA-256 context with anything in
  it, appending the pieces in order and ending gives the SHA-256 digest of FIPS 180-4 of the
  whole message. No piece may be so long that the 32-bit sum of lengths wraps.\<close>

theorem RT_SHA256_pieces:
  assumes "\<forall>x \<in> set pieces. length x + 64 < 4294967296"
  shows "map_option snd (Option.bind (feed RT_SHA256_Append (RT_SHA256_Init ctx) pieces) RT_SHA256_End)
    = Some (fips_sha256 (concat pieces))"
  using sha256.digest_of_chunks [OF assms] by (auto simp: RT_SHA256_Init_eq)

theorem RT_SHA256_pieces_witness:
  "map_option snd (Option.bind (feed RT_SHA256_Append (RT_SHA256_Init (zero_ctx 8)) [[0x61], [0x62, 0x63]])
     RT_SHA256_End) = Some (fips_sha256 [0x61, 0x62, 0x63])"
  using RT_SHA256_pieces [of "[[0x61], [0x62, 0x63]]" "zero_ctx 8"] by simp

text \<open>the same for SHA-1.\<close>

theorem RT_SHA1_pieces:
  assumes "\<forall>x \<in> set pieces. length x + 64 < 4294967296"
  shows "map_option snd (Option.bind (feed RT_SHA1_Append (RT_SHA1_Init ctx) pieces) RT_SHA1_End)
    = Some (fips_sha1 (concat pieces))"
  using sha1.digest_of_chunks [OF assms] by (auto simp: RT_SHA1_Init_eq)

theorem RT_SHA1_pieces_witness:
  "map_option snd (Option.bind (feed RT_SHA1_Append (RT_SHA1_Init (zero_ctx 5)) [[0x61], [0x62, 0x63]])
     RT_SHA1_End) = Some (fips_sha1 [0x61, 0x62, 0x63])"
  using RT_SHA1_pieces [of "[[0x61], [0x62, 0x63]]" "zero_ctx 5"] by simp

end
