(* ===== verification/Crypt_Md5.thy ===== *)
theory Crypt_Md5
  imports Hash_Stream
begin

text \<open>
  MD5, \<open>rt5572/common/crypt_md5.c\<close>: the 64 macro calls of the block function in the order
  of the code, the operations of the context, and the proof that they compute the digest
  of RFC 1321.
\<close>

section \<open>The block function\<close>

definition MD5_F :: "u32 \<Rightarrow> u32 \<Rightarrow> u32 \<Rightarrow> u32" where
  "MD5_F x y z = (x AND y) OR (NOT x AND z)"

definition MD5_G :: "u32 \<Rightarrow> u32 \<Rightarrow> u32 \<Rightarrow> u32" where
  "MD5_G x y z = (x AND z) OR (y AND NOT z)"

definition MD5_H :: "u32 \<Rightarrow> u32 \<Rightarrow> u32 \<Rightarrow> u32" where
  "MD5_H x y z = x XOR y XOR z"

definition MD5_I :: "u32 \<Rightarrow> u32 \<Rightarrow> u32 \<Rightarrow> u32" where
  "MD5_I x y z = y XOR (x OR NOT z)"

text \<open>
  The macros assign to their first argument: \<open>ROUND1\<close> to \<open>ROUND4\<close> give its new value.
\<close>

type_synonym md5_macro = "u32 \<Rightarrow> u32 \<Rightarrow> u32 \<Rightarrow> u32 \<Rightarrow> u32 \<Rightarrow> nat \<Rightarrow> u32 \<Rightarrow> u32"

definition ROUND1 :: md5_macro where
  "ROUND1 a b c d x s ac = ROTL32 (a + (MD5_F b c d + x + ac)) s + b"

definition ROUND2 :: md5_macro where
  "ROUND2 a b c d x s ac = ROTL32 (a + (MD5_G b c d + x + ac)) s + b"

definition ROUND3 :: md5_macro where
  "ROUND3 a b c d x s ac = ROTL32 (a + (MD5_H b c d + x + ac)) s + b"

definition ROUND4 :: md5_macro where
  "ROUND4 a b c d x s ac = ROTL32 (a + (MD5_I b c d + x + ac)) s + b"

text \<open>
  The calls permute the four variables: \<open>to_a R\<close> is the call \<open>R(a, b, c, d, \<dots>)\<close>, \<open>to_d R\<close> the
  call \<open>R(d, a, b, c, \<dots>)\<close>, and so on.
\<close>

type_synonym md5_vars = "u32 \<times> u32 \<times> u32 \<times> u32"

fun to_a :: "md5_macro \<Rightarrow> u32 \<Rightarrow> nat \<Rightarrow> u32 \<Rightarrow> md5_vars \<Rightarrow> md5_vars" where
  "to_a R x s ac (a, b, c, d) = (R a b c d x s ac, b, c, d)"

fun to_d :: "md5_macro \<Rightarrow> u32 \<Rightarrow> nat \<Rightarrow> u32 \<Rightarrow> md5_vars \<Rightarrow> md5_vars" where
  "to_d R x s ac (a, b, c, d) = (a, b, c, R d a b c x s ac)"

fun to_c :: "md5_macro \<Rightarrow> u32 \<Rightarrow> nat \<Rightarrow> u32 \<Rightarrow> md5_vars \<Rightarrow> md5_vars" where
  "to_c R x s ac (a, b, c, d) = (a, b, R c d a b x s ac, d)"

fun to_b :: "md5_macro \<Rightarrow> u32 \<Rightarrow> nat \<Rightarrow> u32 \<Rightarrow> md5_vars \<Rightarrow> md5_vars" where
  "to_b R x s ac (a, b, c, d) = (a, R b c d a x s ac, c, d)"

definition MD5_ops1 :: "u32 list \<Rightarrow> (md5_vars \<Rightarrow> md5_vars) list" where
  "MD5_ops1 X =
    [to_a ROUND1 (X ! 0) 7 0xd76aa478,
     to_d ROUND1 (X ! 1) 12 0xe8c7b756,
     to_c ROUND1 (X ! 2) 17 0x242070db,
     to_b ROUND1 (X ! 3) 22 0xc1bdceee,
     to_a ROUND1 (X ! 4) 7 0xf57c0faf,
     to_d ROUND1 (X ! 5) 12 0x4787c62a,
     to_c ROUND1 (X ! 6) 17 0xa8304613,
     to_b ROUND1 (X ! 7) 22 0xfd469501,
     to_a ROUND1 (X ! 8) 7 0x698098d8,
     to_d ROUND1 (X ! 9) 12 0x8b44f7af,
     to_c ROUND1 (X ! 10) 17 0xffff5bb1,
     to_b ROUND1 (X ! 11) 22 0x895cd7be,
     to_a ROUND1 (X ! 12) 7 0x6b901122,
     to_d ROUND1 (X ! 13) 12 0xfd987193,
     to_c ROUND1 (X ! 14) 17 0xa679438e,
     to_b ROUND1 (X ! 15) 22 0x49b40821]"

definition MD5_ops2 :: "u32 list \<Rightarrow> (md5_vars \<Rightarrow> md5_vars) list" where
  "MD5_ops2 X =
    [to_a ROUND2 (X ! 1) 5 0xf61e2562,
     to_d ROUND2 (X ! 6) 9 0xc040b340,
     to_c ROUND2 (X ! 11) 14 0x265e5a51,
     to_b ROUND2 (X ! 0) 20 0xe9b6c7aa,
     to_a ROUND2 (X ! 5) 5 0xd62f105d,
     to_d ROUND2 (X ! 10) 9 0x2441453,
     to_c ROUND2 (X ! 15) 14 0xd8a1e681,
     to_b ROUND2 (X ! 4) 20 0xe7d3fbc8,
     to_a ROUND2 (X ! 9) 5 0x21e1cde6,
     to_d ROUND2 (X ! 14) 9 0xc33707d6,
     to_c ROUND2 (X ! 3) 14 0xf4d50d87,
     to_b ROUND2 (X ! 8) 20 0x455a14ed,
     to_a ROUND2 (X ! 13) 5 0xa9e3e905,
     to_d ROUND2 (X ! 2) 9 0xfcefa3f8,
     to_c ROUND2 (X ! 7) 14 0x676f02d9,
     to_b ROUND2 (X ! 12) 20 0x8d2a4c8a]"

definition MD5_ops3 :: "u32 list \<Rightarrow> (md5_vars \<Rightarrow> md5_vars) list" where
  "MD5_ops3 X =
    [to_a ROUND3 (X ! 5) 4 0xfffa3942,
     to_d ROUND3 (X ! 8) 11 0x8771f681,
     to_c ROUND3 (X ! 11) 16 0x6d9d6122,
     to_b ROUND3 (X ! 14) 23 0xfde5380c,
     to_a ROUND3 (X ! 1) 4 0xa4beea44,
     to_d ROUND3 (X ! 4) 11 0x4bdecfa9,
     to_c ROUND3 (X ! 7) 16 0xf6bb4b60,
     to_b ROUND3 (X ! 10) 23 0xbebfbc70,
     to_a ROUND3 (X ! 13) 4 0x289b7ec6,
     to_d ROUND3 (X ! 0) 11 0xeaa127fa,
     to_c ROUND3 (X ! 3) 16 0xd4ef3085,
     to_b ROUND3 (X ! 6) 23 0x4881d05,
     to_a ROUND3 (X ! 9) 4 0xd9d4d039,
     to_d ROUND3 (X ! 12) 11 0xe6db99e5,
     to_c ROUND3 (X ! 15) 16 0x1fa27cf8,
     to_b ROUND3 (X ! 2) 23 0xc4ac5665]"

definition MD5_ops4 :: "u32 list \<Rightarrow> (md5_vars \<Rightarrow> md5_vars) list" where
  "MD5_ops4 X =
    [to_a ROUND4 (X ! 0) 6 0xf4292244,
     to_d ROUND4 (X ! 7) 10 0x432aff97,
     to_c ROUND4 (X ! 14) 15 0xab9423a7,
     to_b ROUND4 (X ! 5) 21 0xfc93a039,
     to_a ROUND4 (X ! 12) 6 0x655b59c3,
     to_d ROUND4 (X ! 3) 10 0x8f0ccc92,
     to_c ROUND4 (X ! 10) 15 0xffeff47d,
     to_b ROUND4 (X ! 1) 21 0x85845dd1,
     to_a ROUND4 (X ! 8) 6 0x6fa87e4f,
     to_d ROUND4 (X ! 15) 10 0xfe2ce6e0,
     to_c ROUND4 (X ! 6) 15 0xa3014314,
     to_b ROUND4 (X ! 13) 21 0x4e0811a1,
     to_a ROUND4 (X ! 4) 6 0xf7537e82,
     to_d ROUND4 (X ! 11) 10 0xbd3af235,
     to_c ROUND4 (X ! 2) 15 0x2ad7d2bb,
     to_b ROUND4 (X ! 9) 21 0xeb86d391]"

definition MD5_DefaultHashValue :: "u32 list" where
  "MD5_DefaultHashValue = [0x67452301, 0xefcdab89, 0x98badcfe, 0x10325476]"

definition MD5_compress :: "u32 list \<Rightarrow> bytes \<Rightarrow> u32 list" where
  "MD5_compress H blk =
     (let X = map cpu2le32 (load_words blk);
          (a, b, c, d) = foldl (\<lambda>v call. call v) (H ! 0, H ! 1, H ! 2, H ! 3)
            (MD5_ops1 X @ MD5_ops2 X @ MD5_ops3 X @ MD5_ops4 X)
      in [H ! 0 + a, H ! 1 + b, H ! 2 + c, H ! 3 + d])"

definition RT_MD5_Init :: "hash_ctx \<Rightarrow> hash_ctx" where
  "RT_MD5_Init ctx = ctx\<lparr>HashValue := MD5_DefaultHashValue, Block := replicate 64 0,
     BlockLen := 0, MessageLen := 0\<rparr>"

definition RT_MD5_Hash :: "hash_ctx \<Rightarrow> hash_ctx" where
  "RT_MD5_Hash = hash_block MD5_compress"

definition RT_MD5_Append :: "hash_ctx \<Rightarrow> bytes \<Rightarrow> hash_ctx option" where
  "RT_MD5_Append = hash_append MD5_compress"

definition RT_MD5_End :: "hash_ctx \<Rightarrow> (hash_ctx \<times> bytes) option" where
  "RT_MD5_End = hash_end MD5_compress cpu2le64 cpu2le32"

text \<open>A context after \<open>NdisZeroMemory\<close>.\<close>

definition zero_md5_ctx :: hash_ctx where
  "zero_md5_ctx =
     \<lparr>HashValue = replicate 4 0, MessageLen = 0, Block = replicate 64 0, BlockLen = 0\<rparr>"

definition RT_MD5 :: "bytes \<Rightarrow> bytes option" where
  "RT_MD5 msg = map_option snd
     (Option.bind (RT_MD5_Append (RT_MD5_Init zero_md5_ctx) msg) RT_MD5_End)"

section \<open>RFC 1321\<close>

text \<open>
  The standard's operation \<open>i\<close> (counted from 0), with the four variables rotated after each
  operation: the auxiliary function and the shift amounts depend on \<open>i div 16\<close>, the word
  index is \<open>i\<close>, \<open>5i + 1\<close>, \<open>3i + 5\<close> or \<open>7i\<close> modulo 16, and \<open>rfc_T\<close> is the table of
  \<open>4294967296 * abs(sin(i))\<close>.
\<close>

definition rfc_T :: "u32 list" where
  "rfc_T =
    [0xd76aa478, 0xe8c7b756, 0x242070db, 0xc1bdceee, 0xf57c0faf, 0x4787c62a,
     0xa8304613, 0xfd469501, 0x698098d8, 0x8b44f7af, 0xffff5bb1, 0x895cd7be,
     0x6b901122, 0xfd987193, 0xa679438e, 0x49b40821, 0xf61e2562, 0xc040b340,
     0x265e5a51, 0xe9b6c7aa, 0xd62f105d, 0x2441453, 0xd8a1e681, 0xe7d3fbc8,
     0x21e1cde6, 0xc33707d6, 0xf4d50d87, 0x455a14ed, 0xa9e3e905, 0xfcefa3f8,
     0x676f02d9, 0x8d2a4c8a, 0xfffa3942, 0x8771f681, 0x6d9d6122, 0xfde5380c,
     0xa4beea44, 0x4bdecfa9, 0xf6bb4b60, 0xbebfbc70, 0x289b7ec6, 0xeaa127fa,
     0xd4ef3085, 0x4881d05, 0xd9d4d039, 0xe6db99e5, 0x1fa27cf8, 0xc4ac5665,
     0xf4292244, 0x432aff97, 0xab9423a7, 0xfc93a039, 0x655b59c3, 0x8f0ccc92,
     0xffeff47d, 0x85845dd1, 0x6fa87e4f, 0xfe2ce6e0, 0xa3014314, 0x4e0811a1,
     0xf7537e82, 0xbd3af235, 0x2ad7d2bb, 0xeb86d391]"

definition rfc_fun :: "nat \<Rightarrow> u32 \<Rightarrow> u32 \<Rightarrow> u32 \<Rightarrow> u32" where
  "rfc_fun i x y z =
     (if i < 16 then (x AND y) OR (NOT x AND z)
      else if i < 32 then (x AND z) OR (y AND NOT z)
      else if i < 48 then x XOR y XOR z
      else y XOR (x OR NOT z))"

definition rfc_k :: "nat \<Rightarrow> nat" where
  "rfc_k i = (if i < 16 then i else if i < 32 then (5 * i + 1) mod 16
     else if i < 48 then (3 * i + 5) mod 16 else 7 * i mod 16)"

definition rfc_s :: "nat \<Rightarrow> nat" where
  "rfc_s i = [[7, 12, 17, 22], [5, 9, 14, 20], [4, 11, 16, 23], [6, 10, 15, 21]]
     ! (i div 16) ! (i mod 4)"

definition rfc_op :: "u32 list \<Rightarrow> nat \<Rightarrow> u32 \<Rightarrow> u32 \<Rightarrow> u32 \<Rightarrow> u32 \<Rightarrow> u32" where
  "rfc_op X i a b c d =
     b + word_rotl (rfc_s i) (a + rfc_fun i b c d + X ! rfc_k i + rfc_T ! i)"

fun rfc_step :: "u32 list \<Rightarrow> md5_vars \<Rightarrow> nat \<Rightarrow> md5_vars" where
  "rfc_step X (a, b, c, d) i = (d, rfc_op X i a b c d, b, c)"

definition rfc_block :: "u32 list \<Rightarrow> bytes \<Rightarrow> u32 list" where
  "rfc_block H blk =
     (case foldl (rfc_step (load_words blk)) (H ! 0, H ! 1, H ! 2, H ! 3) [0..<64] of
        (a, b, c, d) \<Rightarrow> [a + H ! 0, b + H ! 1, c + H ! 2, d + H ! 3])"

definition rfc_md5 :: "bytes \<Rightarrow> bytes" where
  "rfc_md5 = md_hash rfc_block [0x67452301, 0xefcdab89, 0x98badcfe, 0x10325476] store64 store32"

section \<open>The unrolled calls are the operations of the standard\<close>

text \<open>
  Four operations of the standard bring the variables back to their places; they are the
  four calls that assign to \<open>a\<close>, \<open>d\<close>, \<open>c\<close> and \<open>b\<close>.
\<close>

definition run_calls :: "(md5_vars \<Rightarrow> md5_vars) list \<Rightarrow> md5_vars \<Rightarrow> md5_vars" where
  "run_calls calls v = foldl (\<lambda>v call. call v) v calls"

lemma run_calls_append: "run_calls (xs @ ys) v = run_calls ys (run_calls xs v)"
  by (simp add: run_calls_def)

definition quad :: "md5_macro \<Rightarrow> u32 list \<Rightarrow> nat \<Rightarrow> (md5_vars \<Rightarrow> md5_vars) list" where
  "quad R X i =
    [to_a R (X ! rfc_k i) (rfc_s i) (rfc_T ! i),
     to_d R (X ! rfc_k (i + 1)) (rfc_s (i + 1)) (rfc_T ! (i + 1)),
     to_c R (X ! rfc_k (i + 2)) (rfc_s (i + 2)) (rfc_T ! (i + 2)),
     to_b R (X ! rfc_k (i + 3)) (rfc_s (i + 3)) (rfc_T ! (i + 3))]"

lemma run_quad:
  assumes "\<And>j a b c d. i \<le> j \<Longrightarrow> j < i + 4 \<Longrightarrow>
    R a b c d (X ! rfc_k j) (rfc_s j) (rfc_T ! j) = rfc_op X j a b c d"
  shows "run_calls (quad R X i) v = foldl (rfc_step X) v [i..<i + 4]"
proof -
  have "[i..<i + 4] = [i, i + 1, i + 2, i + 3]" by (simp add: upt_rec)
  then show ?thesis by (cases v) (simp add: run_calls_def quad_def assms)
qed

lemma rfc_s_bound: "i < 64 \<Longrightarrow> 0 < rfc_s i \<and> rfc_s i < 32"
proof -
  have "list_all (\<lambda>i. 0 < rfc_s i \<and> rfc_s i < 32) [0..<64]" by code_simp
  then show "i < 64 \<Longrightarrow> ?thesis" by (simp only: list_all_iff set_upt) auto
qed

lemma ROUND_rfc:
  "i < 16 \<Longrightarrow> ROUND1 a b c d (X ! rfc_k i) (rfc_s i) (rfc_T ! i) = rfc_op X i a b c d"
  "16 \<le> i \<Longrightarrow> i < 32 \<Longrightarrow> ROUND2 a b c d (X ! rfc_k i) (rfc_s i) (rfc_T ! i) = rfc_op X i a b c d"
  "32 \<le> i \<Longrightarrow> i < 48 \<Longrightarrow> ROUND3 a b c d (X ! rfc_k i) (rfc_s i) (rfc_T ! i) = rfc_op X i a b c d"
  "48 \<le> i \<Longrightarrow> i < 64 \<Longrightarrow> ROUND4 a b c d (X ! rfc_k i) (rfc_s i) (rfc_T ! i) = rfc_op X i a b c d"
  using rfc_s_bound [of i]
  by (simp_all add: rfc_op_def ROUND1_def ROUND2_def ROUND3_def ROUND4_def MD5_F_def MD5_G_def
      MD5_H_def MD5_I_def rfc_fun_def ROTL32_rotl ac_simps)

lemma MD5_ops_quads:
  "MD5_ops1 X = quad ROUND1 X 0 @ quad ROUND1 X 4 @ quad ROUND1 X 8 @ quad ROUND1 X 12"
  "MD5_ops2 X = quad ROUND2 X 16 @ quad ROUND2 X 20 @ quad ROUND2 X 24 @ quad ROUND2 X 28"
  "MD5_ops3 X = quad ROUND3 X 32 @ quad ROUND3 X 36 @ quad ROUND3 X 40 @ quad ROUND3 X 44"
  "MD5_ops4 X = quad ROUND4 X 48 @ quad ROUND4 X 52 @ quad ROUND4 X 56 @ quad ROUND4 X 60"
  by (simp_all add: MD5_ops1_def MD5_ops2_def MD5_ops3_def MD5_ops4_def quad_def
      rfc_k_def rfc_s_def rfc_T_def flip: numeral_2_eq_2)

lemma run_quads:
  assumes "\<And>j a b c d. i \<le> j \<Longrightarrow> j < i + 16 \<Longrightarrow>
    R a b c d (X ! rfc_k j) (rfc_s j) (rfc_T ! j) = rfc_op X j a b c d"
  shows "run_calls (quad R X i @ quad R X (i + 4) @ quad R X (i + 8) @ quad R X (i + 12)) v
    = foldl (rfc_step X) v [i..<i + 16]"
proof -
  have "[i..<i + 16] = [i..<i + 4] @ [i + 4..<i + 8] @ [i + 8..<i + 12] @ [i + 12..<i + 16]"
    using upt_add_eq_append [of i "i + 4" 12] upt_add_eq_append [of "i + 4" "i + 8" 8]
      upt_add_eq_append [of "i + 8" "i + 12" 4]
    by (simp add: add.commute [of i 16])
  moreover have "run_calls (quad R X i) v = foldl (rfc_step X) v [i..<i + 4]"
    "run_calls (quad R X (i + 4)) w = foldl (rfc_step X) w [i + 4..<i + 8]"
    "run_calls (quad R X (i + 8)) w = foldl (rfc_step X) w [i + 8..<i + 12]"
    "run_calls (quad R X (i + 12)) w = foldl (rfc_step X) w [i + 12..<i + 16]" for w
    using run_quad [of i R X] run_quad [of "i + 4" R X] run_quad [of "i + 8" R X]
      run_quad [of "i + 12" R X] assms by (simp_all add: add.assoc)
  ultimately show ?thesis by (simp only: run_calls_append foldl_append)
qed

lemma MD5_compress_rfc: "MD5_compress = rfc_block"
proof (intro ext)
  fix H blk
  let ?X = "load_words blk" and ?s = "rfc_step (load_words blk)"
  have r1: "run_calls (MD5_ops1 ?X) v = foldl ?s v [0..<16]" for v
    using run_quads [of 0 ROUND1 ?X v] by (simp add: MD5_ops_quads ROUND_rfc)
  have r2: "run_calls (MD5_ops2 ?X) v = foldl ?s v [16..<32]" for v
    using run_quads [of 16 ROUND2 ?X v] by (simp add: MD5_ops_quads ROUND_rfc)
  have r3: "run_calls (MD5_ops3 ?X) v = foldl ?s v [32..<48]" for v
    using run_quads [of 32 ROUND3 ?X v] by (simp add: MD5_ops_quads ROUND_rfc)
  have r4: "run_calls (MD5_ops4 ?X) v = foldl ?s v [48..<64]" for v
    using run_quads [of 48 ROUND4 ?X v] by (simp add: MD5_ops_quads ROUND_rfc)
  have "[0..<64] = [0..<16] @ [16..<32] @ [32..<48] @ [48..<64]"
    using upt_add_eq_append [of 0 16 48] upt_add_eq_append [of 16 32 32]
      upt_add_eq_append [of 32 48 16] by simp
  then have all: "run_calls (MD5_ops1 ?X @ MD5_ops2 ?X @ MD5_ops3 ?X @ MD5_ops4 ?X) v
      = foldl ?s v [0..<64]" for v
    by (simp only: run_calls_append r1 r2 r3 r4 foldl_append)
  have X: "map cpu2le32 ?X = ?X" by (rule map_idI) (simp add: cpu2le32_def)
  show "MD5_compress H blk = rfc_block H blk"
    unfolding MD5_compress_def rfc_block_def X Let_def run_calls_def [symmetric] all
    by (simp only: add.commute)
qed

section \<open>The digest\<close>

lemma length_rfc_block: "length h = 4 \<Longrightarrow> length (rfc_block h b) = 4"
  by (simp add: rfc_block_def split: prod.split)

lemma RT_MD5_Init_eq: "RT_MD5_Init ctx = hash_init MD5_DefaultHashValue"
  by (cases ctx) (simp add: RT_MD5_Init_def hash_init_def)

abbreviation md5_taken :: "hash_ctx \<Rightarrow> bytes \<Rightarrow> bool" where
  "md5_taken \<equiv> absorbed rfc_block MD5_DefaultHashValue"

interpretation md5: message_digest "RT_MD5_Init zero_md5_ctx" RT_MD5_Append RT_MD5_End
  md5_taken rfc_md5 16
proof -
  have "message_digest (hash_init MD5_DefaultHashValue) (hash_append rfc_block)
    (hash_end rfc_block cpu2le64 cpu2le32) md5_taken
    (md_hash rfc_block MD5_DefaultHashValue store64 store32) (4 * 4)"
    by (rule hash_message_digest)
      (simp_all add: length_rfc_block MD5_DefaultHashValue_def cpu2le64_def cpu2le32_def)
  then show "message_digest (RT_MD5_Init zero_md5_ctx) RT_MD5_Append RT_MD5_End
      md5_taken rfc_md5 16"
    by (simp add: RT_MD5_Init_eq RT_MD5_Append_def RT_MD5_End_def MD5_compress_rfc
        rfc_md5_def MD5_DefaultHashValue_def)
qed

lemma RT_MD5_digest:
  "length msg + 64 < 4294967296 \<Longrightarrow> RT_MD5 msg = Some (rfc_md5 msg)"
  using md5.one_chunk [of msg] by (auto simp: RT_MD5_def)

section \<open>Property\<close>

text \<open>however a message is cut into pieces, initialising an MD5 context with anything in it,
  appending the pieces in order and ending gives the MD5 digest of RFC 1321 of the whole
  message.\<close>

theorem RT_MD5_pieces:
  assumes "\<forall>x \<in> set pieces. length x + 64 < 4294967296"
  shows "map_option snd (Option.bind (feed RT_MD5_Append (RT_MD5_Init ctx) pieces) RT_MD5_End)
    = Some (rfc_md5 (concat pieces))"
  using md5.digest_of_chunks [OF assms] by (auto simp: RT_MD5_Init_eq)

theorem RT_MD5_pieces_witness:
  "map_option snd (Option.bind (feed RT_MD5_Append (RT_MD5_Init zero_md5_ctx) [[0x61], [0x62, 0x63]])
     RT_MD5_End) = Some (rfc_md5 [0x61, 0x62, 0x63])"
  using RT_MD5_pieces [of "[[0x61], [0x62, 0x63]]" zero_md5_ctx] by simp

end
