(* ===== verification/Crypt_Hmac.thy ===== *)
theory Crypt_Hmac
  imports Crypt_Sha2 Crypt_Md5
begin

text \<open>
  The keyed digests of \<open>rt5572/common/crypt_hmac.c\<close> and the proof that they compute the
  HMAC of RFC 2104. The three routines differ only in the digest they call, so one frame
  has the digest's operations as arguments; the proof is done once, in the interface of a
  message digest.
\<close>

section \<open>The routines\<close>

text \<open>
  \<open>hmac_key\<close> is the preparation of \<open>K0\<close>: a zeroed block that receives the key, or the digest
  of a key longer than a block.
\<close>

definition hmac_key :: "(bytes \<Rightarrow> bytes option) \<Rightarrow> bytes \<Rightarrow> bytes option" where
  "hmac_key hash Key =
     (if length Key \<le> 64 then move_mem 0 (length Key) Key (replicate 64 0)
      else (case hash Key of
              None \<Rightarrow> None
            | Some Digest \<Rightarrow> move_mem 0 (length Digest) Digest (replicate 64 0)))"

text \<open>One pass: initialise, append the masked key block, append the data, end.\<close>

definition hmac_pass ::
  "hash_ctx \<Rightarrow> (hash_ctx \<Rightarrow> bytes \<Rightarrow> hash_ctx option) \<Rightarrow> (hash_ctx \<Rightarrow> (hash_ctx \<times> bytes) option)
     \<Rightarrow> bytes \<Rightarrow> bytes \<Rightarrow> bytes option" where
  "hmac_pass ctx0 Append End K data =
     (case Append ctx0 K of
        None \<Rightarrow> None
      | Some ctx1 \<Rightarrow>
          (case Append ctx1 data of
             None \<Rightarrow> None
           | Some ctx2 \<Rightarrow> map_option snd (End ctx2)))"

definition hmac_frame ::
  "hash_ctx \<Rightarrow> (hash_ctx \<Rightarrow> bytes \<Rightarrow> hash_ctx option) \<Rightarrow> (hash_ctx \<Rightarrow> (hash_ctx \<times> bytes) option)
     \<Rightarrow> (bytes \<Rightarrow> bytes option) \<Rightarrow> nat \<Rightarrow> bytes \<Rightarrow> bytes \<Rightarrow> nat \<Rightarrow> bytes option" where
  "hmac_frame ctx0 Append End hash digest_size Key Message MACLen =
     (case hmac_key hash Key of
        None \<Rightarrow> None
      | Some K0 \<Rightarrow>
          let Ki = map (\<lambda>b. b XOR 0x36) K0 in
          (case hmac_pass ctx0 Append End Ki Message of
             None \<Rightarrow> None
           | Some Digest \<Rightarrow>
               let Ko = map (\<lambda>b. b XOR (0x36 XOR 0x5c)) Ki in
               (case hmac_pass ctx0 Append End Ko Digest of
                  None \<Rightarrow> None
                | Some Digest2 \<Rightarrow>
                    Some (if MACLen > digest_size then take digest_size Digest2
                          else take MACLen Digest2))))"

definition RT_HMAC_SHA1 :: "bytes \<Rightarrow> bytes \<Rightarrow> nat \<Rightarrow> bytes option" where
  "RT_HMAC_SHA1 = hmac_frame (RT_SHA1_Init (zero_ctx 5)) RT_SHA1_Append RT_SHA1_End RT_SHA1 20"

definition RT_HMAC_SHA256 :: "bytes \<Rightarrow> bytes \<Rightarrow> nat \<Rightarrow> bytes option" where
  "RT_HMAC_SHA256 =
     hmac_frame (RT_SHA256_Init (zero_ctx 8)) RT_SHA256_Append RT_SHA256_End RT_SHA256 32"

definition RT_HMAC_MD5 :: "bytes \<Rightarrow> bytes \<Rightarrow> nat \<Rightarrow> bytes option" where
  "RT_HMAC_MD5 = hmac_frame (RT_MD5_Init zero_md5_ctx) RT_MD5_Append RT_MD5_End RT_MD5 16"

section \<open>RFC 2104\<close>

definition rfc2104_key :: "(bytes \<Rightarrow> bytes) \<Rightarrow> bytes \<Rightarrow> bytes" where
  "rfc2104_key H K = (let k = (if 64 < length K then H K else K)
     in k @ replicate (64 - length k) 0)"

definition rfc2104_hmac :: "(bytes \<Rightarrow> bytes) \<Rightarrow> bytes \<Rightarrow> bytes \<Rightarrow> bytes" where
  "rfc2104_hmac H K text =
     (let k = rfc2104_key H K; ipad = replicate 64 0x36; opad = replicate 64 0x5c
      in H (xor_bytes k opad @ H (xor_bytes k ipad @ text)))"

lemma xor_bytes_replicate:
  "length k = n \<Longrightarrow> xor_bytes k (replicate n v) = map (\<lambda>b. b XOR v) k"
  by (induction k arbitrary: n) auto

lemma length_rfc2104_key: "(\<And>m. length (H m) \<le> 64) \<Longrightarrow> length (rfc2104_key H K) = 64"
  by (simp add: rfc2104_key_def Let_def)

context message_digest
begin

lemma hmac_key_rfc:
  assumes "\<And>m. length m + 64 < 4294967296 \<Longrightarrow> hash m = Some (digest m)"
    and "length Key + 64 < 4294967296"
  shows "hmac_key hash Key = Some (rfc2104_key digest Key)"
  using assms dlen_bound
  by (auto simp: hmac_key_def rfc2104_key_def move_mem_def digest_length Let_def)

lemma hmac_pass_digest:
  assumes "length K = 64" and "length data + 64 < 4294967296"
  shows "hmac_pass start append finish K data = Some (digest (K @ data))"
proof -
  from two_chunks [of K data] assms obtain c1 c2 c3 where "append start K = Some c1"
    and "append c1 data = Some c2" and "finish c2 = Some (c3, digest (K @ data))"
    by (auto simp: bind_Some_iff)
  then show ?thesis by (simp add: hmac_pass_def)
qed

lemma hmac_frame_rfc:
  assumes hash: "\<And>m. length m + 64 < 4294967296 \<Longrightarrow> hash m = Some (digest m)"
    and key: "length Key + 64 < 4294967296" and msg: "length Message + 64 < 4294967296"
  shows "hmac_frame start append finish hash dlen Key Message MACLen
    = Some (take MACLen (rfc2104_hmac digest Key Message))"
proof -
  let ?k = "rfc2104_key digest Key"
  let ?in = "digest (map (\<lambda>b. b XOR 0x36) ?k @ Message)"
  have key0: "hmac_key hash Key = Some ?k" using hash key by (rule hmac_key_rfc)
  have k: "length ?k = 64"
    using dlen_bound by (simp add: length_rfc2104_key digest_length)
  have mask: "map (\<lambda>b. b XOR (0x36 XOR 0x5c)) (map (\<lambda>b. b XOR 0x36) ?k)
      = map (\<lambda>b. b XOR (0x5c :: u8)) ?k"
    by (simp add: xor.assoc)
  have inner: "hmac_pass start append finish (map (\<lambda>b. b XOR 0x36) ?k) Message = Some ?in"
    using k msg by (simp add: hmac_pass_digest)
  have outer: "hmac_pass start append finish (map (\<lambda>b. b XOR 0x5c) ?k) ?in
      = Some (digest (map (\<lambda>b. b XOR 0x5c) ?k @ ?in))"
    using k dlen_bound by (intro hmac_pass_digest) (simp_all add: digest_length)
  have full: "rfc2104_hmac digest Key Message = digest (map (\<lambda>b. b XOR 0x5c) ?k @ ?in)"
    by (simp add: rfc2104_hmac_def Let_def xor_bytes_replicate k)
  show ?thesis
    unfolding hmac_frame_def key0 Let_def option.case mask full
    by (simp add: inner outer digest_length)
qed

end

section \<open>Properties\<close>

text \<open>\<open>RT_HMAC_SHA1\<close> returns the first \<open>MACLen\<close> bytes of the HMAC of RFC 2104 over SHA-1, for
  every key (shorter than a block, a block long or longer, when it is hashed first) and
  every message; it never writes more than the digest.\<close>

theorem RT_HMAC_SHA1_rfc2104:
  assumes "length Key + 64 < 4294967296" and "length Message + 64 < 4294967296"
  shows "RT_HMAC_SHA1 Key Message MACLen
    = Some (take MACLen (rfc2104_hmac fips_sha1 Key Message))"
  unfolding RT_HMAC_SHA1_def using RT_SHA1_digest assms by (rule sha1.hmac_frame_rfc)

theorem RT_HMAC_SHA1_rfc2104_witness:
  "RT_HMAC_SHA1 [0x6b, 0x65, 0x79] [1, 2, 3] 16
     = Some (take 16 (rfc2104_hmac fips_sha1 [0x6b, 0x65, 0x79] [1, 2, 3]))"
  using RT_HMAC_SHA1_rfc2104 [of "[0x6b, 0x65, 0x79]" "[1, 2, 3]" 16] by simp

text \<open>C20: \<open>RT_HMAC_SHA256\<close> returns the first \<open>MACLen\<close> bytes of the HMAC of RFC 2104 over SHA-256, for
  every key (shorter than a block, a block long or longer, when it is hashed first) and
  every message; it never writes more than the digest.\<close>

theorem RT_HMAC_SHA256_rfc2104:
  assumes "length Key + 64 < 4294967296" and "length Message + 64 < 4294967296"
  shows "RT_HMAC_SHA256 Key Message MACLen
    = Some (take MACLen (rfc2104_hmac fips_sha256 Key Message))"
  unfolding RT_HMAC_SHA256_def using RT_SHA256_digest assms by (rule sha256.hmac_frame_rfc)

theorem RT_HMAC_SHA256_rfc2104_witness:
  "RT_HMAC_SHA256 [0x6b, 0x65, 0x79] [1, 2, 3] 16
     = Some (take 16 (rfc2104_hmac fips_sha256 [0x6b, 0x65, 0x79] [1, 2, 3]))"
  using RT_HMAC_SHA256_rfc2104 [of "[0x6b, 0x65, 0x79]" "[1, 2, 3]" 16] by simp

text \<open>\<open>RT_HMAC_MD5\<close> returns the first \<open>MACLen\<close> bytes of the HMAC of RFC 2104 over MD5, for
  every key (shorter than a block, a block long or longer, when it is hashed first) and
  every message; it never writes more than the digest.\<close>

theorem RT_HMAC_MD5_rfc2104:
  assumes "length Key + 64 < 4294967296" and "length Message + 64 < 4294967296"
  shows "RT_HMAC_MD5 Key Message MACLen
    = Some (take MACLen (rfc2104_hmac rfc_md5 Key Message))"
  unfolding RT_HMAC_MD5_def using RT_MD5_digest assms by (rule md5.hmac_frame_rfc)

theorem RT_HMAC_MD5_rfc2104_witness:
  "RT_HMAC_MD5 [0x6b, 0x65, 0x79] [1, 2, 3] 16
     = Some (take 16 (rfc2104_hmac rfc_md5 [0x6b, 0x65, 0x79] [1, 2, 3]))"
  using RT_HMAC_MD5_rfc2104 [of "[0x6b, 0x65, 0x79]" "[1, 2, 3]" 16] by simp

end
