(* ===== verification/Crypt_Arc4.thy ===== *)
theory Crypt_Arc4
  imports Prelude "HOL-Library.Multiset"
begin

text \<open>
  The ARC4 stream cipher of \<open>rt5572/common/crypt_arc4.c\<close>. Its callers encrypt and decrypt in
  place, also with an output that starts before the input in the same buffer, so
  \<open>ARC4_Compute\<close> works here on one buffer with two offsets. The interface
  \<open>keystream_cipher\<close> states what they rely on; the reference is RC4 on a permutation of
  the bytes with indices modulo 256.
\<close>

section \<open>The context and the operations\<close>

record arc4_ctx =
  BlockIndex1 :: u32
  BlockIndex2 :: u32
  KeyBlock :: bytes

text \<open>
  One turn of the key schedule, \<open>None\<close> where the key is read beyond its buffer. \<open>% KeyLength\<close>
  with a zero length is a division by zero, which the operation itself refuses.
\<close>

fun ARC4_schedule :: "bytes \<Rightarrow> nat \<Rightarrow> bytes \<times> u32 \<Rightarrow> nat \<Rightarrow> (bytes \<times> u32) option" where
  "ARC4_schedule pKey KeyLength (kb, SWAPIndex) BlockIndex =
     (let TempValue = kb ! BlockIndex;
          KeyIndex = BlockIndex mod KeyLength
      in if KeyIndex < length pKey then
           let SWAPIndex' = (SWAPIndex + ucast TempValue + ucast (pKey ! KeyIndex)) AND 0xff;
               kb1 = kb[BlockIndex := kb ! unat SWAPIndex'];
               kb2 = kb1[unat SWAPIndex' := TempValue]
           in Some (kb2, SWAPIndex')
         else None)"

fun ARC4_schedule_loop ::
  "bytes \<Rightarrow> nat \<Rightarrow> bytes \<times> u32 \<Rightarrow> nat list \<Rightarrow> (bytes \<times> u32) option" where
  "ARC4_schedule_loop pKey KeyLength s [] = Some s"
| "ARC4_schedule_loop pKey KeyLength s (i # is) =
     (case ARC4_schedule pKey KeyLength s i of
        None \<Rightarrow> None
      | Some s' \<Rightarrow> ARC4_schedule_loop pKey KeyLength s' is)"

definition ARC4_INIT :: "bytes \<Rightarrow> nat \<Rightarrow> arc4_ctx option" where
  "ARC4_INIT pKey KeyLength =
     (if KeyLength = 0 then None
      else case ARC4_schedule_loop pKey KeyLength (map word_of_nat [0..<256], 0) [0..<256] of
             None \<Rightarrow> None
           | Some (kb, _) \<Rightarrow> Some \<lparr>BlockIndex1 = 0, BlockIndex2 = 0, KeyBlock = kb\<rparr>)"

text \<open>The statements the loops of \<open>ARC4_Compute\<close> and \<open>ARC4_Discard_KeyLength\<close> share.\<close>

definition ARC4_swap :: "arc4_ctx \<Rightarrow> arc4_ctx \<times> u8" where
  "ARC4_swap ctx =
     (let i = (BlockIndex1 ctx + 1) AND 0xff;
          TempValue = KeyBlock ctx ! unat i;
          j = (BlockIndex2 ctx + ucast TempValue) AND 0xff;
          kb1 = (KeyBlock ctx)[unat i := KeyBlock ctx ! unat j];
          kb2 = kb1[unat j := TempValue]
      in (\<lparr>BlockIndex1 = i, BlockIndex2 = j, KeyBlock = kb2\<rparr>, TempValue))"

text \<open>The byte the cipher combines with the input in the turn that ends in context \<open>ctx\<close>.\<close>

definition ARC4_out :: "arc4_ctx \<Rightarrow> u8 \<Rightarrow> u8" where
  "ARC4_out ctx TempValue =
     (let T = (TempValue + KeyBlock ctx ! unat (BlockIndex1 ctx)) AND 0xff
      in KeyBlock ctx ! unat T)"

text \<open>
  \<open>ARC4_Compute ctx mem src n dst\<close>: \<open>InputBlock\<close> starts at offset \<open>src\<close> of \<open>mem\<close> and
  \<open>OutputBlock\<close> at offset \<open>dst\<close>; \<open>None\<close> is an access outside the buffer.
\<close>

fun ARC4_Compute ::
  "arc4_ctx \<Rightarrow> bytes \<Rightarrow> nat \<Rightarrow> nat \<Rightarrow> nat \<Rightarrow> (arc4_ctx \<times> bytes) option" where
  "ARC4_Compute ctx mem src 0 dst = Some (ctx, mem)"
| "ARC4_Compute ctx mem src (Suc n) dst =
     (let (ctx', TempValue) = ARC4_swap ctx in
      if src < length mem \<and> dst < length mem
      then ARC4_Compute ctx' (mem[dst := mem ! src XOR ARC4_out ctx' TempValue])
             (src + 1) n (dst + 1)
      else None)"

fun ARC4_Discard_KeyLength :: "arc4_ctx \<Rightarrow> nat \<Rightarrow> arc4_ctx" where
  "ARC4_Discard_KeyLength ctx 0 = ctx"
| "ARC4_Discard_KeyLength ctx (Suc n) = ARC4_Discard_KeyLength (fst (ARC4_swap ctx)) n"

section \<open>The key stream\<close>

text \<open>The bytes the cipher combines with its input, which depend on the context only.\<close>

fun ARC4_stream :: "arc4_ctx \<Rightarrow> nat \<Rightarrow> bytes" where
  "ARC4_stream ctx 0 = []"
| "ARC4_stream ctx (Suc n) =
     (let (ctx', TempValue) = ARC4_swap ctx in ARC4_out ctx' TempValue # ARC4_stream ctx' n)"

lemma length_ARC4_stream [simp, buf_len]: "length (ARC4_stream ctx n) = n"
  by (induction ctx n rule: ARC4_stream.induct) (simp_all split: prod.split)

text \<open>
  The output may overlap the input when it does not start after it: no byte is overwritten
  before it has been read.
\<close>

lemma ARC4_Compute_stream:
  assumes "dst \<le> src" and "src + n \<le> length mem"
  shows "ARC4_Compute ctx mem src n dst
    = Some (ARC4_Discard_KeyLength ctx n,
        take dst mem @ xor_bytes (take n (drop src mem)) (ARC4_stream ctx n) @ drop (dst + n) mem)"
  using assms
proof (induction ctx mem src n dst rule: ARC4_Compute.induct)
  case (1 ctx mem src dst)
  then show ?case by simp
next
  case (2 ctx mem src n dst)
  obtain ctx' T where sw: "ARC4_swap ctx = (ctx', T)" by (cases "ARC4_swap ctx")
  let ?v = "mem ! src XOR ARC4_out ctx' T"
  from "2.prems" have s: "src < length mem" and d: "dst < length mem" by auto
  from "2.prems" have rest: "drop (Suc src) (mem[dst := ?v]) = drop (Suc src) mem" by simp
  have hd: "take (Suc dst) (mem[dst := ?v]) = take dst mem @ [?v]"
    using d by (simp add: take_Suc_conv_app_nth)
  have tl: "drop (Suc dst + n) (mem[dst := ?v]) = drop (Suc dst + n) mem" by simp
  have split: "drop src mem = mem ! src # drop (Suc src) mem"
    using s by (rule Cons_nth_drop_Suc [symmetric])
  have ih: "ARC4_Compute ctx' (mem[dst := ?v]) (src + 1) n (dst + 1)
      = Some (ARC4_Discard_KeyLength ctx' n, take (Suc dst) (mem[dst := ?v])
          @ xor_bytes (take n (drop (Suc src) (mem[dst := ?v]))) (ARC4_stream ctx' n)
          @ drop (Suc dst + n) (mem[dst := ?v]))"
    using "2.IH" [OF sw [symmetric] refl] s d "2.prems" by simp
  show ?case
    using s d by (simp add: sw ih [simplified] rest hd tl [simplified] split)
qed

text \<open>Discarding \<open>n\<close> bytes leaves the context as computing on \<open>n\<close> bytes does.\<close>

lemma ARC4_stream_append:
  "ARC4_stream ctx (m + n) = ARC4_stream ctx m @ ARC4_stream (ARC4_Discard_KeyLength ctx m) n"
  by (induction ctx m rule: ARC4_stream.induct) (simp_all split: prod.split)

section \<open>The context stays a permutation\<close>

definition arc4_wf :: "arc4_ctx \<Rightarrow> bool" where
  "arc4_wf ctx \<longleftrightarrow> mset (KeyBlock ctx) = mset all_bytes \<and>
     BlockIndex1 ctx < 256 \<and> BlockIndex2 ctx < 256"

lemma mset_256: "mset kb = mset all_bytes \<Longrightarrow> length kb = 256"
  using length_all_bytes by (metis size_mset)

lemma and_ff_less: "(x AND 0xff :: u32) < 256"
  by (simp add: word_less_nat_alt and_ff_ucast unat_u8)

lemma mset_two_updates:
  assumes "i < length xs" and "j < length xs"
  shows "mset (xs[i := xs ! j, j := xs ! i]) = mset xs"
  using assms by (simp add: mset_swap)

lemma ARC4_swap_wf: "arc4_wf ctx \<Longrightarrow> arc4_wf (fst (ARC4_swap ctx))"
  by (simp add: arc4_wf_def ARC4_swap_def Let_def and_ff_less mset_two_updates mset_256
      and_ff_ucast unat_u8)

lemma ARC4_Discard_wf: "arc4_wf ctx \<Longrightarrow> arc4_wf (ARC4_Discard_KeyLength ctx n)"
  by (induction ctx n rule: ARC4_Discard_KeyLength.induct) (simp_all add: ARC4_swap_wf)

lemma ARC4_schedule_perm:
  assumes "mset kb = mset all_bytes" and "i < 256" and "i mod KeyLength < length pKey"
  shows "\<exists>kb' s'. ARC4_schedule pKey KeyLength (kb, s) i = Some (kb', s')
    \<and> mset kb' = mset all_bytes"
  using assms mset_256 [OF assms(1)]
  by (simp add: Let_def mset_two_updates and_ff_ucast unat_u8)

lemma ARC4_schedule_loop_perm:
  assumes "mset kb = mset all_bytes" and "\<forall>i \<in> set is. i < 256 \<and> i mod KeyLength < length pKey"
  shows "\<exists>kb' s'. ARC4_schedule_loop pKey KeyLength (kb, s) is = Some (kb', s')
    \<and> mset kb' = mset all_bytes"
  using assms
proof (induction "is" arbitrary: kb s)
  case Nil
  then show ?case by simp
next
  case (Cons i "is")
  then obtain kb' s' where "ARC4_schedule pKey KeyLength (kb, s) i = Some (kb', s')"
    and "mset kb' = mset all_bytes"
    using ARC4_schedule_perm [of kb i KeyLength pKey s] by auto
  with Cons show ?case by (auto simp del: ARC4_schedule.simps)
qed

lemma ARC4_INIT_wf:
  assumes "0 < KeyLength" and "KeyLength \<le> length pKey"
  shows "\<exists>ctx. ARC4_INIT pKey KeyLength = Some ctx \<and> arc4_wf ctx"
proof -
  have "i mod KeyLength < length pKey" for i
    using assms by (meson mod_less_divisor order_less_le_trans)
  then obtain kb s where "ARC4_schedule_loop pKey KeyLength (map word_of_nat [0..<256], 0) [0..<256]
      = Some (kb, s)" and "mset kb = mset all_bytes"
    using ARC4_schedule_loop_perm [of "map word_of_nat [0..<256]" "[0..<256]" KeyLength pKey 0]
    by (auto simp: all_bytes_upt)
  with assms(1) show ?thesis by (simp add: ARC4_INIT_def arc4_wf_def)
qed

section \<open>RC4\<close>

text \<open>
  The published algorithm: a permutation \<open>S\<close> of the bytes and two byte indices whose
  arithmetic wraps.
\<close>

type_synonym rc4_state = "(u8 \<Rightarrow> u8) \<times> u8 \<times> u8"

fun rc4_swap :: "rc4_state \<Rightarrow> rc4_state" where
  "rc4_swap (S, i, j) =
     (let i' = i + 1; j' = j + S i' in (S(i' := S j', j' := S i'), i', j'))"

fun rc4_out :: "rc4_state \<Rightarrow> u8" where
  "rc4_out (S, i, j) = S (S i + S j)"

fun rc4_stream :: "rc4_state \<Rightarrow> nat \<Rightarrow> bytes" where
  "rc4_stream s 0 = []"
| "rc4_stream s (Suc n) = rc4_out (rc4_swap s) # rc4_stream (rc4_swap s) n"

fun rc4_mix :: "bytes \<Rightarrow> (u8 \<Rightarrow> u8) \<times> u8 \<Rightarrow> nat \<Rightarrow> (u8 \<Rightarrow> u8) \<times> u8" where
  "rc4_mix key (S, j) n =
     (let i = word_of_nat n; j' = j + S i + key ! (n mod length key)
      in (S(i := S j', j' := S i), j'))"

definition rc4_setup :: "bytes \<Rightarrow> rc4_state" where
  "rc4_setup key = (fst (foldl (rc4_mix key) (id, 0) [0..<256]), 0, 0)"

definition arc4_abs :: "arc4_ctx \<Rightarrow> rc4_state" where
  "arc4_abs ctx = (byte_at (KeyBlock ctx), ucast (BlockIndex1 ctx), ucast (BlockIndex2 ctx))"

lemma byte_at_update: "length kb = 256 \<Longrightarrow> byte_at (kb[unat i := v]) = (byte_at kb)(i := v)"
  by (auto simp: byte_at_def fun_eq_iff nth_list_update unat_u8 word_unat_eq_iff)

lemma ARC4_swap_rc4:
  assumes "arc4_wf ctx" and "ARC4_swap ctx = (ctx', T)"
  shows "arc4_abs ctx' = rc4_swap (arc4_abs ctx)"
    and "ARC4_out ctx' T = rc4_out (rc4_swap (arc4_abs ctx))"
proof -
  have len: "length (KeyBlock ctx) = 256" using assms(1) by (simp add: arc4_wf_def mset_256)
  let ?i = "(BlockIndex1 ctx + 1) AND 0xff"
  let ?j = "(BlockIndex2 ctx + ucast T) AND 0xff"
  have T: "T = byte_at (KeyBlock ctx) (ucast (BlockIndex1 ctx) + 1)"
    and c: "ctx' = \<lparr>BlockIndex1 = ?i, BlockIndex2 = ?j,
      KeyBlock = (KeyBlock ctx)[unat ?i := KeyBlock ctx ! unat ?j, unat ?j := T]\<rparr>"
    using assms(2) by (auto simp: ARC4_swap_def Let_def nth_u32_mask ucast_add8)
  have kb: "byte_at (KeyBlock ctx') = fst (rc4_swap (arc4_abs ctx))"
    using len unfolding c
    by (simp add: arc4_abs_def Let_def nth_u32_mask and_ff_ucast byte_at_update ucast_add8 T
        flip: byte_at_def)
  show abs: "arc4_abs ctx' = rc4_swap (arc4_abs ctx)"
    unfolding arc4_abs_def kb unfolding c T
    by (simp add: arc4_abs_def Let_def ucast_mask ucast_add8)
  have i: "BlockIndex1 ctx' = ?i" by (simp add: c)
  have "ARC4_out ctx' T = byte_at (KeyBlock ctx') (T + byte_at (KeyBlock ctx') (ucast (BlockIndex1 ctx) + 1))"
    unfolding ARC4_out_def i nth_u32_mask Let_def
    by (simp add: byte_at_def ucast_add8 and_ff_u8)
  then show "ARC4_out ctx' T = rc4_out (rc4_swap (arc4_abs ctx))"
    unfolding kb by (simp add: arc4_abs_def Let_def T add.commute)
qed

lemma ARC4_stream_rc4:
  "arc4_wf ctx \<Longrightarrow> ARC4_stream ctx n = rc4_stream (arc4_abs ctx) n"
proof (induction ctx n rule: ARC4_stream.induct)
  case (2 ctx n)
  obtain c T where sw: "ARC4_swap ctx = (c, T)" by (cases "ARC4_swap ctx")
  with "2.prems" have "arc4_wf c" using ARC4_swap_wf [of ctx] by simp
  with 2 sw show ?case by (simp add: ARC4_swap_rc4)
qed simp

text \<open>The key schedule.\<close>

lemma ARC4_schedule_rc4:
  assumes "length kb = 256" and "i < 256" and "pKey \<noteq> []"
    and "ARC4_schedule pKey (length pKey) (kb, s) i = Some (kb', s')"
  shows "rc4_mix pKey (byte_at kb, ucast s) i = (byte_at kb', ucast s')"
proof -
  have i: "unat (word_of_nat i :: u8) = i" using assms(2) by (simp add: unat_of_nat)
  then have kbi: "kb ! i = byte_at kb (word_of_nat i)" by (simp add: byte_at_def)
  let ?s = "(s + ucast (kb ! i) + ucast (pKey ! (i mod length pKey))) AND 0xff"
  from assms(3,4) have s': "s' = ?s" and kb': "kb' = kb[i := kb ! unat ?s, unat ?s := kb ! i]"
    by (auto simp: Let_def)
  have "byte_at (kb[i := v]) = (byte_at kb)(word_of_nat i := v)" for v
    using byte_at_update [of kb "word_of_nat i" v] i assms(1) by simp
  then show ?thesis
    unfolding s' kb' using assms(1)
    by (simp add: Let_def nth_u32_mask and_ff_ucast byte_at_update ucast_mask ucast_add8 kbi
        flip: byte_at_def)
qed

lemma ARC4_schedule_length:
  "ARC4_schedule pKey KeyLength (kb, s) i = Some (kb', s') \<Longrightarrow> length kb' = length kb"
  by (auto simp: Let_def split: if_splits)

lemma ARC4_schedule_loop_rc4:
  assumes "ARC4_schedule_loop pKey (length pKey) (kb, s) is = Some (kb', s')"
    and "length kb = 256" and "\<forall>i \<in> set is. i < 256" and "pKey \<noteq> []"
  shows "foldl (rc4_mix pKey) (byte_at kb, ucast s) is = (byte_at kb', ucast s')"
  using assms
proof (induction "is" arbitrary: kb s)
  case Nil
  then show ?case by simp
next
  case (Cons i "is")
  from Cons.prems(1) obtain kb1 s1 where
    one: "ARC4_schedule pKey (length pKey) (kb, s) i = Some (kb1, s1)"
    and rest: "ARC4_schedule_loop pKey (length pKey) (kb1, s1) is = Some (kb', s')"
    by (auto simp del: ARC4_schedule.simps split: option.splits)
  have "length kb1 = 256" using ARC4_schedule_length [OF one] Cons.prems(2) by simp
  with Cons.IH [OF rest] ARC4_schedule_rc4 [OF _ _ _ one] Cons.prems show ?case by simp
qed

lemma ARC4_INIT_rc4:
  assumes "pKey \<noteq> []" and "ARC4_INIT pKey (length pKey) = Some ctx"
  shows "arc4_abs ctx = rc4_setup pKey"
proof -
  let ?kb0 = "map word_of_nat [0..<256] :: bytes"
  from assms obtain kb s where
    run: "ARC4_schedule_loop pKey (length pKey) (?kb0, 0) [0..<256] = Some (kb, s)"
    and ctx: "ctx = \<lparr>BlockIndex1 = 0, BlockIndex2 = 0, KeyBlock = kb\<rparr>"
    by (auto simp: ARC4_INIT_def split: option.splits)
  have "byte_at ?kb0 = id"
    by (simp add: byte_at_def fun_eq_iff unat_u8)
  then have "foldl (rc4_mix pKey) (id, 0) [0..<256] = (byte_at kb, ucast s)"
    using ARC4_schedule_loop_rc4 [OF run] assms(1) by simp
  then show ?thesis by (simp add: ctx arc4_abs_def rc4_setup_def)
qed

text \<open>Only the first \<open>KeyLength\<close> bytes of the key matter.\<close>

lemma ARC4_INIT_take:
  assumes "0 < n" and "n \<le> length pKey"
  shows "ARC4_INIT pKey n = ARC4_INIT (take n pKey) n"
proof -
  have mod: "i mod n < n" for i using assms(1) by simp
  then have one: "ARC4_schedule pKey n s i = ARC4_schedule (take n pKey) n s i" for s i
    using assms(2) mod [of i] by (cases s) (simp add: Let_def)
  have "ARC4_schedule_loop pKey n s is = ARC4_schedule_loop (take n pKey) n s is" for s "is"
    by (induction "is" arbitrary: s) (simp_all add: one split: option.split)
  then show ?thesis by (simp add: ARC4_INIT_def)
qed

lemma ARC4_INIT_setup:
  assumes "0 < n" and "n \<le> length pKey"
  shows "\<exists>ctx. ARC4_INIT pKey n = Some ctx \<and> arc4_wf ctx \<and> arc4_abs ctx = rc4_setup (take n pKey)"
proof -
  have "take n pKey \<noteq> []" and "length (take n pKey) = n" using assms by auto
  with ARC4_INIT_wf [of n "take n pKey"] ARC4_INIT_rc4 [of "take n pKey"] assms
  show ?thesis by (auto simp: ARC4_INIT_take [OF assms])
qed

section \<open>The interface of a key-stream cipher\<close>

text \<open>
  What the frame functions rely on: computing on a buffer combines the input with a stream
  that depends on the context only, also when the output overwrites the bytes before it.
\<close>

locale keystream_cipher =
  fixes compute :: "'c \<Rightarrow> bytes \<Rightarrow> nat \<Rightarrow> nat \<Rightarrow> nat \<Rightarrow> ('c \<times> bytes) option"
    and stream :: "'c \<Rightarrow> nat \<Rightarrow> bytes"
  assumes compute_stream: "dst \<le> src \<Longrightarrow> src + n \<le> length mem \<Longrightarrow>
      \<exists>c'. compute c mem src n dst = Some (c',
        take dst mem @ xor_bytes (take n (drop src mem)) (stream c n) @ drop (dst + n) mem)"
    and stream_length: "length (stream c n) = n"
begin

text \<open>Encryption in place behind a header.\<close>

lemma compute_in_place:
  assumes "length p = n" and "length h = k"
  shows "\<exists>c'. compute c (h @ p @ z) k n k = Some (c', h @ xor_bytes p (stream c n) @ z)"
  using compute_stream [of k k n "h @ p @ z" c] assms by simp

text \<open>Decryption of what follows a header over the header, and the bytes it leaves behind.\<close>

lemma compute_over_header:
  assumes "length x = n" and "length h = k"
  shows "\<exists>c' rest. compute c (h @ x) k n 0 = Some (c', xor_bytes x (stream c n) @ rest)
    \<and> length rest = k"
proof -
  have "\<exists>c'. compute c (h @ x) k n 0
      = Some (c', xor_bytes x (stream c n) @ drop n (h @ x))"
    using compute_stream [of 0 k n "h @ x" c] assms by simp
  moreover have "length (drop n (h @ x)) = k" using assms by simp
  ultimately show ?thesis by blast
qed

text \<open>Decrypting an encrypted text with the same context gives the text back.\<close>

lemma stream_twice:
  "length p = n \<Longrightarrow> xor_bytes (xor_bytes p (stream c n)) (stream c n) = p"
  by (simp add: xor_bytes_cancel stream_length)

lemma decrypt_over_header:
  assumes "length p = n" and "length h = k"
  shows "\<exists>c' rest. compute c (h @ xor_bytes p (stream c n)) k n 0 = Some (c', p @ rest)
    \<and> length rest = k"
  using compute_over_header [of "xor_bytes p (stream c n)" n h k c] assms
  by (simp add: stream_twice stream_length)

end

interpretation arc4: keystream_cipher ARC4_Compute ARC4_stream
  by unfold_locales (simp_all add: ARC4_Compute_stream)

section \<open>Properties\<close>

text \<open>C30: \<open>ARC4_INIT\<close> followed by \<open>ARC4_Compute\<close> combines the input with the RC4 key stream of
  the first \<open>KeyLength\<close> bytes of the key, and leaves everything else of the buffer as it was,
  also when the output overlaps the input from below.\<close>

theorem ARC4_is_RC4:
  assumes "0 < KeyLength" and "KeyLength \<le> length pKey"
    and "dst \<le> src" and "src + n \<le> length mem"
  shows "map_option snd (Option.bind (ARC4_INIT pKey KeyLength) (\<lambda>ctx. ARC4_Compute ctx mem src n dst))
    = Some (take dst mem
        @ xor_bytes (take n (drop src mem)) (rc4_stream (rc4_setup (take KeyLength pKey)) n)
        @ drop (dst + n) mem)"
  using ARC4_INIT_setup [OF assms(1,2)] ARC4_Compute_stream [OF assms(3,4)]
  by (auto simp: ARC4_stream_rc4)

theorem ARC4_is_RC4_witness:
  "map_option snd (Option.bind (ARC4_INIT [1, 2, 3, 4, 5] 5)
      (\<lambda>ctx. ARC4_Compute ctx [9, 9, 7, 8] 2 2 1))
    = Some ([9] @ xor_bytes [7, 8] (rc4_stream (rc4_setup [1, 2, 3, 4, 5]) 2) @ [8])"
  using ARC4_is_RC4 [of 5 "[1, 2, 3, 4, 5]" 1 2 2 "[9, 9, 7, 8]"]
  by (simp add: numeral_eq_Suc)

text \<open>discarding \<open>m\<close> bytes of the stream and computing on \<open>n\<close> bytes gives what computing on
  \<open>m + n\<close> bytes leaves in the last \<open>n\<close> of them: \<open>ARC4_Discard_KeyLength\<close> steps the context exactly
  as \<open>ARC4_Compute\<close> does.\<close>

theorem ARC4_discard_prefix:
  assumes "length a = m" and "length b = n"
  shows "map_option (drop m \<circ> snd) (ARC4_Compute ctx (a @ b) 0 (m + n) 0)
    = map_option snd (ARC4_Compute (ARC4_Discard_KeyLength ctx m) b 0 n 0)"
  using assms ARC4_Compute_stream [of 0 0 "m + n" "a @ b" ctx]
    ARC4_Compute_stream [of 0 0 n b "ARC4_Discard_KeyLength ctx m"]
  by (simp add: ARC4_stream_append drop_xor_bytes)

theorem ARC4_discard_prefix_witness:
  "map_option (drop 2 \<circ> snd)
      (ARC4_Compute \<lparr>BlockIndex1 = 0, BlockIndex2 = 0, KeyBlock = all_bytes\<rparr> [1, 2, 3] 0 3 0)
    = map_option snd (ARC4_Compute (ARC4_Discard_KeyLength
        \<lparr>BlockIndex1 = 0, BlockIndex2 = 0, KeyBlock = all_bytes\<rparr> 2) [3] 0 1 0)"
  using ARC4_discard_prefix [of "[1, 2]" 2 "[3]" 1
    "\<lparr>BlockIndex1 = 0, BlockIndex2 = 0, KeyBlock = all_bytes\<rparr>"] by simp

text \<open>every context the operations reach holds each byte exactly once and two indices below
  256, so no access leaves the key block.\<close>

theorem ARC4_permutation:
  assumes "0 < KeyLength" and "KeyLength \<le> length pKey"
  shows "\<exists>ctx. ARC4_INIT pKey KeyLength = Some ctx
    \<and> arc4_wf (ARC4_Discard_KeyLength ctx n)"
  using ARC4_INIT_wf [OF assms] ARC4_Discard_wf by blast

theorem ARC4_permutation_witness:
  "\<exists>ctx. ARC4_INIT [1, 2, 3] 3 = Some ctx \<and> arc4_wf (ARC4_Discard_KeyLength ctx 256)"
  using ARC4_permutation [of 3 "[1, 2, 3]" 256] by simp

end
