(* ===== verification/Wep_Fcs.thy ===== *)
theory Wep_Fcs
  imports Prelude
begin

text \<open>
  The frame check sequence of \<open>rt5572/common/cmm_wep.c\<close>, computed by table, which is the
  integrity check value of WEP and TKIP frames. The reference is the CRC-32 of IEEE 802.3
  computed bit by bit; it is injective in every byte of the message.
\<close>

section \<open>The frame check sequence\<close>

definition FCSTAB_32 :: "u32 list" where
  "FCSTAB_32 =
    [0x00000000, 0x77073096, 0xee0e612c, 0x990951ba, 0x076dc419, 0x706af48f, 0xe963a535, 0x9e6495a3,
     0x0edb8832, 0x79dcb8a4, 0xe0d5e91e, 0x97d2d988, 0x09b64c2b, 0x7eb17cbd, 0xe7b82d07, 0x90bf1d91,
     0x1db71064, 0x6ab020f2, 0xf3b97148, 0x84be41de, 0x1adad47d, 0x6ddde4eb, 0xf4d4b551, 0x83d385c7,
     0x136c9856, 0x646ba8c0, 0xfd62f97a, 0x8a65c9ec, 0x14015c4f, 0x63066cd9, 0xfa0f3d63, 0x8d080df5,
     0x3b6e20c8, 0x4c69105e, 0xd56041e4, 0xa2677172, 0x3c03e4d1, 0x4b04d447, 0xd20d85fd, 0xa50ab56b,
     0x35b5a8fa, 0x42b2986c, 0xdbbbc9d6, 0xacbcf940, 0x32d86ce3, 0x45df5c75, 0xdcd60dcf, 0xabd13d59,
     0x26d930ac, 0x51de003a, 0xc8d75180, 0xbfd06116, 0x21b4f4b5, 0x56b3c423, 0xcfba9599, 0xb8bda50f,
     0x2802b89e, 0x5f058808, 0xc60cd9b2, 0xb10be924, 0x2f6f7c87, 0x58684c11, 0xc1611dab, 0xb6662d3d,
     0x76dc4190, 0x01db7106, 0x98d220bc, 0xefd5102a, 0x71b18589, 0x06b6b51f, 0x9fbfe4a5, 0xe8b8d433,
     0x7807c9a2, 0x0f00f934, 0x9609a88e, 0xe10e9818, 0x7f6a0dbb, 0x086d3d2d, 0x91646c97, 0xe6635c01,
     0x6b6b51f4, 0x1c6c6162, 0x856530d8, 0xf262004e, 0x6c0695ed, 0x1b01a57b, 0x8208f4c1, 0xf50fc457,
     0x65b0d9c6, 0x12b7e950, 0x8bbeb8ea, 0xfcb9887c, 0x62dd1ddf, 0x15da2d49, 0x8cd37cf3, 0xfbd44c65,
     0x4db26158, 0x3ab551ce, 0xa3bc0074, 0xd4bb30e2, 0x4adfa541, 0x3dd895d7, 0xa4d1c46d, 0xd3d6f4fb,
     0x4369e96a, 0x346ed9fc, 0xad678846, 0xda60b8d0, 0x44042d73, 0x33031de5, 0xaa0a4c5f, 0xdd0d7cc9,
     0x5005713c, 0x270241aa, 0xbe0b1010, 0xc90c2086, 0x5768b525, 0x206f85b3, 0xb966d409, 0xce61e49f,
     0x5edef90e, 0x29d9c998, 0xb0d09822, 0xc7d7a8b4, 0x59b33d17, 0x2eb40d81, 0xb7bd5c3b, 0xc0ba6cad,
     0xedb88320, 0x9abfb3b6, 0x03b6e20c, 0x74b1d29a, 0xead54739, 0x9dd277af, 0x04db2615, 0x73dc1683,
     0xe3630b12, 0x94643b84, 0x0d6d6a3e, 0x7a6a5aa8, 0xe40ecf0b, 0x9309ff9d, 0x0a00ae27, 0x7d079eb1,
     0xf00f9344, 0x8708a3d2, 0x1e01f268, 0x6906c2fe, 0xf762575d, 0x806567cb, 0x196c3671, 0x6e6b06e7,
     0xfed41b76, 0x89d32be0, 0x10da7a5a, 0x67dd4acc, 0xf9b9df6f, 0x8ebeeff9, 0x17b7be43, 0x60b08ed5,
     0xd6d6a3e8, 0xa1d1937e, 0x38d8c2c4, 0x4fdff252, 0xd1bb67f1, 0xa6bc5767, 0x3fb506dd, 0x48b2364b,
     0xd80d2bda, 0xaf0a1b4c, 0x36034af6, 0x41047a60, 0xdf60efc3, 0xa867df55, 0x316e8eef, 0x4669be79,
     0xcb61b38c, 0xbc66831a, 0x256fd2a0, 0x5268e236, 0xcc0c7795, 0xbb0b4703, 0x220216b9, 0x5505262f,
     0xc5ba3bbe, 0xb2bd0b28, 0x2bb45a92, 0x5cb36a04, 0xc2d7ffa7, 0xb5d0cf31, 0x2cd99e8b, 0x5bdeae1d,
     0x9b64c2b0, 0xec63f226, 0x756aa39c, 0x026d930a, 0x9c0906a9, 0xeb0e363f, 0x72076785, 0x05005713,
     0x95bf4a82, 0xe2b87a14, 0x7bb12bae, 0x0cb61b38, 0x92d28e9b, 0xe5d5be0d, 0x7cdcefb7, 0x0bdbdf21,
     0x86d3d2d4, 0xf1d4e242, 0x68ddb3f8, 0x1fda836e, 0x81be16cd, 0xf6b9265b, 0x6fb077e1, 0x18b74777,
     0x88085ae6, 0xff0f6a70, 0x66063bca, 0x11010b5c, 0x8f659eff, 0xf862ae69, 0x616bffd3, 0x166ccf45,
     0xa00ae278, 0xd70dd2ee, 0x4e048354, 0x3903b3c2, 0xa7672661, 0xd06016f7, 0x4969474d, 0x3e6e77db,
     0xaed16a4a, 0xd9d65adc, 0x40df0b66, 0x37d83bf0, 0xa9bcae53, 0xdebb9ec5, 0x47b2cf7f, 0x30b5ffe9,
     0xbdbdf21c, 0xcabac28a, 0x53b39330, 0x24b4a3a6, 0xbad03605, 0xcdd70693, 0x54de5729, 0x23d967bf,
     0xb3667a2e, 0xc4614ab8, 0x5d681b02, 0x2a6f2b94, 0xb40bbe37, 0xc30c8ea1, 0x5a05df1b, 0x2d02ef8d]"

text \<open>\<open>None\<close> is a read beyond the buffer; the loop counts down from a non-negative \<open>Len\<close>.\<close>

fun RTMP_CALC_FCS32 :: "u32 \<Rightarrow> bytes \<Rightarrow> nat \<Rightarrow> u32 option" where
  "RTMP_CALC_FCS32 Fcs Cp 0 = Some Fcs"
| "RTMP_CALC_FCS32 Fcs [] (Suc Len) = None"
| "RTMP_CALC_FCS32 Fcs (c # Cp) (Suc Len) =
     RTMP_CALC_FCS32 (drop_bit 8 Fcs XOR FCSTAB_32 ! unat ((Fcs XOR ucast c) AND 0xff)) Cp Len"

definition PPPINITFCS32 :: u32 where
  "PPPINITFCS32 = 0xffffffff"

text \<open>The polynomial division, one bit at a time, low bit first.\<close>

definition crc_bit :: "u32 \<Rightarrow> u32" where
  "crc_bit c = (if odd c then drop_bit 1 c XOR 0xedb88320 else drop_bit 1 c)"

definition crc_byte :: "u32 \<Rightarrow> u8 \<Rightarrow> u32" where
  "crc_byte c b = (crc_bit ^^ 8) (c XOR ucast b)"

definition crc32 :: "bytes \<Rightarrow> u32" where
  "crc32 m = NOT (foldl crc_byte 0xffffffff m)"

lemma crc_bits_8: "(crc_bit ^^ 8) c =
    crc_bit (crc_bit (crc_bit (crc_bit (crc_bit (crc_bit (crc_bit (crc_bit c)))))))"
  by (simp add: eval_nat_numeral)

text \<open>Rules for a constant argument, which make the simplifier evaluate from the inside.\<close>

lemma crc_bit_numeral:
  "crc_bit (numeral w) =
     (if odd (numeral w :: u32) then drop_bit 1 (numeral w) XOR 0xedb88320
      else drop_bit 1 (numeral w))"
  "crc_bit 0 = 0" "crc_bit 1 = 0xedb88320"
  by (simp_all add: crc_bit_def)

lemma FCSTAB_32_all: "FCSTAB_32 = map (\<lambda>i. (crc_bit ^^ 8) (ucast i)) all_bytes"
  by (simp add: FCSTAB_32_def all_bytes_def crc_bits_8 crc_bit_numeral)

lemma FCSTAB_32_crc: "byte_at FCSTAB_32 i = (crc_bit ^^ 8) (ucast i)"
  unfolding FCSTAB_32_all byte_at_def all_bytes_upt by (simp add: unat_u8)

lemma odd_xor: "odd (a XOR b :: u32) \<longleftrightarrow> odd a \<noteq> odd b"
  by (simp flip: bit_0 add: bit_simps)

lemma crc_bit_xor: "crc_bit (a XOR b) = crc_bit a XOR crc_bit b"
  by (simp add: crc_bit_def odd_xor drop_bit_xor ac_simps del: even_xor_iff)

lemma crc_bits_xor: "(crc_bit ^^ n) (a XOR b) = (crc_bit ^^ n) a XOR (crc_bit ^^ n) b"
  by (induction n) (simp_all add: crc_bit_xor)

lemma crc_bits_shift: "(\<forall>k < n. \<not> bit c k) \<Longrightarrow> (crc_bit ^^ n) c = drop_bit n c"
proof (induction n)
  case 0
  then show ?case by simp
next
  case (Suc n)
  have "even (drop_bit n c)"
    using Suc.prems by (simp add: bit_iff_odd_drop_bit)
  with Suc show ?case by (simp add: crc_bit_def)
qed

lemma crc_bits_table: "(crc_bit ^^ 8) c = drop_bit 8 c XOR FCSTAB_32 ! unat (c AND 0xff)"
proof -
  have "c = (c AND NOT 0xff) XOR ucast (ucast c :: u8)"
    by (rule word_eq_upt) (simp add: bit_simps upt_numeral)
  then have "(crc_bit ^^ 8) c = (crc_bit ^^ 8) (c AND NOT 0xff) XOR (crc_bit ^^ 8) (ucast (ucast c :: u8))"
    by (metis crc_bits_xor)
  moreover have "\<forall>k < 8. \<not> bit (c AND NOT 0xff) k"
  proof -
    have "list_all (\<lambda>k. \<not> bit (c AND NOT 0xff) k) [0..<8]"
      by (simp add: bit_simps upt_numeral)
    then show ?thesis by (simp only: list_all_iff set_upt) auto
  qed
  then have "(crc_bit ^^ 8) (c AND NOT 0xff) = drop_bit 8 (c AND NOT 0xff)"
    by (rule crc_bits_shift)
  moreover have "drop_bit 8 (c AND NOT 0xff) = drop_bit 8 c"
    by (rule word_eq_upt) (simp add: bit_simps upt_numeral u32_bit_beyond)
  ultimately show ?thesis by (simp add: nth_u32_mask FCSTAB_32_crc)
qed

lemma crc_byte_table:
  "crc_byte c b = drop_bit 8 c XOR FCSTAB_32 ! unat ((c XOR ucast b) AND 0xff)"
proof -
  have "drop_bit 8 (c XOR ucast b) = drop_bit 8 c"
    by (rule word_eq_upt) (simp add: bit_simps upt_numeral u8_bit_beyond)
  then show ?thesis by (simp add: crc_byte_def crc_bits_table)
qed

lemma RTMP_CALC_FCS32_crc:
  "RTMP_CALC_FCS32 Fcs Cp Len
     = (if Len \<le> length Cp then Some (foldl crc_byte Fcs (take Len Cp)) else None)"
  by (induction Fcs Cp Len rule: RTMP_CALC_FCS32.induct) (simp_all flip: crc_byte_table)

subsection \<open>A changed byte changes the check sequence\<close>

lemma crc_bit_inj: "crc_bit a = crc_bit b \<Longrightarrow> a = b"
proof -
  assume eq: "crc_bit a = crc_bit b"
  have top: "bit (crc_bit c) 31 = odd c" for c
    by (simp add: crc_bit_def bit_simps u32_bit_beyond)
  have low: "c = drop_bit 1 c * 2 + of_bool (odd c)" for c :: u32
    using div_mult_mod_eq [of c 2] by (simp add: drop_bit_Suc mod_2_eq_odd)
  from top [of a] top [of b] eq have o: "odd a = odd b" by simp
  with eq have "drop_bit 1 a = drop_bit 1 b"
    by (auto simp: crc_bit_def split: if_splits) (metis xor_word_cancel(1))
  then have "drop_bit 1 a * 2 + of_bool (odd a) = drop_bit 1 b * 2 + of_bool (odd b)"
    by (simp only: o)
  then show "a = b" by (simp only: low [symmetric])
qed

lemma crc_byte_inj: "crc_byte a x = crc_byte b x \<Longrightarrow> a = b"
  and crc_byte_inj_byte: "crc_byte c x = crc_byte c y \<Longrightarrow> x = y"
proof -
  have inj: "(crc_bit ^^ n) u = (crc_bit ^^ n) v \<Longrightarrow> u = v" for n u v
    by (induction n) (auto dest: crc_bit_inj)
  show "crc_byte a x = crc_byte b x \<Longrightarrow> a = b"
    unfolding crc_byte_def by (drule inj) (metis xor_word_cancel(1))
  show "crc_byte c x = crc_byte c y \<Longrightarrow> x = y"
    unfolding crc_byte_def by (drule inj) (metis xor_word_cancel(2) ucast_up_down8)
qed

lemma foldl_crc_inj: "foldl crc_byte a m = foldl crc_byte b m \<Longrightarrow> a = b"
  by (induction m arbitrary: a b) (auto dest: crc_byte_inj)

lemma crc32_changed_byte: "x \<noteq> y \<Longrightarrow> crc32 (a @ x # b) \<noteq> crc32 (a @ y # b)"
  unfolding crc32_def by (auto dest!: foldl_crc_inj crc_byte_inj_byte)

section \<open>Property\<close>

text \<open>\<open>RTMP_CALC_FCS32\<close> reads exactly \<open>Len\<close> bytes, faults when there are fewer, and from the
  initial value \<open>PPPINITFCS32\<close> and complemented it is the CRC-32 of IEEE 802.3 of those bytes.\<close>

theorem RTMP_CALC_FCS32_is_CRC32:
  "map_option (\<lambda>fcs. fcs XOR 0xffffffff) (RTMP_CALC_FCS32 PPPINITFCS32 Cp Len)
     = (if Len \<le> length Cp then Some (crc32 (take Len Cp)) else None)"
proof -
  have "x XOR 0xffffffff = NOT x" for x :: u32
    by (rule word_eq_upt) (simp add: bit_simps upt_numeral)
  then show ?thesis by (simp add: RTMP_CALC_FCS32_crc PPPINITFCS32_def crc32_def)
qed

end
