(* ===== verification/Cmm_Wep.thy ===== *)
theory Cmm_Wep
  imports Crypt_Arc4 Wep_Fcs
begin

text \<open>
  WEP, \<open>rt5572/common/cmm_wep.c\<close>: the key stream's seed, the IV header, the encapsulation of a
  frame and its inverse. The theorems say that a frame built by one is restored by the other,
  that a frame with one changed byte is refused, and which lengths are safe.
\<close>

section \<open>Keys\<close>

text \<open>\<open>CIPHER_KEY\<close> of \<open>include/wpa_cmm.h\<close>, in the station configuration.\<close>

record cipher_key =
  Key :: bytes
  TxMic :: bytes
  RxMic :: bytes
  TxTsc :: bytes
  RxTsc :: bytes
  CipherAlg :: u8
  KeyLen :: u8
  BssId :: bytes
  KeyType :: u8

section \<open>Operations\<close>

text \<open>
  The seed is a zeroed buffer of 16 bytes; \<open>None\<close> is a copy beyond it or beyond a source.
  Allocations succeed.
\<close>

definition RTMPInitWepEngine :: "bytes \<Rightarrow> bytes \<Rightarrow> u8 \<Rightarrow> arc4_ctx option" where
  "RTMPInitWepEngine pIv pKey klen =
     (case move_mem 0 3 pIv (replicate 16 0) of
        None \<Rightarrow> None
      | Some seed \<Rightarrow>
          (case move_mem 3 (unat klen) pKey seed of
             None \<Rightarrow> None
           | Some seed' \<Rightarrow> let seed_len = 3 + klen in ARC4_INIT seed' (unat seed_len)))"

definition RTMPConstructWEPIVHdr :: "u8 \<Rightarrow> bytes \<Rightarrow> bytes option" where
  "RTMPConstructWEPIVHdr key_idx pn =
     (case move_mem 0 3 pn (replicate 4 0) of
        None \<Rightarrow> None
      | Some iv_hdr \<Rightarrow> Some (iv_hdr[3 := push_bit 6 key_idx]))"

text \<open>
  The result is the returned flag and the contents of the buffer. \<open>None\<close> stands for an access
  outside a buffer.
\<close>

definition RTMPSoftEncryptWEP ::
  "bytes \<Rightarrow> cipher_key \<Rightarrow> bytes \<Rightarrow> nat \<Rightarrow> (bool \<times> bytes) option" where
  "RTMPSoftEncryptWEP pIvHdr pKey pData DataByteCnt =
     (if KeyLen pKey = 0 then Some (False, pData)
      else case RTMPInitWepEngine pIvHdr (Key pKey) (KeyLen pKey) of
        None \<Rightarrow> None
      | Some ctx \<Rightarrow>
          (case RTMP_CALC_FCS32 PPPINITFCS32 pData DataByteCnt of
             None \<Rightarrow> None
           | Some fcs \<Rightarrow>
               let FCSCRC32 = cpu2le32 (fcs XOR 0xffffffff) in
               (case move_mem DataByteCnt 4 (store32 FCSCRC32) pData of
                  None \<Rightarrow> None
                | Some pData' \<Rightarrow>
                    map_option (\<lambda>(_, d). (True, d))
                      (ARC4_Compute ctx pData' 0 (DataByteCnt + 4) 0))))"

text \<open>The third component is \<open>*DataByteCnt\<close> after the call.\<close>

definition RTMPSoftDecryptWEP ::
  "cipher_key \<Rightarrow> bytes \<Rightarrow> u16 \<Rightarrow> (bool \<times> bytes \<times> u16) option" where
  "RTMPSoftDecryptWEP pKey pData DataByteCnt =
     (if KeyLen pKey = 0 then Some (False, pData, DataByteCnt)
      else case RTMPInitWepEngine pData (Key pKey) (KeyLen pKey) of
        None \<Rightarrow> None
      | Some ctx \<Rightarrow>
          let ciphertext_len = DataByteCnt - 4 in
          if DataByteCnt \<le> 4 then Some (False, pData, DataByteCnt)
          else case ARC4_Compute ctx pData 4 (unat ciphertext_len) 0 of
            None \<Rightarrow> None
          | Some (_, pData') \<Rightarrow>
              let plaintext_len = ciphertext_len - 4 in
              (case move_mem 0 4 (drop (unat plaintext_len) pData') (replicate 4 0) of
                 None \<Rightarrow> None
               | Some t \<Rightarrow>
                   let trailfcs = load32 t in
                   (case RTMP_CALC_FCS32 PPPINITFCS32 pData' (unat plaintext_len) of
                      None \<Rightarrow> None
                    | Some fcs \<Rightarrow>
                        let crc32 = fcs XOR 0xffffffff in
                        if crc32 \<noteq> cpu2le32 trailfcs then Some (False, pData', DataByteCnt)
                        else Some (True, pData', plaintext_len))))"

section \<open>The seed and the header\<close>

definition wep_key_ok :: "cipher_key \<Rightarrow> bool" where
  "wep_key_ok k \<longleftrightarrow> 0 < KeyLen k \<and> KeyLen k \<le> 13 \<and> unat (KeyLen k) \<le> length (Key k)"

definition wep_seed :: "bytes \<Rightarrow> cipher_key \<Rightarrow> bytes" where
  "wep_seed iv k = take 3 iv @ take (unat (KeyLen k)) (Key k)"

lemma move_mem_Some: "n \<le> length src \<Longrightarrow> off + n \<le> length dst \<Longrightarrow>
    move_mem off n src dst = Some (take off dst @ take n src @ drop (off + n) dst)"
  by (simp add: move_mem_def)

lemma not_fcs: "x XOR 0xffffffff = NOT (x :: u32)"
  by (rule word_eq_upt) (simp add: bit_simps upt_numeral)

lemma RTMP_CALC_FCS32_crc32:
  "n \<le> length m \<Longrightarrow> \<exists>f. RTMP_CALC_FCS32 PPPINITFCS32 m n = Some f
     \<and> f XOR 0xffffffff = crc32 (take n m)"
  by (simp add: RTMP_CALC_FCS32_crc PPPINITFCS32_def crc32_def not_fcs)

text \<open>
  The engine is the RC4 state keyed with the IV followed by the key; only the first three
  bytes of the buffer with the IV are read.
\<close>

lemma RTMPInitWepEngine_setup:
  assumes "wep_key_ok k" and "3 \<le> length iv"
  obtains ctx where "arc4_wf ctx" "arc4_abs ctx = rc4_setup (wep_seed iv k)"
    "\<And>rest. RTMPInitWepEngine (take 3 iv @ rest) (Key k) (KeyLen k) = Some ctx"
proof -
  let ?n = "unat (KeyLen k)"
  from assms(1) have n: "0 < ?n" "?n \<le> 13" "?n \<le> length (Key k)"
    by (auto simp: wep_key_ok_def word_less_nat_alt word_le_nat_alt)
  let ?seed = "wep_seed iv k @ replicate (13 - ?n) 0"
  have len: "length (wep_seed iv k) = 3 + ?n" using assms(2) n by (simp add: wep_seed_def)
  have "KeyLen k = word_of_nat ?n" by simp
  then have "unat (3 + KeyLen k) = 3 + ?n" using n by (simp add: unat_word_ariths)
  moreover have "move_mem 0 3 (take 3 iv @ rest) (replicate 16 0) = Some (take 3 iv @ replicate 13 0)"
    for rest using assms(2) by (simp add: move_mem_def)
  moreover have "move_mem 3 ?n (Key k) (take 3 iv @ replicate 13 0) = Some ?seed"
    using assms(2) n by (simp add: move_mem_def wep_seed_def)
  moreover obtain ctx where "ARC4_INIT ?seed (3 + ?n) = Some ctx" "arc4_wf ctx"
      "arc4_abs ctx = rc4_setup (take (3 + ?n) ?seed)"
    using ARC4_INIT_setup [of "3 + ?n" ?seed] n len by auto
  ultimately show ?thesis
    by (intro that [of ctx]) (simp_all add: RTMPInitWepEngine_def len Let_def)
qed

section \<open>What the frame functions compute\<close>

text \<open>The stream that encrypts a frame with this header and key.\<close>

definition wep_stream :: "bytes \<Rightarrow> cipher_key \<Rightarrow> nat \<Rightarrow> bytes" where
  "wep_stream iv k n = rc4_stream (rc4_setup (wep_seed iv k)) n"

lemma length_rc4_stream: "length (rc4_stream s n) = n"
  by (induction s n rule: rc4_stream.induct) simp_all

lemma length_wep_stream [simp, buf_len]: "length (wep_stream iv k n) = n"
  by (simp add: wep_stream_def length_rc4_stream)

lemma wep_stream_append: "3 \<le> length iv \<Longrightarrow> wep_stream (iv @ rest) k n = wep_stream iv k n"
  by (simp add: wep_stream_def wep_seed_def)

lemma RTMPSoftEncryptWEP_frame:
  assumes "wep_key_ok k" and "3 \<le> length iv" and "length z = 4"
  shows "RTMPSoftEncryptWEP iv k (p @ z @ room) (length p)
    = Some (True, xor_bytes (p @ store32 (crc32 p)) (wep_stream iv k (length p + 4)) @ room)"
proof -
  from RTMPInitWepEngine_setup [OF assms(1,2)] obtain ctx where
    wf: "arc4_wf ctx" "arc4_abs ctx = rc4_setup (wep_seed iv k)"
    and init: "RTMPInitWepEngine iv (Key k) (KeyLen k) = Some ctx"
    by (metis append_take_drop_id)
  from RTMP_CALC_FCS32_crc32 [of "length p" "p @ z @ room"] obtain f where
    f: "RTMP_CALC_FCS32 PPPINITFCS32 (p @ z @ room) (length p) = Some f"
    "f XOR 0xffffffff = crc32 p" by auto
  have "move_mem (length p) 4 (store32 (crc32 p)) (p @ z @ room)
      = Some (p @ store32 (crc32 p) @ room)"
    using assms(3) by (simp add: move_mem_def)
  moreover obtain c' where "ARC4_Compute ctx ((p @ store32 (crc32 p)) @ room) 0 (length p + 4) 0
      = Some (c', xor_bytes (p @ store32 (crc32 p)) (ARC4_stream ctx (length p + 4)) @ room)"
    using arc4.compute_in_place [of "p @ store32 (crc32 p)" "length p + 4" "[]" 0 ctx room] by auto
  moreover have "KeyLen k \<noteq> 0" using assms(1) by (auto simp: wep_key_ok_def)
  ultimately show ?thesis
    by (simp add: RTMPSoftEncryptWEP_def init f cpu2le32_def Let_def ARC4_stream_rc4 wf wep_stream_def)
qed

lemma RTMPSoftDecryptWEP_frame:
  assumes "wep_key_ok k" and "length hdr = 4" and "4 \<le> length c" and "length c + 4 < 65536"
    and p: "p = xor_bytes c (wep_stream hdr k (length c))"
    and icv: "icv_ok \<longleftrightarrow> drop (length c - 4) p = store32 (crc32 (take (length c - 4) p))"
  obtains rest where "length rest = 4"
    "RTMPSoftDecryptWEP k (hdr @ c) (word_of_nat (length c + 4))
       = Some (icv_ok, p @ rest, word_of_nat (if icv_ok then length c - 4 else length c + 4))"
proof -
  let ?m = "length c" and ?d = "word_of_nat (length c + 4) :: u16"
  have "3 \<le> length hdr" using assms(2) by simp
  from RTMPInitWepEngine_setup [OF assms(1) this] obtain ctx where
    wf: "arc4_wf ctx" "arc4_abs ctx = rc4_setup (wep_seed hdr k)"
    and init: "RTMPInitWepEngine (hdr @ c) (Key k) (KeyLen k) = Some ctx"
    by (metis append.assoc append_take_drop_id)
  have cl: "?d - 4 = word_of_nat ?m" by simp
  have um: "unat (word_of_nat ?m :: u16) = ?m" using assms(4) by (simp add: unat_of_nat)
  have pl: "word_of_nat ?m - 4 = (word_of_nat (?m - 4) :: u16)"
    using assms(3) by (simp add: of_nat_diff)
  have up: "unat (word_of_nat (?m - 4) :: u16) = ?m - 4" using assms(4) by (simp add: unat_of_nat)
  have "unat ?d = ?m + 4" using assms(4) by (simp add: unat_of_nat del: of_nat_add)
  then have big: "\<not> ?d \<le> 4" using assms(3) by (auto simp: word_le_nat_alt simp del: of_nat_add)
  have stream: "xor_bytes c (ARC4_stream ctx ?m) = p"
    by (simp add: p wep_stream_def ARC4_stream_rc4 wf)
  obtain c' rest where comp: "ARC4_Compute ctx (hdr @ c) 4 ?m 0 = Some (c', p @ rest)"
    and rest: "length rest = 4"
    using arc4.compute_over_header [of c ?m hdr 4 ctx] assms(2) stream by auto
  have lp: "length p = ?m" by (simp add: p)
  have trail: "move_mem 0 4 (drop (?m - 4) (p @ rest)) (replicate 4 0) = Some (drop (?m - 4) p)"
    using lp assms(3) by (simp add: move_mem_def)
  have le: "?m - 4 \<le> length (p @ rest)" using lp by simp
  obtain f where f: "RTMP_CALC_FCS32 PPPINITFCS32 (p @ rest) (?m - 4) = Some f"
      "f XOR 0xffffffff = crc32 (take (?m - 4) p)"
    using RTMP_CALC_FCS32_crc32 [of "?m - 4" "p @ rest", OF le] lp by auto
  have cmp: "crc32 (take (?m - 4) p) = load32 (drop (?m - 4) p) \<longleftrightarrow> icv_ok"
    using lp assms(3) by (simp add: icv store_load eq_commute)
  have "KeyLen k \<noteq> 0" using assms(1) by (auto simp: wep_key_ok_def)
  then have "RTMPSoftDecryptWEP k (hdr @ c) ?d
       = Some (icv_ok, p @ rest, word_of_nat (if icv_ok then ?m - 4 else ?m + 4))"
    using cmp
    by (simp add: RTMPSoftDecryptWEP_def init Let_def big cl um pl up comp trail f cpu2le32_def
        del: of_nat_add drop_append)
  with rest show ?thesis by (rule that)
qed

section \<open>Round trip and integrity\<close>

text \<open>A received frame: a header, and what the sender's encapsulation made of the payload.\<close>

lemma wep_decrypt_encrypted:
  assumes "wep_key_ok k" and "length hdr = 4" and "length payload + 8 < 65536"
    and enc: "RTMPSoftEncryptWEP hdr k (payload @ replicate 4 0) (length payload)
      = Some (ok, c)"
  shows "ok \<and> (\<exists>rest. RTMPSoftDecryptWEP k (hdr @ c) (word_of_nat (length payload + 8))
    = Some (True, payload @ rest, word_of_nat (length payload)))"
proof -
  let ?x = "payload @ store32 (crc32 payload)"
  have h3: "3 \<le> length hdr" using assms(2) by simp
  have c: "c = xor_bytes ?x (wep_stream hdr k (length payload + 4))" and "ok"
    using RTMPSoftEncryptWEP_frame [OF assms(1) h3, of "replicate 4 0" payload "[]"] enc by simp_all
  have len: "length c = length payload + 4" by (simp add: c)
  have p: "?x = xor_bytes c (wep_stream hdr k (length c))"
    by (simp add: c xor_bytes_cancel)
  have "length c + 4 < 65536" and "4 \<le> length c" using assms(3) len by simp_all
  with RTMPSoftDecryptWEP_frame [OF assms(1,2) _ _ p, where icv_ok = True] len
  obtain rest where "RTMPSoftDecryptWEP k (hdr @ c) (word_of_nat (length payload + 8))
      = Some (True, ?x @ rest, word_of_nat (length payload))"
    by (auto simp: add.assoc)
  with \<open>ok\<close> show ?thesis by auto
qed

text \<open>One changed byte, in the payload or in the check value, and the frame is refused.\<close>

lemma wep_decrypt_changed:
  assumes "wep_key_ok k" and "length hdr = 4" and "length payload + 8 < 65536"
    and enc: "RTMPSoftEncryptWEP hdr k (payload @ replicate 4 0) (length payload)
      = Some (ok, c)"
    and i: "i < length c" and v: "v \<noteq> c ! i"
  shows "\<exists>d. RTMPSoftDecryptWEP k (hdr @ c[i := v]) (word_of_nat (length payload + 8))
    = Some (False, d, word_of_nat (length payload + 8))"
proof -
  let ?x = "payload @ store32 (crc32 payload)" and ?n = "length payload"
  have h3: "3 \<le> length hdr" using assms(2) by simp
  have c: "c = xor_bytes ?x (wep_stream hdr k (?n + 4))"
    using RTMPSoftEncryptWEP_frame [OF assms(1) h3, of "replicate 4 0" payload "[]"] enc by simp_all
  have len: "length c = ?n + 4" by (simp add: c)
  let ?y = "xor_bytes (c[i := v]) (wep_stream hdr k (length (c[i := v])))"
  let ?w = "v XOR wep_stream hdr k (?n + 4) ! i"
  have y: "?y = ?x[i := ?w]"
  proof (rule nth_equalityI)
    show "length ?y = length (?x[i := ?w])" using len by simp
    fix j assume "j < length ?y"
    then show "?y ! j = ?x[i := ?w] ! j"
      using len i by (cases "j = i") (simp_all add: c)
  qed
  have w: "?w \<noteq> ?x ! i"
  proof
    assume "?w = ?x ! i"
    then have "v = ?x ! i XOR wep_stream hdr k (?n + 4) ! i" by (metis xor_word_cancel(1))
    with v i len show False by (simp add: c)
  qed
  have bad: "drop ?n ?y \<noteq> store32 (crc32 (take ?n ?y))"
  proof (cases "i < ?n")
    case True
    have split: "payload = take i payload @ payload ! i # drop (Suc i) payload"
      using True by (rule id_take_nth_drop)
    have "?y = payload[i := ?w] @ store32 (crc32 payload)"
      unfolding y using True by (simp add: list_update_append)
    then have "take ?n ?y = payload[i := ?w]" by simp
    also have "payload[i := ?w] = take i payload @ ?w # drop (Suc i) payload"
      using True by (rule upd_conv_take_nth_drop)
    finally have "take ?n ?y = take i payload @ ?w # drop (Suc i) payload" .
    moreover have "?w \<noteq> payload ! i" using w True by (simp add: nth_append)
    ultimately have "crc32 (take ?n ?y) \<noteq> crc32 payload"
      using crc32_changed_byte split by metis
    moreover have "drop ?n ?y = store32 (crc32 payload)"
      unfolding y using True by (simp add: list_update_append)
    ultimately show ?thesis by (metis load_store)
  next
    case False
    have "take ?n ?y = payload" unfolding y using False by (simp add: list_update_append)
    moreover have "drop ?n ?y = (store32 (crc32 payload))[i - ?n := ?w]"
      unfolding y using False by (simp add: list_update_append)
    moreover have "?w \<noteq> store32 (crc32 payload) ! (i - ?n)"
      using w False by (simp add: nth_append)
    ultimately show ?thesis
      using i len False
      by (metis (no_types, lifting) add_less_cancel_left diff_add_inverse2 length_store(1)
          less_diff_conv2 linorder_not_less nth_list_update_eq add.commute)
  qed
  have "length (c[i := v]) + 4 < 65536" and "4 \<le> length (c[i := v])"
    using assms(3) len by simp_all
  moreover have "False \<longleftrightarrow> drop (length (c[i := v]) - 4) ?y
      = store32 (crc32 (take (length (c[i := v]) - 4) ?y))"
    using bad len by simp
  ultimately obtain rest where
    "RTMPSoftDecryptWEP k (hdr @ c[i := v]) (word_of_nat (length (c[i := v]) + 4))
      = Some (False, ?y @ rest, word_of_nat (length (c[i := v]) + 4))"
    using RTMPSoftDecryptWEP_frame [OF assms(1,2) _ _ refl, where icv_ok = False] by metis
  then show ?thesis using len by (auto simp: add.assoc)
qed

section \<open>Properties\<close>

text \<open>A key of 5 bytes, as the witnesses use it.\<close>

definition wep40_key :: cipher_key where
  "wep40_key = \<lparr>Key = [1, 2, 3, 4, 5] @ replicate 11 0, TxMic = replicate 8 0, RxMic = replicate 8 0,
     TxTsc = replicate 16 0, RxTsc = replicate 16 0, CipherAlg = 1, KeyLen = 5,
     BssId = replicate 6 0, KeyType = 0\<rparr>"

lemma wep40_key_ok: "wep_key_ok wep40_key"
  by (simp add: wep_key_ok_def wep40_key_def)

text \<open>\<open>RTMPSoftEncryptWEP\<close> makes the frame body of IEEE 802.11: the payload and its CRC-32
  in little-endian order, encrypted with the RC4 stream of the IV followed by the key; the
  bytes of the buffer behind it keep their values.\<close>

theorem wep_encapsulation:
  assumes "wep_key_ok k" and "3 \<le> length iv" and "length icv_room = 4"
  shows "RTMPSoftEncryptWEP iv k (payload @ icv_room @ room) (length payload)
    = Some (True, xor_bytes (payload @ store32 (crc32 payload))
        (rc4_stream (rc4_setup (take 3 iv @ take (unat (KeyLen k)) (Key k))) (length payload + 4))
        @ room)"
  using RTMPSoftEncryptWEP_frame [OF assms] by (simp add: wep_stream_def wep_seed_def)

theorem wep_encapsulation_witness:
  "RTMPSoftEncryptWEP [1, 2, 3, 0] wep40_key ([7, 8] @ [0, 0, 0, 0] @ [5]) 2
    = Some (True, xor_bytes ([7, 8] @ store32 (crc32 [7, 8]))
        (rc4_stream (rc4_setup (take 3 [1, 2, 3, 0] @ take (unat (KeyLen wep40_key)) (Key wep40_key))) (2 + 4))
        @ [5])"
  using wep_encapsulation [OF wep40_key_ok, of "[1, 2, 3, 0]" "[0, 0, 0, 0]" "[7, 8]" "[5]"]
  by (simp add: numeral_2_eq_2 del: append_Cons)

text \<open>C28: what \<open>RTMPSoftEncryptWEP\<close> builds is accepted by \<open>RTMPSoftDecryptWEP\<close> with the same key,
  which restores the payload over the IV header and reports its length.\<close>

theorem wep_round_trip:
  assumes "wep_key_ok k" and "length hdr = 4" and "length payload + 8 < 65536"
  shows "\<exists>c rest. RTMPSoftEncryptWEP hdr k (payload @ replicate 4 0) (length payload) = Some (True, c)
    \<and> RTMPSoftDecryptWEP k (hdr @ c) (word_of_nat (length payload + 8))
        = Some (True, payload @ rest, word_of_nat (length payload))"
proof -
  have "3 \<le> length hdr" using assms(2) by simp
  from RTMPSoftEncryptWEP_frame [OF assms(1) this, of "replicate 4 0" payload "[]"]
  obtain c where c: "RTMPSoftEncryptWEP hdr k (payload @ replicate 4 0) (length payload) = Some (True, c)"
    by simp
  from wep_decrypt_encrypted [OF assms this] c show ?thesis by blast
qed

theorem wep_round_trip_witness:
  "\<exists>c rest. RTMPSoftEncryptWEP [1, 2, 3, 0] wep40_key ([7, 8] @ replicate 4 0) 2 = Some (True, c)
    \<and> RTMPSoftDecryptWEP wep40_key ([1, 2, 3, 0] @ c) 10 = Some (True, [7, 8] @ rest, 2)"
  using wep_round_trip [OF wep40_key_ok, of "[1, 2, 3, 0]" "[7, 8]"]
  by (simp add: numeral_2_eq_2 del: append_Cons replicate.simps)

text \<open>C29: a WEP frame in which one byte of the encrypted body has been changed, in the payload
  or in the check value, is refused, and the reported length stays what it was.\<close>

theorem wep_rejects_changed_byte:
  assumes "wep_key_ok k" and "length hdr = 4" and "length payload + 8 < 65536"
    and "i < length payload + 4"
  shows "\<exists>c. RTMPSoftEncryptWEP hdr k (payload @ replicate 4 0) (length payload) = Some (True, c)
    \<and> (v = c ! i \<or> (\<exists>d. RTMPSoftDecryptWEP k (hdr @ c[i := v]) (word_of_nat (length payload + 8))
        = Some (False, d, word_of_nat (length payload + 8))))"
proof -
  have "3 \<le> length hdr" using assms(2) by simp
  from RTMPSoftEncryptWEP_frame [OF assms(1) this, of "replicate 4 0" payload "[]"]
  obtain c where c: "RTMPSoftEncryptWEP hdr k (payload @ replicate 4 0) (length payload) = Some (True, c)"
    and "length c = length payload + 4" by simp
  with wep_decrypt_changed [OF assms(1-3) c, of i v] assms(4) show ?thesis by auto
qed

theorem wep_rejects_changed_byte_witness:
  "\<exists>c. RTMPSoftEncryptWEP [1, 2, 3, 0] wep40_key ([7, 8] @ replicate 4 0) 2 = Some (True, c)
    \<and> (9 = c ! 1 \<or> (\<exists>d. RTMPSoftDecryptWEP wep40_key ([1, 2, 3, 0] @ c[1 := 9]) 10
        = Some (False, d, 10)))"
  using wep_rejects_changed_byte [OF wep40_key_ok, of "[1, 2, 3, 0]" "[7, 8]" 1 9]
  by (simp add: numeral_2_eq_2 del: append_Cons replicate.simps)

text \<open>the guard on the length only excludes frames without a body. With one to three bytes of
  body the length of the plaintext wraps around 16 bits and the check value is read more than
  65532 bytes behind the start of the frame: outside every buffer shorter than that.\<close>

theorem wep_short_frame:
  assumes "wep_key_ok k" and "length hdr = 4" and "0 < length c" and "length c < 4"
    and "length room < 60000"
  shows "RTMPSoftDecryptWEP k (hdr @ c @ room) (word_of_nat (length c + 4)) = None"
proof -
  let ?m = "length c" and ?d = "word_of_nat (length c + 4) :: u16"
  have "3 \<le> length hdr" using assms(2) by simp
  from RTMPInitWepEngine_setup [OF assms(1) this] obtain ctx where
    init: "RTMPInitWepEngine (hdr @ c @ room) (Key k) (KeyLen k) = Some ctx"
    by (metis append.assoc append_take_drop_id)
  have cl: "?d - 4 = word_of_nat ?m" by simp
  have um: "unat (word_of_nat ?m :: u16) = ?m" using assms(4) by (simp add: unat_of_nat)
  have "unat ?d = ?m + 4" using assms(4) by (simp add: unat_of_nat del: of_nat_add)
  then have big: "\<not> ?d \<le> 4" using assms(3) by (auto simp: word_le_nat_alt simp del: of_nat_add)
  have up: "unat (word_of_nat ?m - 4 :: u16) = 65532 + ?m"
    using assms(4) um by (simp add: unat_sub_if_size word_size)
  obtain d where comp: "ARC4_Compute ctx (hdr @ c @ room) 4 ?m 0 = Some d"
    and dl: "length (snd d) = 4 + ?m + length room"
    using ARC4_Compute_stream [of 0 4 ?m "hdr @ c @ room" ctx] assms(2) by simp
  have "move_mem 0 4 (drop (65532 + ?m) (snd d)) (replicate 4 0) = None"
    using dl assms(4,5) by (simp add: move_mem_def)
  moreover have "KeyLen k \<noteq> 0" using assms(1) by (auto simp: wep_key_ok_def)
  ultimately show ?thesis
    using big
    by (cases d) (simp add: RTMPSoftDecryptWEP_def init Let_def cl um up comp del: of_nat_add)
qed

theorem wep_short_frame_witness:
  "RTMPSoftDecryptWEP wep40_key ([1, 2, 3, 0] @ [7] @ replicate 2048 0) 5 = None"
  using wep_short_frame [OF wep40_key_ok, of "[1, 2, 3, 0]" "[7]" "replicate 2048 0"]
  by (simp add: numeral_2_eq_2 del: append_Cons replicate.simps)

text \<open>the IV header holds the packet number and, in the top two bits of its last byte, the
  low two bits of the key index.\<close>

theorem RTMPConstructWEPIVHdr_layout:
  assumes "3 \<le> length pn"
  shows "\<exists>h. RTMPConstructWEPIVHdr key_idx pn = Some h \<and> length h = 4 \<and> take 3 h = take 3 pn
    \<and> drop_bit 6 (h ! 3) = key_idx AND 3"
proof -
  have "drop_bit 6 (push_bit 6 key_idx) = key_idx AND 3"
    by (rule word_eq_upt) (simp add: bit_simps upt_numeral u8_bit_beyond)
  then show ?thesis using assms by (simp add: RTMPConstructWEPIVHdr_def move_mem_def)
qed

theorem RTMPConstructWEPIVHdr_layout_witness:
  "\<exists>h. RTMPConstructWEPIVHdr 2 [1, 2, 3] = Some h \<and> length h = 4 \<and> take 3 h = take 3 [1, 2, 3]
    \<and> drop_bit 6 (h ! 3) = 2 AND 3"
  using RTMPConstructWEPIVHdr_layout [of "[1, 2, 3]" 2] by simp

end
