(* ===== verification/Crypt_Aes.thy ===== *)
theory Crypt_Aes
  imports Aes_Tables
begin

text \<open>
  The block cipher of \<open>rt5572/common/crypt_aes.c\<close>: key expansion, encryption and decryption of a
  block. The reference is the Cipher of FIPS 197 over the field of \<open>Aes_Tables\<close>; decryption
  inverts encryption for the three key lengths.
\<close>

section \<open>The operations\<close>

text \<open>
  \<open>State[r][c]\<close> is \<open>S ! r ! c\<close>, and \<open>KeyWordExpansion[r][i]\<close> is \<open>kw ! i ! r\<close>: the key words are kept
  in the order in which the expansion writes them.
\<close>

type_synonym aes_state = "bytes list"

definition rcon_byte :: "u32 \<Rightarrow> nat \<Rightarrow> u8" where
  "rcon_byte Temprcon n = ucast (drop_bit n Temprcon AND 0xff)"

definition AES_expand_word :: "nat \<Rightarrow> bytes list \<Rightarrow> nat \<Rightarrow> bytes list" where
  "AES_expand_word NumberOfWordOfKey kw KeyIndex =
     (let TempWord = kw ! (KeyIndex - 1);
          TempWord' =
            (if KeyIndex mod NumberOfWordOfKey = 0 then
               let Temprcon = aes_rcon ! (KeyIndex div NumberOfWordOfKey) in
               [byte_at aes_sbox_enc (TempWord ! 1) XOR rcon_byte Temprcon 24,
                byte_at aes_sbox_enc (TempWord ! 2) XOR rcon_byte Temprcon 16,
                byte_at aes_sbox_enc (TempWord ! 3) XOR rcon_byte Temprcon 8,
                byte_at aes_sbox_enc (TempWord ! 0) XOR rcon_byte Temprcon 0]
             else if NumberOfWordOfKey > 6 \<and> KeyIndex mod NumberOfWordOfKey = 4 then
               [byte_at aes_sbox_enc (TempWord ! 0), byte_at aes_sbox_enc (TempWord ! 1),
                byte_at aes_sbox_enc (TempWord ! 2), byte_at aes_sbox_enc (TempWord ! 3)]
             else TempWord);
          Prev = kw ! (KeyIndex - NumberOfWordOfKey)
      in kw @ [[Prev ! 0 XOR TempWord' ! 0, Prev ! 1 XOR TempWord' ! 1,
                Prev ! 2 XOR TempWord' ! 2, Prev ! 3 XOR TempWord' ! 3]])"

definition RT_AES_KeyExpansion :: "bytes \<Rightarrow> nat \<Rightarrow> bytes list" where
  "RT_AES_KeyExpansion Key KeyLength =
     (let NumberOfWordOfKey = KeyLength div 4;
          kw = map (\<lambda>i. [Key ! (4 * i), Key ! (4 * i + 1), Key ! (4 * i + 2), Key ! (4 * i + 3)])
                 [0..<NumberOfWordOfKey]
      in foldl (AES_expand_word NumberOfWordOfKey) kw
           [NumberOfWordOfKey..<4 * (KeyLength div 4 + 6 + 1)])"

definition AES_load :: "bytes \<Rightarrow> aes_state" where
  "AES_load blk = map (\<lambda>r. map (\<lambda>c. blk ! (r + 4 * c)) [0..<4]) [0..<4]"

definition AES_store :: "aes_state \<Rightarrow> bytes" where
  "AES_store S = map (\<lambda>i. S ! (i mod 4) ! (i div 4)) [0..<16]"

definition AES_AddRoundKey :: "bytes list \<Rightarrow> nat \<Rightarrow> aes_state \<Rightarrow> aes_state" where
  "AES_AddRoundKey kw RoundIndex S =
     map (\<lambda>r. map (\<lambda>c. S ! r ! c XOR kw ! (RoundIndex * 4 + c) ! r) [0..<4]) [0..<4]"

definition AES_SubBytes :: "aes_state \<Rightarrow> aes_state" where
  "AES_SubBytes S = map (\<lambda>r. map (\<lambda>c. byte_at aes_sbox_enc (S ! r ! c)) [0..<4]) [0..<4]"

definition AES_InvSubBytes :: "aes_state \<Rightarrow> aes_state" where
  "AES_InvSubBytes S = map (\<lambda>r. map (\<lambda>c. byte_at aes_sbox_dec (S ! r ! c)) [0..<4]) [0..<4]"

text \<open>The values the assignments through \<open>Temp\<close> leave in the rows.\<close>

definition AES_ShiftRows :: "aes_state \<Rightarrow> aes_state" where
  "AES_ShiftRows S =
     [[S ! 0 ! 0, S ! 0 ! 1, S ! 0 ! 2, S ! 0 ! 3],
      [S ! 1 ! 1, S ! 1 ! 2, S ! 1 ! 3, S ! 1 ! 0],
      [S ! 2 ! 2, S ! 2 ! 3, S ! 2 ! 0, S ! 2 ! 1],
      [S ! 3 ! 3, S ! 3 ! 0, S ! 3 ! 1, S ! 3 ! 2]]"

definition AES_InvShiftRows :: "aes_state \<Rightarrow> aes_state" where
  "AES_InvShiftRows S =
     [[S ! 0 ! 0, S ! 0 ! 1, S ! 0 ! 2, S ! 0 ! 3],
      [S ! 1 ! 3, S ! 1 ! 0, S ! 1 ! 1, S ! 1 ! 2],
      [S ! 2 ! 2, S ! 2 ! 3, S ! 2 ! 0, S ! 2 ! 1],
      [S ! 3 ! 1, S ! 3 ! 2, S ! 3 ! 3, S ! 3 ! 0]]"

definition AES_MixColumns :: "aes_state \<Rightarrow> aes_state" where
  "AES_MixColumns S =
     (let Row0 = \<lambda>c. S ! 0 ! c; Row1 = \<lambda>c. S ! 1 ! c; Row2 = \<lambda>c. S ! 2 ! c; Row3 = \<lambda>c. S ! 3 ! c
      in [map (\<lambda>c. byte_at aes_mul_2 (Row0 c) XOR byte_at aes_mul_3 (Row1 c) XOR Row2 c XOR Row3 c) [0..<4],
          map (\<lambda>c. Row0 c XOR byte_at aes_mul_2 (Row1 c) XOR byte_at aes_mul_3 (Row2 c) XOR Row3 c) [0..<4],
          map (\<lambda>c. Row0 c XOR Row1 c XOR byte_at aes_mul_2 (Row2 c) XOR byte_at aes_mul_3 (Row3 c)) [0..<4],
          map (\<lambda>c. byte_at aes_mul_3 (Row0 c) XOR Row1 c XOR Row2 c XOR byte_at aes_mul_2 (Row3 c)) [0..<4]])"

definition AES_InvMixColumns :: "aes_state \<Rightarrow> aes_state" where
  "AES_InvMixColumns S =
     (let Row0 = \<lambda>c. S ! 0 ! c; Row1 = \<lambda>c. S ! 1 ! c; Row2 = \<lambda>c. S ! 2 ! c; Row3 = \<lambda>c. S ! 3 ! c
      in [map (\<lambda>c. byte_at aes_mul_e (Row0 c) XOR byte_at aes_mul_b (Row1 c)
                XOR byte_at aes_mul_d (Row2 c) XOR byte_at aes_mul_9 (Row3 c)) [0..<4],
          map (\<lambda>c. byte_at aes_mul_9 (Row0 c) XOR byte_at aes_mul_e (Row1 c)
                XOR byte_at aes_mul_b (Row2 c) XOR byte_at aes_mul_d (Row3 c)) [0..<4],
          map (\<lambda>c. byte_at aes_mul_d (Row0 c) XOR byte_at aes_mul_9 (Row1 c)
                XOR byte_at aes_mul_e (Row2 c) XOR byte_at aes_mul_b (Row3 c)) [0..<4],
          map (\<lambda>c. byte_at aes_mul_b (Row0 c) XOR byte_at aes_mul_d (Row1 c)
                XOR byte_at aes_mul_9 (Row2 c) XOR byte_at aes_mul_e (Row3 c)) [0..<4]])"

definition AES_enc_round :: "bytes list \<Rightarrow> aes_state \<Rightarrow> nat \<Rightarrow> aes_state" where
  "AES_enc_round kw S RoundIndex =
     AES_AddRoundKey kw RoundIndex (AES_MixColumns (AES_ShiftRows (AES_SubBytes S)))"

definition AES_dec_round :: "bytes list \<Rightarrow> aes_state \<Rightarrow> nat \<Rightarrow> aes_state" where
  "AES_dec_round kw S RoundIndex =
     AES_InvMixColumns (AES_AddRoundKey kw RoundIndex (AES_InvSubBytes (AES_InvShiftRows S)))"

text \<open>Steps 2 to 4 of the two routines: load, rounds, store.\<close>

definition AES_enc_block :: "bytes \<Rightarrow> nat \<Rightarrow> bytes \<Rightarrow> bytes" where
  "AES_enc_block Key KeyLength PlainBlock =
     (let kw = RT_AES_KeyExpansion Key KeyLength;
          NumberOfRound = KeyLength div 4 + 6;
          S0 = AES_AddRoundKey kw 0 (AES_load PlainBlock);
          S1 = foldl (AES_enc_round kw) S0 [1..<NumberOfRound]
      in AES_store (AES_AddRoundKey kw NumberOfRound (AES_ShiftRows (AES_SubBytes S1))))"

definition AES_dec_block :: "bytes \<Rightarrow> nat \<Rightarrow> bytes \<Rightarrow> bytes" where
  "AES_dec_block Key KeyLength CipherBlock =
     (let kw = RT_AES_KeyExpansion Key KeyLength;
          NumberOfRound = KeyLength div 4 + 6;
          S0 = AES_AddRoundKey kw NumberOfRound (AES_load CipherBlock);
          S1 = foldl (AES_dec_round kw) S0 (rev [1..<NumberOfRound])
      in AES_store (AES_AddRoundKey kw 0 (AES_InvSubBytes (AES_InvShiftRows S1))))"

text \<open>
  The results are the contents of the output buffer and the value left in the size parameter;
  \<open>None\<close> stands for an access outside a buffer. The allocation of the context succeeds.
\<close>

definition RT_AES_Encrypt ::
  "bytes \<Rightarrow> nat \<Rightarrow> bytes \<Rightarrow> nat \<Rightarrow> bytes \<Rightarrow> nat \<Rightarrow> (bytes \<times> nat) option" where
  "RT_AES_Encrypt PlainBlock PlainBlockSize Key KeyLength CipherBlock CipherBlockSize =
     (if PlainBlockSize \<noteq> 16 then Some (CipherBlock, CipherBlockSize)
      else if KeyLength \<noteq> 16 \<and> KeyLength \<noteq> 24 \<and> KeyLength \<noteq> 32 then Some (CipherBlock, CipherBlockSize)
      else if CipherBlockSize < 16 then Some (CipherBlock, CipherBlockSize)
      else if length PlainBlock < 16 \<or> length Key < KeyLength \<or> length CipherBlock < 16 then None
      else Some (AES_enc_block Key KeyLength PlainBlock @ drop 16 CipherBlock, 4 * 4))"

definition RT_AES_Decrypt ::
  "bytes \<Rightarrow> nat \<Rightarrow> bytes \<Rightarrow> nat \<Rightarrow> bytes \<Rightarrow> nat \<Rightarrow> (bytes \<times> nat) option" where
  "RT_AES_Decrypt CipherBlock CipherBlockSize Key KeyLength PlainBlock PlainBlockSize =
     (if PlainBlockSize < 16 then Some (PlainBlock, PlainBlockSize)
      else if KeyLength \<noteq> 16 \<and> KeyLength \<noteq> 24 \<and> KeyLength \<noteq> 32 then Some (PlainBlock, PlainBlockSize)
      else if CipherBlockSize \<noteq> 16 then Some (PlainBlock, PlainBlockSize)
      else if length CipherBlock < 16 \<or> length Key < KeyLength \<or> length PlainBlock < 16 then None
      else Some (AES_dec_block Key KeyLength CipherBlock @ drop 16 PlainBlock, 4 * 4))"

section \<open>Decryption inverts encryption\<close>

definition aes_key_length :: "nat \<Rightarrow> bool" where
  "aes_key_length n \<longleftrightarrow> n = 16 \<or> n = 24 \<or> n = 32"

text \<open>A state as the loops leave it: four rows of four bytes.\<close>

definition aes_wf :: "aes_state \<Rightarrow> bool" where
  "aes_wf S \<longleftrightarrow> length S = 4 \<and> (\<forall>r < 4. length (S ! r) = 4)"

lemma upt4: "[0..<4] = [0, 1, 2, 3]"
  by (rule upt_numeral)

lemma less4: "(r :: nat) < 4 \<longleftrightarrow> r = 0 \<or> r = 1 \<or> r = 2 \<or> r = 3"
  by auto

lemma aes_wf_ops:
  "aes_wf (AES_load blk)" "aes_wf (AES_AddRoundKey kw n S)" "aes_wf (AES_SubBytes S)"
  "aes_wf (AES_InvSubBytes S)" "aes_wf (AES_ShiftRows S)" "aes_wf (AES_InvShiftRows S)"
  "aes_wf (AES_MixColumns S)" "aes_wf (AES_InvMixColumns S)"
  by (auto simp: aes_wf_def AES_load_def AES_AddRoundKey_def AES_SubBytes_def AES_InvSubBytes_def
      AES_ShiftRows_def AES_InvShiftRows_def AES_MixColumns_def AES_InvMixColumns_def Let_def less4)

lemma length_four: "length xs = 4 \<longleftrightarrow> (\<exists>a b c d. xs = [a, b, c, d])"
  by (auto simp: numeral_eq_Suc length_Suc_conv)

lemma aes_wf_cases:
  assumes "aes_wf S"
  obtains a0 a1 a2 a3 b0 b1 b2 b3 c0 c1 c2 c3 d0 d1 d2 d3 where
    "S = [[a0, a1, a2, a3], [b0, b1, b2, b3], [c0, c1, c2, c3], [d0, d1, d2, d3]]"
proof -
  from assms obtain r0 r1 r2 r3 where S: "S = [r0, r1, r2, r3]"
    by (auto simp: aes_wf_def length_four)
  with assms have "length r0 = 4" "length r1 = 4" "length r2 = 4" "length r3 = 4"
    by (auto simp: aes_wf_def less4 nth_Cons' all_conj_distrib imp_disjL)
  with S that show ?thesis by (auto simp: length_four)
qed

lemma nth4: "[a, b, c, d] ! 0 = a" "[a, b, c, d] ! 1 = b" "[a, b, c, d] ! Suc 0 = b"
  "[a, b, c, d] ! 2 = c" "[a, b, c, d] ! 3 = d"
  by (simp_all add: numeral_eq_Suc)

lemma AES_store_load: "length blk = 16 \<Longrightarrow> AES_store (AES_load blk) = blk"
  by (rule nth_equalityI) (auto simp: AES_store_def AES_load_def)

lemma AES_load_store: "aes_wf S \<Longrightarrow> AES_load (AES_store S) = S"
  by (erule aes_wf_cases) (simp add: AES_load_def AES_store_def upt4 nth4)

lemma length_AES_store [simp, buf_len]: "length (AES_store S) = 16"
  by (simp add: AES_store_def)

lemma AES_InvSubBytes_Sub: "aes_wf S \<Longrightarrow> AES_InvSubBytes (AES_SubBytes S) = S"
  by (erule aes_wf_cases)
    (simp add: AES_SubBytes_def AES_InvSubBytes_def upt4 aes_sbox_dec_enc nth4)

lemma AES_InvShiftRows_Shift: "aes_wf S \<Longrightarrow> AES_InvShiftRows (AES_ShiftRows S) = S"
  by (erule aes_wf_cases) (simp add: AES_ShiftRows_def AES_InvShiftRows_def nth4)

lemma AES_AddRoundKey_twice: "aes_wf S \<Longrightarrow> AES_AddRoundKey kw n (AES_AddRoundKey kw n S) = S"
  by (erule aes_wf_cases) (simp add: AES_AddRoundKey_def upt4 nth4)

lemma xor_shuffle:
  fixes a b c :: "'a::len word"
  shows "(a XOR b) XOR c = a XOR (b XOR c)" "a XOR b = b XOR a" "b XOR (a XOR c) = a XOR (b XOR c)"
    "a XOR a = 0" "a XOR (a XOR b) = b" "a XOR 0 = a" "0 XOR a = a"
  by (simp_all add: ac_simps)

text \<open>One column: the product of the two matrices is the identity.\<close>

lemma mix_column_inverse:
  fixes a b c d :: u8
  defines "A \<equiv> gf_times 2 a XOR gf_times 3 b XOR c XOR d"
    and "B \<equiv> a XOR gf_times 2 b XOR gf_times 3 c XOR d"
    and "C \<equiv> a XOR b XOR gf_times 2 c XOR gf_times 3 d"
    and "D \<equiv> gf_times 3 a XOR b XOR c XOR gf_times 2 d"
  shows "gf_times 14 A XOR gf_times 11 B XOR gf_times 13 C XOR gf_times 9 D = a"
    and "gf_times 9 A XOR gf_times 14 B XOR gf_times 11 C XOR gf_times 13 D = b"
    and "gf_times 13 A XOR gf_times 9 B XOR gf_times 14 C XOR gf_times 11 D = c"
    and "gf_times 11 A XOR gf_times 13 B XOR gf_times 9 C XOR gf_times 14 D = d"
  unfolding A_def B_def C_def D_def gf_times_small xtime_xor
  by (simp_all only: xor_shuffle)

lemma AES_InvMixColumns_Mix: "aes_wf S \<Longrightarrow> AES_InvMixColumns (AES_MixColumns S) = S"
  by (erule aes_wf_cases, hypsubst)
    (simp only: AES_MixColumns_def AES_InvMixColumns_def aes_mul_gf Let_def upt4 list.map nth4
      mix_column_inverse)

text \<open>
  The rounds of decryption undo the rounds of encryption in the opposite order; between them
  the state has gone through the substitution and the shift of the next round.
\<close>

lemma AES_dec_enc_round:
  assumes "aes_wf S"
  shows "AES_dec_round kw (AES_ShiftRows (AES_SubBytes (AES_enc_round kw S n))) n
    = AES_ShiftRows (AES_SubBytes S)"
  by (simp add: AES_enc_round_def AES_dec_round_def AES_InvShiftRows_Shift AES_InvSubBytes_Sub
      AES_AddRoundKey_twice AES_InvMixColumns_Mix aes_wf_ops)

lemma aes_wf_enc_rounds: "aes_wf S \<Longrightarrow> aes_wf (foldl (AES_enc_round kw) S ns)"
  by (induction ns arbitrary: S) (simp_all add: AES_enc_round_def aes_wf_ops)

lemma AES_dec_enc_rounds:
  assumes "aes_wf S"
  shows "foldl (AES_dec_round kw)
      (AES_ShiftRows (AES_SubBytes (foldl (AES_enc_round kw) S ns))) (rev ns)
    = AES_ShiftRows (AES_SubBytes S)"
proof (induction ns rule: rev_induct)
  case Nil
  then show ?case by simp
next
  case (snoc n ns)
  then show ?case by (simp add: AES_dec_enc_round aes_wf_enc_rounds assms)
qed

lemma AES_dec_enc_block:
  assumes "length blk = 16"
  shows "AES_dec_block Key n (AES_enc_block Key n blk) = blk"
  using assms
  by (simp add: AES_dec_block_def AES_enc_block_def Let_def AES_load_store AES_AddRoundKey_twice
      AES_dec_enc_rounds AES_InvShiftRows_Shift AES_InvSubBytes_Sub AES_store_load aes_wf_ops)

lemma length_AES_block [simp, buf_len]:
  "length (AES_enc_block Key n blk) = 16" "length (AES_dec_block Key n blk) = 16"
  by (simp_all add: AES_enc_block_def AES_dec_block_def Let_def)

lemma RT_AES_Encrypt_block:
  assumes "aes_key_length KeyLength" and "KeyLength \<le> length Key" and "length blk = 16"
    and "16 \<le> length out" and "16 \<le> n"
  shows "RT_AES_Encrypt blk 16 Key KeyLength out n
    = Some (AES_enc_block Key KeyLength blk @ drop 16 out, 16)"
  using assms by (auto simp: RT_AES_Encrypt_def aes_key_length_def)

lemma RT_AES_Decrypt_block:
  assumes "aes_key_length KeyLength" and "KeyLength \<le> length Key" and "length blk = 16"
    and "16 \<le> length out" and "16 \<le> n"
  shows "RT_AES_Decrypt blk 16 Key KeyLength out n
    = Some (AES_dec_block Key KeyLength blk @ drop 16 out, 16)"
  using assms by (auto simp: RT_AES_Decrypt_def aes_key_length_def)

end
