(* ===== verification/Aes_Fips.thy ===== *)
theory Aes_Fips
  imports Crypt_Aes
begin

text \<open>
  The Cipher of FIPS 197 and the proof that the key expansion and the rounds of
  \<open>rt5572/common/crypt_aes.c\<close> compute it.
\<close>

section \<open>FIPS 197\<close>

text \<open>
  The standard on blocks of 16 bytes: the state byte in row \<open>r\<close> and column \<open>c\<close> is byte \<open>r + 4c\<close>.
  Round constants are powers of \<open>x\<close>, mixing is a matrix product over the field, and the key
  words are defined by recursion on their index.
\<close>

definition fips_Rcon :: "nat \<Rightarrow> bytes" where
  "fips_Rcon i = [(xtime ^^ (i - 1)) 1, 0, 0, 0]"

definition fips_SubWord :: "bytes \<Rightarrow> bytes" where
  "fips_SubWord w = map (byte_at aes_sbox_enc) w"

definition fips_RotWord :: "bytes \<Rightarrow> bytes" where
  "fips_RotWord w = rotate1 w"

function fips_w :: "nat \<Rightarrow> bytes \<Rightarrow> nat \<Rightarrow> bytes" where
  "fips_w Nk key i =
     (if i < Nk \<or> Nk = 0 then take 4 (drop (4 * i) key)
      else let temp = fips_w Nk key (i - 1);
               temp' = (if i mod Nk = 0
                        then xor_bytes (fips_SubWord (fips_RotWord temp)) (fips_Rcon (i div Nk))
                        else if Nk > 6 \<and> i mod Nk = 4 then fips_SubWord temp else temp)
           in xor_bytes (fips_w Nk key (i - Nk)) temp')"
  by pat_completeness auto
termination by (relation "measure (\<lambda>(Nk, key, i). i)") auto

declare fips_w.simps [simp del]

definition fips_ShiftRows :: "bytes \<Rightarrow> bytes" where
  "fips_ShiftRows s = map (\<lambda>i. s ! (i mod 4 + 4 * ((i div 4 + i mod 4) mod 4))) [0..<16]"

text \<open>Row \<open>r\<close> of the matrix is the row of 2, 3, 1, 1 shifted \<open>r\<close> places.\<close>

definition fips_coeff :: "nat \<Rightarrow> nat \<Rightarrow> nat" where
  "fips_coeff r k = [2, 3, 1, 1] ! ((k + 4 - r) mod 4)"

definition fips_MixColumns :: "bytes \<Rightarrow> bytes" where
  "fips_MixColumns s = map (\<lambda>i. foldr (XOR)
     (map (\<lambda>k. gf_times (fips_coeff (i mod 4) k) (s ! (k + 4 * (i div 4)))) [0..<4]) 0) [0..<16]"

definition fips_AddRoundKey :: "(nat \<Rightarrow> bytes) \<Rightarrow> nat \<Rightarrow> bytes \<Rightarrow> bytes" where
  "fips_AddRoundKey w n s = xor_bytes s (concat (map (\<lambda>c. w (4 * n + c)) [0..<4]))"

definition fips_Cipher :: "nat \<Rightarrow> bytes \<Rightarrow> bytes \<Rightarrow> bytes" where
  "fips_Cipher Nk key blk =
     (let w = fips_w Nk key; Nr = Nk + 6;
          s0 = fips_AddRoundKey w 0 blk;
          s1 = foldl (\<lambda>s n. fips_AddRoundKey w n
                 (fips_MixColumns (fips_ShiftRows (fips_SubWord s)))) s0 [1..<Nr]
      in fips_AddRoundKey w Nr (fips_ShiftRows (fips_SubWord s1)))"

subsection \<open>The expanded key\<close>

lemma rcon_fips: "1 \<le> i \<Longrightarrow> i \<le> 10 \<Longrightarrow>
  [rcon_byte (aes_rcon ! i) 24, rcon_byte (aes_rcon ! i) 16, rcon_byte (aes_rcon ! i) 8,
   rcon_byte (aes_rcon ! i) 0] = fips_Rcon i"
proof -
  have "list_all (\<lambda>i. [rcon_byte (aes_rcon ! i) 24, rcon_byte (aes_rcon ! i) 16,
      rcon_byte (aes_rcon ! i) 8, rcon_byte (aes_rcon ! i) 0] = fips_Rcon i) [1..<11]"
    by code_simp
  then show "1 \<le> i \<Longrightarrow> i \<le> 10 \<Longrightarrow> ?thesis" by (simp only: list_all_iff set_upt) auto
qed

lemma length_fips_w: "0 < Nk \<Longrightarrow> 4 * Nk \<le> length key \<Longrightarrow> length (fips_w Nk key i) = 4"
proof (induction i rule: less_induct)
  case (less i)
  show ?case
  proof (cases "i < Nk")
    case True
    then have "fips_w Nk key i = take 4 (drop (4 * i) key)" by (subst fips_w.simps) simp
    with True less.prems show ?thesis by simp
  next
    case False
    then have "length (fips_w Nk key (i - 1)) = 4" "length (fips_w Nk key (i - Nk)) = 4"
      using less by auto
    with False less.prems show ?thesis
      by (subst fips_w.simps) (simp add: Let_def fips_SubWord_def fips_RotWord_def fips_Rcon_def)
  qed
qed

lemma AES_expand_word_fips:
  assumes i: "Nk \<le> i" "i < 4 * (Nk + 7)" and Nk: "4 \<le> Nk" and key: "4 * Nk \<le> length key"
  shows "AES_expand_word Nk (map (fips_w Nk key) [0..<i]) i
    = map (fips_w Nk key) [0..<i] @ [fips_w Nk key i]"
proof -
  have len: "length (fips_w Nk key j) = 4" for j using length_fips_w [of Nk key j] Nk key by simp
  then obtain t0 t1 t2 t3 where t: "fips_w Nk key (i - 1) = [t0, t1, t2, t3]"
    by (meson length_four)
  from len obtain p0 p1 p2 p3 where p: "fips_w Nk key (i - Nk) = [p0, p1, p2, p3]"
    by (meson length_four)
  have at: "map (fips_w Nk key) [0..<i] ! (i - 1) = [t0, t1, t2, t3]"
    "map (fips_w Nk key) [0..<i] ! (i - Nk) = [p0, p1, p2, p3]"
    using i Nk t p by simp_all
  have rc: "fips_Rcon (i div Nk) = [rcon_byte (aes_rcon ! (i div Nk)) 24,
      rcon_byte (aes_rcon ! (i div Nk)) 16, rcon_byte (aes_rcon ! (i div Nk)) 8,
      rcon_byte (aes_rcon ! (i div Nk)) 0]"
  proof (rule rcon_fips [symmetric])
    show "1 \<le> i div Nk" using i Nk by (simp add: Suc_le_eq div_greater_zero_iff)
    have "i < 11 * Nk" using i Nk by simp
    then show "i div Nk \<le> 10" using Nk by (simp add: less_mult_imp_div_less less_Suc_eq_le [symmetric])
  qed
  have w: "fips_w Nk key i = xor_bytes [p0, p1, p2, p3]
     (if i mod Nk = 0 then xor_bytes (fips_SubWord (fips_RotWord [t0, t1, t2, t3])) (fips_Rcon (i div Nk))
      else if Nk > 6 \<and> i mod Nk = 4 then fips_SubWord [t0, t1, t2, t3] else [t0, t1, t2, t3])"
    using i Nk by (subst fips_w.simps) (simp add: Let_def t [unfolded One_nat_def] p)
  show ?thesis
    unfolding AES_expand_word_def at w Let_def nth4 rc
    by (auto simp: fips_SubWord_def fips_RotWord_def nth4)
qed

lemma RT_AES_KeyExpansion_fips:
  assumes "aes_key_length KeyLength" and "KeyLength \<le> length Key"
  shows "RT_AES_KeyExpansion Key KeyLength
    = map (fips_w (KeyLength div 4) Key) [0..<4 * (KeyLength div 4 + 7)]"
proof -
  let ?Nk = "KeyLength div 4"
  have Nk: "4 \<le> ?Nk" "4 * ?Nk = KeyLength" using assms(1) by (auto simp: aes_key_length_def)
  have "take 4 (drop (4 * i) Key) = [Key ! (4 * i), Key ! (4 * i + 1), Key ! (4 * i + 2), Key ! (4 * i + 3)]"
    if "i < ?Nk" for i
    by (rule nth_equalityI) (use that Nk assms(2) in \<open>auto simp: nth4 less4\<close>)
  then have "map (\<lambda>i. [Key ! (4 * i), Key ! (4 * i + 1), Key ! (4 * i + 2), Key ! (4 * i + 3)]) [0..<?Nk]
      = map (fips_w ?Nk Key) [0..<?Nk]"
    by (simp add: fips_w.simps [of ?Nk Key])
  moreover have "?Nk + 6 + 1 = ?Nk + 7" by simp
  ultimately show ?thesis
    unfolding RT_AES_KeyExpansion_def Let_def
    by (simp only:) (rule foldl_schedule; use Nk assms(2) in \<open>simp add: AES_expand_word_fips\<close>)
qed

subsection \<open>The rounds\<close>

lemmas upt16 = upt_numeral(3)

lemma AES_SubBytes_fips: "aes_wf S \<Longrightarrow> AES_store (AES_SubBytes S) = fips_SubWord (AES_store S)"
  by (erule aes_wf_cases) (simp add: AES_store_def AES_SubBytes_def fips_SubWord_def upt16 upt4 nth4)

lemma AES_ShiftRows_fips: "aes_wf S \<Longrightarrow> AES_store (AES_ShiftRows S) = fips_ShiftRows (AES_store S)"
  by (erule aes_wf_cases) (simp add: AES_store_def AES_ShiftRows_def fips_ShiftRows_def upt16 nth4)

lemma gf_times_1: "gf_times 1 b = b" "gf_times (Suc 0) b = b"
  by (simp_all add: gf_times.simps)

lemma AES_MixColumns_fips: "aes_wf S \<Longrightarrow> AES_store (AES_MixColumns S) = fips_MixColumns (AES_store S)"
  by (erule aes_wf_cases)
    (simp add: AES_store_def AES_MixColumns_def fips_MixColumns_def fips_coeff_def aes_mul_gf
      upt16 upt4 nth4 gf_times_1 Let_def)

lemma AES_AddRoundKey_fips:
  assumes "aes_wf S" and "\<And>i. length (w i) = 4" and "4 * n + 4 \<le> m"
  shows "AES_store (AES_AddRoundKey (map w [0..<m]) n S) = fips_AddRoundKey w n (AES_store S)"
proof -
  have at: "map w [0..<m] ! (n * 4 + c) = w (4 * n + c)" if "c < 4" for c
    using that assms(3) by (simp add: mult.commute)
  obtain a0 a1 a2 a3 where w0: "w (4 * n + 0) = [a0, a1, a2, a3]" using assms(2) by (meson length_four)
  obtain b0 b1 b2 b3 where w1: "w (4 * n + 1) = [b0, b1, b2, b3]" using assms(2) by (meson length_four)
  obtain c0 c1 c2 c3 where w2: "w (4 * n + 2) = [c0, c1, c2, c3]" using assms(2) by (meson length_four)
  obtain d0 d1 d2 d3 where w3: "w (4 * n + 3) = [d0, d1, d2, d3]" using assms(2) by (meson length_four)
  have idx: "(0::nat) < 4" "(1::nat) < 4" "(2::nat) < 4" "(3::nat) < 4" by simp_all
  note words = idx [THEN at] w0 w1 w2 w3
  have ark: "AES_AddRoundKey (map w [0..<m]) n S =
     [[S ! 0 ! 0 XOR a0, S ! 0 ! 1 XOR b0, S ! 0 ! 2 XOR c0, S ! 0 ! 3 XOR d0],
      [S ! 1 ! 0 XOR a1, S ! 1 ! 1 XOR b1, S ! 1 ! 2 XOR c1, S ! 1 ! 3 XOR d1],
      [S ! 2 ! 0 XOR a2, S ! 2 ! 1 XOR b2, S ! 2 ! 2 XOR c2, S ! 2 ! 3 XOR d2],
      [S ! 3 ! 0 XOR a3, S ! 3 ! 1 XOR b3, S ! 3 ! 2 XOR c3, S ! 3 ! 3 XOR d3]]"
    unfolding AES_AddRoundKey_def upt4 list.map words nth4 ..
  have key: "concat (map (\<lambda>c. w (4 * n + c)) [0..<4])
      = [a0, a1, a2, a3, b0, b1, b2, b3, c0, c1, c2, c3, d0, d1, d2, d3]"
    unfolding upt4 list.map w0 w1 w2 w3 by simp
  from assms(1) show ?thesis
    unfolding ark fips_AddRoundKey_def key
    by (elim aes_wf_cases) (simp add: AES_store_def upt16 nth4)
qed

lemma AES_enc_round_fips:
  assumes "aes_wf S" and "\<And>i. length (w i) = 4" and "4 * n + 4 \<le> m"
  shows "AES_store (AES_enc_round (map w [0..<m]) S n)
    = fips_AddRoundKey w n (fips_MixColumns (fips_ShiftRows (fips_SubWord (AES_store S))))"
  using assms
  by (simp add: AES_enc_round_def AES_AddRoundKey_fips AES_MixColumns_fips AES_ShiftRows_fips
      AES_SubBytes_fips aes_wf_ops)

lemma AES_enc_rounds_fips:
  assumes "aes_wf S" and "\<And>i. length (w i) = 4" and "\<forall>n \<in> set ns. 4 * n + 4 \<le> m"
  shows "AES_store (foldl (AES_enc_round (map w [0..<m])) S ns)
    = foldl (\<lambda>s n. fips_AddRoundKey w n (fips_MixColumns (fips_ShiftRows (fips_SubWord s))))
        (AES_store S) ns"
  using assms(1,3)
proof (induction ns arbitrary: S)
  case Nil
  then show ?case by simp
next
  case (Cons n ns)
  have "aes_wf (AES_enc_round (map w [0..<m]) S n)"
    using aes_wf_enc_rounds [OF Cons.prems(1), of _ "[n]"] by simp
  with Cons show ?case by (simp add: AES_enc_round_fips assms(2))
qed

lemma AES_enc_block_fips:
  assumes "aes_key_length KeyLength" and "KeyLength \<le> length Key" and "length blk = 16"
  shows "AES_enc_block Key KeyLength blk = fips_Cipher (KeyLength div 4) Key blk"
proof -
  let ?Nk = "KeyLength div 4" and ?w = "fips_w (KeyLength div 4) Key"
  have Nk: "0 < ?Nk" "4 * ?Nk = KeyLength" using assms(1) by (auto simp: aes_key_length_def)
  have len: "length (?w i) = 4" for i using length_fips_w [of ?Nk Key i] Nk assms(2) by simp
  have b: "4 * n + 4 \<le> 4 * (?Nk + 7)" if "n \<le> ?Nk + 6" for n using that by simp
  then have bs: "\<forall>n \<in> set [1..<?Nk + 6]. 4 * n + 4 \<le> 4 * (?Nk + 7)" by simp
  show ?thesis
    unfolding AES_enc_block_def fips_Cipher_def Let_def RT_AES_KeyExpansion_fips [OF assms(1,2)]
    using assms(3) bs
    by (simp add: AES_AddRoundKey_fips len AES_ShiftRows_fips AES_SubBytes_fips aes_wf_ops
        aes_wf_enc_rounds AES_enc_rounds_fips AES_store_load)
qed

section \<open>Properties\<close>

text \<open>C21: for the three key lengths \<open>RT_AES_Encrypt\<close> writes the Cipher of FIPS 197 of the block
  into the first 16 bytes of the output buffer and sets the size to 16.\<close>

theorem RT_AES_Encrypt_is_FIPS197:
  assumes "aes_key_length KeyLength" and "KeyLength \<le> length Key" and "length PlainBlock = 16"
    and "16 \<le> length CipherBlock" and "16 \<le> CipherBlockSize"
  shows "RT_AES_Encrypt PlainBlock 16 Key KeyLength CipherBlock CipherBlockSize
    = Some (fips_Cipher (KeyLength div 4) Key PlainBlock @ drop 16 CipherBlock, 16)"
  using RT_AES_Encrypt_block [OF assms] AES_enc_block_fips [OF assms(1-3)] by simp

theorem RT_AES_Encrypt_is_FIPS197_witness:
  "RT_AES_Encrypt (replicate 16 1) 16 (replicate 24 2) 24 (replicate 20 0) 20
    = Some (fips_Cipher 6 (replicate 24 2) (replicate 16 1) @ drop 16 (replicate 20 0), 16)"
  using RT_AES_Encrypt_is_FIPS197 [of 24 "replicate 24 2" "replicate 16 1" "replicate 20 0" 20]
  by (simp add: aes_key_length_def)

text \<open>\<open>RT_AES_Decrypt\<close> with the same key restores the block that \<open>RT_AES_Encrypt\<close> encrypted, for
  keys of 16, 24 and 32 bytes.\<close>

theorem RT_AES_round_trip:
  assumes "aes_key_length KeyLength" and "KeyLength \<le> length Key" and "length PlainBlock = 16"
    and "length buf1 = 16" and "length buf2 = 16"
  shows "\<exists>c. RT_AES_Encrypt PlainBlock 16 Key KeyLength buf1 16 = Some (c, 16)
    \<and> RT_AES_Decrypt c 16 Key KeyLength buf2 16 = Some (PlainBlock, 16)"
  using RT_AES_Encrypt_block [OF assms(1-3), of buf1 16] assms
  by (simp add: RT_AES_Decrypt_block AES_dec_enc_block)

theorem RT_AES_round_trip_witness:
  "\<exists>c. RT_AES_Encrypt (replicate 16 1) 16 (replicate 32 2) 32 (replicate 16 0) 16 = Some (c, 16)
    \<and> RT_AES_Decrypt c 16 (replicate 32 2) 32 (replicate 16 0) 16 = Some (replicate 16 1, 16)"
  using RT_AES_round_trip [of 32 "replicate 32 2" "replicate 16 1" "replicate 16 0" "replicate 16 0"]
  by (simp add: aes_key_length_def)

end
