(* ===== verification/Aes_Cbc.thy ===== *)
theory Aes_Cbc
  imports Crypt_Aes
begin

text \<open>
  \<open>AES_CBC_Encrypt\<close> and \<open>AES_CBC_Decrypt\<close> of \<open>rt5572/common/crypt_aes.c\<close>: cipher block chaining with
  the padding of every byte equal to the number of bytes added. The interface \<open>block_cipher\<close>
  is what the modes of operation rely on. Lengths are natural numbers; the length of a buffer
  that exists plus one block does not reach \<open>2 ^ 32\<close>.
\<close>

section \<open>The interface of a block cipher\<close>

locale block_cipher =
  fixes enc :: "bytes \<Rightarrow> bytes" and dec :: "bytes \<Rightarrow> bytes"
  assumes enc_length: "length (enc b) = 16"
    and dec_length: "length (dec b) = 16"
    and dec_enc: "length b = 16 \<Longrightarrow> dec (enc b) = b"

interpretation aes: block_cipher "AES_enc_block Key n" "AES_dec_block Key n" for Key n
  by unfold_locales (simp_all add: AES_dec_enc_block)

section \<open>The operations\<close>

text \<open>
  The loop over the full blocks: \<open>pbs\<close> is \<open>PlainBlockStart\<close>, \<open>cbs\<close> is \<open>CipherBlockStart\<close> and \<open>ct\<close>
  the contents of \<open>CipherText\<close>. A block that would be read beyond a buffer is too short, which
  \<open>RT_AES_Encrypt\<close> answers with \<open>None\<close>.
\<close>

definition cbc_chain :: "bytes \<Rightarrow> bytes \<Rightarrow> nat \<Rightarrow> bytes" where
  "cbc_chain IV ct cbs = (if cbs = 0 then take 16 IV else take 16 (drop (cbs - 16) ct))"

function cbc_enc_loop ::
  "bytes \<Rightarrow> nat \<Rightarrow> bytes \<Rightarrow> nat \<Rightarrow> bytes \<Rightarrow> nat \<Rightarrow> nat \<times> nat \<times> bytes \<Rightarrow> (nat \<times> nat \<times> bytes) option" where
  "cbc_enc_loop pt PlainTextLength Key KeyLength IV ctl (pbs, cbs, ct) =
     (if PlainTextLength - pbs \<ge> 16 then
        let Block = xor_bytes (take 16 (drop pbs pt)) (cbc_chain IV ct cbs) in
        (case RT_AES_Encrypt Block 16 Key KeyLength (drop cbs ct) (ctl - cbs) of
           None \<Rightarrow> None
         | Some (t, CipherBlockSize) \<Rightarrow>
             cbc_enc_loop pt PlainTextLength Key KeyLength IV ctl
               (pbs + 16, cbs + CipherBlockSize, take cbs ct @ t))
      else Some (pbs, cbs, ct))"
  by pat_completeness auto
termination by (relation "measure (\<lambda>(pt, n, k, kl, iv, ctl, pbs, cbs, ct). n - pbs)") auto

declare cbc_enc_loop.simps [simp del]

definition AES_CBC_Encrypt ::
  "bytes \<Rightarrow> nat \<Rightarrow> bytes \<Rightarrow> nat \<Rightarrow> bytes \<Rightarrow> nat \<Rightarrow> bytes \<Rightarrow> nat \<Rightarrow> (bytes \<times> nat) option" where
  "AES_CBC_Encrypt PlainText PlainTextLength Key KeyLength IV IVLength CipherText CipherTextLength =
     (let PaddingSize = 16 - PlainTextLength mod 16 in
      if CipherTextLength < PlainTextLength + PaddingSize then Some (CipherText, CipherTextLength)
      else if KeyLength \<noteq> 16 \<and> KeyLength \<noteq> 24 \<and> KeyLength \<noteq> 32 then Some (CipherText, CipherTextLength)
      else if IVLength \<noteq> 16 then Some (CipherText, CipherTextLength)
      else case cbc_enc_loop PlainText PlainTextLength Key KeyLength IV CipherTextLength
                  (0, 0, CipherText) of
        None \<Rightarrow> None
      | Some (pbs, cbs, ct) \<Rightarrow>
          let Block = take (PlainTextLength - pbs) (drop pbs PlainText)
                @ replicate PaddingSize (word_of_nat PaddingSize);
              Block' = xor_bytes Block (cbc_chain IV ct cbs)
          in (case RT_AES_Encrypt Block' 16 Key KeyLength (drop cbs ct) (CipherTextLength - cbs) of
                None \<Rightarrow> None
              | Some (t, CipherBlockSize) \<Rightarrow> Some (take cbs ct @ t, cbs + CipherBlockSize)))"

text \<open>\<open>dst[off .. off + 15] ^= x\<close>, \<open>None\<close> outside the buffers.\<close>

definition xor_block_at :: "nat \<Rightarrow> bytes \<Rightarrow> bytes \<Rightarrow> bytes option" where
  "xor_block_at off x dst =
     (if off + 16 \<le> length dst \<and> length x = 16
      then Some (take off dst @ xor_bytes (take 16 (drop off dst)) x @ drop (off + 16) dst) else None)"

text \<open>\<open>ptl\<close> is \<open>*PlainTextLength\<close>; \<open>PlainBlockSize\<close> is a 32-bit difference.\<close>

function cbc_dec_loop ::
  "bytes \<Rightarrow> nat \<Rightarrow> bytes \<Rightarrow> nat \<Rightarrow> bytes \<Rightarrow> nat \<Rightarrow> nat \<times> nat \<times> bytes \<Rightarrow> (nat \<times> nat \<times> bytes) option" where
  "cbc_dec_loop ct CipherTextLength Key KeyLength IV ptl (cbs, pbs, pt) =
     (if CipherTextLength - cbs \<ge> 16 then
        (case RT_AES_Decrypt (drop cbs ct) 16 Key KeyLength (drop pbs pt) (sub32 ptl pbs) of
           None \<Rightarrow> None
         | Some (t, PlainBlockSize) \<Rightarrow>
             let x = (if pbs = 0 then take 16 IV else take 16 (drop (cbs - 16) ct)) in
             (case xor_block_at pbs x (take pbs pt @ t) of
                None \<Rightarrow> None
              | Some pt' \<Rightarrow>
                  cbc_dec_loop ct CipherTextLength Key KeyLength IV ptl
                    (cbs + 16, pbs + PlainBlockSize, pt')))
      else Some (cbs, pbs, pt))"
  by pat_completeness auto
termination by (relation "measure (\<lambda>(ct, n, k, kl, iv, ptl, cbs, pbs, pt). n - cbs)") auto

declare cbc_dec_loop.simps [simp del]

text \<open>
  \<open>CipherTextLength % AES_BLOCK_SIZES\<close> is what the macro \<open>AES_STATE_ROWS*AES_STATE_COLUMNS\<close>, which
  has no parentheses, makes of it.
\<close>

definition AES_CBC_Decrypt ::
  "bytes \<Rightarrow> nat \<Rightarrow> bytes \<Rightarrow> nat \<Rightarrow> bytes \<Rightarrow> nat \<Rightarrow> bytes \<Rightarrow> nat \<Rightarrow> (bytes \<times> nat) option" where
  "AES_CBC_Decrypt CipherText CipherTextLength Key KeyLength IV IVLength PlainText PlainTextLength =
     (if CipherTextLength mod 4 * 4 \<noteq> 0 then Some (PlainText, PlainTextLength)
      else if KeyLength \<noteq> 16 \<and> KeyLength \<noteq> 24 \<and> KeyLength \<noteq> 32 then Some (PlainText, PlainTextLength)
      else if IVLength \<noteq> 16 then Some (PlainText, PlainTextLength)
      else case cbc_dec_loop CipherText CipherTextLength Key KeyLength IV PlainTextLength
                  (0, 0, PlainText) of
        None \<Rightarrow> None
      | Some (cbs, pbs, pt) \<Rightarrow>
          if pbs = 0 \<or> length pt < pbs then None
          else let PaddingSize = unat (pt ! (pbs - 1)) in Some (pt, sub32 pbs PaddingSize))"

section \<open>Cipher block chaining\<close>

text \<open>The mode of NIST SP 800-38A on whole blocks, and the padding.\<close>

fun cbc_enc :: "(bytes \<Rightarrow> bytes) \<Rightarrow> bytes \<Rightarrow> bytes list \<Rightarrow> bytes list" where
  "cbc_enc E iv [] = []"
| "cbc_enc E iv (b # bs) = (let c = E (xor_bytes b iv) in c # cbc_enc E c bs)"

fun cbc_dec :: "(bytes \<Rightarrow> bytes) \<Rightarrow> bytes \<Rightarrow> bytes list \<Rightarrow> bytes list" where
  "cbc_dec D iv [] = []"
| "cbc_dec D iv (c # cs) = xor_bytes (D c) iv # cbc_dec D c cs"

definition cbc_pad :: "bytes \<Rightarrow> bytes" where
  "cbc_pad m = m @ replicate (16 - length m mod 16) (word_of_nat (16 - length m mod 16))"

context block_cipher
begin

lemma cbc_dec_enc:
  assumes "\<forall>b \<in> set bs. length b = 16" and "length iv = 16"
  shows "cbc_dec dec iv (cbc_enc enc iv bs) = bs"
  using assms
  by (induction bs arbitrary: iv) (simp_all add: Let_def dec_enc enc_length xor_bytes_cancel)

lemma length_cbc_enc: "length (cbc_enc enc iv bs) = length bs"
  by (induction bs arbitrary: iv) (simp_all add: Let_def)

lemma cbc_enc_blocks: "c \<in> set (cbc_enc enc iv bs) \<Longrightarrow> length c = 16"
  by (induction bs arbitrary: iv) (auto simp: Let_def enc_length)

end

section \<open>What the loops compute\<close>

lemma cbc_enc_snoc:
  "cbc_enc E iv (bs @ [b]) = cbc_enc E iv bs @ [E (xor_bytes b (last (iv # cbc_enc E iv bs)))]"
  by (induction bs arbitrary: iv) (simp_all add: Let_def)

lemma cbc_enc_loop_run:
  assumes "\<forall>b \<in> set bs. length b = 16" and "drop pbs pt = concat bs @ rest"
    and "n = pbs + 16 * length bs + r" "r < 16"
    and "cbc_chain IV ct cbs = iv" "length iv = 16"
    and "cbs + 16 * length bs \<le> length ct" "cbs + 16 * length bs \<le> ctl"
    and key: "aes_key_length KeyLength" "KeyLength \<le> length Key"
  shows "\<exists>ct'. cbc_enc_loop pt n Key KeyLength IV ctl (pbs, cbs, ct)
      = Some (pbs + 16 * length bs, cbs + 16 * length bs, ct')
    \<and> ct' = take cbs ct @ concat (cbc_enc (AES_enc_block Key KeyLength) iv bs)
        @ drop (cbs + 16 * length bs) ct
    \<and> cbc_chain IV ct' (cbs + 16 * length bs)
        = last (iv # cbc_enc (AES_enc_block Key KeyLength) iv bs)"
  using assms(1-8)
proof (induction bs arbitrary: pbs cbs ct iv)
  case Nil
  then show ?case by (simp add: cbc_enc_loop.simps)
next
  case (Cons b bs)
  let ?c = "AES_enc_block Key KeyLength (xor_bytes b iv)"
  let ?ct = "take cbs ct @ ?c @ drop (cbs + 16) ct"
  have b: "length b = 16" using Cons.prems(1) by simp
  have cl: "cbs + 16 \<le> length ct" using Cons.prems(7) by simp
  have "take 16 (drop pbs pt) = b" using b Cons.prems(2) by simp
  then have blk: "xor_bytes (take 16 (drop pbs pt)) (cbc_chain IV ct cbs) = xor_bytes b iv"
    using Cons.prems(5) by simp
  have enc: "RT_AES_Encrypt (xor_bytes b iv) 16 Key KeyLength (drop cbs ct) (ctl - cbs)
      = Some (?c @ drop (cbs + 16) ct, 16)"
    using RT_AES_Encrypt_block [OF key, of "xor_bytes b iv" "drop cbs ct" "ctl - cbs"]
      b Cons.prems(6-8) by (simp add: add.commute)
  have step: "cbc_enc_loop pt n Key KeyLength IV ctl (pbs, cbs, ct)
      = cbc_enc_loop pt n Key KeyLength IV ctl (pbs + 16, cbs + 16, ?ct)"
    using Cons.prems(3) by (subst cbc_enc_loop.simps) (simp add: Let_def blk enc)
  have "drop (pbs + 16) pt = drop 16 (drop pbs pt)" by (simp add: add.commute)
  then have d: "drop (pbs + 16) pt = concat bs @ rest" using Cons.prems(2) b by simp
  have chain: "cbc_chain IV ?ct (cbs + 16) = ?c" using cl by (simp add: cbc_chain_def)
  have tk: "take (cbs + 16) ?ct = take cbs ct @ ?c" using cl by simp
  have dr: "drop (cbs + 16 + 16 * length bs) ?ct = drop (cbs + 16 + 16 * length bs) ct"
    using cl by (simp add: add.commute)
  have p1: "\<forall>b \<in> set bs. length b = 16" using Cons.prems(1) by simp
  have p3: "n = (pbs + 16) + 16 * length bs + r" using Cons.prems(3) by simp
  have p6: "length ?c = 16" by simp
  have p7: "(cbs + 16) + 16 * length bs \<le> length ?ct" "(cbs + 16) + 16 * length bs \<le> ctl"
    using Cons.prems(7,8) by simp_all
  from Cons.IH [OF p1 d p3 Cons.prems(4) chain p6 p7]
  obtain ct' where run: "cbc_enc_loop pt n Key KeyLength IV ctl (pbs + 16, cbs + 16, ?ct)
      = Some ((pbs + 16) + 16 * length bs, (cbs + 16) + 16 * length bs, ct')"
    and ct': "ct' = take (cbs + 16) ?ct @ concat (cbc_enc (AES_enc_block Key KeyLength) ?c bs)
        @ drop ((cbs + 16) + 16 * length bs) ?ct"
    and ch: "cbc_chain IV ct' ((cbs + 16) + 16 * length bs)
        = last (?c # cbc_enc (AES_enc_block Key KeyLength) ?c bs)"
    by blast
  have sum: "pbs + 16 * length (b # bs) = (pbs + 16) + 16 * length bs"
    "cbs + 16 * length (b # bs) = (cbs + 16) + 16 * length bs" by simp_all
  show ?case
    unfolding step run sum using ct' ch unfolding tk dr by (simp add: Let_def)
qed

lemma blocks_pad:
  obtains bs rest where "m = concat bs @ rest" "\<forall>b \<in> set bs. length b = 16"
    "length rest = length m mod 16" "length m = 16 * length bs + length rest"
    "blocks 16 (cbc_pad m) = bs @ [rest @ replicate (16 - length rest) (word_of_nat (16 - length rest))]"
proof -
  let ?q = "length m div 16" and ?r = "length m mod 16"
  let ?u = "take (16 * ?q) m" and ?t = "drop (16 * ?q) m"
  have r: "?r < 16" by simp
  have ul: "length ?u = ?q * 16" by simp
  have tl: "length ?t = ?r" by (simp add: minus_mult_div_eq_mod)
  have cat: "concat (blocks 16 ?u) = ?u" using ul by (intro concat_blocks) simp_all
  have m: "m = concat (blocks 16 ?u) @ ?t" unfolding cat by simp
  have all: "\<forall>b \<in> set (blocks 16 ?u). length b = 16" by (auto dest: length_blocks_elem)
  then have "length (concat (blocks 16 ?u)) = 16 * length (blocks 16 ?u)"
    by (rule length_concat_blocks)
  then have lm: "length m = 16 * length (blocks 16 ?u) + length ?t"
    using m by (metis length_append)
  let ?p = "?t @ replicate (16 - ?r) (word_of_nat (16 - ?r))"
  have "length ?p = 16" using tl r by simp
  then have "blocks 16 (?u @ ?p) = blocks 16 ?u @ [?p]"
    using blocks_append_dvd [of 16 ?u ?q ?p] ul by (simp add: blocks_one)
  moreover have "cbc_pad m = ?u @ ?p" unfolding cbc_pad_def by simp
  ultimately have pad: "blocks 16 (cbc_pad m)
      = blocks 16 ?u @ [?t @ replicate (16 - length ?t) (word_of_nat (16 - length ?t))]"
    by (simp only: tl)
  show ?thesis by (rule that [OF m all tl lm pad])
qed

lemma AES_CBC_Encrypt_blocks:
  assumes key: "aes_key_length KeyLength" "KeyLength \<le> length Key" and iv: "length IV = 16"
    and room: "n = 16 * (length m div 16) + 16" "n \<le> length out" "n \<le> ctl"
  shows "AES_CBC_Encrypt m (length m) Key KeyLength IV 16 out ctl
    = Some (concat (cbc_enc (AES_enc_block Key KeyLength) IV (blocks 16 (cbc_pad m))) @ drop n out, n)"
proof -
  let ?E = "AES_enc_block Key KeyLength"
  obtain bs rest where m: "m = concat bs @ rest" and bs: "\<forall>b \<in> set bs. length b = 16"
    and rl: "length rest = length m mod 16" and lm: "length m = 16 * length bs + length rest"
    and pad: "blocks 16 (cbc_pad m)
      = bs @ [rest @ replicate (16 - length rest) (word_of_nat (16 - length rest))]"
    by (rule blocks_pad)
  let ?pad = "replicate (16 - length rest) (word_of_nat (16 - length rest)) :: bytes"
  have r: "length rest < 16" unfolding rl by simp
  have n: "n = 16 * length bs + 16" using room(1) lm r by simp
  have chain0: "cbc_chain IV out 0 = IV" using iv by (simp add: cbc_chain_def)
  obtain ct' where loop: "cbc_enc_loop m (length m) Key KeyLength IV ctl (0, 0, out)
      = Some (16 * length bs, 16 * length bs, ct')"
    and ct': "ct' = concat (cbc_enc ?E IV bs) @ drop (16 * length bs) out"
    and ch: "cbc_chain IV ct' (16 * length bs) = last (IV # cbc_enc ?E IV bs)"
    using cbc_enc_loop_run [OF bs, of 0 m rest "length m" "length rest" IV out 0 IV ctl KeyLength Key]
      m lm r chain0 iv n room(2,3) key by auto
  let ?last = "last (IV # cbc_enc ?E IV bs)"
  have lastl: "length ?last = 16"
    using iv aes.cbc_enc_blocks [of _ Key KeyLength IV bs] by (auto simp: last_ConsR)
  have lct: "length (concat (cbc_enc ?E IV bs)) = 16 * length bs"
    using length_concat_blocks [of "cbc_enc ?E IV bs" 16] aes.cbc_enc_blocks
    by (simp add: aes.length_cbc_enc)
  have tail: "take (length m - 16 * length bs) (drop (16 * length bs) m) = rest"
  proof -
    have "length (concat bs) = 16 * length bs" using lm m by (metis add_right_cancel length_append)
    then show ?thesis using lm by (subst m) simp
  qed
  have ps: "16 - length m mod 16 = 16 - length rest" using rl by simp
  have blk: "length (xor_bytes (rest @ ?pad) ?last) = 16" using r lastl by simp
  have enc: "RT_AES_Encrypt (xor_bytes (rest @ ?pad) ?last) 16 Key KeyLength
      (drop (16 * length bs) ct') (ctl - 16 * length bs)
      = Some (?E (xor_bytes (rest @ ?pad) ?last) @ drop n out, 16)"
    using RT_AES_Encrypt_block [OF key blk, of "drop (16 * length bs) ct'" "ctl - 16 * length bs"]
      ct' lct room(2,3) n by (simp add: add.commute)
  have guard: "\<not> ctl < length m + (16 - length rest)" using room(3) n lm r by linarith
  have klen: "\<not> (KeyLength \<noteq> 16 \<and> KeyLength \<noteq> 24 \<and> KeyLength \<noteq> 32)"
    using key(1) by (auto simp: aes_key_length_def)
  have tk: "take (16 * length bs) ct' = concat (cbc_enc ?E IV bs)" using ct' lct by simp
  show ?thesis
    unfolding AES_CBC_Encrypt_def Let_def ps if_not_P [OF guard] if_not_P [OF klen] loop
      option.case prod.case tail ch enc tk pad cbc_enc_snoc n
    by simp
qed

lemma cbc_dec_loop_run:
  assumes "\<forall>c \<in> set cs. length c = 16" and "drop k ct = concat cs @ rest"
    and "n = k + 16 * length cs" and "(if k = 0 then take 16 IV else take 16 (drop (k - 16) ct)) = iv"
    and "length iv = 16" and "k + 16 * length cs \<le> length pt" and "k + 16 * length cs \<le> ptl"
    and "ptl < 4294967296"
    and key: "aes_key_length KeyLength" "KeyLength \<le> length Key"
  shows "cbc_dec_loop ct n Key KeyLength IV ptl (k, k, pt)
      = Some (n, n, take k pt @ concat (cbc_dec (AES_dec_block Key KeyLength) iv cs) @ drop n pt)"
  using assms(1-8)
proof (induction cs arbitrary: k pt iv)
  case Nil
  then show ?case by (simp add: cbc_dec_loop.simps)
next
  case (Cons c cs)
  let ?p = "AES_dec_block Key KeyLength c"
  let ?pt = "take k pt @ xor_bytes ?p iv @ drop (k + 16) pt"
  have c: "length c = 16" using Cons.prems(1) by simp
  have kl: "k + 16 \<le> length pt" "k + 16 \<le> ptl" "k \<le> ptl" using Cons.prems(6,7) by simp_all
  have sub: "sub32 ptl k = ptl - k" using kl(3) Cons.prems(8) by (rule sub32_le)
  have "take 16 (drop k ct) = c" using Cons.prems(2) c by simp
  moreover have "RT_AES_Decrypt (drop k ct) 16 Key KeyLength (drop k pt) (ptl - k)
      = RT_AES_Decrypt (take 16 (drop k ct)) 16 Key KeyLength (drop k pt) (ptl - k)"
    using Cons.prems(2) c
    by (simp add: RT_AES_Decrypt_def AES_dec_block_def AES_load_def upt4 nth_append)
  ultimately have dec: "RT_AES_Decrypt (drop k ct) 16 Key KeyLength (drop k pt) (ptl - k)
      = Some (?p @ drop (k + 16) pt, 16)"
    using RT_AES_Decrypt_block [OF key c, of "drop k pt" "ptl - k"] kl by (simp add: add.commute)
  have xor: "xor_block_at k iv (take k pt @ ?p @ drop (k + 16) pt) = Some ?pt"
    using kl Cons.prems(5) by (simp add: xor_block_at_def)
  have step: "cbc_dec_loop ct n Key KeyLength IV ptl (k, k, pt)
      = cbc_dec_loop ct n Key KeyLength IV ptl (k + 16, k + 16, ?pt)"
    using Cons.prems(3,4) by (subst cbc_dec_loop.simps) (simp add: Let_def sub dec xor)
  have "drop (k + 16) ct = drop 16 (drop k ct)" by (simp add: add.commute)
  then have d: "drop (k + 16) ct = concat cs @ rest" using Cons.prems(2) c by simp
  have p1: "\<forall>c \<in> set cs. length c = 16" using Cons.prems(1) by simp
  have p3: "n = (k + 16) + 16 * length cs" using Cons.prems(3) by simp
  have p4: "(if k + 16 = 0 then take 16 IV else take 16 (drop (k + 16 - 16) ct)) = c"
    using Cons.prems(2) c by simp
  have p6: "(k + 16) + 16 * length cs \<le> length ?pt" "(k + 16) + 16 * length cs \<le> ptl"
    using Cons.prems(5,6,7) by simp_all
  have tk: "take (k + 16) ?pt = take k pt @ xor_bytes ?p iv" using kl Cons.prems(5) by simp
  have dr: "drop n ?pt = drop n pt" using kl Cons.prems(5) unfolding p3 by (simp add: add.commute)
  show ?case
    unfolding step Cons.IH [OF p1 d p3 p4 c p6 Cons.prems(8)] tk dr by simp
qed

lemma length_cbc_pad: "length (cbc_pad m) = 16 * (length m div 16) + 16"
proof -
  have "length (cbc_pad m) = length m + (16 - length m mod 16)" by (simp add: cbc_pad_def)
  moreover have "16 * (length m div 16) + length m mod 16 = length m" by (rule mult_div_mod_eq)
  moreover have "length m mod 16 < 16" by simp
  ultimately show ?thesis by linarith
qed

lemma cbc_pad_last:
  assumes "n = length (cbc_pad m)" and "n < 4294967296"
  shows "sub32 n (unat (cbc_pad m ! (n - 1))) = length m"
proof -
  let ?r = "16 - length m mod 16"
  have r: "0 < ?r" "?r \<le> 16" by simp_all
  have n: "n = length m + ?r" using assms(1) by (simp add: cbc_pad_def)
  then have "n - 1 = length m + (?r - 1)" using r(1) by linarith
  moreover have "cbc_pad m ! (length m + (?r - 1)) = word_of_nat ?r"
    using r(1) unfolding cbc_pad_def nth_append_length_plus by (intro nth_replicate) linarith
  moreover have "unat (word_of_nat ?r :: u8) = ?r" using r(2) by (intro unat_small8) linarith
  moreover have "sub32 n ?r = length m"
    using sub32_le [of ?r n] assms(2) n by simp
  ultimately show ?thesis by simp
qed

lemma AES_CBC_Decrypt_blocks:
  assumes key: "aes_key_length KeyLength" "KeyLength \<le> length Key" and iv: "length IV = 16"
    and cs: "cs = cbc_enc (AES_enc_block Key KeyLength) IV (blocks 16 (cbc_pad m))"
    and n: "n = length (cbc_pad m)" "n < 4294967296" and room: "length out = n"
  shows "AES_CBC_Decrypt (concat cs) n Key KeyLength IV 16 out n = Some (cbc_pad m, length m)"
proof -
  have n16: "n = 16 * (length m div 16) + 16" using n(1) by (simp add: length_cbc_pad)
  have all: "\<forall>b \<in> set (blocks 16 (cbc_pad m)). length b = 16" by (auto dest: length_blocks_elem)
  have csl: "\<forall>c \<in> set cs. length c = 16" using aes.cbc_enc_blocks cs by blast
  have pad: "concat (blocks 16 (cbc_pad m)) = cbc_pad m"
    by (rule concat_blocks [of _ _ "length m div 16 + 1"]) (simp_all add: length_cbc_pad)
  then have "16 * length (blocks 16 (cbc_pad m)) = n"
    using length_concat_blocks [OF all] n(1) by simp
  then have ncs: "n = 0 + 16 * length cs" by (simp add: cs aes.length_cbc_enc)
  have d: "drop 0 (concat cs) = concat cs @ []" by simp
  have i: "(if (0::nat) = 0 then take 16 IV else take 16 (drop (0 - 16) (concat cs))) = IV"
    using iv by simp
  have le: "0 + 16 * length cs \<le> length out" "0 + 16 * length cs \<le> n" using ncs room by simp_all
  have "cbc_dec_loop (concat cs) n Key KeyLength IV n (0, 0, out)
      = Some (n, n, concat (cbc_dec (AES_dec_block Key KeyLength) IV cs))"
    using cbc_dec_loop_run [OF csl d ncs i iv le n(2) key] room by simp
  also have "cbc_dec (AES_dec_block Key KeyLength) IV cs = blocks 16 (cbc_pad m)"
    unfolding cs by (rule aes.cbc_dec_enc [OF all iv])
  finally have loop: "cbc_dec_loop (concat cs) n Key KeyLength IV n (0, 0, out)
      = Some (n, n, cbc_pad m)" unfolding pad .
  have "n mod 4 = 0"
  proof -
    have "n = 4 * (4 * (length m div 16) + 4)" using n16 by simp
    then show ?thesis by (metis mod_mult_self1_is_0)
  qed
  moreover have "n \<noteq> 0" using n16 by simp
  moreover have "\<not> (KeyLength \<noteq> 16 \<and> KeyLength \<noteq> 24 \<and> KeyLength \<noteq> 32)"
    using key(1) by (auto simp: aes_key_length_def)
  ultimately show ?thesis
    using cbc_pad_last [OF n]
    by (auto simp: AES_CBC_Decrypt_def loop Let_def n(1) [symmetric])
qed

section \<open>Properties\<close>

text \<open>\<open>AES_CBC_Encrypt\<close> writes the cipher block chaining of NIST SP 800-38A over the padded text
  and reports its length, for every text length and the three key lengths.\<close>

theorem AES_CBC_Encrypt_is_CBC:
  assumes "aes_key_length KeyLength" and "KeyLength \<le> length Key" and "length IV = 16"
    and "length (cbc_pad m) \<le> length out" and "length (cbc_pad m) \<le> CipherTextLength"
  shows "AES_CBC_Encrypt m (length m) Key KeyLength IV 16 out CipherTextLength
    = Some (concat (cbc_enc (AES_enc_block Key KeyLength) IV (blocks 16 (cbc_pad m)))
        @ drop (length (cbc_pad m)) out, length (cbc_pad m))"
  using assms by (intro AES_CBC_Encrypt_blocks) (simp_all add: length_cbc_pad)

theorem AES_CBC_Encrypt_is_CBC_witness:
  "AES_CBC_Encrypt [1, 2, 3] (length [1, 2, 3 :: u8]) (replicate 16 7) 16 (replicate 16 9) 16 (replicate 32 0) 32
    = Some (concat (cbc_enc (AES_enc_block (replicate 16 7) 16) (replicate 16 9) (blocks 16 (cbc_pad [1, 2, 3])))
        @ drop (length (cbc_pad [1, 2, 3])) (replicate 32 0), length (cbc_pad [1, 2, 3]))"
  by (rule AES_CBC_Encrypt_is_CBC) (simp_all add: aes_key_length_def length_cbc_pad)

text \<open>\<open>AES_CBC_Decrypt\<close> of what \<open>AES_CBC_Encrypt\<close> wrote gives the text back in front of its padding
  and reports the length of the text.\<close>

theorem AES_CBC_round_trip:
  assumes "aes_key_length KeyLength" and "KeyLength \<le> length Key" and "length IV = 16"
    and "n = length m + (16 - length m mod 16)" and "n < 4294967296"
  shows "\<exists>c p. AES_CBC_Encrypt m (length m) Key KeyLength IV 16 (replicate n 0) n = Some (c, n)
    \<and> AES_CBC_Decrypt c n Key KeyLength IV 16 (replicate n 0) n = Some (p, length m)
    \<and> take (length m) p = m"
proof -
  have n: "n = length (cbc_pad m)" using assms(4) by (simp add: cbc_pad_def)
  have le: "n \<le> length (replicate n (0 :: u8))" by simp
  have n16: "n = 16 * (length m div 16) + 16" using n by (simp add: length_cbc_pad)
  let ?c = "concat (cbc_enc (AES_enc_block Key KeyLength) IV (blocks 16 (cbc_pad m)))"
  have "AES_CBC_Encrypt m (length m) Key KeyLength IV 16 (replicate n 0) n = Some (?c, n)"
    using AES_CBC_Encrypt_blocks [OF assms(1-3) n16 le order_refl] by simp
  moreover have "AES_CBC_Decrypt ?c n Key KeyLength IV 16 (replicate n 0) n
      = Some (cbc_pad m, length m)"
    by (rule AES_CBC_Decrypt_blocks [OF assms(1-3) refl n assms(5)]) simp
  moreover have "take (length m) (cbc_pad m) = m" by (simp add: cbc_pad_def)
  ultimately show ?thesis by blast
qed

theorem AES_CBC_round_trip_witness:
  "\<exists>c p. AES_CBC_Encrypt [1, 2, 3] (length [1, 2, 3 :: u8]) (replicate 16 7) 16 (replicate 16 9) 16
        (replicate 16 0) 16 = Some (c, 16)
    \<and> AES_CBC_Decrypt c 16 (replicate 16 7) 16 (replicate 16 9) 16 (replicate 16 0) 16
        = Some (p, length [1, 2, 3 :: u8])
    \<and> take (length [1, 2, 3 :: u8]) p = [1, 2, 3]"
  by (rule AES_CBC_round_trip) (simp_all add: aes_key_length_def)

text \<open>the length check of \<open>AES_CBC_Decrypt\<close> divides by 4 only, so a text shorter than one block
  whose length is a multiple of 4, the empty text among them, passes it; no block is
  decrypted, and the padding size is read one byte before the output buffer.\<close>

theorem AES_CBC_Decrypt_short:
  assumes "KeyLength = 16 \<or> KeyLength = 24 \<or> KeyLength = 32" and "n < 16" and "n mod 4 = 0"
  shows "AES_CBC_Decrypt ct n Key KeyLength IV 16 out PlainTextLength = None"
  using assms
  by (auto simp: AES_CBC_Decrypt_def cbc_dec_loop.simps [of ct n])

theorem AES_CBC_Decrypt_short_witness:
  "AES_CBC_Decrypt (replicate 12 0) 12 (replicate 16 7) 16 (replicate 16 9) 16 (replicate 64 0) 64 = None"
  using AES_CBC_Decrypt_short [of 16 12 "replicate 12 0" "replicate 16 7"] by simp

end
