(* ===== verification/Aes_Keywrap.thy ===== *)
theory Aes_Keywrap
  imports Aes_Cbc
begin

text \<open>
  \<open>AES_Key_Wrap\<close> and \<open>AES_Key_Unwrap\<close> of \<open>rt5572/common/crypt_aes.c\<close>, which carry keys in EAPOL
  frames. The reference is the index-based description of RFC 3394. Allocations succeed.
\<close>

section \<open>The operations\<close>

definition Default_IV :: bytes where
  "Default_IV = [0xa6, 0xa6, 0xa6, 0xa6, 0xa6, 0xa6, 0xa6, 0xa6]"

text \<open>The turns of the two nested loops, as pairs of \<open>Index_j\<close> and \<open>Index_i\<close> in order.\<close>

definition wrap_turns :: "nat \<Rightarrow> (nat \<times> nat) list" where
  "wrap_turns Number_Of_Block = concat (map (\<lambda>j. map (\<lambda>i. (j, i)) [0..<Number_Of_Block]) [0..<6])"

text \<open>One turn: the state is \<open>IV\<close> and the buffer \<open>pResult\<close>.\<close>

fun wrap_turn ::
  "bytes \<Rightarrow> nat \<Rightarrow> nat \<Rightarrow> bytes \<times> bytes \<Rightarrow> nat \<times> nat \<Rightarrow> (bytes \<times> bytes) option" where
  "wrap_turn Key KeyLength Number_Of_Block (IV, pResult) (Index_j, Index_i) =
     (let Block_Input = take 8 IV @ take 8 (drop (Index_i * 8) pResult) in
      case RT_AES_Encrypt Block_Input 16 Key KeyLength (replicate 16 0) 16 of
        None \<Rightarrow> None
      | Some (Block_B, _) \<Rightarrow>
          let IV' = (take 8 Block_B)[7 := Block_B ! 7 XOR word_of_nat (Number_Of_Block * Index_j + Index_i + 1)]
          in Some (IV', take (Index_i * 8) pResult @ drop 8 Block_B @ drop (Index_i * 8 + 8) pResult))"

fun unwrap_turn ::
  "bytes \<Rightarrow> nat \<Rightarrow> nat \<Rightarrow> bytes \<times> bytes \<Rightarrow> nat \<times> nat \<Rightarrow> (bytes \<times> bytes) option" where
  "unwrap_turn Key KeyLength Number_Of_Block (IV, pResult) (Index_j, Index_i) =
     (let IV' = IV[7 := IV ! 7 XOR word_of_nat (Number_Of_Block * Index_j + Index_i + 1)];
          Block_Input = take 8 IV' @ take 8 (drop (Index_i * 8) pResult) in
      case RT_AES_Decrypt Block_Input 16 Key KeyLength (replicate 16 0) 16 of
        None \<Rightarrow> None
      | Some (Block_B, _) \<Rightarrow>
          Some (take 8 Block_B, take (Index_i * 8) pResult @ drop 8 Block_B @ drop (Index_i * 8 + 8) pResult))"

text \<open>
  The result is the returned code, the contents of the output buffer and the reported length;
  where the code returns before it sets the length, the parameter \<open>len\<close> stands for its old value.
\<close>

definition AES_Key_Wrap ::
  "bytes \<Rightarrow> nat \<Rightarrow> bytes \<Rightarrow> nat \<Rightarrow> bytes \<Rightarrow> nat \<Rightarrow> (int \<times> bytes \<times> nat) option" where
  "AES_Key_Wrap PlainText PlainTextLength Key KeyLength CipherText len =
     (if KeyLength \<noteq> 16 \<and> KeyLength \<noteq> 24 \<and> KeyLength \<noteq> 32 then Some (-1, CipherText, len)
      else let Number_Of_Block = PlainTextLength div 8 in
        (case move_mem 0 PlainTextLength PlainText (replicate PlainTextLength 0) of
           None \<Rightarrow> None
         | Some pResult \<Rightarrow>
             (case feed (wrap_turn Key KeyLength Number_Of_Block) (Default_IV, pResult)
                     (wrap_turns Number_Of_Block) of
                None \<Rightarrow> None
              | Some (IV, pResult') \<Rightarrow>
                  (case move_mem 0 8 IV CipherText of
                     None \<Rightarrow> None
                   | Some ct \<Rightarrow>
                       map_option (\<lambda>ct'. (0, ct', PlainTextLength + 8))
                         (move_mem 8 PlainTextLength pResult' ct)))))"

definition AES_Key_Unwrap ::
  "bytes \<Rightarrow> nat \<Rightarrow> bytes \<Rightarrow> nat \<Rightarrow> bytes \<Rightarrow> nat \<Rightarrow> (int \<times> bytes \<times> nat) option" where
  "AES_Key_Unwrap CipherText CipherTextLength Key KeyLength PlainText len =
     (let PlainLength = sub32 CipherTextLength 8 in
      if KeyLength \<noteq> 16 \<and> KeyLength \<noteq> 24 \<and> KeyLength \<noteq> 32 then Some (-1, PlainText, len)
      else let Number_Of_Block = PlainLength div 8 in
        (case move_mem 0 8 CipherText (replicate 8 0) of
           None \<Rightarrow> None
         | Some IV \<Rightarrow>
             (case move_mem 0 PlainLength (drop 8 CipherText) (replicate PlainLength 0) of
                None \<Rightarrow> None
              | Some pResult \<Rightarrow>
                  (case feed (unwrap_turn Key KeyLength Number_Of_Block) (IV, pResult)
                          (rev (wrap_turns Number_Of_Block)) of
                     None \<Rightarrow> None
                   | Some (IV', pResult') \<Rightarrow>
                       map_option (\<lambda>pt. (0, pt, PlainLength))
                         (move_mem 0 PlainLength pResult' PlainText)))))"

section \<open>Unwrapping inverts wrapping\<close>

text \<open>What the loops keep: the length of \<open>IV\<close> and the length of \<open>pResult\<close>.\<close>

definition wrap_inv :: "nat \<Rightarrow> bytes \<times> bytes \<Rightarrow> bool" where
  "wrap_inv m s \<longleftrightarrow> length (fst s) = 8 \<and> length (snd s) = m"

lemma wrap_turns_less: "(j, i) \<in> set (wrap_turns n) \<Longrightarrow> i < n \<and> j < 6"
  by (auto simp: wrap_turns_def)

lemma block8: "i < m div 8 \<Longrightarrow> i * 8 + 8 \<le> m" for m :: nat
  by (metis Suc_leI add.commute div_times_less_eq_dividend le_trans mult_Suc mult_le_mono1)

lemma take_drop_nth_update:
  "length b = 16 \<Longrightarrow> (take 8 b)[7 := v] = take 7 b @ [v]"
  by (simp add: list_eq_iff_nth_eq nth_list_update nth_append)

lemma wrap_turn_Some:
  assumes key: "aes_key_length KeyLength" "KeyLength \<le> length Key"
    and inv: "length IV = 8" "i * 8 + 8 \<le> length R"
  shows "wrap_turn Key KeyLength n (IV, R) (j, i) =
    (let B = AES_enc_block Key KeyLength (IV @ take 8 (drop (i * 8) R))
     in Some ((take 8 B)[7 := B ! 7 XOR word_of_nat (n * j + i + 1)],
        take (i * 8) R @ drop 8 B @ drop (i * 8 + 8) R))"
  using RT_AES_Encrypt_block [OF key, of "IV @ take 8 (drop (i * 8) R)" "replicate 16 0" 16] inv
  by (simp add: Let_def)

lemma unwrap_turn_Some:
  assumes key: "aes_key_length KeyLength" "KeyLength \<le> length Key"
    and inv: "length IV = 8" "i * 8 + 8 \<le> length R"
  shows "unwrap_turn Key KeyLength n (IV, R) (j, i) =
    (let B = AES_dec_block Key KeyLength
               (IV[7 := IV ! 7 XOR word_of_nat (n * j + i + 1)] @ take 8 (drop (i * 8) R))
     in Some (take 8 B, take (i * 8) R @ drop 8 B @ drop (i * 8 + 8) R))"
  using RT_AES_Decrypt_block [OF key,
      of "IV[7 := IV ! 7 XOR word_of_nat (n * j + i + 1)] @ take 8 (drop (i * 8) R)" "replicate 16 0" 16] inv
  by (simp add: Let_def)

lemma unwrap_wrap_turn:
  assumes key: "aes_key_length KeyLength" "KeyLength \<le> length Key"
    and inv: "wrap_inv m s" and x: "x \<in> set (wrap_turns (m div 8))"
  shows "\<exists>s'. wrap_turn Key KeyLength n s x = Some s' \<and> wrap_inv m s'
    \<and> unwrap_turn Key KeyLength n s' x = Some s"
proof -
  obtain IV R j i where s: "s = (IV, R)" and ji: "x = (j, i)" by (cases s; cases x)
  have len: "length IV = 8" "length R = m" using inv by (simp_all add: s wrap_inv_def)
  have i: "i * 8 + 8 \<le> m" using x ji wrap_turns_less block8 by blast
  let ?blk = "IV @ take 8 (drop (i * 8) R)"
  let ?B = "AES_enc_block Key KeyLength ?blk" and ?t = "word_of_nat (n * j + i + 1) :: u8"
  let ?IV = "(take 8 ?B)[7 := ?B ! 7 XOR ?t]"
  let ?R = "take (i * 8) R @ drop 8 ?B @ drop (i * 8 + 8) R"
  have lR: "length ?R = m" using i len by simp
  have blk: "length ?blk = 16" using i len by simp
  have "?IV[7 := ?IV ! 7 XOR ?t] = take 8 ?B"
    by (simp add: list_eq_iff_nth_eq nth_list_update)
  moreover have "take 8 (drop (i * 8) ?R) = drop 8 ?B" using i len by simp
  moreover have "take (i * 8) ?R = take (i * 8) R" "drop (i * 8 + 8) ?R = drop (i * 8 + 8) R"
    using i len by simp_all
  moreover have "take (i * 8) R @ take 8 (drop (i * 8) R) @ drop (i * 8 + 8) R = R"
    by (metis append_take_drop_id drop_drop add.commute)
  ultimately have "unwrap_turn Key KeyLength n (?IV, ?R) (j, i) = Some (IV, R)"
    using unwrap_turn_Some [OF key, of ?IV i ?R n j] i lR len blk by (simp add: Let_def AES_dec_enc_block)
  moreover have "wrap_turn Key KeyLength n (IV, R) (j, i) = Some (?IV, ?R)"
    using wrap_turn_Some [OF key, of IV i R n j] i len by (simp add: Let_def)
  moreover have "wrap_inv m (?IV, ?R)" using lR by (simp add: wrap_inv_def)
  ultimately show ?thesis unfolding s ji by blast
qed

text \<open>The whole of wrapping, and of unwrapping, on buffers of the right size.\<close>

lemma AES_Key_Wrap_run:
  assumes key: "aes_key_length KeyLength" "KeyLength \<le> length Key"
    and out: "length out = length pt + 8"
  obtains IV R where "length IV = 8" "length R = length pt"
    "feed (wrap_turn Key KeyLength (length pt div 8)) (Default_IV, pt) (wrap_turns (length pt div 8))
       = Some (IV, R)"
    "feed (unwrap_turn Key KeyLength (length pt div 8)) (IV, R) (rev (wrap_turns (length pt div 8)))
       = Some (Default_IV, pt)"
    "AES_Key_Wrap pt (length pt) Key KeyLength out len = Some (0, IV @ R, length pt + 8)"
proof -
  let ?m = "length pt" and ?n = "length pt div 8"
  have "wrap_inv ?m (Default_IV, pt)" by (simp add: wrap_inv_def Default_IV_def)
  then have "\<exists>s. feed (wrap_turn Key KeyLength ?n) (Default_IV, pt) (wrap_turns ?n) = Some s
      \<and> wrap_inv ?m s \<and> feed (unwrap_turn Key KeyLength ?n) s (rev (wrap_turns ?n)) = Some (Default_IV, pt)"
    by (intro feed_inverse [where ok = "wrap_inv ?m"] unwrap_wrap_turn [OF key])
  then obtain s where s: "feed (wrap_turn Key KeyLength ?n) (Default_IV, pt) (wrap_turns ?n) = Some s"
    "wrap_inv ?m s" "feed (unwrap_turn Key KeyLength ?n) s (rev (wrap_turns ?n)) = Some (Default_IV, pt)"
    by blast
  obtain IV R where ir: "s = (IV, R)" by (cases s)
  have len: "length IV = 8" "length R = ?m" using s(2) by (simp_all add: ir wrap_inv_def)
  have mv: "move_mem 0 ?m pt (replicate ?m 0) = Some pt" by (simp add: move_mem_def)
  have "\<not> (KeyLength \<noteq> 16 \<and> KeyLength \<noteq> 24 \<and> KeyLength \<noteq> 32)"
    using key(1) by (auto simp: aes_key_length_def)
  then have "AES_Key_Wrap pt ?m Key KeyLength out len = Some (0, IV @ R, ?m + 8)"
    using s(1) len out by (auto simp: AES_Key_Wrap_def mv ir Let_def move_mem_def)
  with len s(1,3) show ?thesis unfolding ir by (rule that)
qed

lemma AES_Key_Unwrap_run:
  assumes "aes_key_length KeyLength" and "m + 8 < 4294967296" and "length IV = 8" "length R = m"
    and "feed (unwrap_turn Key KeyLength (m div 8)) (IV, R) (rev (wrap_turns (m div 8))) = Some (IV', R')"
    and "length R' = m" "length out = m"
  shows "AES_Key_Unwrap (IV @ R) (m + 8) Key KeyLength out len = Some (0, R', m)"
proof -
  have "sub32 (m + 8) 8 = m" using sub32_le [of 8 "m + 8"] assms(2) by simp
  moreover have "\<not> (KeyLength \<noteq> 16 \<and> KeyLength \<noteq> 24 \<and> KeyLength \<noteq> 32)"
    using assms(1) by (auto simp: aes_key_length_def)
  ultimately show ?thesis
    using assms(3-) by (auto simp: AES_Key_Unwrap_def Let_def move_mem_def)
qed

section \<open>RFC 3394\<close>

text \<open>
  The index-based algorithm: the register \<open>A\<close>, the blocks \<open>R\<close> of 8 bytes, and the counter
  \<open>t = n * j + i\<close>, with \<open>i\<close> from 1, combined with \<open>A\<close> as a 64-bit number.
\<close>

fun rfc3394_turn :: "(bytes \<Rightarrow> bytes) \<Rightarrow> nat \<Rightarrow> bytes \<times> bytes list \<Rightarrow> nat \<times> nat \<Rightarrow> bytes \<times> bytes list" where
  "rfc3394_turn E n (A, R) (j, i) =
     (let B = E (A @ R ! i); t = n * j + (i + 1)
      in (xor_bytes (take 8 B) (put_be64 (word_of_nat t)), R[i := drop 8 B]))"

definition rfc3394_wrap :: "(bytes \<Rightarrow> bytes) \<Rightarrow> bytes \<Rightarrow> bytes" where
  "rfc3394_wrap E pt =
     (let R = blocks 8 pt;
          (A, R') = foldl (rfc3394_turn E (length R)) (replicate 8 0xa6, R) (wrap_turns (length R))
      in A @ concat R')"

lemma put_be64_small:
  assumes "t < 256"
  shows "put_be64 (word_of_nat t) = replicate 7 0 @ [word_of_nat t]"
proof -
  have "put_be64 (ucast b) = [0, 0, 0, 0, 0, 0, 0, b]" for b :: u8
    by (simp only: put_be64_def store64_def upt_numeral list.map rev.simps append.simps list.inject
        simp_thms)
      (intro conjI word_eq_upt refl; simp add: bit_simps upt_numeral u8_bit_beyond)
  moreover have "replicate 7 0 @ [b] = [0, 0, 0, 0, 0, 0, 0, b]" for b :: u8
    by (simp add: numeral_eq_Suc)
  moreover have "ucast (word_of_nat t :: u8) = (word_of_nat t :: u64)"
    using assms by (simp add: unsigned_of_nat take_bit_nat_eq_self)
  ultimately show ?thesis by metis
qed

lemma xor_bytes_zeros: "length a = n \<Longrightarrow> xor_bytes a (replicate n 0) = a"
  by (induction a arbitrary: n) auto

lemma xor_last:
  assumes "length b = 16" and "t < 256"
  shows "(take 8 b)[7 := b ! 7 XOR word_of_nat t] = xor_bytes (take 8 b) (put_be64 (word_of_nat t))"
proof -
  have "take 8 b = take 7 b @ [b ! 7]"
    using take_Suc_conv_app_nth [of 7 b] assms(1) by simp
  then show ?thesis
    using assms by (simp add: put_be64_small xor_bytes_append xor_bytes_zeros list_update_append)
qed

text \<open>The state of the code against the state of the standard.\<close>

definition wrap_rel :: "nat \<Rightarrow> bytes \<times> bytes \<Rightarrow> bytes \<times> bytes list \<Rightarrow> bool" where
  "wrap_rel n s q \<longleftrightarrow> s = (fst q, concat (snd q)) \<and> length (fst q) = 8 \<and> length (snd q) = n
     \<and> (\<forall>b \<in> set (snd q). length b = 8)"

lemma wrap_turn_rfc3394:
  assumes key: "aes_key_length KeyLength" "KeyLength \<le> length Key"
    and rel: "wrap_rel n s q" and x: "x \<in> set (wrap_turns n)" and n: "6 * n < 256"
  shows "\<exists>s'. wrap_turn Key KeyLength n s x = Some s'
    \<and> wrap_rel n s' (rfc3394_turn (AES_enc_block Key KeyLength) n q x)"
proof -
  obtain A R j i where q: "q = (A, R)" and ji: "x = (j, i)" by (cases q; cases x)
  have ij: "i < n" "j < 6" using x ji wrap_turns_less by blast+
  have s: "s = (A, concat R)" and A: "length A = 8" and R: "length R = n" "\<forall>b \<in> set R. length b = 8"
    using rel by (simp_all add: q wrap_rel_def)
  have iR: "i < length R" using ij R by simp
  note at = concat_block_at [OF R(2) iR]
  have Ri: "length (R ! i) = 8" using R(2) iR by simp
  have lenR: "length (concat R) = 8 * n" using length_concat_blocks [OF R(2)] R(1) by simp
  have room: "i * 8 + 8 \<le> length (concat R)" using ij lenR by simp
  let ?B = "AES_enc_block Key KeyLength (A @ R ! i)"
  have "n * j + (i + 1) \<le> n * 5 + n" using ij by (intro add_mono mult_le_mono) simp_all
  then have t: "n * j + (i + 1) < 256" using n by simp
  have "(take 8 ?B)[7 := ?B ! 7 XOR word_of_nat (n * j + i + 1)]
      = xor_bytes (take 8 ?B) (put_be64 (word_of_nat (n * j + (i + 1))))"
    using xor_last [OF _ t, of ?B] by (simp only: length_AES_block add.assoc refl simp_thms)
  then have "wrap_turn Key KeyLength n s x
      = Some (xor_bytes (take 8 ?B) (put_be64 (word_of_nat (n * j + (i + 1)))), concat (R[i := drop 8 ?B]))"
    unfolding s ji wrap_turn_Some [OF key A room] Let_def at by simp
  moreover have "\<forall>b \<in> set (R[i := drop 8 ?B]). length b = 8"
    using R(2) set_update_subset_insert [of R i "drop 8 ?B"] by auto
  ultimately show ?thesis
    using R(1) unfolding q ji by (simp add: wrap_rel_def Let_def)
qed

lemma wrap_feed_rfc3394:
  assumes key: "aes_key_length KeyLength" "KeyLength \<le> length Key"
    and rel: "wrap_rel n s q" and n: "6 * n < 256" and xs: "set xs \<subseteq> set (wrap_turns n)"
  shows "\<exists>s'. feed (wrap_turn Key KeyLength n) s xs = Some s'
    \<and> wrap_rel n s' (foldl (rfc3394_turn (AES_enc_block Key KeyLength) n) q xs)"
  using rel xs
proof (induction xs arbitrary: s q)
  case Nil
  then show ?case by simp
next
  case (Cons x xs)
  then obtain s1 where "wrap_turn Key KeyLength n s x = Some s1"
    and "wrap_rel n s1 (rfc3394_turn (AES_enc_block Key KeyLength) n q x)"
    using wrap_turn_rfc3394 [OF key _ _ n, of s q x] by auto
  with Cons.IH Cons.prems(2) show ?case by simp
qed

section \<open>Properties\<close>

text \<open>for texts of whole blocks, as long as the counter stays below 256 (42 blocks of 8 bytes),
  \<open>AES_Key_Wrap\<close> returns 0 and the wrapped key of RFC 3394, 8 bytes longer than the text.\<close>

theorem AES_Key_Wrap_is_RFC3394:
  assumes "aes_key_length KeyLength" and "KeyLength \<le> length Key"
    and "length pt = 8 * n" and "6 * n < 256" and "length out = length pt + 8"
  shows "AES_Key_Wrap pt (length pt) Key KeyLength out len
    = Some (0, rfc3394_wrap (AES_enc_block Key KeyLength) pt, length pt + 8)"
proof -
  have n: "length pt div 8 = n" using assms(3) by simp
  have cat: "concat (blocks 8 pt) = pt" using assms(3) by (intro concat_blocks [of _ _ n]) simp_all
  have all: "\<forall>b \<in> set (blocks 8 pt). length b = 8" by (auto dest: length_blocks_elem)
  have bl: "length (blocks 8 pt) = n"
    using length_concat_blocks [OF all] cat assms(3) by simp
  have "wrap_rel n (Default_IV, pt) (replicate 8 0xa6, blocks 8 pt)"
    using cat all bl by (simp add: wrap_rel_def Default_IV_def numeral_eq_Suc)
  from wrap_feed_rfc3394 [OF assms(1,2) this assms(4) order_refl] obtain s' where
    run: "feed (wrap_turn Key KeyLength n) (Default_IV, pt) (wrap_turns n) = Some s'"
    and rel: "wrap_rel n s' (foldl (rfc3394_turn (AES_enc_block Key KeyLength) n)
        (replicate 8 0xa6, blocks 8 pt) (wrap_turns n))"
    by blast
  from AES_Key_Wrap_run [OF assms(1,2,5), of len] obtain IV R where
    "feed (wrap_turn Key KeyLength n) (Default_IV, pt) (wrap_turns n) = Some (IV, R)"
    and wrap: "AES_Key_Wrap pt (length pt) Key KeyLength out len = Some (0, IV @ R, length pt + 8)"
    unfolding n by blast
  with run have "s' = (IV, R)" by simp
  with rel have "rfc3394_wrap (AES_enc_block Key KeyLength) pt = IV @ R"
    unfolding rfc3394_wrap_def Let_def bl by (auto simp: wrap_rel_def split: prod.split)
  with wrap show ?thesis by simp
qed

theorem AES_Key_Wrap_is_RFC3394_witness:
  "AES_Key_Wrap (replicate 16 5) (length (replicate 16 (5 :: u8))) (replicate 16 7) 16 (replicate 24 0) 0
    = Some (0, rfc3394_wrap (AES_enc_block (replicate 16 7) 16) (replicate 16 5),
        length (replicate 16 (5 :: u8)) + 8)"
  by (rule AES_Key_Wrap_is_RFC3394 [of _ _ _ 2]) (simp_all add: aes_key_length_def)

text \<open>C31: \<open>AES_Key_Unwrap\<close> with the same key restores what \<open>AES_Key_Wrap\<close> wrapped, for texts of
  any length below \<open>2 ^ 32 - 8\<close>.\<close>

theorem AES_Key_Wrap_round_trip:
  assumes "aes_key_length KeyLength" and "KeyLength \<le> length Key"
    and "length pt + 8 < 4294967296"
  shows "\<exists>c. AES_Key_Wrap pt (length pt) Key KeyLength (replicate (length pt + 8) 0) 0
        = Some (0, c, length pt + 8)
    \<and> AES_Key_Unwrap c (length pt + 8) Key KeyLength (replicate (length pt) 0) 0 = Some (0, pt, length pt)"
proof -
  have "length (replicate (length pt + 8) (0 :: u8)) = length pt + 8" by simp
  from AES_Key_Wrap_run [OF assms(1,2) this, of 0] obtain IV R where "length IV = 8" "length R = length pt"
    and "feed (unwrap_turn Key KeyLength (length pt div 8)) (IV, R) (rev (wrap_turns (length pt div 8)))
       = Some (Default_IV, pt)"
    and wrap: "AES_Key_Wrap pt (length pt) Key KeyLength (replicate (length pt + 8) 0) 0
       = Some (0, IV @ R, length pt + 8)"
    by blast
  then have "AES_Key_Unwrap (IV @ R) (length pt + 8) Key KeyLength (replicate (length pt) 0) 0
      = Some (0, pt, length pt)"
    using assms by (intro AES_Key_Unwrap_run [of _ "length pt" _ _ _ Default_IV]) simp_all
  with wrap show ?thesis by blast
qed

theorem AES_Key_Wrap_round_trip_witness:
  "\<exists>c. AES_Key_Wrap [1, 2, 3] (length [1, 2, 3 :: u8]) (replicate 16 7) 16
          (replicate (length [1, 2, 3 :: u8] + 8) 0) 0 = Some (0, c, length [1, 2, 3 :: u8] + 8)
    \<and> AES_Key_Unwrap c (length [1, 2, 3 :: u8] + 8) (replicate 16 7) 16
          (replicate (length [1, 2, 3 :: u8]) 0) 0 = Some (0, [1, 2, 3], length [1, 2, 3 :: u8])"
  by (rule AES_Key_Wrap_round_trip) (simp_all add: aes_key_length_def)

text \<open>C32: \<open>AES_Key_Unwrap\<close> never looks at the value the register ends with: it returns 0, success,
  for every input of at least 8 bytes, whoever made it.\<close>

theorem AES_Key_Unwrap_accepts_all:
  assumes "aes_key_length KeyLength" and "KeyLength \<le> length Key"
    and "length ct = m + 8" and "m + 8 < 4294967296" and "length out = m"
  shows "\<exists>pt. AES_Key_Unwrap ct (m + 8) Key KeyLength out len = Some (0, pt, m)"
proof -
  let ?n = "m div 8"
  have inv0: "wrap_inv m (take 8 ct, drop 8 ct)" using assms(3) by (simp add: wrap_inv_def)
  have turn: "\<exists>s'. unwrap_turn Key KeyLength ?n s x = Some s' \<and> wrap_inv m s'"
    if x: "x \<in> set (rev (wrap_turns ?n))" and s: "wrap_inv m s" for x s
  proof -
    obtain IV R j i where s': "s = (IV, R)" and ji: "x = (j, i)" by (cases s; cases x)
    have len: "length IV = 8" "length R = m" using s by (simp_all add: s' wrap_inv_def)
    have "(j, i) \<in> set (wrap_turns ?n)" using x ji by simp
    then have i: "i * 8 + 8 \<le> m" using wrap_turns_less block8 by blast
    then have "i * 8 + 8 \<le> length R" using len by simp
    then show ?thesis
      unfolding s' ji using unwrap_turn_Some [OF assms(1,2) len(1), of i R ?n j] i len
      by (simp add: Let_def wrap_inv_def)
  qed
  have "\<exists>s'. feed (unwrap_turn Key KeyLength ?n) (take 8 ct, drop 8 ct) (rev (wrap_turns ?n)) = Some s'
      \<and> wrap_inv m s'"
    using turn inv0 by (intro feed_total [where ok = "wrap_inv m"])
  then obtain IV' R' where
    "feed (unwrap_turn Key KeyLength ?n) (take 8 ct, drop 8 ct) (rev (wrap_turns ?n)) = Some (IV', R')"
    and "length R' = m"
    by (auto simp: wrap_inv_def)
  then have "AES_Key_Unwrap (take 8 ct @ drop 8 ct) (m + 8) Key KeyLength out len = Some (0, R', m)"
    using assms by (intro AES_Key_Unwrap_run) simp_all
  then show ?thesis by simp
qed

theorem AES_Key_Unwrap_accepts_all_witness:
  "\<exists>pt. AES_Key_Unwrap (replicate 24 0) (16 + 8) (replicate 16 7) 16 (replicate 16 0) 0 = Some (0, pt, 16)"
  by (rule AES_Key_Unwrap_accepts_all) (simp_all add: aes_key_length_def)

end
