(* ===== verification/Tkip_Michael.thy ===== *)
theory Tkip_Michael
  imports Hash_Stream
begin

text \<open>
  The message integrity code of TKIP, from \<open>rt5572/common/cmm_tkip.c\<close>: the accumulator that takes in
  the message byte by byte, the routines that compute and compare the code of a frame. The
  reference is Michael of IEEE 802.11 on the padded message. \<open>ULONG\<close> has 32 bits, as on the
  32-bit hosts the code is written for.
\<close>

section \<open>The accumulator\<close>

text \<open>\<open>TKIP_KEY_INFO\<close>; \<open>nBytesInM\<close> stays below 4.\<close>

record tkip_key_info =
  nBytesInM :: nat
  IV16 :: u32
  IV32 :: u32
  MicK0 :: u32
  MicK1 :: u32
  MicL :: u32
  MicR :: u32
  MicM :: u32
  RC4KEY :: bytes
  MIC :: bytes

definition ROL32 :: "u32 \<Rightarrow> nat \<Rightarrow> u32" where
  "ROL32 A n = push_bit n A OR (drop_bit (32 - n) A AND (push_bit n 1 - 1))"

definition ROR32 :: "u32 \<Rightarrow> nat \<Rightarrow> u32" where
  "ROR32 A n = ROL32 A (32 - n)"

text \<open>\<open>None\<close> is a read beyond the buffer.\<close>

definition RTMPTkipGetUInt32 :: "bytes \<Rightarrow> u32 option" where
  "RTMPTkipGetUInt32 pMICKey =
     (if 4 \<le> length pMICKey
      then Some (foldl (\<lambda>res i. res OR push_bit (8 * i) (ucast (pMICKey ! i))) 0 [0..<4]) else None)"

definition RTMPTkipPutUInt32 :: "u32 \<Rightarrow> bytes" where
  "RTMPTkipPutUInt32 val = map (\<lambda>i. ucast (drop_bit (8 * i) val AND 0xff)) [0..<4]"

definition RTMPTkipSetMICKey :: "tkip_key_info \<Rightarrow> bytes \<Rightarrow> tkip_key_info option" where
  "RTMPTkipSetMICKey pTkip pMICKey =
     (case RTMPTkipGetUInt32 pMICKey of
        None \<Rightarrow> None
      | Some k0 \<Rightarrow>
          (case RTMPTkipGetUInt32 (drop 4 pMICKey) of
             None \<Rightarrow> None
           | Some k1 \<Rightarrow> Some (pTkip\<lparr>MicK0 := k0, MicK1 := k1, MicL := k0, MicR := k1,
               nBytesInM := 0, MicM := 0\<rparr>)))"

definition RTMPTkipAppendByte :: "tkip_key_info \<Rightarrow> u8 \<Rightarrow> tkip_key_info" where
  "RTMPTkipAppendByte pTkip uChar =
     (let M = MicM pTkip OR push_bit (8 * nBytesInM pTkip) (ucast uChar);
          n = nBytesInM pTkip + 1
      in if n \<ge> 4 then
           let L = MicL pTkip XOR M;
               R = MicR pTkip XOR ROL32 L 17;
               L = L + R;
               R = R XOR (drop_bit 8 (L AND 0xff00ff00) OR push_bit 8 (L AND 0x00ff00ff));
               L = L + R;
               R = R XOR ROL32 L 3;
               L = L + R;
               R = R XOR ROR32 L 2;
               L = L + R
           in pTkip\<lparr>MicL := L, MicR := R, MicM := 0, nBytesInM := 0\<rparr>
         else pTkip\<lparr>MicM := M, nBytesInM := n\<rparr>)"

fun RTMPTkipAppend :: "tkip_key_info \<Rightarrow> bytes \<Rightarrow> nat \<Rightarrow> tkip_key_info option" where
  "RTMPTkipAppend pTkip pSrc 0 = Some pTkip"
| "RTMPTkipAppend pTkip [] (Suc nBytes) = None"
| "RTMPTkipAppend pTkip (c # pSrc) (Suc nBytes) =
     RTMPTkipAppend (RTMPTkipAppendByte pTkip c) pSrc nBytes"

text \<open>The loop that appends zeros until the word buffer is empty.\<close>

lemma RTMPTkipAppendByte_count:
  "nBytesInM (RTMPTkipAppendByte p c) = (if nBytesInM p + 1 \<ge> 4 then 0 else nBytesInM p + 1)"
  by (simp add: RTMPTkipAppendByte_def Let_def)

function tkip_zero_fill :: "tkip_key_info \<Rightarrow> tkip_key_info" where
  "tkip_zero_fill pTkip =
     (if nBytesInM pTkip \<noteq> 0 then tkip_zero_fill (RTMPTkipAppendByte pTkip 0) else pTkip)"
  by pat_completeness auto
termination
  by (relation "measure (\<lambda>p. if nBytesInM p = 0 then 0 else Suc (4 - nBytesInM p))")
    (auto simp: RTMPTkipAppendByte_count)

declare tkip_zero_fill.simps [simp del]

definition RTMPTkipGetMIC :: "tkip_key_info \<Rightarrow> tkip_key_info" where
  "RTMPTkipGetMIC pTkip =
     (let p = foldl RTMPTkipAppendByte pTkip [0x5a, 0, 0, 0, 0];
          p = tkip_zero_fill p
      in p\<lparr>MIC := RTMPTkipPutUInt32 (MicL p) @ RTMPTkipPutUInt32 (MicR p)\<rparr>)"

text \<open>The Michael header: addresses and the user priority as a little-endian \<open>ULONG\<close>.\<close>

definition mic_header :: "tkip_key_info \<Rightarrow> bytes \<Rightarrow> bytes \<Rightarrow> bytes \<Rightarrow> u8 \<Rightarrow> tkip_key_info option" where
  "mic_header pTkip pMICKey pDA pSA UserPriority =
     (case RTMPTkipSetMICKey pTkip pMICKey of
        None \<Rightarrow> None
      | Some p \<Rightarrow>
          (case RTMPTkipAppend p pDA 6 of
             None \<Rightarrow> None
           | Some p \<Rightarrow>
               (case RTMPTkipAppend p pSA 6 of
                  None \<Rightarrow> None
                | Some p \<Rightarrow> RTMPTkipAppend p (store32 (ucast UserPriority)) 4)))"

definition RTMPInitMICEngine ::
  "tkip_key_info \<Rightarrow> bytes \<Rightarrow> bytes \<Rightarrow> u8 \<Rightarrow> bytes \<Rightarrow> tkip_key_info option" where
  "RTMPInitMICEngine Tx pDA pSA UserPriority pMICKey = mic_header Tx pMICKey pDA pSA UserPriority"

definition RTMPTkipCompareMICValue ::
  "tkip_key_info \<Rightarrow> bytes \<Rightarrow> bytes \<Rightarrow> bytes \<Rightarrow> bytes \<Rightarrow> u8 \<Rightarrow> nat \<Rightarrow> (bool \<times> tkip_key_info) option" where
  "RTMPTkipCompareMICValue Rx pSrc pDA pSA pMICKey UserPriority Len =
     (case mic_header Rx pMICKey pDA pSA UserPriority of
        None \<Rightarrow> None
      | Some p \<Rightarrow>
          (case RTMPTkipAppend p pSrc Len of
             None \<Rightarrow> None
           | Some p \<Rightarrow>
               (case move_mem 0 8 (drop Len pSrc) (replicate 8 0) of
                  None \<Rightarrow> None
                | Some OldMic \<Rightarrow>
                    let p = RTMPTkipGetMIC p in Some (MIC p = OldMic, p))))"

text \<open>
  The station branch of \<open>RTMPCalculateMICValue\<close>: \<open>pSrc\<close> and \<open>SrcBufLen\<close> are what
  \<open>RTMP_QueryPacketInfo\<close> reports of the packet, \<open>UserPriority\<close> is the priority in its control
  block, \<open>pEncap\<close> is \<open>None\<close> for a null pointer. The length without the header is a 32-bit
  difference.
\<close>

definition RTMPCalculateMICValue ::
  "tkip_key_info \<Rightarrow> bytes \<Rightarrow> nat \<Rightarrow> u8 \<Rightarrow> bytes option \<Rightarrow> bytes \<Rightarrow> tkip_key_info option" where
  "RTMPCalculateMICValue Tx pSrc SrcBufLen UserPriority pEncap TxMicKey =
     (if length pSrc < 14 then None
      else
        let vlan_offset = (if push_bit 8 (ucast (pSrc ! 12)) + ucast (pSrc ! 13) = (0x8100 :: u32) then 4 else 0) in
        (case RTMPInitMICEngine Tx pSrc (drop 6 pSrc) UserPriority TxMicKey of
           None \<Rightarrow> None
         | Some p \<Rightarrow>
             (case (case pEncap of
                      None \<Rightarrow> Some p
                    | Some enc \<Rightarrow>
                        (case RTMPTkipAppend p enc 6 of
                           None \<Rightarrow> None
                         | Some p \<Rightarrow> RTMPTkipAppend p (drop (12 + vlan_offset) pSrc) 2)) of
                None \<Rightarrow> None
              | Some p \<Rightarrow>
                  map_option RTMPTkipGetMIC
                    (RTMPTkipAppend p (drop (14 + vlan_offset) pSrc) (sub32 SrcBufLen (14 + vlan_offset))))))"

section \<open>Michael\<close>

definition michael_xswap :: "u32 \<Rightarrow> u32" where
  "michael_xswap w = (let b = store32 w in load32 [b ! 1, b ! 0, b ! 3, b ! 2])"

fun michael_block :: "u32 \<times> u32 \<Rightarrow> u32 \<times> u32" where
  "michael_block (l, r) =
     (let r1 = r XOR word_rotl 17 l; l1 = l + r1;
          r2 = r1 XOR michael_xswap l1; l2 = l1 + r2;
          r3 = r2 XOR word_rotl 3 l2; l3 = l2 + r3;
          r4 = r3 XOR word_rotr 2 l3; l4 = l3 + r4
      in (l4, r4))"

definition michael_step :: "u32 \<times> u32 \<Rightarrow> bytes \<Rightarrow> u32 \<times> u32" where
  "michael_step s b = michael_block (fst s XOR load32 b, snd s)"

text \<open>Padding: the byte 0x5a and four to seven zeros, up to a multiple of four bytes.\<close>

definition michael_pad :: "bytes \<Rightarrow> bytes" where
  "michael_pad m = m @ [0x5a] @ replicate (7 - length m mod 4) 0"

definition michael :: "bytes \<Rightarrow> bytes \<Rightarrow> bytes" where
  "michael key m =
     (case foldl michael_step (load32 key, load32 (drop 4 key)) (blocks 4 (michael_pad m)) of
        (l, r) \<Rightarrow> store32 l @ store32 r)"

section \<open>The accumulator computes Michael\<close>

text \<open>A context that has taken in \<open>m\<close> with a given key.\<close>

definition mic_taken :: "bytes \<Rightarrow> tkip_key_info \<Rightarrow> bytes \<Rightarrow> bool" where
  "mic_taken key p m \<longleftrightarrow>
     (let full = 4 * (length m div 4) in
      (MicL p, MicR p) = foldl michael_step (load32 key, load32 (drop 4 key)) (blocks 4 (take full m))
      \<and> MicM p = load32 (drop full m @ replicate 4 0)
      \<and> nBytesInM p = length m mod 4)"

lemma load32_nth: "load32 b = ucast (b ! 0) OR push_bit 8 (ucast (b ! 1)) OR
    push_bit 16 (ucast (b ! 2)) OR push_bit 24 (ucast (b ! 3))"
  by (simp add: load32_def)

lemma RTMPTkipGetUInt32_load: "4 \<le> length b \<Longrightarrow> RTMPTkipGetUInt32 b = Some (load32 b)"
  by (simp add: RTMPTkipGetUInt32_def load32_def upt_numeral or.assoc)

lemma RTMPTkipPutUInt32_store: "RTMPTkipPutUInt32 w = store32 w"
proof -
  have "ucast (x AND 0xff :: u32) = (ucast x :: u8)" for x by (rule ucast_mask)
  then show ?thesis by (simp add: RTMPTkipPutUInt32_def store32_def)
qed

lemma ROL32_word_rotl: "0 < n \<Longrightarrow> n < 32 \<Longrightarrow> ROL32 x n = word_rotl n x"
proof -
  assume n: "0 < n" "n < 32"
  have "drop_bit (32 - n) x AND (push_bit n 1 - 1) = drop_bit (32 - n) x"
  proof (rule bit_word_eqI)
    fix i assume "i < LENGTH(32)"
    show "bit (drop_bit (32 - n) x AND (push_bit n 1 - 1)) i = bit (drop_bit (32 - n) x) i"
      using n bit_imp_le_length [of x "32 - n + i"]
      by (auto simp: bit_simps mask_eq_exp_minus_1 [symmetric] push_bit_of_1)
  qed
  then have "ROL32 x n = ROTL32 x n" by (simp add: ROL32_def ROTL32_def)
  then show ?thesis using n by (simp add: ROTL32_rotl)
qed

lemma ROR32_word_rotr: "0 < n \<Longrightarrow> n < 32 \<Longrightarrow> ROR32 x n = word_rotr n x"
  by (simp add: ROR32_def ROL32_word_rotl word_rotl_eq_word_rotr)

lemma michael_xswap_mask:
  "drop_bit 8 (w AND 0xff00ff00) OR push_bit 8 (w AND 0x00ff00ff) = michael_xswap w"
  by (rule word_eq_upt)
    (simp add: michael_xswap_def store32_def load32_def Let_def bit_simps upt_numeral)

lemma RTMPTkipAppendByte_full:
  assumes "nBytesInM p = 3"
  shows "RTMPTkipAppendByte p c =
    (case michael_block (MicL p XOR (MicM p OR push_bit 24 (ucast c)), MicR p) of
       (l, r) \<Rightarrow> p\<lparr>MicL := l, MicR := r, MicM := 0, nBytesInM := 0\<rparr>)"
  using assms
  by (simp add: RTMPTkipAppendByte_def michael_xswap_mask Let_def ROL32_word_rotl ROR32_word_rotr
      del: push_bit_and drop_bit_and)

text \<open>What one more byte does to a context that has taken in \<open>m\<close>.\<close>

lemma load32_Cons:
  "load32 (a # b # c # d # xs) =
     ucast a OR push_bit 8 (ucast b) OR push_bit 16 (ucast c) OR push_bit 24 (ucast d)"
  by (simp add: load32_def)

lemma replicate4: "replicate 4 x = [x, x, x, x]"
  by (simp add: numeral_eq_Suc)

lemma mic_taken_step:
  assumes "mic_taken key p m"
  shows "mic_taken key (RTMPTkipAppendByte p c) (m @ [c])"
proof -
  define k where "k = length m div 4"
  define r where "r = drop (4 * k) m"
  have lr: "length r = length m mod 4" by (simp add: r_def k_def minus_mult_div_eq_mod)
  have k: "4 * k \<le> length m" by (simp add: k_def)
  have m: "m = take (4 * k) m @ r" by (simp add: r_def)
  have st: "(MicL p, MicR p) =
      foldl michael_step (load32 key, load32 (drop 4 key)) (blocks 4 (take (4 * k) m))"
    and M: "MicM p = load32 (r @ replicate 4 0)" and n: "nBytesInM p = length r"
    using assms by (simp_all add: mic_taken_def Let_def k_def r_def minus_mult_div_eq_mod)
  show ?thesis
  proof (cases "length r = 3")
    case True
    then obtain x y z where r3: "r = [x, y, z]" by (auto simp: numeral_eq_Suc length_Suc_conv)
    have d: "Suc (length m) div 4 = Suc k" "Suc (length m) mod 4 = 0"
      using True lr by (simp_all add: k_def) presburger+
    have len: "4 * Suc k = Suc (length m)"
      using d mult_div_mod_eq [of 4 "Suc (length m)"] by simp
    have mc: "m @ [c] = take (4 * k) m @ [x, y, z, c]" using m r3 by simp
    have bl: "blocks 4 (take (4 * k) m @ [x, y, z, c]) = blocks 4 (take (4 * k) m) @ [[x, y, z, c]]"
      using k by (subst blocks_append_dvd [where k = k]) (simp_all add: blocks_one)
    have "blocks 4 (m @ [c]) = blocks 4 (take (4 * k) m) @ [[x, y, z, c]]"
      unfolding mc by (rule bl)
    moreover have "MicM p OR push_bit 24 (ucast c) = load32 [x, y, z, c]"
      unfolding M r3 by (simp add: load32_Cons replicate4 or.assoc)
    ultimately show ?thesis
      using st n True len
      by (auto simp: mic_taken_def Let_def d RTMPTkipAppendByte_full michael_step_def load32_Cons replicate4
          split: prod.split simp del: michael_block.simps dest: sym)
  next
    case False
    then have "length r < 3" using lr mod_less_divisor [of 4 "length m"] by linarith
    then have d: "Suc (length m) div 4 = k" "Suc (length m) mod 4 = Suc (length r)"
      using lr by (simp_all add: k_def) presburger+
    have "drop (4 * k) (m @ [c]) = r @ [c]" "take (4 * k) (m @ [c]) = take (4 * k) m"
      using k by (simp_all add: r_def)
    moreover have "MicM p OR push_bit (8 * length r) (ucast c) = load32 ((r @ [c]) @ replicate 4 0)"
    proof -
      consider "r = []" | a where "r = [a]" | a b where "r = [a, b]"
        using \<open>length r < 3\<close> by (auto simp: numeral_eq_Suc less_Suc_eq length_Suc_conv)
      then show ?thesis
        by cases (use M in \<open>simp_all add: load32_Cons replicate4 or.assoc\<close>)
    qed
    ultimately show ?thesis
      using st n \<open>length r < 3\<close>
      by (simp add: mic_taken_def Let_def d RTMPTkipAppendByte_def)
  qed
qed

lemma mic_taken_foldl:
  "mic_taken key p m \<Longrightarrow> mic_taken key (foldl RTMPTkipAppendByte p b) (m @ b)"
proof (induction b arbitrary: p m)
  case Nil
  then show ?case by simp
next
  case (Cons c b)
  from Cons.IH [OF mic_taken_step [OF Cons.prems, of c]] show ?case by simp
qed

lemma RTMPTkipAppend_foldl:
  "RTMPTkipAppend p b n =
     (if n \<le> length b then Some (foldl RTMPTkipAppendByte p (take n b)) else None)"
  by (induction p b n rule: RTMPTkipAppend.induct) simp_all

lemma tkip_zero_fill_foldl:
  "nBytesInM p \<le> 4 \<Longrightarrow> tkip_zero_fill p =
     foldl RTMPTkipAppendByte p (replicate (if nBytesInM p = 0 then 0 else max 1 (4 - nBytesInM p)) 0)"
proof (induction p rule: tkip_zero_fill.induct)
  case (1 p)
  show ?case
  proof (cases "nBytesInM p = 0")
    case True
    then show ?thesis by (simp add: tkip_zero_fill.simps)
  next
    case False
    show ?thesis
    proof (cases "nBytesInM p < 3")
      case True
      then have "max 1 (4 - nBytesInM p) = Suc (3 - nBytesInM p)" by simp
      with True False 1 show ?thesis
        by (simp add: tkip_zero_fill.simps [of p] RTMPTkipAppendByte_count)
    next
      case big: False
      then have "nBytesInM (RTMPTkipAppendByte p 0) = 0"
        by (simp add: RTMPTkipAppendByte_count)
      moreover have "nBytesInM p = 3 \<or> nBytesInM p = 4" using big "1.prems" by linarith
      ultimately show ?thesis
        by (auto simp add: tkip_zero_fill.simps [of p] tkip_zero_fill.simps [of "RTMPTkipAppendByte p 0"]
            max_def)
    qed
  qed
qed

lemma RTMPTkipGetMIC_michael:
  assumes "mic_taken key p m"
  shows "MIC (RTMPTkipGetMIC p) = michael key m"
proof -
  define q where "q = foldl RTMPTkipAppendByte p [0x5a, 0, 0, 0, 0]"
  define z where "z = (if nBytesInM q = 0 then 0 else max 1 (4 - nBytesInM q))"
  have q: "mic_taken key q (m @ [0x5a, 0, 0, 0, 0])"
    unfolding q_def by (rule mic_taken_foldl [OF assms])
  then have n: "nBytesInM q = (length m + 5) mod 4" by (simp add: mic_taken_def Let_def add.commute)
  have z: "z = 3 - length m mod 4" unfolding z_def n by (simp add: max_def) presburger
  have "tkip_zero_fill q = foldl RTMPTkipAppendByte q (replicate z 0)"
    unfolding z_def by (rule tkip_zero_fill_foldl) (simp add: n)
  then have t: "mic_taken key (tkip_zero_fill q) ((m @ [0x5a, 0, 0, 0, 0]) @ replicate z 0)"
    using mic_taken_foldl [OF q, of "replicate z 0"] by simp
  have "7 - length m mod 4 = Suc (Suc (Suc (Suc z)))"
    using z mod_less_divisor [of 4 "length m"] by linarith
  then have pad: "michael_pad m = (m @ [0x5a, 0, 0, 0, 0]) @ replicate z 0"
    by (simp add: michael_pad_def)
  have "4 dvd length (michael_pad m)"
    unfolding pad z by simp presburger
  then have "4 * (length (michael_pad m) div 4) = length (michael_pad m)" by simp
  with t [folded pad] have "foldl michael_step (load32 key, load32 (drop 4 key))
      (blocks 4 (michael_pad m)) = (MicL (tkip_zero_fill q), MicR (tkip_zero_fill q))"
    by (simp add: mic_taken_def Let_def)
  then show ?thesis
    by (simp add: RTMPTkipGetMIC_def Let_def q_def [symmetric] michael_def
        RTMPTkipPutUInt32_store del: foldl_Cons)
qed

text \<open>The message the code covers starts with the addresses and the priority.\<close>

definition michael_msg :: "bytes \<Rightarrow> bytes \<Rightarrow> u8 \<Rightarrow> bytes \<Rightarrow> bytes" where
  "michael_msg da sa prio body = take 6 da @ take 6 sa @ [prio, 0, 0, 0] @ body"

lemma store32_byte: "store32 (ucast (x :: u8)) = [x, 0, 0, 0]"
  by (simp add: store32_def upt_numeral)
    (intro conjI word_eq_upt; simp add: bit_simps upt_numeral u8_bit_beyond)

lemma mic_header_taken:
  "mic_header p key da sa prio = None \<longleftrightarrow> length key < 8 \<or> length da < 6 \<or> length sa < 6"
  "mic_header p key da sa prio = Some q \<Longrightarrow> mic_taken key q (michael_msg da sa prio [])"
proof -
  let ?i = "p\<lparr>MicK0 := load32 key, MicK1 := load32 (drop 4 key), MicL := load32 key,
      MicR := load32 (drop 4 key), nBytesInM := 0, MicM := 0\<rparr>"
  have i: "mic_taken key ?i []"
    by (simp add: mic_taken_def blocks_short load32_Cons replicate4)
  have t: "mic_taken key (foldl RTMPTkipAppendByte (foldl RTMPTkipAppendByte
      (foldl RTMPTkipAppendByte ?i (take 6 da)) (take 6 sa)) [prio, 0, 0, 0]) (michael_msg da sa prio [])"
    using mic_taken_foldl [OF mic_taken_foldl [OF mic_taken_foldl [OF i]],
        of "take 6 da" "take 6 sa" "[prio, 0, 0, 0]"]
    by (simp add: michael_msg_def)
  have k: "RTMPTkipSetMICKey p key = (if length key < 8 then None else Some ?i)"
    by (auto simp: RTMPTkipSetMICKey_def RTMPTkipGetUInt32_load)
      (auto simp: RTMPTkipGetUInt32_def)
  show "mic_header p key da sa prio = None \<longleftrightarrow> length key < 8 \<or> length da < 6 \<or> length sa < 6"
    by (auto simp: mic_header_def k RTMPTkipAppend_foldl)
  show "mic_header p key da sa prio = Some q \<Longrightarrow> mic_taken key q (michael_msg da sa prio [])"
    using t by (auto simp: mic_header_def k RTMPTkipAppend_foldl store32_byte split: if_splits
        simp del: foldl_Cons)
qed

lemma michael_msg_append: "michael_msg da sa prio [] @ b = michael_msg da sa prio b"
  by (simp add: michael_msg_def)

text \<open>The header and then a number of message bytes.\<close>

lemma mic_header_append:
  assumes "mic_header p key da sa prio = Some q" and "n \<le> length b"
  shows "\<exists>q'. RTMPTkipAppend q b n = Some q' \<and> mic_taken key q' (michael_msg da sa prio (take n b))"
  using mic_taken_foldl [OF mic_header_taken(2) [OF assms(1)], of "take n b"] assms(2)
  by (simp add: RTMPTkipAppend_foldl michael_msg_append)

text \<open>What follows the header in the message of \<open>RTMPCalculateMICValue\<close>.\<close>

definition msdu_body :: "bytes \<Rightarrow> nat \<Rightarrow> bytes option \<Rightarrow> bytes" where
  "msdu_body pkt n enc =
     (let ofs = (if pkt ! 12 = 0x81 \<and> pkt ! 13 = 0x00 then 4 else 0)
      in (case enc of None \<Rightarrow> [] | Some e \<Rightarrow> take 6 e @ take 2 (drop (12 + ofs) pkt)) @
         take (n - (14 + ofs)) (drop (14 + ofs) pkt))"

lemma vlan_type: "push_bit 8 (ucast a) + ucast b = (0x8100 :: u32) \<longleftrightarrow> a = (0x81 :: u8) \<and> b = (0 :: u8)"
proof -
  have u: "unat (push_bit 8 (ucast a) + ucast b :: u32) = unat a * 256 + unat b"
    using unat_u8 [of a] unat_u8 [of b]
    by (simp add: unat_word_ariths unsigned_push_bit_eq unsigned_ucast_eq push_bit_eq_mult
        take_bit_eq_mod)
  show ?thesis using unat_u8 [of a] unat_u8 [of b]
    unfolding word_unat_eq_iff u by simp presburger
qed

lemma RTMPCalculateMICValue_michael:
  assumes "RTMPCalculateMICValue Tx pkt n prio enc key = Some p"
    and "(if pkt ! 12 = 0x81 \<and> pkt ! 13 = 0x00 then 18 else 14) \<le> n" and "n < 4294967296"
  shows "MIC p = michael key (michael_msg pkt (drop 6 pkt) prio (msdu_body pkt n enc))"
    and "8 \<le> length key" and "12 \<le> length pkt"
proof -
  define ofs where "ofs = (if pkt ! 12 = 0x81 \<and> pkt ! 13 = 0x00 then 4 else 0 :: nat)"
  define pre where "pre = (case enc of None \<Rightarrow> [] | Some e \<Rightarrow> take 6 e @ take 2 (drop (12 + ofs) pkt))"
  have body: "msdu_body pkt n enc = pre @ take (n - (14 + ofs)) (drop (14 + ofs) pkt)"
    unfolding msdu_body_def Let_def ofs_def [symmetric] pre_def by (rule refl)
  have s: "sub32 n (14 + ofs) = n - (14 + ofs)"
    using assms(2,3) by (intro sub32_le) (auto simp: ofs_def split: if_splits)
  from assms(1) obtain q where hd: "mic_header Tx key pkt (drop 6 pkt) prio = Some q"
    by (auto simp: RTMPCalculateMICValue_def RTMPInitMICEngine_def Let_def
        split: if_splits option.splits)
  then have "\<not> (length key < 8 \<or> length pkt < 6 \<or> length (drop 6 pkt) < 6)"
    using mic_header_taken(1) [of Tx key pkt "drop 6 pkt" prio] by simp
  then show "8 \<le> length key" "12 \<le> length pkt" by auto
  define app where "app = (case enc of None \<Rightarrow> Some q
      | Some e \<Rightarrow> (case RTMPTkipAppend q e 6 of None \<Rightarrow> None
          | Some p \<Rightarrow> RTMPTkipAppend p (drop (12 + ofs) pkt) 2))"
  have "(case app of None \<Rightarrow> None
      | Some p \<Rightarrow> map_option RTMPTkipGetMIC
          (RTMPTkipAppend p (drop (14 + ofs) pkt) (sub32 n (14 + ofs)))) = Some p"
    using assms(1) hd
    by (simp add: RTMPCalculateMICValue_def RTMPInitMICEngine_def Let_def vlan_type
        ofs_def [symmetric] app_def split: if_splits)
  note calc = this [unfolded s]
  then obtain r where r: "app = Some r" by (cases app) simp_all
  have "r = foldl RTMPTkipAppendByte q pre"
    using r by (cases enc) (auto simp: app_def pre_def RTMPTkipAppend_foldl split: if_splits)
  then have "mic_taken key r (michael_msg pkt (drop 6 pkt) prio pre)"
    using mic_taken_foldl [OF mic_header_taken(2) [OF hd], of pre] by (simp add: michael_msg_append)
  from mic_taken_foldl [OF this, of "take (n - (14 + ofs)) (drop (14 + ofs) pkt)"] calc
  show "MIC p = michael key (michael_msg pkt (drop 6 pkt) prio (msdu_body pkt n enc))"
    by (auto simp: r RTMPTkipAppend_foldl body michael_msg_def split: if_splits
        intro!: RTMPTkipGetMIC_michael)
qed

section \<open>Properties\<close>

text \<open>\<open>RTMPTkipCompareMICValue\<close> answers whether the eight bytes behind the payload are the
  Michael code of the addresses, the priority and the payload under the given key; it reads
  outside a buffer exactly when the key, an address or the frame is too short. What an earlier
  computation left in the context does not matter.\<close>

theorem RTMPTkipCompareMICValue_michael:
  "map_option fst (RTMPTkipCompareMICValue Rx pSrc da sa key prio n) =
     (if 8 \<le> length key \<and> 6 \<le> length da \<and> 6 \<le> length sa \<and> n + 8 \<le> length pSrc
      then Some (michael key (michael_msg da sa prio (take n pSrc)) = take 8 (drop n pSrc))
      else None)"
proof (cases "mic_header Rx key da sa prio")
  case None
  then show ?thesis
    using mic_header_taken(1) [of Rx key da sa prio]
    by (auto simp: RTMPTkipCompareMICValue_def)
next
  case (Some q)
  then have len: "8 \<le> length key" "6 \<le> length da" "6 \<le> length sa"
    using mic_header_taken(1) [of Rx key da sa prio] by auto
  show ?thesis
  proof (cases "n \<le> length pSrc")
    case True
    from mic_header_append [OF Some True] obtain q' where
      q': "RTMPTkipAppend q pSrc n = Some q'" "mic_taken key q' (michael_msg da sa prio (take n pSrc))"
      by auto
    with RTMPTkipGetMIC_michael [OF q'(2)] True len Some show ?thesis
      by (auto simp: RTMPTkipCompareMICValue_def move_mem_def Let_def)
  next
    case False
    with Some show ?thesis by (simp add: RTMPTkipCompareMICValue_def RTMPTkipAppend_foldl)
  qed
qed

text \<open>The two ends agree. When \<open>RTMPCalculateMICValue\<close> has computed the code of an outgoing
  Ethernet frame, VLAN-tagged or not, then \<open>RTMPTkipCompareMICValue\<close> accepts the LLC header,
  protocol type and payload of that frame with the code behind them, for the same addresses,
  priority and key, whatever the receiver's context held before.\<close>

theorem RTMPCalculateMICValue_accepted:
  assumes "RTMPCalculateMICValue Tx pkt n prio enc key = Some p"
    and "(if pkt ! 12 = 0x81 \<and> pkt ! 13 = 0x00 then 18 else 14) \<le> n" and "n < 4294967296"
    and "body = msdu_body pkt n enc"
  shows "map_option fst (RTMPTkipCompareMICValue Rx (body @ MIC p @ rest) pkt (drop 6 pkt) key prio
      (length body)) = Some True"
proof -
  note calc = RTMPCalculateMICValue_michael [OF assms(1-3)]
  have "length (MIC p) = 8"
    unfolding calc(1) by (simp add: michael_def split: prod.split)
  with calc show ?thesis by (simp add: RTMPTkipCompareMICValue_michael assms(4))
qed

lemma RTMPCalculateMICValue_accepted_witness:
  "\<exists>p. RTMPCalculateMICValue \<lparr>nBytesInM = 0, IV16 = 0, IV32 = 0, MicK0 = 0, MicK1 = 0, MicL = 0,
        MicR = 0, MicM = 0, RC4KEY = [], MIC = []\<rparr>
        [1, 2, 3, 4, 5, 6, 7, 8, 9, 10, 11, 12, 8, 0, 99] 15 3 (Some [0xaa, 0xaa, 3, 0, 0, 0])
        [0, 1, 2, 3, 4, 5, 6, 7] = Some p \<and>
      map_option fst (RTMPTkipCompareMICValue \<lparr>nBytesInM = 0, IV16 = 0, IV32 = 0, MicK0 = 0, MicK1 = 0, MicL = 0,
        MicR = 0, MicM = 0, RC4KEY = [], MIC = []\<rparr>
        ([0xaa, 0xaa, 3, 0, 0, 0, 8, 0, 99] @ MIC p @ [])
        [1, 2, 3, 4, 5, 6, 7, 8, 9, 10, 11, 12, 8, 0, 99]
        (drop 6 [1, 2, 3, 4, 5, 6, 7, 8, 9, 10, 11, 12, 8, 0, 99])
        [0, 1, 2, 3, 4, 5, 6, 7] 3 (length [0xaa, 0xaa, 3, 0, 0, 0, 8, 0, 99 :: u8])) = Some True"
proof -
  let ?pkt = "[1, 2, 3, 4, 5, 6, 7, 8, 9, 10, 11, 12, 8, 0, 99] :: bytes"
  let ?p0 = "\<lparr>nBytesInM = 0, IV16 = 0, IV32 = 0, MicK0 = 0, MicK1 = 0, MicL = 0,
        MicR = 0, MicM = 0, RC4KEY = [], MIC = []\<rparr>"
  have "\<exists>p. RTMPCalculateMICValue ?p0 ?pkt 15 3 (Some [0xaa, 0xaa, 3, 0, 0, 0])
      [0, 1, 2, 3, 4, 5, 6, 7] = Some p"
    by (simp add: RTMPCalculateMICValue_def RTMPInitMICEngine_def mic_header_def
        RTMPTkipSetMICKey_def RTMPTkipGetUInt32_load RTMPTkipAppend_foldl sub32_def vlan_type)
  then obtain p where p: "RTMPCalculateMICValue ?p0 ?pkt 15 3 (Some [0xaa, 0xaa, 3, 0, 0, 0])
      [0, 1, 2, 3, 4, 5, 6, 7] = Some p" by auto
  have b: "[0xaa, 0xaa, 3, 0, 0, 0, 8, 0, 99] = msdu_body ?pkt 15 (Some [0xaa, 0xaa, 3, 0, 0, 0])"
    by (simp add: msdu_body_def)
  show ?thesis
    using RTMPCalculateMICValue_accepted [OF p _ _ b, of ?p0 "[]"] p by simp
qed

end
