(* ===== verification/Tkip_Mix.thy ===== *)
theory Tkip_Mix
  imports Aes_Tables
begin

text \<open>
  The key mixing of TKIP, from \<open>rt5572/common/cmm_tkip.c\<close>: the two byte tables its 16-bit S-box is
  put together from, and \<open>RTMPTkipMixKey\<close>, which derives the RC4 key of a packet. The reference
  is the key mixing function of IEEE 802.11 on 16-bit words; the code computes in 32 bits and
  reduces in some places only.
\<close>

section \<open>The code\<close>

definition Tkip_Sbox_Lower :: "u32 list" where
  "Tkip_Sbox_Lower =
    [0xA5, 0x84, 0x99, 0x8D, 0x0D, 0xBD, 0xB1, 0x54, 0x50, 0x03, 0xA9, 0x7D,
     0x19, 0x62, 0xE6, 0x9A, 0x45, 0x9D, 0x40, 0x87, 0x15, 0xEB, 0xC9, 0x0B,
     0xEC, 0x67, 0xFD, 0xEA, 0xBF, 0xF7, 0x96, 0x5B, 0xC2, 0x1C, 0xAE, 0x6A,
     0x5A, 0x41, 0x02, 0x4F, 0x5C, 0xF4, 0x34, 0x08, 0x93, 0x73, 0x53, 0x3F,
     0x0C, 0x52, 0x65, 0x5E, 0x28, 0xA1, 0x0F, 0xB5, 0x09, 0x36, 0x9B, 0x3D,
     0x26, 0x69, 0xCD, 0x9F, 0x1B, 0x9E, 0x74, 0x2E, 0x2D, 0xB2, 0xEE, 0xFB,
     0xF6, 0x4D, 0x61, 0xCE, 0x7B, 0x3E, 0x71, 0x97, 0xF5, 0x68, 0x00, 0x2C,
     0x60, 0x1F, 0xC8, 0xED, 0xBE, 0x46, 0xD9, 0x4B, 0xDE, 0xD4, 0xE8, 0x4A,
     0x6B, 0x2A, 0xE5, 0x16, 0xC5, 0xD7, 0x55, 0x94, 0xCF, 0x10, 0x06, 0x81,
     0xF0, 0x44, 0xBA, 0xE3, 0xF3, 0xFE, 0xC0, 0x8A, 0xAD, 0xBC, 0x48, 0x04,
     0xDF, 0xC1, 0x75, 0x63, 0x30, 0x1A, 0x0E, 0x6D, 0x4C, 0x14, 0x35, 0x2F,
     0xE1, 0xA2, 0xCC, 0x39, 0x57, 0xF2, 0x82, 0x47, 0xAC, 0xE7, 0x2B, 0x95,
     0xA0, 0x98, 0xD1, 0x7F, 0x66, 0x7E, 0xAB, 0x83, 0xCA, 0x29, 0xD3, 0x3C,
     0x79, 0xE2, 0x1D, 0x76, 0x3B, 0x56, 0x4E, 0x1E, 0xDB, 0x0A, 0x6C, 0xE4,
     0x5D, 0x6E, 0xEF, 0xA6, 0xA8, 0xA4, 0x37, 0x8B, 0x32, 0x43, 0x59, 0xB7,
     0x8C, 0x64, 0xD2, 0xE0, 0xB4, 0xFA, 0x07, 0x25, 0xAF, 0x8E, 0xE9, 0x18,
     0xD5, 0x88, 0x6F, 0x72, 0x24, 0xF1, 0xC7, 0x51, 0x23, 0x7C, 0x9C, 0x21,
     0xDD, 0xDC, 0x86, 0x85, 0x90, 0x42, 0xC4, 0xAA, 0xD8, 0x05, 0x01, 0x12,
     0xA3, 0x5F, 0xF9, 0xD0, 0x91, 0x58, 0x27, 0xB9, 0x38, 0x13, 0xB3, 0x33,
     0xBB, 0x70, 0x89, 0xA7, 0xB6, 0x22, 0x92, 0x20, 0x49, 0xFF, 0x78, 0x7A,
     0x8F, 0xF8, 0x80, 0x17, 0xDA, 0x31, 0xC6, 0xB8, 0xC3, 0xB0, 0x77, 0x11,
     0xCB, 0xFC, 0xD6, 0x3A]"

definition Tkip_Sbox_Upper :: "u32 list" where
  "Tkip_Sbox_Upper =
    [0xC6, 0xF8, 0xEE, 0xF6, 0xFF, 0xD6, 0xDE, 0x91, 0x60, 0x02, 0xCE, 0x56,
     0xE7, 0xB5, 0x4D, 0xEC, 0x8F, 0x1F, 0x89, 0xFA, 0xEF, 0xB2, 0x8E, 0xFB,
     0x41, 0xB3, 0x5F, 0x45, 0x23, 0x53, 0xE4, 0x9B, 0x75, 0xE1, 0x3D, 0x4C,
     0x6C, 0x7E, 0xF5, 0x83, 0x68, 0x51, 0xD1, 0xF9, 0xE2, 0xAB, 0x62, 0x2A,
     0x08, 0x95, 0x46, 0x9D, 0x30, 0x37, 0x0A, 0x2F, 0x0E, 0x24, 0x1B, 0xDF,
     0xCD, 0x4E, 0x7F, 0xEA, 0x12, 0x1D, 0x58, 0x34, 0x36, 0xDC, 0xB4, 0x5B,
     0xA4, 0x76, 0xB7, 0x7D, 0x52, 0xDD, 0x5E, 0x13, 0xA6, 0xB9, 0x00, 0xC1,
     0x40, 0xE3, 0x79, 0xB6, 0xD4, 0x8D, 0x67, 0x72, 0x94, 0x98, 0xB0, 0x85,
     0xBB, 0xC5, 0x4F, 0xED, 0x86, 0x9A, 0x66, 0x11, 0x8A, 0xE9, 0x04, 0xFE,
     0xA0, 0x78, 0x25, 0x4B, 0xA2, 0x5D, 0x80, 0x05, 0x3F, 0x21, 0x70, 0xF1,
     0x63, 0x77, 0xAF, 0x42, 0x20, 0xE5, 0xFD, 0xBF, 0x81, 0x18, 0x26, 0xC3,
     0xBE, 0x35, 0x88, 0x2E, 0x93, 0x55, 0xFC, 0x7A, 0xC8, 0xBA, 0x32, 0xE6,
     0xC0, 0x19, 0x9E, 0xA3, 0x44, 0x54, 0x3B, 0x0B, 0x8C, 0xC7, 0x6B, 0x28,
     0xA7, 0xBC, 0x16, 0xAD, 0xDB, 0x64, 0x74, 0x14, 0x92, 0x0C, 0x48, 0xB8,
     0x9F, 0xBD, 0x43, 0xC4, 0x39, 0x31, 0xD3, 0xF2, 0xD5, 0x8B, 0x6E, 0xDA,
     0x01, 0xB1, 0x9C, 0x49, 0xD8, 0xAC, 0xF3, 0xCF, 0xCA, 0xF4, 0x47, 0x10,
     0x6F, 0xF0, 0x4A, 0x5C, 0x38, 0x57, 0x73, 0x97, 0xCB, 0xA1, 0xE8, 0x3E,
     0x96, 0x61, 0x0D, 0x0F, 0xE0, 0x7C, 0x71, 0xCC, 0x90, 0x06, 0xF7, 0x1C,
     0xC2, 0x6A, 0xAE, 0x69, 0x17, 0x99, 0x3A, 0x27, 0xD9, 0xEB, 0x2B, 0x22,
     0xD2, 0xA9, 0x07, 0x33, 0x2D, 0x3C, 0x15, 0xC9, 0x87, 0xAA, 0x50, 0xA5,
     0x03, 0x59, 0x09, 0x1A, 0x65, 0xD7, 0x84, 0xD0, 0x82, 0x29, 0x5A, 0x1E,
     0x7B, 0xA8, 0x6D, 0x2C]"

definition tkip_sbox :: "u32 \<Rightarrow> u32" where
  "tkip_sbox index =
     (let index_low = unat (index mod 256);
          index_high = unat (drop_bit 8 index mod 256);
          left = Tkip_Sbox_Lower ! index_low + Tkip_Sbox_Upper ! index_low * 256;
          right = Tkip_Sbox_Upper ! index_high + Tkip_Sbox_Lower ! index_high * 256
      in left XOR right)"

definition rotr1 :: "u32 \<Rightarrow> u32" where
  "rotr1 a =
     (if a AND 0x01 = 0x01 then drop_bit 1 a OR 0x8000 else drop_bit 1 a AND 0x7fff) mod 65536"

text \<open>The expression \<open>(256*key[j+1]) + key[j]\<close>.\<close>

definition key_word :: "bytes \<Rightarrow> nat \<Rightarrow> u32" where
  "key_word key j = 256 * ucast (key ! (j + 1)) + ucast (key ! j)"

type_synonym p1k = "u32 \<times> u32 \<times> u32 \<times> u32 \<times> u32"

text \<open>One turn of the loop of phase 1.\<close>

definition mix_phase1 :: "bytes \<Rightarrow> p1k \<Rightarrow> nat \<Rightarrow> p1k" where
  "mix_phase1 key p i =
     (case p of (p0, p1, p2, p3, p4) \<Rightarrow>
      let j = 2 * (i mod 2);
          p0 = (p0 + tkip_sbox ((p4 XOR key_word key j) mod 65536)) mod 65536;
          p1 = (p1 + tkip_sbox ((p0 XOR key_word key (4 + j)) mod 65536)) mod 65536;
          p2 = (p2 + tkip_sbox ((p1 XOR key_word key (8 + j)) mod 65536)) mod 65536;
          p3 = (p3 + tkip_sbox ((p2 XOR key_word key (12 + j)) mod 65536)) mod 65536;
          p4 = (p4 + tkip_sbox ((p3 XOR key_word key j) mod 65536)) mod 65536;
          p4 = (p4 + word_of_nat i) mod 65536
      in (p0, p1, p2, p3, p4))"

text \<open>Phase 2 and the key bytes.\<close>

definition mix_phase2 :: "bytes \<Rightarrow> p1k \<Rightarrow> u32 \<Rightarrow> bytes" where
  "mix_phase2 key p tsc2 =
     (case p of (p0, p1, p2, p3, p4) \<Rightarrow>
      let ppk0 = p0; ppk1 = p1; ppk2 = p2; ppk3 = p3; ppk4 = p4;
          ppk5 = (p4 + tsc2) mod 65536;
          ppk0 = ppk0 + tkip_sbox ((ppk5 XOR key_word key 0) mod 65536);
          ppk1 = ppk1 + tkip_sbox ((ppk0 XOR key_word key 2) mod 65536);
          ppk2 = ppk2 + tkip_sbox ((ppk1 XOR key_word key 4) mod 65536);
          ppk3 = ppk3 + tkip_sbox ((ppk2 XOR key_word key 6) mod 65536);
          ppk4 = ppk4 + tkip_sbox ((ppk3 XOR key_word key 8) mod 65536);
          ppk5 = ppk5 + tkip_sbox ((ppk4 XOR key_word key 10) mod 65536);
          ppk0 = ppk0 + rotr1 (ppk5 XOR key_word key 12);
          ppk1 = ppk1 + rotr1 (ppk0 XOR key_word key 14);
          ppk2 = ppk2 + rotr1 ppk1;
          ppk3 = ppk3 + rotr1 ppk2;
          ppk4 = ppk4 + rotr1 ppk3;
          ppk5 = ppk5 + rotr1 ppk4
      in map ucast
           [drop_bit 8 tsc2 mod 256, (drop_bit 8 tsc2 mod 256 OR 0x20) AND 0x7f, tsc2 mod 256,
            drop_bit 1 (ppk5 XOR key_word key 0) mod 256,
            ppk0 mod 256, drop_bit 8 ppk0 mod 256, ppk1 mod 256, drop_bit 8 ppk1 mod 256,
            ppk2 mod 256, drop_bit 8 ppk2 mod 256, ppk3 mod 256, drop_bit 8 ppk3 mod 256,
            ppk4 mod 256, drop_bit 8 ppk4 mod 256, ppk5 mod 256, drop_bit 8 ppk5 mod 256])"

text \<open>
  The key has 16 bytes and the transmitter address 6; \<open>None\<close> is a read beyond one of them. The
  result is the RC4 key and the output of phase 1.
\<close>

definition RTMPTkipMixKey :: "bytes \<Rightarrow> bytes \<Rightarrow> u32 \<Rightarrow> u32 \<Rightarrow> (bytes \<times> p1k) option" where
  "RTMPTkipMixKey key ta pnl pnh =
     (if length key < 16 \<or> length ta < 6 then None
      else
        let tsc0 = drop_bit 16 pnh mod 65536; tsc1 = pnh mod 65536; tsc2 = pnl mod 65536;
            p1k = (tsc1, tsc0, ucast (ta ! 0) + ucast (ta ! 1) * 256,
              ucast (ta ! 2) + ucast (ta ! 3) * 256, ucast (ta ! 4) + ucast (ta ! 5) * 256);
            p1k = foldl (mix_phase1 key) p1k [0..<8]
        in Some (mix_phase2 key p1k tsc2, p1k))"

section \<open>The mixing function of the standard\<close>

definition mk16 :: "u8 \<Rightarrow> u8 \<Rightarrow> u16" where
  "mk16 hi lo = push_bit 8 (ucast hi) OR ucast lo"

definition lo8 :: "u16 \<Rightarrow> u8" where "lo8 w = ucast w"
definition hi8 :: "u16 \<Rightarrow> u8" where "hi8 w = ucast (drop_bit 8 w)"

text \<open>The S-box, from the one of AES: its double in the upper byte, its triple in the lower.\<close>

definition tkip_S :: "u16 \<Rightarrow> u16" where
  "tkip_S v =
     (let t = (\<lambda>b. mk16 (gf_mul 2 (byte_at aes_sbox_enc b)) (gf_mul 3 (byte_at aes_sbox_enc b)));
          swap = (\<lambda>w. mk16 (lo8 w) (hi8 w))
      in t (lo8 v) XOR swap (t (hi8 v)))"

type_synonym ttak = "u16 \<times> u16 \<times> u16 \<times> u16 \<times> u16"

definition ttak_round :: "bytes \<Rightarrow> ttak \<Rightarrow> nat \<Rightarrow> ttak" where
  "ttak_round TK p i =
     (case p of (t0, t1, t2, t3, t4) \<Rightarrow>
      let j = 2 * (i mod 2);
          t0 = t0 + tkip_S (t4 XOR mk16 (TK ! (1 + j)) (TK ! j));
          t1 = t1 + tkip_S (t0 XOR mk16 (TK ! (5 + j)) (TK ! (4 + j)));
          t2 = t2 + tkip_S (t1 XOR mk16 (TK ! (9 + j)) (TK ! (8 + j)));
          t3 = t3 + tkip_S (t2 XOR mk16 (TK ! (13 + j)) (TK ! (12 + j)));
          t4 = t4 + tkip_S (t3 XOR mk16 (TK ! (1 + j)) (TK ! j)) + word_of_nat i
      in (t0, t1, t2, t3, t4))"

definition tkip_phase1 :: "bytes \<Rightarrow> bytes \<Rightarrow> u32 \<Rightarrow> ttak" where
  "tkip_phase1 TK TA IV32 =
     foldl (ttak_round TK)
       (ucast IV32, ucast (drop_bit 16 IV32), mk16 (TA ! 1) (TA ! 0), mk16 (TA ! 3) (TA ! 2),
        mk16 (TA ! 5) (TA ! 4)) [0..<8]"

definition tkip_phase2 :: "bytes \<Rightarrow> ttak \<Rightarrow> u16 \<Rightarrow> bytes" where
  "tkip_phase2 TK p IV16 =
     (case p of (t0, t1, t2, t3, t4) \<Rightarrow>
      let a5 = t4 + IV16;
          a0 = t0 + tkip_S (a5 XOR mk16 (TK ! 1) (TK ! 0));
          a1 = t1 + tkip_S (a0 XOR mk16 (TK ! 3) (TK ! 2));
          a2 = t2 + tkip_S (a1 XOR mk16 (TK ! 5) (TK ! 4));
          a3 = t3 + tkip_S (a2 XOR mk16 (TK ! 7) (TK ! 6));
          a4 = t4 + tkip_S (a3 XOR mk16 (TK ! 9) (TK ! 8));
          a5 = a5 + tkip_S (a4 XOR mk16 (TK ! 11) (TK ! 10));
          b0 = a0 + word_rotr 1 (a5 XOR mk16 (TK ! 13) (TK ! 12));
          b1 = a1 + word_rotr 1 (b0 XOR mk16 (TK ! 15) (TK ! 14));
          b2 = a2 + word_rotr 1 b1;
          b3 = a3 + word_rotr 1 b2;
          b4 = a4 + word_rotr 1 b3;
          b5 = a5 + word_rotr 1 b4
      in [hi8 IV16, (hi8 IV16 OR 0x20) AND 0x7f, lo8 IV16,
          lo8 (drop_bit 1 (b5 XOR mk16 (TK ! 1) (TK ! 0))),
          lo8 b0, hi8 b0, lo8 b1, hi8 b1, lo8 b2, hi8 b2, lo8 b3, hi8 b3, lo8 b4, hi8 b4, lo8 b5, hi8 b5])"

section \<open>The tables\<close>

lemma length_Tkip_Sbox: "length Tkip_Sbox_Lower = 256" "length Tkip_Sbox_Upper = 256"
  by (simp_all add: Tkip_Sbox_Lower_def Tkip_Sbox_Upper_def)

lemma Tkip_Sbox_all:
  "map (\<lambda>b. ucast (gf_times 3 (byte_at aes_sbox_enc b))) all_bytes = Tkip_Sbox_Lower"
  "map (\<lambda>b. ucast (gf_times 2 (byte_at aes_sbox_enc b))) all_bytes = Tkip_Sbox_Upper"
  by (simp_all add: all_bytes_def aes_sbox_enc_at gf_times_small xtime_numeral
      Tkip_Sbox_Lower_def Tkip_Sbox_Upper_def)

lemma Tkip_Sbox_at:
  "byte_at Tkip_Sbox_Lower b = ucast (gf_times 3 (byte_at aes_sbox_enc b))"
  "byte_at Tkip_Sbox_Upper b = ucast (gf_times 2 (byte_at aes_sbox_enc b))"
  by (simp_all only: Tkip_Sbox_all [symmetric] byte_at_map)

section \<open>The low 16 bits\<close>

text \<open>
  Every operation of the code commutes with taking the low 16 bits, so it does not matter where
  the code reduces.
\<close>

abbreviation lo16 :: "u32 \<Rightarrow> u16" where "lo16 \<equiv> ucast"

lemma lo16_add: "lo16 (x + y) = lo16 x + lo16 y"
  by transfer
    (simp add: take_bit_eq_mod, subst (2) mod_add_eq [symmetric], simp add: mod_mod_cancel mod_add_eq)

lemma mod_take_bit: "x mod 256 = take_bit 8 (x :: u32)" "x mod 65536 = take_bit 16 (x :: u32)"
  by (simp_all add: take_bit_eq_mod)

lemma lo16_mod: "lo16 (x mod 65536) = lo16 x"
  unfolding mod_take_bit by (rule word_eq_upt) (simp add: bit_simps upt_numeral)

lemma lo16_xor: "lo16 (x XOR y) = lo16 x XOR lo16 y"
  by (rule word_eq_upt) (simp add: bit_simps upt_numeral)

lemma lo16_byte: "ucast (x mod 256) = lo8 (lo16 x)" "lo8 (lo16 (drop_bit 8 x)) = hi8 (lo16 x)"
  "lo8 (lo16 (drop_bit (Suc 0) x)) = lo8 (drop_bit (Suc 0) (lo16 x))"
  "ucast ((x mod 256 OR 0x20) AND 0x7f) = (lo8 (lo16 x) OR 0x20) AND 0x7f"
  unfolding mod_take_bit lo8_def hi8_def
  by (rule word_eq_upt; simp add: bit_simps upt_numeral)+

lemma lo8_xor: "lo8 (v XOR w) = lo8 v XOR lo8 w"
  unfolding lo8_def by (rule word_eq_upt) (simp add: bit_simps upt_numeral)

lemma lo16_nat: "lo16 (word_of_nat n) = word_of_nat n"
  by transfer (simp add: take_bit_eq_mod mod_mod_cancel)

lemma mk16_sum: "lo16 (256 * ucast h + ucast l) = mk16 h l" "lo16 (ucast l + ucast h * 256) = mk16 h l"
proof -
  have "256 * ucast h = push_bit 8 (ucast h :: u32)" by (simp add: push_bit_eq_mult)
  moreover have "push_bit 8 (ucast h) + ucast l = (push_bit 8 (ucast h) OR ucast l :: u32)"
    by (rule disjunctive_add) (auto simp: bit_simps u8_bit_beyond)
  moreover have "lo16 (push_bit 8 (ucast h) OR ucast l) = mk16 h l"
    unfolding mk16_def by (rule word_eq_upt) (simp add: bit_simps upt_numeral)
  ultimately show "lo16 (256 * ucast h + ucast l) = mk16 h l" by simp
  then show "lo16 (ucast l + ucast h * 256) = mk16 h l" by (simp add: ac_simps)
qed

lemma lo16_tkip_sbox: "lo16 (tkip_sbox x) = tkip_S (lo16 x)"
proof -
  have i: "unat (y mod 256) = unat (ucast (y mod 256) :: u8)" for y :: u32
    unfolding mod_take_bit by (simp add: unsigned_ucast_eq unsigned_take_bit_eq)
  have sw: "mk16 (lo8 (mk16 a b)) (hi8 (mk16 a b)) = mk16 b a" for a b
    unfolding mk16_def lo8_def hi8_def
    by (rule word_eq_upt) (simp add: bit_simps upt_numeral u8_bit_beyond)
  show ?thesis
    by (simp add: tkip_sbox_def tkip_S_def Let_def i byte_at_def [symmetric] lo16_byte lo16_xor
        Tkip_Sbox_at mk16_sum gf_mul_def sw)
qed

lemma lo16_rotr1: "lo16 (rotr1 x) = word_rotr 1 (lo16 x)"
proof -
  have "x AND 1 = 1 \<longleftrightarrow> bit x 0" by (simp add: and_one_eq bit_0 odd_iff_mod_2_eq_one)
  then show ?thesis
    unfolding rotr1_def lo16_mod
    by (auto intro!: word_eq_upt simp: bit_simps upt_numeral bit_word_rotr_iff)
qed

lemma lo16_key_word: "lo16 (key_word key j) = mk16 (key ! (j + 1)) (key ! j)"
  by (simp add: key_word_def mk16_sum)

lemmas lo16_hom = lo16_add lo16_mod lo16_xor lo16_byte lo8_xor lo16_nat lo16_tkip_sbox lo16_rotr1 lo16_key_word

section \<open>The code computes the mixing function\<close>

fun lo16_p1k :: "p1k \<Rightarrow> ttak" where
  "lo16_p1k (p0, p1, p2, p3, p4) = (lo16 p0, lo16 p1, lo16 p2, lo16 p3, lo16 p4)"

lemma mix_phase1_round: "lo16_p1k (mix_phase1 key p i) = ttak_round key (lo16_p1k p) i"
  by (cases p) (simp add: mix_phase1_def ttak_round_def Let_def lo16_hom)

lemma mix_phase1_loop:
  "lo16_p1k (foldl (mix_phase1 key) p is) = foldl (ttak_round key) (lo16_p1k p) is"
  by (induction "is" arbitrary: p) (simp_all add: mix_phase1_round)

lemma mix_phase2_bytes: "mix_phase2 key p x = tkip_phase2 key (lo16_p1k p) (lo16 x)"
  by (cases p) (simp add: mix_phase2_def tkip_phase2_def Let_def lo16_hom)

section \<open>Properties\<close>

text \<open>C33: \<open>RTMPTkipMixKey\<close> is the two-phase key mixing function of IEEE 802.11: for every temporal
  key, transmitter address and packet number it gives the WEP seed of the standard, and its
  second output holds the phase 1 result. The reads it makes are inside a 16-byte key and a
  6-byte address, and nothing shorter.\<close>

theorem RTMPTkipMixKey_is_80211:
  "map_option (map_prod id lo16_p1k) (RTMPTkipMixKey key ta pnl pnh) =
     (if 16 \<le> length key \<and> 6 \<le> length ta
      then Some (tkip_phase2 key (tkip_phase1 key ta pnh) (lo16 pnl), tkip_phase1 key ta pnh)
      else None)"
proof -
  have "lo16 (drop_bit 16 pnh mod 65536) = lo16 (drop_bit 16 pnh)" by (rule lo16_mod)
  then show ?thesis
    by (simp add: RTMPTkipMixKey_def Let_def mix_phase1_loop mix_phase2_bytes tkip_phase1_def
        mk16_sum lo16_mod del: foldl_Cons upt_conv_Cons)
qed

end
