(* ===== verification/Cmm_Tkip.thy ===== *)
theory Cmm_Tkip
  imports Cmm_Wep Tkip_Michael Tkip_Mix
begin

text \<open>
  The frame functions of \<open>rt5572/common/cmm_tkip.c\<close>: the software decapsulation of a TKIP frame,
  which composes the key mixing, ARC4, the CRC and Michael, and the protection of the group key.
  The theorems say when a frame is accepted, that the sender's encapsulation is, which frames
  make the code read outside the buffer, and that the group key is recovered.
\<close>

section \<open>Operations\<close>

text \<open>
  The addresses of the frame, by the direction bits: destination, transmitter and source.
  \<open>pHdr\<close> is the 802.11 header; its fields lie at 4, 10, 16 and 24.
\<close>

definition hdr_addr :: "bytes \<Rightarrow> nat \<Rightarrow> bytes option" where
  "hdr_addr pHdr ofs = move_mem 0 6 (drop ofs pHdr) (replicate 6 0)"

definition tkip_addresses :: "bytes \<Rightarrow> u8 \<Rightarrow> u8 \<Rightarrow> (bytes \<times> bytes \<times> bytes) option" where
  "tkip_addresses pHdr to_ds from_ds =
     (case (hdr_addr pHdr 4, hdr_addr pHdr 10, hdr_addr pHdr 16) of
        (Some Addr1, Some Addr2, Some Addr3) \<Rightarrow>
          if to_ds = 0 \<and> from_ds = 1 then Some (Addr1, Addr2, Addr3)
          else if to_ds = 0 \<and> from_ds = 0 then Some (Addr1, Addr2, Addr2)
          else if to_ds = 1 \<and> from_ds = 0 then Some (Addr3, Addr2, Addr2)
          else map_option (\<lambda>Octet. (Addr3, Addr2, Octet)) (hdr_addr pHdr 24)
      | _ \<Rightarrow> None)"

text \<open>
  What the call leaves: the returned flag, the buffer, \<open>*DataByteCnt\<close> and whether a failure of the
  integrity code has been reported (\<open>WpaSendMicFailureToWpaSupplicant\<close> when a supplicant runs,
  \<open>RTMPReportMicError\<close> when not). The state of the engine in \<open>PrivateInfo.Tx\<close>, which the next call
  starts anew, is not kept.
\<close>

record tkip_result =
  accepted :: bool
  buffer :: bytes
  byte_cnt :: u16
  mic_error :: bool

text \<open>The lengths behind the frame are \<open>UINT32\<close> and wrap.\<close>

definition tkip_check ::
  "tkip_key_info \<Rightarrow> bytes \<Rightarrow> bytes \<Rightarrow> u8 \<Rightarrow> cipher_key \<Rightarrow> bytes \<Rightarrow> nat \<Rightarrow> u16 \<Rightarrow> tkip_result option" where
  "tkip_check Tx DA SA UserPriority pKey pData ciphertext_len DataByteCnt =
     (let plaintext_len = sub32 ciphertext_len 4 in
      case (move_mem 0 4 (drop plaintext_len pData) (replicate 4 0),
            RTMP_CALC_FCS32 PPPINITFCS32 pData plaintext_len) of
        (Some t, Some fcs) \<Rightarrow>
          let trailfcs = load32 t; crc32 = fcs XOR 0xffffffff in
          if crc32 \<noteq> cpu2le32 trailfcs
          then Some \<lparr>accepted = False, buffer = pData, byte_cnt = DataByteCnt, mic_error = False\<rparr>
          else
            let plaintext_len = sub32 plaintext_len 8 in
            (case (move_mem 0 8 (drop plaintext_len pData) (replicate 8 0),
                   RTMPInitMICEngine Tx DA SA UserPriority (RxMic pKey)) of
               (Some TrailMIC, Some p) \<Rightarrow>
                 (case RTMPTkipAppend p pData plaintext_len of
                    None \<Rightarrow> None
                  | Some p \<Rightarrow>
                      if take 8 (MIC (RTMPTkipGetMIC p)) \<noteq> TrailMIC
                      then Some \<lparr>accepted = False, buffer = pData, byte_cnt = DataByteCnt,
                             mic_error = True\<rparr>
                      else Some \<lparr>accepted = True, buffer = pData,
                             byte_cnt = word_of_nat plaintext_len, mic_error = False\<rparr>)
             | _ \<Rightarrow> None)
      | _ \<Rightarrow> None)"

definition RTMPSoftDecryptTKIP ::
  "tkip_key_info \<Rightarrow> bytes \<Rightarrow> u8 \<Rightarrow> cipher_key \<Rightarrow> bytes \<Rightarrow> u16 \<Rightarrow> tkip_result option" where
  "RTMPSoftDecryptTKIP Tx pHdr UserPriority pKey pData DataByteCnt =
     (let refused = \<lparr>accepted = False, buffer = pData, byte_cnt = DataByteCnt, mic_error = False\<rparr> in
      if KeyLen pKey = 0 then Some refused
      else if length pHdr < 2 then None
      else
        let from_ds = drop_bit 1 (pHdr ! 1 AND 0x2);
            to_ds = pHdr ! 1 AND 0x1
        in (case tkip_addresses pHdr to_ds from_ds of
              None \<Rightarrow> None
            | Some (DA, TA, SA) \<Rightarrow>
                if length pData < 8 then None
                else
                  let pnl = push_bit 8 (ucast (pData ! 0)) OR ucast (pData ! 2);
                      pnh = cpu2le32 (load32 (drop 4 pData))
                  in (case RTMPTkipMixKey (Key pKey) TA pnl pnh of
                        None \<Rightarrow> None
                      | Some (RC4Key, p1k) \<Rightarrow>
                          let ciphertext_len = sub32 (unat DataByteCnt) 8 in
                          if DataByteCnt \<le> 8 then Some refused
                          else (case ARC4_INIT RC4Key 16 of
                                  None \<Rightarrow> None
                                | Some ctx \<Rightarrow>
                                    (case ARC4_Compute ctx pData 8 ciphertext_len 0 of
                                       None \<Rightarrow> None
                                     | Some (_, pData) \<Rightarrow>
                                         tkip_check Tx DA SA UserPriority pKey pData ciphertext_len
                                           DataByteCnt)))))"

text \<open>
  The group key's protection. The two texts are different buffers; the cipher sees them as one
  memory with the output in front.
\<close>

definition TKIP_GTK_KEY_WRAP :: "bytes \<Rightarrow> bytes \<Rightarrow> bytes \<Rightarrow> nat \<Rightarrow> bytes \<Rightarrow> bytes option" where
  "TKIP_GTK_KEY_WRAP key iv input_text input_len output_text =
     (case move_mem 0 16 iv (replicate 32 0) of
        None \<Rightarrow> None
      | Some ekey \<Rightarrow>
          (case move_mem 16 16 key ekey of
             None \<Rightarrow> None
           | Some ekey \<Rightarrow>
               (case ARC4_INIT ekey 32 of
                  None \<Rightarrow> None
                | Some ctx \<Rightarrow>
                    let ctx = ARC4_Discard_KeyLength ctx 256 in
                    if length output_text < input_len then None
                    else
                      map_option (\<lambda>(_, d). take (length output_text) d)
                        (ARC4_Compute ctx (output_text @ input_text) (length output_text) input_len 0))))"

definition TKIP_GTK_KEY_UNWRAP :: "bytes \<Rightarrow> bytes \<Rightarrow> bytes \<Rightarrow> nat \<Rightarrow> bytes \<Rightarrow> bytes option" where
  "TKIP_GTK_KEY_UNWRAP key iv input_text input_len output_text =
     TKIP_GTK_KEY_WRAP key iv input_text input_len output_text"

section \<open>The standard's encapsulation\<close>

text \<open>
  Destination, transmitter and source of a header of at least 30 bytes, as the table of the
  direction bits has them.
\<close>

definition tkip_da :: "bytes \<Rightarrow> bytes" where
  "tkip_da h = take 6 (drop (if bit (h ! 1) 0 then 16 else 4) h)"

definition tkip_sa :: "bytes \<Rightarrow> bytes" where
  "tkip_sa h = take 6 (drop (if bit (h ! 1) 1 then if bit (h ! 1) 0 then 24 else 16 else 10) h)"

definition tkip_seed :: "cipher_key \<Rightarrow> bytes \<Rightarrow> bytes \<Rightarrow> bytes" where
  "tkip_seed k h iv =
     tkip_phase2 (Key k) (tkip_phase1 (Key k) (take 6 (drop 10 h)) (load32 (drop 4 iv)))
       (mk16 (iv ! 0) (iv ! 2))"

definition tkip_mic :: "cipher_key \<Rightarrow> bytes \<Rightarrow> u8 \<Rightarrow> bytes \<Rightarrow> bytes" where
  "tkip_mic k h prio m = michael (RxMic k) (michael_msg (tkip_da h) (tkip_sa h) prio m)"

definition tkip_key_ok :: "cipher_key \<Rightarrow> bool" where
  "tkip_key_ok k \<longleftrightarrow> 0 < KeyLen k \<and> 16 \<le> length (Key k) \<and> 8 \<le> length (RxMic k)"

definition tkip_stream :: "cipher_key \<Rightarrow> bytes \<Rightarrow> bytes \<Rightarrow> nat \<Rightarrow> bytes" where
  "tkip_stream k h iv n = rc4_stream (rc4_setup (tkip_seed k h iv)) n"

lemma length_tkip_stream [simp, buf_len]: "length (tkip_stream k h iv n) = n"
  by (simp add: tkip_stream_def length_rc4_stream)

lemma length_tkip_seed [simp, buf_len]: "length (tkip_seed k h iv) = 16"
  by (simp add: tkip_seed_def tkip_phase2_def Let_def split: prod.split)

lemma length_tkip_mic [simp, buf_len]: "length (tkip_mic k h prio m) = 8"
  by (simp add: tkip_mic_def michael_def split: prod.split)

section \<open>What the decapsulation computes\<close>

lemma hdr_addr_take: "ofs + 6 \<le> length h \<Longrightarrow> hdr_addr h ofs = Some (take 6 (drop ofs h))"
  by (simp add: hdr_addr_def move_mem_def)

lemma ds_bits:
  "drop_bit 1 (x AND 0x2) = (if bit x 1 then 1 else 0 :: u8)"
  "x AND 0x1 = (if bit x 0 then 1 else 0 :: u8)"
  by (auto intro!: word_eq_upt simp: bit_simps upt_numeral)

definition tkip_hdr_ok :: "bytes \<Rightarrow> bool" where
  "tkip_hdr_ok h \<longleftrightarrow> (if bit (h ! 1) 0 \<and> bit (h ! 1) 1 then 30 else 24) \<le> length h"

lemma tkip_addresses_hdr:
  "tkip_hdr_ok h \<Longrightarrow> tkip_addresses h (h ! 1 AND 0x1) (drop_bit 1 (h ! 1 AND 0x2))
     = Some (tkip_da h, take 6 (drop 10 h), tkip_sa h)"
  unfolding tkip_hdr_ok_def tkip_addresses_def ds_bits tkip_da_def tkip_sa_def
  by (auto simp: hdr_addr_take split: if_splits)

lemma tkip_addr_length:
  "tkip_hdr_ok h \<Longrightarrow> length (tkip_da h) = 6 \<and> length (tkip_sa h) = 6 \<and> 24 \<le> length h"
  by (auto simp: tkip_hdr_ok_def tkip_da_def tkip_sa_def split: if_splits)

text \<open>The check of a decrypted buffer.\<close>

lemma tkip_check_frame:
  assumes "tkip_key_ok k" and "tkip_hdr_ok h" and "12 \<le> length p" and "length p < 65536"
    and ok: "icv_ok \<longleftrightarrow> drop (length p - 4) p = store32 (crc32 (take (length p - 4) p))"
      "mic_ok \<longleftrightarrow> take 8 (drop (length p - 12) p) = tkip_mic k h prio (take (length p - 12) p)"
  shows "tkip_check Tx (tkip_da h) (tkip_sa h) prio k (p @ rest) (length p) cnt
    = Some \<lparr>accepted = (icv_ok \<and> mic_ok), buffer = p @ rest,
        byte_cnt = (if icv_ok \<and> mic_ok then word_of_nat (length p - 12) else cnt),
        mic_error = (icv_ok \<and> \<not> mic_ok)\<rparr>"
proof -
  let ?n = "length p"
  have s: "sub32 ?n 4 = ?n - 4" "sub32 (?n - 4) 8 = ?n - 12"
    using assms(3,4) by (simp_all add: sub32_le)
  have trail: "move_mem 0 4 (drop (?n - 4) (p @ rest)) (replicate 4 0) = Some (drop (?n - 4) p)"
    and tmic: "move_mem 0 8 (drop (?n - 12) (p @ rest)) (replicate 8 0)
      = Some (take 8 (drop (?n - 12) p))"
    using assms(3) by (simp_all add: move_mem_def)
  obtain f where f: "RTMP_CALC_FCS32 PPPINITFCS32 (p @ rest) (?n - 4) = Some f"
      "f XOR 0xffffffff = crc32 (take (?n - 4) p)"
    using RTMP_CALC_FCS32_crc32 [of "?n - 4" "p @ rest"] by (auto simp: trans_le_add1)
  have cmp: "crc32 (take (?n - 4) p) = load32 (drop (?n - 4) p) \<longleftrightarrow> icv_ok"
    using assms(3) by (simp add: ok(1) store_load eq_commute)
  have "\<not> (length (RxMic k) < 8 \<or> length (tkip_da h) < 6 \<or> length (tkip_sa h) < 6)"
    using assms(1) tkip_addr_length [OF assms(2)] by (simp add: tkip_key_ok_def)
  then obtain q where q: "mic_header Tx (RxMic k) (tkip_da h) (tkip_sa h) prio = Some q"
    using mic_header_taken(1) [of Tx "RxMic k" "tkip_da h" "tkip_sa h" prio] by fastforce
  have le: "?n - 12 \<le> length (p @ rest)" by simp
  from mic_header_append [OF q le] obtain q' where
    q': "RTMPTkipAppend q (p @ rest) (?n - 12) = Some q'"
    and tk: "mic_taken (RxMic k) q' (michael_msg (tkip_da h) (tkip_sa h) prio (take (?n - 12) p))"
    by auto
  have "MIC (RTMPTkipGetMIC q') = tkip_mic k h prio (take (?n - 12) p)"
    using RTMPTkipGetMIC_michael [OF tk] by (simp add: tkip_mic_def)
  then have m: "take 8 (MIC (RTMPTkipGetMIC q')) = tkip_mic k h prio (take (?n - 12) p)" by simp
  have t: "tkip_mic k h prio (take (?n - 12) p) = take 8 (drop (?n - 12) p) \<longleftrightarrow> mic_ok"
    by (simp add: ok(2) eq_commute)
  show ?thesis
    unfolding tkip_check_def RTMPInitMICEngine_def Let_def s trail f(1) q option.case prod.case
      tmic q' f(2) m cpu2le32_def t
    using cmp by simp
qed

lemma RTMPSoftDecryptTKIP_frame:
  assumes "tkip_key_ok k" and "tkip_hdr_ok h" and "length iv = 8"
    and "12 \<le> length c" and "length c + 8 < 65536"
    and p: "p = xor_bytes c (tkip_stream k h iv (length c))"
    and ok: "icv_ok \<longleftrightarrow> drop (length c - 4) p = store32 (crc32 (take (length c - 4) p))"
      "mic_ok \<longleftrightarrow> take 8 (drop (length c - 12) p) = tkip_mic k h prio (take (length c - 12) p)"
  shows "\<exists>rest. RTMPSoftDecryptTKIP Tx h prio k (iv @ c) (word_of_nat (length c + 8))
    = Some \<lparr>accepted = (icv_ok \<and> mic_ok), buffer = p @ rest,
        byte_cnt = word_of_nat (if icv_ok \<and> mic_ok then length c - 12 else length c + 8),
        mic_error = (icv_ok \<and> \<not> mic_ok)\<rparr>"
proof -
  let ?n = "length c" and ?d = "word_of_nat (length c + 8) :: u16"
  have d: "unat ?d = ?n + 8" using assms(5) by (simp add: unat_of_nat del: of_nat_add)
  then have s: "sub32 (unat ?d) 8 = ?n" using assms(5) by (simp add: sub32_le)
  have big: "\<not> ?d \<le> 8" using assms(4) d by (auto simp: word_le_nat_alt simp del: of_nat_add)
  have ta: "16 \<le> length (Key k) \<and> 6 \<le> length (take 6 (drop 10 h))"
    using assms(1) tkip_addr_length [OF assms(2)] by (auto simp: tkip_key_ok_def)
  have pn: "lo16 (push_bit 8 (ucast a) OR ucast b) = mk16 a b" for a b
    unfolding mk16_def by (rule word_eq_upt) (simp add: bit_simps upt_numeral)
  have "load32 (drop 4 (iv @ c)) = load32 (drop 4 iv)"
    using assms(3) by (simp add: load32_def nth_append)
  then obtain p1 where mix: "RTMPTkipMixKey (Key k) (take 6 (drop 10 h))
      (push_bit 8 (ucast ((iv @ c) ! 0)) OR ucast ((iv @ c) ! 2))
      (cpu2le32 (load32 (drop 4 (iv @ c)))) = Some (tkip_seed k h iv, p1)"
    using RTMPTkipMixKey_is_80211 [of "Key k" "take 6 (drop 10 h)"
        "push_bit 8 (ucast ((iv @ c) ! 0)) OR ucast ((iv @ c) ! 2)"
        "cpu2le32 (load32 (drop 4 (iv @ c)))"] ta assms(3)
    by (auto simp: pn tkip_seed_def cpu2le32_def nth_append)
  obtain ctx where init: "ARC4_INIT (tkip_seed k h iv) 16 = Some ctx"
    and ctx: "arc4_wf ctx" "arc4_abs ctx = rc4_setup (tkip_seed k h iv)"
    using ARC4_INIT_setup [of 16 "tkip_seed k h iv"] by auto
  have stream: "xor_bytes c (ARC4_stream ctx ?n) = p"
    by (simp add: p tkip_stream_def ARC4_stream_rc4 ctx)
  obtain c' rest where comp: "ARC4_Compute ctx (iv @ c) 8 ?n 0 = Some (c', p @ rest)"
    using arc4.compute_over_header [of c ?n iv 8 ctx] assms(3) stream by auto
  have lp: "length p = ?n" by (simp add: p)
  have "tkip_check Tx (tkip_da h) (tkip_sa h) prio k (p @ rest) ?n ?d
    = Some \<lparr>accepted = (icv_ok \<and> mic_ok), buffer = p @ rest,
        byte_cnt = (if icv_ok \<and> mic_ok then word_of_nat (?n - 12) else ?d),
        mic_error = (icv_ok \<and> \<not> mic_ok)\<rparr>"
    using tkip_check_frame [OF assms(1,2), of p icv_ok mic_ok prio Tx rest ?d] assms(4,5) ok lp
    by simp
  moreover have "\<not> KeyLen k = 0" "\<not> length h < 2" "\<not> length (iv @ c) < 8"
    using assms(1,3) tkip_addr_length [OF assms(2)] by (auto simp: tkip_key_ok_def)
  then have "RTMPSoftDecryptTKIP Tx h prio k (iv @ c) ?d
      = tkip_check Tx (tkip_da h) (tkip_sa h) prio k (p @ rest) ?n ?d"
    unfolding RTMPSoftDecryptTKIP_def Let_def tkip_addresses_hdr [OF assms(2)]
    by (simp only: option.case prod.case mix s big init comp if_False)
  ultimately show ?thesis by (auto split: if_splits)
qed

section \<open>The group key\<close>

lemma ARC4_stream_drop:
  "ARC4_stream (ARC4_Discard_KeyLength ctx m) n = drop m (ARC4_stream ctx (m + n))"
  by (simp add: ARC4_stream_append)

lemma TKIP_GTK_KEY_WRAP_rc4:
  assumes "16 \<le> length key" and "16 \<le> length iv" and "n \<le> length inp" and "n \<le> length out"
  shows "TKIP_GTK_KEY_WRAP key iv inp n out
    = Some (xor_bytes (take n inp)
        (drop 256 (rc4_stream (rc4_setup (take 16 iv @ take 16 key)) (256 + n))) @ drop n out)"
proof -
  let ?k = "take 16 iv @ take 16 key"
  have lk: "length ?k = 32" using assms(1,2) by simp
  obtain ctx where init: "ARC4_INIT ?k 32 = Some ctx"
    and ctx: "arc4_wf ctx" "arc4_abs ctx = rc4_setup ?k"
    using ARC4_INIT_setup [of 32 ?k] lk by auto
  have mv: "move_mem 0 16 iv (replicate 32 0) = Some (take 16 iv @ replicate 16 0)"
    "move_mem 16 16 key (take 16 iv @ replicate 16 0) = Some ?k"
    using assms(1,2) by (simp_all add: move_mem_def)
  have "take (length out) (xor_bytes (take n inp) (ARC4_stream (ARC4_Discard_KeyLength ctx 256) n)
      @ drop n (out @ inp)) = xor_bytes (take n inp) (ARC4_stream (ARC4_Discard_KeyLength ctx 256) n)
      @ drop n out"
    using assms(3,4) by simp
  then show ?thesis
    using assms(3,4)
      ARC4_Compute_stream [of 0 "length out" n "out @ inp" "ARC4_Discard_KeyLength ctx 256"]
    by (simp add: TKIP_GTK_KEY_WRAP_def mv init ARC4_stream_drop ARC4_stream_rc4 ctx Let_def)
qed

section \<open>Properties\<close>

text \<open>C17: \<open>RTMPSoftDecryptTKIP\<close> accepts what the standard's encapsulation makes of a payload: the
  payload, its Michael code and the CRC of both, encrypted with the RC4 stream of the mixed
  key. It leaves the payload over the IV header, reports its length and no MIC failure. This
  holds for every direction of the frame, every packet number and whatever the MIC engine did
  before.\<close>

theorem RTMPSoftDecryptTKIP_round_trip:
  assumes "tkip_key_ok k" and "tkip_hdr_ok h" and "length iv = 8" and "length m + 20 < 65536"
    and "x = m @ tkip_mic k h prio m"
    and "c = xor_bytes (x @ store32 (crc32 x)) (tkip_stream k h iv (length m + 12))"
  shows "\<exists>rest. RTMPSoftDecryptTKIP Tx h prio k (iv @ c) (word_of_nat (length m + 20))
    = Some \<lparr>accepted = True, buffer = m @ rest, byte_cnt = word_of_nat (length m), mic_error = False\<rparr>"
proof -
  let ?y = "x @ store32 (crc32 x)"
  have lc: "length c = length m + 12" by (simp add: assms(5,6))
  then have y: "?y = xor_bytes c (tkip_stream k h iv (length c))"
    by (simp add: assms(5,6) xor_bytes_cancel)
  have "drop (length c - 4) ?y = store32 (crc32 (take (length c - 4) ?y))"
    and "take 8 (drop (length c - 12) ?y) = tkip_mic k h prio (take (length c - 12) ?y)"
    by (simp_all add: lc assms(5))
  with RTMPSoftDecryptTKIP_frame [OF assms(1-3) _ _ y, where icv_ok = True and mic_ok = True]
    lc assms(4)
  obtain rest where "RTMPSoftDecryptTKIP Tx h prio k (iv @ c) (word_of_nat (length c + 8))
      = Some \<lparr>accepted = True, buffer = ?y @ rest, byte_cnt = word_of_nat (length c - 12),
          mic_error = False\<rparr>" by auto
  then show ?thesis by (simp add: lc assms(5) add.assoc)
qed

theorem RTMPSoftDecryptTKIP_round_trip_witness:
  "\<exists>rest. RTMPSoftDecryptTKIP \<lparr>nBytesInM = 0, IV16 = 0, IV32 = 0, MicK0 = 0, MicK1 = 0, MicL = 0,
        MicR = 0, MicM = 0, RC4KEY = [], MIC = []\<rparr>
      (replicate 24 0) 5
      \<lparr>Key = replicate 16 7, TxMic = replicate 8 1, RxMic = replicate 8 2, TxTsc = [], RxTsc = [],
        CipherAlg = 3, KeyLen = 16, BssId = [], KeyType = 0\<rparr>
      ([0, 0x20, 1, 0x20, 0, 0, 0, 0] @
        xor_bytes (([9, 8] @ tkip_mic \<lparr>Key = replicate 16 7, TxMic = replicate 8 1,
          RxMic = replicate 8 2, TxTsc = [], RxTsc = [], CipherAlg = 3, KeyLen = 16, BssId = [],
          KeyType = 0\<rparr> (replicate 24 0) 5 [9, 8]) @ store32 (crc32 ([9, 8] @ tkip_mic
          \<lparr>Key = replicate 16 7, TxMic = replicate 8 1, RxMic = replicate 8 2, TxTsc = [], RxTsc = [],
          CipherAlg = 3, KeyLen = 16, BssId = [], KeyType = 0\<rparr> (replicate 24 0) 5 [9, 8])))
        (tkip_stream \<lparr>Key = replicate 16 7, TxMic = replicate 8 1, RxMic = replicate 8 2, TxTsc = [],
          RxTsc = [], CipherAlg = 3, KeyLen = 16, BssId = [], KeyType = 0\<rparr> (replicate 24 0)
          [0, 0x20, 1, 0x20, 0, 0, 0, 0] (length [9, 8 :: u8] + 12)))
      (word_of_nat (length [9, 8 :: u8] + 20))
    = Some \<lparr>accepted = True, buffer = [9, 8] @ rest, byte_cnt = word_of_nat (length [9, 8 :: u8]),
        mic_error = False\<rparr>"
  by (rule RTMPSoftDecryptTKIP_round_trip [OF _ _ _ _ refl refl])
    (simp_all add: tkip_key_ok_def tkip_hdr_ok_def)

text \<open>C16: No frame passes unchecked. For every received frame with room for MIC and ICV,
  \<open>RTMPSoftDecryptTKIP\<close> accepts exactly when the decrypted ICV is the CRC of what precedes it
  and the decrypted MIC is the Michael code of the payload under the receive MIC key and the
  addresses of the header; it reports a MIC failure exactly when the ICV is right and the MIC
  is not; and a refused frame keeps its length.\<close>

theorem RTMPSoftDecryptTKIP_accepts_iff:
  assumes "tkip_key_ok k" and "tkip_hdr_ok h" and "length iv = 8"
    and "12 \<le> length c" and "length c + 8 < 65536"
    and "p = xor_bytes c (tkip_stream k h iv (length c))"
  shows "\<exists>r. RTMPSoftDecryptTKIP Tx h prio k (iv @ c) (word_of_nat (length c + 8)) = Some r
    \<and> (accepted r \<longleftrightarrow> drop (length c - 4) p = store32 (crc32 (take (length c - 4) p))
        \<and> take 8 (drop (length c - 12) p) = tkip_mic k h prio (take (length c - 12) p))
    \<and> (mic_error r \<longleftrightarrow> drop (length c - 4) p = store32 (crc32 (take (length c - 4) p))
        \<and> take 8 (drop (length c - 12) p) \<noteq> tkip_mic k h prio (take (length c - 12) p))
    \<and> byte_cnt r = word_of_nat (if accepted r then length c - 12 else length c + 8)"
  using RTMPSoftDecryptTKIP_frame [OF assms refl refl, of Tx prio] by auto

theorem RTMPSoftDecryptTKIP_accepts_iff_witness:
  "\<exists>r. RTMPSoftDecryptTKIP \<lparr>nBytesInM = 0, IV16 = 0, IV32 = 0, MicK0 = 0, MicK1 = 0, MicL = 0,
        MicR = 0, MicM = 0, RC4KEY = [], MIC = []\<rparr>
      (replicate 24 0) 5
      \<lparr>Key = replicate 16 7, TxMic = replicate 8 1, RxMic = replicate 8 2, TxTsc = [], RxTsc = [],
        CipherAlg = 3, KeyLen = 16, BssId = [], KeyType = 0\<rparr>
      ([0, 0x20, 1, 0x20, 0, 0, 0, 0] @ replicate 12 3) (word_of_nat (length (replicate 12 (3 :: u8)) + 8))
      = Some r
    \<and> byte_cnt r = word_of_nat (if accepted r then length (replicate 12 (3 :: u8)) - 12
        else length (replicate 12 (3 :: u8)) + 8)"
proof -
  let ?k = "\<lparr>Key = replicate 16 7, TxMic = replicate 8 1, RxMic = replicate 8 2, TxTsc = [], RxTsc = [],
        CipherAlg = 3, KeyLen = 16, BssId = [], KeyType = 0\<rparr>"
  have "tkip_key_ok ?k" "tkip_hdr_ok (replicate 24 0)"
    "length [0, 0x20, 1, 0x20, 0, 0, 0, 0 :: u8] = 8"
    by (simp_all add: tkip_key_ok_def tkip_hdr_ok_def)
  moreover have "12 \<le> length (replicate 12 (3 :: u8))" "length (replicate 12 (3 :: u8)) + 8 < 65536"
    by simp_all
  ultimately show ?thesis
    using RTMPSoftDecryptTKIP_accepts_iff [of ?k "replicate 24 0" "[0, 0x20, 1, 0x20, 0, 0, 0, 0]"
      "replicate 12 3" _
      "\<lparr>nBytesInM = 0, IV16 = 0, IV32 = 0, MicK0 = 0, MicK1 = 0, MicL = 0,
        MicR = 0, MicM = 0, RC4KEY = [], MIC = []\<rparr>" 5, OF _ _ _ _ _ refl] by blast
qed

text \<open>For a frame of nine to eleven bytes, which passes the length guard, the code subtracts the
  ICV from a shorter text: the 32-bit length wraps to nearly 4 GB and the check value is read
  from far outside the frame, whatever the frame holds.\<close>

theorem RTMPSoftDecryptTKIP_short_frame:
  assumes "tkip_key_ok k" and "tkip_hdr_ok h" and "8 < n" and "n < 12" and "length pData < 65536"
  shows "RTMPSoftDecryptTKIP Tx h prio k pData (word_of_nat n) = None"
proof -
  have n: "unat (word_of_nat n :: u16) = n" using assms(4) by (simp add: unat_of_nat)
  have w: "4294967292 \<le> sub32 (sub32 n 8) 4"
  proof -
    consider "n = 9" | "n = 10" | "n = 11" using assms(3,4) by linarith
    then show ?thesis by cases (simp_all add: sub32_def)
  qed
  have "tkip_check Tx DA SA prio k d (sub32 n 8) cnt = None" if "length d < 65536" for DA SA d cnt
    using that w by (simp add: tkip_check_def move_mem_def Let_def)
  moreover have "length d < 65536" if "ARC4_Compute ctx pData 8 j 0 = Some (c', d)" for ctx j c' d
  proof -
    have "length d = length mem" if "ARC4_Compute ctx mem i j o' = Some (c', d)" for mem i o'
      using that by (induction ctx mem i j o' rule: ARC4_Compute.induct)
        (auto split: prod.splits if_splits)
    with that assms(5) show ?thesis by simp
  qed
  ultimately show ?thesis
    using assms(1) tkip_addr_length [OF assms(2)] n assms(3)
    by (auto simp: RTMPSoftDecryptTKIP_def Let_def tkip_addresses_hdr [OF assms(2)] tkip_key_ok_def
        word_le_nat_alt split: option.splits)
qed

theorem RTMPSoftDecryptTKIP_short_frame_witness:
  "RTMPSoftDecryptTKIP \<lparr>nBytesInM = 0, IV16 = 0, IV32 = 0, MicK0 = 0, MicK1 = 0, MicL = 0,
        MicR = 0, MicM = 0, RC4KEY = [], MIC = []\<rparr>
      (replicate 24 0) 5
      \<lparr>Key = replicate 16 7, TxMic = replicate 8 1, RxMic = replicate 8 2, TxTsc = [], RxTsc = [],
        CipherAlg = 3, KeyLen = 16, BssId = [], KeyType = 0\<rparr>
      (replicate 2000 0) (word_of_nat 10) = None"
  by (rule RTMPSoftDecryptTKIP_short_frame) (simp_all add: tkip_key_ok_def tkip_hdr_ok_def)

text \<open>\<open>TKIP_GTK_KEY_WRAP\<close> encrypts with the RC4 stream of IV and key from its 257th byte on,
  touches only the given number of output bytes, and \<open>TKIP_GTK_KEY_UNWRAP\<close> with the same IV and
  key recovers the text.\<close>

theorem TKIP_GTK_round_trip:
  assumes "16 \<le> length key" and "16 \<le> length iv" and "n \<le> length inp"
    and "n \<le> length out" and "n \<le> length out'"
  shows "\<exists>c. TKIP_GTK_KEY_WRAP key iv inp n out = Some (c @ drop n out)
    \<and> c = xor_bytes (take n inp)
        (drop 256 (rc4_stream (rc4_setup (take 16 iv @ take 16 key)) (256 + n)))
    \<and> TKIP_GTK_KEY_UNWRAP key iv (c @ drop n out) n out' = Some (take n inp @ drop n out')"
proof (intro exI conjI)
  let ?s = "drop 256 (rc4_stream (rc4_setup (take 16 iv @ take 16 key)) (256 + n))"
  let ?c = "xor_bytes (take n inp) ?s"
  have ls: "length ?s = n" by (simp add: length_rc4_stream)
  then have lc: "length ?c = n" using assms(3) by simp
  show "?c = ?c" by (rule refl)
  show "TKIP_GTK_KEY_WRAP key iv inp n out = Some (?c @ drop n out)"
    by (rule TKIP_GTK_KEY_WRAP_rc4) (use assms in simp_all)
  have "n \<le> length (?c @ drop n out)" using lc assms(4) by simp
  from TKIP_GTK_KEY_WRAP_rc4 [OF assms(1,2) this assms(5)]
  have "TKIP_GTK_KEY_UNWRAP key iv (?c @ drop n out) n out'
      = Some (xor_bytes ?c ?s @ drop n out')"
    unfolding TKIP_GTK_KEY_UNWRAP_def by (simp only: take_append lc) (simp add: lc)
  moreover have "xor_bytes ?c ?s = take n inp"
    by (rule xor_bytes_cancel) (use ls assms(3) in simp)
  ultimately show "TKIP_GTK_KEY_UNWRAP key iv (?c @ drop n out) n out' = Some (take n inp @ drop n out')"
    by simp
qed

theorem TKIP_GTK_round_trip_witness:
  "\<exists>c. TKIP_GTK_KEY_WRAP (replicate 16 1) (replicate 16 2) [3, 4, 5] 2 (replicate 4 0)
      = Some (c @ drop 2 (replicate 4 0))
    \<and> TKIP_GTK_KEY_UNWRAP (replicate 16 1) (replicate 16 2) (c @ drop 2 (replicate 4 0)) 2 [0, 0]
      = Some (take 2 [3, 4, 5] @ drop 2 [0, 0])"
  using TKIP_GTK_round_trip [of "replicate 16 1" "replicate 16 2" 2 "[3, 4, 5]" "replicate 4 0" "[0, 0]"]
  by (simp only: length_replicate list.size) auto

end
