(* ===== verification/Aes_Cmac.thy ===== *)
theory Aes_Cmac
  imports Aes_Cbc
begin

text \<open>
  \<open>AES_CMAC_GenerateSubKey\<close> and \<open>AES_CMAC\<close> of \<open>rt5572/common/crypt_aes.c\<close>, the integrity code of
  EAPOL key frames under 802.11w. The reference is RFC 4493, whose sub-keys are shifts of a
  128-bit number.
\<close>

section \<open>The operations\<close>

definition Const_Zero :: bytes where
  "Const_Zero = [0x00, 0x00, 0x00, 0x00, 0x00, 0x00, 0x00, 0x00,
     0x00, 0x00, 0x00, 0x00, 0x00, 0x00, 0x00, 0x00]"

definition Const_Rb :: bytes where
  "Const_Rb = [0x00, 0x00, 0x00, 0x00, 0x00, 0x00, 0x00, 0x00,
     0x00, 0x00, 0x00, 0x00, 0x00, 0x00, 0x00, 0x87]"

definition Top_Bit :: "u8 \<Rightarrow> u8" where
  "Top_Bit x = (if x AND 0x80 \<noteq> 0 then 1 else 0)"

text \<open>
  The loops that shift by one bit: in place, and from \<open>SubKey1\<close> to \<open>SubKey2\<close>; then the constant
  is combined when the top bit \<open>MSB\<close> was set.
\<close>

definition shift_in_place :: "bytes \<Rightarrow> bytes" where
  "shift_in_place SubKey1 =
     (let K = foldl (\<lambda>K Index. K[Index := push_bit 1 (K ! Index) OR Top_Bit (K ! (Index + 1))])
            SubKey1 [0..<15]
      in K[15 := push_bit 1 (K ! 15)])"

definition shift_into :: "bytes \<Rightarrow> bytes \<Rightarrow> bytes" where
  "shift_into SubKey1 SubKey2 =
     (let K = foldl (\<lambda>K Index. K[Index := push_bit 1 (SubKey1 ! Index) OR Top_Bit (SubKey1 ! (Index + 1))])
            SubKey2 [0..<15]
      in K[15 := push_bit 1 (SubKey1 ! 15)])"

definition xor_Rb :: "u8 \<Rightarrow> bytes \<Rightarrow> bytes" where
  "xor_Rb MSB K = (if MSB > 0 then xor_bytes K Const_Rb else K)"

definition AES_CMAC_GenerateSubKey ::
  "bytes \<Rightarrow> nat \<Rightarrow> bytes \<Rightarrow> bytes \<Rightarrow> (bytes \<times> bytes) option" where
  "AES_CMAC_GenerateSubKey Key KeyLength SubKey1 SubKey2 =
     (if KeyLength \<noteq> 16 then Some (SubKey1, SubKey2)
      else
        (case RT_AES_Encrypt Const_Zero 16 Key KeyLength SubKey1 16 of
           None \<Rightarrow> None
         | Some (SubKey1, _) \<Rightarrow>
             if length SubKey2 < 16 then None
             else
               let MSB_L = SubKey1 ! 0 AND 0x80;
                   SubKey1 = xor_Rb MSB_L (shift_in_place SubKey1);
                   MSB_K1 = SubKey1 ! 0 AND 0x80;
                   SubKey2 = xor_Rb MSB_K1 (shift_into SubKey1 SubKey2)
               in Some (SubKey1, SubKey2)))"

text \<open>The loop over all blocks but the last.\<close>

function cmac_loop :: "bytes \<Rightarrow> nat \<Rightarrow> bytes \<Rightarrow> nat \<Rightarrow> nat \<times> bytes \<Rightarrow> (nat \<times> bytes) option" where
  "cmac_loop PlainText PlainTextLength Key KeyLength (PlainBlockStart, X) =
     (if PlainTextLength - PlainBlockStart > 16 then
        let Y = xor_bytes (take 16 (drop PlainBlockStart PlainText)) X in
        (case RT_AES_Encrypt Y 16 Key KeyLength X 16 of
           None \<Rightarrow> None
         | Some (X, _) \<Rightarrow>
             cmac_loop PlainText PlainTextLength Key KeyLength (PlainBlockStart + 16, X))
      else Some (PlainBlockStart, X))"
  by pat_completeness auto
termination by (relation "measure (\<lambda>(p, n, k, kl, s, x). n - s)") auto

declare cmac_loop.simps [simp del]

definition AES_CMAC ::
  "bytes \<Rightarrow> nat \<Rightarrow> bytes \<Rightarrow> nat \<Rightarrow> bytes \<Rightarrow> nat \<Rightarrow> (bytes \<times> nat) option" where
  "AES_CMAC PlainText PlainTextLength Key KeyLength MACText MACTextLength =
     (if MACTextLength < 16 then Some (MACText, MACTextLength)
      else if KeyLength \<noteq> 16 then Some (MACText, MACTextLength)
      else
        (case AES_CMAC_GenerateSubKey Key KeyLength (replicate 16 0) (replicate 16 0) of
           None \<Rightarrow> None
         | Some (SubKey1, SubKey2) \<Rightarrow>
             (case cmac_loop PlainText PlainTextLength Key KeyLength (0, Const_Zero) of
                None \<Rightarrow> None
              | Some (PlainBlockStart, X) \<Rightarrow>
                  let remain = PlainTextLength - PlainBlockStart in
                  if length PlainText < PlainTextLength then None
                  else
                    let Y = (if remain = 16
                             then xor_bytes (xor_bytes (take 16 (drop PlainBlockStart PlainText)) X) SubKey1
                             else
                               let Y = take remain (drop PlainBlockStart PlainText)
                                     @ replicate (16 - remain) 0;
                                   Y = Y[remain := 0x80]
                               in xor_bytes (xor_bytes Y X) SubKey2)
                    in RT_AES_Encrypt Y 16 Key KeyLength MACText MACTextLength)))"

section \<open>The code of RFC 4493\<close>

definition be128 :: "bytes \<Rightarrow> 128 word" where
  "be128 b = foldl (\<lambda>w x. push_bit 8 w OR ucast x) 0 b"

definition cmac_double :: "128 word \<Rightarrow> 128 word" where
  "cmac_double L = (if bit L 127 then push_bit 1 L XOR 0x87 else push_bit 1 L)"

definition put_be128 :: "128 word \<Rightarrow> bytes" where
  "put_be128 w = map (\<lambda>i. ucast (drop_bit (8 * (15 - i)) w)) [0..<16]"

definition cmac_K1 :: "(bytes \<Rightarrow> bytes) \<Rightarrow> bytes" where
  "cmac_K1 E = put_be128 (cmac_double (be128 (E (replicate 16 0))))"

definition cmac_K2 :: "(bytes \<Rightarrow> bytes) \<Rightarrow> bytes" where
  "cmac_K2 E = put_be128 (cmac_double (be128 (cmac_K1 E)))"

text \<open>The message is cut into \<open>n\<close> blocks, one for the empty message; the last one is \<open>M\<close>.\<close>

definition cmac :: "(bytes \<Rightarrow> bytes) \<Rightarrow> bytes \<Rightarrow> bytes" where
  "cmac E msg =
     (let n = (if msg = [] then 1 else (length msg + 15) div 16);
          M = drop (16 * (n - 1)) msg;
          last_block = (if length M = 16 then xor_bytes M (cmac_K1 E)
                        else xor_bytes (M @ 0x80 # replicate (15 - length M) 0) (cmac_K2 E));
          x = foldl (\<lambda>x b. E (xor_bytes x b)) (replicate 16 0) (blocks 16 (take (16 * (n - 1)) msg))
      in E (xor_bytes last_block x))"

section \<open>The sub-keys\<close>

lemma be128_snoc: "be128 (b @ [x]) = push_bit 8 (be128 b) OR ucast x"
  by (simp add: be128_def)

lemma bit_be128:
  "n < 8 * length b \<Longrightarrow> n < 128 \<Longrightarrow> bit (be128 b) n = bit (rev b ! (n div 8)) (n mod 8)"
proof (induction b arbitrary: n rule: rev_induct)
  case Nil
  then show ?case by simp
next
  case (snoc x b)
  show ?case
  proof (cases "n < 8")
    case True
    then show ?thesis by (simp add: be128_snoc bit_simps)
  next
    case False
    then have "n div 8 = Suc ((n - 8) div 8)" "n mod 8 = (n - 8) mod 8" by (simp_all add: le_div_geq le_mod_geq)
    then show ?thesis using False snoc by (simp add: be128_snoc bit_simps u8_bit_beyond)
  qed
qed

text \<open>The bit of weight \<open>n\<close> of a block.\<close>

lemma bit_be128_16:
  "length b = 16 \<Longrightarrow> n < 128 \<Longrightarrow> bit (be128 b) n = bit (b ! (15 - n div 8)) (n mod 8)"
  by (simp add: bit_be128 rev_nth)

lemma be128_eqI:
  assumes "length b = 16"
    and "\<And>i k. i < 16 \<Longrightarrow> k < 8 \<Longrightarrow> bit (b ! i) k = bit w (8 * (15 - i) + k)"
  shows "be128 b = w"
proof (rule bit_word_eqI)
  fix n
  assume "n < LENGTH(128)"
  then have n: "n < 128" by simp
  have "n div 8 < 16" using n by auto
  then have "8 * (15 - (15 - n div 8)) + n mod 8 = n" by simp
  then show "bit (be128 b) n = bit w n"
    using assms(2) [of "15 - n div 8" "n mod 8"] bit_be128_16 [OF assms(1) n] by simp
qed

lemma be128_bit_at:
  "length b = 16 \<Longrightarrow> i < 16 \<Longrightarrow> k < 8 \<Longrightarrow> bit (be128 b) (8 * (15 - i) + k) = bit (b ! i) k"
  by (simp add: bit_be128_16)

lemma put_be128_be128:
  assumes "length b = 16"
  shows "put_be128 (be128 b) = b"
proof (rule nth_equalityI)
  show "length (put_be128 (be128 b)) = length b" using assms by (simp add: put_be128_def)
  fix i
  assume "i < length (put_be128 (be128 b))"
  then have i: "i < 16" by (simp add: put_be128_def)
  show "put_be128 (be128 b) ! i = b ! i"
  proof (rule bit_word_eqI)
    fix k
    assume "k < LENGTH(8)"
    then have k: "k < 8" by simp
    have "bit (be128 b) (8 * (15 - i) + k) = bit (b ! i) k" by (rule be128_bit_at [OF assms i k])
    then show "bit (put_be128 (be128 b) ! i) k = bit (b ! i) k"
      using i k by (simp add: put_be128_def bit_simps del: upt_Suc)
  qed
qed

lemma put_be128_eq: "length b = 16 \<Longrightarrow> be128 b = w \<Longrightarrow> b = put_be128 w"
  using put_be128_be128 [of b] by simp

definition shifted :: "bytes \<Rightarrow> nat \<Rightarrow> u8" where
  "shifted K i = push_bit 1 (K ! i) OR (if i < 15 then Top_Bit (K ! (i + 1)) else 0)"

lemma length_foldl_update [simp]: "length (foldl (\<lambda>K i. K[i := g K i]) K is) = length K"
  by (induction "is" arbitrary: K) simp_all

lemma shift_in_place_eq:
  assumes "length K = 16"
  shows "shift_in_place K = map (shifted K) [0..<16]"
proof -
  let ?f = "\<lambda>K i. K[i := push_bit 1 (K ! i) OR Top_Bit (K ! (i + 1))]"
  have "foldl ?f K [0..<m] = map (shifted K) [0..<m] @ drop m K" if "m \<le> 15" for m
    using that
  proof (induction m)
    case 0
    then show ?case by simp
  next
    case (Suc m)
    have "drop m K = K ! m # drop (Suc m) K" using Suc.prems assms by (simp add: Cons_nth_drop_Suc)
    moreover have "drop (Suc m) K ! 0 = K ! Suc m" using Suc.prems assms by simp
    ultimately show ?case
      using Suc assms by (simp add: list_update_append nth_append shifted_def)
  qed
  from this [of 15] have "foldl ?f K [0..<15] = map (shifted K) [0..<15] @ [K ! 15]"
    using assms Cons_nth_drop_Suc [of 15 K] by simp
  moreover have "[0..<16] = [0..<15] @ [15]" by (simp add: upt_rec)
  ultimately show ?thesis
    unfolding shift_in_place_def Let_def by (simp add: list_update_append nth_append shifted_def del: upt_Suc)
qed

lemma shift_into_eq:
  assumes "length K2 = 16"
  shows "shift_into K K2 = map (shifted K) [0..<16]"
proof -
  let ?f = "\<lambda>K' i. K'[i := push_bit 1 (K ! i) OR Top_Bit (K ! (i + 1))]"
  have "foldl ?f K2 [0..<m] = map (shifted K) [0..<m] @ drop m K2" if "m \<le> 15" for m
    using that
  proof (induction m)
    case 0
    then show ?case by simp
  next
    case (Suc m)
    then have "drop m K2 = K2 ! m # drop (Suc m) K2" using assms by (simp add: Cons_nth_drop_Suc)
    then show ?case using Suc assms by (simp add: list_update_append shifted_def)
  qed
  from this [of 15] have "foldl ?f K2 [0..<15] = map (shifted K) [0..<15] @ [K2 ! 15]"
    using assms Cons_nth_drop_Suc [of 15 K2] by simp
  moreover have "[0..<16] = [0..<15] @ [15]" by (simp add: upt_rec)
  ultimately show ?thesis
    unfolding shift_into_def Let_def by (simp add: list_update_append nth_append shifted_def del: upt_Suc)
qed

lemma top_bit_iff: "x AND 0x80 \<noteq> 0 \<longleftrightarrow> bit (x :: u8) 7"
  using and_exp_eq_0_iff_not_bit [of x 7] by simp

lemma be128_shifted:
  assumes "length K = 16"
  shows "be128 (map (shifted K) [0..<16]) = push_bit 1 (be128 K)"
proof (rule be128_eqI)
  show "length (map (shifted K) [0..<16]) = 16" by simp
  fix i k :: nat
  assume i: "i < 16" and k: "k < 8"
  let ?n = "8 * (15 - i) + k"
  have n: "?n < 128" using i k by simp
  have "bit (shifted K i) k = bit (push_bit 1 (be128 K)) ?n"
  proof (cases k)
    case (Suc j)
    have "bit (Top_Bit x) k = False" for x using Suc by (simp add: Top_Bit_def bit_simps)
    then have "bit (shifted K i) k = bit (K ! i) j"
      unfolding shifted_def bit_or_iff bit_push_bit_iff using k Suc by (simp add: bit_simps)
    moreover have "?n - 1 = 8 * (15 - i) + j" using Suc by simp
    ultimately show ?thesis
      unfolding bit_push_bit_iff using n be128_bit_at [OF assms i, of j] Suc k by simp
  next
    case 0
    show ?thesis
    proof (cases "i = 15")
      case True
      then show ?thesis unfolding shifted_def bit_or_iff bit_push_bit_iff using 0 by simp
    next
      case False
      then have i': "i + 1 < 16" "?n - 1 = 8 * (15 - (i + 1)) + 7" "1 \<le> ?n" using i 0 by simp_all
      have "bit (shifted K i) k = bit (K ! (i + 1)) 7"
        unfolding shifted_def bit_or_iff bit_push_bit_iff
        using False i 0 top_bit_iff by (simp add: Top_Bit_def)
      also have "\<dots> = bit (be128 K) (?n - 1)"
        unfolding i'(2) by (rule be128_bit_at [OF assms i'(1), symmetric]) simp
      finally show ?thesis unfolding bit_push_bit_iff using n i'(3) by simp
    qed
  qed
  then show "bit (map (shifted K) [0..<16] ! i) k = bit (push_bit 1 (be128 K)) ?n"
    using i by simp
qed

lemma be128_xor:
  assumes "length a = 16" and "length b = 16"
  shows "be128 (xor_bytes a b) = be128 a XOR be128 b"
  by (rule be128_eqI) (simp_all add: assms bit_simps be128_bit_at)

lemma be128_Rb: "be128 Const_Rb = 0x87"
  by (simp add: be128_def Const_Rb_def)

lemma be128_double:
  assumes "length K = 16"
  shows "be128 (xor_Rb (K ! 0 AND 0x80) (map (shifted K) [0..<16])) = cmac_double (be128 K)"
proof -
  have "bit (be128 K) 127 = bit (K ! 0) 7" using be128_bit_at [OF assms, of 0 7] by simp
  then have "(K ! 0 AND 0x80 > 0) = bit (be128 K) 127" using top_bit_iff by (simp add: word_gt_0)
  moreover have "length Const_Rb = 16" by (simp add: Const_Rb_def)
  ultimately show ?thesis
    using be128_xor [of "map (shifted K) [0..<16]" Const_Rb]
    by (simp add: xor_Rb_def cmac_double_def be128_shifted [OF assms] be128_Rb)
qed

lemma length_xor_Rb: "length K = 16 \<Longrightarrow> length (xor_Rb m K) = 16"
  by (simp add: xor_Rb_def Const_Rb_def)

lemma AES_CMAC_GenerateSubKey_eq:
  assumes "16 \<le> length Key" and "length S1 = 16" and "length S2 = 16"
  shows "AES_CMAC_GenerateSubKey Key 16 S1 S2
    = Some (cmac_K1 (AES_enc_block Key 16), cmac_K2 (AES_enc_block Key 16))"
proof -
  let ?L = "AES_enc_block Key 16 (replicate 16 0)"
  let ?K1 = "xor_Rb (?L ! 0 AND 0x80) (map (shifted ?L) [0..<16])"
  let ?K2 = "xor_Rb (?K1 ! 0 AND 0x80) (map (shifted ?K1) [0..<16])"
  have z: "Const_Zero = replicate 16 0" by (simp add: Const_Zero_def numeral_eq_Suc)
  have L: "length ?L = 16" by simp
  have K1: "length ?K1 = 16" by (rule length_xor_Rb) simp
  have K2: "length ?K2 = 16" by (rule length_xor_Rb) simp
  have "RT_AES_Encrypt Const_Zero 16 Key 16 S1 16 = Some (?L, 16)"
    using RT_AES_Encrypt_block [of 16 Key "replicate 16 0" S1 16] assms
    by (simp add: z aes_key_length_def)
  then have "AES_CMAC_GenerateSubKey Key 16 S1 S2 = Some (?K1, ?K2)"
    using assms(3)
    by (simp add: AES_CMAC_GenerateSubKey_def Let_def shift_in_place_eq [OF L] shift_into_eq del: upt_Suc)
  moreover have k1: "?K1 = cmac_K1 (AES_enc_block Key 16)"
    unfolding cmac_K1_def by (rule put_be128_eq [OF K1 be128_double [OF L]])
  moreover have "?K2 = cmac_K2 (AES_enc_block Key 16)"
    unfolding cmac_K2_def k1 [symmetric] by (rule put_be128_eq [OF K2 be128_double [OF K1]])
  ultimately show ?thesis by simp
qed

lemma length_cmac_K [simp, buf_len]: "length (cmac_K1 E) = 16" "length (cmac_K2 E) = 16"
  by (simp_all add: cmac_K1_def cmac_K2_def put_be128_def)

section \<open>The chain of blocks\<close>

lemma cmac_loop_run:
  assumes "16 \<le> length Key" and "\<forall>b \<in> set bs. length b = 16" and "drop s m = concat bs @ rest"
    and "n = s + 16 * length bs + r" and "r \<le> 16" and "bs = [] \<or> 0 < r" and "length x = 16"
  shows "cmac_loop m n Key 16 (s, x)
    = Some (s + 16 * length bs, foldl (\<lambda>x b. AES_enc_block Key 16 (xor_bytes x b)) x bs)"
  using assms(2-7)
proof (induction bs arbitrary: s x)
  case Nil
  then show ?case by (simp add: cmac_loop.simps)
next
  case (Cons b bs)
  let ?x = "AES_enc_block Key 16 (xor_bytes x b)"
  have b: "length b = 16" "take 16 (drop s m) = b" using Cons.prems(1,2) by simp_all
  have "RT_AES_Encrypt (xor_bytes b x) 16 Key 16 x 16 = Some (?x, 16)"
    using RT_AES_Encrypt_block [of 16 Key "xor_bytes b x" x 16] assms(1) b(1) Cons.prems(6)
    by (simp add: aes_key_length_def xor_bytes_commute)
  then have step: "cmac_loop m n Key 16 (s, x) = cmac_loop m n Key 16 (s + 16, ?x)"
    using Cons.prems(3,5) by (subst cmac_loop.simps) (simp add: Let_def b(2))
  have "drop (s + 16) m = drop 16 (drop s m)" by (simp add: add.commute)
  then have d: "drop (s + 16) m = concat bs @ rest" using Cons.prems(2) b(1) by simp
  have "cmac_loop m n Key 16 (s + 16, ?x)
      = Some ((s + 16) + 16 * length bs, foldl (\<lambda>x b. AES_enc_block Key 16 (xor_bytes x b)) ?x bs)"
    by (rule Cons.IH [OF _ d]) (use Cons.prems in simp_all)
  then show ?case using step by simp
qed

text \<open>The message without its last block, and the last block.\<close>

lemma cmac_split:
  obtains bs M where "m = concat bs @ M" "\<forall>b \<in> set bs. length b = 16" "length M \<le> 16"
    "bs = [] \<or> 0 < length M" "length m = 16 * length bs + length M"
    "blocks 16 (take (16 * length bs) m) = bs" "drop (16 * length bs) m = M"
    "(if m = [] then 1 else (length m + 15) div 16) = length bs + 1"
proof (cases "length m")
  case 0
  then show ?thesis by (intro that [of "[]" "[]"]) (simp_all add: blocks_short)
next
  case (Suc k)
  let ?q = "k div 16"
  let ?u = "take (16 * ?q) m" and ?M = "drop (16 * ?q) m"
  have len: "length m = 16 * ?q + (k mod 16 + 1)" using Suc by simp
  then have ul: "length ?u = ?q * 16" and M: "length ?M = k mod 16 + 1"
    unfolding length_take length_drop by linarith+
  have "m \<noteq> []" using Suc by auto
  then have n: "(if m = [] then 1 else (length m + 15) div 16) = ?q + 1" using Suc by simp
  have cat: "concat (blocks 16 ?u) = ?u" using ul by (intro concat_blocks) simp_all
  have all: "\<forall>b \<in> set (blocks 16 ?u). length b = 16" by (auto dest: length_blocks_elem)
  then have "length (concat (blocks 16 ?u)) = 16 * length (blocks 16 ?u)" by (rule length_concat_blocks)
  then have q: "length (blocks 16 ?u) = ?q" using cat ul by simp
  have k16: "k mod 16 < 16" by simp
  show ?thesis
  proof (rule that [of "blocks 16 ?u" ?M])
    show "m = concat (blocks 16 ?u) @ ?M" unfolding cat by simp
    show "length m = 16 * length (blocks 16 ?u) + length ?M" unfolding q M by (rule len)
    show "length ?M \<le> 16" "blocks 16 ?u = [] \<or> 0 < length ?M" unfolding M using k16 by linarith+
    show "blocks 16 (take (16 * length (blocks 16 ?u)) m) = blocks 16 ?u" unfolding q ..
    show "drop (16 * length (blocks 16 ?u)) m = ?M" unfolding q ..
    show "(if m = [] then 1 else (length m + 15) div 16) = length (blocks 16 ?u) + 1"
      unfolding q by (rule n)
  qed (rule all)
qed

lemma AES_CMAC_eq:
  assumes "16 \<le> length Key" and "16 \<le> length out" and "16 \<le> len"
  shows "AES_CMAC m (length m) Key 16 out len = Some (cmac (AES_enc_block Key 16) m @ drop 16 out, 16)"
proof -
  let ?E = "AES_enc_block Key 16"
  let ?K1 = "cmac_K1 ?E" and ?K2 = "cmac_K2 ?E"
  have gen: "AES_CMAC_GenerateSubKey Key 16 (replicate 16 0) (replicate 16 0) = Some (?K1, ?K2)"
    using AES_CMAC_GenerateSubKey_eq [OF assms(1), of "replicate 16 0" "replicate 16 0"] by simp
  obtain bs M where m: "m = concat bs @ M" "\<forall>b \<in> set bs. length b = 16" "length M \<le> 16"
      "bs = [] \<or> 0 < length M" "length m = 16 * length bs + length M"
      "blocks 16 (take (16 * length bs) m) = bs" "drop (16 * length bs) m = M"
      "(if m = [] then 1 else (length m + 15) div 16) = length bs + 1"
    by (rule cmac_split)
  let ?x = "foldl (\<lambda>x b. ?E (xor_bytes x b)) (replicate 16 0) bs"
  have z: "Const_Zero = replicate 16 0" by (simp add: Const_Zero_def numeral_eq_Suc)
  have loop: "cmac_loop m (length m) Key 16 (0, Const_Zero) = Some (16 * length bs, ?x)"
    using cmac_loop_run [OF assms(1) m(2), of 0 m M "length m" "length M" Const_Zero] m by (simp add: z)
  have x: "length ?x = 16" by (cases bs rule: rev_cases) simp_all
  have rem: "length m - 16 * length bs = length M" using m(5) by simp
  let ?Y = "if length M = 16 then xor_bytes M ?K1 else xor_bytes (M @ 0x80 # replicate (15 - length M) 0) ?K2"
  have Y: "length ?Y = 16" using m(3) by simp
  have shuffle: "xor_bytes (xor_bytes a ?x) k = xor_bytes (xor_bytes a k) ?x" for a k
    by (rule nth_equalityI) (auto simp: ac_simps)
  have pad: "(M @ replicate (16 - length M) 0)[length M := 0x80] = M @ 0x80 # replicate (15 - length M) 0"
    if "length M \<noteq> 16"
    using that m(3) by (cases "16 - length M") (simp_all add: list_update_append)
  have "AES_CMAC m (length m) Key 16 out len = RT_AES_Encrypt (xor_bytes ?Y ?x) 16 Key 16 out len"
    unfolding AES_CMAC_def gen loop option.case prod.case Let_def rem m(7)
    using assms(3) pad by (simp add: shuffle)
  also have "\<dots> = Some (?E (xor_bytes ?Y ?x) @ drop 16 out, 16)"
    using assms Y x by (intro RT_AES_Encrypt_block) (simp_all add: aes_key_length_def del: if_split_asm)
  also have "?E (xor_bytes ?Y ?x) = cmac ?E m"
    unfolding cmac_def Let_def m(8) by (simp add: m(6,7))
  finally show ?thesis .
qed

section \<open>The property\<close>

text \<open>C39: For every message and every 16-byte key \<open>AES_CMAC\<close> writes the code of RFC 4493: it
  chains the blocks and combines the last one with the first sub-key when it is complete, with
  the second when it had to be padded, and the two sub-keys are the doublings of the encrypted
  zero block in the field of 2 ^ 128 elements.\<close>

theorem AES_CMAC_is_RFC4493:
  assumes "16 \<le> length Key" and "16 \<le> length out" and "16 \<le> len"
  shows "AES_CMAC m (length m) Key 16 out len = Some (cmac (AES_enc_block Key 16) m @ drop 16 out, 16)"
  by (rule AES_CMAC_eq [OF assms])

theorem AES_CMAC_is_RFC4493_witness:
  "AES_CMAC [1, 2, 3] (length [1, 2, 3 :: u8]) (replicate 16 7) 16 (replicate 16 0) 16
    = Some (cmac (AES_enc_block (replicate 16 7) 16) [1, 2, 3] @ drop 16 (replicate 16 0), 16)"
  by (rule AES_CMAC_is_RFC4493) simp_all

end
