(* ===== verification/Aes_Ccm.thy ===== *)
theory Aes_Ccm
  imports Aes_Cbc
begin

text \<open>
  \<open>AES_CCM_MAC\<close>, \<open>AES_CCM_Encrypt\<close> and \<open>AES_CCM_Decrypt\<close> of \<open>rt5572/common/crypt_aes.c\<close>: counter mode
  with a CBC-MAC, the cipher of CCMP. As its callers do, the two routines work within one
  buffer: the text is read at one offset and written at another. Lengths are natural numbers
  below \<open>2 ^ 32\<close>; sums and differences of lengths are reduced where the code computes them.
\<close>

section \<open>The operations\<close>

text \<open>One block through the cipher into a zeroed block; \<open>None\<close> when the key is too short.\<close>

definition ccm_cipher :: "bytes \<Rightarrow> nat \<Rightarrow> bytes \<Rightarrow> bytes option" where
  "ccm_cipher Key KeyLength Block =
     map_option fst (RT_AES_Encrypt Block 16 Key KeyLength (replicate 16 0) 16)"

text \<open>\<open>Block[0]\<close> of the first block, and byte \<open>k\<close> of a length.\<close>

definition ccm_flags :: "nat \<Rightarrow> nat \<Rightarrow> nat \<Rightarrow> u8" where
  "ccm_flags AADLength MACLength NonceLength =
     (let b = (if AADLength > 0 then 0x40 else 0);
          b = b OR ucast (push_bit 3 (drop_bit 1 (word_of_nat MACLength - 2 :: u32)))
      in b OR ucast ((15 - word_of_nat NonceLength) - 1 :: u32))"

definition len_byte :: "nat \<Rightarrow> nat \<Rightarrow> u8" where
  "len_byte n k = ucast (drop_bit k (word_of_nat n :: u32) AND 0xff)"

definition ccm_first_block :: "nat \<Rightarrow> bytes \<Rightarrow> nat \<Rightarrow> nat \<Rightarrow> nat \<Rightarrow> bytes option" where
  "ccm_first_block PayloadLength Nonce NonceLength AADLength MACLength =
     (if NonceLength > 15 \<or> length Nonce < NonceLength then None
      else
        let Block = ccm_flags AADLength MACLength NonceLength
              # take NonceLength Nonce @ replicate (15 - NonceLength) 0;
            Block = (if NonceLength < 12 then Block[12 := len_byte PayloadLength 24] else Block);
            Block = (if NonceLength < 13 then Block[13 := len_byte PayloadLength 16] else Block);
            Block = Block[14 := len_byte PayloadLength 8]
        in Some (Block[15 := len_byte PayloadLength 0]))"

text \<open>
  The loop over the associated data. It advances only while \<open>Block_Index\<close> is below the block
  size, so that it is defined as a partial function; that it ends is part of the theorems.
\<close>

partial_function (option) ccm_aad_loop ::
  "bytes \<Rightarrow> nat \<Rightarrow> bytes \<Rightarrow> nat \<Rightarrow> nat \<Rightarrow> nat \<Rightarrow> bytes \<Rightarrow> bytes \<Rightarrow> bytes option" where
  "ccm_aad_loop Key KeyLength AAD AADLength ADD_Index Block_Index Block Block_MAC =
     (if ADD_Index < AADLength then
        let Copy_Length = min 16 (AADLength - ADD_Index);
            Copy_Length = (if Copy_Length + Block_Index > 16 then 16 - Block_Index else Copy_Length) in
        if length AAD < ADD_Index + Copy_Length then None
        else
          let Block = take Block_Index Block @ take Copy_Length (drop ADD_Index AAD)
                @ drop (Block_Index + Copy_Length) Block in
          Option.bind (ccm_cipher Key KeyLength (xor_bytes Block Block_MAC))
            (\<lambda>mac. ccm_aad_loop Key KeyLength AAD AADLength (ADD_Index + Copy_Length) 0
               (replicate 16 0) mac)
      else Some Block_MAC)"

function ccm_payload_loop ::
  "bytes \<Rightarrow> nat \<Rightarrow> bytes \<Rightarrow> nat \<Rightarrow> nat \<Rightarrow> bytes \<Rightarrow> bytes option" where
  "ccm_payload_loop Key KeyLength Payload PayloadLength Payload_Index Block_MAC =
     (if Payload_Index < PayloadLength then
        let Copy_Length = min 16 (PayloadLength - Payload_Index) in
        if length Payload < Payload_Index + Copy_Length then None
        else
          let Block = take Copy_Length (drop Payload_Index Payload) @ replicate (16 - Copy_Length) 0 in
          (case ccm_cipher Key KeyLength (xor_bytes Block Block_MAC) of
             None \<Rightarrow> None
           | Some mac \<Rightarrow>
               ccm_payload_loop Key KeyLength Payload PayloadLength (Payload_Index + Copy_Length) mac)
      else Some Block_MAC)"
  by pat_completeness auto
termination by (relation "measure (\<lambda>(k, kl, p, n, i, mac). n - i)") auto

declare ccm_payload_loop.simps [simp del]

definition AES_CCM_MAC ::
  "bytes \<Rightarrow> nat \<Rightarrow> bytes \<Rightarrow> nat \<Rightarrow> bytes \<Rightarrow> nat \<Rightarrow> bytes \<Rightarrow> nat \<Rightarrow> nat \<Rightarrow> bytes \<Rightarrow> bytes option" where
  "AES_CCM_MAC Payload PayloadLength Key KeyLength Nonce NonceLength AAD AADLength MACLength MACText =
     (case ccm_first_block PayloadLength Nonce NonceLength AADLength MACLength of
        None \<Rightarrow> None
      | Some Block \<Rightarrow>
          (case ccm_cipher Key KeyLength Block of
             None \<Rightarrow> None
           | Some Block_MAC \<Rightarrow>
               (case (if AADLength > 0 \<and> AADLength < 0xFF00
                      then ccm_aad_loop Key KeyLength AAD AADLength 0 2
                        ([len_byte AADLength 8, len_byte AADLength 0] @ replicate 14 0) Block_MAC
                      else ccm_aad_loop Key KeyLength AAD AADLength 0 6
                        ([0, 0, len_byte AADLength 24, len_byte AADLength 16, len_byte AADLength 8,
                          len_byte AADLength 0] @ replicate 10 0) Block_MAC) of
                  None \<Rightarrow> None
                | Some Block_MAC \<Rightarrow>
                    (case ccm_payload_loop Key KeyLength Payload PayloadLength 0 Block_MAC of
                       None \<Rightarrow> None
                     | Some Block_MAC \<Rightarrow> move_mem 0 MACLength Block_MAC MACText))))"

text \<open>The counter block, one byte of the inner loop, and the loop over the text.\<close>

definition ccm_counter :: "bytes \<Rightarrow> nat \<Rightarrow> bytes" where
  "ccm_counter Nonce NonceLength =
     ucast ((15 - word_of_nat NonceLength) - 1 :: u32)
       # take NonceLength Nonce @ replicate (15 - NonceLength) 0"

definition xor_turn :: "nat \<Rightarrow> nat \<Rightarrow> bytes \<Rightarrow> bytes \<Rightarrow> nat \<Rightarrow> bytes option" where
  "xor_turn dst src S mem t =
     (if src + t < length mem \<and> dst + t < length mem
      then Some (mem[dst + t := mem ! (src + t) XOR S ! t]) else None)"

function ccm_ctr_loop ::
  "bytes \<Rightarrow> nat \<Rightarrow> nat \<Rightarrow> nat \<Rightarrow> nat \<Rightarrow> nat \<Rightarrow> bytes \<Rightarrow> bytes \<Rightarrow> bytes option" where
  "ccm_ctr_loop Key KeyLength src n dst Cipher_Index Block_CTR mem =
     (if Cipher_Index < n then
        let Block_CTR = Block_CTR[15 := Block_CTR ! 15 + 1] in
        (case ccm_cipher Key KeyLength Block_CTR of
           None \<Rightarrow> None
         | Some S \<Rightarrow>
             let Copy_Length = min 16 (n - Cipher_Index) in
             (case feed (xor_turn (dst + Cipher_Index) (src + Cipher_Index) S) mem [0..<Copy_Length] of
                None \<Rightarrow> None
              | Some mem \<Rightarrow>
                  ccm_ctr_loop Key KeyLength src n dst (Cipher_Index + Copy_Length) Block_CTR mem))
      else Some mem)"
  by pat_completeness auto
termination by (relation "measure (\<lambda>(k, kl, s, n, d, i, c, mem). n - i)") auto

declare ccm_ctr_loop.simps [simp del]

definition ccm_mac_length :: "nat \<Rightarrow> bool" where
  "ccm_mac_length t \<longleftrightarrow> t = 4 \<or> t = 6 \<or> t = 8 \<or> t = 10 \<or> t = 12 \<or> t = 14 \<or> t = 16"

text \<open>
  \<open>PlainText\<close> starts at offset \<open>src\<close> of \<open>mem\<close> and \<open>CipherText\<close> at offset \<open>dst\<close>. The result is the
  returned code, the memory and the reported length.
\<close>

definition AES_CCM_Encrypt ::
  "bytes \<Rightarrow> nat \<Rightarrow> nat \<Rightarrow> bytes \<Rightarrow> nat \<Rightarrow> bytes \<Rightarrow> nat \<Rightarrow> bytes \<Rightarrow> nat \<Rightarrow> nat \<Rightarrow> nat \<Rightarrow> nat
    \<Rightarrow> (int \<times> bytes \<times> nat) option" where
  "AES_CCM_Encrypt mem src PlainTextLength Key KeyLength Nonce NonceLength AAD AADLength MACLength
       dst CipherTextLength =
     (let out_len = (PlainTextLength + MACLength) mod 4294967296 in
      if KeyLength \<noteq> 16 then Some (-1, mem, CipherTextLength)
      else if NonceLength < 7 \<or> NonceLength > 13 then Some (-2, mem, CipherTextLength)
      else if \<not> ccm_mac_length MACLength then Some (-3, mem, CipherTextLength)
      else if CipherTextLength < out_len then Some (-4, mem, CipherTextLength)
      else
        (case AES_CCM_MAC (drop src mem) PlainTextLength Key KeyLength Nonce NonceLength AAD AADLength
                MACLength (replicate 16 0) of
           None \<Rightarrow> None
         | Some Block_MAC \<Rightarrow>
             (case ccm_cipher Key KeyLength (ccm_counter Nonce NonceLength) of
                None \<Rightarrow> None
              | Some S \<Rightarrow>
                  (case ccm_ctr_loop Key KeyLength src PlainTextLength dst 0
                          (ccm_counter Nonce NonceLength) mem of
                     None \<Rightarrow> None
                   | Some mem \<Rightarrow>
                       map_option (\<lambda>mem. (0, mem, out_len))
                         (move_mem (dst + PlainTextLength) MACLength
                           (take MACLength (xor_bytes Block_MAC S)) mem)))))"

text \<open>
  \<open>CipherText\<close> starts at offset \<open>src\<close> and \<open>PlainText\<close> at offset \<open>dst\<close>. A text shorter than the MAC
  that passes the checks would make the code compare bytes it never set: \<open>None\<close>.
\<close>

definition AES_CCM_Decrypt ::
  "bytes \<Rightarrow> nat \<Rightarrow> nat \<Rightarrow> bytes \<Rightarrow> nat \<Rightarrow> bytes \<Rightarrow> nat \<Rightarrow> bytes \<Rightarrow> nat \<Rightarrow> nat \<Rightarrow> nat \<Rightarrow> nat
    \<Rightarrow> (int \<times> bytes \<times> nat) option" where
  "AES_CCM_Decrypt mem src CipherTextLength Key KeyLength Nonce NonceLength AAD AADLength MACLength
       dst PlainTextLength =
     (let n = sub32 CipherTextLength MACLength in
      if KeyLength \<noteq> 16 then Some (-1, mem, PlainTextLength)
      else if NonceLength < 7 \<or> NonceLength > 13 then Some (-2, mem, PlainTextLength)
      else if \<not> ccm_mac_length MACLength then Some (-3, mem, PlainTextLength)
      else if PlainTextLength < n then Some (-4, mem, PlainTextLength)
      else if length Nonce < NonceLength \<or> CipherTextLength < n \<or> length mem < src + CipherTextLength
      then None
      else
        (case ccm_cipher Key KeyLength (ccm_counter Nonce NonceLength) of
           None \<Rightarrow> None
         | Some S \<Rightarrow>
             let Block_MAC_From_Cipher = xor_bytes (take MACLength (drop (src + n) mem)) S in
             (case ccm_ctr_loop Key KeyLength src n dst 0 (ccm_counter Nonce NonceLength) mem of
                None \<Rightarrow> None
              | Some mem \<Rightarrow>
                  map_option (\<lambda>Block_MAC.
                      (if Block_MAC_From_Cipher \<noteq> take MACLength Block_MAC then -5 else 0, mem, n))
                    (AES_CCM_MAC (drop dst mem) n Key KeyLength Nonce NonceLength AAD AADLength
                      MACLength (replicate 16 0)))))"

end
