(* ===== verification/Ccm_Properties.thy ===== *)
theory Ccm_Properties
  imports Aes_Ccm
begin

text \<open>
  The mode of NIST SP 800-38C and what the routines of \<open>Aes_Ccm\<close> have to do with it: they
  compute it for texts of at most 255 blocks and associated data below \<open>0xFF00\<close> bytes, decryption
  inverts encryption, and it accepts exactly the texts whose code is right.
\<close>

section \<open>The mode\<close>

text \<open>\<open>E\<close> is the cipher of a block, \<open>N\<close> the nonce, \<open>A\<close> the associated data and \<open>t\<close> the size of the code.\<close>

definition octets :: "nat \<Rightarrow> nat \<Rightarrow> bytes" where
  "octets q v = map (\<lambda>i. word_of_nat (v div 256 ^ (q - 1 - i))) [0..<q]"

definition pad16 :: "bytes \<Rightarrow> bytes" where
  "pad16 m = m @ replicate ((16 - length m mod 16) mod 16) 0"

definition ccm_b0 :: "nat \<Rightarrow> bytes \<Rightarrow> bytes \<Rightarrow> nat \<Rightarrow> bytes" where
  "ccm_b0 t N A plen =
     word_of_nat ((if A = [] then 0 else 64) + 8 * ((t - 2) div 2) + (14 - length N))
       # N @ octets (15 - length N) plen"

definition ccm_assoc :: "bytes \<Rightarrow> bytes" where
  "ccm_assoc A =
     (if A = [] then []
      else if length A < 0xFF00 then octets 2 (length A) @ A
      else [0xff, 0xfe] @ octets 4 (length A) @ A)"

definition ccm_ctr :: "bytes \<Rightarrow> nat \<Rightarrow> bytes" where
  "ccm_ctr N j = word_of_nat (14 - length N) # N @ octets (15 - length N) j"

definition cbc_mac :: "(bytes \<Rightarrow> bytes) \<Rightarrow> bytes \<Rightarrow> bytes list \<Rightarrow> bytes" where
  "cbc_mac E y bs = foldl (\<lambda>y b. E (xor_bytes b y)) y bs"

definition ccm_tag :: "(bytes \<Rightarrow> bytes) \<Rightarrow> nat \<Rightarrow> bytes \<Rightarrow> bytes \<Rightarrow> bytes \<Rightarrow> bytes" where
  "ccm_tag E t N A P =
     take t (cbc_mac E (E (ccm_b0 t N A (length P)))
       (blocks 16 (pad16 (ccm_assoc A)) @ blocks 16 (pad16 P)))"

definition ccm_encrypt :: "(bytes \<Rightarrow> bytes) \<Rightarrow> nat \<Rightarrow> bytes \<Rightarrow> bytes \<Rightarrow> bytes \<Rightarrow> bytes" where
  "ccm_encrypt E t N A P =
     xor_bytes P (concat (map (\<lambda>j. E (ccm_ctr N (j + 1))) [0..<(length P + 15) div 16]))
       @ xor_bytes (ccm_tag E t N A P) (E (ccm_ctr N 0))"

section \<open>Formatting\<close>

lemma len_byte_nat: "k \<le> 24 \<Longrightarrow> len_byte n k = word_of_nat (n div 2 ^ k)"
  by (rule bit_word_eqI) (simp add: len_byte_def ucast_mask bit_simps drop_bit_eq_div [symmetric])

lemma octets_0: "octets 0 v = []" by (simp add: octets_def)

lemma octets_Suc: "octets (Suc q) v = word_of_nat (v div 256 ^ q) # octets q v"
  by (simp add: octets_def upt_conv_Cons map_Suc_upt [symmetric] del: upt_Suc)

lemma octets_two: "octets 2 v = [word_of_nat (v div 256), word_of_nat v]"
  by (simp add: octets_Suc octets_0 numeral_2_eq_2)

lemma nth_octets: "i < q \<Longrightarrow> octets q v ! i = word_of_nat (v div 256 ^ (q - 1 - i))"
  by (simp add: octets_def)

lemma length_octets [simp, buf_len]: "length (octets q v) = q" by (simp add: octets_def)

definition ccm_nonce :: "bytes \<Rightarrow> bool" where
  "ccm_nonce N \<longleftrightarrow> 7 \<le> length N \<and> length N \<le> 13"

lemma ccm_nonce_cases:
  assumes "ccm_nonce N"
  shows "length N = 7 \<or> length N = 8 \<or> length N = 9 \<or> length N = 10 \<or> length N = 11
    \<or> length N = 12 \<or> length N = 13"
  using assms by (auto simp: ccm_nonce_def)

lemma ccm_flags_eq:
  assumes "ccm_nonce N" and "ccm_mac_length t"
  shows "ccm_flags (length A) t (length N)
    = word_of_nat ((if A = [] then 0 else 64) + 8 * ((t - 2) div 2) + (14 - length N))"
  using ccm_nonce_cases [OF assms(1)] assms(2) unfolding ccm_mac_length_def ccm_flags_def
  by (elim disjE) simp_all

text \<open>The last bytes of the block hold the length, wherever the nonce ends.\<close>

lemma div_high_zero: "n < 2 ^ 32 \<Longrightarrow> 4 \<le> k \<Longrightarrow> n div 256 ^ k = (0 :: nat)"
  using power_increasing [of 4 k "256 :: nat"] by simp

lemma length_bytes_nth:
  assumes "n < 2 ^ 32" and "i < 16" and "k < i"
  shows "(word_of_nat (n div 256 ^ (15 - i)) :: u8)
    = (if i = 15 then len_byte n 0 else if i = 14 then len_byte n 8 else if i = 13 then len_byte n 16
       else if i = 12 then len_byte n 24 else 0)"
proof (cases "i < 12")
  case True
  then show ?thesis using div_high_zero [OF assms(1), of "15 - i"] by simp
next
  case False
  with assms(2) have "i = 12 \<or> i = 13 \<or> i = 14 \<or> i = 15" by auto
  then show ?thesis by (elim disjE) (simp_all add: len_byte_nat)
qed

lemma nth_behind: "length N < i \<Longrightarrow> (f # N @ ys) ! i = ys ! (i - Suc (length N))"
  by (cases i) (auto simp: nth_append)

lemma nth_before: "i \<le> length N \<Longrightarrow> (f # N @ ys) ! i = (f # N) ! i"
  by (cases i) (auto simp: nth_append)

lemma ccm_first_block_eq:
  assumes "ccm_nonce N" and "ccm_mac_length t" and "n < 2 ^ 32"
  shows "ccm_first_block n N (length N) (length A) t = Some (ccm_b0 t N A n)"
proof -
  let ?k = "length N" and ?f = "ccm_flags (length A) t (length N)"
  let ?b = "?f # N @ replicate (15 - ?k) 0"
  let ?c = "(((if ?k < 13 then (if ?k < 12 then ?b[12 := len_byte n 24] else ?b)[13 := len_byte n 16]
       else (if ?k < 12 then ?b[12 := len_byte n 24] else ?b))[14 := len_byte n 8])[15 := len_byte n 0])"
  have k: "7 \<le> ?k" "?k \<le> 13" using assms(1) by (simp_all add: ccm_nonce_def)
  have "?c = ?f # N @ octets (15 - ?k) n"
  proof (rule nth_equalityI)
    show "length ?c = length (?f # N @ octets (15 - ?k) n)" using k by simp
    fix i
    assume "i < length ?c"
    then have i: "i < 16" using k by (simp split: if_split_asm)
    have o: "octets (15 - ?k) n ! (i - Suc ?k) = word_of_nat (n div 256 ^ (15 - i))" if "?k < i"
      using i that k by (subst nth_octets) (simp_all add: diff_diff_left)
    show "?c ! i = (?f # N @ octets (15 - ?k) n) ! i"
    proof (cases "?k < i")
      case True
      have "(?f # N @ octets (15 - ?k) n) ! i = word_of_nat (n div 256 ^ (15 - i))"
        using o [OF True] by (simp add: nth_behind [OF True])
      also have "\<dots> = ?c ! i"
        using True k i by (subst length_bytes_nth [OF assms(3) i True])
          (auto simp: nth_list_update nth_Cons' nth_append)
      finally show ?thesis by simp
    next
      case False
      then show ?thesis using k i by (auto simp: nth_list_update nth_Cons' nth_append)
    qed
  qed
  moreover have "\<not> (15 < ?k \<or> ?k < ?k)" using k by simp
  ultimately show ?thesis
    unfolding ccm_first_block_def ccm_b0_def Let_def ccm_flags_eq [OF assms(1,2), symmetric]
    by (simp only: if_False take_all [OF order_refl])
qed

lemma ccm_counter_eq:
  assumes "ccm_nonce N"
  shows "ccm_counter N (length N) = ccm_ctr N 0"
proof -
  have "ucast ((15 - word_of_nat (length N)) - 1 :: u32) = (word_of_nat (14 - length N) :: u8)"
    using ccm_nonce_cases [OF assms] by (elim disjE) simp_all
  moreover have "octets q 0 = replicate q 0" for q by (induction q) (simp_all add: octets_Suc octets_0)
  ultimately show ?thesis by (simp add: ccm_counter_def ccm_ctr_def)
qed

text \<open>The code counts in the last byte only, which is the counter below 256.\<close>

lemma ccm_ctr_next:
  assumes "ccm_nonce N" and "j < 256"
  shows "ccm_ctr N j = (ccm_ctr N 0)[15 := word_of_nat j]"
proof (rule nth_equalityI)
  have k: "7 \<le> length N" "length N \<le> 13" using assms(1) by (simp_all add: ccm_nonce_def)
  show "length (ccm_ctr N j) = length ((ccm_ctr N 0)[15 := word_of_nat j])" by (simp add: ccm_ctr_def)
  fix i
  assume "i < length (ccm_ctr N j)"
  then have i: "i < 16" using k by (simp add: ccm_ctr_def)
  have small: "j div 256 ^ e = 0" if "0 < e" for e
  proof -
    have "(256 :: nat) ^ 1 \<le> 256 ^ e" using that by (intro power_increasing) simp_all
    then show ?thesis using assms(2) by simp
  qed
  have "octets (15 - length N) v ! (i - Suc (length N)) = word_of_nat (v div 256 ^ (15 - i))"
    if "length N < i" for v
    using i that k by (subst nth_octets) (simp_all add: diff_diff_left)
  then have o: "ccm_ctr N v ! i = word_of_nat (v div 256 ^ (15 - i))" if "length N < i" for v
    using that by (simp only: ccm_ctr_def nth_behind)
  show "ccm_ctr N j ! i = (ccm_ctr N 0)[15 := word_of_nat j] ! i"
  proof (cases "length N < i")
    case True
    have "length (ccm_ctr N 0) = 16" using k by (simp add: ccm_ctr_def)
    then show ?thesis
      using i o [OF True, of j] o [OF True, of 0] small [of "15 - i"]
      by (cases "i = 15") simp_all
  next
    case False
    then have *: "i \<le> length N" "15 \<noteq> i" using k by simp_all
    show ?thesis unfolding nth_list_update_neq [OF *(2)] by (simp only: ccm_ctr_def nth_before [OF *(1)])
  qed
qed

lemma length_ccm_ctr: "ccm_nonce N \<Longrightarrow> length (ccm_ctr N j) = 16"
  by (simp add: ccm_ctr_def ccm_nonce_def)

section \<open>The code of the text\<close>

lemma ccm_cipher_eq:
  assumes "16 \<le> length Key" and "length b = 16"
  shows "ccm_cipher Key 16 b = Some (AES_enc_block Key 16 b)"
  using RT_AES_Encrypt_block [of 16 Key b "replicate 16 0" 16] assms
  by (simp add: ccm_cipher_def aes_key_length_def)

lemma blocks_pad16:
  "blocks 16 (pad16 m) =
    (if m = [] then [] else (take 16 m @ replicate (16 - length m) 0) # blocks 16 (pad16 (drop 16 m)))"
proof (cases "length m < 16")
  case True
  then show ?thesis by (auto simp: pad16_def blocks_short blocks_one)
next
  case False
  then have "(length m - 16) mod 16 = length m mod 16" by (simp add: le_mod_geq)
  then have "pad16 m = take 16 m @ pad16 (drop 16 m)" by (simp add: pad16_def)
  moreover have "m \<noteq> []" "length (take 16 m) = 16" using False by auto
  ultimately show ?thesis using False by (simp add: blocks_append)
qed

lemma cbc_mac_Cons: "cbc_mac E y (b # bs) = cbc_mac E (E (xor_bytes b y)) bs"
  by (simp add: cbc_mac_def)

lemma ccm_payload_loop_eq:
  assumes "16 \<le> length Key" and "length y = 16" and "n \<le> length P"
  shows "ccm_payload_loop Key 16 P n i y
    = Some (cbc_mac (AES_enc_block Key 16) y (blocks 16 (pad16 (drop i (take n P)))))"
  using assms(2)
proof (induction "n - i" arbitrary: i y rule: less_induct)
  case less
  show ?case
  proof (cases "i < n")
    case False
    then show ?thesis
      by (simp add: ccm_payload_loop.simps blocks_pad16 cbc_mac_def)
  next
    case True
    let ?c = "min 16 (n - i)" and ?d = "drop i (take n P)"
    let ?b = "take 16 ?d @ replicate (16 - length ?d) 0"
    have d: "length ?d = n - i" "?d \<noteq> []" using True assms(3) by auto
    have "16 - length ?d = 16 - ?c" unfolding d(1) by (simp add: min_def)
    then have b: "take ?c (drop i P) @ replicate (16 - ?c) 0 = ?b" by (simp add: drop_take)
    have b16: "length ?b = 16"
      unfolding length_append length_take length_replicate d(1) by (simp add: min_def)
    have nx: "drop (i + ?c) (take n P) = drop 16 ?d" using d by (auto simp: min_def add.commute)
    have len: "\<not> length P < i + ?c" using True assms(3) by linarith
    have x16: "length (xor_bytes ?b y) = 16" unfolding length_xor_bytes b16 less.prems by simp
    have "ccm_payload_loop Key 16 P n i y
        = ccm_payload_loop Key 16 P n (i + ?c) (AES_enc_block Key 16 (xor_bytes ?b y))"
      using True
      by (subst ccm_payload_loop.simps)
        (simp only: if_True Let_def len if_False b ccm_cipher_eq [OF assms(1) x16] option.case)
    also have "\<dots> = Some (cbc_mac (AES_enc_block Key 16) (AES_enc_block Key 16 (xor_bytes ?b y))
        (blocks 16 (pad16 (drop (i + ?c) (take n P)))))"
      using True by (intro less.hyps) simp_all
    also have "\<dots> = Some (cbc_mac (AES_enc_block Key 16) y (blocks 16 (pad16 ?d)))"
      unfolding nx using d(2) by (subst (2) blocks_pad16) (simp add: cbc_mac_Cons)
    finally show ?thesis .
  qed
qed

text \<open>The loop over the associated data: a whole block at a time after the first.\<close>

lemma ccm_aad_loop_0:
  assumes "16 \<le> length Key" and "length y = 16" and "take n B = A" and "length A = n"
  shows "ccm_aad_loop Key 16 B n i 0 (replicate 16 0) y
    = Some (cbc_mac (AES_enc_block Key 16) y (blocks 16 (pad16 (drop i A))))"
  using assms(2)
proof (induction "n - i" arbitrary: i y rule: less_induct)
  case less
  show ?case
  proof (cases "i < n")
    case False
    then show ?thesis using assms(4)
      by (subst ccm_aad_loop.simps) (simp add: blocks_pad16 cbc_mac_def)
  next
    case True
    let ?c = "min 16 (n - i)" and ?d = "drop i A"
    let ?b = "take 16 ?d @ replicate (16 - length ?d) 0"
    have d: "length ?d = n - i" "?d \<noteq> []" using True assms(4) by auto
    have c: "(if ?c + 0 > 16 then 16 - 0 else ?c) = ?c" by simp
    have rd: "take ?c (drop i B) = take ?c ?d" using assms(3) by (auto simp: drop_take)
    have b: "take 0 (replicate 16 0) @ take ?c (drop i B) @ drop (0 + ?c) (replicate 16 0) = ?b"
      unfolding rd using d(1) by (cases "16 \<le> n - i") simp_all
    have b16: "length ?b = 16" unfolding length_append length_take length_replicate d(1) by linarith
    have "n \<le> length B" using arg_cong [OF assms(3), of length] assms(4) by simp
    then have len: "\<not> length B < i + ?c" using True by linarith
    have x16: "length (xor_bytes ?b y) = 16" unfolding length_xor_bytes b16 less.prems by simp
    have nx: "drop (i + ?c) A = drop 16 ?d" using d by (cases "16 \<le> n - i") (simp_all add: add.commute)
    have "ccm_aad_loop Key 16 B n i 0 (replicate 16 0) y
        = ccm_aad_loop Key 16 B n (i + ?c) 0 (replicate 16 0) (AES_enc_block Key 16 (xor_bytes ?b y))"
      using True
      by (subst ccm_aad_loop.simps)
        (simp only: if_True Let_def c len if_False b ccm_cipher_eq [OF assms(1) x16] bind.bind_lunit)
    also have "\<dots> = Some (cbc_mac (AES_enc_block Key 16) (AES_enc_block Key 16 (xor_bytes ?b y))
        (blocks 16 (pad16 (drop (i + ?c) A))))"
      using True by (intro less.hyps) simp_all
    also have "\<dots> = Some (cbc_mac (AES_enc_block Key 16) y (blocks 16 (pad16 ?d)))"
      unfolding nx using d(2) by (subst (2) blocks_pad16) (simp add: cbc_mac_Cons)
    finally show ?thesis .
  qed
qed

lemma ccm_aad_loop_2:
  assumes "16 \<le> length Key" and "length y = 16" and "take n B = A" and "length A = n"
    and "0 < n" and "length h = 2"
  shows "ccm_aad_loop Key 16 B n 0 2 (h @ replicate 14 0) y
    = Some (cbc_mac (AES_enc_block Key 16) y (blocks 16 (pad16 (h @ A))))"
proof -
  let ?c = "if min 16 (n - 0) + 2 > 16 then 16 - 2 else min 16 (n - 0)"
  let ?b = "take 16 (h @ A) @ replicate (16 - length (h @ A)) 0"
  have c: "?c = min 14 n" by simp
  have "n \<le> length B" using arg_cong [OF assms(3), of length] assms(4) by simp
  then have len: "\<not> length B < 0 + ?c" unfolding c by simp
  have rd: "take ?c (drop 0 B) = take ?c (drop 0 A)" using assms(3) by auto
  have b: "take 2 (h @ replicate 14 0) @ take ?c (drop 0 B) @ drop (2 + ?c) (h @ replicate 14 0) = ?b"
    unfolding rd unfolding c using assms(4,6) by (cases "14 \<le> n") simp_all
  have x16: "length (xor_bytes ?b y) = 16" using assms(2,4,6) by simp
  have nx: "drop (0 + ?c) A = drop 16 (h @ A)"
    unfolding c using assms(4,6) by (cases "14 \<le> n") simp_all
  have "ccm_aad_loop Key 16 B n 0 2 (h @ replicate 14 0) y
      = ccm_aad_loop Key 16 B n (0 + ?c) 0 (replicate 16 0) (AES_enc_block Key 16 (xor_bytes ?b y))"
    using assms(5)
    by (subst ccm_aad_loop.simps)
      (simp only: if_True Let_def len if_False b ccm_cipher_eq [OF assms(1) x16] bind.bind_lunit)
  also have "\<dots> = Some (cbc_mac (AES_enc_block Key 16) (AES_enc_block Key 16 (xor_bytes ?b y))
      (blocks 16 (pad16 (drop (0 + ?c) A))))"
    by (rule ccm_aad_loop_0 [OF assms(1) _ assms(3,4)]) simp
  also have "\<dots> = Some (cbc_mac (AES_enc_block Key 16) y (blocks 16 (pad16 (h @ A))))"
    unfolding nx using assms(6) by (subst (2) blocks_pad16) (auto simp: cbc_mac_Cons)
  finally show ?thesis .
qed

lemma cbc_mac_append: "cbc_mac E y (bs @ cs) = cbc_mac E (cbc_mac E y bs) cs"
  by (simp add: cbc_mac_def)

lemma length_cbc_mac: "length y = 16 \<Longrightarrow> length (cbc_mac (AES_enc_block Key k) y bs) = 16"
  by (induction bs arbitrary: y) (simp_all add: cbc_mac_def)

lemma AES_CCM_MAC_eq:
  assumes "16 \<le> length Key" and "ccm_nonce N" and "ccm_mac_length t" and "n < 2 ^ 32"
    and "length A < 0xFF00" and "n \<le> length P" and "t \<le> length out"
    and "take (length A) B = A"
  shows "AES_CCM_MAC P n Key 16 N (length N) B (length A) t out
    = Some (ccm_tag (AES_enc_block Key 16) t N A (take n P) @ drop t out)"
proof -
  let ?E = "AES_enc_block Key 16" and ?b0 = "ccm_b0 t N A n"
  let ?h = "[len_byte (length A) 8, len_byte (length A) 0]"
  let ?y = "cbc_mac ?E (?E ?b0) (blocks 16 (pad16 (ccm_assoc A)))"
  have b0: "length ?b0 = 16" using assms(2) by (simp add: ccm_b0_def ccm_nonce_def)
  have t: "t \<le> 16" using assms(3) by (auto simp: ccm_mac_length_def)
  have y: "length ?y = 16" by (rule length_cbc_mac) simp
  have plen: "length (take n P) = n" using assms(6) by simp
  let ?m = "cbc_mac ?E ?y (blocks 16 (pad16 (drop 0 (take n P))))"
  have m16: "length ?m = 16" using y by (rule length_cbc_mac)
  have aad: "(if length A > 0 \<and> length A < 0xFF00
        then ccm_aad_loop Key 16 B (length A) 0 2 (?h @ replicate 14 0) (?E ?b0)
        else ccm_aad_loop Key 16 B (length A) 0 6
          ([0, 0, len_byte (length A) 24, len_byte (length A) 16, len_byte (length A) 8,
            len_byte (length A) 0] @ replicate 10 0) (?E ?b0)) = Some ?y"
  proof (cases "A = []")
    case True
    then show ?thesis by (simp add: ccm_aad_loop.simps ccm_assoc_def blocks_pad16 cbc_mac_def)
  next
    case False
    have "?h = octets 2 (length A)" by (simp add: octets_two len_byte_nat)
    then have "ccm_assoc A = ?h @ A" using False assms(5) by (simp add: ccm_assoc_def)
    then show ?thesis
      using False assms(5) ccm_aad_loop_2 [OF assms(1) _ assms(8) refl, of "?E ?b0" ?h] by simp
  qed
  have "AES_CCM_MAC P n Key 16 N (length N) B (length A) t out = move_mem 0 t ?m out"
    unfolding AES_CCM_MAC_def ccm_first_block_eq [OF assms(2-4)] option.case
      ccm_cipher_eq [OF assms(1) b0] aad ccm_payload_loop_eq [OF assms(1) y assms(6)] ..
  also have "\<dots> = Some (ccm_tag ?E t N A (take n P) @ drop t out)"
    using t m16 assms(7) unfolding ccm_tag_def plen cbc_mac_append drop_0
    by (simp add: move_mem_def)
  finally show ?thesis .
qed

section \<open>The key stream\<close>

text \<open>The blocks the code produces from counter block \<open>c\<close>, one after the other.\<close>

primrec ctr_stream :: "(bytes \<Rightarrow> bytes) \<Rightarrow> bytes \<Rightarrow> nat \<Rightarrow> bytes" where
  "ctr_stream E c 0 = []"
| "ctr_stream E c (Suc k) = (let c' = c[15 := c ! 15 + 1] in E c' @ ctr_stream E c' k)"

lemma xor_turns:
  assumes "dst \<le> src" and "src + n \<le> length mem" and "n \<le> length S"
  shows "feed (xor_turn dst src S) mem [0..<n]
    = Some (take dst mem @ xor_bytes (take n (drop src mem)) S @ drop (dst + n) mem)"
  using assms
proof (induction n)
  case 0
  then show ?case by simp
next
  case (Suc n)
  let ?x = "xor_bytes (take n (drop src mem)) S"
  let ?m = "take dst mem @ ?x @ drop (dst + n) mem"
  have x: "length ?x = n" using Suc.prems by simp
  have l: "length ?m = length mem" using Suc.prems x by simp
  have "\<not> src + n - dst < n" using Suc.prems(1) by simp
  then have "?m ! (src + n) = mem ! (src + n)" using Suc.prems x by (simp add: nth_append add.commute)
  then have "xor_turn dst src S ?m n = Some (?m[dst + n := mem ! (src + n) XOR S ! n])"
    using Suc.prems l by (simp add: xor_turn_def)
  moreover have "?m[dst + n := v] = take dst mem @ ?x @ v # drop (dst + Suc n) mem" for v
    using Suc.prems x
    by (simp add: list_update_append Cons_nth_drop_Suc [symmetric] del: Cons_nth_drop_Suc)
  moreover have "xor_bytes (take (Suc n) (drop src mem)) S = ?x @ [mem ! (src + n) XOR S ! n]"
  proof -
    have "take (Suc n) (drop src mem) = take n (drop src mem) @ [mem ! (src + n)]"
      using Suc.prems by (simp add: take_Suc_conv_app_nth)
    moreover have "xor_bytes (a @ [v]) S = xor_bytes a S @ [v XOR S ! n]" if "length a = n" for a v
    proof -
      have "xor_bytes (a @ [v]) S = xor_bytes (a @ [v]) (take (Suc n) S)"
        using xor_bytes_take_right [of "a @ [v]" S] that by simp
      also have "take (Suc n) S = take n S @ [S ! n]"
        using Suc.prems(3) by (simp add: take_Suc_conv_app_nth)
      also have "xor_bytes (a @ [v]) (take n S @ [S ! n]) = xor_bytes a (take n S) @ [v XOR S ! n]"
        using that Suc.prems(3) by (subst xor_bytes_append) simp_all
      also have "xor_bytes a (take n S) = xor_bytes a S" using xor_bytes_take_right [of a S] that by simp
      finally show ?thesis .
    qed
    ultimately show ?thesis using Suc.prems by simp
  qed
  ultimately show ?case using Suc by (simp add: feed_append)
qed

lemma xor_stream_block:
  assumes "length S = 16"
  shows "xor_bytes a (S @ T) = xor_bytes (take 16 a) S @ xor_bytes (drop 16 a) T"
proof (cases "length a \<le> 16")
  case True
  then have "xor_bytes a (S @ T) = xor_bytes a (take (length a) S)"
    using xor_bytes_take_right [of a "S @ T"] assms by simp
  then show ?thesis using True by (simp add: xor_bytes_take_right)
next
  case False
  then show ?thesis
    using xor_bytes_append [of "take 16 a" S "drop 16 a" T] assms by simp
qed

lemma xor_ctr_stream_more:
  assumes "\<And>c. length (E c) = 16" and "length a \<le> 16 * k" and "k \<le> k'"
  shows "xor_bytes a (ctr_stream E c k') = xor_bytes a (ctr_stream E c k)"
  using assms(2,3)
proof (induction k arbitrary: a c k')
  case 0
  then show ?case by simp
next
  case (Suc k)
  then obtain j where j: "k' = Suc j" "k \<le> j" by (cases k') auto
  then show ?case
    using Suc.IH [of "drop 16 a" j] Suc.prems by (simp add: Let_def xor_stream_block assms(1))
qed

lemma ccm_ctr_loop_eq:
  assumes "16 \<le> length Key" and "length c = 16" and "dst \<le> src" and "src + n \<le> length mem"
    and "i \<le> n"
  shows "ccm_ctr_loop Key 16 src n dst i c mem
    = Some (take (dst + i) mem
        @ xor_bytes (take (n - i) (drop (src + i) mem)) (ctr_stream (AES_enc_block Key 16) c (n - i))
        @ drop (dst + n) mem)"
  using assms(2-5)
proof (induction "n - i" arbitrary: i c mem rule: less_induct)
  case less
  let ?E = "AES_enc_block Key 16"
  show ?case
  proof (cases "i < n")
    case False
    then show ?thesis using less.prems by (simp add: ccm_ctr_loop.simps)
  next
    case True
    let ?c = "min 16 (n - i)" and ?ctr = "c[15 := c ! 15 + 1]"
    let ?X = "take (n - i) (drop (src + i) mem)"
    let ?x = "xor_bytes (take ?c (drop (src + i) mem)) (?E ?ctr)"
    let ?m = "take (dst + i) mem @ ?x @ drop (dst + i + ?c) mem"
    have c: "?c \<le> n - i" "?c \<le> 16" "0 < ?c" using True by simp_all
    have x: "length ?x = ?c" using c less.prems by simp
    have ctr: "length ?ctr = 16" using less.prems by simp
    have turns: "feed (xor_turn (dst + i) (src + i) (?E ?ctr)) mem [0..<?c] = Some ?m"
      by (rule xor_turns) (use less.prems c in simp_all)
    have lm: "length ?m = length mem" using x c less.prems by simp
    have ih: "ccm_ctr_loop Key 16 src n dst (i + ?c) ?ctr ?m
        = Some (take (dst + (i + ?c)) ?m
            @ xor_bytes (take (n - (i + ?c)) (drop (src + (i + ?c)) ?m)) (ctr_stream ?E ?ctr (n - (i + ?c)))
            @ drop (dst + n) ?m)"
    proof (rule less.hyps)
      show "n - (i + ?c) < n - i" using c by simp
      show "i + ?c \<le> n" using c True by simp
      show "src + n \<le> length ?m" using lm less.prems by simp
    qed (use less.prems ctr in simp_all)
    have tk: "take (dst + (i + ?c)) ?m = take (dst + i) mem @ ?x"
      using x c less.prems by simp
    have dr: "drop (src + (i + ?c)) ?m = drop (src + (i + ?c)) mem"
      using x c less.prems by (simp add: add.commute add.left_commute)
    have dn: "drop (dst + n) ?m = drop (dst + n) mem"
      using x c less.prems by (simp add: add.commute)
    have tx: "take ?c (drop (src + i) mem) = take 16 ?X" by simp
    have dx: "take (n - (i + ?c)) (drop (src + (i + ?c)) mem) = drop 16 ?X"
    proof (cases "16 \<le> n - i")
      case True
      then show ?thesis by (simp add: drop_take ac_simps)
    next
      case False
      then show ?thesis by simp
    qed
    have "xor_bytes ?X (ctr_stream ?E c (n - i)) = xor_bytes ?X (?E ?ctr @ ctr_stream ?E ?ctr (n - Suc i))"
    proof -
      have "n - i = Suc (n - Suc i)" using True by simp
      then show ?thesis by (simp only: ctr_stream.simps Let_def)
    qed
    also have "\<dots> = ?x @ xor_bytes (drop 16 ?X) (ctr_stream ?E ?ctr (n - Suc i))"
      unfolding tx by (simp add: xor_stream_block)
    also have "xor_bytes (drop 16 ?X) (ctr_stream ?E ?ctr (n - Suc i))
        = xor_bytes (drop 16 ?X) (ctr_stream ?E ?ctr (n - (i + ?c)))"
      by (rule xor_ctr_stream_more) (use True in auto)
    finally have "xor_bytes ?X (ctr_stream ?E c (n - i))
        = ?x @ xor_bytes (drop 16 ?X) (ctr_stream ?E ?ctr (n - (i + ?c)))" .
    moreover have "ccm_ctr_loop Key 16 src n dst i c mem = ccm_ctr_loop Key 16 src n dst (i + ?c) ?ctr ?m"
      using True
      by (subst ccm_ctr_loop.simps)
        (simp only: if_True Let_def ccm_cipher_eq [OF assms(1) ctr] option.case turns)
    ultimately show ?thesis unfolding ih tk dr dn dx by simp
  qed
qed

section \<open>The two routines\<close>

text \<open>What the code makes of a text, for any length: the stream repeats after 256 blocks.\<close>

abbreviation ccm_text :: "bytes \<Rightarrow> bytes \<Rightarrow> bytes \<Rightarrow> bytes" where
  "ccm_text Key N P \<equiv>
     xor_bytes P (ctr_stream (AES_enc_block Key 16) (ccm_ctr N 0) (length P))"

abbreviation ccm_code :: "bytes \<Rightarrow> nat \<Rightarrow> bytes \<Rightarrow> bytes \<Rightarrow> bytes \<Rightarrow> bytes" where
  "ccm_code Key t N A P \<equiv>
     xor_bytes (ccm_tag (AES_enc_block Key 16) t N A P) (AES_enc_block Key 16 (ccm_ctr N 0))"

text \<open>The parameters both routines accept.\<close>

definition ccm_params :: "bytes \<Rightarrow> bytes \<Rightarrow> bytes \<Rightarrow> nat \<Rightarrow> bool" where
  "ccm_params Key N A t \<longleftrightarrow>
     16 \<le> length Key \<and> ccm_nonce N \<and> length A < 0xFF00 \<and> ccm_mac_length t"

lemma length_ctr_stream: "length (ctr_stream (AES_enc_block Key k) c n) = 16 * n"
  by (induction n arbitrary: c) (simp_all add: Let_def)

lemma length_ccm_text: "length (ccm_text Key N P) = length P"
  by (simp add: length_ctr_stream)

lemma ccm_text_twice: "ccm_text Key N (ccm_text Key N P) = P"
  unfolding length_ccm_text by (simp add: xor_bytes_cancel length_ctr_stream)

lemma length_ccm_tag: "t \<le> 16 \<Longrightarrow> length (ccm_tag (AES_enc_block Key k) t N A P) = t"
  by (simp add: ccm_tag_def length_cbc_mac)

lemma AES_CCM_Encrypt_eq:
  assumes "ccm_params Key N A t" and "length P = n" and "length h = dst" and "dst \<le> src"
    and mem: "take n (drop src mem) = P" "take dst mem = h" "dst + n + t \<le> length mem"
    and "n + t < 2 ^ 32" and "n + t \<le> len" and "src + n \<le> length mem"
    and B: "take (length A) B = A"
  shows "AES_CCM_Encrypt mem src n Key 16 N (length N) B (length A) t dst len
    = Some (0, h @ ccm_text Key N P @ ccm_code Key t N A P @ drop (dst + n + t) mem, n + t)"
proof -
  let ?E = "AES_enc_block Key 16" and ?c = "ccm_ctr N 0"
  have par: "16 \<le> length Key" "ccm_nonce N" "length A < 0xFF00" "ccm_mac_length t"
    using assms(1) by (simp_all add: ccm_params_def)
  have t: "t \<le> 16" using par(4) by (auto simp: ccm_mac_length_def)
  have ctr: "length ?c = 16" by (rule length_ccm_ctr [OF par(2)])
  have n: "n < 2 ^ 32" using assms(8) by simp
  have lens: "src + n \<le> length mem" "n \<le> length (drop src mem)" using assms(10) by simp_all
  have mac: "AES_CCM_MAC (drop src mem) n Key 16 N (length N) B (length A) t (replicate 16 0)
      = Some (ccm_tag ?E t N A P @ replicate (16 - t) 0)"
    using AES_CCM_MAC_eq [OF par(1,2,4) n par(3) lens(2) _ B, of "replicate 16 0"] t mem(1) by simp
  let ?m = "h @ ccm_text Key N P @ drop (dst + n) mem"
  have loop: "ccm_ctr_loop Key 16 src n dst 0 ?c mem = Some ?m"
    using ccm_ctr_loop_eq [OF par(1) ctr assms(4) lens(1), of 0] mem(1,2) assms(2) by simp
  have code: "take t (xor_bytes (ccm_tag ?E t N A P @ replicate (16 - t) 0) (?E ?c)) = ccm_code Key t N A P"
    using t by (simp add: take_xor_bytes length_ccm_tag) (metis length_ccm_tag xor_bytes_take_right)
  have mv: "move_mem (dst + n) t (ccm_code Key t N A P) ?m
      = Some (h @ ccm_text Key N P @ ccm_code Key t N A P @ drop (dst + n + t) mem)"
    using t mem(3) assms(2,3)
    by (simp add: move_mem_def length_ccm_tag length_ctr_stream add.commute add.left_commute)
  have guards: "(n + t) mod 4294967296 = n + t" "\<not> (length N < 7 \<or> length N > 13)" "\<not> len < n + t"
    using assms(8,9) par(2) by (simp_all add: ccm_nonce_def)
  show ?thesis
    unfolding AES_CCM_Encrypt_def Let_def guards(1)
    by (simp only: guards par(4) if_False simp_thms mac option.case ccm_counter_eq [OF par(2)]
        ccm_cipher_eq [OF par(1) ctr] loop code mv option.map)
qed

lemma AES_CCM_Decrypt_eq:
  assumes "ccm_params Key N A t" and "length C = n" and "length M = t" and "length h = dst"
    and "dst \<le> src" and mem: "take (n + t) (drop src mem) = C @ M" "take dst mem = h"
    and "n + t < 2 ^ 32" and "n \<le> len" and "src + n + t \<le> length mem"
    and B: "take (length A) B = A"
  shows "AES_CCM_Decrypt mem src (n + t) Key 16 N (length N) B (length A) t dst len
    = Some (if M = ccm_code Key t N A (ccm_text Key N C) then 0 else -5,
        h @ ccm_text Key N C @ drop (dst + n) mem, n)"
proof -
  let ?E = "AES_enc_block Key 16" and ?c = "ccm_ctr N 0" and ?P = "ccm_text Key N C"
  have par: "16 \<le> length Key" "ccm_nonce N" "length A < 0xFF00" "ccm_mac_length t"
    using assms(1) by (simp_all add: ccm_params_def)
  have t: "t \<le> 16" using par(4) by (auto simp: ccm_mac_length_def)
  have ctr: "length ?c = 16" by (rule length_ccm_ctr [OF par(2)])
  have n: "n < 2 ^ 32" using assms(8) by simp
  have C: "take n (drop src mem) = C"
    using arg_cong [OF mem(1), of "take n"] assms(2) by (simp add: min_def)
  have M: "take t (drop (src + n) mem) = M"
    using arg_cong [OF mem(1), of "drop n"] assms(2) by (simp add: drop_take add.commute)
  let ?m = "h @ ?P @ drop (dst + n) mem"
  have loop: "ccm_ctr_loop Key 16 src n dst 0 ?c mem = Some ?m"
    using ccm_ctr_loop_eq [OF par(1) ctr assms(5), of n mem 0] assms(10) C mem(2) assms(2) by simp
  have dm: "drop dst ?m = ?P @ drop (dst + n) mem" using assms(4) by simp
  have P: "length ?P = n" using assms(2) by (simp add: length_ctr_stream)
  have mac: "AES_CCM_MAC (drop dst ?m) n Key 16 N (length N) B (length A) t (replicate 16 0)
      = Some (ccm_tag ?E t N A ?P @ replicate (16 - t) 0)"
    unfolding dm using AES_CCM_MAC_eq [OF par(1,2,4) n par(3) _ _ B, of "?P @ drop (dst + n) mem" "replicate 16 0"] t P
    by simp
  have cmp: "xor_bytes M (?E ?c) = ccm_tag ?E t N A ?P \<longleftrightarrow> M = ccm_code Key t N A ?P"
  proof -
    have l: "length (ccm_tag ?E t N A ?P) = t" by (rule length_ccm_tag [OF t])
    have "xor_bytes (xor_bytes M (?E ?c)) (?E ?c) = M" using assms(3) t by (simp add: xor_bytes_cancel)
    moreover have "xor_bytes (ccm_code Key t N A ?P) (?E ?c) = ccm_tag ?E t N A ?P"
      using l t by (simp add: xor_bytes_cancel)
    ultimately show ?thesis by metis
  qed
  have guards: "sub32 (n + t) t = n" "\<not> (length N < 7 \<or> length N > 13)" "\<not> len < n"
    "\<not> (length N < length N \<or> n + t < n \<or> length mem < src + (n + t))"
    "(xor_bytes M (?E ?c) \<noteq> take t (ccm_tag ?E t N A ?P @ replicate (16 - t) 0))
      = (\<not> M = ccm_code Key t N A ?P)"
    using assms(8-10) par(2) t cmp by (simp_all add: ccm_nonce_def sub32_le length_ccm_tag)
  show ?thesis
    unfolding AES_CCM_Decrypt_def Let_def guards(1)
    by (simp only: guards(2-4) par(4) if_False simp_thms option.case ccm_counter_eq [OF par(2)]
        ccm_cipher_eq [OF par(1) ctr] loop mac M option.map guards(5) if_not_P if_P
        split: if_split) blast
qed

text \<open>For at most 255 blocks the stream is that of the mode.\<close>

lemma ctr_stream_ccm:
  assumes "ccm_nonce N" and "j + k < 256"
  shows "ctr_stream E (ccm_ctr N j) k = concat (map (\<lambda>i. E (ccm_ctr N (j + i + 1))) [0..<k])"
  using assms(2)
proof (induction k arbitrary: j)
  case 0
  then show ?case by simp
next
  case (Suc k)
  have l: "length (ccm_ctr N 0) = 16" by (rule length_ccm_ctr [OF assms(1)])
  have "(ccm_ctr N j)[15 := ccm_ctr N j ! 15 + 1] = ccm_ctr N (Suc j)"
    using Suc.prems l by (simp add: ccm_ctr_next [OF assms(1), of j] ccm_ctr_next [OF assms(1), of "Suc j"] add.commute)
  then show ?case
    using Suc.IH [of "Suc j"] Suc.prems
    by (simp add: Let_def upt_conv_Cons map_Suc_upt [symmetric] comp_def del: upt_Suc)
qed

lemma ccm_text_mode:
  assumes "ccm_nonce N" and "length P \<le> 4080"
  shows "ccm_text Key N P @ ccm_code Key t N A P = ccm_encrypt (AES_enc_block Key 16) t N A P"
proof -
  let ?k = "(length P + 15) div 16"
  have "xor_bytes P (ctr_stream (AES_enc_block Key 16) (ccm_ctr N 0) (length P))
      = xor_bytes P (ctr_stream (AES_enc_block Key 16) (ccm_ctr N 0) ?k)"
    by (rule xor_ctr_stream_more) (simp, presburger+)
  moreover have "0 + ?k < 256" using assms(2) by simp
  ultimately show ?thesis using ctr_stream_ccm [OF assms(1), of 0 ?k] by (simp add: ccm_encrypt_def)
qed

text \<open>Beyond, the last byte of the counter block has come back to its first value.\<close>

lemma ctr_stream_word:
  assumes "length c = 16"
  shows "ctr_stream E c k = concat (map (\<lambda>i. E (c[15 := c ! 15 + word_of_nat (i + 1)])) [0..<k])"
  using assms
proof (induction k arbitrary: c)
  case 0
  then show ?case by simp
next
  case (Suc k)
  have "(c[15 := c ! 15 + 1]) ! 15 = c ! 15 + 1" using Suc.prems by simp
  then show ?case
    using Suc.IH [of "c[15 := c ! 15 + 1]"] Suc.prems
    by (simp add: Let_def upt_conv_Cons map_Suc_upt [symmetric] comp_def add.assoc del: upt_Suc)
qed

lemma ctr_stream_wraps:
  assumes "length c = 16" and "\<And>b. length (E b) = 16" and "256 \<le> k"
  shows "take 16 (drop 4080 (ctr_stream E c k)) = E c"
proof -
  let ?f = "\<lambda>i. E (c[15 := c ! 15 + word_of_nat (i + 1)])"
  have "[0..<k] = [0..<255] @ 255 # [256..<k]"
    using assms(3) upt_add_eq_append [of 0 255 "k - 255"] by (simp add: upt_conv_Cons del: upt_Suc)
  then have "ctr_stream E c k = concat (map ?f [0..<255]) @ ?f 255 @ concat (map ?f [256..<k])"
    unfolding ctr_stream_word [OF assms(1)] by simp
  moreover have "length (concat (map ?f [0..<255])) = 4080"
    using length_concat_blocks [of "map ?f [0..<255]" 16] assms(2) by auto
  moreover have z: "(256 :: u8) = 0" by (rule word_unat_eq_iff [THEN iffD2]) simp
  have "c[15 := c ! 15 + 256] = c" by (simp only: z add_0_right list_update_id)
  then have "?f 255 = E c" by simp
  ultimately show ?thesis using assms(2) by simp
qed

section \<open>Properties\<close>

text \<open>C36: For every 16-byte key, every nonce of 7 to 13 bytes, every allowed code size and associated
  data below \<open>0xFF00\<close> bytes, \<open>AES_CCM_Encrypt\<close> writes the CCM encryption of NIST SP 800-38C for a
  text of at most 4080 bytes, in place or over the bytes in front of it, and touches nothing
  else.\<close>

theorem AES_CCM_Encrypt_is_CCM:
  assumes "ccm_params Key N A t" and "length h = dst" and "length g = src" and "dst \<le> src"
    and "take dst (g @ P @ z) = h" and "t \<le> length z" and "length P \<le> 4080"
  shows "AES_CCM_Encrypt (g @ P @ z) src (length P) Key 16 N (length N) A (length A) t dst (length P + t)
    = Some (0, h @ ccm_encrypt (AES_enc_block Key 16) t N A P @ drop (dst + length P + t) (g @ P @ z),
        length P + t)"
proof -
  have N: "ccm_nonce N" and t: "t \<le> 16" using assms(1) by (auto simp: ccm_params_def ccm_mac_length_def)
  have "AES_CCM_Encrypt (g @ P @ z) src (length P) Key 16 N (length N) A (length A) t dst (length P + t)
    = Some (0, h @ ccm_text Key N P @ ccm_code Key t N A P @ drop (dst + length P + t) (g @ P @ z),
        length P + t)"
    by (rule AES_CCM_Encrypt_eq [OF assms(1) refl assms(2,4) _ assms(5)]) (use assms t in simp_all)
  then show ?thesis by (simp only: ccm_text_mode [OF N assms(7), symmetric] append_assoc)
qed

theorem AES_CCM_Encrypt_is_CCM_witness:
  "AES_CCM_Encrypt ([5] @ [1, 2, 3] @ replicate 8 0) 1 (length [1, 2, 3 :: u8]) (replicate 16 7) 16 (replicate 13 9)
      (length (replicate 13 9 :: bytes)) [4] (length [4 :: u8]) 8 1 (length [1, 2, 3 :: u8] + 8)
    = Some (0, [5] @ ccm_encrypt (AES_enc_block (replicate 16 7) 16) 8 (replicate 13 9) [4] [1, 2, 3]
        @ drop (1 + length [1, 2, 3 :: u8] + 8) ([5] @ [1, 2, 3] @ replicate 8 0), length [1, 2, 3 :: u8] + 8)"
  by (rule AES_CCM_Encrypt_is_CCM)
    (simp_all add: ccm_params_def ccm_nonce_def ccm_mac_length_def)

text \<open>C37: \<open>AES_CCM_Decrypt\<close> of what \<open>AES_CCM_Encrypt\<close> wrote in place reports success and restores the
  text, for texts of every length below \<open>2 ^ 32\<close>, also when it is written over a header in front of
  the encrypted text.\<close>

theorem AES_CCM_round_trip:
  assumes "ccm_params Key N A t" and "length g = src" and "dst \<le> src" and "length z = t"
    and "length P + t < 2 ^ 32"
  shows "\<exists>c p. AES_CCM_Encrypt (g @ P @ z) src (length P) Key 16 N (length N) A (length A) t src (length P + t)
      = Some (0, c, length P + t)
    \<and> AES_CCM_Decrypt c src (length P + t) Key 16 N (length N) A (length A) t dst (length P + t)
      = Some (0, p, length P)
    \<and> take dst p = take dst g \<and> take (length P) (drop dst p) = P"
proof -
  let ?C = "ccm_text Key N P" and ?M = "ccm_code Key t N A P"
  let ?c = "g @ ?C @ ?M"
  have t: "t \<le> 16" using assms(1) by (auto simp: ccm_params_def ccm_mac_length_def)
  have M: "length ?M = t" using t by (simp add: length_ccm_tag)
  have C: "length ?C = length P" by (rule length_ccm_text)
  have enc: "AES_CCM_Encrypt (g @ P @ z) src (length P) Key 16 N (length N) A (length A) t src (length P + t)
      = Some (0, ?c, length P + t)"
    using AES_CCM_Encrypt_eq [OF assms(1) refl assms(2) order_refl, where P = P and mem = "g @ P @ z"
        and len = "length P + t"] assms
    by simp
  have "AES_CCM_Decrypt ?c src (length P + t) Key 16 N (length N) A (length A) t dst (length P + t)
      = Some (if ?M = ccm_code Key t N A (ccm_text Key N ?C) then 0 else -5,
          take dst g @ ccm_text Key N ?C @ drop (dst + length P) ?c, length P)"
    by (rule AES_CCM_Decrypt_eq [OF assms(1) C M _ assms(3)]) (use assms C M in simp_all)
  then have "AES_CCM_Decrypt ?c src (length P + t) Key 16 N (length N) A (length A) t dst (length P + t)
      = Some (0, take dst g @ P @ drop (dst + length P) ?c, length P)"
    by (simp only: ccm_text_twice simp_thms if_True)
  with enc assms(2,3) show ?thesis
    by (intro exI [of _ ?c] exI [of _ "take dst g @ P @ drop (dst + length P) ?c"]) simp
qed

theorem AES_CCM_round_trip_witness:
  "\<exists>c p. AES_CCM_Encrypt ([5, 6] @ [1, 2, 3] @ replicate 8 0) 2 (length [1, 2, 3 :: u8]) (replicate 16 7) 16
        (replicate 13 9) (length (replicate 13 9 :: bytes)) [4] (length [4 :: u8]) 8 2 (length [1, 2, 3 :: u8] + 8)
      = Some (0, c, length [1, 2, 3 :: u8] + 8)
    \<and> AES_CCM_Decrypt c 2 (length [1, 2, 3 :: u8] + 8) (replicate 16 7) 16 (replicate 13 9)
        (length (replicate 13 9 :: bytes)) [4] (length [4 :: u8]) 8 0 (length [1, 2, 3 :: u8] + 8)
      = Some (0, p, length [1, 2, 3 :: u8])
    \<and> take 0 p = take 0 [5, 6] \<and> take (length [1, 2, 3 :: u8]) (drop 0 p) = [1, 2, 3]"
  by (rule AES_CCM_round_trip) (simp_all add: ccm_params_def ccm_nonce_def ccm_mac_length_def)

text \<open>C38: \<open>AES_CCM_Decrypt\<close> reports success exactly when the code at the end of the text is that of
  the text it decrypted; otherwise it reports \<open>-5\<close>, but the unauthenticated text stands in the
  output buffer and its length is reported all the same.\<close>

theorem AES_CCM_Decrypt_accepts_iff:
  assumes "ccm_params Key N A t" and "length g = src" and "dst \<le> src" and "length M = t"
    and "length C + t < 2 ^ 32" and "length C \<le> len"
    and P: "P = xor_bytes C (ctr_stream (AES_enc_block Key 16) (ccm_ctr N 0) (length C))"
  shows "\<exists>r rest. AES_CCM_Decrypt (g @ C @ M) src (length C + t) Key 16 N (length N) A (length A) t dst len
      = Some (r, take dst g @ P @ rest, length C)
    \<and> (r = 0 \<longleftrightarrow> M = xor_bytes (ccm_tag (AES_enc_block Key 16) t N A P) (AES_enc_block Key 16 (ccm_ctr N 0)))
    \<and> (r = 0 \<or> r = -5)"
proof -
  have "AES_CCM_Decrypt (g @ C @ M) src (length C + t) Key 16 N (length N) A (length A) t dst len
      = Some (if M = ccm_code Key t N A (ccm_text Key N C) then 0 else -5,
          take dst g @ ccm_text Key N C @ drop (dst + length C) (g @ C @ M), length C)"
    by (rule AES_CCM_Decrypt_eq [OF assms(1) refl assms(4) _ assms(3)]) (use assms(2-6) in simp_all)
  then show ?thesis unfolding P by (intro exI conjI) (assumption, simp_all)
qed

theorem AES_CCM_Decrypt_accepts_iff_witness:
  "\<exists>r rest. AES_CCM_Decrypt ([5] @ [] @ [1, 2, 3, 4]) 1 (length ([] :: bytes) + 4) (replicate 16 7) 16 (replicate 13 9)
        (length (replicate 13 9 :: bytes)) [4] (length [4 :: u8]) 4 0 4
      = Some (r, take 0 [5] @ [] @ rest, length ([] :: bytes))
    \<and> (r = 0 \<longleftrightarrow> [1, 2, 3, 4] = xor_bytes (ccm_tag (AES_enc_block (replicate 16 7) 16) 4 (replicate 13 9) [4] [])
        (AES_enc_block (replicate 16 7) 16 (ccm_ctr (replicate 13 9) 0)))
    \<and> (r = 0 \<or> r = -5)"
  by (rule AES_CCM_Decrypt_accepts_iff)
    (simp_all add: ccm_params_def ccm_nonce_def ccm_mac_length_def)

text \<open>The counter is one byte wide. In a text of more than 255 blocks the 256th block is combined
  with the block that also hides the authentication code, so that whoever knows it learns the
  bare code; SP 800-38C forbids the reuse of a counter block.\<close>

theorem AES_CCM_counter_wraps:
  assumes "ccm_params Key N A t" and "length g = src" and "length z = t"
    and "4096 \<le> length P" and "length P + t < 2 ^ 32"
  shows "\<exists>c. AES_CCM_Encrypt (g @ P @ z) src (length P) Key 16 N (length N) A (length A) t src (length P + t)
      = Some (0, c, length P + t)
    \<and> take 16 (drop (src + 4080) c)
      = xor_bytes (take 16 (drop 4080 P)) (AES_enc_block Key 16 (ccm_ctr N 0))
    \<and> drop (src + length P) c
      = xor_bytes (ccm_tag (AES_enc_block Key 16) t N A P) (AES_enc_block Key 16 (ccm_ctr N 0))"
proof -
  have N: "ccm_nonce N" and t: "t \<le> 16" using assms(1) by (auto simp: ccm_params_def ccm_mac_length_def)
  let ?c = "g @ ccm_text Key N P @ ccm_code Key t N A P"
  have "AES_CCM_Encrypt (g @ P @ z) src (length P) Key 16 N (length N) A (length A) t src (length P + t)
      = Some (0, ?c, length P + t)"
    using AES_CCM_Encrypt_eq [OF assms(1) refl assms(2) order_refl, where P = P and mem = "g @ P @ z"
        and len = "length P + t"] assms
    by simp
  moreover have "take 16 (drop (src + 4080) ?c) = take 16 (drop 4080 (ccm_text Key N P))"
    using assms(2,4) by (simp add: length_ctr_stream)
  moreover have "\<dots> = xor_bytes (take 16 (drop 4080 P)) (AES_enc_block Key 16 (ccm_ctr N 0))"
    unfolding drop_xor_bytes take_xor_bytes
    using ctr_stream_wraps [OF length_ccm_ctr [OF N], of "AES_enc_block Key 16" "length P" 0] assms(4) by simp
  moreover have "drop (src + length P) ?c = ccm_code Key t N A P"
    using assms(2) by (simp add: length_ctr_stream)
  ultimately show ?thesis by (intro exI [of _ ?c]) (simp only: simp_thms)
qed

theorem AES_CCM_counter_wraps_witness:
  "\<exists>c. AES_CCM_Encrypt ([] @ replicate 4096 1 @ replicate 8 0) 0 (length (replicate 4096 1 :: bytes))
        (replicate 16 7) 16 (replicate 13 9) (length (replicate 13 9 :: bytes)) [4] (length [4 :: u8]) 8 0
        (length (replicate 4096 1 :: bytes) + 8)
      = Some (0, c, length (replicate 4096 1 :: bytes) + 8)
    \<and> take 16 (drop (0 + 4080) c)
      = xor_bytes (take 16 (drop 4080 (replicate 4096 1)))
          (AES_enc_block (replicate 16 7) 16 (ccm_ctr (replicate 13 9) 0))
    \<and> drop (0 + length (replicate 4096 1 :: bytes)) c
      = xor_bytes (ccm_tag (AES_enc_block (replicate 16 7) 16) 8 (replicate 13 9) [4] (replicate 4096 1))
          (AES_enc_block (replicate 16 7) 16 (ccm_ctr (replicate 13 9) 0))"
  by (rule AES_CCM_counter_wraps)
    (simp_all add: ccm_params_def ccm_nonce_def ccm_mac_length_def)

end
