(* ===== verification/Cmm_Aes.thy ===== *)
theory Cmm_Aes
  imports Aes_Fips
begin

text \<open>
  The second AES of the driver, from \<open>rt5572/common/cmm_aes.c\<close>: the block cipher with its key
  expanded in step with the rounds, which \<open>RTMPSoftDecryptAES\<close> uses. It computes the same
  function as \<open>RT_AES_Encrypt\<close> with a 16-byte key.
\<close>

section \<open>The operations\<close>

definition SboxTable :: bytes where
  "SboxTable =
    [0x63, 0x7c, 0x77, 0x7b, 0xf2, 0x6b, 0x6f, 0xc5, 0x30, 0x01, 0x67, 0x2b, 0xfe, 0xd7, 0xab, 0x76,
     0xca, 0x82, 0xc9, 0x7d, 0xfa, 0x59, 0x47, 0xf0, 0xad, 0xd4, 0xa2, 0xaf, 0x9c, 0xa4, 0x72, 0xc0,
     0xb7, 0xfd, 0x93, 0x26, 0x36, 0x3f, 0xf7, 0xcc, 0x34, 0xa5, 0xe5, 0xf1, 0x71, 0xd8, 0x31, 0x15,
     0x04, 0xc7, 0x23, 0xc3, 0x18, 0x96, 0x05, 0x9a, 0x07, 0x12, 0x80, 0xe2, 0xeb, 0x27, 0xb2, 0x75,
     0x09, 0x83, 0x2c, 0x1a, 0x1b, 0x6e, 0x5a, 0xa0, 0x52, 0x3b, 0xd6, 0xb3, 0x29, 0xe3, 0x2f, 0x84,
     0x53, 0xd1, 0x00, 0xed, 0x20, 0xfc, 0xb1, 0x5b, 0x6a, 0xcb, 0xbe, 0x39, 0x4a, 0x4c, 0x58, 0xcf,
     0xd0, 0xef, 0xaa, 0xfb, 0x43, 0x4d, 0x33, 0x85, 0x45, 0xf9, 0x02, 0x7f, 0x50, 0x3c, 0x9f, 0xa8,
     0x51, 0xa3, 0x40, 0x8f, 0x92, 0x9d, 0x38, 0xf5, 0xbc, 0xb6, 0xda, 0x21, 0x10, 0xff, 0xf3, 0xd2,
     0xcd, 0x0c, 0x13, 0xec, 0x5f, 0x97, 0x44, 0x17, 0xc4, 0xa7, 0x7e, 0x3d, 0x64, 0x5d, 0x19, 0x73,
     0x60, 0x81, 0x4f, 0xdc, 0x22, 0x2a, 0x90, 0x88, 0x46, 0xee, 0xb8, 0x14, 0xde, 0x5e, 0x0b, 0xdb,
     0xe0, 0x32, 0x3a, 0x0a, 0x49, 0x06, 0x24, 0x5c, 0xc2, 0xd3, 0xac, 0x62, 0x91, 0x95, 0xe4, 0x79,
     0xe7, 0xc8, 0x37, 0x6d, 0x8d, 0xd5, 0x4e, 0xa9, 0x6c, 0x56, 0xf4, 0xea, 0x65, 0x7a, 0xae, 0x08,
     0xba, 0x78, 0x25, 0x2e, 0x1c, 0xa6, 0xb4, 0xc6, 0xe8, 0xdd, 0x74, 0x1f, 0x4b, 0xbd, 0x8b, 0x8a,
     0x70, 0x3e, 0xb5, 0x66, 0x48, 0x03, 0xf6, 0x0e, 0x61, 0x35, 0x57, 0xb9, 0x86, 0xc1, 0x1d, 0x9e,
     0xe1, 0xf8, 0x98, 0x11, 0x69, 0xd9, 0x8e, 0x94, 0x9b, 0x1e, 0x87, 0xe9, 0xce, 0x55, 0x28, 0xdf,
     0x8c, 0xa1, 0x89, 0x0d, 0xbf, 0xe6, 0x42, 0x68, 0x41, 0x99, 0x2d, 0x0f, 0xb0, 0x54, 0xbb, 0x16]"

definition xor_32 :: "bytes \<Rightarrow> bytes \<Rightarrow> bytes" where
  "xor_32 a b = map (\<lambda>i. a ! i XOR b ! i) [0..<4]"

definition xor_128 :: "bytes \<Rightarrow> bytes \<Rightarrow> bytes" where
  "xor_128 a b = map (\<lambda>i. a ! i XOR b ! i) [0..<16]"

definition bitwise_xor :: "bytes \<Rightarrow> bytes \<Rightarrow> bytes" where
  "bitwise_xor ina inb = map (\<lambda>i. ina ! i XOR inb ! i) [0..<16]"

definition RTMPCkipSbox :: "u8 \<Rightarrow> u8" where
  "RTMPCkipSbox a = SboxTable ! unat a"

definition rcon_table :: bytes where
  "rcon_table = [0x01, 0x02, 0x04, 0x08, 0x10, 0x20, 0x40, 0x80, 0x1b, 0x36, 0x36, 0x36]"

text \<open>\<open>key\<close> is updated in place; a call \<open>xor_32(&key[j], x, &key[j])\<close> replaces four of its bytes.\<close>

definition xor_32_at :: "nat \<Rightarrow> bytes \<Rightarrow> bytes \<Rightarrow> bytes" where
  "xor_32_at j x key = take j key @ xor_32 (take 4 (drop j key)) x @ drop (j + 4) key"

definition next_key :: "bytes \<Rightarrow> nat \<Rightarrow> bytes" where
  "next_key key round =
     (let sbox_key = [RTMPCkipSbox (key ! 13), RTMPCkipSbox (key ! 14), RTMPCkipSbox (key ! 15),
            RTMPCkipSbox (key ! 12)];
          rcon = rcon_table ! round;
          key = xor_32_at 0 sbox_key key;
          key = key[0 := key ! 0 XOR rcon];
          key = xor_32_at 4 (take 4 key) key;
          key = xor_32_at 8 (take 4 (drop 4 key)) key
      in xor_32_at 12 (take 4 (drop 8 key)) key)"

definition byte_sub :: "bytes \<Rightarrow> bytes" where
  "byte_sub inp = map (\<lambda>i. RTMPCkipSbox (inp ! i)) [0..<16]"

definition shift_row :: "bytes \<Rightarrow> bytes" where
  "shift_row inp =
     [inp ! 0, inp ! 5, inp ! 10, inp ! 15, inp ! 4, inp ! 9, inp ! 14, inp ! 3,
      inp ! 8, inp ! 13, inp ! 2, inp ! 7, inp ! 12, inp ! 1, inp ! 6, inp ! 11]"

definition mix_column :: "bytes \<Rightarrow> bytes" where
  "mix_column inp =
     (let add1b = map (\<lambda>i. if inp ! i AND 0x80 = 0x80 then 0x1b else 0x00) [0..<4];
          swap_halfs = [inp ! 2, inp ! 3, inp ! 0, inp ! 1];
          rotl = [inp ! 3, inp ! 0, inp ! 1, inp ! 2];
          andf7 = [inp ! 0 AND 0x7f, inp ! 1 AND 0x7f, inp ! 2 AND 0x7f, inp ! 3 AND 0x7f];
          andf7 = foldl (\<lambda>f i.
              let f = f[i := push_bit 1 (f ! i)]
              in if f ! (i - 1) AND 0x80 = 0x80 then f[i := f ! i OR 0x01] else f) andf7 [3, 2, 1];
          andf7 = andf7[0 := push_bit 1 (andf7 ! 0)];
          andf7 = andf7[0 := andf7 ! 0 AND 0xfe];
          add1bf7 = xor_32 add1b andf7;
          rotr = xor_32 inp add1bf7;
          rotr = [rotr ! 1, rotr ! 2, rotr ! 3, rotr ! 0];
          temp = xor_32 add1bf7 rotr;
          tempb = xor_32 swap_halfs rotl
      in xor_32 temp tempb)"

text \<open>One turn of the loop of \<open>aes128k128d\<close>: the round key and the text.\<close>

definition aes_turn :: "bytes \<Rightarrow> bytes \<times> bytes \<Rightarrow> nat \<Rightarrow> bytes \<times> bytes" where
  "aes_turn data s round =
     (case s of (round_key, ciphertext) \<Rightarrow>
        if round = 0 then (next_key round_key round, xor_128 round_key data)
        else if round = 10 then
          let intermediateb = shift_row (byte_sub ciphertext)
          in (round_key, xor_128 intermediateb round_key)
        else
          let intermediateb = shift_row (byte_sub ciphertext);
              intermediatea = mix_column (take 4 intermediateb)
                @ mix_column (take 4 (drop 4 intermediateb))
                @ mix_column (take 4 (drop 8 intermediateb))
                @ mix_column (take 4 (drop 12 intermediateb))
          in (next_key round_key round, xor_128 intermediatea round_key))"

definition aes128k128d :: "bytes \<Rightarrow> bytes \<Rightarrow> bytes" where
  "aes128k128d key data = snd (foldl (aes_turn data) (take 16 key, replicate 16 0) [0..<11])"

section \<open>The same cipher\<close>

lemma SboxTable_eq: "SboxTable = aes_sbox_enc"
  by (simp only: SboxTable_def aes_sbox_enc_def)

lemma RTMPCkipSbox_eq: "RTMPCkipSbox = byte_at aes_sbox_enc"
  by (rule ext) (simp add: RTMPCkipSbox_def SboxTable_eq byte_at_def)

lemma length_sixteen:
  "length xs = 16 \<longleftrightarrow> (\<exists>a b c d. xs = a @ b @ c @ d \<and> length a = 4 \<and> length b = 4 \<and> length c = 4 \<and> length d = 4)"
proof
  assume len: "length xs = 16"
  have "xs = take 4 xs @ take 4 (drop 4 xs) @ take 4 (drop 8 xs) @ drop 12 xs"
    using append_take_drop_id [of 4 "drop 4 xs"] append_take_drop_id [of 4 "drop 8 xs"] by simp
  then show "\<exists>a b c d. xs = a @ b @ c @ d \<and> length a = 4 \<and> length b = 4 \<and> length c = 4 \<and> length d = 4"
    using len by (intro exI [of _ "take 4 xs"] exI [of _ "take 4 (drop 4 xs)"]
        exI [of _ "take 4 (drop 8 xs)"] exI [of _ "drop 12 xs"]) simp
qed auto

text \<open>A block as its 16 bytes.\<close>

lemma sixteen_cases:
  assumes "length xs = 16"
  obtains a0 a1 a2 a3 b0 b1 b2 b3 c0 c1 c2 c3 d0 d1 d2 d3 where
    "xs = [a0, a1, a2, a3, b0, b1, b2, b3, c0, c1, c2, c3, d0, d1, d2, d3]"
  using assms unfolding length_sixteen length_four by auto

lemma byte_sub_fips: "length s = 16 \<Longrightarrow> byte_sub s = fips_SubWord s"
  by (rule nth_equalityI) (simp_all add: byte_sub_def fips_SubWord_def RTMPCkipSbox_eq del: upt_Suc)

lemma shift_row_fips: "shift_row s = fips_ShiftRows s"
  by (simp add: shift_row_def fips_ShiftRows_def upt16)

lemma xor_128_eq: "length a = 16 \<Longrightarrow> length b = 16 \<Longrightarrow> xor_128 a b = xor_bytes a b"
  by (rule nth_equalityI) (simp_all add: xor_128_def del: upt_Suc)

lemma bitwise_xor_eq: "length a = 16 \<Longrightarrow> length b = 16 \<Longrightarrow> bitwise_xor a b = xor_bytes a b"
  by (rule nth_equalityI) (simp_all add: bitwise_xor_def del: upt_Suc)

lemma xtime_bits: "xtime x = (if x AND 0x80 = 0x80 then 0x1b else 0) XOR push_bit 1 (x AND 0x7f)"
  by (rule byte_fun_eqI) (simp add: all_bytes_def xtime_def)

lemma and_7f_top: "(x AND 0x7f) AND 0x80 \<noteq> (0x80 :: u8)"
  by (simp add: and.assoc)

lemma push_and_fe: "push_bit 1 (x AND 0x7f) AND 0xfe = (push_bit 1 (x AND 0x7f) :: u8)"
  by (rule bit_word_eqI) (auto simp: bit_simps)

lemma carry_loop:
  assumes "a AND 0x80 \<noteq> 0x80" and "b AND 0x80 \<noteq> 0x80" and "c AND 0x80 \<noteq> (0x80 :: u8)"
  shows "foldl (\<lambda>f i.
      let f = f[i := push_bit 1 (f ! i)]
      in if f ! (i - 1) AND 0x80 = 0x80 then f[i := f ! i OR 0x01] else f) [a, b, c, d] [3, 2, 1]
    = [a, push_bit 1 b, push_bit 1 c, push_bit 1 d]"
  using assms by (simp add: Let_def numeral_eq_Suc del: push_bit_Suc)

lemma update_first: "(x # xs)[0 := v] = v # xs"
  by simp

lemma mix_column_eq:
  "mix_column [a, b, c, d] =
    [xtime a XOR (xtime b XOR b) XOR c XOR d, a XOR xtime b XOR (xtime c XOR c) XOR d,
     a XOR b XOR xtime c XOR (xtime d XOR d), (xtime a XOR a) XOR b XOR c XOR xtime d]"
proof -
  define T :: "u8 \<Rightarrow> u8" where "T x = (if x AND 0x80 = 0x80 then 0x1b else 0)" for x
  define S :: "u8 \<Rightarrow> u8" where "S x = push_bit 1 (x AND 0x7f)" for x
  have fe: "S x AND 0xfe = S x" for x unfolding S_def by (rule push_and_fe)
  have xt: "xtime x = T x XOR S x" for x unfolding T_def S_def by (rule xtime_bits)
  have "mix_column [a, b, c, d] =
      xor_32 (xor_32 (xor_32 [T a, T b, T c, T d] [S a, S b, S c, S d])
        [xor_32 [a, b, c, d] (xor_32 [T a, T b, T c, T d] [S a, S b, S c, S d]) ! 1,
         xor_32 [a, b, c, d] (xor_32 [T a, T b, T c, T d] [S a, S b, S c, S d]) ! 2,
         xor_32 [a, b, c, d] (xor_32 [T a, T b, T c, T d] [S a, S b, S c, S d]) ! 3,
         xor_32 [a, b, c, d] (xor_32 [T a, T b, T c, T d] [S a, S b, S c, S d]) ! 0])
        (xor_32 [c, d, a, b] [d, a, b, c])"
    unfolding mix_column_def Let_def [of "map _ _"] Let_def [of "_ # _"] nth4 upt4 list.map
      carry_loop [OF and_7f_top and_7f_top and_7f_top]
    unfolding Let_def nth4 update_first T_def [symmetric] S_def [symmetric] fe ..
  also have "\<dots> = [xtime a XOR (xtime b XOR b) XOR c XOR d, a XOR xtime b XOR (xtime c XOR c) XOR d,
     a XOR b XOR xtime c XOR (xtime d XOR d), (xtime a XOR a) XOR b XOR c XOR xtime d]"
    by (simp add: xor_32_def upt4 nth4 xt ac_simps)
  finally show ?thesis .
qed

lemma mix_columns_fips:
  assumes "length s = 16"
  shows "mix_column (take 4 s) @ mix_column (take 4 (drop 4 s)) @ mix_column (take 4 (drop 8 s))
      @ mix_column (take 4 (drop 12 s)) = fips_MixColumns s"
  using assms
  by (elim sixteen_cases)
    (simp add: mix_column_eq fips_MixColumns_def fips_coeff_def gf_times_small gf_times_1 upt16 upt4 nth4 ac_simps)

text \<open>The round key before round \<open>n\<close> is the words \<open>4 n\<close> to \<open>4 n + 3\<close> of the expanded key.\<close>

definition key_words :: "bytes \<Rightarrow> nat \<Rightarrow> bytes" where
  "key_words key n = concat (map (\<lambda>c. fips_w 4 key (4 * n + c)) [0..<4])"

lemma rcon_table_fips: "n < 10 \<Longrightarrow> [rcon_table ! n, 0, 0, 0] = fips_Rcon (n + 1)"
proof -
  have "list_all (\<lambda>n. [rcon_table ! n, 0, 0, 0] = fips_Rcon (n + 1)) [0..<10]" by code_simp
  then show "n < 10 \<Longrightarrow> ?thesis" by (simp only: list_all_iff set_upt) auto
qed

lemma xor_32_eq: "length a = 4 \<Longrightarrow> length b = 4 \<Longrightarrow> xor_32 a b = xor_bytes a b"
  by (rule nth_equalityI) (simp_all add: xor_32_def del: upt_Suc)

text \<open>The next four words, of the four before them.\<close>

lemma next_key_append:
  assumes "length a = 4" and "length b = 4" and "length c = 4" and "d = [d0, d1, d2, d3]"
    and a': "a' = xor_bytes a (xor_bytes (fips_SubWord [d1, d2, d3, d0]) [rcon_table ! n, 0, 0, 0])"
  shows "next_key (a @ b @ c @ d) n
    = a' @ xor_bytes b a' @ xor_bytes c (xor_bytes b a') @ xor_bytes d (xor_bytes c (xor_bytes b a'))"
proof -
  let ?k = "a @ b @ c @ d" and ?s = "fips_SubWord [d1, d2, d3, d0]"
  have s: "[RTMPCkipSbox (?k ! 13), RTMPCkipSbox (?k ! 14), RTMPCkipSbox (?k ! 15), RTMPCkipSbox (?k ! 12)] = ?s"
    using assms(1-4) by (simp add: nth_append nth4 fips_SubWord_def RTMPCkipSbox_eq)
  obtain a0 a1 a2 a3 where av: "a = [a0, a1, a2, a3]" using assms(1) by (auto simp: length_four)
  have l: "length ?s = 4" by (simp add: fips_SubWord_def)
  have x: "xor_32_at 0 ?s ?k = xor_bytes a ?s @ b @ c @ d"
    using assms(1) l by (simp add: xor_32_at_def xor_32_eq)
  have u: "(xor_bytes a ?s @ b @ c @ d)[0 := (xor_bytes a ?s @ b @ c @ d) ! 0 XOR rcon_table ! n] = a' @ b @ c @ d"
    unfolding a' av fips_SubWord_def by (simp add: ac_simps)
  have la: "length a' = 4" using assms(1) l a' by simp
  have "next_key ?k n = xor_32_at 12 (take 4 (drop 8 (xor_32_at 8 (take 4 (drop 4 (xor_32_at 4 (take 4 (a' @ b @ c @ d)) (a' @ b @ c @ d)))) (xor_32_at 4 (take 4 (a' @ b @ c @ d)) (a' @ b @ c @ d)))))
      (xor_32_at 8 (take 4 (drop 4 (xor_32_at 4 (take 4 (a' @ b @ c @ d)) (a' @ b @ c @ d)))) (xor_32_at 4 (take 4 (a' @ b @ c @ d)) (a' @ b @ c @ d)))"
    unfolding next_key_def Let_def s x u ..
  moreover have "xor_32_at 4 (take 4 (a' @ b @ c @ d)) (a' @ b @ c @ d) = a' @ xor_bytes b a' @ c @ d"
    using assms(1-4) la by (simp add: xor_32_at_def xor_32_eq)
  moreover have "xor_32_at 8 (take 4 (drop 4 (a' @ xor_bytes b a' @ c @ d))) (a' @ xor_bytes b a' @ c @ d)
      = a' @ xor_bytes b a' @ xor_bytes c (xor_bytes b a') @ d"
    using assms(1-4) la by (simp add: xor_32_at_def xor_32_eq)
  moreover have "xor_32_at 12 (take 4 (drop 8 (a' @ xor_bytes b a' @ xor_bytes c (xor_bytes b a') @ d)))
      (a' @ xor_bytes b a' @ xor_bytes c (xor_bytes b a') @ d)
      = a' @ xor_bytes b a' @ xor_bytes c (xor_bytes b a') @ xor_bytes d (xor_bytes c (xor_bytes b a'))"
    using assms(1-4) la by (simp add: xor_32_at_def xor_32_eq)
  ultimately show ?thesis by simp
qed

lemma next_key_words:
  assumes "16 \<le> length key" and "n < 10"
  shows "next_key (key_words key n) n = key_words key (n + 1)"
proof -
  let ?w = "fips_w 4 key"
  have len: "length (?w i) = 4" for i using length_fips_w [of 4 key i] assms(1) by simp
  obtain d0 d1 d2 d3 where d: "?w (4 * n + 3) = [d0, d1, d2, d3]" using len by (meson length_four)
  have step: "?w (4 * n + 4 + k) = xor_bytes (?w (4 * n + k)) (?w (4 * n + 3 + k))" if "k \<in> {1, 2, 3}" for k
  proof -
    have "(4 * n + 4 + k) mod 4 \<noteq> 0" using that by auto
    then show ?thesis using that by (subst fips_w.simps) (auto simp: Let_def)
  qed
  have first: "?w (4 * n + 4) = xor_bytes (?w (4 * n))
      (xor_bytes (fips_SubWord [d1, d2, d3, d0]) [rcon_table ! n, 0, 0, 0])"
    using rcon_table_fips [OF assms(2)] d d [unfolded add.commute [of "4 * n" 3]]
    by (subst fips_w.simps) (simp add: Let_def fips_RotWord_def)
  have words: "key_words key m = ?w (4 * m) @ ?w (4 * m + 1) @ ?w (4 * m + 2) @ ?w (4 * m + 3)" for m
    by (simp add: key_words_def upt4)
  have s: "?w (4 * (n + 1)) = ?w (4 * n + 4)" "?w (4 * (n + 1) + 1) = xor_bytes (?w (4 * n + 1)) (?w (4 * n + 4))"
    "?w (4 * (n + 1) + 2) = xor_bytes (?w (4 * n + 2)) (?w (4 * (n + 1) + 1))"
    "?w (4 * (n + 1) + 3) = xor_bytes (?w (4 * n + 3)) (?w (4 * (n + 1) + 2))"
    using step [of 1] step [of 2] step [of 3] by (simp_all add: add.commute add.left_commute)
  show ?thesis
    unfolding words s
    by (rule next_key_append [OF len len len d first])
qed

lemma length_key_words:
  assumes "16 \<le> length key"
  shows "length (key_words key n) = 16"
  using length_fips_w [of 4 key] assms by (simp add: key_words_def upt4)

lemma key_words_0:
  assumes "16 \<le> length key"
  shows "key_words key 0 = take 16 key"
proof -
  have "fips_w 4 key 0 = take 4 key" "fips_w 4 key (Suc 0) = take 4 (drop 4 key)"
    "fips_w 4 key 2 = take 4 (drop 8 key)" "fips_w 4 key 3 = take 4 (drop 12 key)"
    by (simp_all add: fips_w.simps)
  moreover have "take 16 key = take 4 key @ take 4 (drop 4 key) @ take 4 (drop 8 key) @ take 4 (drop 12 key)"
    using take_add [of 4 12 key] take_add [of 4 8 "drop 4 key"] take_add [of 4 4 "drop 8 key"] by simp
  ultimately show ?thesis by (simp add: key_words_def upt4)
qed

lemma aes128k128d_fips:
  assumes key: "16 \<le> length key" and data: "length data = 16"
  shows "aes128k128d key data = fips_Cipher 4 key data"
proof -
  let ?w = "fips_w 4 key"
  let ?r = "\<lambda>s n. fips_AddRoundKey ?w n (fips_MixColumns (fips_ShiftRows (fips_SubWord s)))"
  have ark: "fips_AddRoundKey ?w n s = xor_bytes s (key_words key n)" for n s
    by (simp add: fips_AddRoundKey_def key_words_def)
  have kw: "length (key_words key n) = 16" for n by (rule length_key_words [OF key])
  have sub: "length (fips_SubWord s) = length s" "length (fips_ShiftRows s) = 16" for s
    by (simp_all add: fips_SubWord_def fips_ShiftRows_def)
  have mix: "length (fips_MixColumns s) = 16" for s by (simp add: fips_MixColumns_def)
  have zero: "aes_turn data (take 16 key, x) 0 = (key_words key 1, fips_AddRoundKey ?w 0 data)" for x
    using next_key_words [OF key, of 0] kw [of 0] data
    by (simp add: aes_turn_def key_words_0 [OF key, symmetric] ark xor_128_eq xor_bytes_commute)
  have round: "aes_turn data (key_words key n, s) n = (key_words key (n + 1), ?r s n)"
    if "length s = 16" "0 < n" "n < 10" for s n
    unfolding aes_turn_def prod.case Let_def byte_sub_fips [OF that(1)] shift_row_fips
      mix_columns_fips [OF sub(2)] ark xor_128_eq [OF mix kw]
    using that(2,3) next_key_words [OF key that(3)] by simp
  have rounds: "foldl (aes_turn data) (key_words key 1, s) [1..<m + 1] = (key_words key (m + 1), foldl ?r s [1..<m + 1])
      \<and> length (foldl ?r s [1..<m + 1]) = 16"
    if "length s = 16" "m < 10" for s m
    using that
  proof (induction m)
    case 0
    then show ?case by simp
  next
    case (Suc m)
    then show ?case
      using round [of "foldl ?r s [1..<m + 1]" "m + 1"] kw
      by (simp add: ark fips_MixColumns_def)
  qed
  let ?s = "fips_AddRoundKey ?w 0 data"
  have s: "length ?s = 16" using data kw by (simp add: ark)
  from rounds [OF s, of 9] have r9: "foldl (aes_turn data) (key_words key 1, ?s) [1..<10] = (key_words key 10, foldl ?r ?s [1..<10])"
    "length (foldl ?r ?s [1..<10]) = 16" by simp_all
  have "[0..<11] = 0 # [1..<10] @ [10]" by (simp add: upt_rec)
  then have "foldl (aes_turn data) (take 16 key, replicate 16 0) [0..<11]
      = aes_turn data (key_words key 10, foldl ?r ?s [1..<10]) 10"
    using r9(1) by (simp add: zero)
  also have "\<dots> = (key_words key 10, fips_AddRoundKey ?w 10 (fips_ShiftRows (fips_SubWord (foldl ?r ?s [1..<10]))))"
    using r9(2) kw by (simp add: aes_turn_def Let_def ark xor_128_eq sub byte_sub_fips shift_row_fips)
  finally show ?thesis by (simp add: aes128k128d_def fips_Cipher_def Let_def)
qed

lemma aes128k128d_eq:
  assumes "16 \<le> length key" and "length data = 16"
  shows "aes128k128d key data = AES_enc_block key 16 data"
  using AES_enc_block_fips [of 16 key data] aes128k128d_fips [OF assms] assms
  by (simp add: aes_key_length_def)

section \<open>The property\<close>

text \<open>The driver's two implementations of AES agree: \<open>aes128k128d\<close>, which expands the key in step
  with the rounds and computes products by shifts, gives the block that the table-driven
  \<open>RT_AES_Encrypt\<close> writes, which is the Cipher of FIPS 197, for every key and block.\<close>

theorem aes128k128d_is_RT_AES_Encrypt:
  assumes "length key = 16" and "length data = 16"
  shows "RT_AES_Encrypt data 16 key 16 (replicate 16 0) 16 = Some (aes128k128d key data, 16)
    \<and> aes128k128d key data = fips_Cipher 4 key data"
  using RT_AES_Encrypt_block [of 16 key data "replicate 16 0" 16] assms
    aes128k128d_eq [of key data] aes128k128d_fips [of key data]
  by (simp add: aes_key_length_def)

theorem aes128k128d_is_RT_AES_Encrypt_witness:
  "RT_AES_Encrypt (replicate 16 3) 16 (replicate 16 7) 16 (replicate 16 0) 16
      = Some (aes128k128d (replicate 16 7) (replicate 16 3), 16)
    \<and> aes128k128d (replicate 16 7) (replicate 16 3) = fips_Cipher 4 (replicate 16 7) (replicate 16 3)"
  by (rule aes128k128d_is_RT_AES_Encrypt) simp_all

end
