(* ===== verification/Cmm_Ccmp.thy ===== *)
theory Cmm_Ccmp
  imports Ccm_Properties Cmm_Aes Cmm_Wep
begin

text \<open>
  The protection of frames with CCMP, from \<open>rt5572/common/cmm_aes.c\<close>: the associated data, the
  nonce and the CCMP header, software encryption and decryption over the CCM routines of
  \<open>Aes_Ccm\<close>, and the older \<open>RTMPSoftDecryptAES\<close>, which has the mode and the cipher written out.
\<close>

section \<open>The fields of the header\<close>

text \<open>
  \<open>BTYPE_DATA\<close> is 2, \<open>BTYPE_MGMT\<close> is 0, and the four subtypes of data frames with a QoS field
  are 8 to 11.
\<close>

definition frame_type :: "bytes \<Rightarrow> u8" where
  "frame_type pHdr = drop_bit 2 (pHdr ! 0) AND 0x03"

definition frame_subtype :: "bytes \<Rightarrow> u8" where
  "frame_subtype pHdr = drop_bit 4 (pHdr ! 0) AND 0x0f"

definition a4_exists :: "bytes \<Rightarrow> bool" where
  "a4_exists pHdr \<longleftrightarrow>
     (let from_ds = drop_bit 1 (pHdr ! 1 AND 0x2); to_ds = pHdr ! 1 AND 0x1
      in from_ds AND to_ds \<noteq> 0)"

definition qos_subtype :: "u8 \<Rightarrow> bool" where
  "qos_subtype s \<longleftrightarrow> s = 8 \<or> s = 9 \<or> s = 10 \<or> s = 11"

definition qc_exists :: "bytes \<Rightarrow> bool" where
  "qc_exists pHdr \<longleftrightarrow> frame_type pHdr = 2 \<and> qos_subtype (frame_subtype pHdr)"

definition RTMPConstructCCMPAAD ::
  "bytes \<Rightarrow> bool \<Rightarrow> bool \<Rightarrow> bool \<Rightarrow> bytes \<Rightarrow> (bytes \<times> nat) option" where
  "RTMPConstructCCMPAAD pHdr isDataFrame a4 qc aad_hdr =
     (let fc0 = (if isDataFrame then pHdr ! 0 AND 0x8f else pHdr ! 0);
          fc1 = (pHdr ! 1 AND 0xc7) OR 0x40;
          aad = [fc0, fc1] @ take 18 (drop 4 pHdr) @ [pHdr ! 22 AND 0x0f, 0x00]
            @ (if a4 then take 6 (drop 24 pHdr) else [])
            @ (if qc \<and> a4 then [pHdr ! 30 AND 0x0f, 0x00]
               else if qc \<and> \<not> a4 then [pHdr ! 24 AND 0x0f, 0x00] else []);
          needed = (if qc \<and> a4 then 31 else if a4 then 30 else if qc then 25 else 23)
      in if length pHdr < needed \<or> length aad_hdr < length aad then None
         else Some (aad @ drop (length aad) aad_hdr, length aad))"

text \<open>\<open>isMgmtFrame\<close> is a parameter the function does not use.\<close>

definition RTMPConstructCCMPNonce ::
  "bytes \<Rightarrow> bool \<Rightarrow> bool \<Rightarrow> bool \<Rightarrow> bytes \<Rightarrow> bytes \<Rightarrow> (bytes \<times> nat) option" where
  "RTMPConstructCCMPNonce pHdr a4 qc isMgmtFrame pn nonce_hdr =
     (let prio = (if qc \<and> a4 then pHdr ! 30 AND 0x0f
                  else if qc \<and> \<not> a4 then pHdr ! 24 AND 0x0f else nonce_hdr ! 0);
          needed = (if qc \<and> a4 then 31 else if qc then 25 else 16)
      in if length pHdr < needed \<or> length pn < 6 \<or> length nonce_hdr < 13 then None
         else Some (prio # take 6 (drop 10 pHdr) @ map (\<lambda>i. pn ! (5 - i)) [0..<6] @ drop 13 nonce_hdr, 13))"

definition RTMPConstructCCMPHdr :: "u8 \<Rightarrow> bytes \<Rightarrow> bytes option" where
  "RTMPConstructCCMPHdr key_idx pn =
     (if length pn < 6 then None
      else Some [pn ! 0, pn ! 1, 0, push_bit 6 key_idx OR 0x20, pn ! 2, pn ! 3, pn ! 4, pn ! 5])"

section \<open>Encryption and decryption over CCM\<close>

text \<open>The result is the returned flag and the contents of \<open>pData\<close>; \<open>None\<close> is an access outside.\<close>

definition RTMPSoftEncryptCCMP ::
  "bytes \<Rightarrow> bytes \<Rightarrow> bytes \<Rightarrow> bytes \<Rightarrow> nat \<Rightarrow> (bool \<times> bytes) option" where
  "RTMPSoftEncryptCCMP pHdr pIV pKey pData DataLen =
     (let out_len = (DataLen + 8) mod 4294967296 in
      if length pHdr < 2 then None
      else
        (case RTMPConstructCCMPAAD pHdr (frame_type pHdr = 2) (a4_exists pHdr) (qc_exists pHdr)
                (replicate 30 0) of
           None \<Rightarrow> None
         | Some (aad_hdr, aad_len) \<Rightarrow>
             (case RTMPConstructCCMPNonce pHdr (a4_exists pHdr) (qc_exists pHdr) (frame_type pHdr = 0) pIV
                     (replicate 13 0) of
                None \<Rightarrow> None
              | Some (nonce_hdr, nonce_hdr_len) \<Rightarrow>
                  map_option (\<lambda>(r, pData, out_len). (r = 0, pData))
                    (AES_CCM_Encrypt pData 0 DataLen pKey 16 nonce_hdr nonce_hdr_len aad_hdr aad_len 8
                      0 out_len))))"

text \<open>Here also the length, which is replaced on success. The text is written over the CCMP header.\<close>

definition RTMPSoftDecryptCCMP ::
  "bytes \<Rightarrow> cipher_key \<Rightarrow> bytes \<Rightarrow> u16 \<Rightarrow> (bool \<times> bytes \<times> u16) option" where
  "RTMPSoftDecryptCCMP pHdr pKey pData DataLen =
     (let out_len = unat DataLen; cipherData_len = sub32 (unat DataLen) 8 in
      if KeyLen pKey = 0 then Some (False, pData, DataLen)
      else if length pHdr < 2 \<or> length pData < 8 then None
      else
        let pn = [pData ! 0, pData ! 1, pData ! 4, pData ! 5, pData ! 6, pData ! 7] in
        if DataLen \<le> 8 then Some (False, pData, DataLen)
        else
          (case RTMPConstructCCMPAAD pHdr (frame_type pHdr = 2) (a4_exists pHdr) (qc_exists pHdr)
                  (replicate 30 0) of
             None \<Rightarrow> None
           | Some (aad_hdr, aad_len) \<Rightarrow>
               (case RTMPConstructCCMPNonce pHdr (a4_exists pHdr) (qc_exists pHdr) (frame_type pHdr = 0) pn
                       (replicate 13 0) of
                  None \<Rightarrow> None
                | Some (nonce_hdr, nonce_hdr_len) \<Rightarrow>
                    map_option (\<lambda>(r, pData, out_len).
                        if r \<noteq> 0 then (False, pData, DataLen) else (True, pData, word_of_nat out_len))
                      (AES_CCM_Decrypt pData 8 cipherData_len (Key pKey) 16 nonce_hdr nonce_hdr_len
                        aad_hdr aad_len 8 0 out_len))))"

section \<open>The routine with the mode written out\<close>

text \<open>
  The blocks it builds from the header. All reads lie within the header, whose length the
  caller derives from the same two flags.
\<close>

definition construct_mic_header1 :: "nat \<Rightarrow> bytes \<Rightarrow> bytes" where
  "construct_mic_header1 header_length mpdu =
     [word_of_nat ((header_length - 2) div 256), word_of_nat ((header_length - 2) mod 256),
      mpdu ! 0 AND 0xcf, mpdu ! 1 AND 0xc7,
      mpdu ! 4, mpdu ! 5, mpdu ! 6, mpdu ! 7, mpdu ! 8, mpdu ! 9,
      mpdu ! 10, mpdu ! 11, mpdu ! 12, mpdu ! 13, mpdu ! 14, mpdu ! 15]"

definition construct_mic_header2 :: "bytes \<Rightarrow> bool \<Rightarrow> bool \<Rightarrow> bytes" where
  "construct_mic_header2 mpdu a4 qc =
     (let b = [mpdu ! 16, mpdu ! 17, mpdu ! 18, mpdu ! 19, mpdu ! 20, mpdu ! 21,
            mpdu ! 22 AND 0x0f, 0x00] @ replicate 8 0;
          b = (if \<not> qc \<and> a4 then foldl (\<lambda>b i. b[8 + i := mpdu ! (24 + i)]) b [0..<6] else b);
          b = (if qc \<and> \<not> a4 then b[8 := mpdu ! 24 AND 0x0f, 9 := mpdu ! 25 AND 0x00] else b)
      in if qc \<and> a4
         then (foldl (\<lambda>b i. b[8 + i := mpdu ! (24 + i)]) b [0..<6])
                [14 := mpdu ! 30 AND 0x0f, 15 := mpdu ! 31 AND 0x00]
         else b)"

definition construct_mic_iv :: "bool \<Rightarrow> bool \<Rightarrow> bytes \<Rightarrow> nat \<Rightarrow> bytes \<Rightarrow> bytes" where
  "construct_mic_iv qc a4 mpdu payload_length pn_vector =
     0x59 # (if \<not> qc then 0x00 else if a4 then mpdu ! 30 AND 0x0f else mpdu ! 24 AND 0x0f)
       # map (\<lambda>i. mpdu ! (i + 8)) [2..<8] @ map (\<lambda>i. pn_vector ! (13 - i)) [8..<14]
       @ [word_of_nat (payload_length div 256), word_of_nat (payload_length mod 256)]"

definition construct_ctr_preload :: "bool \<Rightarrow> bool \<Rightarrow> bytes \<Rightarrow> bytes \<Rightarrow> nat \<Rightarrow> bytes" where
  "construct_ctr_preload a4 qc mpdu pn_vector c =
     0x01 # (if qc \<and> a4 then mpdu ! 30 AND 0x0f else if qc \<and> \<not> a4 then mpdu ! 24 AND 0x0f else 0x00)
       # map (\<lambda>i. mpdu ! (i + 8)) [2..<8] @ map (\<lambda>i. pn_vector ! (13 - i)) [8..<14]
       @ [word_of_nat (c div 256), word_of_nat (c mod 256)]"

text \<open>
  One turn of the decryption loop and the final short block, which is the same with fewer
  bytes: \<open>n\<close> bytes at \<open>payload_index\<close> are decrypted to 8 bytes before it.
\<close>

definition soft_aes_block ::
  "bytes \<Rightarrow> bool \<Rightarrow> bool \<Rightarrow> bytes \<Rightarrow> nat \<Rightarrow> nat \<Rightarrow> nat \<Rightarrow> bytes \<Rightarrow> bytes option" where
  "soft_aes_block key a4 qc PN c payload_index n pData =
     (if length pData < payload_index + n then None
      else
        let aes_out = aes128k128d key (construct_ctr_preload a4 qc pData PN c);
            padded_buffer = take n (drop payload_index pData) @ replicate (16 - n) 0;
            chain_buffer = bitwise_xor aes_out padded_buffer
        in move_mem (payload_index - 8) n chain_buffer pData)"

text \<open>One turn of the loop that chains the decrypted blocks.\<close>

definition soft_aes_mac :: "bytes \<Rightarrow> nat \<Rightarrow> nat \<Rightarrow> bytes \<Rightarrow> bytes \<Rightarrow> bytes" where
  "soft_aes_mac key payload_index n pData aes_out =
     aes128k128d key (bitwise_xor aes_out (take n (drop payload_index pData) @ replicate (16 - n) 0))"

definition soft_aes_mic :: "bytes \<Rightarrow> bool \<Rightarrow> bool \<Rightarrow> bytes \<Rightarrow> nat \<Rightarrow> nat \<Rightarrow> bytes \<Rightarrow> bytes" where
  "soft_aes_mic key a4 qc PN HeaderLen payload_len pData =
     (let num_blocks = payload_len div 16; payload_remainder = payload_len mod 16;
          aes_out = aes128k128d key (construct_mic_iv qc a4 pData payload_len PN);
          aes_out = aes128k128d key (bitwise_xor aes_out (construct_mic_header1 HeaderLen pData));
          aes_out = aes128k128d key (bitwise_xor aes_out (construct_mic_header2 pData a4 qc));
          aes_out = foldl (\<lambda>x i. soft_aes_mac key (HeaderLen + 16 * i) 16 pData x) aes_out [0..<num_blocks];
          aes_out = (if payload_remainder > 0
                     then soft_aes_mac key (HeaderLen + 16 * num_blocks) payload_remainder pData aes_out
                     else aes_out)
      in take 8 aes_out)"

definition RTMPSoftDecryptAES :: "bytes \<Rightarrow> nat \<Rightarrow> cipher_key \<Rightarrow> (bool \<times> bytes) option" where
  "RTMPSoftDecryptAES pData DataByteCnt pWpaKey =
     (if length pData < 2 then None
      else
        let a4 = a4_exists pData; qc = qos_subtype (frame_subtype pData);
            HeaderLen = 24 + (if a4 then 6 else 0) + (if qc then 2 else 0) in
        if KeyLen pWpaKey = 0 then Some (False, pData)
        else if length pData < HeaderLen + 8 \<or> length (Key pWpaKey) < 16 then None
        else
          let PN = [pData ! HeaderLen, pData ! (HeaderLen + 1), pData ! (HeaderLen + 4),
                pData ! (HeaderLen + 5), pData ! (HeaderLen + 6), pData ! (HeaderLen + 7)];
              key = Key pWpaKey;
              payload_len = sub32 (sub32 (sub32 DataByteCnt HeaderLen) 8) 8;
              payload_remainder = payload_len mod 16;
              num_blocks = payload_len div 16 in
          (case feed (\<lambda>pData i. soft_aes_block key a4 qc PN (i + 1) (HeaderLen + 8 + 16 * i) 16 pData)
                  pData [0..<num_blocks] of
             None \<Rightarrow> None
           | Some pData \<Rightarrow>
               (case (if payload_remainder > 0
                      then soft_aes_block key a4 qc PN (num_blocks + 1) (HeaderLen + 8 + 16 * num_blocks)
                             payload_remainder pData
                      else Some pData) of
                  None \<Rightarrow> None
                | Some pData \<Rightarrow>
                    let payload_index = HeaderLen + 8 + payload_len in
                    if length pData < payload_index + 8 then None
                    else
                      let aes_out = aes128k128d key (construct_ctr_preload a4 qc pData PN 0);
                          padded_buffer = take 8 (drop payload_index pData) @ replicate 8 0;
                          TrailMIC = take 8 (bitwise_xor aes_out padded_buffer);
                          pData = pData[1 := pData ! 1 OR 0x40];
                          MIC = soft_aes_mic key a4 qc PN HeaderLen payload_len pData
                      in Some (MIC = TrailMIC, pData))))"

end
