(* ===== verification/Ccmp_Properties.thy ===== *)
theory Ccmp_Properties
  imports Cmm_Ccmp
begin

text \<open>
  What the CCMP routines of \<open>Cmm_Ccmp\<close> compute: the encapsulation of IEEE 802.11 for data frames,
  which both decryption routines undo, and which both accept on the strength of its code only.
\<close>

section \<open>The standard\<close>

text \<open>
  The length of a data frame's header, its additional authentication data and its nonce: bits
  that change on the way are masked, and the packet number is most significant byte first.
\<close>

definition hdr_len :: "bytes \<Rightarrow> nat" where
  "hdr_len h = 24 + (if a4_exists h then 6 else 0) + (if qc_exists h then 2 else 0)"

definition qos_control :: "bytes \<Rightarrow> u8" where
  "qos_control h = h ! (if a4_exists h then 30 else 24)"

definition ccmp_aad :: "bytes \<Rightarrow> bytes" where
  "ccmp_aad h =
     [h ! 0 AND 0x8f, (h ! 1 AND 0xc7) OR 0x40] @ take 18 (drop 4 h) @ [h ! 22 AND 0x0f, 0]
       @ (if a4_exists h then take 6 (drop 24 h) else [])
       @ (if qc_exists h then [qos_control h AND 0x0f, 0] else [])"

definition ccmp_nonce :: "bytes \<Rightarrow> bytes \<Rightarrow> bytes" where
  "ccmp_nonce h pn = (if qc_exists h then qos_control h AND 0x0f else 0) # take 6 (drop 10 h) @ rev pn"

definition ccmp_encrypt :: "bytes \<Rightarrow> bytes \<Rightarrow> bytes \<Rightarrow> bytes \<Rightarrow> bytes" where
  "ccmp_encrypt key h pn P = ccm_encrypt (AES_enc_block key 16) 8 (ccmp_nonce h pn) (ccmp_aad h) P"

text \<open>A data frame with its whole header, and a packet number.\<close>

definition data_header :: "bytes \<Rightarrow> bool" where
  "data_header h \<longleftrightarrow> frame_type h = 2 \<and> length h = hdr_len h"

lemma length_hdr:
  assumes "data_header h"
  shows "24 \<le> length h" and "length h \<le> 32"
  using assms by (auto simp: data_header_def hdr_len_def)

lemma length_ccmp_aad: "data_header h \<Longrightarrow> length (ccmp_aad h) = length h - 2"
  by (auto simp: data_header_def hdr_len_def ccmp_aad_def)

lemma ccmp_nonce_ok: "data_header h \<Longrightarrow> length pn = 6 \<Longrightarrow> length (ccmp_nonce h pn) = 13"
  using length_hdr(1) [of h] by (simp add: ccmp_nonce_def)

lemma ccmp_params:
  assumes "data_header h" and "length pn = 6" and "16 \<le> length key"
  shows "ccm_params key (ccmp_nonce h pn) (ccmp_aad h) 8"
  using ccmp_nonce_ok [OF assms(1,2)] length_ccmp_aad [OF assms(1)] length_hdr [OF assms(1)] assms(3)
  by (simp add: ccm_params_def ccm_nonce_def ccm_mac_length_def)

lemma six_cases:
  assumes "length pn = 6"
  obtains a b c d e f where "pn = [a, b, c, d, e, f]"
  using assms by (auto simp: eval_nat_numeral length_Suc_conv)

lemma rev_six: "length pn = 6 \<Longrightarrow> map (\<lambda>i. pn ! (5 - i)) [0..<6] = rev pn"
  by (elim six_cases) (simp add: upt_rec)

lemma RTMPConstructCCMPAAD_eq:
  assumes "data_header h"
  shows "RTMPConstructCCMPAAD h (frame_type h = 2) (a4_exists h) (qc_exists h) (replicate 30 0)
    = Some (ccmp_aad h @ replicate (32 - length h) 0, length (ccmp_aad h))"
proof -
  have aad: "[if frame_type h = 2 then h ! 0 AND 0x8f else h ! 0, (h ! 1 AND 0xc7) OR 0x40]
      @ take 18 (drop 4 h) @ [h ! 22 AND 0x0f, 0x00]
      @ (if a4_exists h then take 6 (drop 24 h) else [])
      @ (if qc_exists h \<and> a4_exists h then [h ! 30 AND 0x0f, 0x00]
         else if qc_exists h \<and> \<not> a4_exists h then [h ! 24 AND 0x0f, 0x00] else []) = ccmp_aad h"
    using assms by (auto simp: ccmp_aad_def data_header_def qos_control_def)
  have "\<not> length h < (if qc_exists h \<and> a4_exists h then 31 else if a4_exists h then 30
      else if qc_exists h then 25 else 23)"
    using assms by (auto simp: data_header_def hdr_len_def)
  moreover have "30 - length (ccmp_aad h) = 32 - length h"
    using length_ccmp_aad [OF assms] length_hdr [OF assms] by simp
  moreover have "\<not> length (replicate 30 (0 :: u8)) < length (ccmp_aad h)"
    using length_ccmp_aad [OF assms] length_hdr [OF assms] by simp
  ultimately show ?thesis
    unfolding RTMPConstructCCMPAAD_def Let_def aad by simp
qed

lemma RTMPConstructCCMPNonce_eq:
  assumes "data_header h" and "length pn = 6"
  shows "RTMPConstructCCMPNonce h (a4_exists h) (qc_exists h) m pn (replicate 13 0) = Some (ccmp_nonce h pn, 13)"
  using assms(1) rev_six [OF assms(2)] assms(2)
  by (auto simp: RTMPConstructCCMPNonce_def ccmp_nonce_def qos_control_def data_header_def hdr_len_def
      simp del: upt_Suc)

section \<open>The routines over CCM\<close>

text \<open>What the decryption makes of the encrypted part \<open>C\<close> of a frame.\<close>

abbreviation ccmp_text :: "bytes \<Rightarrow> bytes \<Rightarrow> bytes \<Rightarrow> bytes \<Rightarrow> bytes" where
  "ccmp_text key h pn C \<equiv> ccm_text key (ccmp_nonce h pn) C"

abbreviation ccmp_mic :: "bytes \<Rightarrow> bytes \<Rightarrow> bytes \<Rightarrow> bytes \<Rightarrow> bytes" where
  "ccmp_mic key h pn P \<equiv> ccm_code key 8 (ccmp_nonce h pn) (ccmp_aad h) P"

lemma RTMPSoftEncryptCCMP_eq:
  assumes "data_header h" and "length pn = 6" and "16 \<le> length key" and "8 \<le> length z"
    and "length P + 8 < 2 ^ 32"
  shows "RTMPSoftEncryptCCMP h pn key (P @ z) (length P)
    = Some (True, ccmp_text key h pn P @ ccmp_mic key h pn P @ drop 8 z)"
proof -
  let ?N = "ccmp_nonce h pn" and ?A = "ccmp_aad h" and ?B = "ccmp_aad h @ replicate (32 - length h) 0"
  have N: "length ?N = 13" by (rule ccmp_nonce_ok [OF assms(1,2)])
  have "AES_CCM_Encrypt (P @ z) 0 (length P) key 16 ?N (length ?N) ?B (length ?A) 8 0 (length P + 8)
      = Some (0, [] @ ccmp_text key h pn P @ ccmp_mic key h pn P @ drop (0 + length P + 8) (P @ z), length P + 8)"
    by (rule AES_CCM_Encrypt_eq [OF ccmp_params [OF assms(1-3)] refl]) (use assms(4,5) in simp_all)
  then have enc: "AES_CCM_Encrypt (P @ z) 0 (length P) key 16 ?N 13 ?B (length ?A) 8 0 (length P + 8)
      = Some (0, ccmp_text key h pn P @ ccmp_mic key h pn P @ drop 8 z, length P + 8)"
    by (simp only: N) simp
  have "(length P + 8) mod 4294967296 = length P + 8" "\<not> length h < 2"
    using assms(5) length_hdr [OF assms(1)] by simp_all
  then show ?thesis
    unfolding RTMPSoftEncryptCCMP_def Let_def RTMPConstructCCMPAAD_eq [OF assms(1)]
      RTMPConstructCCMPNonce_eq [OF assms(1,2)]
    by (simp only: if_False option.case prod.case enc option.map simp_thms)
qed

text \<open>The header in front of the encrypted part, byte by byte.\<close>

definition ccmp_header :: "u8 \<Rightarrow> bytes \<Rightarrow> bytes" where
  "ccmp_header key_idx pn =
     [pn ! 0, pn ! 1, 0, push_bit 6 key_idx OR 0x20, pn ! 2, pn ! 3, pn ! 4, pn ! 5]"

lemma RTMPConstructCCMPHdr_eq: "length pn = 6 \<Longrightarrow> RTMPConstructCCMPHdr k pn = Some (ccmp_header k pn)"
  by (simp add: RTMPConstructCCMPHdr_def ccmp_header_def)

lemma ccmp_header_pn:
  assumes "length pn = 6"
  shows "[(ccmp_header k pn @ x) ! 0, (ccmp_header k pn @ x) ! 1, (ccmp_header k pn @ x) ! 4,
    (ccmp_header k pn @ x) ! 5, (ccmp_header k pn @ x) ! 6, (ccmp_header k pn @ x) ! 7] = pn"
  using assms by (elim six_cases) (simp add: ccmp_header_def)

lemma length_ccmp_header [simp, buf_len]: "length (ccmp_header k pn) = 8"
  by (simp add: ccmp_header_def)

lemma RTMPSoftDecryptCCMP_eq:
  assumes "data_header h" and "length pn = 6" and "16 \<le> length (Key pKey)" and "KeyLen pKey \<noteq> 0"
    and "length M = 8" and "unat n = 8 + (length C + 8)" and "P = ccmp_text (Key pKey) h pn C"
  shows "\<exists>rest. RTMPSoftDecryptCCMP h pKey (ccmp_header k pn @ C @ M) n
    = Some (if M = ccmp_mic (Key pKey) h pn P then (True, P @ rest, word_of_nat (length C))
            else (False, P @ rest, n))
    \<and> length rest = 16"
proof -
  let ?N = "ccmp_nonce h pn" and ?A = "ccmp_aad h" and ?B = "ccmp_aad h @ replicate (32 - length h) 0"
  let ?m = "ccmp_header k pn @ C @ M"
  have N: "length ?N = 13" by (rule ccmp_nonce_ok [OF assms(1,2)])
  have n: "unat n < 65536" using unsigned_less [of n] by simp
  have "AES_CCM_Decrypt ?m 8 (length C + 8) (Key pKey) 16 ?N (length ?N) ?B (length ?A) 8 0 (unat n)
      = Some (if M = ccmp_mic (Key pKey) h pn (ccmp_text (Key pKey) h pn C) then 0 else -5,
          [] @ ccmp_text (Key pKey) h pn C @ drop (0 + length C) ?m, length C)"
    by (rule AES_CCM_Decrypt_eq [OF ccmp_params [OF assms(1-3)] refl assms(5)])
      (use assms(5,6) n in simp_all)
  then have dec: "AES_CCM_Decrypt ?m 8 (length C + 8) (Key pKey) 16 ?N 13 ?B (length ?A) 8 0 (unat n)
      = Some (if M = ccmp_mic (Key pKey) h pn P then 0 else -5, P @ drop (length C) ?m, length C)"
    unfolding assms(7) by (simp only: N append_Nil add_0)
  have g: "\<not> (length h < 2 \<or> length ?m < 8)" "\<not> n \<le> 8" "sub32 (unat n) 8 = length C + 8"
    using length_hdr [OF assms(1)] assms(6) n by (simp_all add: sub32_le word_le_nat_alt)
  have "RTMPSoftDecryptCCMP h pKey ?m n
      = Some (if M = ccmp_mic (Key pKey) h pn P then (True, P @ drop (length C) ?m, word_of_nat (length C))
            else (False, P @ drop (length C) ?m, n))"
    unfolding RTMPSoftDecryptCCMP_def Let_def g(3) ccmp_header_pn [OF assms(2)]
      RTMPConstructCCMPAAD_eq [OF assms(1)] RTMPConstructCCMPNonce_eq [OF assms(1,2)]
    using g(1,2) assms(4) by (simp add: dec)
  moreover have "length (drop (length C) ?m) = 16" using assms(5) by simp
  ultimately show ?thesis by blast
qed

section \<open>The blocks of the routine with the mode written out\<close>

lemma take_drop_map: "k + n \<le> length h \<Longrightarrow> take n (drop k h) = map (\<lambda>i. h ! (k + i)) [0..<n]"
  by (rule nth_equalityI) simp_all

lemma map_shift_upt: "map (\<lambda>i. f i) [a..<a + n] = map (\<lambda>i. f (a + i)) [0..<n]"
  by (rule nth_equalityI) simp_all

lemma A2_bytes: "16 \<le> length h \<Longrightarrow> map (\<lambda>i. (h @ x) ! (i + 8)) [2..<8] = take 6 (drop 10 h)"
  using map_shift_upt [of "\<lambda>i. (h @ x) ! (i + 8)" 2 6]
  by (intro nth_equalityI) (simp_all add: nth_append)

lemma pn_bytes: "length pn = 6 \<Longrightarrow> map (\<lambda>i. pn ! (13 - i)) [8..<14] = rev pn"
  by (elim six_cases) (simp add: upt_rec)

text \<open>The quality-of-service test of this routine does not look at the type of the frame.\<close>

lemma qos_data: "data_header h \<Longrightarrow> qos_subtype (frame_subtype h) = qc_exists h"
  by (simp add: data_header_def qc_exists_def)

lemma construct_ctr_preload_eq:
  assumes "data_header h" and "length pn = 6"
  shows "construct_ctr_preload (a4_exists h) (qc_exists h) (h @ x) pn c = ccm_ctr (ccmp_nonce h pn) c"
proof -
  have h: "length h = 24 + (if a4_exists h then 6 else 0) + (if qc_exists h then 2 else 0)"
    using assms(1) by (simp add: data_header_def hdr_len_def)
  have h16: "16 \<le> length h" using length_hdr(1) [OF assms(1)] by simp
  have "(if qc_exists h \<and> a4_exists h then (h @ x) ! 30 AND 0x0f
      else if qc_exists h \<and> \<not> a4_exists h then (h @ x) ! 24 AND 0x0f else 0x00)
    = (if qc_exists h then qos_control h AND 0x0f else 0)"
    using h by (auto simp: nth_append qos_control_def)
  moreover have "[word_of_nat (c div 256), word_of_nat (c mod 256)] = octets 2 c"
  proof -
    have "(word_of_nat (c mod 256) :: u8) = word_of_nat c"
      by (rule bit_word_eqI) (simp add: bit_simps take_bit_eq_mod [symmetric, where n = 8, simplified])
    then show ?thesis by (simp add: octets_two)
  qed
  ultimately show ?thesis
    unfolding construct_ctr_preload_def
      A2_bytes [OF h16] pn_bytes [OF assms(2)]
    using ccmp_nonce_ok [OF assms] by (simp add: ccm_ctr_def ccmp_nonce_def)
qed

text \<open>The chained blocks are the first blocks of the mode for the header with the protected bit on.\<close>

definition carries_data :: "bytes \<Rightarrow> bool" where
  "carries_data h \<longleftrightarrow> h ! 0 AND 0x40 = 0"

lemma construct_mic_iv_eq:
  assumes "data_header h" and "length pn = 6"
  shows "construct_mic_iv (qc_exists h) (a4_exists h) (h @ x) n pn
    = ccm_b0 8 (ccmp_nonce h pn) (ccmp_aad h) n"
proof -
  have "construct_mic_iv (qc_exists h) (a4_exists h) (h @ x) n pn
      = 0x59 # tl (construct_ctr_preload (a4_exists h) (qc_exists h) (h @ x) pn n)"
    by (simp add: construct_mic_iv_def construct_ctr_preload_def)
  also have "\<dots> = 0x59 # ccmp_nonce h pn @ octets 2 n"
    unfolding construct_ctr_preload_eq [OF assms] using ccmp_nonce_ok [OF assms] by (simp add: ccm_ctr_def)
  also have "\<dots> = ccm_b0 8 (ccmp_nonce h pn) (ccmp_aad h) n"
    using ccmp_nonce_ok [OF assms] by (simp add: ccm_b0_def ccmp_aad_def)
  finally show ?thesis .
qed

text \<open>A header split into the bytes its fields begin at.\<close>

lemma protected_masks:
  "((x OR 0x40) AND 0xc7 :: u8) = (x AND 0xc7) OR 0x40"
  "y AND 0x40 = 0 \<Longrightarrow> (y AND 0xcf :: u8) = y AND 0x8f"
proof -
  show "((x OR 0x40) AND 0xc7 :: u8) = (x AND 0xc7) OR 0x40"
    by (rule word_eq_upt) (simp add: bit_simps upt_numeral)
  have "(0xcf :: u8) = 0x8f OR 0x40" by simp
  then show "y AND 0x40 = 0 \<Longrightarrow> (y AND 0xcf :: u8) = y AND 0x8f"
    by (metis bit.conj_disj_distrib or.right_neutral)
qed

abbreviation protected :: "bytes \<Rightarrow> bytes" where
  "protected h \<equiv> h[1 := h ! 1 OR 0x40]"

lemma mic_header1_eq:
  assumes "data_header h" and "carries_data h"
  shows "construct_mic_header1 (length h) (protected h @ x)
    = take 16 (octets 2 (length (ccmp_aad h)) @ ccmp_aad h)"
proof -
  have h: "24 \<le> length h" "length h \<le> 32" using length_hdr [OF assms(1)] by auto
  have l: "length (ccmp_aad h) = length h - 2" by (rule length_ccmp_aad [OF assms(1)])
  have "take 12 (drop 4 h) = map (\<lambda>i. h ! (4 + i)) [0..<12]" using h by (simp add: take_drop_map)
  then have mid: "take 12 (take 18 (drop 4 h)) = [h ! 4, h ! 5, h ! 6, h ! 7, h ! 8, h ! 9, h ! 10, h ! 11,
      h ! 12, h ! 13, h ! 14, h ! 15]"
    by (simp add: upt_rec)
  have "take 16 (octets 2 (length (ccmp_aad h)) @ ccmp_aad h)
      = octets 2 (length h - 2) @ [h ! 0 AND 0x8f, (h ! 1 AND 0xc7) OR 0x40] @ take 12 (take 18 (drop 4 h))"
    using h unfolding l unfolding ccmp_aad_def by (simp add: numeral_eq_Suc)
  moreover have "(protected h @ x) ! i = h ! i" if "i \<noteq> 1" "i < 24" for i
    using that h by (simp add: nth_append)
  moreover have "(protected h @ x) ! 1 = h ! 1 OR 0x40" using h by (simp add: nth_append)
  moreover have "octets 2 (length h - 2) = [word_of_nat ((length h - 2) div 256), word_of_nat ((length h - 2) mod 256)]"
    using h by (simp add: octets_two)
  ultimately show ?thesis
    unfolding construct_mic_header1_def mid
    using assms(2) by (simp add: protected_masks carries_data_def del: octets_two)
qed

lemma six_updates:
  assumes "length p = 8"
  shows "foldl (\<lambda>b i. b[8 + i := g i]) (p @ [q0, q1, q2, q3, q4, q5, q6, q7]) [0..<6]
    = p @ [g 0, g 1, g 2, g 3, g 4, g 5, q6, q7]"
proof -
  have "[0..<6] = [0, 1, 2, 3, 4, 5]" by (simp add: upt_rec)
  then show ?thesis
    using assms by (simp only: foldl.simps) (simp add: list_update_append)
qed

lemma replicate_two: "replicate 2 x = [x, x]"
  by (simp add: numeral_eq_Suc)

lemma mic_header2_eq:
  assumes "data_header h"
  shows "construct_mic_header2 (protected h @ x) (a4_exists h) (qc_exists h)
    = drop 14 (ccmp_aad h) @ replicate (16 - length (drop 14 (ccmp_aad h))) 0"
proof -
  have h: "24 \<le> length h" "length h = 24 + (if a4_exists h then 6 else 0) + (if qc_exists h then 2 else 0)"
    using length_hdr [OF assms] assms by (simp_all add: data_header_def hdr_len_def)
  let ?p = "[h ! 16, h ! 17, h ! 18, h ! 19, h ! 20, h ! 21, h ! 22 AND 0x0f, 0]"
  let ?m = "protected h @ x"
  have at: "?m ! i = h ! i" if "i \<noteq> 1" "i < length h" for i using that by (simp add: nth_append)
  have z: "replicate 8 0 = [0, 0, 0, 0, 0, 0, 0, 0 :: u8]" by (simp add: numeral_eq_Suc)
  have p: "[?m ! 16, ?m ! 17, ?m ! 18, ?m ! 19, ?m ! 20, ?m ! 21, ?m ! 22 AND 0x0f, 0x00] = ?p"
    using at h(1) by simp
  have "drop 12 (take 18 (drop 4 h)) = take 6 (drop 16 h)" by (simp add: drop_take)
  also have "\<dots> = map (\<lambda>i. h ! (16 + i)) [0..<6]" using h(1) by (simp add: take_drop_map)
  finally have "drop 12 (take 18 (drop 4 h)) = [h ! 16, h ! 17, h ! 18, h ! 19, h ! 20, h ! 21]"
    by (simp add: upt_rec)
  then have tail: "drop 14 (ccmp_aad h) = ?p @ (if a4_exists h then take 6 (drop 24 h) else [])
      @ (if qc_exists h then [qos_control h AND 0x0f, 0] else [])"
    using h(1) by (simp add: ccmp_aad_def numeral_eq_Suc)
  show ?thesis
  proof (cases "a4_exists h")
    case True
    have "take 6 (drop 24 h) = map (\<lambda>i. h ! (24 + i)) [0..<6]" using h True by (simp add: take_drop_map)
    then have a4: "take 6 (drop 24 h) = [h ! 24, h ! 25, h ! 26, h ! 27, h ! 28, h ! 29]" by (simp add: upt_rec)
    have at4: "?m ! 24 = h ! 24" "?m ! 25 = h ! 25" "?m ! 26 = h ! 26" "?m ! 27 = h ! 27" "?m ! 28 = h ! 28"
      "?m ! 29 = h ! 29" using h True by (simp_all add: nth_append)
    have at30: "?m ! 30 = h ! 30" if "qc_exists h" using h True that by (simp add: nth_append)
    show ?thesis
      unfolding tail construct_mic_header2_def Let_def p z
      unfolding append_Cons [symmetric, of _ "[]"]
      using True at4 at30 six_updates [of ?p "\<lambda>i. ?m ! (24 + i)" 0 0 0 0 0 0 0 0]
      by (cases "qc_exists h") (simp_all add: a4 qos_control_def replicate_two)
  next
    case False
    then show ?thesis
      unfolding tail construct_mic_header2_def Let_def p z
      using at [of 24] h by (cases "qc_exists h") (simp_all add: qos_control_def numeral_eq_Suc)
  qed
qed

text \<open>These are the blocks of the associated data.\<close>

lemma blocks_assoc:
  assumes "data_header h" and "carries_data h"
  shows "blocks 16 (pad16 (ccm_assoc (ccmp_aad h)))
    = [construct_mic_header1 (length h) (protected h @ x),
       construct_mic_header2 (protected h @ x) (a4_exists h) (qc_exists h)]"
proof -
  let ?A = "ccmp_aad h" and ?m = "octets 2 (length (ccmp_aad h)) @ ccmp_aad h"
  have l: "length ?A = length h - 2" by (rule length_ccmp_aad [OF assms(1)])
  have h: "24 \<le> length h" "length h \<le> 32" using length_hdr [OF assms(1)] by auto
  have m: "ccm_assoc ?A = ?m" using l h by (auto simp: ccm_assoc_def)
  have d: "drop 16 ?m = drop 14 ?A" by simp
  have ne: "?m \<noteq> []" "drop 14 ?A \<noteq> []" "16 - length ?m = 0" "drop 16 (drop 14 ?A) = []"
    using l h by (simp_all add: octets_two)
  have "take 16 (drop 14 ?A) = drop 14 ?A" using l h by simp
  then show ?thesis
    unfolding m mic_header1_eq [OF assms] mic_header2_eq [OF assms(1)]
    unfolding blocks_pad16 [of ?m] d blocks_pad16 [of "drop 14 ?A"] ne(4) blocks_pad16 [of "[]"]
    using ne by simp
qed

section \<open>The loops of the routine with the mode written out\<close>

text \<open>The key stream of the mode, as \<open>ccm_encrypt\<close> has it.\<close>

definition ccm_stream :: "bytes \<Rightarrow> bytes \<Rightarrow> nat \<Rightarrow> bytes" where
  "ccm_stream key N k = concat (map (\<lambda>j. AES_enc_block key 16 (ccm_ctr N (j + 1))) [0..<k])"

lemma ccm_stream_0: "ccm_stream key N 0 = []" by (simp add: ccm_stream_def)

lemma ccm_stream_Suc:
  "ccm_stream key N (Suc k) = ccm_stream key N k @ AES_enc_block key 16 (ccm_ctr N (k + 1))"
  by (simp add: ccm_stream_def)

lemma length_ccm_stream: "length (ccm_stream key N k) = 16 * k"
  by (induction k) (simp_all add: ccm_stream_0 ccm_stream_Suc)

text \<open>A frame of which the first \<open>length D\<close> bytes are decrypted, to behind its header.\<close>

lemma soft_aes_block_eq:
  assumes "data_header h" and "length pn = 6" and "16 \<le> length key" and "n \<le> 16"
    and "length D + 8 + n \<le> length g"
  shows "soft_aes_block key (a4_exists h) (qc_exists h) pn c (length h + 8 + length D) n
      (h @ D @ drop (length D) g)
    = Some (h @ (D @ xor_bytes (take n (drop (8 + length D) g)) (AES_enc_block key 16 (ccm_ctr (ccmp_nonce h pn) c)))
        @ drop (length D + n) g)"
proof -
  let ?m = "h @ D @ drop (length D) g"
  let ?S = "AES_enc_block key 16 (ccm_ctr (ccmp_nonce h pn) c)"
  let ?t = "take n (drop (8 + length D) g)"
  have N: "length (ccm_ctr (ccmp_nonce h pn) c) = 16"
    using ccmp_nonce_ok [OF assms(1,2)] by (simp add: ccm_ctr_def)
  have rd: "take n (drop (length h + 8 + length D) ?m) = ?t" by (simp add: add.commute)
  have t: "length ?t = n" using assms(5) by simp
  have "take n (xor_bytes ?S (?t @ replicate (16 - n) 0)) = xor_bytes (take n ?S) ?t"
    using t by (simp add: take_xor_bytes)
  also have "\<dots> = xor_bytes ?t ?S"
    using t xor_bytes_take_right [of ?t ?S] by (simp add: xor_bytes_commute)
  finally have x: "take n (xor_bytes ?S (?t @ replicate (16 - n) 0)) = xor_bytes ?t ?S" .
  have b: "bitwise_xor ?S (?t @ replicate (16 - n) 0) = xor_bytes ?S (?t @ replicate (16 - n) 0)"
    using t assms(4) by (intro bitwise_xor_eq) simp_all
  have "n \<le> length (xor_bytes ?S (?t @ replicate (16 - n) 0))" using t assms(4) by simp
  moreover have "length h + 8 + length D - 8 = length (h @ D)" by simp
  moreover have "\<not> length ?m < length h + 8 + length D + n" using assms(5) by simp
  ultimately show ?thesis
    unfolding soft_aes_block_def Let_def construct_ctr_preload_eq [OF assms(1,2)] rd
      aes128k128d_eq [OF assms(3) N] b move_mem_def x
    using assms(5) by (simp add: add.commute)
qed

lemma take_behind_8: "take (a + b) (drop 8 g) = take a (drop 8 g) @ take b (drop (8 + a) g)"
  by (simp add: take_add add.commute)

lemma soft_aes_blocks:
  assumes "data_header h" and "length pn = 6" and "16 \<le> length key" and "16 * m + 8 \<le> length g"
  shows "feed (\<lambda>pData i. soft_aes_block key (a4_exists h) (qc_exists h) pn (i + 1)
        (length h + 8 + 16 * i) 16 pData) (h @ g) [0..<m]
    = Some (h @ xor_bytes (take (16 * m) (drop 8 g)) (ccm_stream key (ccmp_nonce h pn) m) @ drop (16 * m) g)"
  using assms(4)
proof (induction m)
  case 0
  then show ?case by simp
next
  case (Suc m)
  let ?N = "ccmp_nonce h pn" and ?c = "take (16 * m) (drop 8 g)"
  let ?D = "xor_bytes ?c (ccm_stream key ?N m)" and ?t = "take 16 (drop (8 + 16 * m) g)"
  have D: "length ?D = 16 * m" using Suc.prems by (simp add: length_ccm_stream)
  have "take (16 * Suc m) (drop 8 g) = ?c @ ?t"
    using take_behind_8 [of "16 * m" 16 g] by (simp add: add.commute)
  then have "xor_bytes (take (16 * Suc m) (drop 8 g)) (ccm_stream key ?N (Suc m))
      = ?D @ xor_bytes ?t (AES_enc_block key 16 (ccm_ctr ?N (m + 1)))"
    using Suc.prems by (simp add: ccm_stream_Suc xor_bytes_append length_ccm_stream)
  moreover have "soft_aes_block key (a4_exists h) (qc_exists h) pn (m + 1) (length h + 8 + 16 * m) 16
        (h @ ?D @ drop (16 * m) g)
      = Some (h @ (?D @ xor_bytes ?t (AES_enc_block key 16 (ccm_ctr ?N (m + 1)))) @ drop (16 * Suc m) g)"
    using soft_aes_block_eq [OF assms(1-3), of 16 ?D g "m + 1"] Suc.prems unfolding D
    by (simp add: add.commute)
  ultimately show ?case
    using Suc by (simp add: feed_append)
qed

text \<open>The same for the whole payload, the short last block included.\<close>

lemma soft_aes_payload:
  assumes "data_header h" and "length pn = 6" and "16 \<le> length key" and "n + 8 \<le> length g"
  defines "m \<equiv> n div 16"
  shows "(case feed (\<lambda>pData i. soft_aes_block key (a4_exists h) (qc_exists h) pn (i + 1)
            (length h + 8 + 16 * i) 16 pData) (h @ g) [0..<m] of
       None \<Rightarrow> None
     | Some pData \<Rightarrow>
         (if n mod 16 > 0
          then soft_aes_block key (a4_exists h) (qc_exists h) pn (m + 1) (length h + 8 + 16 * m) (n mod 16) pData
          else Some pData))
    = Some (h @ xor_bytes (take n (drop 8 g)) (ccm_stream key (ccmp_nonce h pn) ((n + 15) div 16)) @ drop n g)"
proof -
  let ?N = "ccmp_nonce h pn" and ?c = "take (16 * m) (drop 8 g)"
  let ?D = "xor_bytes ?c (ccm_stream key ?N m)" and ?t = "take (n mod 16) (drop (8 + 16 * m) g)"
  have n: "16 * m + n mod 16 = n" by (simp add: m_def)
  have g: "16 * m + 8 \<le> length g" using n assms(4) by linarith
  have D: "length ?D = 16 * m" using g by (simp add: length_ccm_stream)
  show ?thesis
  proof (cases "n mod 16 = 0")
    case True
    then have e: "16 * m = n" using n by simp
    have "(16 * m + 15) div 16 = m" by simp
    then show ?thesis using True soft_aes_blocks [OF assms(1-3) g] unfolding e by simp
  next
    case False
    then have "(16 * m + n mod 16 + 15) div 16 = Suc m" by linarith
    then have k: "(n + 15) div 16 = Suc m" unfolding n .
    have "take n (drop 8 g) = ?c @ ?t"
      using take_behind_8 [of "16 * m" "n mod 16" g] unfolding n .
    then have x: "xor_bytes (take n (drop 8 g)) (ccm_stream key ?N (Suc m))
        = ?D @ xor_bytes ?t (AES_enc_block key 16 (ccm_ctr ?N (m + 1)))"
      using g by (simp add: ccm_stream_Suc xor_bytes_append length_ccm_stream)
    have "soft_aes_block key (a4_exists h) (qc_exists h) pn (m + 1) (length h + 8 + 16 * m) (n mod 16)
          (h @ ?D @ drop (16 * m) g)
        = Some (h @ (?D @ xor_bytes ?t (AES_enc_block key 16 (ccm_ctr ?N (m + 1)))) @ drop n g)"
    proof (rule soft_aes_block_eq [OF assms(1-3), of "n mod 16" ?D g "m + 1", unfolded D n])
      show "16 * m + 8 + n mod 16 \<le> length g" using assms(4) n by linarith
    qed simp
    then show ?thesis
      unfolding k x soft_aes_blocks [OF assms(1-3) g] option.case using False by simp
  qed
qed

text \<open>The chaining loop, over the blocks of the payload that begins at \<open>k\<close>.\<close>

lemma soft_aes_mac_eq:
  assumes "16 \<le> length key" and "length y = 16" and "n \<le> 16" and "k + n \<le> length F"
  shows "soft_aes_mac key k n F y
    = AES_enc_block key 16 (xor_bytes (take n (drop k F) @ replicate (16 - n) 0) y)"
  using assms by (simp add: soft_aes_mac_def bitwise_xor_eq aes128k128d_eq xor_bytes_commute)

lemma soft_aes_macs:
  assumes "16 \<le> length key" and "length y = 16" and "k + n \<le> length F"
  shows "(let x = foldl (\<lambda>x i. soft_aes_mac key (k + 16 * i) 16 F x) y [0..<n div 16]
      in if n mod 16 > 0 then soft_aes_mac key (k + 16 * (n div 16)) (n mod 16) F x else x)
    = cbc_mac (AES_enc_block key 16) y (blocks 16 (pad16 (take n (drop k F))))"
  using assms(2,3)
proof (induction n arbitrary: k y rule: less_induct)
  case (less n)
  let ?P = "take n (drop k F)"
  consider "n = 0" | "0 < n" "n < 16" | "16 \<le> n" by linarith
  then show ?case
  proof cases
    case 1
    then show ?thesis by (simp add: blocks_pad16 cbc_mac_def)
  next
    case 2
    then have "length ?P = n" "?P \<noteq> []" "take 16 ?P = ?P" "drop 16 ?P = []"
      using less.prems(2) by auto
    then show ?thesis
      using 2 less.prems assms(1)
      by (subst blocks_pad16) (simp add: soft_aes_mac_eq blocks_pad16 [of "[]"] cbc_mac_def)
  next
    case 3
    let ?y = "soft_aes_mac key k 16 F y"
    have y: "?y = AES_enc_block key 16 (xor_bytes (take 16 ?P) y)" "length ?y = 16"
      using 3 less.prems assms(1) by (simp_all add: soft_aes_mac_eq min_def)
    have P: "?P \<noteq> []" "16 - length ?P = 0" "drop 16 ?P = take (n - 16) (drop (k + 16) F)"
      using 3 less.prems by (auto simp: drop_take add.commute)
    have d: "n div 16 = Suc ((n - 16) div 16)" "n mod 16 = (n - 16) mod 16"
      using 3 by (simp_all add: le_div_geq le_mod_geq)
    have "foldl (\<lambda>x i. soft_aes_mac key (k + 16 * i) 16 F x) y [0..<Suc c]
        = foldl (\<lambda>x i. soft_aes_mac key (k + 16 + 16 * i) 16 F x) ?y [0..<c]" for c
      by (simp add: upt_conv_Cons map_Suc_upt [symmetric] foldl_map add.assoc del: upt_Suc)
    moreover have "k + 16 * Suc c = k + 16 + 16 * c" for c by simp
    moreover have "cbc_mac (AES_enc_block key 16) y (blocks 16 (pad16 ?P))
        = cbc_mac (AES_enc_block key 16) ?y (blocks 16 (pad16 (drop 16 ?P)))"
      using P(1,2) y(1) by (subst blocks_pad16) (simp add: cbc_mac_Cons)
    ultimately show ?thesis
      unfolding d P(3) using less.IH [of "n - 16" ?y "k + 16"] 3 less.prems(2) y(2)
      by (simp only:)
  qed
qed

text \<open>The protected bit changes nothing the blocks depend on.\<close>

lemma protected_same:
  assumes "2 \<le> length h"
  shows "a4_exists (protected h) = a4_exists h" and "qc_exists (protected h) = qc_exists h"
    and "frame_type (protected h) = frame_type h" and "hdr_len (protected h) = hdr_len h"
    and "qos_control (protected h) = qos_control h" and "ccmp_nonce (protected h) pn = ccmp_nonce h pn"
proof -
  have "((x OR 0x40) AND 0x2 :: u8) = x AND 0x2" "((x OR 0x40) AND 0x1 :: u8) = x AND 0x1" for x
    by (rule word_eq_upt, simp add: bit_simps upt_numeral)+
  then show a4: "a4_exists (protected h) = a4_exists h" using assms by (simp add: a4_exists_def)
  show qc: "qc_exists (protected h) = qc_exists h" "frame_type (protected h) = frame_type h"
    by (simp_all add: qc_exists_def frame_type_def frame_subtype_def)
  show "hdr_len (protected h) = hdr_len h" "qos_control (protected h) = qos_control h"
    unfolding hdr_len_def qos_control_def a4 qc by simp_all
  then show "ccmp_nonce (protected h) pn = ccmp_nonce h pn"
    unfolding ccmp_nonce_def qc by simp
qed

lemma soft_aes_mic_eq:
  assumes "data_header h" and "carries_data h" and "length pn = 6" and "16 \<le> length key"
  shows "soft_aes_mic key (a4_exists h) (qc_exists h) pn (length h) (length P) (protected h @ P @ x)
    = ccm_tag (AES_enc_block key 16) 8 (ccmp_nonce h pn) (ccmp_aad h) P"
proof -
  let ?E = "AES_enc_block key 16" and ?F = "protected h @ P @ x"
  let ?N = "ccmp_nonce h pn" and ?A = "ccmp_aad h"
  let ?b0 = "ccm_b0 8 ?N ?A (length P)"
  let ?h1 = "construct_mic_header1 (length h) ?F"
    and ?h2 = "construct_mic_header2 ?F (a4_exists h) (qc_exists h)"
  have h: "24 \<le> length h" by (rule length_hdr [OF assms(1)])
  then have same: "2 \<le> length h" by simp
  have "data_header (protected h)"
    using assms(1) unfolding data_header_def protected_same [OF same] by simp
  moreover have "ccmp_aad h \<noteq> []" "ccmp_aad (protected h) \<noteq> []" by (simp_all add: ccmp_aad_def)
  ultimately have b0: "construct_mic_iv (qc_exists h) (a4_exists h) ?F (length P) pn = ?b0"
    using construct_mic_iv_eq [of "protected h" pn "P @ x" "length P"] assms(3)
    unfolding protected_same [OF same] by (simp add: ccm_b0_def)
  have l: "length ?b0 = 16" using ccmp_nonce_ok [OF assms(1,3)] by (simp add: ccm_b0_def)
  have assoc: "blocks 16 (pad16 (ccm_assoc ?A)) = [?h1, ?h2]" by (rule blocks_assoc [OF assms(1,2)])
  have h12: "length ?h1 = 16" "length ?h2 = 16"
    unfolding mic_header1_eq [OF assms(1,2)] mic_header2_eq [OF assms(1)]
    using length_ccmp_aad [OF assms(1)] length_hdr [OF assms(1)] by simp_all
  let ?y = "cbc_mac ?E (?E ?b0) [?h1, ?h2]"
  have y: "length ?y = 16" by (rule length_cbc_mac) simp
  have first: "aes128k128d key (bitwise_xor (aes128k128d key (bitwise_xor
      (aes128k128d key ?b0) ?h1)) ?h2) = ?y"
    using assms(4) h12 l
    by (simp add: aes128k128d_eq bitwise_xor_eq cbc_mac_def xor_bytes_commute)
  have "take (length P) (drop (length h) ?F) = P" by simp
  then show ?thesis
    using soft_aes_macs [OF assms(4) y, of "length h" "length P" ?F]
    unfolding soft_aes_mic_def Let_def b0 first ccm_tag_def assoc cbc_mac_append by simp
qed

section \<open>The whole routine\<close>

lemma case_Some_into:
  assumes "(case s of None \<Rightarrow> None | Some x \<Rightarrow> f x) = Some d" and "g d = r"
  shows "(case s of None \<Rightarrow> None | Some x \<Rightarrow> (case f x of None \<Rightarrow> None | Some y \<Rightarrow> g y)) = r"
  using assms by (cases s) simp_all

lemma RTMPSoftDecryptAES_eq:
  assumes "data_header h" and "carries_data h" and "length pn = 6" and "16 \<le> length (Key k)"
    and "KeyLen k \<noteq> 0" and "length M = 8" and "length h + 8 + length C + 8 < 2 ^ 32"
    and "P = xor_bytes C (ccm_stream (Key k) (ccmp_nonce h pn) ((length C + 15) div 16))"
  shows "RTMPSoftDecryptAES (h @ ccmp_header i pn @ C @ M @ z) (length h + 8 + length C + 8) k
    = Some (M = ccmp_mic (Key k) h pn P,
        protected h @ P @ drop (length C) (ccmp_header i pn @ C @ M @ z))"
proof -
  let ?key = "Key k" and ?N = "ccmp_nonce h pn"
  let ?E = "AES_enc_block ?key 16" and ?g = "ccmp_header i pn @ C @ M @ z"
  let ?F = "h @ ?g" and ?D = "h @ P @ drop (length C) ?g"
  have h: "24 \<le> length h" "length h \<le> 32" by (rule length_hdr [OF assms(1)])+
  have N: "length ?N = 13" by (rule ccmp_nonce_ok [OF assms(1,3)])
  have P: "length P = length C" using assms(8) by (simp add: length_ccm_stream)
  have fields: "a4_exists ?F = a4_exists h" "qos_subtype (frame_subtype ?F) = qc_exists h"
    using h(1) qos_data [OF assms(1)] by (auto simp: a4_exists_def frame_subtype_def nth_append)
  have hl: "24 + (if a4_exists h then 6 else 0) + (if qc_exists h then 2 else 0) = length h"
    using assms(1) by (simp add: data_header_def hdr_len_def)
  have pn: "[?F ! length h, ?F ! (length h + 1), ?F ! (length h + 4), ?F ! (length h + 5),
      ?F ! (length h + 6), ?F ! (length h + 7)] = pn"
    using ccmp_header_pn [OF assms(3)] by (simp add: nth_append)
  have n: "sub32 (sub32 (sub32 (length h + 8 + length C + 8) (length h)) 8) 8 = length C"
    using assms(7) by (simp add: sub32_le)
  have take_C: "take (length C) (drop 8 ?g) = C" by simp
  have "length C + 8 \<le> length ?g" by simp
  note payload = soft_aes_payload [OF assms(1,3,4) this, unfolded take_C, folded assms(8)]
  have idx: "length h + 8 + length C = length (h @ P) + 8" using P by simp
  have M: "take 8 (drop (length h + 8 + length C) ?D) = M"
    using P assms(6) by simp
  have a0: "aes128k128d ?key (construct_ctr_preload (a4_exists h) (qc_exists h) ?D pn 0) = ?E (ccm_ctr ?N 0)"
    unfolding construct_ctr_preload_eq [OF assms(1,3)]
    using assms(4) N by (intro aes128k128d_eq) (simp_all add: ccm_ctr_def)
  have trail: "take 8 (bitwise_xor (?E (ccm_ctr ?N 0)) (M @ replicate 8 0)) = xor_bytes M (?E (ccm_ctr ?N 0))"
  proof -
    have "take 8 (bitwise_xor (?E (ccm_ctr ?N 0)) (M @ replicate 8 0)) = xor_bytes (take 8 (?E (ccm_ctr ?N 0))) M"
      using assms(6) by (simp add: bitwise_xor_eq take_xor_bytes)
    then show ?thesis
      using xor_bytes_take_right [of M "?E (ccm_ctr ?N 0)"] assms(6) by (simp add: xor_bytes_commute)
  qed
  have prot: "?D[1 := ?D ! 1 OR 0x40] = protected h @ P @ drop (length C) ?g"
    using h by (simp add: nth_append list_update_append)
  have mic: "soft_aes_mic ?key (a4_exists h) (qc_exists h) pn (length h) (length C)
      (protected h @ P @ drop (length C) ?g) = ccm_tag ?E 8 ?N (ccmp_aad h) P"
    using soft_aes_mic_eq [OF assms(1-4), of P] P by simp
  have cmp: "ccm_tag ?E 8 ?N (ccmp_aad h) P = xor_bytes M (?E (ccm_ctr ?N 0))
      \<longleftrightarrow> M = ccmp_mic ?key h pn P"
  proof -
    have "length (ccm_tag ?E 8 ?N (ccmp_aad h) P) = 8" by (rule length_ccm_tag) simp
    then show ?thesis
      using assms(6) xor_bytes_cancel [of M "?E (ccm_ctr ?N 0)"]
        xor_bytes_cancel [of "ccm_tag ?E 8 ?N (ccmp_aad h) P" "?E (ccm_ctr ?N 0)"] by fastforce
  qed
  have guards: "\<not> length ?F < 2" "\<not> (length ?F < length h + 8 \<or> length ?key < 16)"
    "\<not> length ?D < length h + 8 + length C + 8"
    using assms(4,6) P h by simp_all
  show ?thesis
    unfolding RTMPSoftDecryptAES_def Let_def fields hl n pn
    unfolding if_not_P [OF guards(1)] if_not_P [OF assms(5)] if_not_P [OF guards(2)]
    using payload
    by (rule case_Some_into) (simp only: guards assms(5) if_False option.case M a0 trail prot mic cmp simp_thms)
qed

text \<open>The encapsulations of a cipher text.\<close>

lemma ccmp_encrypt_iff:
  assumes "length M = 8"
  shows "ccmp_encrypt key h pn Q = C @ M
    \<longleftrightarrow> Q = xor_bytes C (ccm_stream key (ccmp_nonce h pn) ((length C + 15) div 16)) \<and> M = ccmp_mic key h pn Q"
proof -
  let ?s = "\<lambda>c. ccm_stream key (ccmp_nonce h pn) ((length c + 15) div 16)"
  have len: "length c \<le> length (?s c)" for c :: bytes
  proof -
    have "length c \<le> 16 * ((length c + 15) div 16)" by presburger
    then show ?thesis by (simp add: length_ccm_stream)
  qed
  have "length (ccmp_mic key h pn Q) = 8" by (simp add: length_ccm_tag)
  moreover have "ccmp_encrypt key h pn Q = xor_bytes Q (?s Q) @ ccmp_mic key h pn Q"
    by (simp add: ccmp_encrypt_def ccm_encrypt_def ccm_stream_def)
  ultimately have "ccmp_encrypt key h pn Q = C @ M \<longleftrightarrow> xor_bytes Q (?s Q) = C \<and> ccmp_mic key h pn Q = M"
    using assms by (auto simp: append_eq_append_conv)
  moreover have "xor_bytes Q (?s Q) = C \<longleftrightarrow> Q = xor_bytes C (?s C)"
  proof
    assume "xor_bytes Q (?s Q) = C"
    moreover from this have "length C = length Q" using len [of Q] by auto
    ultimately show "Q = xor_bytes C (?s C)" using xor_bytes_cancel [OF len [of Q]] by simp
  next
    assume Q: "Q = xor_bytes C (?s C)"
    then have "length Q = length C" using len [of C] by simp
    then show "xor_bytes Q (?s Q) = C" unfolding Q using xor_bytes_cancel [OF len [of C]] by simp
  qed
  ultimately show ?thesis by auto
qed

section \<open>Properties\<close>

text \<open>C12: For every data frame header, with or without fourth address and quality-of-service field,
  \<open>RTMPSoftEncryptCCMP\<close> replaces a payload of at most 4080 bytes by the CCMP encapsulation of IEEE
  802.11 (the CCM encryption with the additional authentication data and the nonce of the standard)
  and touches nothing behind it.\<close>

theorem RTMPSoftEncryptCCMP_is_CCMP:
  assumes "data_header h" and "length pn = 6" and "16 \<le> length key" and "8 \<le> length z"
    and "length P \<le> 4080"
  shows "RTMPSoftEncryptCCMP h pn key (P @ z) (length P)
    = Some (True, ccmp_encrypt key h pn P @ drop 8 z)"
proof -
  have "ccm_nonce (ccmp_nonce h pn)" using ccmp_nonce_ok [OF assms(1,2)] by (simp add: ccm_nonce_def)
  note mode = ccm_text_mode [OF this assms(5), of key 8 "ccmp_aad h"]
  have "length P + 8 < 2 ^ 32" using assms(5) by simp
  from RTMPSoftEncryptCCMP_eq [OF assms(1-4) this] show ?thesis
    unfolding ccmp_encrypt_def mode [symmetric] by (simp only: append_assoc)
qed

theorem RTMPSoftEncryptCCMP_is_CCMP_witness:
  "RTMPSoftEncryptCCMP (0x88 # replicate 25 0) [1, 2, 3, 4, 5, 6] (replicate 16 7) ([1, 2, 3] @ replicate 8 0)
      (length [1, 2, 3 :: u8])
    = Some (True, ccmp_encrypt (replicate 16 7) (0x88 # replicate 25 0) [1, 2, 3, 4, 5, 6] [1, 2, 3]
        @ drop 8 (replicate 8 0))"
  by (rule RTMPSoftEncryptCCMP_is_CCMP)
    (simp_all add: data_header_def hdr_len_def qc_exists_def qos_subtype_def frame_type_def
      frame_subtype_def a4_exists_def)

text \<open>C15: What \<open>RTMPSoftEncryptCCMP\<close> makes of a payload, behind the header of
  \<open>RTMPConstructCCMPHdr\<close>, \<open>RTMPSoftDecryptCCMP\<close> accepts: it restores the payload and reports its
  length, for every payload that fits a 16-bit length.\<close>

theorem CCMP_round_trip:
  assumes "data_header h" and "length pn = 6" and "16 \<le> length (Key k)" and "KeyLen k \<noteq> 0"
    and "length z = 8" and "length P + 16 < 65536"
  shows "\<exists>c hdr out. RTMPSoftEncryptCCMP h pn (Key k) (P @ z) (length P) = Some (True, c)
    \<and> RTMPConstructCCMPHdr i pn = Some hdr
    \<and> RTMPSoftDecryptCCMP h k (hdr @ c) (word_of_nat (length P + 16)) = Some (True, out, word_of_nat (length P))
    \<and> take (length P) out = P"
proof -
  let ?C = "ccmp_text (Key k) h pn P" and ?M = "ccmp_mic (Key k) h pn P"
  have C: "length ?C = length P" by (rule length_ccm_text)
  have M: "length ?M = 8" by (simp add: length_ccm_tag)
  have enc: "RTMPSoftEncryptCCMP h pn (Key k) (P @ z) (length P) = Some (True, ?C @ ?M)"
    using RTMPSoftEncryptCCMP_eq [OF assms(1-3), of z P] assms(5,6) by simp
  have n: "unat (word_of_nat (length P + 16) :: u16) = 8 + (length ?C + 8)"
    using assms(6) C unfolding unat_of_nat by simp
  obtain r where "RTMPSoftDecryptCCMP h k (ccmp_header i pn @ ?C @ ?M) (word_of_nat (length P + 16))
      = Some (if ?M = ?M then (True, P @ r, word_of_nat (length ?C))
              else (False, P @ r, word_of_nat (length P + 16)))"
    using RTMPSoftDecryptCCMP_eq [OF assms(1-4) M n ccm_text_twice [symmetric], of i] by blast
  then have dec: "RTMPSoftDecryptCCMP h k (ccmp_header i pn @ ?C @ ?M) (word_of_nat (length P + 16))
      = Some (True, P @ r, word_of_nat (length P))" unfolding C by simp
  then show ?thesis
    by (intro exI [of _ "?C @ ?M"] exI [of _ "ccmp_header i pn"] exI [of _ "P @ r"])
      (simp only: enc RTMPConstructCCMPHdr_eq [OF assms(2)] dec simp_thms, simp)
qed

text \<open>A key and headers for the witnesses.\<close>

definition ccmp_key :: cipher_key where
  "ccmp_key = \<lparr>Key = replicate 32 7, TxMic = [], RxMic = [], TxTsc = [], RxTsc = [], CipherAlg = 4,
     KeyLen = 16, BssId = [], KeyType = 0\<rparr>"

definition qos_header :: bytes where "qos_header = 0x88 # replicate 25 0"

lemma ccmp_samples:
  "data_header qos_header" "carries_data qos_header" "length [1, 2, 3, 4, 5, 6 :: u8] = 6" "16 \<le> length (Key ccmp_key)"
  "KeyLen ccmp_key \<noteq> 0"
  by (simp_all add: ccmp_key_def qos_header_def data_header_def carries_data_def hdr_len_def qc_exists_def
      qos_subtype_def frame_type_def frame_subtype_def a4_exists_def)

theorem CCMP_round_trip_witness:
  "\<exists>c hdr out. RTMPSoftEncryptCCMP qos_header [1, 2, 3, 4, 5, 6] (Key ccmp_key) ([1, 2, 3] @ replicate 8 0)
        (length [1, 2, 3 :: u8]) = Some (True, c)
    \<and> RTMPConstructCCMPHdr 1 [1, 2, 3, 4, 5, 6] = Some hdr
    \<and> RTMPSoftDecryptCCMP qos_header ccmp_key (hdr @ c) (word_of_nat (length [1, 2, 3 :: u8] + 16))
      = Some (True, out, word_of_nat (length [1, 2, 3 :: u8]))
    \<and> take (length [1, 2, 3 :: u8]) out = [1, 2, 3]"
  by (rule CCMP_round_trip [OF ccmp_samples(1,3-5)]) simp_all

text \<open>C14: \<open>RTMPSoftDecryptCCMP\<close> accepts a frame with an encrypted part of at most 4080 bytes exactly when
  it is the CCMP encapsulation of some payload under this header, packet number and key, and then
  delivers that payload; when it refuses, the length is kept but the buffer still holds the
  decrypted bytes.\<close>

theorem RTMPSoftDecryptCCMP_accepts_iff:
  assumes "data_header h" and "length pn = 6" and "16 \<le> length (Key k)" and "KeyLen k \<noteq> 0"
    and "length M = 8" and "length C \<le> 4080" and "n = word_of_nat (length C + 16)"
  shows "\<exists>b P rest. RTMPSoftDecryptCCMP h k (ccmp_header i pn @ C @ M) n
      = Some (b, P @ rest, if b then word_of_nat (length C) else n)
    \<and> (b \<longleftrightarrow> (\<exists>Q. ccmp_encrypt (Key k) h pn Q = C @ M))
    \<and> length P = length C \<and> (b \<longrightarrow> ccmp_encrypt (Key k) h pn P = C @ M)"
proof -
  let ?P = "ccmp_text (Key k) h pn C"
  have n: "unat n = 8 + (length C + 8)" using assms(6) unfolding assms(7) unat_of_nat by simp
  have N: "ccm_nonce (ccmp_nonce h pn)" using ccmp_nonce_ok [OF assms(1,2)] by (simp add: ccm_nonce_def)
  have "length (ccmp_text (Key k) h pn C) = length C" by (rule length_ccm_text)
  then have "ccm_text (Key k) (ccmp_nonce h pn) C = xor_bytes C (ccm_stream (Key k) (ccmp_nonce h pn) ((length C + 15) div 16))"
    using ccm_text_mode [OF N assms(6), of "Key k" 8 "ccmp_aad h"]
    by (auto simp: ccm_encrypt_def ccm_stream_def)
  then have P: "ccmp_encrypt (Key k) h pn Q = C @ M \<longleftrightarrow> Q = ?P \<and> M = ccmp_mic (Key k) h pn Q" for Q
    using ccmp_encrypt_iff [OF assms(5)] by simp
  obtain rest where dec: "RTMPSoftDecryptCCMP h k (ccmp_header i pn @ C @ M) n
      = Some (if M = ccmp_mic (Key k) h pn ?P then (True, ?P @ rest, word_of_nat (length C)) else (False, ?P @ rest, n))"
    using RTMPSoftDecryptCCMP_eq [OF assms(1-5) n refl, of i] by blast
  show ?thesis
    unfolding P
    by (rule exI [of _ "M = ccmp_mic (Key k) h pn ?P"], rule exI [of _ ?P], rule exI [of _ rest])
      (use dec \<open>length ?P = length C\<close> in auto)
qed

theorem RTMPSoftDecryptCCMP_accepts_iff_witness:
  "\<exists>b P rest. RTMPSoftDecryptCCMP qos_header ccmp_key
        (ccmp_header 1 [1, 2, 3, 4, 5, 6] @ [9, 9, 9] @ replicate 8 5) (word_of_nat (length [9, 9, 9 :: u8] + 16))
      = Some (b, P @ rest, if b then word_of_nat (length [9, 9, 9 :: u8]) else word_of_nat (length [9, 9, 9 :: u8] + 16))
    \<and> (b \<longleftrightarrow> (\<exists>Q. ccmp_encrypt (Key ccmp_key) qos_header [1, 2, 3, 4, 5, 6] Q = [9, 9, 9] @ replicate 8 5))
    \<and> length P = length [9, 9, 9 :: u8]
    \<and> (b \<longrightarrow> ccmp_encrypt (Key ccmp_key) qos_header [1, 2, 3, 4, 5, 6] P = [9, 9, 9] @ replicate 8 5)"
  by (rule RTMPSoftDecryptCCMP_accepts_iff [OF ccmp_samples(1,3-5)]) simp_all

text \<open>C13: \<open>RTMPSoftDecryptAES\<close>, which has its own cipher, counter blocks and chaining, accepts a data
  frame of any length exactly when what follows its CCMP header is the CCMP encapsulation of some
  payload; then the frame it leaves is the header with the protected bit and that payload.\<close>

theorem RTMPSoftDecryptAES_accepts_iff:
  assumes "data_header h" and "carries_data h" and "length pn = 6" and "16 \<le> length (Key k)"
    and "KeyLen k \<noteq> 0" and "length M = 8" and "length h + 8 + length C + 8 < 2 ^ 32"
  shows "\<exists>b P rest. RTMPSoftDecryptAES (h @ ccmp_header i pn @ C @ M @ z) (length h + 8 + length C + 8) k
      = Some (b, h[1 := h ! 1 OR 0x40] @ P @ rest)
    \<and> (b \<longleftrightarrow> (\<exists>Q. ccmp_encrypt (Key k) h pn Q = C @ M))
    \<and> length P = length C \<and> (b \<longrightarrow> ccmp_encrypt (Key k) h pn P = C @ M)"
proof -
  let ?P = "xor_bytes C (ccm_stream (Key k) (ccmp_nonce h pn) ((length C + 15) div 16))"
  have l: "length ?P = length C" by (simp add: length_ccm_stream)
  note dec = RTMPSoftDecryptAES_eq [OF assms refl, of i z]
  show ?thesis
    unfolding ccmp_encrypt_iff [OF assms(6)]
    by (intro exI [of _ "M = ccmp_mic (Key k) h pn ?P"] exI [of _ ?P]
        exI [of _ "drop (length C) (ccmp_header i pn @ C @ M @ z)"])
      (use dec l in auto)
qed

theorem RTMPSoftDecryptAES_accepts_iff_witness:
  "\<exists>b P rest. RTMPSoftDecryptAES (qos_header @ ccmp_header 1 [1, 2, 3, 4, 5, 6] @ [9, 9, 9] @ replicate 8 5 @ [])
        (length qos_header + 8 + length [9, 9, 9 :: u8] + 8) ccmp_key
      = Some (b, qos_header[1 := qos_header ! 1 OR 0x40] @ P @ rest)
    \<and> (b \<longleftrightarrow> (\<exists>Q. ccmp_encrypt (Key ccmp_key) qos_header [1, 2, 3, 4, 5, 6] Q = [9, 9, 9] @ replicate 8 5))
    \<and> length P = length [9, 9, 9 :: u8]
    \<and> (b \<longrightarrow> ccmp_encrypt (Key ccmp_key) qos_header [1, 2, 3, 4, 5, 6] P = [9, 9, 9] @ replicate 8 5)"
  by (rule RTMPSoftDecryptAES_accepts_iff [OF ccmp_samples]) (simp_all add: qos_header_def)

text \<open>A frame shorter than the CCMP header and the code together is refused by
  \<open>RTMPSoftDecryptCCMP\<close> with buffer and length untouched, although from nine bytes on only the
  wrapped-around length of the payload makes the CCM routine refuse it.\<close>

theorem RTMPSoftDecryptCCMP_short_frame:
  assumes "data_header h" and "n < 16" and "8 \<le> length pData"
  shows "RTMPSoftDecryptCCMP h k pData n = Some (False, pData, n)"
proof (cases "KeyLen k = 0 \<or> n \<le> 8")
  case True
  then show ?thesis
    using assms(3) length_hdr(1) [OF assms(1)] by (auto simp: RTMPSoftDecryptCCMP_def Let_def)
next
  case False
  let ?pn = "[pData ! 0, pData ! 1, pData ! 4, pData ! 5, pData ! 6, pData ! 7]"
  have n: "8 < unat n" "unat n < 16" using False assms(2) by (simp_all add: word_le_nat_alt word_less_nat_alt)
  have "sub32 (unat n) 8 = unat n - 8" using n by (intro sub32_le) simp_all
  moreover have "sub32 (unat n - 8) 8 = unat n - 8 + 4294967296 - 8" using n by (simp add: sub32_def)
  ultimately have big: "unat n < sub32 (sub32 (unat n) 8) 8" using n by simp
  show ?thesis
    using False assms(3) length_hdr(1) [OF assms(1)] ccmp_nonce_ok [OF assms(1), of ?pn]
    by (simp add: RTMPSoftDecryptCCMP_def Let_def RTMPConstructCCMPAAD_eq [OF assms(1)]
        RTMPConstructCCMPNonce_eq [OF assms(1)] AES_CCM_Decrypt_def ccm_mac_length_def big)
qed

theorem RTMPSoftDecryptCCMP_short_frame_witness:
  "RTMPSoftDecryptCCMP qos_header ccmp_key (replicate 12 1) 12 = Some (False, replicate 12 1, 12)"
  by (rule RTMPSoftDecryptCCMP_short_frame [OF ccmp_samples(1)]) simp_all

end
