(* ===== verification/Ba_Reorder.thy ===== *)
theory Ba_Reorder
  imports Prelude
begin

text \<open>
  The reordering of received A-MPDU frames, from \<open>rt5572/common/ba_action.c\<close>: the sorted list of
  a block-ack session, the pool its elements come from, the handler of a received frame, of a
  block-ack request and of the timeout. This theory holds the code's model; \<open>Ba_Window\<close> relates
  it to a receive window on unbounded sequence numbers.
\<close>

section \<open>Data\<close>

text \<open>
  A buffered frame, a list of them and a received frame. \<open>rlist.chain\<close> is what the \<open>next\<close>
  pointers link; \<open>qlen\<close> is kept beside it, as in the code. Packets are named by numbers.
\<close>

record reordering_mpdu =
  pPacket :: nat
  Sequence :: int
  bAMSDU :: bool
  OpMode :: nat

record reordering_list =
  chain :: "reordering_mpdu list"
  qlen :: int

record rx_blk =
  pRxPacket :: nat
  rxSequence :: int
  fRX_AMSDU :: bool
  fRX_EAP :: bool
  DataSize :: nat
  rxOpMode :: nat

text \<open>\<open>BA_REC_ENTRY\<close> and the free list of the pool, \<open>mpdu_blk_pool.freelist\<close>.\<close>

record ba_rec_entry =
  BAWinSize :: int
  LastIndSeq :: int
  LastIndSeqAtTimer :: u32
  nDropPacket :: u32
  rcvSeq :: int
  rlist :: reordering_list
  freelist :: reordering_list

text \<open>What the routines hand to the layers above.\<close>

datatype indication =
    Announce_Reordering_Packet reordering_mpdu
  | Indicate_AMSDU_Packet rx_blk
  | Indicate_EAPOL_Packet rx_blk
  | Indicate_Legacy_Packet rx_blk
  | RELEASE_NDIS_PACKET nat

definition MAX_LEN_OF_MAC_TABLE :: nat where "MAX_LEN_OF_MAC_TABLE = 32"
definition NUM_OF_TID :: nat where "NUM_OF_TID = 8"

definition MAXSEQ :: int where "MAXSEQ = 0xFFF"
definition RESET_RCV_SEQ :: int where "RESET_RCV_SEQ = 0xFFFF"

definition SEQ_STEPONE :: "int \<Rightarrow> int \<Rightarrow> int \<Rightarrow> bool" where
  "SEQ_STEPONE s1 s2 Limit \<longleftrightarrow> s1 = (s2 + 1) AND Limit"

definition SEQ_SMALLER :: "int \<Rightarrow> int \<Rightarrow> int \<Rightarrow> bool" where
  "SEQ_SMALLER s1 s2 Limit \<longleftrightarrow> (s1 - s2) AND drop_bit 1 (Limit + 1) \<noteq> 0"

section \<open>Lists and the pool\<close>

fun insert_scan :: "reordering_mpdu \<Rightarrow> reordering_mpdu list \<Rightarrow> reordering_mpdu list option" where
  "insert_scan mpdu [] = Some [mpdu]"
| "insert_scan mpdu (p # ps) =
     (if SEQ_SMALLER (Sequence p) (Sequence mpdu) MAXSEQ then map_option ((#) p) (insert_scan mpdu ps)
      else if Sequence p = Sequence mpdu then None
      else Some (mpdu # p # ps))"

definition ba_reordering_mpdu_insertsorted ::
  "reordering_list \<Rightarrow> reordering_mpdu \<Rightarrow> bool \<times> reordering_list" where
  "ba_reordering_mpdu_insertsorted l mpdu =
     (case insert_scan mpdu (chain l) of
        None \<Rightarrow> (False, l)
      | Some c \<Rightarrow> (True, l\<lparr>chain := c, qlen := qlen l + 1\<rparr>))"

definition ba_enqueue :: "reordering_list \<Rightarrow> reordering_mpdu \<Rightarrow> reordering_list" where
  "ba_enqueue l mpdu_blk = l\<lparr>chain := mpdu_blk # chain l, qlen := qlen l + 1\<rparr>"

definition ba_dequeue :: "reordering_list \<Rightarrow> reordering_mpdu option \<times> reordering_list" where
  "ba_dequeue l =
     (if qlen l \<noteq> 0 then
        (case chain l of
           [] \<Rightarrow> (None, l\<lparr>qlen := qlen l - 1\<rparr>)
         | m # ms \<Rightarrow> (Some m, l\<lparr>chain := ms, qlen := qlen l - 1\<rparr>))
      else (None, l))"

definition ba_reordering_mpdu_probe :: "reordering_list \<Rightarrow> reordering_mpdu option" where
  "ba_reordering_mpdu_probe l = (case chain l of [] \<Rightarrow> None | m # _ \<Rightarrow> Some m)"

text \<open>The zeroed block that initialisation and allocation make.\<close>

definition zero_mpdu :: reordering_mpdu where
  "zero_mpdu = \<lparr>pPacket = 0, Sequence = 0, bAMSDU = False, OpMode = 0\<rparr>"

definition ba_reordering_resource_init :: "nat \<Rightarrow> reordering_list" where
  "ba_reordering_resource_init num =
     foldl ba_enqueue \<lparr>chain = [], qlen = 0\<rparr> (replicate num zero_mpdu)"

definition ba_mpdu_blk_alloc :: "ba_rec_entry \<Rightarrow> reordering_mpdu option \<times> ba_rec_entry" where
  "ba_mpdu_blk_alloc e =
     (case ba_dequeue (freelist e) of
        (b, l) \<Rightarrow> (map_option (\<lambda>_. zero_mpdu) b, e\<lparr>freelist := l\<rparr>))"

definition ba_mpdu_blk_free :: "reordering_mpdu \<Rightarrow> ba_rec_entry \<Rightarrow> ba_rec_entry" where
  "ba_mpdu_blk_free m e = e\<lparr>freelist := ba_enqueue (freelist e) m\<rparr>"

section \<open>The loops that pass frames up\<close>

lemma ba_dequeue_shorter: "(Some m, l') = ba_dequeue l \<Longrightarrow> length (chain l') < length (chain l)"
  by (auto simp: ba_dequeue_def split: if_splits list.splits)

text \<open>
  The result of a loop is the entry, the value it returns and what it passes up; \<open>None\<close> is the
  use of a null pointer, when \<open>qlen\<close> is 0 and the chain is not empty.
\<close>

function (sequential) in_order_loop ::
  "ba_rec_entry \<Rightarrow> int \<Rightarrow> int \<Rightarrow> (ba_rec_entry \<times> int \<times> indication list) option" where
  "in_order_loop e StartSeq Last =
     (case ba_reordering_mpdu_probe (rlist e) of
        None \<Rightarrow> Some (e, Last, [])
      | Some m \<Rightarrow>
          if \<not> SEQ_STEPONE (Sequence m) StartSeq MAXSEQ then Some (e, Last, [])
          else (case ba_dequeue (rlist e) of
                  (None, _) \<Rightarrow> None
                | (Some m, l) \<Rightarrow>
                    map_option (\<lambda>(e, s, ind). (e, s, Announce_Reordering_Packet m # ind))
                      (in_order_loop (ba_mpdu_blk_free m (e\<lparr>rlist := l\<rparr>)) (Sequence m) (Sequence m))))"
  by pat_completeness auto
termination
  by (relation "measure (\<lambda>(e, _). length (chain (rlist e)))")
    (auto simp: ba_mpdu_blk_free_def dest: ba_dequeue_shorter)

declare in_order_loop.simps [simp del]

definition ba_indicate_reordering_mpdus_in_order ::
  "ba_rec_entry \<Rightarrow> int \<Rightarrow> (ba_rec_entry \<times> int \<times> indication list) option" where
  "ba_indicate_reordering_mpdus_in_order e StartSeq = in_order_loop e StartSeq RESET_RCV_SEQ"

function (sequential) ba_indicate_reordering_mpdus_le_seq ::
  "ba_rec_entry \<Rightarrow> int \<Rightarrow> (ba_rec_entry \<times> indication list) option" where
  "ba_indicate_reordering_mpdus_le_seq e seq =
     (case ba_reordering_mpdu_probe (rlist e) of
        None \<Rightarrow> Some (e, [])
      | Some m \<Rightarrow>
          if Sequence m = seq \<or> SEQ_SMALLER (Sequence m) seq MAXSEQ then
            (case ba_dequeue (rlist e) of
               (None, _) \<Rightarrow> None
             | (Some m, l) \<Rightarrow>
                 map_option (\<lambda>(e, ind). (e, Announce_Reordering_Packet m # ind))
                   (ba_indicate_reordering_mpdus_le_seq (ba_mpdu_blk_free m (e\<lparr>rlist := l\<rparr>)) seq))
          else Some (e, []))"
  by pat_completeness auto
termination
  by (relation "measure (\<lambda>(e, _). length (chain (rlist e)))")
    (auto simp: ba_mpdu_blk_free_def dest: ba_dequeue_shorter)

declare ba_indicate_reordering_mpdus_le_seq.simps [simp del]

function (sequential) refresh_loop :: "ba_rec_entry \<Rightarrow> ba_rec_entry \<times> indication list" where
  "refresh_loop e =
     (case ba_dequeue (rlist e) of
        (None, l) \<Rightarrow> (e\<lparr>rlist := l\<rparr>, [])
      | (Some m, l) \<Rightarrow>
          (case refresh_loop (ba_mpdu_blk_free m (e\<lparr>rlist := l, LastIndSeq := Sequence m\<rparr>)) of
             (e, ind) \<Rightarrow> (e, Announce_Reordering_Packet m # ind)))"
  by pat_completeness auto
termination
  by (relation "measure (\<lambda>e. length (chain (rlist e)))")
    (auto simp: ba_mpdu_blk_free_def dest: ba_dequeue_shorter)

declare refresh_loop.simps [simp del]

definition ba_refresh_reordering_mpdus :: "ba_rec_entry \<Rightarrow> ba_rec_entry \<times> indication list" where
  "ba_refresh_reordering_mpdus e =
     (case refresh_loop e of (e, ind) \<Rightarrow> (e\<lparr>LastIndSeq := RESET_RCV_SEQ\<rparr>, ind))"

section \<open>The timeout\<close>

text \<open>\<open>OS_HZ\<close>, the ticks in a second, belongs to the kernel the driver is built for.\<close>

definition RTMP_TIME_AFTER :: "u32 \<Rightarrow> u32 \<Rightarrow> bool" where
  "RTMP_TIME_AFTER a b \<longleftrightarrow> sint (b - a) < 0"

definition REORDERING_PACKET_TIMEOUT :: "u32 \<Rightarrow> u32" where
  "REORDERING_PACKET_TIMEOUT OS_HZ = (100 * OS_HZ) div 1000"

definition MAX_REORDERING_PACKET_TIMEOUT :: "u32 \<Rightarrow> u32" where
  "MAX_REORDERING_PACKET_TIMEOUT OS_HZ = (3000 * OS_HZ) div 1000"

definition ba_flush_reordering_timeout_mpdus ::
  "u32 \<Rightarrow> ba_rec_entry \<Rightarrow> u32 \<Rightarrow> (ba_rec_entry \<times> indication list) option" where
  "ba_flush_reordering_timeout_mpdus OS_HZ e Now32 =
     (if qlen (rlist e) \<le> 0 then Some (e, [])
      else if RTMP_TIME_AFTER Now32 (LastIndSeqAtTimer e + MAX_REORDERING_PACKET_TIMEOUT OS_HZ div 6)
              \<and> qlen (rlist e) > 1
      then (case ba_refresh_reordering_mpdus e of (e, ind) \<Rightarrow> Some (e\<lparr>LastIndSeqAtTimer := Now32\<rparr>, ind))
      else if RTMP_TIME_AFTER Now32 (LastIndSeqAtTimer e + REORDERING_PACKET_TIMEOUT OS_HZ)
              \<and> qlen (rlist e) > 0
      then
        let Seq = (LastIndSeq e + 1) AND MAXSEQ in
        (case ba_indicate_reordering_mpdus_le_seq e Seq of
           None \<Rightarrow> None
         | Some (e, ind) \<Rightarrow>
             let e = e\<lparr>LastIndSeqAtTimer := Now32, LastIndSeq := Seq\<rparr> in
             (case ba_indicate_reordering_mpdus_in_order e Seq of
                None \<Rightarrow> None
              | Some (e, Seq, ind') \<Rightarrow>
                  Some (if Seq \<noteq> RESET_RCV_SEQ then e\<lparr>LastIndSeq := Seq\<rparr> else e, ind @ ind')))
      else Some (e, []))"

section \<open>A received frame\<close>

definition INDICATE_LEGACY_OR_AMSDU :: "rx_blk \<Rightarrow> indication" where
  "INDICATE_LEGACY_OR_AMSDU rx =
     (if fRX_AMSDU rx then Indicate_AMSDU_Packet rx
      else if fRX_EAP rx then Indicate_EAPOL_Packet rx
      else Indicate_Legacy_Packet rx)"

definition ba_enqueue_reordering_packet ::
  "ba_rec_entry \<Rightarrow> rx_blk \<Rightarrow> (ba_rec_entry \<times> indication list) option" where
  "ba_enqueue_reordering_packet e rx =
     (case ba_mpdu_blk_alloc e of
        (blk, e) \<Rightarrow>
          if blk \<noteq> None \<and> \<not> fRX_EAP rx then
            let mpdu_blk = (the blk)\<lparr>Sequence := rxSequence rx, OpMode := rxOpMode rx,
                  bAMSDU := fRX_AMSDU rx, pPacket := pRxPacket rx\<rparr> in
            (case ba_reordering_mpdu_insertsorted (rlist e) mpdu_blk of
               (False, l) \<Rightarrow>
                 Some (ba_mpdu_blk_free mpdu_blk (e\<lparr>rlist := l\<rparr>), [RELEASE_NDIS_PACKET (pRxPacket rx)])
             | (True, l) \<Rightarrow> Some (e\<lparr>rlist := l\<rparr>, []))
          else
            (case ba_indicate_reordering_mpdus_le_seq e (rxSequence rx) of
               None \<Rightarrow> None
             | Some (e, ind) \<Rightarrow>
                 Some (e\<lparr>LastIndSeq := rxSequence rx\<rparr>, ind @ [INDICATE_LEGACY_OR_AMSDU rx])))"

text \<open>\<open>WinStartSeq\<close> of the fifth case.\<close>

definition ba_win_start :: "int \<Rightarrow> int \<Rightarrow> int" where
  "ba_win_start Seq WinSize =
     (let TmpSeq = Seq - WinSize - 1;
          TmpSeq = (if TmpSeq < 0 then (MAXSEQ + 1) + TmpSeq else TmpSeq)
      in (TmpSeq + 1) AND MAXSEQ)"

text \<open>The five cases of \<open>Indicate_AMPDU_Packet\<close> for a frame of a running session.\<close>

definition ampdu_cases ::
  "u32 \<Rightarrow> ba_rec_entry \<Rightarrow> rx_blk \<Rightarrow> (ba_rec_entry \<times> indication list) option" where
  "ampdu_cases Now32 e rx =
     (let Seq = rxSequence rx in
      if SEQ_STEPONE Seq (LastIndSeq e) MAXSEQ then
        (case ba_indicate_reordering_mpdus_in_order (e\<lparr>LastIndSeq := Seq\<rparr>) Seq of
           None \<Rightarrow> None
         | Some (e, Last, ind) \<Rightarrow>
             let e = (if Last \<noteq> RESET_RCV_SEQ then e\<lparr>LastIndSeq := Last\<rparr> else e) in
             Some (e\<lparr>LastIndSeqAtTimer := Now32\<rparr>, INDICATE_LEGACY_OR_AMSDU rx # ind))
      else if Seq = LastIndSeq e then
        Some (e\<lparr>nDropPacket := nDropPacket e + 1\<rparr>, [RELEASE_NDIS_PACKET (pRxPacket rx)])
      else if SEQ_SMALLER Seq (LastIndSeq e) MAXSEQ then
        Some (e\<lparr>nDropPacket := nDropPacket e + 1\<rparr>, [RELEASE_NDIS_PACKET (pRxPacket rx)])
      else if SEQ_SMALLER Seq ((LastIndSeq e + BAWinSize e + 1) AND MAXSEQ) MAXSEQ then
        ba_enqueue_reordering_packet e rx
      else
        let WinStartSeq = ba_win_start Seq (BAWinSize e) in
           (case ba_indicate_reordering_mpdus_le_seq e WinStartSeq of
              None \<Rightarrow> None
            | Some (e, ind1) \<Rightarrow>
                let e = e\<lparr>LastIndSeq := WinStartSeq, LastIndSeqAtTimer := Now32\<rparr> in
                (case ba_enqueue_reordering_packet e rx of
                   None \<Rightarrow> None
                 | Some (e, ind2) \<Rightarrow>
                     (case ba_indicate_reordering_mpdus_in_order e (LastIndSeq e) of
                        None \<Rightarrow> None
                      | Some (e, TmpSeq, ind3) \<Rightarrow>
                          Some (if TmpSeq \<noteq> RESET_RCV_SEQ then e\<lparr>LastIndSeq := TmpSeq\<rparr> else e,
                            ind1 @ ind2 @ ind3)))))"

text \<open>
  The body of \<open>Indicate_AMPDU_Packet\<close> once the session is found. \<open>Now32\<close> is what
  \<open>NdisGetSystemUpTime\<close> gives.
\<close>

definition ampdu_receive ::
  "u32 \<Rightarrow> u32 \<Rightarrow> ba_rec_entry \<Rightarrow> rx_blk \<Rightarrow> (ba_rec_entry \<times> indication list) option" where
  "ampdu_receive OS_HZ Now32 e rx =
     (case ba_flush_reordering_timeout_mpdus OS_HZ (e\<lparr>rcvSeq := rxSequence rx\<rparr>) Now32 of
        None \<Rightarrow> None
      | Some (e, ind0) \<Rightarrow>
          let e = e\<lparr>LastIndSeqAtTimer := Now32\<rparr> in
          map_option (\<lambda>(e, ind). (e, ind0 @ ind))
            (if LastIndSeq e = RESET_RCV_SEQ then
               Some (e\<lparr>LastIndSeq := rxSequence rx, LastIndSeqAtTimer := Now32\<rparr>,
                 [INDICATE_LEGACY_OR_AMSDU rx])
             else ampdu_cases Now32 e rx))"

text \<open>
  The whole routine: \<open>sess\<close> is the session \<open>BARecWcidArray\<close> names, \<open>None\<close> for index 0.
\<close>

definition Indicate_AMPDU_Packet ::
  "u32 \<Rightarrow> u32 \<Rightarrow> nat \<Rightarrow> ba_rec_entry option \<Rightarrow> rx_blk
    \<Rightarrow> (ba_rec_entry option \<times> indication list) option" where
  "Indicate_AMPDU_Packet OS_HZ Now32 Wcid sess rx =
     (if \<not> fRX_AMSDU rx \<and> DataSize rx > 1520 then Some (sess, [RELEASE_NDIS_PACKET (pRxPacket rx)])
      else if Wcid < MAX_LEN_OF_MAC_TABLE then
        (case sess of
           None \<Rightarrow> Some (None, [INDICATE_LEGACY_OR_AMSDU rx])
         | Some e \<Rightarrow> map_option (\<lambda>(e, ind). (Some e, ind)) (ampdu_receive OS_HZ Now32 e rx))
      else Some (sess, [RELEASE_NDIS_PACKET (pRxPacket rx)]))"

section \<open>A block-ack request\<close>

text \<open>
  \<open>halted\<close> is the test of the adapter's flags; \<open>MsgLen\<close> must be the size of \<open>FRAME_BA_REQ\<close>, 20
  bytes, which is below \<open>MGMT_DMA_BUFFER_SIZE\<close>.
\<close>

definition CntlEnqueueForRecv ::
  "bool \<Rightarrow> nat \<Rightarrow> nat \<Rightarrow> nat \<Rightarrow> int \<Rightarrow> ba_rec_entry
    \<Rightarrow> (bool \<times> ba_rec_entry \<times> indication list) option" where
  "CntlEnqueueForRecv halted Wcid MsgLen TID StartSeq e =
     (if halted then Some (False, e, [])
      else if MsgLen > 1600 then Some (False, e, [])
      else if MsgLen \<noteq> 20 then Some (False, e, [])
      else if \<not> (Wcid < MAX_LEN_OF_MAC_TABLE \<and> TID < 8) then Some (False, e, [])
      else if SEQ_SMALLER (LastIndSeq e) StartSeq MAXSEQ then
        map_option (\<lambda>(e, ind).
            (True, e\<lparr>LastIndSeq := (if StartSeq = 0 then MAXSEQ else StartSeq - 1)\<rparr>, ind))
          (ba_indicate_reordering_mpdus_le_seq e StartSeq)
      else Some (True, e, []))"

end
