(* ===== verification/Ba_Window.thy ===== *)
theory Ba_Window
  imports Ba_Reorder
begin

text \<open>
  The reordering list of \<open>Ba_Reorder\<close> as a receive window over unbounded sequence numbers: the
  code refines the window, the window delivers in order and without duplicates, timeouts drain
  it. The theorems on a block-ack request and on an EAPOL frame show where the code leaves the
  window's contract, and what the pool of blocks loses.
\<close>

section \<open>The window\<close>

text \<open>
  A window is the index of the last frame delivered and the buffered frames, with their index
  and packet, in order.
\<close>

type_synonym frame = "int \<times> nat"
type_synonym rwindow = "int \<times> frame list"

fun window_run :: "int \<Rightarrow> frame list \<Rightarrow> int \<times> frame list \<times> frame list" where
  "window_run n [] = (n, [], [])"
| "window_run n (f # fs) =
     (if fst f = n + 1 then (case window_run (n + 1) fs of (n', d, r) \<Rightarrow> (n', f # d, r))
      else (n, [], f # fs))"

definition window_insert :: "frame \<Rightarrow> frame list \<Rightarrow> frame list" where
  "window_insert f fs =
     (if fst f \<in> fst ` set fs then fs
      else takeWhile (\<lambda>g. fst g < fst f) fs @ f # dropWhile (\<lambda>g. fst g < fst f) fs)"

definition window_receive :: "int \<Rightarrow> rwindow \<Rightarrow> frame \<Rightarrow> rwindow \<times> frame list" where
  "window_receive win w f =
     (case w of (n, fs) \<Rightarrow>
        if fst f = n + 1 then (case window_run (n + 1) fs of (n', d, r) \<Rightarrow> ((n', r), f # d))
        else if fst f \<le> n then ((n, fs), [])
        else if fst f \<le> n + win then ((n, window_insert f fs), [])
        else
          let s = fst f - win; d0 = takeWhile (\<lambda>g. fst g \<le> s) fs in
          (case window_run s (window_insert f (dropWhile (\<lambda>g. fst g \<le> s) fs)) of
             (n', d, r) \<Rightarrow> ((n', r), d0 @ d)))"

definition window_ok :: "int \<Rightarrow> rwindow \<Rightarrow> bool" where
  "window_ok win w \<longleftrightarrow>
     (case w of (n, fs) \<Rightarrow> sorted_wrt (<) (map fst fs) \<and> (\<forall>f \<in> set fs. n + 2 \<le> fst f \<and> fst f \<le> n + win))"

section \<open>Sequence numbers and indices\<close>

definition wrap :: "frame \<Rightarrow> frame" where
  "wrap f = (fst f mod 4096, snd f)"

lemma and_MAXSEQ: "x AND MAXSEQ = x mod 4096"
  using take_bit_eq_mask [of 12 x] by (simp add: MAXSEQ_def take_bit_eq_mod mask_eq_exp_minus_1)

lemma mod_index_eq:
  assumes "\<bar>x - y\<bar> < 4096"
  shows "x mod 4096 = y mod 4096 \<longleftrightarrow> x = (y :: int)"
  using assms dvd_imp_le_int [of "x - y" 4096] by (auto simp: mod_eq_dvd_iff)

lemma SEQ_STEPONE_index:
  assumes "\<bar>x - y\<bar> < 4095"
  shows "SEQ_STEPONE (x mod 4096) (y mod 4096) MAXSEQ \<longleftrightarrow> x = y + 1"
proof -
  have "(y mod 4096 + 1) mod 4096 = (y + 1) mod 4096" by (rule mod_add_left_eq)
  moreover have "x mod 4096 = (y + 1) mod 4096 \<longleftrightarrow> x = y + 1"
    using assms by (intro mod_index_eq) linarith
  ultimately show ?thesis by (simp only: SEQ_STEPONE_def and_MAXSEQ)
qed

lemma SEQ_SMALLER_half: "SEQ_SMALLER a b MAXSEQ \<longleftrightarrow> 2048 \<le> (a - b) mod 4096"
proof -
  let ?z = "a - b"
  have "SEQ_SMALLER a b MAXSEQ \<longleftrightarrow> bit ?z 11"
    using and_exp_eq_0_iff_not_bit [of ?z 11] by (simp add: SEQ_SMALLER_def MAXSEQ_def)
  also have "\<dots> \<longleftrightarrow> ?z div 2048 mod 2 = 1" by (simp add: bit_iff_odd odd_iff_mod_2_eq_one)
  also have "\<dots> \<longleftrightarrow> 2048 \<le> 2048 * (?z div 2048 mod 2) + ?z mod 2048"
  proof -
    have "0 \<le> ?z mod 2048" "?z mod 2048 < 2048" by simp_all
    moreover have "?z div 2048 mod 2 = 0 \<or> ?z div 2048 mod 2 = 1" by presburger
    ultimately show ?thesis by (elim disjE) linarith+
  qed
  also have "2048 * (?z div 2048 mod 2) + ?z mod 2048 = ?z mod (2048 * 2)"
    by (simp only: zmod_zmult2_eq zero_le_numeral)
  finally show ?thesis by simp
qed

lemma SEQ_SMALLER_index:
  assumes "-2048 \<le> x - y" and "x - y < 2048"
  shows "SEQ_SMALLER (x mod 4096) (y mod 4096) MAXSEQ \<longleftrightarrow> x < y"
proof -
  have "SEQ_SMALLER (x mod 4096) (y mod 4096) MAXSEQ \<longleftrightarrow> 2048 \<le> (x - y) mod 4096"
    by (simp only: SEQ_SMALLER_half mod_diff_eq)
  also have "(x - y) mod 4096 = (if x < y then x - y + 4096 else x - y)"
  proof (cases "x < y")
    case True
    have "(x - y) mod 4096 = (x - y + 4096) mod 4096" by simp
    also have "\<dots> = x - y + 4096" using assms True by (intro mod_pos_pos_trivial) linarith+
    finally show ?thesis using True by simp
  qed (use assms in \<open>simp add: mod_pos_pos_trivial\<close>)
  finally show ?thesis using assms by auto
qed

section \<open>The loops\<close>

definition frame_of :: "reordering_mpdu \<Rightarrow> frame" where
  "frame_of m = (Sequence m, pPacket m)"

definition list_ok :: "reordering_list \<Rightarrow> bool" where
  "list_ok l \<longleftrightarrow> qlen l = int (length (chain l))"

definition ba_ok :: "ba_rec_entry \<Rightarrow> bool" where
  "ba_ok e \<longleftrightarrow> list_ok (rlist e) \<and> list_ok (freelist e)"

definition blocks_of :: "ba_rec_entry \<Rightarrow> nat" where
  "blocks_of e = length (chain (rlist e)) + length (chain (freelist e))"

definition holds :: "ba_rec_entry \<Rightarrow> frame list \<Rightarrow> bool" where
  "holds e fs \<longleftrightarrow> map frame_of (chain (rlist e)) = map wrap fs"

text \<open>What the loops leave as it is.\<close>

definition moved :: "ba_rec_entry \<Rightarrow> ba_rec_entry \<Rightarrow> bool" where
  "moved e e' \<longleftrightarrow> ba_ok e' \<and> blocks_of e' = blocks_of e \<and> BAWinSize e' = BAWinSize e
     \<and> LastIndSeq e' = LastIndSeq e \<and> LastIndSeqAtTimer e' = LastIndSeqAtTimer e"

fun passed :: "indication \<Rightarrow> frame list" where
  "passed (Announce_Reordering_Packet m) = [frame_of m]"
| "passed (Indicate_AMSDU_Packet rx) = [(rxSequence rx, pRxPacket rx)]"
| "passed (Indicate_EAPOL_Packet rx) = [(rxSequence rx, pRxPacket rx)]"
| "passed (Indicate_Legacy_Packet rx) = [(rxSequence rx, pRxPacket rx)]"
| "passed (RELEASE_NDIS_PACKET p) = []"

definition delivered :: "indication list \<Rightarrow> frame list" where
  "delivered ind = concat (map passed ind)"

lemma delivered_simps [simp]:
  "delivered [] = []" "delivered (i # is) = passed i @ delivered is"
  "delivered (is @ js) = delivered is @ delivered js"
  by (simp_all add: delivered_def)

lemma passed_INDICATE [simp]: "passed (INDICATE_LEGACY_OR_AMSDU rx) = [(rxSequence rx, pRxPacket rx)]"
  by (simp add: INDICATE_LEGACY_OR_AMSDU_def)

lemma moved_trans: "moved e e1 \<Longrightarrow> moved e1 e2 \<Longrightarrow> moved e e2"
  by (simp add: moved_def)

lemma moved_refl: "ba_ok e \<Longrightarrow> moved e e"
  by (simp add: moved_def)

text \<open>Taking the head of the list into the pool.\<close>

lemma dequeue_head:
  assumes "ba_ok e" and "chain (rlist e) = m # ms"
  shows "ba_reordering_mpdu_probe (rlist e) = Some m"
    and "\<exists>l. ba_dequeue (rlist e) = (Some m, l) \<and> chain l = ms
      \<and> moved e (ba_mpdu_blk_free m (e\<lparr>rlist := l\<rparr>))
      \<and> chain (rlist (ba_mpdu_blk_free m (e\<lparr>rlist := l\<rparr>))) = ms"
  using assms
  by (auto simp: ba_reordering_mpdu_probe_def ba_dequeue_def ba_ok_def list_ok_def moved_def
      ba_mpdu_blk_free_def ba_enqueue_def blocks_of_def)

lemma in_order_loop_run:
  assumes "ba_ok e" and "holds e fs" and "s = n mod 4096"
    and "\<forall>f \<in> set fs. n < fst f \<and> fst f < n + 2000" and "sorted_wrt (<) (map fst fs)"
    and "window_run n fs = (n', d, r)"
  shows "\<exists>e' ind. in_order_loop e s L = Some (e', if d = [] then L else n' mod 4096, ind)
    \<and> moved e e' \<and> holds e' r \<and> delivered ind = map wrap d"
  using assms
proof (induction fs arbitrary: e n s L n' d r)
  case Nil
  then have "chain (rlist e) = []" by (simp add: holds_def)
  with Nil show ?case
    by (simp add: in_order_loop.simps [of e] ba_reordering_mpdu_probe_def moved_refl holds_def)
next
  case (Cons f fs)
  from Cons.prems(2) obtain m ms where c: "chain (rlist e) = m # ms"
    and m: "frame_of m = wrap f" and ms: "map frame_of ms = map wrap fs"
    by (auto simp: holds_def)
  note hd = dequeue_head [OF Cons.prems(1) c]
  have seq: "Sequence m = fst f mod 4096" using m by (simp add: frame_of_def wrap_def)
  have "\<bar>fst f - n\<bar> < 4095" using Cons.prems(4) by simp
  then have step: "SEQ_STEPONE (Sequence m) s MAXSEQ \<longleftrightarrow> fst f = n + 1"
    by (simp add: seq Cons.prems(3) SEQ_STEPONE_index)
  show ?case
  proof (cases "fst f = n + 1")
    case False
    with Cons.prems(6) have "n' = n" "d = []" "r = f # fs" by simp_all
    with False step hd(1) Cons.prems(1,2) show ?thesis
      by (simp add: in_order_loop.simps [of e] moved_refl)
  next
    case True
    from hd(2) obtain l where l: "ba_dequeue (rlist e) = (Some m, l)"
      and mv: "moved e (ba_mpdu_blk_free m (e\<lparr>rlist := l\<rparr>))"
      and cl: "chain (rlist (ba_mpdu_blk_free m (e\<lparr>rlist := l\<rparr>))) = ms" by blast
    let ?e = "ba_mpdu_blk_free m (e\<lparr>rlist := l\<rparr>)"
    from Cons.prems(6) True obtain d' where w: "window_run (n + 1) fs = (n', d', r)" and d: "d = f # d'"
      by (auto split: prod.splits)
    have "ba_ok ?e" using mv by (simp add: moved_def)
    moreover have "holds ?e fs" using cl ms by (simp add: holds_def)
    moreover have "Sequence m = (n + 1) mod 4096" using seq True by simp
    moreover have "\<forall>g \<in> set fs. n + 1 < fst g \<and> fst g < n + 1 + 2000"
      using Cons.prems(4,5) True by fastforce
    moreover have "sorted_wrt (<) (map fst fs)" using Cons.prems(5) by simp
    ultimately obtain e' ind where
      "in_order_loop ?e (Sequence m) (Sequence m) = Some (e', if d' = [] then Sequence m else n' mod 4096, ind)"
      "moved ?e e'" "holds e' r" "delivered ind = map wrap d'"
      using Cons.IH [OF _ _ _ _ _ w, of ?e "Sequence m" "Sequence m"] by blast
    moreover have "Sequence m = n' mod 4096" if "d' = []"
      using w that seq True by (cases fs) (auto split: if_splits prod.splits)
    ultimately show ?thesis
      using step True hd(1) l m moved_trans [OF mv]
      by (auto simp: in_order_loop.simps [of e] d)
  qed
qed

lemma le_seq_takeWhile:
  assumes "ba_ok e" and "holds e fs" and "s = k mod 4096"
    and "\<forall>f \<in> set fs. -2048 \<le> fst f - k \<and> fst f - k < 2048"
  shows "\<exists>e' ind. ba_indicate_reordering_mpdus_le_seq e s = Some (e', ind)
    \<and> moved e e' \<and> holds e' (dropWhile (\<lambda>g. fst g \<le> k) fs)
    \<and> delivered ind = map wrap (takeWhile (\<lambda>g. fst g \<le> k) fs)"
  using assms
proof (induction fs arbitrary: e)
  case Nil
  then have "chain (rlist e) = []" by (simp add: holds_def)
  with Nil show ?case
    by (simp add: ba_indicate_reordering_mpdus_le_seq.simps [of e] ba_reordering_mpdu_probe_def
        moved_refl holds_def)
next
  case (Cons f fs)
  from Cons.prems(2) obtain m ms where c: "chain (rlist e) = m # ms"
    and m: "frame_of m = wrap f" and ms: "map frame_of ms = map wrap fs"
    by (auto simp: holds_def)
  note hd = dequeue_head [OF Cons.prems(1) c]
  have seq: "Sequence m = fst f mod 4096" using m by (simp add: frame_of_def wrap_def)
  have "-2048 \<le> fst f - k" "fst f - k < 2048" using Cons.prems(4) by simp_all
  then have le: "Sequence m = s \<or> SEQ_SMALLER (Sequence m) s MAXSEQ \<longleftrightarrow> fst f \<le> k"
    by (auto simp: seq Cons.prems(3) SEQ_SMALLER_index mod_index_eq)
  show ?case
  proof (cases "fst f \<le> k")
    case False
    with le hd(1) Cons.prems(1,2) show ?thesis
      by (simp add: ba_indicate_reordering_mpdus_le_seq.simps [of e] moved_refl)
  next
    case True
    from hd(2) obtain l where l: "ba_dequeue (rlist e) = (Some m, l)"
      and mv: "moved e (ba_mpdu_blk_free m (e\<lparr>rlist := l\<rparr>))"
      and cl: "chain (rlist (ba_mpdu_blk_free m (e\<lparr>rlist := l\<rparr>))) = ms" by blast
    let ?e = "ba_mpdu_blk_free m (e\<lparr>rlist := l\<rparr>)"
    have "ba_ok ?e" and "holds ?e fs" using mv cl ms by (simp_all add: moved_def holds_def)
    with Cons.IH [of ?e] Cons.prems(3,4) obtain e' ind where
      "ba_indicate_reordering_mpdus_le_seq ?e s = Some (e', ind)" "moved ?e e'"
      "holds e' (dropWhile (\<lambda>g. fst g \<le> k) fs)"
      "delivered ind = map wrap (takeWhile (\<lambda>g. fst g \<le> k) fs)"
      by auto
    with le True hd(1) l m moved_trans [OF mv] show ?thesis
      by (auto simp: ba_indicate_reordering_mpdus_le_seq.simps [of e])
  qed
qed

section \<open>Buffering a frame\<close>

lemma insert_scan_window:
  assumes "map frame_of ms = map wrap fs" and "sorted_wrt (<) (map fst fs)"
    and "frame_of m = wrap f" and "\<forall>g \<in> set fs. \<bar>fst g - fst f\<bar> < 2048"
  shows "case insert_scan m ms of
      None \<Rightarrow> fst f \<in> fst ` set fs
    | Some c \<Rightarrow> fst f \<notin> fst ` set fs \<and> map frame_of c = map wrap (window_insert f fs)"
  using assms
proof (induction fs arbitrary: ms)
  case Nil
  then show ?case by (simp add: window_insert_def)
next
  case (Cons g fs)
  from Cons.prems(1) obtain p ps where ms: "ms = p # ps" "frame_of p = wrap g"
    "map frame_of ps = map wrap fs" by auto
  have seq: "Sequence p = fst g mod 4096" "Sequence m = fst f mod 4096"
    using ms(2) Cons.prems(3) by (simp_all add: frame_of_def wrap_def)
  have d: "\<bar>fst g - fst f\<bar> < 2048" using Cons.prems(4) by simp
  have less: "SEQ_SMALLER (Sequence p) (Sequence m) MAXSEQ \<longleftrightarrow> fst g < fst f"
    and eq: "Sequence p = Sequence m \<longleftrightarrow> fst g = fst f"
    using d by (simp_all add: seq SEQ_SMALLER_index mod_index_eq)
  have gt: "\<forall>h \<in> set fs. fst g < fst h" using Cons.prems(2) by auto
  show ?case
  proof (cases "fst g < fst f")
    case True
    with Cons.IH [OF ms(3)] Cons.prems less show ?thesis
      by (auto simp: ms window_insert_def split: option.splits)
  next
    case False
    with gt have "fst f \<notin> fst ` set fs" if "fst g \<noteq> fst f" using that by force
    moreover have "takeWhile (\<lambda>h. fst h < fst f) (g # fs) = []"
      "dropWhile (\<lambda>h. fst h < fst f) (g # fs) = g # fs" using False by simp_all
    ultimately show ?thesis
      using False less eq ms Cons.prems(3) by (auto simp: window_insert_def)
  qed
qed

lemma enqueue_window:
  assumes "ba_ok e" and "chain (freelist e) \<noteq> []" and "\<not> fRX_EAP rx" and "holds e fs"
    and "sorted_wrt (<) (map fst fs)" and "\<forall>g \<in> set fs. \<bar>fst g - fst f\<bar> < 2048"
    and "rxSequence rx = fst f mod 4096" and "pRxPacket rx = snd f"
  shows "\<exists>e' ind. ba_enqueue_reordering_packet e rx = Some (e', ind)
    \<and> moved e e' \<and> holds e' (window_insert f fs) \<and> delivered ind = []"
proof -
  let ?m = "zero_mpdu\<lparr>Sequence := rxSequence rx, OpMode := rxOpMode rx,
      bAMSDU := fRX_AMSDU rx, pPacket := pRxPacket rx\<rparr>"
  from assms(1,2) obtain b bs where fl: "chain (freelist e) = b # bs" "qlen (freelist e) = int (length bs) + 1"
    by (cases "chain (freelist e)") (auto simp: ba_ok_def list_ok_def)
  let ?l = "(freelist e)\<lparr>chain := bs, qlen := qlen (freelist e) - 1\<rparr>"
  have alloc: "ba_mpdu_blk_alloc e = (Some zero_mpdu, e\<lparr>freelist := ?l\<rparr>)"
    using fl by (simp add: ba_mpdu_blk_alloc_def ba_dequeue_def)
  have "frame_of ?m = wrap f" using assms(7,8) by (simp add: frame_of_def wrap_def)
  note ins = insert_scan_window [OF assms(4) [unfolded holds_def] assms(5) this assms(6)]
  show ?thesis
  proof (cases "insert_scan ?m (chain (rlist e))")
    case None
    with ins have "window_insert f fs = fs" by (simp add: window_insert_def)
    with None assms(1,3,4) fl show ?thesis
      by (simp add: ba_enqueue_reordering_packet_def alloc ba_reordering_mpdu_insertsorted_def Let_def
          moved_def ba_ok_def list_ok_def blocks_of_def ba_mpdu_blk_free_def ba_enqueue_def holds_def)
  next
    case (Some c)
    have "length c = length (chain (rlist e)) + 1" if "insert_scan x ms = Some c"
      and "ms = chain (rlist e)" for x ms
      using that(1) unfolding that(2) [symmetric]
      by (induction x ms arbitrary: c rule: insert_scan.induct) (auto split: if_splits)
    from this [OF Some refl] Some ins assms(1,3) fl show ?thesis
      by (simp add: ba_enqueue_reordering_packet_def alloc ba_reordering_mpdu_insertsorted_def Let_def
          moved_def ba_ok_def list_ok_def blocks_of_def holds_def)
  qed
qed

section \<open>What the window guarantees\<close>

lemma window_run_props:
  assumes "window_run n fs = (n', d, r)" and "sorted_wrt (<) (map fst fs)" and "\<forall>f \<in> set fs. n < fst f"
  shows "fs = d @ r" and "n' = n + int (length d)" and "map fst d = [n + 1..n']"
    and "\<forall>f \<in> set r. n' + 2 \<le> fst f"
proof -
  have "fs = d @ r \<and> n' = n + int (length d) \<and> map fst d = [n + 1..n'] \<and> (\<forall>f \<in> set r. n' + 2 \<le> fst f)"
    using assms
  proof (induction n fs arbitrary: n' d r rule: window_run.induct)
    case (1 n)
    then show ?case by simp
  next
    case (2 n f fs)
    show ?case
    proof (cases "fst f = n + 1")
      case True
      with "2.prems"(1) obtain d' where w: "window_run (n + 1) fs = (n', d', r)" "d = f # d'"
        by (auto split: prod.splits)
      have "\<forall>g \<in> set fs. n + 1 < fst g" using "2.prems"(2) True by auto
      with "2.IH" [OF True w(1)] "2.prems"(2) w True show ?thesis
        by (auto simp: upto.simps)
    next
      case False
      with "2.prems" show ?thesis by fastforce
    qed
  qed
  then show "fs = d @ r" "n' = n + int (length d)" "map fst d = [n + 1..n']"
    "\<forall>f \<in> set r. n' + 2 \<le> fst f" by blast+
qed

lemma sorted_takeWhile_dropWhile:
  assumes "sorted_wrt (<) (map fst fs)"
  shows "\<forall>g \<in> set (dropWhile (\<lambda>g. fst g \<le> k) fs). k < fst (g :: frame)"
    and "\<forall>g \<in> set (dropWhile (\<lambda>g. fst g < k) fs). k \<le> fst (g :: frame)"
  using assms by (induction fs) auto

lemma window_insert_sorted:
  assumes "sorted_wrt (<) (map fst fs)"
  shows "sorted_wrt (<) (map fst (window_insert f fs))"
    and "set (window_insert f fs) \<subseteq> insert f (set fs)"
proof -
  let ?P = "\<lambda>g. fst g < fst f"
  have fs: "fs = takeWhile ?P fs @ dropWhile ?P fs" by simp
  have s: "sorted_wrt (<) (map fst (takeWhile ?P fs) @ map fst (dropWhile ?P fs))"
    using assms by (metis fs map_append)
  have "\<forall>g \<in> set (dropWhile ?P fs). fst f < fst g" if n: "fst f \<notin> fst ` set fs"
  proof
    fix g assume g: "g \<in> set (dropWhile ?P fs)"
    then have "fst f \<le> fst g" using sorted_takeWhile_dropWhile(2) [OF assms] by blast
    moreover have "fst g \<noteq> fst f" using n set_dropWhileD [OF g] by (metis imageI)
    ultimately show "fst f < fst g" by simp
  qed
  moreover have "\<forall>g \<in> set (takeWhile ?P fs). fst g < fst f" by (auto dest: set_takeWhileD)
  moreover have "sorted_wrt (<) (map fst (takeWhile ?P fs))" "sorted_wrt (<) (map fst (dropWhile ?P fs))"
    using s by (simp_all add: sorted_wrt_append)
  ultimately have "sorted_wrt (<) (map fst (takeWhile ?P fs @ f # dropWhile ?P fs))"
    if "fst f \<notin> fst ` set fs"
    using that unfolding map_append list.map sorted_wrt_append sorted_wrt.simps
    by (fastforce intro: less_trans)
  then show "sorted_wrt (<) (map fst (window_insert f fs))"
    using assms by (simp add: window_insert_def)
  show "set (window_insert f fs) \<subseteq> insert f (set fs)"
    by (auto simp: window_insert_def dest: set_takeWhileD set_dropWhileD)
qed

lemma window_receive_order:
  assumes "window_ok win (n, fs)" and "1 \<le> win" and "window_receive win (n, fs) f = ((n', fs'), d)"
  shows "window_ok win (n', fs')" and "n \<le> n'" and "sorted_wrt (<) (map fst d)"
    and "\<forall>g \<in> set d. n < fst g \<and> fst g \<le> n'" and "set d \<union> set fs' \<subseteq> insert f (set fs)"
proof -
  from assms(1) have srt: "sorted_wrt (<) (map fst fs)"
    and rng: "\<forall>g \<in> set fs. n + 2 \<le> fst g \<and> fst g \<le> n + win"
    by (simp_all add: window_ok_def)
  consider (in_order) "fst f = n + 1" | (old) "fst f \<le> n"
    | (inside) "n + 1 < fst f" "fst f \<le> n + win" | (ahead) "n + 1 < fst f" "n + win < fst f"
    by linarith
  then have "window_ok win (n', fs') \<and> n \<le> n' \<and> sorted_wrt (<) (map fst d)
    \<and> (\<forall>g \<in> set d. n < fst g \<and> fst g \<le> n') \<and> set d \<union> set fs' \<subseteq> insert f (set fs)"
  proof cases
    case in_order
    then obtain e where w: "window_run (n + 1) fs = (n', e, fs')" and d: "d = f # e"
      using assms(3) by (auto simp: window_receive_def split: prod.splits)
    have "\<forall>g \<in> set fs. n + 1 < fst g" using rng by auto
    note run = window_run_props [OF w srt this]
    have "\<forall>g \<in> set e. n + 1 < fst g \<and> fst g \<le> n'"
    proof
      fix g assume "g \<in> set e"
      then have "fst g \<in> set (map fst e)" by simp
      then show "n + 1 < fst g \<and> fst g \<le> n'" unfolding run(3) by simp
    qed
    moreover have "sorted_wrt (<) (map fst e)" "sorted_wrt (<) (map fst fs')"
      using srt unfolding run(1) by (simp_all add: sorted_wrt_append)
    moreover have "\<forall>g \<in> set fs'. fst g \<le> n' + win"
    proof
      fix g assume "g \<in> set fs'"
      then have "fst g \<le> n + win" using rng run(1) by auto
      then show "fst g \<le> n' + win" using run(2) by linarith
    qed
    ultimately show ?thesis
      using in_order run(1,2,4) by (auto simp: d window_ok_def)
  next
    case old
    then show ?thesis using assms by (auto simp: window_receive_def window_ok_def)
  next
    case inside
    then have "n' = n" "fs' = window_insert f fs" "d = []"
      using assms(3) by (auto simp: window_receive_def)
    with inside rng window_insert_sorted [OF srt, of f] show ?thesis
      by (auto simp: window_ok_def)
  next
    case ahead
    let ?s = "fst f - win"
    let ?t = "takeWhile (\<lambda>g. fst g \<le> ?s) fs" and ?u = "dropWhile (\<lambda>g. fst g \<le> ?s) fs"
    obtain e where w: "window_run ?s (window_insert f ?u) = (n', e, fs')" and d: "d = ?t @ e"
      using ahead assms(3) by (auto simp: window_receive_def Let_def split: prod.splits)
    have tu: "fs = ?t @ ?u" by simp
    have su: "sorted_wrt (<) (map fst ?t)" "sorted_wrt (<) (map fst ?u)"
      using srt by (metis tu map_append sorted_wrt_append)+
    have ins: "sorted_wrt (<) (map fst (window_insert f ?u))"
      "set (window_insert f ?u) \<subseteq> insert f (set ?u)" using window_insert_sorted [OF su(2)] by blast+
    have gt: "\<forall>g \<in> set (window_insert f ?u). ?s < fst g"
      using ins(2) sorted_takeWhile_dropWhile(1) [OF srt, of ?s] assms(2) by auto
    note run = window_run_props [OF w ins(1) gt]
    have e: "\<forall>g \<in> set e. ?s < fst g \<and> fst g \<le> n'"
    proof
      fix g assume "g \<in> set e"
      then have "fst g \<in> set (map fst e)" by simp
      then show "?s < fst g \<and> fst g \<le> n'" unfolding run(3) by simp
    qed
    have sub: "set e \<union> set fs' \<subseteq> insert f (set ?u)" using ins(2) run(1) by auto
    have us: "set ?u \<subseteq> set fs" "set ?t \<subseteq> set fs" by (auto dest: set_dropWhileD set_takeWhileD)
    have t: "\<forall>g \<in> set ?t. fst g \<le> ?s" by (auto dest: set_takeWhileD)
    have se: "sorted_wrt (<) (map fst e)" "sorted_wrt (<) (map fst fs')"
      using ins(1) unfolding run(1) by (simp_all add: sorted_wrt_append)
    have "sorted_wrt (<) (map fst d)"
      using su(1) se(1) t e by (fastforce simp: d sorted_wrt_append)
    moreover have "\<forall>g \<in> set fs'. fst g \<le> n' + win" using sub us rng run(2) ahead by fastforce
    ultimately show ?thesis
      using run(2,4) se(2) sub us t e rng ahead
      by (simp add: window_ok_def d) (fastforce)
  qed
  then show "window_ok win (n', fs')" "n \<le> n'" "sorted_wrt (<) (map fst d)"
    "\<forall>g \<in> set d. n < fst g \<and> fst g \<le> n'" "set d \<union> set fs' \<subseteq> insert f (set fs)" by blast+
qed

section \<open>The code refines the window\<close>

definition window_rel :: "ba_rec_entry \<Rightarrow> rwindow \<Rightarrow> bool" where
  "window_rel e w \<longleftrightarrow> ba_ok e \<and> holds e (snd w) \<and> LastIndSeq e = fst w mod 4096
     \<and> window_ok (BAWinSize e) w \<and> 1 \<le> BAWinSize e \<and> BAWinSize e \<le> 255"

text \<open>A call of the timeout routine that does nothing.\<close>

definition timeout_quiet :: "u32 \<Rightarrow> ba_rec_entry \<Rightarrow> u32 \<Rightarrow> bool" where
  "timeout_quiet OS_HZ e Now32 \<longleftrightarrow> qlen (rlist e) \<le> 0
     \<or> (\<not> RTMP_TIME_AFTER Now32 (LastIndSeqAtTimer e + MAX_REORDERING_PACKET_TIMEOUT OS_HZ div 6)
        \<and> \<not> RTMP_TIME_AFTER Now32 (LastIndSeqAtTimer e + REORDERING_PACKET_TIMEOUT OS_HZ))"

lemma index_not_reset [simp]: "n mod 4096 \<noteq> RESET_RCV_SEQ"
  using pos_mod_bound [of 4096 n] by (simp add: RESET_RCV_SEQ_def)

lemma moved_fields:
  "moved e (e'\<lparr>LastIndSeq := LastIndSeq e, LastIndSeqAtTimer := LastIndSeqAtTimer e\<rparr>)
     \<longleftrightarrow> ba_ok e' \<and> blocks_of e' = blocks_of e \<and> BAWinSize e' = BAWinSize e"
  by (auto simp: moved_def ba_ok_def blocks_of_def)

lemma field_updates [simp]:
  "ba_ok (e\<lparr>LastIndSeq := v\<rparr>) = ba_ok e" "ba_ok (e\<lparr>LastIndSeqAtTimer := t\<rparr>) = ba_ok e"
  "ba_ok (e\<lparr>rcvSeq := v\<rparr>) = ba_ok e" "ba_ok (e\<lparr>nDropPacket := c\<rparr>) = ba_ok e"
  "holds (e\<lparr>LastIndSeq := v\<rparr>) fs = holds e fs" "holds (e\<lparr>LastIndSeqAtTimer := t\<rparr>) fs = holds e fs"
  "holds (e\<lparr>rcvSeq := v\<rparr>) fs = holds e fs" "holds (e\<lparr>nDropPacket := c\<rparr>) fs = holds e fs"
  "blocks_of (e\<lparr>LastIndSeq := v\<rparr>) = blocks_of e" "blocks_of (e\<lparr>LastIndSeqAtTimer := t\<rparr>) = blocks_of e"
  "blocks_of (e\<lparr>rcvSeq := v\<rparr>) = blocks_of e" "blocks_of (e\<lparr>nDropPacket := c\<rparr>) = blocks_of e"
  by (simp_all add: ba_ok_def holds_def blocks_of_def)

lemma ampdu_receive_window:
  assumes rel: "window_rel e (n, fs)" and quiet: "timeout_quiet OS_HZ e Now32"
    and noeap: "\<not> fRX_EAP rx" and room: "chain (freelist e) \<noteq> []"
    and rx: "rxSequence rx = fst f mod 4096" "pRxPacket rx = snd f"
    and near: "n - 2048 \<le> fst f" "fst f < n + 2048"
  shows "\<exists>e' ind. ampdu_receive OS_HZ Now32 e rx = Some (e', ind)
    \<and> window_rel e' (fst (window_receive (BAWinSize e) (n, fs) f))
    \<and> delivered ind = map wrap (snd (window_receive (BAWinSize e) (n, fs) f))
    \<and> BAWinSize e' = BAWinSize e \<and> blocks_of e' = blocks_of e \<and> LastIndSeqAtTimer e' = Now32"
proof -
  let ?win = "BAWinSize e"
  from rel have ok: "ba_ok e" and hold: "holds e fs" and last: "LastIndSeq e = n mod 4096"
    and w: "window_ok ?win (n, fs)" and win: "1 \<le> ?win" "?win \<le> 255"
    by (simp_all add: window_rel_def)
  from w have srt: "sorted_wrt (<) (map fst fs)"
    and rng: "\<forall>g \<in> set fs. n + 2 \<le> fst g \<and> fst g \<le> n + ?win"
    by (simp_all add: window_ok_def)
  let ?e = "e\<lparr>rcvSeq := rxSequence rx, LastIndSeqAtTimer := Now32\<rparr>"
  have flush: "ba_flush_reordering_timeout_mpdus OS_HZ (e\<lparr>rcvSeq := rxSequence rx\<rparr>) Now32
      = Some (e\<lparr>rcvSeq := rxSequence rx\<rparr>, [])"
    using quiet by (auto simp: ba_flush_reordering_timeout_mpdus_def timeout_quiet_def)
  have e: "ba_ok ?e" "holds ?e fs" using ok hold by simp_all
  have step: "SEQ_STEPONE (fst f mod 4096) (n mod 4096) MAXSEQ \<longleftrightarrow> fst f = n + 1"
    using near by (intro SEQ_STEPONE_index) linarith
  have same: "fst f mod 4096 = n mod 4096 \<longleftrightarrow> fst f = n"
    using near by (intro mod_index_eq) linarith
  have small: "SEQ_SMALLER (fst f mod 4096) (n mod 4096) MAXSEQ \<longleftrightarrow> fst f < n"
    using near by (intro SEQ_SMALLER_index) linarith+
  have "(n mod 4096 + ?win + 1) AND MAXSEQ = (n + ?win + 1) mod 4096"
    unfolding and_MAXSEQ by (metis add.assoc mod_add_left_eq)
  then have "SEQ_SMALLER (fst f mod 4096) ((n mod 4096 + ?win + 1) AND MAXSEQ) MAXSEQ
      \<longleftrightarrow> SEQ_SMALLER (fst f mod 4096) ((n + ?win + 1) mod 4096) MAXSEQ" by simp
  also have "\<dots> \<longleftrightarrow> fst f \<le> n + ?win" if "n + 1 < fst f"
    using near win that by (subst SEQ_SMALLER_index) linarith+
  finally have inwin: "n + 1 < fst f \<Longrightarrow> SEQ_SMALLER (fst f mod 4096)
      ((n mod 4096 + ?win + 1) AND MAXSEQ) MAXSEQ \<longleftrightarrow> fst f \<le> n + ?win" by simp
  have recv: "ampdu_receive OS_HZ Now32 e rx = ampdu_cases Now32 ?e rx"
    by (simp add: ampdu_receive_def flush last map_option_case split: option.split)
  note start = recv ampdu_cases_def Let_def rx(1)
  obtain n' fs' d where res: "window_receive ?win (n, fs) f = ((n', fs'), d)"
    by (cases "window_receive ?win (n, fs) f") auto
  have wok: "window_ok ?win (n', fs')" by (rule window_receive_order(1) [OF w win(1) res])
  consider (in_order) "fst f = n + 1" | (old) "fst f \<le> n"
    | (inside) "n + 1 < fst f" "fst f \<le> n + ?win" | (ahead) "n + 1 < fst f" "n + ?win < fst f"
    by linarith
  then have "\<exists>e' ind. ampdu_receive OS_HZ Now32 e rx = Some (e', ind) \<and> ba_ok e' \<and> holds e' fs'
      \<and> LastIndSeq e' = n' mod 4096 \<and> delivered ind = map wrap d
      \<and> BAWinSize e' = ?win \<and> blocks_of e' = blocks_of e \<and> LastIndSeqAtTimer e' = Now32"
  proof cases
    case in_order
    then obtain d' where r: "window_run (n + 1) fs = (n', d', fs')" and d: "d = f # d'"
      using res by (auto simp: window_receive_def split: prod.splits)
    let ?e1 = "?e\<lparr>LastIndSeq := fst f mod 4096\<rparr>"
    have "\<forall>g \<in> set fs. n + 1 < fst g \<and> fst g < n + 1 + 2000" using rng win by auto
    from in_order_loop_run [OF _ _ _ this srt r, of ?e1 "fst f mod 4096" RESET_RCV_SEQ] e in_order
    obtain e' ind where lp: "in_order_loop ?e1 (fst f mod 4096) RESET_RCV_SEQ
        = Some (e', if d' = [] then RESET_RCV_SEQ else n' mod 4096, ind)"
      and mv: "moved ?e1 e'" "holds e' fs'" "delivered ind = map wrap d'" by auto
    have "d' = [] \<Longrightarrow> n' = fst f"
      using r in_order by (cases fs) (auto split: if_splits prod.splits)
    with lp mv in_order step show ?thesis
      by (cases "d' = []") (auto simp: start last ba_indicate_reordering_mpdus_in_order_def d moved_def
          wrap_def rx(2) rx(1) [symmetric])
  next
    case old
    then have "n' = n" "fs' = fs" "d = []" using res by (auto simp: window_receive_def)
    with old step same small e show ?thesis by (auto simp: start last)
  next
    case inside
    then have n': "n' = n" "fs' = window_insert f fs" "d = []"
      using res by (auto simp: window_receive_def)
    have "\<forall>g \<in> set fs. \<bar>fst g - fst f\<bar> < 2048" using rng inside win by auto
    from enqueue_window [OF e(1) _ noeap e(2) srt this rx] room
    obtain e' ind where "ba_enqueue_reordering_packet ?e rx = Some (e', ind)"
      "moved ?e e'" "holds e' (window_insert f fs)" "delivered ind = []" by auto
    with inside step same small inwin show ?thesis
      by (auto simp: start last n' moved_def)
  next
    case ahead
    let ?s = "fst f - ?win"
    let ?t = "takeWhile (\<lambda>g. fst g \<le> ?s) fs" and ?u = "dropWhile (\<lambda>g. fst g \<le> ?s) fs"
    obtain d' where r: "window_run ?s (window_insert f ?u) = (n', d', fs')" and d: "d = ?t @ d'"
      using ahead res by (auto simp: window_receive_def Let_def split: prod.splits)
    have ws: "ba_win_start (fst f mod 4096) ?win = ?s mod 4096"
    proof -
      have "(fst f mod 4096 - ?win) mod 4096 = ?s mod 4096" by (rule mod_diff_left_eq)
      then show ?thesis unfolding ba_win_start_def Let_def and_MAXSEQ by (simp add: MAXSEQ_def)
    qed
    have "\<forall>g \<in> set fs. -2048 \<le> fst g - ?s \<and> fst g - ?s < 2048" using rng ahead near win by auto
    from le_seq_takeWhile [OF e refl this] obtain e1 ind1 where
      le: "ba_indicate_reordering_mpdus_le_seq ?e (?s mod 4096) = Some (e1, ind1)"
      and m1: "moved ?e e1" "holds e1 ?u" "delivered ind1 = map wrap ?t" by blast
    let ?e1 = "e1\<lparr>LastIndSeq := ?s mod 4096, LastIndSeqAtTimer := Now32\<rparr>"
    have su: "sorted_wrt (<) (map fst ?u)"
      using srt by (metis takeWhile_dropWhile_id map_append sorted_wrt_append)
    have ur: "\<forall>g \<in> set ?u. ?s < fst g \<and> fst g \<le> n + ?win"
      using sorted_takeWhile_dropWhile(1) [OF srt, of ?s] rng set_dropWhileD by fast
    then have "\<forall>g \<in> set ?u. \<bar>fst g - fst f\<bar> < 2048" using ahead win by auto
    moreover have "chain (freelist e1) \<noteq> []"
    proof -
      have "length (chain (rlist e1)) = length ?u" "length (chain (rlist e)) = length fs"
        using m1(2) hold by (metis holds_def length_map)+
      moreover have "length ?u \<le> length fs" by (rule length_dropWhile_le)
      ultimately show ?thesis using m1(1) room by (auto simp: moved_def blocks_of_def)
    qed
    ultimately obtain e2 ind2 where en: "ba_enqueue_reordering_packet ?e1 rx = Some (e2, ind2)"
      and m2: "moved ?e1 e2" "holds e2 (window_insert f ?u)" "delivered ind2 = []"
      using enqueue_window [of ?e1 rx ?u f] m1 noeap su rx by (auto simp: moved_def)
    have iw: "\<forall>g \<in> set (window_insert f ?u). ?s < fst g \<and> fst g < ?s + 2000"
      using window_insert_sorted(2) [OF su, of f] ur ahead win near by fastforce
    from in_order_loop_run [OF _ _ refl iw window_insert_sorted(1) [OF su] r, of e2 RESET_RCV_SEQ] m2
    obtain e3 ind3 where lp: "in_order_loop e2 (?s mod 4096) RESET_RCV_SEQ
        = Some (e3, if d' = [] then RESET_RCV_SEQ else n' mod 4096, ind3)"
      and m3: "moved e2 e3" "holds e3 fs'" "delivered ind3 = map wrap d'" by (auto simp: moved_def)
    have l2: "LastIndSeq e2 = ?s mod 4096" using m2(1) by (simp add: moved_def)
    have n0: "d' = [] \<Longrightarrow> n' = ?s"
      using r by (cases "window_insert f ?u") (auto split: if_splits prod.splits)
    let ?last = "if d' = [] then RESET_RCV_SEQ else n' mod 4096"
    have "ampdu_receive OS_HZ Now32 e rx = Some (if ?last \<noteq> RESET_RCV_SEQ then e3\<lparr>LastIndSeq := ?last\<rparr> else e3,
        ind1 @ ind2 @ ind3)"
      using ahead step same small inwin le en lp
      by (simp add: start last ws ba_indicate_reordering_mpdus_in_order_def l2)
    with m1 m2 m3 n0 show ?thesis
      by (cases "d' = []") (auto simp: d moved_def)
  qed
  then show ?thesis
    using wok win by (auto simp: res window_rel_def)
qed

end
