(* ===== verification/Ba_Invariant.thy ===== *)
theory Ba_Invariant
  imports Ba_Window
begin

text \<open>
  What holds in every state a block-ack session can reach, whatever frames, requests and
  timeouts arrive in whatever order: the counters of the lists are right, so that no null
  pointer is used, and no block of the pool is in two places. Then the two behaviours that
  leave the contract: the block-ack request that lets a frame be delivered twice, and the EAPOL
  frame that loses a block.
\<close>

section \<open>Events and reachable states\<close>

datatype ba_event =
    Frame u32 rx_blk
  | Block_Ack_Request int
  | Timer u32
  | Flush_Session

text \<open>
  The handler of each event: a frame of the session, a block-ack request that passes the checks
  of \<open>CntlEnqueueForRecv\<close>, the periodic timeout, and the flush that session setup and tear-down
  start with.
\<close>

definition ba_handle ::
  "u32 \<Rightarrow> ba_event \<Rightarrow> ba_rec_entry \<Rightarrow> (ba_rec_entry \<times> indication list) option" where
  "ba_handle OS_HZ ev e =
     (case ev of
        Frame Now32 rx \<Rightarrow> ampdu_receive OS_HZ Now32 e rx
      | Block_Ack_Request StartSeq \<Rightarrow>
          map_option snd (CntlEnqueueForRecv False 1 20 0 StartSeq e)
      | Timer Now32 \<Rightarrow> ba_flush_reordering_timeout_mpdus OS_HZ e Now32
      | Flush_Session \<Rightarrow> Some (ba_refresh_reordering_mpdus e))"

definition ba_start :: "nat \<Rightarrow> int \<Rightarrow> ba_rec_entry" where
  "ba_start num win = \<lparr>BAWinSize = win, LastIndSeq = RESET_RCV_SEQ, LastIndSeqAtTimer = 0,
     nDropPacket = 0, rcvSeq = 0, rlist = \<lparr>chain = [], qlen = 0\<rparr>,
     freelist = ba_reordering_resource_init num\<rparr>"

inductive ba_step :: "u32 \<Rightarrow> ba_rec_entry \<Rightarrow> ba_event \<Rightarrow> ba_rec_entry \<Rightarrow> bool" for OS_HZ where
  handled: "ba_handle OS_HZ ev e = Some (e', ind) \<Longrightarrow> ba_step OS_HZ e ev e'"

inductive ba_reach :: "u32 \<Rightarrow> nat \<Rightarrow> int \<Rightarrow> ba_rec_entry \<Rightarrow> bool" for OS_HZ num win where
  start: "ba_reach OS_HZ num win (ba_start num win)"
| step: "ba_reach OS_HZ num win e \<Longrightarrow> ba_step OS_HZ e ev e' \<Longrightarrow> ba_reach OS_HZ num win e'"

inductive_cases ba_step_handled: "ba_step OS_HZ e ev e'"

section \<open>The lists stay well formed\<close>

lemma in_order_loop_ok:
  "ba_ok e \<Longrightarrow> \<exists>e' L' ind. in_order_loop e s L = Some (e', L', ind) \<and> moved e e'"
proof (induction "chain (rlist e)" arbitrary: e s L)
  case Nil
  then show ?case
    by (simp add: in_order_loop.simps [of e] ba_reordering_mpdu_probe_def moved_refl)
next
  case (Cons m ms)
  note hd = dequeue_head [OF Cons.prems Cons.hyps(2) [symmetric]]
  show ?case
  proof (cases "SEQ_STEPONE (Sequence m) s MAXSEQ")
    case False
    with hd(1) Cons.prems show ?thesis by (simp add: in_order_loop.simps [of e] moved_refl)
  next
    case True
    from hd(2) obtain l where l: "ba_dequeue (rlist e) = (Some m, l)"
      and mv: "moved e (ba_mpdu_blk_free m (e\<lparr>rlist := l\<rparr>))"
      and cl: "chain (rlist (ba_mpdu_blk_free m (e\<lparr>rlist := l\<rparr>))) = ms" by blast
    let ?e = "ba_mpdu_blk_free m (e\<lparr>rlist := l\<rparr>)"
    have "ba_ok ?e" using mv by (simp add: moved_def)
    from Cons.hyps(1) [OF cl [symmetric] this, of "Sequence m" "Sequence m"] obtain e' L' ind where
      "in_order_loop ?e (Sequence m) (Sequence m) = Some (e', L', ind)" "moved ?e e'" by blast
    with True hd(1) l moved_trans [OF mv] show ?thesis by (simp add: in_order_loop.simps [of e])
  qed
qed

lemma le_seq_ok:
  "ba_ok e \<Longrightarrow> \<exists>e' ind. ba_indicate_reordering_mpdus_le_seq e s = Some (e', ind) \<and> moved e e'"
proof (induction "chain (rlist e)" arbitrary: e)
  case Nil
  then show ?case
    by (simp add: ba_indicate_reordering_mpdus_le_seq.simps [of e] ba_reordering_mpdu_probe_def moved_refl)
next
  case (Cons m ms)
  note hd = dequeue_head [OF Cons.prems Cons.hyps(2) [symmetric]]
  show ?case
  proof (cases "Sequence m = s \<or> SEQ_SMALLER (Sequence m) s MAXSEQ")
    case False
    with hd(1) Cons.prems show ?thesis
      by (simp add: ba_indicate_reordering_mpdus_le_seq.simps [of e] moved_refl)
  next
    case True
    from hd(2) obtain l where l: "ba_dequeue (rlist e) = (Some m, l)"
      and mv: "moved e (ba_mpdu_blk_free m (e\<lparr>rlist := l\<rparr>))"
      and cl: "chain (rlist (ba_mpdu_blk_free m (e\<lparr>rlist := l\<rparr>))) = ms" by blast
    let ?e = "ba_mpdu_blk_free m (e\<lparr>rlist := l\<rparr>)"
    have "ba_ok ?e" using mv by (simp add: moved_def)
    from Cons.hyps(1) [OF cl [symmetric] this] obtain e' ind where
      "ba_indicate_reordering_mpdus_le_seq ?e s = Some (e', ind)" "moved ?e e'" by blast
    with True hd(1) l moved_trans [OF mv] show ?thesis
      by (auto simp: ba_indicate_reordering_mpdus_le_seq.simps [of e])
  qed
qed

lemma refresh_loop_ok:
  assumes "ba_ok e"
  shows "\<exists>e' ind. refresh_loop e = (e', ind) \<and> ba_ok e' \<and> blocks_of e' = blocks_of e
    \<and> chain (rlist e') = [] \<and> BAWinSize e' = BAWinSize e
    \<and> ind = map Announce_Reordering_Packet (chain (rlist e))"
  using assms
proof (induction "chain (rlist e)" arbitrary: e)
  case Nil
  then have "ba_dequeue (rlist e) = (None, rlist e)"
    by (auto simp: ba_dequeue_def ba_ok_def list_ok_def split: list.split)
  with Nil show ?case by (simp add: refresh_loop.simps [of e])
next
  case (Cons m ms)
  from dequeue_head(2) [OF Cons.prems Cons.hyps(2) [symmetric]]
  obtain l where l: "ba_dequeue (rlist e) = (Some m, l)"
    and mv: "moved e (ba_mpdu_blk_free m (e\<lparr>rlist := l\<rparr>))"
    and cl: "chain l = ms" by blast
  let ?e = "ba_mpdu_blk_free m (e\<lparr>rlist := l, LastIndSeq := Sequence m\<rparr>)"
  have ok: "ba_ok ?e" "blocks_of ?e = blocks_of e" "chain (rlist ?e) = ms" "BAWinSize ?e = BAWinSize e"
    using mv cl by (simp_all add: moved_def ba_mpdu_blk_free_def ba_ok_def blocks_of_def)
  from Cons.hyps(1) [OF ok(3) [symmetric] ok(1)] obtain e' where
    "refresh_loop ?e = (e', map Announce_Reordering_Packet ms)" "ba_ok e'"
    "blocks_of e' = blocks_of e" "chain (rlist e') = []" "BAWinSize e' = BAWinSize e"
    unfolding ok by blast
  then show ?case by (simp add: refresh_loop.simps [of e] l Cons.hyps(2) [symmetric])
qed

lemma refresh_ok:
  assumes "ba_ok e"
  shows "\<exists>e' ind. ba_refresh_reordering_mpdus e = (e', ind) \<and> ba_ok e' \<and> blocks_of e' = blocks_of e
    \<and> chain (rlist e') = [] \<and> BAWinSize e' = BAWinSize e \<and> LastIndSeq e' = RESET_RCV_SEQ
    \<and> ind = map Announce_Reordering_Packet (chain (rlist e))"
  using refresh_loop_ok [OF assms] by (auto simp: ba_refresh_reordering_mpdus_def)

definition kept :: "ba_rec_entry \<Rightarrow> ba_rec_entry \<Rightarrow> bool" where
  "kept e e' \<longleftrightarrow> ba_ok e' \<and> blocks_of e' = blocks_of e \<and> BAWinSize e' = BAWinSize e"

lemma moved_kept: "moved e e' \<Longrightarrow> kept e e'"
  by (simp add: moved_def kept_def)

lemma kept_updates [simp]:
  "kept e (e'\<lparr>LastIndSeq := v\<rparr>) = kept e e'" "kept e (e'\<lparr>LastIndSeqAtTimer := t\<rparr>) = kept e e'"
  "kept e (e'\<lparr>rcvSeq := v\<rparr>) = kept e e'" "kept e (e'\<lparr>nDropPacket := c\<rparr>) = kept e e'"
  "kept (e\<lparr>LastIndSeq := v\<rparr>) e' = kept e e'" "kept (e\<lparr>LastIndSeqAtTimer := t\<rparr>) e' = kept e e'"
  "kept (e\<lparr>rcvSeq := v\<rparr>) e' = kept e e'"
  by (simp_all add: kept_def)

lemma kept_trans: "kept e e1 \<Longrightarrow> kept e1 e2 \<Longrightarrow> kept e e2"
  by (simp add: kept_def)

lemma timeout_ok:
  assumes "ba_ok e"
  shows "\<exists>e' ind. ba_flush_reordering_timeout_mpdus OS_HZ e Now32 = Some (e', ind) \<and> kept e e'"
proof -
  obtain r ri where r: "ba_refresh_reordering_mpdus e = (r, ri)" "kept e r"
    using refresh_ok [OF assms] by (auto simp: kept_def)
  let ?s = "(LastIndSeq e + 1) AND MAXSEQ"
  obtain e1 i1 where e1: "ba_indicate_reordering_mpdus_le_seq e ?s = Some (e1, i1)" "kept e e1"
    using le_seq_ok [OF assms] moved_kept by blast
  let ?e1 = "e1\<lparr>LastIndSeqAtTimer := Now32, LastIndSeq := ?s\<rparr>"
  have "ba_ok ?e1" using e1(2) by (simp add: kept_def)
  from in_order_loop_ok [OF this, of ?s RESET_RCV_SEQ] obtain e2 L i2 where
    e2: "in_order_loop ?e1 ?s RESET_RCV_SEQ = Some (e2, L, i2)" "kept e1 e2"
    using moved_kept by (metis kept_updates(5,6))
  have "kept e e" using assms by (simp add: kept_def)
  with r e1 e2 kept_trans [OF e1(2) e2(2)] show ?thesis
    by (simp add: ba_flush_reordering_timeout_mpdus_def Let_def ba_indicate_reordering_mpdus_in_order_def)
qed

lemma enqueue_ok:
  assumes "ba_ok e"
  shows "\<exists>e' ind. ba_enqueue_reordering_packet e rx = Some (e', ind) \<and> ba_ok e'
    \<and> BAWinSize e' = BAWinSize e
    \<and> (blocks_of e' = blocks_of e \<or> fRX_EAP rx \<and> Suc (blocks_of e') = blocks_of e)"
proof -
  obtain b e0 where al: "ba_mpdu_blk_alloc e = (b, e0)" by (cases "ba_mpdu_blk_alloc e") auto
  have e0: "ba_ok e0" "rlist e0 = rlist e" "BAWinSize e0 = BAWinSize e"
    "b = None \<Longrightarrow> blocks_of e0 = blocks_of e" "b \<noteq> None \<Longrightarrow> Suc (blocks_of e0) = blocks_of e"
    using assms al by (auto simp: ba_mpdu_blk_alloc_def ba_dequeue_def ba_ok_def list_ok_def blocks_of_def
        split: if_splits list.splits)
  show ?thesis
  proof (cases "b \<noteq> None \<and> \<not> fRX_EAP rx")
    case True
    let ?m = "(the b)\<lparr>Sequence := rxSequence rx, OpMode := rxOpMode rx,
      bAMSDU := fRX_AMSDU rx, pPacket := pRxPacket rx\<rparr>"
    have "length c = Suc (length ms)" if "insert_scan m ms = Some c" for m ms c
      using that by (induction m ms arbitrary: c rule: insert_scan.induct) (auto split: if_splits)
    then show ?thesis
      using True e0 al
      by (cases "insert_scan ?m (chain (rlist e0))")
        (auto simp: ba_enqueue_reordering_packet_def ba_reordering_mpdu_insertsorted_def Let_def
          ba_mpdu_blk_free_def ba_enqueue_def ba_ok_def list_ok_def blocks_of_def)
  next
    case False
    from le_seq_ok [OF e0(1)] obtain e1 ind where
      "ba_indicate_reordering_mpdus_le_seq e0 (rxSequence rx) = Some (e1, ind)" "kept e0 e1"
      using moved_kept by blast
    with False e0 al show ?thesis
      by (cases b) (auto simp: ba_enqueue_reordering_packet_def kept_def)
  qed
qed

lemma ampdu_cases_ok:
  assumes "ba_ok e"
  shows "\<exists>e' ind. ampdu_cases Now32 e rx = Some (e', ind) \<and> ba_ok e' \<and> BAWinSize e' = BAWinSize e
    \<and> (blocks_of e' = blocks_of e \<or> fRX_EAP rx \<and> Suc (blocks_of e') = blocks_of e)"
proof -
  let ?seq = "rxSequence rx"
  obtain e1 L1 i1 where e1: "in_order_loop (e\<lparr>LastIndSeq := ?seq\<rparr>) ?seq RESET_RCV_SEQ = Some (e1, L1, i1)"
    "kept e e1"
    using in_order_loop_ok [of "e\<lparr>LastIndSeq := ?seq\<rparr>" ?seq RESET_RCV_SEQ] assms moved_kept
    by (metis field_updates(1) kept_updates(5))
  obtain e2 i2 where e2: "ba_enqueue_reordering_packet e rx = Some (e2, i2)" "ba_ok e2"
    "BAWinSize e2 = BAWinSize e" "blocks_of e2 = blocks_of e \<or> fRX_EAP rx \<and> Suc (blocks_of e2) = blocks_of e"
    using enqueue_ok [OF assms] by blast
  let ?w = "ba_win_start ?seq (BAWinSize e)"
  obtain e3 i3 where e3: "ba_indicate_reordering_mpdus_le_seq e ?w = Some (e3, i3)" "kept e e3"
    using le_seq_ok [OF assms] moved_kept by blast
  let ?e3 = "e3\<lparr>LastIndSeq := ?w, LastIndSeqAtTimer := Now32\<rparr>"
  have "ba_ok ?e3" using e3(2) by (simp add: kept_def)
  from enqueue_ok [OF this, of rx] e3(2) obtain e4 i4 where
    e4: "ba_enqueue_reordering_packet ?e3 rx = Some (e4, i4)" "ba_ok e4" "BAWinSize e4 = BAWinSize e"
    "blocks_of e4 = blocks_of e \<or> fRX_EAP rx \<and> Suc (blocks_of e4) = blocks_of e"
    by (auto simp: kept_def)
  from in_order_loop_ok [OF e4(2), of "LastIndSeq e4" RESET_RCV_SEQ] obtain e5 L5 i5 where
    e5: "in_order_loop e4 (LastIndSeq e4) RESET_RCV_SEQ = Some (e5, L5, i5)" "kept e4 e5"
    using moved_kept by blast
  show ?thesis
    using assms e1 e2 e3(1) e4 e5
    by (simp add: ampdu_cases_def Let_def ba_indicate_reordering_mpdus_in_order_def kept_def)
qed

lemma ampdu_receive_ok:
  assumes "ba_ok e"
  shows "\<exists>e' ind. ampdu_receive OS_HZ Now32 e rx = Some (e', ind) \<and> ba_ok e' \<and> BAWinSize e' = BAWinSize e
    \<and> (blocks_of e' = blocks_of e \<or> fRX_EAP rx \<and> Suc (blocks_of e') = blocks_of e)"
proof -
  have "ba_ok (e\<lparr>rcvSeq := rxSequence rx\<rparr>)" using assms by simp
  from timeout_ok [OF this] obtain e1 i1 where
    e1: "ba_flush_reordering_timeout_mpdus OS_HZ (e\<lparr>rcvSeq := rxSequence rx\<rparr>) Now32 = Some (e1, i1)"
    "kept e e1" by (metis kept_updates(7))
  then have "ba_ok (e1\<lparr>LastIndSeqAtTimer := Now32\<rparr>)" by (simp add: kept_def)
  from ampdu_cases_ok [OF this, of Now32 rx] e1 show ?thesis
    by (auto simp: ampdu_receive_def Let_def kept_def)
qed

lemma ba_handle_ok:
  assumes "ba_ok e"
  shows "\<exists>e' ind. ba_handle OS_HZ ev e = Some (e', ind) \<and> ba_ok e' \<and> BAWinSize e' = BAWinSize e
    \<and> blocks_of e' \<le> blocks_of e
    \<and> ((\<forall>t rx. ev = Frame t rx \<longrightarrow> \<not> fRX_EAP rx) \<longrightarrow> blocks_of e' = blocks_of e)"
proof (cases ev)
  case (Frame t rx)
  from ampdu_receive_ok [OF assms, of OS_HZ t rx] show ?thesis
    by (auto simp: Frame ba_handle_def)
next
  case (Block_Ack_Request s)
  from le_seq_ok [OF assms, of s] moved_kept show ?thesis
    using assms by (fastforce simp: Block_Ack_Request ba_handle_def CntlEnqueueForRecv_def
        MAX_LEN_OF_MAC_TABLE_def kept_def)
next
  case (Timer t)
  from timeout_ok [OF assms, of OS_HZ t] show ?thesis
    by (auto simp: Timer ba_handle_def kept_def)
next
  case Flush_Session
  from refresh_ok [OF assms] show ?thesis by (auto simp: Flush_Session ba_handle_def)
qed

lemma resource_init_ok:
  "list_ok (ba_reordering_resource_init num)" "length (chain (ba_reordering_resource_init num)) = num"
proof -
  have "list_ok l \<Longrightarrow> list_ok (foldl ba_enqueue l bs)
      \<and> length (chain (foldl ba_enqueue l bs)) = length (chain l) + length bs" for l bs
    by (induction bs arbitrary: l) (simp_all add: ba_enqueue_def list_ok_def)
  from this [of "\<lparr>chain = [], qlen = 0\<rparr>" "replicate num zero_mpdu"]
  show "list_ok (ba_reordering_resource_init num)" "length (chain (ba_reordering_resource_init num)) = num"
    by (simp_all add: ba_reordering_resource_init_def list_ok_def)
qed

lemma ba_start_ok: "ba_ok (ba_start num win)" "blocks_of (ba_start num win) = num"
  using resource_init_ok [of num] by (simp_all add: ba_start_def ba_ok_def blocks_of_def list_ok_def)

lemma ba_reach_ok:
  assumes "ba_reach OS_HZ num win e"
  shows "ba_ok e \<and> blocks_of e \<le> num \<and> BAWinSize e = win"
  using assms
proof induction
  case start
  then show ?case using ba_start_ok [of num win] by (simp add: ba_start_def)
next
  case (step e ev e')
  from step.hyps(2) obtain ind where "ba_handle OS_HZ ev e = Some (e', ind)"
    by (rule ba_step_handled)
  with ba_handle_ok [of e OS_HZ ev] step.IH show ?case by auto
qed

section \<open>A run of received frames\<close>

fun receive_all ::
  "u32 \<Rightarrow> ba_rec_entry \<Rightarrow> (u32 \<times> rx_blk) list \<Rightarrow> (ba_rec_entry \<times> indication list) option" where
  "receive_all OS_HZ e [] = Some (e, [])"
| "receive_all OS_HZ e ((t, rx) # rs) =
     (case ampdu_receive OS_HZ t e rx of
        None \<Rightarrow> None
      | Some (e, ind) \<Rightarrow> map_option (\<lambda>(e, ind'). (e, ind @ ind')) (receive_all OS_HZ e rs))"

text \<open>Each frame arrives before the timeout that counts from the one before.\<close>

fun prompt :: "u32 \<Rightarrow> u32 \<Rightarrow> u32 list \<Rightarrow> bool" where
  "prompt OS_HZ t0 [] = True"
| "prompt OS_HZ t0 (t # ts) \<longleftrightarrow>
     \<not> RTMP_TIME_AFTER t (t0 + MAX_REORDERING_PACKET_TIMEOUT OS_HZ div 6)
     \<and> \<not> RTMP_TIME_AFTER t (t0 + REORDERING_PACKET_TIMEOUT OS_HZ) \<and> prompt OS_HZ t ts"

text \<open>Each index is less than half the number space from the window when it arrives.\<close>

fun arrivals :: "int \<Rightarrow> rwindow \<Rightarrow> frame list \<Rightarrow> bool" where
  "arrivals win w [] = True"
| "arrivals win w (f # fs) \<longleftrightarrow> fst w - 2048 \<le> fst f \<and> fst f < fst w + 2048
     \<and> arrivals win (fst (window_receive win w f)) fs"

definition rx_of :: "rx_blk \<Rightarrow> frame \<Rightarrow> bool" where
  "rx_of rx f \<longleftrightarrow> rxSequence rx = fst f mod 4096 \<and> pRxPacket rx = snd f \<and> \<not> fRX_EAP rx"

text \<open>The pool has room: a window holds fewer frames than its size.\<close>

lemma window_ok_length:
  assumes "window_ok win (n, fs)" and "1 \<le> win"
  shows "int (length fs) < win"
proof -
  have d: "distinct (map fst fs)" and "set (map fst fs) \<subseteq> {n + 2..n + win}"
    using assms by (auto simp: window_ok_def strict_sorted_iff)
  then have "card (set (map fst fs)) \<le> card {n + 2..n + win}" by (intro card_mono) auto
  with d assms(2) show ?thesis by (simp add: distinct_card del: set_map)
qed

lemma receive_all_window:
  assumes "window_rel e w" and "BAWinSize e \<le> int (blocks_of e)"
    and "list_all2 rx_of (map snd rs) fs" and "arrivals (BAWinSize e) w fs"
    and "prompt OS_HZ (LastIndSeqAtTimer e) (map fst rs)"
  shows "\<exists>e' ind w' us. receive_all OS_HZ e rs = Some (e', ind) \<and> window_rel e' w'
    \<and> delivered ind = map wrap us \<and> sorted_wrt (<) (map fst us)
    \<and> (\<forall>u \<in> set us. fst w < fst u \<and> fst u \<le> fst w') \<and> fst w \<le> fst w'
    \<and> set us \<union> set (snd w') \<subseteq> set fs \<union> set (snd w)"
  using assms
proof (induction rs arbitrary: e w fs)
  case Nil
  show ?case
    by (rule exI [of _ e], rule exI [of _ "[]"], rule exI [of _ w], rule exI [of _ "[]"])
      (use Nil.prems(1) in auto)
next
  case (Cons r rs)
  obtain t rx where r: "r = (t, rx)" by (cases r)
  obtain f fs' where fs: "fs = f # fs'" "rx_of rx f" "list_all2 rx_of (map snd rs) fs'"
    using Cons.prems(3) by (cases fs) (auto simp: r)
  obtain n bs where w: "w = (n, bs)" by (cases w)
  let ?win = "BAWinSize e"
  obtain n1 bs1 d where res: "window_receive ?win (n, bs) f = ((n1, bs1), d)"
    by (cases "window_receive ?win (n, bs) f") auto
  have rel: "window_rel e (n, bs)" using Cons.prems(1) w by simp
  then have wok: "window_ok ?win (n, bs)" and win: "1 \<le> ?win" and hold: "holds e bs"
    by (simp_all add: window_rel_def)
  note ord = window_receive_order [OF wok win res]
  have "length (chain (rlist e)) = length bs" using hold by (metis holds_def length_map)
  with window_ok_length [OF wok win] Cons.prems(2) have room: "chain (freelist e) \<noteq> []"
    by (auto simp: blocks_of_def)
  have "timeout_quiet OS_HZ e t" using Cons.prems(5) by (simp add: r timeout_quiet_def)
  from ampdu_receive_window [OF rel this _ room, of rx f] fs(2) Cons.prems(4) w res
  obtain e1 ind1 where e1: "ampdu_receive OS_HZ t e rx = Some (e1, ind1)" "window_rel e1 (n1, bs1)"
    "delivered ind1 = map wrap d" "BAWinSize e1 = ?win" "blocks_of e1 = blocks_of e"
    "LastIndSeqAtTimer e1 = t"
    by (auto simp: fs(1) rx_of_def)
  have "arrivals (BAWinSize e1) (n1, bs1) fs'" "prompt OS_HZ (LastIndSeqAtTimer e1) (map fst rs)"
    "BAWinSize e1 \<le> int (blocks_of e1)"
    using Cons.prems(2,4,5) e1 w res by (simp_all add: fs(1) r)
  from Cons.IH [OF e1(2) this(3) fs(3) this(1,2)] obtain e2 ind2 w2 us where
    e2: "receive_all OS_HZ e1 rs = Some (e2, ind2)" "window_rel e2 w2" "delivered ind2 = map wrap us"
    "sorted_wrt (<) (map fst us)" "\<forall>u \<in> set us. n1 < fst u \<and> fst u \<le> fst w2" "n1 \<le> fst w2"
    "set us \<union> set (snd w2) \<subseteq> set fs' \<union> set bs1" by auto
  have run: "receive_all OS_HZ e (r # rs) = Some (e2, ind1 @ ind2)" using e1(1) e2(1) by (simp add: r)
  have del: "delivered (ind1 @ ind2) = map wrap (d @ us)" using e1(3) e2(3) by simp
  have srt: "sorted_wrt (<) (map fst (d @ us))"
    unfolding map_append sorted_wrt_append
  proof (intro conjI ballI ord(3) e2(4))
    fix x y assume "x \<in> set (map fst d)" "y \<in> set (map fst us)"
    then have "x \<le> n1" "n1 < y" using ord(4) e2(5) by auto
    then show "x < y" by simp
  qed
  have rng: "\<forall>u \<in> set (d @ us). fst w < fst u \<and> fst u \<le> fst w2"
  proof
    fix u assume "u \<in> set (d @ us)"
    then have "n < fst u \<and> fst u \<le> n1 \<or> n1 < fst u \<and> fst u \<le> fst w2"
      using ord(4) e2(5) by auto
    then show "fst w < fst u \<and> fst u \<le> fst w2" using ord(2) e2(6) w by auto
  qed
  have le: "fst w \<le> fst w2" using ord(2) e2(6) w by simp
  have sub: "set (d @ us) \<union> set (snd w2) \<subseteq> set fs \<union> set (snd w)"
    using ord(5) e2(7) by (auto simp: fs(1) w)
  show ?case using run e2(2) del srt rng le sub by blast
qed

section \<open>Timeouts drain the window\<close>

lemma timeout_window:
  assumes rel: "window_rel e (n, fs)" and "fs \<noteq> []"
    and late: "RTMP_TIME_AFTER t (LastIndSeqAtTimer e + REORDERING_PACKET_TIMEOUT OS_HZ)"
  shows "\<exists>e' ind d r. ba_flush_reordering_timeout_mpdus OS_HZ e t = Some (e', ind)
    \<and> LastIndSeqAtTimer e' = t \<and> fs = d @ r \<and> delivered ind = map wrap d
    \<and> ba_ok e' \<and> (r = [] \<and> chain (rlist e') = [] \<or> (\<exists>n'. n < n' \<and> window_rel e' (n', r)))"
proof -
  from rel have ok: "ba_ok e" and hold: "holds e fs" and last: "LastIndSeq e = n mod 4096"
    and w: "window_ok (BAWinSize e) (n, fs)" and win: "1 \<le> BAWinSize e" "BAWinSize e \<le> 255"
    by (simp_all add: window_rel_def)
  from w have srt: "sorted_wrt (<) (map fst fs)"
    and rng: "\<forall>g \<in> set fs. n + 2 \<le> fst g \<and> fst g \<le> n + BAWinSize e"
    by (simp_all add: window_ok_def)
  have "length (chain (rlist e)) = length fs" using hold by (metis holds_def length_map)
  then have q: "qlen (rlist e) = int (length fs)" "0 < length fs"
    using ok \<open>fs \<noteq> []\<close> by (simp_all add: ba_ok_def list_ok_def)
  show ?thesis
  proof (cases "RTMP_TIME_AFTER t (LastIndSeqAtTimer e + MAX_REORDERING_PACKET_TIMEOUT OS_HZ div 6)
      \<and> qlen (rlist e) > 1")
    case True
    from refresh_ok [OF ok] obtain e' where
      e': "ba_refresh_reordering_mpdus e = (e', map Announce_Reordering_Packet (chain (rlist e)))"
      "ba_ok e'" "chain (rlist e') = []" by blast
    have "delivered (map Announce_Reordering_Packet ms) = map frame_of ms" for ms
      by (induction ms) simp_all
    with e' hold True q have "ba_flush_reordering_timeout_mpdus OS_HZ e t
        = Some (e'\<lparr>LastIndSeqAtTimer := t\<rparr>, map Announce_Reordering_Packet (chain (rlist e)))
      \<and> delivered (map Announce_Reordering_Packet (chain (rlist e))) = map wrap fs"
      by (simp add: ba_flush_reordering_timeout_mpdus_def holds_def)
    then show ?thesis
      by (intro exI [of _ "e'\<lparr>LastIndSeqAtTimer := t\<rparr>"]
          exI [of _ "map Announce_Reordering_Packet (chain (rlist e))"] exI [of _ fs]
          exI [of _ "[]"]) (use e'(2,3) in simp)
  next
    case False
    let ?s = "(n + 1) mod 4096"
    have sq: "(LastIndSeq e + 1) AND MAXSEQ = ?s"
      unfolding and_MAXSEQ last by (rule mod_add_left_eq)
    have "takeWhile (\<lambda>g. fst g \<le> n + 1) fs = [] \<and> dropWhile (\<lambda>g. fst g \<le> n + 1) fs = fs"
      using rng by (cases fs) auto
    moreover have "\<forall>g \<in> set fs. -2048 \<le> fst g - (n + 1) \<and> fst g - (n + 1) < 2048" using rng win by auto
    ultimately obtain e1 ind1 where e1: "ba_indicate_reordering_mpdus_le_seq e ?s = Some (e1, ind1)"
      "moved e e1" "holds e1 fs" "delivered ind1 = []"
      using le_seq_takeWhile [OF ok hold refl, of "n + 1"] by fastforce
    let ?e1 = "e1\<lparr>LastIndSeqAtTimer := t, LastIndSeq := ?s\<rparr>"
    obtain n' d r where r: "window_run (n + 1) fs = (n', d, r)" by (cases "window_run (n + 1) fs") auto
    have gt: "\<forall>g \<in> set fs. n + 1 < fst g" using rng by auto
    have "\<forall>g \<in> set fs. n + 1 < fst g \<and> fst g < n + 1 + 2000" using rng win by auto
    from in_order_loop_run [OF _ _ refl this srt r, of ?e1 RESET_RCV_SEQ] e1
    obtain e2 ind2 where e2: "in_order_loop ?e1 ?s RESET_RCV_SEQ
        = Some (e2, if d = [] then RESET_RCV_SEQ else n' mod 4096, ind2)"
      "moved ?e1 e2" "holds e2 r" "delivered ind2 = map wrap d"
      by (auto simp: moved_def)
    note run = window_run_props [OF r srt gt]
    let ?e' = "if d = [] then e2 else e2\<lparr>LastIndSeq := n' mod 4096\<rparr>"
    have fl: "ba_flush_reordering_timeout_mpdus OS_HZ e t = Some (?e', ind1 @ ind2)"
      using False late q e1(1) e2(1)
      by (auto simp: ba_flush_reordering_timeout_mpdus_def sq Let_def
          ba_indicate_reordering_mpdus_in_order_def)
    have "LastIndSeq ?e' = n' mod 4096" using e2(2) run(2) by (auto simp: moved_def)
    moreover have "\<forall>g \<in> set r. fst g \<le> n' + BAWinSize e"
    proof
      fix g assume "g \<in> set r"
      then have "fst g \<le> n + BAWinSize e" using rng run(1) by auto
      then show "fst g \<le> n' + BAWinSize e" using run(2) by linarith
    qed
    moreover have "sorted_wrt (<) (map fst r)"
      using srt unfolding run(1) by (simp add: sorted_wrt_append)
    ultimately have "window_rel ?e' (n', r)"
      using e1(2) e2(2,3) run(4) win by (auto simp: window_rel_def window_ok_def moved_def)
    moreover have "n < n'" using run(2) by simp
    moreover have "LastIndSeqAtTimer ?e' = t" "ba_ok ?e'" using e2(2) by (auto simp: moved_def)
    ultimately show ?thesis
      by (intro exI [of _ ?e'] exI [of _ "ind1 @ ind2"] exI [of _ d] exI [of _ r])
        (use fl run(1) e1(4) e2(4) in auto)
  qed
qed

fun flush_times ::
  "u32 \<Rightarrow> ba_rec_entry \<Rightarrow> u32 list \<Rightarrow> (ba_rec_entry \<times> indication list) option" where
  "flush_times OS_HZ e [] = Some (e, [])"
| "flush_times OS_HZ e (t # ts) =
     (case ba_flush_reordering_timeout_mpdus OS_HZ e t of
        None \<Rightarrow> None
      | Some (e, ind) \<Rightarrow> map_option (\<lambda>(e, ind'). (e, ind @ ind')) (flush_times OS_HZ e ts))"

fun all_late :: "u32 \<Rightarrow> u32 \<Rightarrow> u32 list \<Rightarrow> bool" where
  "all_late OS_HZ t0 [] = True"
| "all_late OS_HZ t0 (t # ts) \<longleftrightarrow>
     RTMP_TIME_AFTER t (t0 + REORDERING_PACKET_TIMEOUT OS_HZ) \<and> all_late OS_HZ t ts"

lemma flush_times_empty:
  "ba_ok e \<Longrightarrow> chain (rlist e) = [] \<Longrightarrow> flush_times OS_HZ e ts = Some (e, [])"
  by (induction ts) (simp_all add: ba_flush_reordering_timeout_mpdus_def ba_ok_def list_ok_def)

lemma flush_times_drain:
  assumes "window_rel e (n, fs)" and "all_late OS_HZ (LastIndSeqAtTimer e) ts"
    and "\<forall>f \<in> set fs. fst f \<le> n + 1 + int (length ts)"
  shows "\<exists>e' ind. flush_times OS_HZ e ts = Some (e', ind) \<and> chain (rlist e') = [] \<and> ba_ok e'
    \<and> delivered ind = map wrap fs"
  using assms
proof (induction ts arbitrary: e n fs)
  case Nil
  then have "fs = []" by (cases fs) (auto simp: window_rel_def window_ok_def)
  with Nil show ?case by (simp add: window_rel_def holds_def)
next
  case (Cons t ts)
  show ?case
  proof (cases "fs = []")
    case True
    with Cons.prems(1) show ?thesis
      by (simp add: flush_times_empty window_rel_def holds_def del: flush_times.simps)
  next
    case False
    have late: "RTMP_TIME_AFTER t (LastIndSeqAtTimer e + REORDERING_PACKET_TIMEOUT OS_HZ)"
      and lts: "all_late OS_HZ t ts" using Cons.prems(2) by simp_all
    from timeout_window [OF Cons.prems(1) False late] obtain e1 ind1 d r where
      e1: "ba_flush_reordering_timeout_mpdus OS_HZ e t = Some (e1, ind1)" "LastIndSeqAtTimer e1 = t"
      "fs = d @ r" "delivered ind1 = map wrap d" "ba_ok e1"
      "r = [] \<and> chain (rlist e1) = [] \<or> (\<exists>n'. n < n' \<and> window_rel e1 (n', r))" by blast
    from e1(6) show ?thesis
    proof
      assume "r = [] \<and> chain (rlist e1) = []"
      then show ?thesis using e1 by (simp add: flush_times_empty)
    next
      assume "\<exists>n'. n < n' \<and> window_rel e1 (n', r)"
      then obtain n' where n': "n < n'" "window_rel e1 (n', r)" by blast
      have "\<forall>f \<in> set r. fst f \<le> n' + 1 + int (length ts)" 
      proof
        fix f assume "f \<in> set r"
        then have "fst f \<le> n + 1 + int (length (t # ts))" using Cons.prems(3) e1(3) by auto
        then show "fst f \<le> n' + 1 + int (length ts)" using n'(1) by simp
      qed
      from Cons.IH [OF n'(2) _ this] lts e1 show ?thesis by auto
    qed
  qed
qed

section \<open>A block-ack request and an EAPOL frame\<close>

lemma block_ack_request_window:
  assumes rel: "window_rel e (n, fs)" and f: "f \<in> set fs"
  shows "\<exists>e' ind. CntlEnqueueForRecv False 1 20 0 (fst f mod 4096) e = Some (True, e', ind)
    \<and> delivered ind = map wrap (takeWhile (\<lambda>g. fst g \<le> fst f) fs)
    \<and> window_rel e' (fst f - 1, dropWhile (\<lambda>g. fst g \<le> fst f) fs)
    \<and> LastIndSeqAtTimer e' = LastIndSeqAtTimer e \<and> blocks_of e' = blocks_of e"
proof -
  from rel have ok: "ba_ok e" and hold: "holds e fs" and last: "LastIndSeq e = n mod 4096"
    and w: "window_ok (BAWinSize e) (n, fs)" and win: "1 \<le> BAWinSize e" "BAWinSize e \<le> 255"
    by (simp_all add: window_rel_def)
  from w have srt: "sorted_wrt (<) (map fst fs)"
    and rng: "\<forall>g \<in> set fs. n + 2 \<le> fst g \<and> fst g \<le> n + BAWinSize e"
    by (simp_all add: window_ok_def)
  let ?u = "dropWhile (\<lambda>g. fst g \<le> fst f) fs"
  have fr: "n + 2 \<le> fst f" "fst f \<le> n + BAWinSize e" using rng f by auto
  have sm: "SEQ_SMALLER (n mod 4096) (fst f mod 4096) MAXSEQ"
    using fr win by (subst SEQ_SMALLER_index) linarith+
  have "\<forall>g \<in> set fs. -2048 \<le> fst g - fst f \<and> fst g - fst f < 2048" using rng fr win by auto
  from le_seq_takeWhile [OF ok hold refl this] obtain e1 ind where
    e1: "ba_indicate_reordering_mpdus_le_seq e (fst f mod 4096) = Some (e1, ind)" "moved e e1"
    "holds e1 ?u" "delivered ind = map wrap (takeWhile (\<lambda>g. fst g \<le> fst f) fs)" by blast
  have nx: "(if fst f mod 4096 = 0 then MAXSEQ else fst f mod 4096 - 1) = (fst f - 1) mod 4096"
  proof -
    have "(fst f - 1) mod 4096 = (fst f mod 4096 - 1) mod 4096" by (rule mod_diff_left_eq [symmetric])
    moreover have "0 \<le> fst f mod 4096" "fst f mod 4096 < 4096" by simp_all
    ultimately show ?thesis by (auto simp: MAXSEQ_def mod_pos_pos_trivial)
  qed
  have "\<forall>g \<in> set ?u. fst f - 1 + 2 \<le> fst g \<and> fst g \<le> fst f - 1 + BAWinSize e"
  proof
    fix g assume g: "g \<in> set ?u"
    then have "fst f < fst g" using sorted_takeWhile_dropWhile(1) [OF srt] by blast
    moreover have "fst g \<le> n + BAWinSize e" using rng set_dropWhileD [OF g] by blast
    ultimately show "fst f - 1 + 2 \<le> fst g \<and> fst g \<le> fst f - 1 + BAWinSize e" using fr by linarith
  qed
  moreover have "sorted_wrt (<) (map fst ?u)"
    using srt by (metis takeWhile_dropWhile_id map_append sorted_wrt_append)
  ultimately have "window_rel (e1\<lparr>LastIndSeq := (fst f - 1) mod 4096\<rparr>) (fst f - 1, ?u)"
    using e1(2,3) win by (simp add: window_rel_def window_ok_def moved_def)
  with e1 sm show ?thesis
    by (auto simp: CntlEnqueueForRecv_def MAX_LEN_OF_MAC_TABLE_def last nx [simplified] moved_def)
qed

lemma eapol_window:
  assumes rel: "window_rel e (n, fs)" and quiet: "timeout_quiet OS_HZ e Now32"
    and eap: "fRX_EAP rx" and room: "chain (freelist e) \<noteq> []" and rx: "rxSequence rx = y mod 4096"
    and y: "n + 1 < y" "y \<le> n + BAWinSize e"
  shows "\<exists>e' ind. ampdu_receive OS_HZ Now32 e rx = Some (e', ind)
    \<and> Suc (blocks_of e') = blocks_of e \<and> LastIndSeq e' = y mod 4096
    \<and> delivered ind = map wrap (takeWhile (\<lambda>g. fst g \<le> y) fs) @ [(rxSequence rx, pRxPacket rx)]"
proof -
  from rel have ok: "ba_ok e" and hold: "holds e fs" and last: "LastIndSeq e = n mod 4096"
    and w: "window_ok (BAWinSize e) (n, fs)" and win: "1 \<le> BAWinSize e" "BAWinSize e \<le> 255"
    by (simp_all add: window_rel_def)
  from w have rng: "\<forall>g \<in> set fs. n + 2 \<le> fst g \<and> fst g \<le> n + BAWinSize e"
    by (simp add: window_ok_def)
  let ?e = "e\<lparr>rcvSeq := rxSequence rx, LastIndSeqAtTimer := Now32\<rparr>"
  have flush: "ba_flush_reordering_timeout_mpdus OS_HZ (e\<lparr>rcvSeq := rxSequence rx\<rparr>) Now32
      = Some (e\<lparr>rcvSeq := rxSequence rx\<rparr>, [])"
    using quiet by (auto simp: ba_flush_reordering_timeout_mpdus_def timeout_quiet_def)
  have recv: "ampdu_receive OS_HZ Now32 e rx = ampdu_cases Now32 ?e rx"
    by (simp add: ampdu_receive_def flush last map_option_case split: option.split)
  have 1: "\<not> SEQ_STEPONE (y mod 4096) (n mod 4096) MAXSEQ"
    using y win by (subst SEQ_STEPONE_index) linarith+
  have 2: "y mod 4096 \<noteq> n mod 4096" using y win by (subst mod_index_eq) linarith+
  have 3: "\<not> SEQ_SMALLER (y mod 4096) (n mod 4096) MAXSEQ"
    using y win by (subst SEQ_SMALLER_index) linarith+
  have "(n mod 4096 + BAWinSize e + 1) AND MAXSEQ = (n + BAWinSize e + 1) mod 4096"
    unfolding and_MAXSEQ by (metis add.assoc mod_add_left_eq)
  moreover have "SEQ_SMALLER (y mod 4096) ((n + BAWinSize e + 1) mod 4096) MAXSEQ"
    using y win by (subst SEQ_SMALLER_index) linarith+
  ultimately have 4: "SEQ_SMALLER (y mod 4096) ((n mod 4096 + BAWinSize e + 1) AND MAXSEQ) MAXSEQ"
    by simp
  obtain b bs where fl: "chain (freelist e) = b # bs" "qlen (freelist e) = int (length bs) + 1"
    using ok room by (cases "chain (freelist e)") (auto simp: ba_ok_def list_ok_def)
  let ?pool = "?e\<lparr>freelist := (freelist e)\<lparr>chain := bs, qlen := qlen (freelist e) - 1\<rparr>\<rparr>"
  have "ba_dequeue (freelist e) = (Some b, (freelist e)\<lparr>chain := bs, qlen := qlen (freelist e) - 1\<rparr>)"
    using fl by (simp add: ba_dequeue_def)
  then have alloc: "ba_mpdu_blk_alloc ?e = (Some zero_mpdu, ?pool)"
    by (simp add: ba_mpdu_blk_alloc_def)
  have e0: "ba_ok ?pool" "holds ?pool fs" "Suc (blocks_of ?pool) = blocks_of e"
    using ok hold fl by (simp_all add: ba_ok_def list_ok_def holds_def blocks_of_def)
  have "\<forall>g \<in> set fs. -2048 \<le> fst g - y \<and> fst g - y < 2048" using rng y win by auto
  from le_seq_takeWhile [OF e0(1,2) refl this] obtain e1 ind where
    "ba_indicate_reordering_mpdus_le_seq ?pool (y mod 4096) = Some (e1, ind)" "moved ?pool e1"
    "delivered ind = map wrap (takeWhile (\<lambda>g. fst g \<le> y) fs)" by blast
  with e0(3) 1 2 3 4 show ?thesis
    by (simp add: recv ampdu_cases_def last rx Let_def ba_enqueue_reordering_packet_def eap
        alloc [unfolded rx] moved_def)
qed

end
