(* ===== verification/Ba_Properties.thy ===== *)
theory Ba_Properties
  imports Ba_Invariant
begin

text \<open>
  The properties of the receive reordering, each a few steps over \<open>Ba_Window\<close> and
  \<open>Ba_Invariant\<close>, and a session with two buffered frames on which the witnesses run.
\<close>

section \<open>A concrete session\<close>

text \<open>
  The last frame delivered is number 4095; the frames 4097 and 4098, which carry the numbers 1
  and 2, are buffered, so that the number space has wrapped. The pool has 16 blocks.
\<close>

definition sample_mpdu :: "int \<Rightarrow> nat \<Rightarrow> reordering_mpdu" where
  "sample_mpdu s p = \<lparr>pPacket = p, Sequence = s, bAMSDU = False, OpMode = 0\<rparr>"

definition sample_entry :: ba_rec_entry where
  "sample_entry = \<lparr>BAWinSize = 8, LastIndSeq = 4095, LastIndSeqAtTimer = 0, nDropPacket = 0,
     rcvSeq = 0, rlist = \<lparr>chain = [sample_mpdu 1 71, sample_mpdu 2 72], qlen = 2\<rparr>,
     freelist = \<lparr>chain = replicate 14 zero_mpdu, qlen = 14\<rparr>\<rparr>"

definition sample_rx :: "int \<Rightarrow> nat \<Rightarrow> bool \<Rightarrow> rx_blk" where
  "sample_rx s p eap = \<lparr>pRxPacket = p, rxSequence = s, fRX_AMSDU = False, fRX_EAP = eap,
     DataSize = 100, rxOpMode = 0\<rparr>"

lemma sample_rel: "window_rel sample_entry (4095, [(4097, 71), (4098, 72)])"
  by (simp add: window_rel_def ba_ok_def list_ok_def holds_def window_ok_def sample_entry_def
      sample_mpdu_def frame_of_def wrap_def)

lemma sample_facts:
  "blocks_of sample_entry = 16" "BAWinSize sample_entry = 8" "LastIndSeqAtTimer sample_entry = 0"
  "chain (freelist sample_entry) \<noteq> []"
  by (simp_all add: sample_entry_def blocks_of_def)

lemma sample_time:
  "\<not> RTMP_TIME_AFTER 5 (0 + MAX_REORDERING_PACKET_TIMEOUT 1000 div 6)"
  "\<not> RTMP_TIME_AFTER 5 (0 + REORDERING_PACKET_TIMEOUT 1000)"
  "\<not> RTMP_TIME_AFTER 9 (5 + MAX_REORDERING_PACKET_TIMEOUT 1000 div 6)"
  "\<not> RTMP_TIME_AFTER 9 (5 + REORDERING_PACKET_TIMEOUT 1000)"
  by (simp_all add: RTMP_TIME_AFTER_def MAX_REORDERING_PACKET_TIMEOUT_def REORDERING_PACKET_TIMEOUT_def)

lemma sample_quiet: "timeout_quiet 1000 sample_entry 5"
  using sample_time(1,2) by (simp add: timeout_quiet_def sample_facts)

section \<open>Properties\<close>

text \<open>C1: The receive path refines a receive window on unbounded sequence numbers: for a frame
  whose index is less than half the number space from the window, with no timeout due, a free
  block and no EAPOL flag, \<open>Indicate_AMPDU_Packet\<close> passes up exactly the packets the window
  delivers, in its order, and leaves the window's next state, although the code compares 12-bit
  numbers that wrap.\<close>

theorem Indicate_AMPDU_refines_window:
  assumes "window_rel e (n, fs)" and "timeout_quiet OS_HZ e Now32"
    and "\<not> fRX_EAP rx" and "chain (freelist e) \<noteq> []"
    and "rxSequence rx = fst f mod 4096" and "pRxPacket rx = snd f"
    and "n - 2048 \<le> fst f" and "fst f < n + 2048"
    and "DataSize rx \<le> 1520" and "Wcid < MAX_LEN_OF_MAC_TABLE"
  shows "\<exists>e' ind. Indicate_AMPDU_Packet OS_HZ Now32 Wcid (Some e) rx = Some (Some e', ind)
    \<and> window_rel e' (fst (window_receive (BAWinSize e) (n, fs) f))
    \<and> delivered ind = map wrap (snd (window_receive (BAWinSize e) (n, fs) f))"
  using ampdu_receive_window [OF assms(1-8)] assms(9,10)
  by (auto simp: Indicate_AMPDU_Packet_def)

theorem Indicate_AMPDU_refines_window_witness:
  "\<exists>e' ind. Indicate_AMPDU_Packet 1000 5 3 (Some sample_entry) (sample_rx 0 70 False) = Some (Some e', ind)
    \<and> window_rel e' (4098, []) \<and> delivered ind = [(0, 70), (1, 71), (2, 72)]"
proof -
  have "window_receive 8 (4095, [(4097, 71), (4098, 72)]) (4096, 70)
      = ((4098, []), [(4096, 70), (4097, 71), (4098, 72)])"
    by (simp add: window_receive_def)
  then show ?thesis
    using Indicate_AMPDU_refines_window [OF sample_rel sample_quiet, of "sample_rx 0 70 False" "(4096, 70)" 3]
    by (simp add: sample_facts sample_rx_def wrap_def MAX_LEN_OF_MAC_TABLE_def)
qed

text \<open>C5: In order and without duplicates. Whatever frames a session receives, in whatever order
  and however often each, as long as they arrive near the window and before a timeout, the
  packets passed up have strictly increasing indices beyond the window's start; each is one
  that was received or buffered; and the session ends in a state of the window.\<close>

theorem reordering_in_order:
  assumes "window_rel e w" and "BAWinSize e \<le> int (blocks_of e)"
    and "list_all2 rx_of (map snd rs) fs" and "arrivals (BAWinSize e) w fs"
    and "prompt OS_HZ (LastIndSeqAtTimer e) (map fst rs)"
  shows "\<exists>e' ind w' us. receive_all OS_HZ e rs = Some (e', ind) \<and> window_rel e' w'
    \<and> delivered ind = map wrap us \<and> sorted_wrt (<) (map fst us) \<and> (\<forall>u \<in> set us. fst w < fst u)
    \<and> set us \<subseteq> set fs \<union> set (snd w)"
proof -
  from receive_all_window [OF assms] obtain e' ind w' us where
    "receive_all OS_HZ e rs = Some (e', ind)" "window_rel e' w'" "delivered ind = map wrap us"
    "sorted_wrt (<) (map fst us)" "\<forall>u \<in> set us. fst w < fst u \<and> fst u \<le> fst w'"
    "set us \<union> set (snd w') \<subseteq> set fs \<union> set (snd w)" by blast
  then show ?thesis
    by (intro exI [of _ e'] exI [of _ ind] exI [of _ w'] exI [of _ us]) simp
qed

theorem reordering_in_order_witness:
  "\<exists>e' ind w' us. receive_all 1000 sample_entry [(5, sample_rx 2 72 False), (9, sample_rx 0 70 False)]
      = Some (e', ind) \<and> window_rel e' w' \<and> delivered ind = map wrap us \<and> sorted_wrt (<) (map fst us)
    \<and> (\<forall>u \<in> set us. fst (4095 :: int, [(4097 :: int, 71 :: nat), (4098, 72)]) < fst u)
    \<and> set us \<subseteq> set [(4098, 72), (4096, 70)] \<union> set (snd (4095 :: int, [(4097, 71), (4098, 72)]))"
proof (rule reordering_in_order [OF sample_rel])
  show "BAWinSize sample_entry \<le> int (blocks_of sample_entry)" by (simp add: sample_facts)
  show "list_all2 rx_of (map snd [(5, sample_rx 2 72 False), (9, sample_rx 0 70 False)])
      [(4098, 72), (4096, 70)]"
    by (simp add: rx_of_def sample_rx_def)
  show "arrivals (BAWinSize sample_entry) (4095, [(4097, 71), (4098, 72)]) [(4098, 72), (4096, 70)]"
    by (simp add: sample_facts window_receive_def window_insert_def)
  show "prompt 1000 (LastIndSeqAtTimer sample_entry)
      (map fst [(5, sample_rx 2 72 False), (9, sample_rx 0 70 False)])"
    using sample_time by (simp add: sample_facts)
qed

text \<open>C23: In every state that frames, block-ack requests, timeouts and flushes can lead to, in any
  order and with any contents, the length counters of the reordering list and of the free list
  are the numbers of linked elements and the two lists together hold no more blocks than the
  pool was made with. So every handler returns without a null pointer, and only an EAPOL frame
  can lose a block.\<close>

theorem ba_session_invariant:
  assumes "ba_reach OS_HZ num win e"
  shows "qlen (rlist e) = int (length (chain (rlist e)))
    \<and> qlen (freelist e) = int (length (chain (freelist e)))
    \<and> length (chain (rlist e)) + length (chain (freelist e)) \<le> num
    \<and> (\<forall>ev. \<exists>e' ind. ba_handle OS_HZ ev e = Some (e', ind)
        \<and> ((\<forall>t rx. ev = Frame t rx \<longrightarrow> \<not> fRX_EAP rx) \<longrightarrow> blocks_of e' = blocks_of e))"
proof -
  from ba_reach_ok [OF assms] have ok: "ba_ok e" "blocks_of e \<le> num" by simp_all
  have "\<exists>e' ind. ba_handle OS_HZ ev e = Some (e', ind)
      \<and> ((\<forall>t rx. ev = Frame t rx \<longrightarrow> \<not> fRX_EAP rx) \<longrightarrow> blocks_of e' = blocks_of e)" for ev
    using ba_handle_ok [OF ok(1), of OS_HZ ev] by blast
  with ok show ?thesis by (simp add: ba_ok_def list_ok_def blocks_of_def)
qed

theorem ba_session_invariant_witness:
  "qlen (freelist (ba_start 512 64)) = int (length (chain (freelist (ba_start 512 64))))
    \<and> length (chain (rlist (ba_start 512 64))) + length (chain (freelist (ba_start 512 64))) \<le> 512"
  using ba_session_invariant [OF ba_reach.start, of 512 64 1000] by simp

text \<open>C24: No frame waits for ever. When the timeout routine is called at least once per window
  size, each call later than the timeout after the one before, all buffered frames have been
  passed up, each once and in order, and the list is empty: a lost frame delays the ones behind
  it by a bounded number of timeouts.\<close>

theorem timeouts_drain_reordering:
  assumes "window_rel e (n, fs)" and "all_late OS_HZ (LastIndSeqAtTimer e) ts"
    and "BAWinSize e \<le> 1 + int (length ts)"
  shows "\<exists>e' ind. flush_times OS_HZ e ts = Some (e', ind) \<and> chain (rlist e') = []
    \<and> delivered ind = map wrap fs"
proof -
  have "\<forall>f \<in> set fs. fst f \<le> n + 1 + int (length ts)"
    using assms(1,3) by (auto simp: window_rel_def window_ok_def)
  from flush_times_drain [OF assms(1,2) this] show ?thesis by blast
qed

theorem timeouts_drain_reordering_witness:
  "\<exists>e' ind. flush_times 1000 sample_entry [200, 400, 600, 800, 1000, 1200, 1400] = Some (e', ind)
    \<and> chain (rlist e') = [] \<and> delivered ind = [(1, 71), (2, 72)]"
proof -
  have "all_late 1000 (LastIndSeqAtTimer sample_entry) [200, 400, 600, 800, 1000, 1200, 1400]"
    by (simp add: sample_facts RTMP_TIME_AFTER_def REORDERING_PACKET_TIMEOUT_def)
  from timeouts_drain_reordering [OF sample_rel this] show ?thesis
    by (simp add: sample_facts wrap_def)
qed

text \<open>C34: After a block-ack request for a frame that is buffered, the code has passed that frame up
  and yet expects it next: the window is left one behind. A retransmission of the frame is
  passed up a second time, and until then the frames after it are held back.\<close>

theorem block_ack_request_delivers_twice:
  assumes "window_rel e (n, fs)" and "f \<in> set fs"
    and "rx_of rx f" and "timeout_quiet OS_HZ e Now32" and "BAWinSize e \<le> int (blocks_of e)"
  shows "\<exists>e1 ind1 e2 ind2. CntlEnqueueForRecv False 1 20 0 (fst f mod 4096) e = Some (True, e1, ind1)
    \<and> wrap f \<in> set (delivered ind1)
    \<and> window_rel e1 (fst f - 1, dropWhile (\<lambda>g. fst g \<le> fst f) fs)
    \<and> ampdu_receive OS_HZ Now32 e1 rx = Some (e2, ind2) \<and> wrap f \<in> set (delivered ind2)"
proof -
  let ?u = "dropWhile (\<lambda>g. fst g \<le> fst f) fs"
  from block_ack_request_window [OF assms(1,2)] obtain e1 ind1 where
    e1: "CntlEnqueueForRecv False 1 20 0 (fst f mod 4096) e = Some (True, e1, ind1)"
    "delivered ind1 = map wrap (takeWhile (\<lambda>g. fst g \<le> fst f) fs)" "window_rel e1 (fst f - 1, ?u)"
    "LastIndSeqAtTimer e1 = LastIndSeqAtTimer e" "blocks_of e1 = blocks_of e" by blast
  from assms(1) have ok: "window_ok (BAWinSize e) (n, fs)" "holds e fs" "ba_ok e"
    by (simp_all add: window_rel_def)
  have "f \<in> set (takeWhile (\<lambda>g. fst g \<le> fst f) fs)"
  proof -
    have "f \<notin> set ?u" using sorted_takeWhile_dropWhile(1) [of fs "fst f"] ok(1)
      by (auto simp: window_ok_def)
    then show ?thesis using assms(2) by (metis Un_iff set_append takeWhile_dropWhile_id)
  qed
  then have d1: "wrap f \<in> set (delivered ind1)" using e1(2) by simp
  have len: "length (chain (rlist e1)) = length ?u" "length (chain (rlist e)) = length fs"
    using e1(3) ok(2) by (metis window_rel_def holds_def length_map snd_conv)+
  have sub: "length ?u \<le> length fs" by (rule length_dropWhile_le)
  have "1 \<le> BAWinSize e" using assms(1) by (simp add: window_rel_def)
  from window_ok_length [OF ok(1) this] have "length fs < blocks_of e" using assms(5) by linarith
  then have room: "chain (freelist e1) \<noteq> []"
    using e1(5) len sub by (auto simp: blocks_of_def)
  have "qlen (rlist e1) \<le> 0 \<or> 0 < qlen (rlist e)"
    using len sub ok(3) e1(3) by (auto simp: window_rel_def ba_ok_def list_ok_def)
  then have quiet: "timeout_quiet OS_HZ e1 Now32"
    using assms(4) e1(4) by (auto simp: timeout_quiet_def)
  from ampdu_receive_window [OF e1(3) quiet _ room, of rx f] assms(3) obtain e2 ind2 where
    "ampdu_receive OS_HZ Now32 e1 rx = Some (e2, ind2)"
    "delivered ind2 = map wrap (snd (window_receive (BAWinSize e1) (fst f - 1, ?u) f))"
    by (auto simp: rx_of_def)
  moreover have "f \<in> set (snd (window_receive (BAWinSize e1) (fst f - 1, ?u) f))"
    by (simp add: window_receive_def split: prod.split)
  ultimately show ?thesis using e1(1,3) d1 by auto
qed

theorem block_ack_request_delivers_twice_witness:
  "\<exists>e1 ind1 e2 ind2. CntlEnqueueForRecv False 1 20 0 (fst (4097 :: int, 71 :: nat) mod 4096) sample_entry
      = Some (True, e1, ind1)
    \<and> wrap (4097, 71) \<in> set (delivered ind1)
    \<and> window_rel e1 (fst (4097 :: int, 71 :: nat) - 1,
        dropWhile (\<lambda>g. fst g \<le> fst (4097 :: int, 71 :: nat)) [(4097, 71), (4098, 72)])
    \<and> ampdu_receive 1000 5 e1 (sample_rx 1 71 False) = Some (e2, ind2)
    \<and> wrap (4097, 71) \<in> set (delivered ind2)"
  by (rule block_ack_request_delivers_twice [OF sample_rel _ _ sample_quiet])
    (simp_all add: rx_of_def sample_rx_def sample_facts)

text \<open>C35: An EAPOL frame that arrives ahead of sequence inside the window takes a block from the
  pool and gives none back: the pool is one block smaller for good. The frame itself is passed
  up at once, after the buffered frames up to it and at the price of those missing before it.\<close>

theorem eapol_frame_loses_block:
  assumes "window_rel e (n, fs)" and "timeout_quiet OS_HZ e Now32" and "fRX_EAP rx"
    and "chain (freelist e) \<noteq> []" and "rxSequence rx = y mod 4096"
    and "n + 1 < y" and "y \<le> n + BAWinSize e"
  shows "\<exists>e' ind. ampdu_receive OS_HZ Now32 e rx = Some (e', ind)
    \<and> Suc (blocks_of e') = blocks_of e \<and> LastIndSeq e' = y mod 4096
    \<and> delivered ind = map wrap (takeWhile (\<lambda>g. fst g \<le> y) fs) @ [(rxSequence rx, pRxPacket rx)]"
  by (rule eapol_window [OF assms])

theorem eapol_frame_loses_block_witness:
  "\<exists>e' ind. ampdu_receive 1000 5 sample_entry (sample_rx 3 73 True) = Some (e', ind)
    \<and> Suc (blocks_of e') = 16 \<and> LastIndSeq e' = 3 \<and> delivered ind = [(1, 71), (2, 72), (3, 73)]"
  using eapol_frame_loses_block [OF sample_rel sample_quiet, of "sample_rx 3 73 True" 4099]
  by (simp add: sample_facts sample_rx_def wrap_def)

end
