(* ===== verification/Rtmp_Timer.thy ===== *)
theory Rtmp_Timer
  imports Prelude
begin

text \<open>
  The timers of \<open>rt5572/common/rtmp_init.c\<close>, which the block-ack sessions and the key handshakes
  use. The timer of the operating system is a flag that says whether it runs.
\<close>

text \<open>
  \<open>RALINK_TIMER_STRUCT\<close>; \<open>pending\<close> is the state of the timer of the operating system in it, and
  \<open>tState\<close> its field \<open>State\<close>, which is set once the timer is cancelled.
\<close>

record ralink_timer =
  Valid :: bool
  tState :: bool
  PeriodicType :: bool
  Repeat :: bool
  TimerValue :: u32
  pending :: bool

definition RTMPInitTimer :: "bool \<Rightarrow> ralink_timer \<Rightarrow> ralink_timer" where
  "RTMPInitTimer rep t = t\<lparr>Valid := True, PeriodicType := rep, tState := False, pending := False\<rparr>"

definition RTMPSetTimer :: "bool \<Rightarrow> u32 \<Rightarrow> ralink_timer \<Rightarrow> ralink_timer" where
  "RTMPSetTimer halted Value t =
     (if Valid t then
        if halted then t
        else t\<lparr>TimerValue := Value, tState := False, Repeat := PeriodicType t, pending := True\<rparr>
      else t)"

definition RTMPCancelTimer :: "ralink_timer \<Rightarrow> ralink_timer" where
  "RTMPCancelTimer t =
     (if Valid t then
        let t = (if \<not> tState t then t\<lparr>Repeat := False\<rparr> else t)
        in t\<lparr>pending := False, tState := True\<rparr>
      else t)"

definition RTMPModTimer :: "bool \<Rightarrow> u32 \<Rightarrow> ralink_timer \<Rightarrow> ralink_timer" where
  "RTMPModTimer halted Value t =
     (if Valid t then
        let t = t\<lparr>TimerValue := Value, tState := False\<rparr>
        in if PeriodicType t then RTMPSetTimer halted Value (RTMPCancelTimer t)
           else t\<lparr>pending := True\<rparr>
      else t)"

end
