(* ===== verification/Ba_Session.thy ===== *)
theory Ba_Session
  imports Ba_Reorder Rtmp_Timer
begin

text \<open>
  Setting up and tearing down block-ack sessions, from \<open>rt5572/common/ba_action.c\<close> with the frames
  of \<open>action.c\<close>, the checks of \<open>cmm_sanity.c\<close>: two tables of
  sessions, as originator and as recipient, and the arrays of each station that point into them.
  This theory holds the tables; \<open>Ba_Handlers\<close> holds the handlers of frames and timers.
\<close>

section \<open>Data\<close>

datatype ORI_BLOCKACK_STATUS = Originator_NONE | Originator_USED | Originator_WaitRes | Originator_Done

datatype REC_BLOCKACK_STATUS = Recipient_NONE | Recipient_USED | Recipient_HandleRes | Recipient_Accept

text \<open>The code compares the states of an originator by their numbers.\<close>

fun ori_code :: "ORI_BLOCKACK_STATUS \<Rightarrow> nat" where
  "ori_code Originator_NONE = 0"
| "ori_code Originator_USED = 1"
| "ori_code Originator_WaitRes = 2"
| "ori_code Originator_Done = 3"

lemma ori_code_eq: "ori_code a = ori_code b \<longleftrightarrow> a = b"
  by (cases a; cases b) simp_all

instantiation ORI_BLOCKACK_STATUS :: linorder
begin

definition less_eq_ORI_BLOCKACK_STATUS :: "ORI_BLOCKACK_STATUS \<Rightarrow> ORI_BLOCKACK_STATUS \<Rightarrow> bool" where
  "less_eq_ORI_BLOCKACK_STATUS a b \<longleftrightarrow> ori_code a \<le> ori_code b"

definition less_ORI_BLOCKACK_STATUS :: "ORI_BLOCKACK_STATUS \<Rightarrow> ORI_BLOCKACK_STATUS \<Rightarrow> bool" where
  "less_ORI_BLOCKACK_STATUS a b \<longleftrightarrow> ori_code a < ori_code b"

instance
  by standard (auto simp: less_eq_ORI_BLOCKACK_STATUS_def less_ORI_BLOCKACK_STATUS_def ori_code_eq)

end

record ba_ori_entry =
  oWcid :: nat
  oTID :: nat
  oBAWinSize :: u8
  Token :: u8
  oSequence :: u16
  oTimeOutValue :: u16
  ORI_BA_Status :: ORI_BLOCKACK_STATUS
  ORIBATimer :: ralink_timer

text \<open>
  The whole of \<open>BA_REC_ENTRY\<close>: \<open>reorder\<close> holds the fields of the reordering, where the window and the
  list are; its pool stands for the one pool of the adapter while the entry is worked on.
\<close>

record ba_rec_session =
  rWcid :: nat
  rTID :: nat
  rTimeOutValue :: u16
  REC_BA_Status :: REC_BLOCKACK_STATUS
  RECBATimer :: ralink_timer
  reorder :: ba_rec_entry

text \<open>
  The fields of \<open>MAC_TABLE_ENTRY\<close> that matter here. \<open>MaxRAmpduFactor\<close> comes from a field of two
  bits; \<open>MCSSet2\<close> is \<open>HTCapability.MCSSet[2]\<close>, \<open>ralink_chipset\<close> a status flag, and \<open>HT_STA\<close> what
  \<open>IS_HT_STA\<close> answers.
\<close>

record mac_table_entry =
  in_use :: bool
  Aid :: nat
  Addr :: bytes
  TXBAbitmap :: u16
  RXBAbitmap :: u16
  BADeclineBitmap :: u16
  BARecWcidArray :: "nat list"
  BAOriWcidArray :: "nat list"
  TxSeq :: "u16 list"
  MaxRAmpduFactor :: nat
  MCSSet2 :: u8
  ralink_chipset :: bool
  HT_STA :: bool

text \<open>\<open>BA_TABLE\<close>, the stations and the pool of blocks.\<close>

record ba_table =
  numAsRecipient :: u32
  numAsOriginator :: u32
  numDoneOriginator :: u32
  BAOriEntry :: "ba_ori_entry list"
  BARecEntry :: "ba_rec_session list"
  MacTab :: "mac_table_entry list"
  mpdu_blk_pool :: reordering_list

text \<open>
  The configuration the code asks: \<open>MONITOR_ON\<close>, the three flags that stand for a scan in progress
  while associated, \<open>STA_TGN_WIFI_ON\<close> and the flags of a halt.
\<close>

record ba_config =
  AutoBA :: bool
  bBADecline :: bool
  RxBAWinLimit :: u8
  TxPath :: nat
  FixedTxMode :: u8
  monitor_on :: bool
  scan_while_connected :: bool
  tgn_wifi_on :: bool
  halt_in_progress :: bool

text \<open>What the routines hand to other parts of the driver.\<close>

datatype ba_output =
    Enqueue_ADDBA_Request nat bytes u8 u16 nat u8
  | Send_ADDBA_Request bytes u8 nat u8 u16 u16
  | Send_ADDBA_Response "bytes option" u8 nat nat nat
  | Send_BAR bytes nat nat
  | Send_DELBA bytes nat nat nat
  | RTMP_ADD_BA_SESSION_TO_ASIC nat nat
  | RTMP_DEL_BA_SESSION_FROM_ASIC nat nat
  | Indicate indication

definition MAX_LEN_OF_BA_ORI_TABLE :: nat where
  "MAX_LEN_OF_BA_ORI_TABLE = (NUM_OF_TID * MAX_LEN_OF_MAC_TABLE) div 2"

definition MAX_LEN_OF_BA_REC_TABLE :: nat where
  "MAX_LEN_OF_BA_REC_TABLE = (NUM_OF_TID * MAX_LEN_OF_MAC_TABLE) div 2"

definition ORI_SESSION_MAX_RETRY :: u8 where "ORI_SESSION_MAX_RETRY = 8"
definition ORI_BA_SESSION_TIMEOUT :: u32 where "ORI_BA_SESSION_TIMEOUT = 2000"
definition REC_BA_SESSION_IDLE_TIMEOUT :: u32 where "REC_BA_SESSION_IDLE_TIMEOUT = 1000"
definition FIXED_TXMODE_HT :: u8 where "FIXED_TXMODE_HT = 0"

section \<open>The tables\<close>

text \<open>
  \<open>None\<close> in a result is an access outside an array. The two allocators return the entry (none when
  the table counts as full) and the value of \<open>*Idx\<close> when they set it: a search without a hit leaves
  the pointer at the last entry and \<open>*Idx\<close> as it was.
\<close>

definition BATableAllocOriEntry :: "ba_table \<Rightarrow> nat option \<times> nat option \<times> ba_table" where
  "BATableAllocOriEntry T =
     (if numAsOriginator T \<ge> of_nat (MAX_LEN_OF_BA_ORI_TABLE - 1) then (None, None, T)
      else
        (case find (\<lambda>i. ORI_BA_Status (BAOriEntry T ! i) = Originator_NONE) [1..<MAX_LEN_OF_BA_ORI_TABLE] of
           None \<Rightarrow> (Some (MAX_LEN_OF_BA_ORI_TABLE - 1), None, T)
         | Some i \<Rightarrow>
             (Some i, Some i,
              T\<lparr>numAsOriginator := numAsOriginator T + 1,
                BAOriEntry := (BAOriEntry T)[i := (BAOriEntry T ! i)\<lparr>ORI_BA_Status := Originator_USED\<rparr>]\<rparr>)))"

definition BATableAllocRecEntry :: "ba_table \<Rightarrow> nat option \<times> nat option \<times> ba_table" where
  "BATableAllocRecEntry T =
     (if numAsRecipient T \<ge> of_nat (MAX_LEN_OF_BA_REC_TABLE - 1) then (None, None, T)
      else
        (case find (\<lambda>i. REC_BA_Status (BARecEntry T ! i) = Recipient_NONE) [1..<MAX_LEN_OF_BA_REC_TABLE] of
           None \<Rightarrow> (Some (MAX_LEN_OF_BA_REC_TABLE - 1), None, T)
         | Some i \<Rightarrow>
             (Some i, Some i,
              T\<lparr>numAsRecipient := numAsRecipient T + 1,
                BARecEntry := (BARecEntry T)[i := (BARecEntry T ! i)\<lparr>REC_BA_Status := Recipient_USED\<rparr>]\<rparr>)))"

text \<open>Changes of one station and of one entry.\<close>

definition upd_mac :: "nat \<Rightarrow> (mac_table_entry \<Rightarrow> mac_table_entry) \<Rightarrow> ba_table \<Rightarrow> ba_table" where
  "upd_mac w f T = T\<lparr>MacTab := (MacTab T)[w := f (MacTab T ! w)]\<rparr>"

definition upd_ori :: "nat \<Rightarrow> (ba_ori_entry \<Rightarrow> ba_ori_entry) \<Rightarrow> ba_table \<Rightarrow> ba_table" where
  "upd_ori i f T = T\<lparr>BAOriEntry := (BAOriEntry T)[i := f (BAOriEntry T ! i)]\<rparr>"

definition upd_rec :: "nat \<Rightarrow> (ba_rec_session \<Rightarrow> ba_rec_session) \<Rightarrow> ba_table \<Rightarrow> ba_table" where
  "upd_rec i f T = T\<lparr>BARecEntry := (BARecEntry T)[i := f (BARecEntry T ! i)]\<rparr>"

definition BATableFreeOriEntry :: "nat \<Rightarrow> ba_table \<Rightarrow> ba_table option" where
  "BATableFreeOriEntry Idx T =
     (if Idx = 0 \<or> Idx \<ge> MAX_LEN_OF_BA_ORI_TABLE then Some T
      else
        let e = BAOriEntry T ! Idx in
        if ORI_BA_Status e \<noteq> Originator_NONE then
          if oWcid e \<ge> MAX_LEN_OF_MAC_TABLE \<or> oTID e \<ge> NUM_OF_TID then None
          else
            let T = upd_mac (oWcid e) (\<lambda>m. m\<lparr>BAOriWcidArray := (BAOriWcidArray m)[oTID e := 0]\<rparr>) T;
                T = (if ORI_BA_Status e = Originator_Done
                     then upd_mac (oWcid e) (\<lambda>m. m\<lparr>TXBAbitmap := TXBAbitmap m AND NOT (push_bit (oTID e) 1)\<rparr>)
                       (T\<lparr>numDoneOriginator := numDoneOriginator T - 1\<rparr>)
                     else T);
                T = T\<lparr>numAsOriginator := numAsOriginator T - 1\<rparr>
            in Some (upd_ori Idx (\<lambda>e. e\<lparr>ORI_BA_Status := Originator_NONE, Token := 0\<rparr>) T)
        else Some T)"

definition BATableFreeRecEntry :: "nat \<Rightarrow> ba_table \<Rightarrow> ba_table option" where
  "BATableFreeRecEntry Idx T =
     (if Idx = 0 \<or> Idx \<ge> MAX_LEN_OF_BA_REC_TABLE then Some T
      else
        let e = BARecEntry T ! Idx in
        if REC_BA_Status e \<noteq> Recipient_NONE then
          if rWcid e \<ge> MAX_LEN_OF_MAC_TABLE \<or> rTID e \<ge> NUM_OF_TID then None
          else
            let T = upd_mac (rWcid e) (\<lambda>m. m\<lparr>BARecWcidArray := (BARecWcidArray m)[rTID e := 0]\<rparr>) T;
                T = T\<lparr>numAsRecipient := numAsRecipient T - 1\<rparr>
            in Some (upd_rec Idx (\<lambda>e. e\<lparr>REC_BA_Status := Recipient_NONE\<rparr>) T)
        else Some T)"

text \<open>The calls of the reordering on an entry of the table, with the one pool.\<close>

definition with_pool :: "(ba_rec_entry \<Rightarrow> ba_rec_entry \<times> indication list) \<Rightarrow> nat \<Rightarrow> ba_table \<Rightarrow> ba_table \<times> ba_output list" where
  "with_pool f i T =
     (case f ((reorder (BARecEntry T ! i))\<lparr>freelist := mpdu_blk_pool T\<rparr>) of
        (e, ind) \<Rightarrow> ((upd_rec i (\<lambda>s. s\<lparr>reorder := e\<rparr>) T)\<lparr>mpdu_blk_pool := freelist e\<rparr>, map Indicate ind))"

end
