(* ===== verification/Ba_Handlers.thy ===== *)
theory Ba_Handlers
  imports Ba_Session
begin

text \<open>
  The handlers of block-ack sessions: \<open>BAOriSessionSetUp\<close> to \<open>PeerDelBAAction\<close> of
  \<open>rt5572/common/ba_action.c\<close>, \<open>MlmeADDBAAction\<close> and \<open>MlmeDELBAAction\<close> of \<open>action.c\<close>, and the
  checks of \<open>cmm_sanity.c\<close>. Of the frames sent, the outputs keep the fields that are computed.
  Allocations succeed, as everywhere; the locks and the debug output are left out.
\<close>

section \<open>Frames\<close>

definition get_le16 :: "bytes \<Rightarrow> nat \<Rightarrow> u16" where
  "get_le16 Msg i = ucast (Msg ! i) OR push_bit 8 (ucast (Msg ! (i + 1)))"

text \<open>The bits of \<open>BA_PARM\<close> and \<open>DELBA_PARM\<close>, on a little-endian machine.\<close>

record ba_parm =
  AMSDUSupported :: bool
  BAPolicy :: bool
  TID :: nat
  BufSize :: nat

definition BA_PARM :: "u16 \<Rightarrow> ba_parm" where
  "BA_PARM w = \<lparr>AMSDUSupported = bit w 0, BAPolicy = bit w 1,
     TID = unat (take_bit 4 (drop_bit 2 w)), BufSize = unat (take_bit 10 (drop_bit 6 w))\<rparr>"

definition DELBA_Initiator :: "u16 \<Rightarrow> bool" where
  "DELBA_Initiator w = bit w 11"

definition DELBA_TID :: "u16 \<Rightarrow> nat" where
  "DELBA_TID w = unat (take_bit 4 (drop_bit 12 w))"

text \<open>
  A request has its token at 26, its parameters at 27 and its time-out at 29, a response its status
  at 27, its parameters at 29 and its time-out at 31; both are 33 bytes long. A teardown is 30
  bytes long, with its parameters at 26. The second address is at 10.
\<close>

definition Req_Parm :: "bytes \<Rightarrow> ba_parm" where "Req_Parm Msg = BA_PARM (get_le16 Msg 27)"
definition Rsp_Parm :: "bytes \<Rightarrow> ba_parm" where "Rsp_Parm Msg = BA_PARM (get_le16 Msg 29)"

definition PeerAddBAReqActionSanity :: "bytes \<Rightarrow> nat \<Rightarrow> bool \<times> bytes option" where
  "PeerAddBAReqActionSanity Msg MsgLen =
     (if MsgLen < 33 then (False, None)
      else (BAPolicy (Req_Parm Msg), Some (take 6 (drop 10 Msg))))"

definition PeerAddBARspActionSanity :: "bytes \<Rightarrow> nat \<Rightarrow> bool" where
  "PeerAddBARspActionSanity Msg MsgLen = (if MsgLen < 33 then False else BAPolicy (Rsp_Parm Msg))"

definition PeerDelBAActionSanity :: "nat \<Rightarrow> nat \<Rightarrow> bool" where
  "PeerDelBAActionSanity Wcid MsgLen =
     (if MsgLen \<noteq> 30 then False else if Wcid \<ge> MAX_LEN_OF_MAC_TABLE then False else True)"

section \<open>Requests and teardowns sent\<close>

text \<open>The checks of the two messages to the handlers; their lengths are those of the structures.\<close>

definition VALID_WCID :: "nat \<Rightarrow> bool" where
  "VALID_WCID w \<longleftrightarrow> w > 0 \<and> w < MAX_LEN_OF_MAC_TABLE"

definition MlmeAddBAReqSanity :: "nat \<Rightarrow> bytes \<Rightarrow> bool" where
  "MlmeAddBAReqSanity Wcid pAddr =
     (if Wcid \<ge> MAX_LEN_OF_MAC_TABLE then False
      else if pAddr ! 0 AND 0x01 = 0x01 then False else True)"

definition MlmeDelBAReqSanity :: "ba_table \<Rightarrow> nat \<Rightarrow> bytes \<Rightarrow> nat \<Rightarrow> bool" where
  "MlmeDelBAReqSanity T Wcid pAddr tid =
     (if Wcid \<ge> MAX_LEN_OF_MAC_TABLE then False
      else if (word_of_nat tid :: u8) AND 0xf0 \<noteq> 0 then False
      else if take 6 (Addr (MacTab T ! Wcid)) \<noteq> take 6 pAddr then False else True)"

definition MlmeADDBAAction ::
  "ba_table \<Rightarrow> nat \<Rightarrow> bytes \<Rightarrow> u8 \<Rightarrow> u16 \<Rightarrow> nat \<Rightarrow> u8 \<Rightarrow> ba_output list option" where
  "MlmeADDBAAction T Wcid pAddr BaBufSize TimeOutVal tid Tok =
     (if MlmeAddBAReqSanity Wcid pAddr \<and> VALID_WCID Wcid then
        if tid \<ge> NUM_OF_TID then None
        else if BAOriWcidArray (MacTab T ! Wcid) ! tid = 0 then Some []
        else Some [Send_ADDBA_Request pAddr BaBufSize tid Tok TimeOutVal
               (take_bit 12 (TxSeq (MacTab T ! Wcid) ! tid))]
      else Some [])"

definition MlmeDELBAAction :: "ba_table \<Rightarrow> nat \<Rightarrow> bytes \<Rightarrow> nat \<Rightarrow> nat \<Rightarrow> ba_output list option" where
  "MlmeDELBAAction T Wcid pAddr tid Initiator =
     (if MlmeDelBAReqSanity T Wcid pAddr tid \<and> VALID_WCID Wcid then
        if tid \<ge> NUM_OF_TID then None
        else let m = MacTab T ! Wcid in
          Some [Send_BAR (Addr m) tid (unat (take_bit 12 (TxSeq m ! tid))),
            Send_DELBA (Addr m) tid Initiator 39]
      else Some [])"

section \<open>The originator\<close>

definition BA_MaxWinSizeReasign :: "ba_config \<Rightarrow> mac_table_entry \<Rightarrow> u8 \<Rightarrow> u8" where
  "BA_MaxWinSizeReasign cfg m WinSize =
     (let MaxPeerRxSize = (word_of_nat (2 ^ (MaxRAmpduFactor m + 3) * 10 div 16 - 1) :: u8);
          MaxSize = (if TxPath cfg = 3 \<and> MCSSet2 m \<noteq> 0 then 31 else 20);
          MaxSize = (if \<not> ralink_chipset m then min MaxPeerRxSize MaxSize else MaxSize)
      in if WinSize > MaxSize then MaxSize else WinSize)"

definition BAOriSessionSetUp ::
  "ba_config \<Rightarrow> nat \<Rightarrow> nat \<Rightarrow> u16 \<Rightarrow> u32 \<Rightarrow> bool \<Rightarrow> ba_table \<Rightarrow> ba_table option" where
  "BAOriSessionSetUp cfg w tid TimeOut DelayTime isForced T =
     (if tid \<ge> NUM_OF_TID then Some T
      else if \<not> AutoBA cfg \<and> \<not> isForced then Some T
      else if FixedTxMode cfg \<noteq> FIXED_TXMODE_HT then Some T
      else if w \<ge> MAX_LEN_OF_MAC_TABLE then None
      else
        let m = MacTab T ! w;
            DelayTime = (if bit (BADeclineBitmap m) tid \<and> \<not> isForced then 3000 else DelayTime);
            Idx = BAOriWcidArray m ! tid;
            (pBAEntry, Idx, T) =
              (if Idx = 0 then
                 (case BATableAllocOriEntry T of
                    (p, set_Idx, T) \<Rightarrow> (p, (case set_Idx of None \<Rightarrow> Idx | Some j \<Rightarrow> j), T))
               else (Some Idx, Idx, T)) in
        (case pBAEntry of
           None \<Rightarrow> Some T
         | Some i \<Rightarrow>
             if i \<ge> MAX_LEN_OF_BA_ORI_TABLE then None
             else if ORI_BA_Status (BAOriEntry T ! i) \<ge> Originator_WaitRes then Some T
             else
               let T = upd_mac w (\<lambda>m. m\<lparr>BAOriWcidArray := (BAOriWcidArray m)[tid := Idx]\<rparr>) T
               in Some (upd_ori i (\<lambda>e.
                    e\<lparr>ORI_BA_Status := Originator_WaitRes, oWcid := Aid m mod 256,
                      oBAWinSize := RxBAWinLimit cfg, oSequence := TxSeq m ! tid, Token := 1,
                      oTID := tid, oTimeOutValue := TimeOut,
                      ORIBATimer := RTMPSetTimer (halt_in_progress cfg) DelayTime
                        (if \<not> bit (TXBAbitmap m) tid then RTMPInitTimer False (ORIBATimer e)
                         else RTMPCancelTimer (ORIBATimer e))\<rparr>) T)))"

text \<open>\<open>Msg\<close> is the response; its parameters give the field of four bits that indexes the array.\<close>

definition BAOriSessionAdd ::
  "ba_config \<Rightarrow> nat \<Rightarrow> bytes \<Rightarrow> ba_table \<Rightarrow> (ba_table \<times> ba_output list) option" where
  "BAOriSessionAdd cfg w Msg T =
     (let tid = TID (Rsp_Parm Msg) in
      if w \<ge> MAX_LEN_OF_MAC_TABLE \<or> tid \<ge> NUM_OF_TID then None
      else
        let m = MacTab T ! w; Idx = BAOriWcidArray m ! tid in
        if Idx = 0 then Some (T, [])
        else if Idx \<ge> MAX_LEN_OF_BA_ORI_TABLE then None
        else
          let e = BAOriEntry T ! Idx in
          if oTID e = tid \<and> ORI_BA_Status e = Originator_WaitRes then
            let MaxPeerBufSize = (word_of_nat (BufSize (Rsp_Parm Msg)) :: u8);
                MaxPeerBufSize = (if MaxPeerBufSize > 0 then MaxPeerBufSize - 1 else 0);
                win = BA_MaxWinSizeReasign cfg m (min (oBAWinSize e) MaxPeerBufSize);
                T = upd_ori Idx (\<lambda>e. e\<lparr>oBAWinSize := win, oTimeOutValue := get_le16 Msg 31,
                      ORI_BA_Status := Originator_Done, oSequence := TxSeq m ! tid,
                      ORIBATimer := (RTMPCancelTimer (ORIBATimer e))\<lparr>TimerValue := 0\<rparr>\<rparr>) T;
                T = T\<lparr>numDoneOriginator := numDoneOriginator T + 1\<rparr>;
                T = upd_mac w (\<lambda>m. m\<lparr>TXBAbitmap := TXBAbitmap m OR push_bit tid 1\<rparr>) T
            in if oWcid e \<ge> MAX_LEN_OF_MAC_TABLE then None
               else Some (T, [Send_BAR (Addr (MacTab T ! oWcid e)) (oTID e)
                      (unat (take_bit 12 (TxSeq m ! tid)))])
          else Some (T, []))"

text \<open>The timer of an entry, which runs while the answer is awaited.\<close>

definition BAOriSessionSetupTimeout ::
  "ba_config \<Rightarrow> nat \<Rightarrow> ba_table \<Rightarrow> (ba_table \<times> ba_output list) option" where
  "BAOriSessionSetupTimeout cfg i T =
     (if monitor_on cfg then Some (T, [])
      else
        let e = BAOriEntry T ! i in
        if i \<ge> MAX_LEN_OF_BA_ORI_TABLE \<or> oWcid e \<ge> MAX_LEN_OF_MAC_TABLE then None
        else
          let m = MacTab T ! oWcid e in
          if ORI_BA_Status e = Originator_WaitRes \<and> Token e < ORI_SESSION_MAX_RETRY then
            if scan_while_connected cfg
            then Some (upd_ori i (\<lambda>e. e\<lparr>ORIBATimer := RTMPSetTimer (halt_in_progress cfg) ORI_BA_SESSION_TIMEOUT (ORIBATimer e)\<rparr>) T, [])
            else Some (upd_ori i (\<lambda>e. e\<lparr>Token := Token e + 1,
                   ORIBATimer := RTMPSetTimer (halt_in_progress cfg) ORI_BA_SESSION_TIMEOUT (ORIBATimer e)\<rparr>) T,
                 [Enqueue_ADDBA_Request (Aid m mod 256) (Addr m) (RxBAWinLimit cfg) 0 (oTID e) (Token e)])
          else if oTID e \<ge> NUM_OF_TID then None
          else map_option (\<lambda>T. (T, [])) (BATableFreeOriEntry (BAOriWcidArray m ! oTID e) T))"

definition BAOriSessionTearDown ::
  "nat \<Rightarrow> nat \<Rightarrow> bool \<Rightarrow> bool \<Rightarrow> ba_table \<Rightarrow> (ba_table \<times> ba_output list) option" where
  "BAOriSessionTearDown w tid bPassive bForceSend T =
     (if w \<ge> MAX_LEN_OF_MAC_TABLE then Some (T, [])
      else if tid \<ge> NUM_OF_TID then None
      else
        let m = MacTab T ! w; Idx = BAOriWcidArray m ! tid in
        if Idx = 0 \<or> Idx \<ge> MAX_LEN_OF_BA_ORI_TABLE then
          if bForceSend then map_option (Pair T) (MlmeDELBAAction T w (Addr m) tid 1) else Some (T, [])
        else
          let e = BAOriEntry T ! Idx in
          (case (if \<not> bPassive \<and> tid = oTID e \<and> ORI_BA_Status e = Originator_Done
                 then MlmeDELBAAction T w (Addr m) (oTID e) 1 else Some []) of
             None \<Rightarrow> None
           | Some outs \<Rightarrow>
               map_option (\<lambda>T. (T, outs))
                 (BATableFreeOriEntry Idx
                   (upd_ori Idx (\<lambda>e. e\<lparr>ORIBATimer := RTMPCancelTimer (ORIBATimer e)\<rparr>) T))))"

section \<open>The recipient\<close>

definition BARecSessionAdd ::
  "ba_config \<Rightarrow> nat \<Rightarrow> bytes \<Rightarrow> ba_table \<Rightarrow> (bool \<times> ba_table \<times> ba_output list) option" where
  "BARecSessionAdd cfg w Msg T =
     (let tid = TID (Req_Parm Msg);
          win = min (word_of_nat (BufSize (Req_Parm Msg))) (RxBAWinLimit cfg);
          win = (if win = 0 then 64 else win) in
      if w \<ge> MAX_LEN_OF_MAC_TABLE \<or> tid \<ge> NUM_OF_TID then None
      else
        let m = MacTab T ! w; Idx = BARecWcidArray m ! tid in
        if Idx \<ge> MAX_LEN_OF_BA_REC_TABLE then None
        else
          let (pBAEntry, Idx, T, outs) =
                (if Idx = 0 then
                   (case BATableAllocRecEntry T of
                      (p, set_Idx, T) \<Rightarrow> (p, (case set_Idx of None \<Rightarrow> Idx | Some j \<Rightarrow> j), T, []))
                 else
                   (case with_pool ba_refresh_reordering_mpdus Idx T of (T, outs) \<Rightarrow> (Some Idx, Idx, T, outs))) in
          (case pBAEntry of
             None \<Rightarrow> Some (False, T, outs)
           | Some i \<Rightarrow>
               let T = upd_rec i (\<lambda>s. s\<lparr>rWcid := Aid m mod 256, rTID := tid, rTimeOutValue := get_le16 Msg 29,
                         REC_BA_Status := Recipient_Accept,
                         RECBATimer := (if bit (RXBAbitmap m) tid then RTMPCancelTimer (RECBATimer s)
                                        else RTMPInitTimer True (RECBATimer s)),
                         reorder := (reorder s)\<lparr>BAWinSize := uint win, LastIndSeq := RESET_RCV_SEQ\<rparr>\<rparr>) T;
                   T = upd_mac w (\<lambda>m. m\<lparr>RXBAbitmap := RXBAbitmap m OR push_bit tid 1,
                         BARecWcidArray := (BARecWcidArray m)[tid := Idx],
                         BADeclineBitmap := BADeclineBitmap m AND NOT (push_bit tid 1)\<rparr>) T
               in Some (True, T, outs @ [RTMP_ADD_BA_SESSION_TO_ASIC (Aid m) tid])))"

definition BARecSessionTearDown ::
  "nat \<Rightarrow> nat \<Rightarrow> bool \<Rightarrow> ba_table \<Rightarrow> (ba_table \<times> ba_output list) option" where
  "BARecSessionTearDown w tid bPassive T =
     (if w \<ge> MAX_LEN_OF_MAC_TABLE then Some (T, [])
      else if tid \<ge> NUM_OF_TID then None
      else
        let m = MacTab T ! w; Idx = BARecWcidArray m ! tid in
        if Idx = 0 then Some (T, [])
        else if Idx \<ge> MAX_LEN_OF_BA_REC_TABLE then None
        else
          let s = BARecEntry T ! Idx in
          if tid = rTID s \<and> REC_BA_Status s = Recipient_Accept then
            (case (if \<not> bPassive then MlmeDELBAAction T w (Addr m) tid 0 else Some []) of
               None \<Rightarrow> None
             | Some sent \<Rightarrow>
                 let T = upd_rec Idx (\<lambda>s. s\<lparr>RECBATimer := RTMPCancelTimer (RECBATimer s)\<rparr>) T in
                 (case with_pool ba_refresh_reordering_mpdus Idx T of
                    (T, outs) \<Rightarrow>
                      let T = upd_rec Idx (\<lambda>s. s\<lparr>reorder :=
                                (reorder s)\<lparr>LastIndSeq := RESET_RCV_SEQ, BAWinSize := 0\<rparr>\<rparr>) T;
                          T = upd_mac w (\<lambda>m. m\<lparr>RXBAbitmap := RXBAbitmap m AND NOT (push_bit (rTID s) 1),
                                BARecWcidArray := (BARecWcidArray m)[tid := 0]\<rparr>) T
                      in map_option (\<lambda>T. (T, sent @ outs @ [RTMP_DEL_BA_SESSION_FROM_ASIC w tid]))
                           (BATableFreeRecEntry Idx T)))
          else map_option (\<lambda>T. (T, [])) (BATableFreeRecEntry Idx T))"

text \<open>\<open>for\<close> over the eight priorities; \<open>outs\<close> are the outputs so far.\<close>

definition teardown_turn :: "nat \<Rightarrow> ba_table \<times> ba_output list \<Rightarrow> nat \<Rightarrow> (ba_table \<times> ba_output list) option" where
  "teardown_turn w st i =
     (case BAOriSessionTearDown w i False False (fst st) of
        None \<Rightarrow> None
      | Some (T, o1) \<Rightarrow>
          map_option (\<lambda>(T, o2). (T, snd st @ o1 @ o2)) (BARecSessionTearDown w i False T))"

definition BASessionTearDownALL :: "nat \<Rightarrow> ba_table \<Rightarrow> (ba_table \<times> ba_output list) option" where
  "BASessionTearDownALL w T = feed (teardown_turn w) (T, []) [0..<NUM_OF_TID]"

text \<open>
  \<open>pAdapter\<close> of a recipient's entry is never set, so that the refresh of a list that is not empty
  goes through a null pointer. \<open>BARecSessionIdleTimeout\<close> is installed as the function of a timer
  that is never started.
\<close>

definition BARecSessionIdleTimeout :: "u32 \<Rightarrow> nat \<Rightarrow> ba_table \<Rightarrow> (ba_table \<times> ba_output list) option" where
  "BARecSessionIdleTimeout Now32 i T =
     (let s = BARecEntry T ! i in
      if REC_BA_Status s = Recipient_Accept then
        if RTMP_TIME_AFTER Now32 (LastIndSeqAtTimer (reorder s) + REC_BA_SESSION_IDLE_TIMEOUT) then
          if qlen (rlist (reorder s)) \<noteq> 0 then None
          else Some (with_pool ba_refresh_reordering_mpdus i T)
        else Some (T, [])
      else Some (T, []))"

text \<open>\<open>for\<close> over all stations and priorities, and the release of all that is buffered.\<close>

definition maintain_turn ::
  "u32 \<Rightarrow> u32 \<Rightarrow> ba_table \<times> ba_output list \<Rightarrow> nat \<times> nat \<Rightarrow> (ba_table \<times> ba_output list) option" where
  "maintain_turn OS_HZ Now32 st k =
     (case st of (T, outs) \<Rightarrow>
        let m = MacTab T ! fst k; Idx = BARecWcidArray m ! snd k in
        if \<not> in_use m then Some (T, outs)
        else if Idx \<ge> MAX_LEN_OF_BA_REC_TABLE then None
        else
          (case ba_flush_reordering_timeout_mpdus OS_HZ
                  ((reorder (BARecEntry T ! Idx))\<lparr>freelist := mpdu_blk_pool T\<rparr>) Now32 of
             None \<Rightarrow> None
           | Some (e, ind) \<Rightarrow>
               (case with_pool (\<lambda>_. (e, ind)) Idx T of (T, o1) \<Rightarrow> Some (T, outs @ o1))))"

definition BaReOrderingBufferMaintain :: "u32 \<Rightarrow> u32 \<Rightarrow> ba_table \<Rightarrow> (ba_table \<times> ba_output list) option" where
  "BaReOrderingBufferMaintain OS_HZ Now32 T =
     feed (maintain_turn OS_HZ Now32) (T, []) [(w, t). w \<leftarrow> [1..<MAX_LEN_OF_MAC_TABLE], t \<leftarrow> [0..<NUM_OF_TID]]"

function (sequential) release_loop :: "ba_rec_entry \<Rightarrow> ba_rec_entry \<times> indication list" where
  "release_loop e =
     (case ba_dequeue (rlist e) of
        (None, l) \<Rightarrow> (e\<lparr>rlist := l\<rparr>, [])
      | (Some m, l) \<Rightarrow>
          (case release_loop (ba_mpdu_blk_free m (e\<lparr>rlist := l\<rparr>)) of
             (e, ind) \<Rightarrow> (e, RELEASE_NDIS_PACKET (pPacket m) # ind)))"
  by pat_completeness auto
termination
  by (relation "measure (\<lambda>e. length (chain (rlist e)))")
    (auto simp: ba_mpdu_blk_free_def dest: ba_dequeue_shorter)

declare release_loop.simps [simp del]

definition release_turn :: "ba_table \<times> ba_output list \<Rightarrow> nat \<Rightarrow> ba_table \<times> ba_output list" where
  "release_turn st i =
     (if REC_BA_Status (BARecEntry (fst st) ! i) \<noteq> Recipient_NONE
      then (case with_pool release_loop i (fst st) of (T, outs) \<Rightarrow> (T, snd st @ outs)) else st)"

definition ba_reordering_resource_release :: "ba_table \<Rightarrow> ba_table \<times> ba_output list" where
  "ba_reordering_resource_release T = foldl release_turn (T, []) [0..<MAX_LEN_OF_BA_REC_TABLE]"

section \<open>The frames of a peer\<close>

definition PeerAddBAReqAction ::
  "ba_config \<Rightarrow> nat \<Rightarrow> bytes \<Rightarrow> nat \<Rightarrow> ba_table \<Rightarrow> (ba_table \<times> ba_output list) option" where
  "PeerAddBAReqAction cfg Wcid Msg MsgLen T =
     (if Wcid \<ge> MAX_LEN_OF_MAC_TABLE then Some (T, [])
      else if length Msg < 33 then None
      else
        (case PeerAddBAReqActionSanity Msg MsgLen of
           (ok, pAddr) \<Rightarrow>
             (case (if ok then
                      if \<not> bBADecline cfg \<and> HT_STA (MacTab T ! Wcid) then
                        map_option (\<lambda>(added, T, outs). (if added then 0 else 38, T, outs))
                          (BARecSessionAdd cfg Wcid Msg T)
                      else Some (37, T, [])
                    else Some (1, T, [])) of
                None \<Rightarrow> None
              | Some (Status, T, outs) \<Rightarrow>
                  let p = Req_Parm Msg;
                      Buf = min (word_of_nat (BufSize p)) (RxBAWinLimit cfg);
                      Buf = (if Buf = 0 then 64 else Buf)
                  in Some (T, outs @ [Send_ADDBA_Response pAddr (Msg ! 26) Status (TID p) (unat Buf)]))))"

definition PeerAddBARspAction ::
  "ba_config \<Rightarrow> nat \<Rightarrow> bytes \<Rightarrow> nat \<Rightarrow> ba_table \<Rightarrow> (ba_table \<times> ba_output list) option" where
  "PeerAddBARspAction cfg Wcid Msg MsgLen T =
     (if Wcid \<ge> MAX_LEN_OF_MAC_TABLE then Some (T, [])
      else if PeerAddBARspActionSanity Msg MsgLen then
        let StatusCode = get_le16 Msg 27; tid = TID (Rsp_Parm Msg) in
        (case (if StatusCode = 0 then BAOriSessionAdd cfg Wcid Msg T
               else BAOriSessionTearDown Wcid tid True False T) of
           None \<Rightarrow> None
         | Some (T, outs) \<Rightarrow>
             Some (if StatusCode = 37 \<or> tgn_wifi_on cfg \<and> StatusCode \<noteq> 0
                   then upd_mac Wcid (\<lambda>m. m\<lparr>BADeclineBitmap := BADeclineBitmap m OR push_bit tid 1\<rparr>) T
                   else T, outs))
      else Some (T, []))"

definition PeerDelBAAction ::
  "nat \<Rightarrow> bytes \<Rightarrow> nat \<Rightarrow> ba_table \<Rightarrow> (ba_table \<times> ba_output list) option" where
  "PeerDelBAAction Wcid Msg MsgLen T =
     (if PeerDelBAActionSanity Wcid MsgLen then
        let parm = get_le16 Msg 26 in
        if DELBA_Initiator parm then BARecSessionTearDown Wcid (DELBA_TID parm) True T
        else BAOriSessionTearDown Wcid (DELBA_TID parm) True False T
      else Some (T, []))"

end
