(* ===== verification/Ba_Links.thy ===== *)
theory Ba_Links
  imports Ba_Handlers Ba_Invariant
begin

text \<open>
  The invariant of the block-ack tables: entries and the arrays of the stations point at each
  other, the counters count, the bitmaps say which sessions stand, and what a session that does
  not stand has buffered is nothing. What both tables share is proved once, in a locale.
\<close>

section \<open>Entries and the slots that point at them\<close>

text \<open>\<open>m k\<close> is the entry that slot \<open>k\<close> points at, 0 for none; \<open>n\<close> is the counter.\<close>

definition linked ::
  "('e \<Rightarrow> bool) \<Rightarrow> ('e \<Rightarrow> 'k) \<Rightarrow> 'e list \<Rightarrow> ('k \<Rightarrow> nat) \<Rightarrow> nat \<Rightarrow> bool" where
  "linked used key xs m n \<longleftrightarrow>
     (\<forall>i < length xs. used (xs ! i) \<longrightarrow> i \<noteq> 0 \<and> m (key (xs ! i)) = i)
     \<and> (\<forall>k. m k \<noteq> 0 \<longrightarrow> m k < length xs \<and> used (xs ! m k) \<and> key (xs ! m k) = k)
     \<and> n = length (filter used xs)"

lemma length_filter_update:
  "i < length xs \<Longrightarrow>
    length (filter P (xs[i := x])) + (if P (xs ! i) then 1 else 0)
      = length (filter P xs) + (if P x then 1 else 0)"
proof (induction xs arbitrary: i)
  case (Cons y ys)
  then show ?case using Cons.IH [of "i - 1"] by (cases i) simp_all
qed simp

locale session_table =
  fixes used :: "'e \<Rightarrow> bool" and key :: "'e \<Rightarrow> 'k" and release :: "'e \<Rightarrow> 'e"
  assumes released: "\<not> used (release e)"
begin

lemma slot_entry:
  assumes "linked used key xs m n" and "m k \<noteq> 0"
  shows "m k < length xs" and "used (xs ! m k)" and "key (xs ! m k) = k"
  using assms by (auto simp: linked_def)

lemma entry_slot:
  assumes "linked used key xs m n" and "i < length xs" and "used (xs ! i)"
  shows "i \<noteq> 0" and "m (key (xs ! i)) = i"
  using assms by (auto simp: linked_def)

lemma count: "linked used key xs m n \<Longrightarrow> length (filter used xs) = n"
  by (simp add: linked_def)

lemma linkedI:
  assumes "\<And>i. i < length xs \<Longrightarrow> used (xs ! i) \<Longrightarrow> i \<noteq> 0 \<and> m (key (xs ! i)) = i"
    and "\<And>k. m k \<noteq> 0 \<Longrightarrow> m k < length xs \<and> used (xs ! m k) \<and> key (xs ! m k) = k"
    and "length (filter used xs) = n"
  shows "linked used key xs m n"
  using assms unfolding linked_def by blast

lemma assign:
  assumes "linked used key xs m n" and "m k = 0" and "0 < i" and "i < length xs"
    and "\<not> used (xs ! i)" and "used e" and "key e = k"
  shows "linked used key (xs[i := e]) (m(k := i)) (Suc n)"
proof (rule linkedI)
  fix j
  assume "j < length (xs[i := e])" "used (xs[i := e] ! j)"
  then show "j \<noteq> 0 \<and> (m(k := i)) (key (xs[i := e] ! j)) = j"
    using entry_slot [OF assms(1), of j] assms(2,3,7) by (cases "j = i") auto
next
  fix k'
  assume "(m(k := i)) k' \<noteq> 0"
  then show "(m(k := i)) k' < length (xs[i := e]) \<and> used (xs[i := e] ! (m(k := i)) k')
      \<and> key (xs[i := e] ! (m(k := i)) k') = k'"
    using slot_entry [OF assms(1), of k'] assms(4-7)
    by (cases "k' = k"; cases "m k' = i") (simp_all add: nth_list_update)
next
  show "length (filter used (xs[i := e])) = Suc n"
    using length_filter_update [of i xs used e] assms(4-6) count [OF assms(1)] by simp
qed

lemma drop_entry:
  assumes "linked used key xs m n" and "i < length xs" and "used (xs ! i)"
  shows "linked used key (xs[i := release e]) (m(key (xs ! i) := 0)) (n - 1)" and "0 < n"
proof -
  have n: "length (filter used (xs[i := release e])) + 1 = n"
    using assms(2,3) length_filter_update [of i xs used "release e"] count [OF assms(1)]
    by (simp add: released)
  then show "0 < n" by simp
  show "linked used key (xs[i := release e]) (m(key (xs ! i) := 0)) (n - 1)"
  proof (rule linkedI)
    fix j
    assume j: "j < length (xs[i := release e])" "used (xs[i := release e] ! j)"
    then have "j \<noteq> i" using assms(2) released by (cases "j = i") simp_all
    with j have "j \<noteq> 0" "m (key (xs ! j)) = j" "m (key (xs ! i)) = i"
      using entry_slot [OF assms(1), of j] entry_slot [OF assms(1-3)] by simp_all
    then show "j \<noteq> 0 \<and> (m(key (xs ! i) := 0)) (key (xs[i := release e] ! j)) = j"
      using \<open>j \<noteq> i\<close> by auto
  next
    fix k
    assume "(m(key (xs ! i) := 0)) k \<noteq> 0"
    then have k: "k \<noteq> key (xs ! i)" "m k \<noteq> 0" by (simp_all split: if_splits)
    then show "(m(key (xs ! i) := 0)) k < length (xs[i := release e])
        \<and> used (xs[i := release e] ! (m(key (xs ! i) := 0)) k)
        \<and> key (xs[i := release e] ! (m(key (xs ! i) := 0)) k) = k"
      using slot_entry [OF assms(1) k(2)] by (cases "m k = i") simp_all
  next
    show "length (filter used (xs[i := release e])) = n - 1" using n by simp
  qed
qed

lemma keep:
  assumes "linked used key xs m n" and "i < length xs" and "used e = used (xs ! i)"
    and "used e \<Longrightarrow> key e = key (xs ! i)"
  shows "linked used key (xs[i := e]) m n"
proof (rule linkedI)
  fix j
  assume "j < length (xs[i := e])" "used (xs[i := e] ! j)"
  then show "j \<noteq> 0 \<and> m (key (xs[i := e] ! j)) = j"
    using entry_slot [OF assms(1), of j] assms(2-4) by (cases "j = i") simp_all
next
  fix k
  assume "m k \<noteq> 0"
  then show "m k < length (xs[i := e]) \<and> used (xs[i := e] ! m k) \<and> key (xs[i := e] ! m k) = k"
    using slot_entry [OF assms(1), of k] assms(2-4) by (cases "m k = i") simp_all
next
  show "length (filter used (xs[i := e])) = n"
    using length_filter_update [of i xs used e] assms(2,3) count [OF assms(1)] by (simp split: if_splits)
qed

text \<open>Entry 0 is never used, so that a counter below the size leaves a free entry.\<close>

lemma counter_bound:
  assumes "linked used key xs m n" and "xs \<noteq> []"
  shows "n \<le> length xs - 1"
proof -
  obtain x ys where xs: "xs = x # ys" using assms(2) by (cases xs) auto
  have "\<not> used x" using assms(1) unfolding linked_def xs by force
  then have "n = length (filter used ys)" using assms(1) by (simp add: linked_def xs)
  then show ?thesis by (simp add: xs)
qed

lemma free_entry:
  assumes "linked used key xs m n" and "n < length xs - 1"
  obtains i where "find (\<lambda>i. \<not> used (xs ! i)) [1..<length xs] = Some i" and "0 < i" and "i < length xs"
    and "\<not> used (xs ! i)"
proof (cases "find (\<lambda>i. \<not> used (xs ! i)) [1..<length xs]")
  case None
  obtain x ys where xs: "xs = x # ys" using assms(2) by (cases xs) auto
  have "used y" if "y \<in> set ys" for y
  proof -
    obtain j where "j < length ys" "y = ys ! j" using \<open>y \<in> set ys\<close> by (auto simp: in_set_conv_nth)
    then have "Suc j \<in> set [1..<length xs]" "xs ! Suc j = y" by (simp_all add: xs del: upt_Suc)
    then show ?thesis using None by (force simp: find_None_iff)
  qed
  then have "filter used ys = ys" by simp
  moreover have "\<not> used x" using assms(1) unfolding linked_def xs by force
  ultimately have "n = length ys" using assms(1) by (simp add: linked_def xs)
  then show ?thesis using assms(2) by (simp add: xs)
next
  case (Some i)
  moreover from this have "i \<in> set [1..<length xs]" "\<not> used (xs ! i)"
    by (auto simp: find_Some_iff in_set_conv_nth)
  ultimately show ?thesis using that by simp
qed

end

section \<open>The two tables\<close>

abbreviation ori_used :: "ba_ori_entry \<Rightarrow> bool" where
  "ori_used e \<equiv> ORI_BA_Status e \<noteq> Originator_NONE"

abbreviation ori_key :: "ba_ori_entry \<Rightarrow> nat \<times> nat" where
  "ori_key e \<equiv> (oWcid e, oTID e)"

abbreviation rec_used :: "ba_rec_session \<Rightarrow> bool" where
  "rec_used s \<equiv> REC_BA_Status s \<noteq> Recipient_NONE"

abbreviation rec_key :: "ba_rec_session \<Rightarrow> nat \<times> nat" where
  "rec_key s \<equiv> (rWcid s, rTID s)"

interpretation ori: session_table ori_used ori_key "\<lambda>e. e\<lparr>ORI_BA_Status := Originator_NONE, Token := 0\<rparr>"
  by unfold_locales simp

interpretation rcp: session_table rec_used rec_key "\<lambda>s. s\<lparr>REC_BA_Status := Recipient_NONE\<rparr>"
  by unfold_locales simp

text \<open>The slots of the stations.\<close>

definition slots :: "(mac_table_entry \<Rightarrow> nat list) \<Rightarrow> mac_table_entry list \<Rightarrow> nat \<times> nat \<Rightarrow> nat" where
  "slots A M k = (if fst k < length M \<and> snd k < length (A (M ! fst k)) then A (M ! fst k) ! snd k else 0)"

lemma slots_at: "w < length M \<Longrightarrow> t < length (A (M ! w)) \<Longrightarrow> slots A M (w, t) = A (M ! w) ! t"
  by (simp add: slots_def)

lemma slots_update:
  "w < length M \<Longrightarrow> t < length (A (M ! w)) \<Longrightarrow> A m' = (A (M ! w))[t := i]
    \<Longrightarrow> slots A (M[w := m']) = (slots A M)((w, t) := i)"
proof (rule ext)
  fix k
  assume "w < length M" "t < length (A (M ! w))" "A m' = (A (M ! w))[t := i]"
  then show "slots A (M[w := m']) k = ((slots A M)((w, t) := i)) k"
    by (cases k) (auto simp: slots_def nth_list_update)
qed

lemma slots_same: "A m' = A (M ! w) \<Longrightarrow> slots A (M[w := m']) = slots A M"
  by (rule ext) (cases "w < length M"; auto simp: slots_def nth_list_update)

definition mac_ok :: "mac_table_entry list \<Rightarrow> bool" where
  "mac_ok M \<longleftrightarrow> length M = MAX_LEN_OF_MAC_TABLE
     \<and> (\<forall>w < MAX_LEN_OF_MAC_TABLE. Aid (M ! w) = w \<and> length (TxSeq (M ! w)) = NUM_OF_TID
          \<and> length (BAOriWcidArray (M ! w)) = NUM_OF_TID \<and> length (BARecWcidArray (M ! w)) = NUM_OF_TID)"

definition ori_entry_ok :: "ba_ori_entry \<Rightarrow> bool" where
  "ori_entry_ok e \<longleftrightarrow>
     ORI_BA_Status e \<noteq> Originator_USED \<and> oWcid e < MAX_LEN_OF_MAC_TABLE \<and> oTID e < NUM_OF_TID"

definition ori_ok :: "ba_ori_entry list \<Rightarrow> mac_table_entry list \<Rightarrow> u32 \<Rightarrow> u32 \<Rightarrow> bool" where
  "ori_ok xs M n d \<longleftrightarrow> length xs = MAX_LEN_OF_BA_ORI_TABLE
     \<and> linked ori_used ori_key xs (slots BAOriWcidArray M) (unat n)
     \<and> (\<forall>e \<in> set xs. ori_entry_ok e)
     \<and> unat d = length (filter (\<lambda>e. ORI_BA_Status e = Originator_Done) xs)
     \<and> (\<forall>w < MAX_LEN_OF_MAC_TABLE. \<forall>t < NUM_OF_TID. bit (TXBAbitmap (M ! w)) t
          \<longleftrightarrow> slots BAOriWcidArray M (w, t) \<noteq> 0
            \<and> ORI_BA_Status (xs ! slots BAOriWcidArray M (w, t)) = Originator_Done)"

definition rec_entry_ok :: "ba_rec_session \<Rightarrow> bool" where
  "rec_entry_ok s \<longleftrightarrow> (REC_BA_Status s = Recipient_NONE \<or> REC_BA_Status s = Recipient_Accept)
     \<and> list_ok (rlist (reorder s)) \<and> (REC_BA_Status s = Recipient_NONE \<longrightarrow> chain (rlist (reorder s)) = [])"

definition rec_ok :: "ba_rec_session list \<Rightarrow> mac_table_entry list \<Rightarrow> u32 \<Rightarrow> reordering_list \<Rightarrow> bool" where
  "rec_ok xs M n p \<longleftrightarrow> length xs = MAX_LEN_OF_BA_REC_TABLE
     \<and> linked rec_used rec_key xs (slots BARecWcidArray M) (unat n)
     \<and> (\<forall>s \<in> set xs. rec_entry_ok s)
     \<and> (\<forall>w < MAX_LEN_OF_MAC_TABLE. \<forall>t < NUM_OF_TID. bit (RXBAbitmap (M ! w)) t
          \<longleftrightarrow> slots BARecWcidArray M (w, t) \<noteq> 0)
     \<and> list_ok p"

definition table_ok :: "ba_table \<Rightarrow> bool" where
  "table_ok T \<longleftrightarrow> mac_ok (MacTab T)
     \<and> ori_ok (BAOriEntry T) (MacTab T) (numAsOriginator T) (numDoneOriginator T)
     \<and> rec_ok (BARecEntry T) (MacTab T) (numAsRecipient T) (mpdu_blk_pool T)"

section \<open>Bits and counters\<close>

lemma bit_set: "t < 16 \<Longrightarrow> bit (x OR push_bit t 1 :: u16) s \<longleftrightarrow> bit x s \<or> s = t"
  by (auto simp: bit_simps)

lemma bit_clear: "s < 16 \<Longrightarrow> bit (x AND NOT (push_bit t 1) :: u16) s \<longleftrightarrow> bit x s \<and> s \<noteq> t"
  by (auto simp: bit_simps)

lemmas bit_set_clear = bit_set bit_clear
  bit_set [unfolded push_bit_eq_mult mult_1] bit_clear [unfolded push_bit_eq_mult mult_1]

lemma unat_inc: "unat (n :: u32) < 128 \<Longrightarrow> unat (n + 1) = Suc (unat n)"
  by (simp add: unat_word_ariths)

lemma unat_dec: "0 < unat (n :: u32) \<Longrightarrow> unat (n - 1) = unat n - 1"
  by (metis One_nat_def Suc_leI unat_1 unat_sub word_le_nat_alt)

lemma table_sizes: "MAX_LEN_OF_BA_ORI_TABLE = 128" "MAX_LEN_OF_BA_REC_TABLE = 128"
  "MAX_LEN_OF_MAC_TABLE = 32" "NUM_OF_TID = 8"
  by (simp_all add: MAX_LEN_OF_BA_ORI_TABLE_def MAX_LEN_OF_BA_REC_TABLE_def MAX_LEN_OF_MAC_TABLE_def NUM_OF_TID_def)

section \<open>The originator's table\<close>

abbreviation ori_slot :: "mac_table_entry list \<Rightarrow> nat \<times> nat \<Rightarrow> nat" where
  "ori_slot M \<equiv> slots BAOriWcidArray M"

abbreviation is_done :: "ba_ori_entry \<Rightarrow> bool" where
  "is_done e \<equiv> ORI_BA_Status e = Originator_Done"

lemma ori_okD:
  assumes "ori_ok xs M n d"
  shows "length xs = 128" and "linked ori_used ori_key xs (ori_slot M) (unat n)"
    and "i < 128 \<Longrightarrow> ori_entry_ok (xs ! i)"
    and "unat d = length (filter is_done xs)"
    and "w < 32 \<Longrightarrow> t < 8 \<Longrightarrow> bit (TXBAbitmap (M ! w)) t \<longleftrightarrow> ori_slot M (w, t) \<noteq> 0 \<and> is_done (xs ! ori_slot M (w, t))"
  using assms nth_mem [of i xs] unfolding ori_ok_def table_sizes by auto

lemma ori_okI:
  assumes "length xs = 128" and "linked ori_used ori_key xs (ori_slot M) (unat n)"
    and "\<And>i. i < 128 \<Longrightarrow> ori_entry_ok (xs ! i)"
    and "unat d = length (filter is_done xs)"
    and "\<And>w t. w < 32 \<Longrightarrow> t < 8 \<Longrightarrow> bit (TXBAbitmap (M ! w)) t
      \<longleftrightarrow> ori_slot M (w, t) \<noteq> 0 \<and> is_done (xs ! ori_slot M (w, t))"
  shows "ori_ok xs M n d"
  using assms unfolding ori_ok_def table_sizes by (auto simp: set_conv_nth)

lemma ori_counters:
  assumes "ori_ok xs M n d"
  shows "unat n \<le> 127" and "unat d \<le> 128"
  using ori.counter_bound [OF ori_okD(2) [OF assms]] ori_okD(1,4) [OF assms]
    length_filter_le [of is_done xs] by force+

lemma ori_ok_mac:
  assumes "ori_ok xs M n d" and "BAOriWcidArray m' = BAOriWcidArray (M ! w)"
    and "TXBAbitmap m' = TXBAbitmap (M ! w)"
  shows "ori_ok xs (M[w := m']) n d"
proof (rule ori_okI)
  fix w' t :: nat
  assume "w' < 32" "t < 8"
  moreover have "TXBAbitmap (M[w := m'] ! w') = TXBAbitmap (M ! w')"
    using assms(3) by (cases "w < length M"; cases "w = w'") (simp_all add: list_update_beyond)
  ultimately show "bit (TXBAbitmap (M[w := m'] ! w')) t
      \<longleftrightarrow> ori_slot (M[w := m']) (w', t) \<noteq> 0 \<and> is_done (xs ! ori_slot (M[w := m']) (w', t))"
    using ori_okD(5) [OF assms(1)] by (simp add: slots_same [where A = BAOriWcidArray, OF assms(2)])
qed (use ori_okD [OF assms(1)] in \<open>simp_all add: slots_same [where A = BAOriWcidArray, OF assms(2)]\<close>)

lemma ori_ok_keep:
  assumes "ori_ok xs M n d" and "i < 128" and "ORI_BA_Status e = ORI_BA_Status (xs ! i)"
    and "ori_key e = ori_key (xs ! i)"
  shows "ori_ok (xs[i := e]) M n d"
proof (rule ori_okI)
  note ok = ori_okD [OF assms(1)]
  show "length (xs[i := e]) = 128" using ok(1) by simp
  show "linked ori_used ori_key (xs[i := e]) (ori_slot M) (unat n)"
    using ori.keep [OF ok(2)] assms(2-4) ok(1) by simp
  show "ori_entry_ok (xs[i := e] ! j)" if "j < 128" for j
    using ok(3) [OF that] assms(3,4) ok(1) that by (cases "j = i") (simp_all add: ori_entry_ok_def)
  show "unat d = length (filter is_done (xs[i := e]))"
    using ok(1,4) length_filter_update [of i xs is_done e] assms(2,3) by (simp split: if_splits)
  show "bit (TXBAbitmap (M ! w)) t \<longleftrightarrow> ori_slot M (w, t) \<noteq> 0 \<and> is_done (xs[i := e] ! ori_slot M (w, t))"
    if "w < 32" "t < 8" for w t
    using ok(5) [OF that] ok(1) assms(2,3) by (cases "ori_slot M (w, t) = i") simp_all
qed

lemma ori_ok_assign:
  assumes "ori_ok xs M n d" and "mac_ok M" and "w < 32" and "t < 8" and "ori_slot M (w, t) = 0"
    and "0 < i" and "i < 128" and "ORI_BA_Status (xs ! i) = Originator_NONE"
    and "ORI_BA_Status e = Originator_WaitRes" and "ori_key e = (w, t)"
    and "BAOriWcidArray m' = (BAOriWcidArray (M ! w))[t := i]" and "TXBAbitmap m' = TXBAbitmap (M ! w)"
  shows "ori_ok (xs[i := e]) (M[w := m']) (n + 1) d"
proof (rule ori_okI)
  note ok = ori_okD [OF assms(1)]
  have M: "length M = 32" "t < length (BAOriWcidArray (M ! w))"
    using assms(2-4) by (simp_all add: mac_ok_def table_sizes)
  have s: "ori_slot (M[w := m']) = (ori_slot M)((w, t) := i)"
    using assms(3) M assms(11) by (intro slots_update) simp_all
  have free: "\<not> ori_used (xs ! i)" using assms(8) by simp
  show "length (xs[i := e]) = 128" using ok(1) by simp
  show "linked ori_used ori_key (xs[i := e]) (ori_slot (M[w := m'])) (unat (n + 1))"
    unfolding s using ori.assign [OF ok(2) assms(5,6) _ free] assms(7,9,10) ok(1) ori_counters(1) [OF assms(1)]
    by (simp add: unat_inc)
  show "ori_entry_ok (xs[i := e] ! j)" if "j < 128" for j
    using ok(3) [OF that] that assms(3,4,9,10) ok(1) by (cases "j = i") (simp_all add: ori_entry_ok_def table_sizes)
  show "unat d = length (filter is_done (xs[i := e]))"
    using ok(1,4) length_filter_update [of i xs is_done e] assms(7-9) by simp
  show "bit (TXBAbitmap (M[w := m'] ! w')) t' \<longleftrightarrow> ori_slot (M[w := m']) (w', t') \<noteq> 0
      \<and> is_done (xs[i := e] ! ori_slot (M[w := m']) (w', t'))" if "w' < 32" "t' < 8" for w' t'
  proof (cases "(w', t') = (w, t)")
    case True
    then show ?thesis
      unfolding s using ok(5) [OF that] assms(3,5,7,9,12) M ok(1) by simp
  next
    case False
    then have "ori_slot M (w', t') \<noteq> i \<or> i = 0"
      using ori.slot_entry(2) [OF ok(2), of "(w', t')"] free by auto
    moreover have "TXBAbitmap (M[w := m'] ! w') = TXBAbitmap (M ! w')"
      using assms(12) M(1) assms(3) by (cases "w' = w") simp_all
    moreover have "((ori_slot M)((w, t) := i)) (w', t') = ori_slot M (w', t')" using False by auto
    ultimately show ?thesis unfolding s using ok(5) [OF that] assms(6) by simp
  qed
qed

lemma ori_ok_done:
  assumes "ori_ok xs M n d" and "mac_ok M" and "w < 32" and "t < 8" and "ori_slot M (w, t) = i" and "i \<noteq> 0"
    and "ORI_BA_Status (xs ! i) = Originator_WaitRes" and "is_done e" and "ori_key e = (w, t)"
    and "BAOriWcidArray m' = BAOriWcidArray (M ! w)"
    and "TXBAbitmap m' = TXBAbitmap (M ! w) OR push_bit t 1"
  shows "ori_ok (xs[i := e]) (M[w := m']) n (d + 1)"
proof (rule ori_okI)
  note ok = ori_okD [OF assms(1)]
  have M: "length M = 32" using assms(2) by (simp add: mac_ok_def table_sizes)
  have s: "ori_slot (M[w := m']) = ori_slot M" using assms(10) by (rule slots_same)
  have i: "i < 128" "ori_key (xs ! i) = (w, t)"
    using ori.slot_entry [OF ok(2), of "(w, t)"] assms(5,6) ok(1) by simp_all
  show "length (xs[i := e]) = 128" using ok(1) by simp
  show "linked ori_used ori_key (xs[i := e]) (ori_slot (M[w := m'])) (unat n)"
    unfolding s using ori.keep [OF ok(2)] assms(7-9) i ok(1) by simp
  show "ori_entry_ok (xs[i := e] ! j)" if "j < 128" for j
    using ok(3) [OF that] that assms(3,4,8,9) ok(1) by (cases "j = i") (simp_all add: ori_entry_ok_def table_sizes)
  have f: "length (filter is_done (xs[i := e])) = Suc (unat d)"
    using ok(1,4) length_filter_update [of i xs is_done e] assms(7,8) i by simp
  moreover have "length (filter is_done (xs[i := e])) \<le> 128"
    using length_filter_le [of is_done "xs[i := e]"] ok(1) by simp
  ultimately show "unat (d + 1) = length (filter is_done (xs[i := e]))" by (simp add: unat_inc)
  show "bit (TXBAbitmap (M[w := m'] ! w')) t' \<longleftrightarrow> ori_slot (M[w := m']) (w', t') \<noteq> 0
      \<and> is_done (xs[i := e] ! ori_slot (M[w := m']) (w', t'))" if "w' < 32" "t' < 8" for w' t'
  proof (cases "(w', t') = (w, t)")
    case True
    then show ?thesis unfolding s using assms(3-6,8,11) M i ok(1) by (simp add: bit_set_clear)
  next
    case False
    have "ori_slot M (w', t') \<noteq> i"
    proof
      assume "ori_slot M (w', t') = i"
      then have "ori_key (xs ! i) = (w', t')"
        using ori.slot_entry(3) [OF ok(2), of "(w', t')"] assms(6) by simp
      then show False using False i by simp
    qed
    moreover have "bit (TXBAbitmap (M[w := m'] ! w')) t' = bit (TXBAbitmap (M ! w')) t'"
      using assms(3,4,11) M False by (cases "w' = w") (auto simp: bit_set_clear)
    ultimately show ?thesis unfolding s using ok(5) [OF that] by simp
  qed
qed

lemma ori_ok_free:
  assumes "ori_ok xs M n d" and "mac_ok M" and "i < 128" and "ori_used (xs ! i)"
    and "ori_key (xs ! i) = (w, t)" and "w < 32" and "t < 8"
    and "e = (xs ! i)\<lparr>ORI_BA_Status := Originator_NONE, Token := 0\<rparr>"
    and "BAOriWcidArray m' = (BAOriWcidArray (M ! w))[t := 0]"
    and "TXBAbitmap m' = (if is_done (xs ! i) then TXBAbitmap (M ! w) AND NOT (push_bit t 1) else TXBAbitmap (M ! w))"
  shows "ori_ok (xs[i := e]) (M[w := m']) (n - 1) (if is_done (xs ! i) then d - 1 else d)"
proof (rule ori_okI)
  note ok = ori_okD [OF assms(1)]
  have M: "length M = 32" "t < length (BAOriWcidArray (M ! w))"
    using assms(2,6,7) by (simp_all add: mac_ok_def table_sizes)
  have s: "ori_slot (M[w := m']) = (ori_slot M)((w, t) := 0)"
    using assms(6,9) M by (intro slots_update) simp_all
  have slot: "ori_slot M (w, t) = i" "i \<noteq> 0"
    using ori.entry_slot [OF ok(2), of i] assms(3-5) ok(1) by simp_all
  have len: "i < length xs" using assms(3) ok(1) by simp
  note free = ori.drop_entry [OF ok(2) len assms(4)]
  show "length (xs[i := e]) = 128" using ok(1) by simp
  show "linked ori_used ori_key (xs[i := e]) (ori_slot (M[w := m'])) (unat (n - 1))"
    unfolding s unat_dec [OF free(2)] using free(1) assms(5,8) by simp
  show "ori_entry_ok (xs[i := e] ! j)" if "j < 128" for j
    using ok(3) [OF that] that assms(8) ok(1) by (cases "j = i") (simp_all add: ori_entry_ok_def)
  have f: "length (filter is_done (xs[i := e])) + (if is_done (xs ! i) then 1 else 0) = unat d"
    using ok(4) length_filter_update [OF len, of is_done e] assms(8) by simp
  then show "unat (if is_done (xs ! i) then d - 1 else d) = length (filter is_done (xs[i := e]))"
    by (cases "is_done (xs ! i)") (simp_all add: unat_dec)
  show "bit (TXBAbitmap (M[w := m'] ! w')) t' \<longleftrightarrow> ori_slot (M[w := m']) (w', t') \<noteq> 0
      \<and> is_done (xs[i := e] ! ori_slot (M[w := m']) (w', t'))" if "w' < 32" "t' < 8" for w' t'
  proof (cases "(w', t') = (w, t)")
    case True
    then show ?thesis
      unfolding s using ok(5) [OF that] assms(6,7,10) M slot by (auto simp: bit_set_clear)
  next
    case False
    have "ori_slot M (w', t') \<noteq> i"
    proof
      assume "ori_slot M (w', t') = i"
      then have "ori_key (xs ! i) = (w', t')"
        using ori.slot_entry(3) [OF ok(2), of "(w', t')"] slot(2) by simp
      then show False using False assms(5) by simp
    qed
    moreover have "bit (TXBAbitmap (M[w := m'] ! w')) t' = bit (TXBAbitmap (M ! w')) t'"
      using assms(6,7,10) M(1) False that by (cases "w' = w") (auto simp: bit_set_clear)
    moreover have "((ori_slot M)((w, t) := 0)) (w', t') = ori_slot M (w', t')" using False by auto
    ultimately show ?thesis unfolding s using ok(5) [OF that] by simp
  qed
qed

section \<open>The recipient's table\<close>

abbreviation rec_slot :: "mac_table_entry list \<Rightarrow> nat \<times> nat \<Rightarrow> nat" where
  "rec_slot M \<equiv> slots BARecWcidArray M"

lemma rec_okD:
  assumes "rec_ok xs M n p"
  shows "length xs = 128" and "linked rec_used rec_key xs (rec_slot M) (unat n)"
    and "i < 128 \<Longrightarrow> rec_entry_ok (xs ! i)"
    and "w < 32 \<Longrightarrow> t < 8 \<Longrightarrow> bit (RXBAbitmap (M ! w)) t \<longleftrightarrow> rec_slot M (w, t) \<noteq> 0"
    and "list_ok p"
  using assms nth_mem [of i xs] unfolding rec_ok_def table_sizes by auto

lemma rec_okI:
  assumes "length xs = 128" and "linked rec_used rec_key xs (rec_slot M) (unat n)"
    and "\<And>i. i < 128 \<Longrightarrow> rec_entry_ok (xs ! i)"
    and "\<And>w t. w < 32 \<Longrightarrow> t < 8 \<Longrightarrow> bit (RXBAbitmap (M ! w)) t \<longleftrightarrow> rec_slot M (w, t) \<noteq> 0"
    and "list_ok p"
  shows "rec_ok xs M n p"
  using assms unfolding rec_ok_def table_sizes by (auto simp: set_conv_nth)

lemma rec_counter: "rec_ok xs M n p \<Longrightarrow> unat n \<le> 127"
  using rcp.counter_bound [OF rec_okD(2)] rec_okD(1) by fastforce

lemma rec_ok_mac:
  assumes "rec_ok xs M n p" and "BARecWcidArray m' = BARecWcidArray (M ! w)"
    and "RXBAbitmap m' = RXBAbitmap (M ! w)"
  shows "rec_ok xs (M[w := m']) n p"
proof (rule rec_okI)
  fix w' t :: nat
  assume "w' < 32" "t < 8"
  moreover have "RXBAbitmap (M[w := m'] ! w') = RXBAbitmap (M ! w')"
    using assms(3) by (cases "w < length M"; cases "w = w'") (simp_all add: list_update_beyond)
  ultimately show "bit (RXBAbitmap (M[w := m'] ! w')) t \<longleftrightarrow> rec_slot (M[w := m']) (w', t) \<noteq> 0"
    using rec_okD(4) [OF assms(1)] by (simp add: slots_same [where A = BARecWcidArray, OF assms(2)])
qed (use rec_okD [OF assms(1)] in \<open>simp_all add: slots_same [where A = BARecWcidArray, OF assms(2)]\<close>)

lemma rec_ok_keep:
  assumes "rec_ok xs M n p" and "i < 128" and "rec_used s = rec_used (xs ! i)"
    and "rec_key s = rec_key (xs ! i)" and "rec_entry_ok s" and "list_ok p'"
  shows "rec_ok (xs[i := s]) M n p'"
proof (rule rec_okI)
  note ok = rec_okD [OF assms(1)]
  show "length (xs[i := s]) = 128" using ok(1) by simp
  show "linked rec_used rec_key (xs[i := s]) (rec_slot M) (unat n)"
    using rcp.keep [OF ok(2)] assms(2-4) ok(1) by simp
  show "rec_entry_ok (xs[i := s] ! j)" if "j < 128" for j
    using ok(3) that assms(5) ok(1) by (cases "j = i") simp_all
qed (use rec_okD(4) [OF assms(1)] assms(6) in simp_all)

lemma rec_ok_assign:
  assumes "rec_ok xs M n p" and "mac_ok M" and "w < 32" and "t < 8" and "rec_slot M (w, t) = 0"
    and "0 < i" and "i < 128" and "REC_BA_Status (xs ! i) = Recipient_NONE"
    and "rec_used s" and "rec_key s = (w, t)" and "rec_entry_ok s"
    and "BARecWcidArray m' = (BARecWcidArray (M ! w))[t := i]"
    and "RXBAbitmap m' = RXBAbitmap (M ! w) OR push_bit t 1"
  shows "rec_ok (xs[i := s]) (M[w := m']) (n + 1) p"
proof (rule rec_okI)
  note ok = rec_okD [OF assms(1)]
  have M: "length M = 32" "t < length (BARecWcidArray (M ! w))"
    using assms(2-4) by (simp_all add: mac_ok_def table_sizes)
  have s: "rec_slot (M[w := m']) = (rec_slot M)((w, t) := i)"
    using assms(3) M assms(12) by (intro slots_update) simp_all
  have free: "\<not> rec_used (xs ! i)" using assms(8) by simp
  show "length (xs[i := s]) = 128" using ok(1) by simp
  show "linked rec_used rec_key (xs[i := s]) (rec_slot (M[w := m'])) (unat (n + 1))"
    unfolding s using rcp.assign [OF ok(2) assms(5,6) _ free assms(9,10)] assms(7) ok(1) rec_counter [OF assms(1)]
    by (simp add: unat_inc)
  show "rec_entry_ok (xs[i := s] ! j)" if "j < 128" for j
    using ok(3) that assms(11) ok(1) by (cases "j = i") simp_all
  show "bit (RXBAbitmap (M[w := m'] ! w')) t' \<longleftrightarrow> rec_slot (M[w := m']) (w', t') \<noteq> 0"
    if "w' < 32" "t' < 8" for w' t'
    unfolding s using ok(4) [OF that] assms(3,4,6,13) M(1) by (cases "w' = w") (auto simp: bit_set_clear)
  show "list_ok p" by (rule ok(5))
qed

lemma rec_ok_free:
  assumes "rec_ok xs M n p" and "mac_ok M" and "i < 128" and "rec_used (xs ! i)"
    and "rec_key (xs ! i) = (w, t)" and "w < 32" and "t < 8"
    and "REC_BA_Status s = Recipient_NONE" and "rec_entry_ok s" and "list_ok p'"
    and "BARecWcidArray m' = (BARecWcidArray (M ! w))[t := 0]"
    and "RXBAbitmap m' = RXBAbitmap (M ! w) AND NOT (push_bit t 1)"
  shows "rec_ok (xs[i := s]) (M[w := m']) (n - 1) p'"
proof (rule rec_okI)
  note ok = rec_okD [OF assms(1)]
  have M: "length M = 32" "t < length (BARecWcidArray (M ! w))"
    using assms(2,6,7) by (simp_all add: mac_ok_def table_sizes)
  have s: "rec_slot (M[w := m']) = (rec_slot M)((w, t) := 0)"
    using assms(6,11) M by (intro slots_update) simp_all
  have len: "i < length xs" using assms(3) ok(1) by simp
  note free = rcp.drop_entry [OF ok(2) len assms(4)]
  show "length (xs[i := s]) = 128" using ok(1) by simp
  have "linked rec_used rec_key ((xs[i := (xs ! i)\<lparr>REC_BA_Status := Recipient_NONE\<rparr>])[i := s])
      (rec_slot (M[w := m'])) (unat (n - 1))"
    unfolding s unat_dec [OF free(2)]
    by (rule rcp.keep) (use free(1) assms(5,8) len in \<open>simp_all add: nth_list_update\<close>)
  then show "linked rec_used rec_key (xs[i := s]) (rec_slot (M[w := m'])) (unat (n - 1))" by simp
  show "rec_entry_ok (xs[i := s] ! j)" if "j < 128" for j
    using ok(3) that assms(9) ok(1) by (cases "j = i") simp_all
  show "bit (RXBAbitmap (M[w := m'] ! w')) t' \<longleftrightarrow> rec_slot (M[w := m']) (w', t') \<noteq> 0"
    if "w' < 32" "t' < 8" for w' t'
    unfolding s using ok(4) [OF that] assms(6,7,12) M(1) that by (cases "w' = w") (auto simp: bit_set_clear)
  show "list_ok p'" by (rule assms(10))
qed

end
