(* ===== verification/Ba_Session_Ok.thy ===== *)
theory Ba_Session_Ok
  imports Ba_Links
begin

text \<open>
  Every operation on the block-ack tables keeps their invariant and returns without an access
  outside an array, as long as the priority in a frame is below eight.
\<close>

section \<open>Tables\<close>

lemma mac_ok_update:
  assumes "mac_ok M" and "Aid m' = Aid (M ! w)" and "length (TxSeq m') = length (TxSeq (M ! w))"
    and "length (BAOriWcidArray m') = length (BAOriWcidArray (M ! w))"
    and "length (BARecWcidArray m') = length (BARecWcidArray (M ! w))"
  shows "mac_ok (M[w := m'])"
  using assms unfolding mac_ok_def
  by (cases "w < length M") (auto simp: nth_list_update list_update_beyond)

lemma mac_okD:
  assumes "mac_ok M" and "w < 32"
  shows "length M = 32" and "Aid (M ! w) = w" and "length (TxSeq (M ! w)) = 8"
    and "length (BAOriWcidArray (M ! w)) = 8" and "length (BARecWcidArray (M ! w)) = 8"
  using assms by (simp_all add: mac_ok_def table_sizes)

lemma table_okD:
  assumes "table_ok T"
  shows "mac_ok (MacTab T)"
    and "ori_ok (BAOriEntry T) (MacTab T) (numAsOriginator T) (numDoneOriginator T)"
    and "rec_ok (BARecEntry T) (MacTab T) (numAsRecipient T) (mpdu_blk_pool T)"
  using assms by (simp_all add: table_ok_def)

text \<open>What a station's slot holds is an entry of this station and priority.\<close>

lemma ori_slot_ok:
  assumes "table_ok T" and "w < 32" and "t < 8" and "BAOriWcidArray (MacTab T ! w) ! t = i" and "i \<noteq> 0"
  shows "i < 128" and "ori_used (BAOriEntry T ! i)" and "oWcid (BAOriEntry T ! i) = w"
    and "oTID (BAOriEntry T ! i) = t" and "ori_slot (MacTab T) (w, t) = i"
proof -
  note ok = table_okD [OF assms(1)]
  have s: "ori_slot (MacTab T) (w, t) = i"
    using slots_at [of w "MacTab T" t BAOriWcidArray] mac_okD [OF ok(1) assms(2)] assms(2-4) by simp
  with ori.slot_entry [OF ori_okD(2) [OF ok(2)], of "(w, t)"] ori_okD(1) [OF ok(2)] assms(5)
  show "i < 128" "ori_used (BAOriEntry T ! i)" "oWcid (BAOriEntry T ! i) = w"
    "oTID (BAOriEntry T ! i) = t" "ori_slot (MacTab T) (w, t) = i" by simp_all
qed

lemma rec_slot_ok:
  assumes "table_ok T" and "w < 32" and "t < 8" and "BARecWcidArray (MacTab T ! w) ! t = i" and "i \<noteq> 0"
  shows "i < 128" and "REC_BA_Status (BARecEntry T ! i) = Recipient_Accept" and "rWcid (BARecEntry T ! i) = w"
    and "rTID (BARecEntry T ! i) = t" and "rec_slot (MacTab T) (w, t) = i"
proof -
  note ok = table_okD [OF assms(1)]
  have s: "rec_slot (MacTab T) (w, t) = i"
    using slots_at [of w "MacTab T" t BARecWcidArray] mac_okD [OF ok(1) assms(2)] assms(2-4) by simp
  note e = rcp.slot_entry [OF rec_okD(2) [OF ok(3)], of "(w, t)", unfolded s, OF assms(5)]
  have i: "i < 128" using e(1) rec_okD(1) [OF ok(3)] by simp
  moreover have "REC_BA_Status (BARecEntry T ! i) = Recipient_Accept"
    using rec_okD(3) [OF ok(3) i] e(2) by (auto simp: rec_entry_ok_def)
  ultimately show "i < 128" "REC_BA_Status (BARecEntry T ! i) = Recipient_Accept"
    "rWcid (BARecEntry T ! i) = w" "rTID (BARecEntry T ! i) = t" "rec_slot (MacTab T) (w, t) = i"
    using e(3) s by simp_all
qed

text \<open>Changes that do not touch what the invariant speaks of.\<close>

lemma table_ok_upd_mac:
  assumes "table_ok T" and "\<And>m. Aid (f m) = Aid m" and "\<And>m. TxSeq (f m) = TxSeq m"
    and "\<And>m. BAOriWcidArray (f m) = BAOriWcidArray m" and "\<And>m. BARecWcidArray (f m) = BARecWcidArray m"
    and "\<And>m. TXBAbitmap (f m) = TXBAbitmap m" and "\<And>m. RXBAbitmap (f m) = RXBAbitmap m"
  shows "table_ok (upd_mac w f T)"
  using table_okD [OF assms(1)] assms(2-)
  by (auto simp: table_ok_def upd_mac_def intro!: mac_ok_update ori_ok_mac rec_ok_mac)

lemma table_ok_upd_ori:
  assumes "table_ok T" and "i < 128" and "\<And>e. ORI_BA_Status (f e) = ORI_BA_Status e"
    and "\<And>e. oWcid (f e) = oWcid e" and "\<And>e. oTID (f e) = oTID e"
  shows "table_ok (upd_ori i f T)"
  using table_okD [OF assms(1)] assms(2-)
  by (auto simp: table_ok_def upd_ori_def intro!: ori_ok_keep)

lemma table_ok_upd_rec:
  assumes "table_ok T" and "i < 128" and "\<And>s. REC_BA_Status (f s) = REC_BA_Status s"
    and "\<And>s. rWcid (f s) = rWcid s" and "\<And>s. rTID (f s) = rTID s" and "\<And>s. rlist (reorder (f s)) = rlist (reorder s)"
  shows "table_ok (upd_rec i f T)"
proof -
  note ok = table_okD [OF assms(1)]
  have "rec_entry_ok (f (BARecEntry T ! i))"
    using rec_okD(3) [OF ok(3) assms(2)] assms(3,6) by (simp add: rec_entry_ok_def)
  then show ?thesis
    using ok rec_ok_keep [OF ok(3) assms(2), of "f (BARecEntry T ! i)"] rec_okD(5) [OF ok(3)] assms(3-5)
    by (simp add: table_ok_def upd_rec_def)
qed

section \<open>The originator\<close>

lemma BATableFreeOriEntry_ok:
  assumes "table_ok T"
  shows "\<exists>T'. BATableFreeOriEntry i T = Some T' \<and> table_ok T'"
proof (cases "i = 0 \<or> i \<ge> 128 \<or> \<not> ori_used (BAOriEntry T ! i)")
  case True
  then show ?thesis using assms by (auto simp: BATableFreeOriEntry_def table_sizes Let_def)
next
  case False
  note ok = table_okD [OF assms]
  let ?e = "BAOriEntry T ! i"
  let ?w = "oWcid ?e" and ?t = "oTID ?e" and ?M = "MacTab T"
  let ?m = "(if is_done ?e then (?M ! ?w)\<lparr>BAOriWcidArray := (BAOriWcidArray (?M ! ?w))[?t := 0],
        TXBAbitmap := TXBAbitmap (?M ! ?w) AND NOT (push_bit ?t 1)\<rparr>
      else (?M ! ?w)\<lparr>BAOriWcidArray := (BAOriWcidArray (?M ! ?w))[?t := 0]\<rparr>)"
  let ?x = "?e\<lparr>ORI_BA_Status := Originator_NONE, Token := 0\<rparr>"
  let ?T = "T\<lparr>MacTab := ?M[?w := ?m], BAOriEntry := (BAOriEntry T)[i := ?x],
      numAsOriginator := numAsOriginator T - 1,
      numDoneOriginator := (if is_done ?e then numDoneOriginator T - 1 else numDoneOriginator T)\<rparr>"
  have i: "i \<noteq> 0" "i < 128" "ori_used ?e" using False by auto
  have k: "?w < 32" "?t < 8" using ori_okD(3) [OF ok(2) i(2)] by (simp_all add: ori_entry_ok_def table_sizes)
  have "BATableFreeOriEntry i T = Some ?T"
    using i k mac_okD(1) [OF ok(1) k(1)] by (simp add: BATableFreeOriEntry_def table_sizes upd_mac_def upd_ori_def Let_def)
  moreover have "ori_ok (BAOriEntry ?T) (MacTab ?T) (numAsOriginator ?T) (numDoneOriginator ?T)"
    using ori_ok_free [OF ok(2,1) i(2,3) refl k refl, of ?m] by simp
  moreover have "mac_ok (MacTab ?T)" using ok(1) by (simp add: mac_ok_update)
  moreover have "rec_ok (BARecEntry ?T) (MacTab ?T) (numAsRecipient ?T) (mpdu_blk_pool ?T)"
    using rec_ok_mac [OF ok(3), of ?m ?w] by simp
  ultimately show ?thesis by (auto simp: table_ok_def)
qed

lemma BATableAllocOriEntry_ok:
  assumes "table_ok T"
  shows "numAsOriginator T = 127 \<and> BATableAllocOriEntry T = (None, None, T)
    \<or> (\<exists>i. 0 < i \<and> i < 128 \<and> ORI_BA_Status (BAOriEntry T ! i) = Originator_NONE
        \<and> BATableAllocOriEntry T = (Some i, Some i, T\<lparr>numAsOriginator := numAsOriginator T + 1,
            BAOriEntry := (BAOriEntry T)[i := (BAOriEntry T ! i)\<lparr>ORI_BA_Status := Originator_USED\<rparr>]\<rparr>))"
proof (cases "numAsOriginator T \<ge> 127")
  case True
  moreover have "unat (numAsOriginator T) \<le> 127" by (rule ori_counters(1) [OF table_okD(2) [OF assms]])
  ultimately have "numAsOriginator T = 127" by (simp add: word_le_nat_alt word_unat_eq_iff)
  then show ?thesis by (simp add: BATableAllocOriEntry_def table_sizes)
next
  case False
  note ok = ori_okD [OF table_okD(2) [OF assms]]
  have "unat (numAsOriginator T) < length (BAOriEntry T) - 1"
    using False ok(1) by (simp add: word_le_nat_alt)
  from ori.free_entry [OF ok(2) this] obtain i where
    "find (\<lambda>i. \<not> ori_used (BAOriEntry T ! i)) [1..<length (BAOriEntry T)] = Some i"
    "0 < i" "i < length (BAOriEntry T)" "\<not> ori_used (BAOriEntry T ! i)" by blast
  then show ?thesis using False ok(1) by (auto simp: BATableAllocOriEntry_def table_sizes)
qed

lemma BAOriSessionSetUp_ok:
  assumes "table_ok T" and "w < 32"
  shows "\<exists>T'. BAOriSessionSetUp cfg w tid TimeOut DelayTime isForced T = Some T' \<and> table_ok T'"
proof -
  note ok = table_okD [OF assms(1)]
  let ?m = "MacTab T ! w"
  let ?Idx = "BAOriWcidArray ?m ! tid"
  consider "tid \<ge> 8 \<or> (\<not> AutoBA cfg \<and> \<not> isForced) \<or> FixedTxMode cfg \<noteq> FIXED_TXMODE_HT"
    | "?Idx \<noteq> 0" "tid < 8" "AutoBA cfg \<or> isForced" "FixedTxMode cfg = FIXED_TXMODE_HT"
    | "?Idx = 0" "tid < 8" "AutoBA cfg \<or> isForced" "FixedTxMode cfg = FIXED_TXMODE_HT"
    by linarith
  then show ?thesis
  proof cases
    case 1
    then show ?thesis using assms by (auto simp: BAOriSessionSetUp_def table_sizes)
  next
    case 2
    have i: "?Idx < 128" "ori_used (BAOriEntry T ! ?Idx)"
      using ori_slot_ok [OF assms(1,2) 2(2) refl 2(1)] by simp_all
    then have "ORI_BA_Status (BAOriEntry T ! ?Idx) \<ge> Originator_WaitRes"
      using ori_okD(3) [OF ok(2) i(1)]
      by (cases "ORI_BA_Status (BAOriEntry T ! ?Idx)") (simp_all add: ori_entry_ok_def less_eq_ORI_BLOCKACK_STATUS_def)
    then show ?thesis
      using 2 i assms by (auto simp: BAOriSessionSetUp_def table_sizes Let_def)
  next
    case 3
    from BATableAllocOriEntry_ok [OF assms(1)] show ?thesis
    proof (elim disjE exE conjE)
      assume "BATableAllocOriEntry T = (None, None, T)"
      then show ?thesis using 3 assms by (auto simp: BAOriSessionSetUp_def table_sizes Let_def)
    next
      fix i
      assume i: "0 < i" "i < 128" "ORI_BA_Status (BAOriEntry T ! i) = Originator_NONE"
        and alloc: "BATableAllocOriEntry T = (Some i, Some i, T\<lparr>numAsOriginator := numAsOriginator T + 1,
            BAOriEntry := (BAOriEntry T)[i := (BAOriEntry T ! i)\<lparr>ORI_BA_Status := Originator_USED\<rparr>]\<rparr>)"
      let ?delay = "if bit (BADeclineBitmap ?m) tid \<and> \<not> isForced then 3000 else DelayTime"
      let ?e = "(BAOriEntry T ! i)\<lparr>ORI_BA_Status := Originator_WaitRes, oWcid := Aid ?m mod 256,
            oBAWinSize := RxBAWinLimit cfg, oSequence := TxSeq ?m ! tid, Token := 1,
            oTID := tid, oTimeOutValue := TimeOut,
            ORIBATimer := RTMPSetTimer (halt_in_progress cfg) ?delay
              (if \<not> bit (TXBAbitmap ?m) tid then RTMPInitTimer False (ORIBATimer (BAOriEntry T ! i))
               else RTMPCancelTimer (ORIBATimer (BAOriEntry T ! i)))\<rparr>"
      let ?m' = "?m\<lparr>BAOriWcidArray := (BAOriWcidArray ?m)[tid := i]\<rparr>"
      let ?T = "T\<lparr>numAsOriginator := numAsOriginator T + 1, BAOriEntry := (BAOriEntry T)[i := ?e],
          MacTab := (MacTab T)[w := ?m']\<rparr>"
      have len: "i < length (BAOriEntry T)" using ori_okD(1) [OF ok(2)] i(2) by simp
      have used: "\<not> Originator_USED \<ge> Originator_WaitRes" by (simp add: less_eq_ORI_BLOCKACK_STATUS_def)
      have "BAOriSessionSetUp cfg w tid TimeOut DelayTime isForced T = Some ?T"
        using 3 assms(2) i(2) len used
        by (auto simp: BAOriSessionSetUp_def table_sizes Let_def alloc upd_mac_def upd_ori_def)
      moreover have s: "ori_slot (MacTab T) (w, tid) = 0"
        using slots_at [of w "MacTab T" tid BAOriWcidArray] mac_okD [OF ok(1) assms(2)] assms(2) 3 by simp
      moreover have "ori_ok (BAOriEntry ?T) (MacTab ?T) (numAsOriginator ?T) (numDoneOriginator ?T)"
        using ori_ok_assign [OF ok(2,1) assms(2) 3(2) s i, of ?e ?m'] mac_okD(2) [OF ok(1) assms(2)] assms(2) by simp
      moreover have "mac_ok (MacTab ?T)" using ok(1) by (simp add: mac_ok_update)
      moreover have "rec_ok (BARecEntry ?T) (MacTab ?T) (numAsRecipient ?T) (mpdu_blk_pool ?T)"
        using rec_ok_mac [OF ok(3), of ?m' w] by simp
      ultimately show ?thesis by (auto simp: table_ok_def)
    qed
  qed
qed

lemma BAOriSessionAdd_ok:
  assumes "table_ok T" and "w < 32" and "TID (Rsp_Parm Msg) < 8"
  shows "\<exists>T' outs. BAOriSessionAdd cfg w Msg T = Some (T', outs) \<and> table_ok T'"
proof -
  note ok = table_okD [OF assms(1)]
  let ?tid = "TID (Rsp_Parm Msg)" and ?m = "MacTab T ! w"
  let ?i = "BAOriWcidArray ?m ! ?tid"
  let ?e = "BAOriEntry T ! ?i"
  show ?thesis
  proof (cases "?i \<noteq> 0 \<and> ORI_BA_Status ?e = Originator_WaitRes")
    case False
    have "?i < 128" using ori_slot_ok(1) [OF assms refl] by (cases "?i = 0") simp_all
    with False show ?thesis
      using assms by (auto simp: BAOriSessionAdd_def table_sizes Let_def)
  next
    case True
    let ?size = "word_of_nat (BufSize (Rsp_Parm Msg)) :: u8"
    let ?win = "BA_MaxWinSizeReasign cfg ?m (min (oBAWinSize ?e) (if ?size > 0 then ?size - 1 else 0))"
    let ?x = "?e\<lparr>oBAWinSize := ?win, oTimeOutValue := get_le16 Msg 31,
          ORI_BA_Status := Originator_Done, oSequence := TxSeq ?m ! ?tid,
          ORIBATimer := (RTMPCancelTimer (ORIBATimer ?e))\<lparr>TimerValue := 0\<rparr>\<rparr>"
    let ?m' = "?m\<lparr>TXBAbitmap := TXBAbitmap ?m OR push_bit ?tid 1\<rparr>"
    let ?T = "T\<lparr>BAOriEntry := (BAOriEntry T)[?i := ?x], numDoneOriginator := numDoneOriginator T + 1,
        MacTab := (MacTab T)[w := ?m']\<rparr>"
    note slot = ori_slot_ok [OF assms refl]
    have i: "?i < 128" "oWcid ?e = w" "oTID ?e = ?tid" "ori_slot (MacTab T) (w, ?tid) = ?i"
      using slot True by simp_all
    have "\<exists>outs. BAOriSessionAdd cfg w Msg T = Some (?T, outs)"
      using True i assms(2,3)
      by (simp add: BAOriSessionAdd_def table_sizes Let_def upd_ori_def upd_mac_def)
    moreover have "ori_ok (BAOriEntry ?T) (MacTab ?T) (numAsOriginator ?T) (numDoneOriginator ?T)"
      using ori_ok_done [OF ok(2,1) assms(2,3) i(4), of ?x ?m'] True i(2,3) by simp
    moreover have "mac_ok (MacTab ?T)" using ok(1) by (simp add: mac_ok_update)
    moreover have "rec_ok (BARecEntry ?T) (MacTab ?T) (numAsRecipient ?T) (mpdu_blk_pool ?T)"
      using rec_ok_mac [OF ok(3), of ?m' w] by simp
    ultimately show ?thesis by (auto simp: table_ok_def)
  qed
qed

lemma BAOriSessionSetupTimeout_ok:
  assumes "table_ok T" and "i < 128"
  shows "\<exists>T' outs. BAOriSessionSetupTimeout cfg i T = Some (T', outs) \<and> table_ok T'"
proof -
  let ?e = "BAOriEntry T ! i"
  have k: "oWcid ?e < 32" "oTID ?e < 8"
    using ori_okD(3) [OF table_okD(2) [OF assms(1)] assms(2)] by (simp_all add: ori_entry_ok_def table_sizes)
  obtain T' where "BATableFreeOriEntry (BAOriWcidArray (MacTab T ! oWcid ?e) ! oTID ?e) T = Some T'" "table_ok T'"
    using BATableFreeOriEntry_ok [OF assms(1)] by blast
  then show ?thesis
    using assms k table_ok_upd_ori [OF assms]
    by (simp add: BAOriSessionSetupTimeout_def table_sizes Let_def)
qed

lemma MlmeDELBAAction_ok: "tid < 8 \<Longrightarrow> \<exists>outs. MlmeDELBAAction T w a tid x = Some outs"
  by (auto simp: MlmeDELBAAction_def table_sizes Let_def)

lemma BAOriSessionTearDown_ok:
  assumes "table_ok T" and "tid < 8"
  shows "\<exists>T' outs. BAOriSessionTearDown w tid bPassive bForceSend T = Some (T', outs) \<and> table_ok T'"
proof (cases "w \<ge> 32")
  case True
  then show ?thesis using assms by (simp add: BAOriSessionTearDown_def table_sizes)
next
  case False
  let ?m = "MacTab T ! w"
  let ?i = "BAOriWcidArray ?m ! tid"
  let ?T = "upd_ori ?i (\<lambda>e. e\<lparr>ORIBATimer := RTMPCancelTimer (ORIBATimer e)\<rparr>) T"
  obtain o1 where o1: "MlmeDELBAAction T w (Addr ?m) tid 1 = Some o1"
    using MlmeDELBAAction_ok [OF assms(2)] by blast
  show ?thesis
  proof (cases "?i = 0")
    case True
    then show ?thesis
      using False assms o1 by (simp add: BAOriSessionTearDown_def table_sizes Let_def)
  next
    case slot: False
    have i: "?i < 128" "oTID (BAOriEntry T ! ?i) = tid"
      using ori_slot_ok [OF assms(1) _ assms(2) refl slot] False by simp_all
    have "table_ok ?T" using i(1) by (intro table_ok_upd_ori [OF assms(1)]) simp_all
    from BATableFreeOriEntry_ok [OF this] obtain T' where
      "BATableFreeOriEntry ?i ?T = Some T'" "table_ok T'" by blast
    then show ?thesis
      using False slot i assms(2) o1 by (simp add: BAOriSessionTearDown_def table_sizes Let_def)
  qed
qed

section \<open>The recipient\<close>

text \<open>Working on an entry with the pool keeps the table; a refresh empties the list.\<close>

abbreviation pooled :: "ba_table \<Rightarrow> nat \<Rightarrow> ba_rec_entry" where
  "pooled T i \<equiv> (reorder (BARecEntry T ! i))\<lparr>freelist := mpdu_blk_pool T\<rparr>"

abbreviation put_back :: "nat \<Rightarrow> ba_rec_entry \<Rightarrow> ba_table \<Rightarrow> ba_table" where
  "put_back i e T \<equiv> T\<lparr>BARecEntry := (BARecEntry T)[i := (BARecEntry T ! i)\<lparr>reorder := e\<rparr>],
     mpdu_blk_pool := freelist e\<rparr>"

lemma pooled_ok: "table_ok T \<Longrightarrow> i < 128 \<Longrightarrow> ba_ok (pooled T i)"
  using rec_okD(3,5) [OF table_okD(3)] by (simp add: ba_ok_def rec_entry_ok_def)

lemma with_pool_eq: "f (pooled T i) = (e, ind) \<Longrightarrow> with_pool f i T = (put_back i e T, map Indicate ind)"
  by (simp add: with_pool_def upd_rec_def)

lemma put_back_ok:
  assumes "table_ok T" and "i < 128" and "ba_ok e"
    and "chain (rlist (reorder (BARecEntry T ! i))) = [] \<Longrightarrow> chain (rlist e) = []"
  shows "table_ok (put_back i e T)"
proof -
  note ok = table_okD [OF assms(1)]
  have "rec_entry_ok ((BARecEntry T ! i)\<lparr>reorder := e\<rparr>)"
    using rec_okD(3) [OF ok(3) assms(2)] assms(3,4) by (auto simp: rec_entry_ok_def ba_ok_def)
  then have "rec_ok ((BARecEntry T)[i := (BARecEntry T ! i)\<lparr>reorder := e\<rparr>]) (MacTab T) (numAsRecipient T) (freelist e)"
    using assms(3) by (intro rec_ok_keep [OF ok(3) assms(2)]) (simp_all add: ba_ok_def)
  then show ?thesis using ok(1,2) by (simp add: table_ok_def)
qed

lemma refresh_with_pool:
  assumes "table_ok T" and "i < 128"
  obtains e outs where "with_pool ba_refresh_reordering_mpdus i T = (put_back i e T, outs)"
    and "ba_ok e" and "chain (rlist e) = []" and "table_ok (put_back i e T)"
  using refresh_ok [OF pooled_ok [OF assms]] put_back_ok [OF assms] with_pool_eq by blast

lemma BATableAllocRecEntry_ok:
  assumes "table_ok T"
  shows "numAsRecipient T = 127 \<and> BATableAllocRecEntry T = (None, None, T)
    \<or> (\<exists>i. 0 < i \<and> i < 128 \<and> REC_BA_Status (BARecEntry T ! i) = Recipient_NONE
        \<and> BATableAllocRecEntry T = (Some i, Some i, T\<lparr>numAsRecipient := numAsRecipient T + 1,
            BARecEntry := (BARecEntry T)[i := (BARecEntry T ! i)\<lparr>REC_BA_Status := Recipient_USED\<rparr>]\<rparr>))"
proof (cases "numAsRecipient T \<ge> 127")
  case True
  moreover have "unat (numAsRecipient T) \<le> 127" by (rule rec_counter [OF table_okD(3) [OF assms]])
  ultimately have "numAsRecipient T = 127" by (simp add: word_le_nat_alt word_unat_eq_iff)
  then show ?thesis by (simp add: BATableAllocRecEntry_def table_sizes)
next
  case False
  note ok = rec_okD [OF table_okD(3) [OF assms]]
  have "unat (numAsRecipient T) < length (BARecEntry T) - 1"
    using False ok(1) by (simp add: word_le_nat_alt)
  from rcp.free_entry [OF ok(2) this] obtain i where
    "find (\<lambda>i. \<not> rec_used (BARecEntry T ! i)) [1..<length (BARecEntry T)] = Some i"
    "0 < i" "i < length (BARecEntry T)" "\<not> rec_used (BARecEntry T ! i)" by blast
  then show ?thesis using False ok(1) by (auto simp: BATableAllocRecEntry_def table_sizes)
qed

text \<open>What \<open>BARecSessionAdd\<close> makes of an entry, and of the station.\<close>

abbreviation added_session :: "nat \<Rightarrow> nat \<Rightarrow> u16 \<Rightarrow> u8 \<Rightarrow> bool \<Rightarrow> ba_rec_session \<Rightarrow> ba_rec_session" where
  "added_session w tid timeout win restart s \<equiv> s\<lparr>rWcid := w, rTID := tid, rTimeOutValue := timeout,
     REC_BA_Status := Recipient_Accept,
     RECBATimer := (if restart then RTMPCancelTimer (RECBATimer s) else RTMPInitTimer True (RECBATimer s)),
     reorder := (reorder s)\<lparr>BAWinSize := uint win, LastIndSeq := RESET_RCV_SEQ\<rparr>\<rparr>"

abbreviation added_mac :: "nat \<Rightarrow> nat \<Rightarrow> mac_table_entry \<Rightarrow> mac_table_entry" where
  "added_mac tid i m \<equiv> m\<lparr>RXBAbitmap := RXBAbitmap m OR push_bit tid 1,
     BARecWcidArray := (BARecWcidArray m)[tid := i], BADeclineBitmap := BADeclineBitmap m AND NOT (push_bit tid 1)\<rparr>"

abbreviation added_table :: "nat \<Rightarrow> nat \<Rightarrow> u16 \<Rightarrow> u8 \<Rightarrow> nat \<Rightarrow> ba_table \<Rightarrow> ba_table" where
  "added_table w tid timeout win i T \<equiv>
     T\<lparr>BARecEntry := (BARecEntry T)[i := added_session w tid timeout win (bit (RXBAbitmap (MacTab T ! w)) tid)
         (BARecEntry T ! i)],
       MacTab := (MacTab T)[w := added_mac tid i (MacTab T ! w)]\<rparr>"

lemma added_again_ok:
  assumes "table_ok T" and "w < 32" and "tid < 8" and "BARecWcidArray (MacTab T ! w) ! tid = i" and "i \<noteq> 0"
  shows "table_ok (added_table w tid timeout win i T)"
proof -
  note ok = table_okD [OF assms(1)] and slot = rec_slot_ok [OF assms]
  let ?m = "MacTab T ! w"
  let ?s = "added_session w tid timeout win (bit (RXBAbitmap ?m) tid) (BARecEntry T ! i)"
  have "rec_entry_ok ?s" using rec_okD(3) [OF ok(3) slot(1)] by (auto simp: rec_entry_ok_def)
  then have rec: "rec_ok ((BARecEntry T)[i := ?s]) (MacTab T) (numAsRecipient T) (mpdu_blk_pool T)"
    using slot rec_okD(5) [OF ok(3)] by (intro rec_ok_keep [OF ok(3) slot(1)]) simp_all
  have "bit (RXBAbitmap ?m) tid" using rec_okD(4) [OF ok(3) assms(2,3)] slot(5) assms(5) by simp
  then have "RXBAbitmap ?m OR push_bit tid 1 = RXBAbitmap ?m"
    by (intro bit_word_eqI) (auto simp: bit_simps)
  moreover have "(BARecWcidArray ?m)[tid := i] = BARecWcidArray ?m" using assms(4) by auto
  ultimately have "rec_ok ((BARecEntry T)[i := ?s]) ((MacTab T)[w := added_mac tid i ?m]) (numAsRecipient T) (mpdu_blk_pool T)"
    by (intro rec_ok_mac [OF rec]) simp_all
  moreover have "ori_ok (BAOriEntry T) ((MacTab T)[w := added_mac tid i ?m]) (numAsOriginator T) (numDoneOriginator T)"
    by (intro ori_ok_mac [OF ok(2)]) simp_all
  moreover have "mac_ok ((MacTab T)[w := added_mac tid i ?m])" by (intro mac_ok_update [OF ok(1)]) simp_all
  ultimately show ?thesis by (simp add: table_ok_def)
qed

lemma added_new_ok:
  assumes "table_ok T" and "w < 32" and "tid < 8" and "BARecWcidArray (MacTab T ! w) ! tid = 0"
    and "0 < i" and "i < 128" and "REC_BA_Status (BARecEntry T ! i) = Recipient_NONE"
  shows "table_ok (added_table w tid timeout win i (T\<lparr>numAsRecipient := numAsRecipient T + 1\<rparr>))"
proof -
  note ok = table_okD [OF assms(1)]
  let ?m = "MacTab T ! w"
  let ?s = "added_session w tid timeout win (bit (RXBAbitmap ?m) tid) (BARecEntry T ! i)"
  have "rec_entry_ok ?s" using rec_okD(3) [OF ok(3) assms(6)] by (auto simp: rec_entry_ok_def)
  moreover have "rec_slot (MacTab T) (w, tid) = 0"
    using slots_at [of w "MacTab T" tid BARecWcidArray] mac_okD [OF ok(1) assms(2)] assms(2-4) by simp
  ultimately have "rec_ok ((BARecEntry T)[i := ?s]) ((MacTab T)[w := added_mac tid i ?m]) (numAsRecipient T + 1) (mpdu_blk_pool T)"
    by (intro rec_ok_assign [OF ok(3,1) assms(2,3) _ assms(5-7)]) simp_all
  moreover have "ori_ok (BAOriEntry T) ((MacTab T)[w := added_mac tid i ?m]) (numAsOriginator T) (numDoneOriginator T)"
    by (intro ori_ok_mac [OF ok(2)]) simp_all
  moreover have "mac_ok ((MacTab T)[w := added_mac tid i ?m])" by (intro mac_ok_update [OF ok(1)]) simp_all
  ultimately show ?thesis by (simp add: table_ok_def cong: if_cong split del: if_split)
qed

lemma BARecSessionAdd_ok:
  assumes "table_ok T" and "w < 32" and "TID (Req_Parm Msg) < 8"
  shows "\<exists>b T' outs. BARecSessionAdd cfg w Msg T = Some (b, T', outs) \<and> table_ok T'"
proof -
  note ok = table_okD [OF assms(1)]
  let ?tid = "TID (Req_Parm Msg)" and ?m = "MacTab T ! w"
  let ?i = "BARecWcidArray ?m ! ?tid" and ?to = "get_le16 Msg 29"
  let ?win0 = "min (word_of_nat (BufSize (Req_Parm Msg))) (RxBAWinLimit cfg) :: u8"
  let ?win = "if ?win0 = 0 then 64 else ?win0"
  have aid: "Aid ?m mod 256 = w" using mac_okD(2) [OF ok(1) assms(2)] assms(2) by simp
  show ?thesis
  proof (cases "?i = 0")
    case False
    note slot = rec_slot_ok [OF assms refl False]
    obtain e outs where r: "with_pool ba_refresh_reordering_mpdus ?i T = (put_back ?i e T, outs)"
      "table_ok (put_back ?i e T)" by (rule refresh_with_pool [OF assms(1) slot(1)])
    have "BARecSessionAdd cfg w Msg T = Some (True, added_table w ?tid ?to ?win ?i (put_back ?i e T),
        outs @ [RTMP_ADD_BA_SESSION_TO_ASIC (Aid ?m) ?tid])"
      using False slot(1) assms(2,3) r(1) aid
      by (simp add: BARecSessionAdd_def table_sizes Let_def upd_rec_def upd_mac_def split del: if_split)
    moreover have "table_ok (added_table w ?tid ?to ?win ?i (put_back ?i e T))"
      using False by (intro added_again_ok [OF r(2) assms(2,3)]) simp_all
    ultimately show ?thesis by blast
  next
    case True
    from BATableAllocRecEntry_ok [OF assms(1)] show ?thesis
    proof (elim disjE exE conjE)
      assume "BATableAllocRecEntry T = (None, None, T)"
      then have "BARecSessionAdd cfg w Msg T = Some (False, T, [])"
        using True assms(2,3) by (simp add: BARecSessionAdd_def table_sizes Let_def)
      then show ?thesis using assms(1) by blast
    next
      fix i
      assume i: "0 < i" "i < 128" "REC_BA_Status (BARecEntry T ! i) = Recipient_NONE"
        and alloc: "BATableAllocRecEntry T = (Some i, Some i, T\<lparr>numAsRecipient := numAsRecipient T + 1,
            BARecEntry := (BARecEntry T)[i := (BARecEntry T ! i)\<lparr>REC_BA_Status := Recipient_USED\<rparr>]\<rparr>)"
      let ?T = "added_table w ?tid ?to ?win i (T\<lparr>numAsRecipient := numAsRecipient T + 1\<rparr>)"
      have len: "i < length (BARecEntry T)" using rec_okD(1) [OF ok(3)] i(2) by simp
      have "BARecSessionAdd cfg w Msg T = Some (True, ?T, [RTMP_ADD_BA_SESSION_TO_ASIC (Aid ?m) ?tid])"
        using True assms(2,3) alloc aid len
        by (simp add: BARecSessionAdd_def table_sizes Let_def upd_rec_def upd_mac_def cong: if_cong split del: if_split)
      moreover have "table_ok ?T" by (rule added_new_ok [OF assms True i])
      ultimately show ?thesis by blast
    qed
  qed
qed

text \<open>A teardown leaves the station without the session.\<close>

abbreviation removed_mac :: "nat \<Rightarrow> mac_table_entry \<Rightarrow> mac_table_entry" where
  "removed_mac tid m \<equiv> m\<lparr>RXBAbitmap := RXBAbitmap m AND NOT (push_bit tid 1),
     BARecWcidArray := (BARecWcidArray m)[tid := 0]\<rparr>"

lemma removed_ok:
  assumes "table_ok T" and "w < 32" and "tid < 8" and "BARecWcidArray (MacTab T ! w) ! tid = i" and "i \<noteq> 0"
    and "REC_BA_Status s = Recipient_NONE" and "list_ok (rlist (reorder s))" and "chain (rlist (reorder s)) = []"
    and "list_ok p"
  shows "table_ok (T\<lparr>BARecEntry := (BARecEntry T)[i := s], MacTab := (MacTab T)[w := removed_mac tid (MacTab T ! w)],
    numAsRecipient := numAsRecipient T - 1, mpdu_blk_pool := p\<rparr>)"
proof -
  note ok = table_okD [OF assms(1)] and slot = rec_slot_ok [OF assms(1-5)]
  let ?m = "removed_mac tid (MacTab T ! w)"
  have "rec_ok ((BARecEntry T)[i := s]) ((MacTab T)[w := ?m]) (numAsRecipient T - 1) p"
    using slot assms(6-9) by (intro rec_ok_free [OF ok(3,1) slot(1) _ _ assms(2,3)]) (simp_all add: rec_entry_ok_def)
  moreover have "ori_ok (BAOriEntry T) ((MacTab T)[w := ?m]) (numAsOriginator T) (numDoneOriginator T)"
    by (intro ori_ok_mac [OF ok(2)]) simp_all
  moreover have "mac_ok ((MacTab T)[w := ?m])" by (intro mac_ok_update [OF ok(1)]) simp_all
  ultimately show ?thesis by (simp add: table_ok_def)
qed

lemma BATableFreeRecEntry_eq:
  assumes "i \<noteq> 0" and "i < 128" and "REC_BA_Status (BARecEntry T ! i) = Recipient_Accept"
    and "rWcid (BARecEntry T ! i) = w" and "rTID (BARecEntry T ! i) = tid" and "w < 32" and "tid < 8"
  shows "BATableFreeRecEntry i T = Some (T\<lparr>
    MacTab := (MacTab T)[w := (MacTab T ! w)\<lparr>BARecWcidArray := (BARecWcidArray (MacTab T ! w))[tid := 0]\<rparr>],
    numAsRecipient := numAsRecipient T - 1,
    BARecEntry := (BARecEntry T)[i := (BARecEntry T ! i)\<lparr>REC_BA_Status := Recipient_NONE\<rparr>]\<rparr>)"
  using assms by (simp add: BATableFreeRecEntry_def table_sizes Let_def upd_mac_def upd_rec_def)

text \<open>The table when the entry is about to be freed.\<close>

lemma teardown_free:
  assumes "i \<noteq> 0" and "i < 128" and "REC_BA_Status (BARecEntry T ! i) = Recipient_Accept"
    and "rWcid (BARecEntry T ! i) = w" and "rTID (BARecEntry T ! i) = tid" and "w < 32" and "tid < 8"
    and "i < length (BARecEntry T)" and "w < length (MacTab T)"
  shows "BATableFreeRecEntry i
      (upd_mac w (\<lambda>m. m\<lparr>RXBAbitmap := RXBAbitmap m AND NOT (push_bit (rTID (BARecEntry T ! i)) 1),
          BARecWcidArray := (BARecWcidArray m)[tid := 0]\<rparr>)
        (upd_rec i (\<lambda>s. s\<lparr>reorder := (reorder s)\<lparr>LastIndSeq := RESET_RCV_SEQ, BAWinSize := 0\<rparr>\<rparr>)
          (put_back i e (upd_rec i (\<lambda>s. s\<lparr>RECBATimer := RTMPCancelTimer (RECBATimer s)\<rparr>) T))))
    = Some (T\<lparr>BARecEntry := (BARecEntry T)[i := (BARecEntry T ! i)\<lparr>RECBATimer := RTMPCancelTimer (RECBATimer (BARecEntry T ! i)),
          reorder := e\<lparr>LastIndSeq := RESET_RCV_SEQ, BAWinSize := 0\<rparr>, REC_BA_Status := Recipient_NONE\<rparr>],
        MacTab := (MacTab T)[w := removed_mac tid (MacTab T ! w)],
        numAsRecipient := numAsRecipient T - 1, mpdu_blk_pool := freelist e\<rparr>)"
  by (subst BATableFreeRecEntry_eq [where w = w and tid = tid])
    (use assms in \<open>simp_all add: upd_mac_def upd_rec_def\<close>)

lemma BARecSessionTearDown_ok:
  assumes "table_ok T" and "tid < 8"
  shows "\<exists>T' outs. BARecSessionTearDown w tid bPassive T = Some (T', outs) \<and> table_ok T'
    \<and> (w < 32 \<longrightarrow> BARecWcidArray (MacTab T' ! w) ! tid = 0)"
proof (cases "w \<ge> 32 \<or> BARecWcidArray (MacTab T ! w) ! tid = 0")
  case True
  then show ?thesis using assms by (auto simp: BARecSessionTearDown_def table_sizes Let_def)
next
  case False
  then obtain i where w: "w < 32" and i: "BARecWcidArray (MacTab T ! w) ! tid = i" "i \<noteq> 0" by auto
  note ok = table_okD [OF assms(1)] and slot = rec_slot_ok [OF assms(1) w assms(2) i]
  let ?m = "MacTab T ! w"
  let ?T1 = "upd_rec i (\<lambda>s. s\<lparr>RECBATimer := RTMPCancelTimer (RECBATimer s)\<rparr>) T"
  have ok1: "table_ok ?T1" using slot(1) by (intro table_ok_upd_rec [OF assms(1)]) simp_all
  obtain e outs where r: "with_pool ba_refresh_reordering_mpdus i ?T1 = (put_back i e ?T1, outs)"
    "ba_ok e" "chain (rlist e) = []" "table_ok (put_back i e ?T1)"
    by (rule refresh_with_pool [OF ok1 slot(1)])
  obtain o1 where o1: "MlmeDELBAAction T w (Addr ?m) tid 0 = Some o1"
    using MlmeDELBAAction_ok [OF assms(2)] by blast
  let ?s = "(BARecEntry T ! i)\<lparr>RECBATimer := RTMPCancelTimer (RECBATimer (BARecEntry T ! i)),
      reorder := e\<lparr>LastIndSeq := RESET_RCV_SEQ, BAWinSize := 0\<rparr>, REC_BA_Status := Recipient_NONE\<rparr>"
  let ?T = "T\<lparr>BARecEntry := (BARecEntry T)[i := ?s], MacTab := (MacTab T)[w := removed_mac tid ?m],
      numAsRecipient := numAsRecipient T - 1, mpdu_blk_pool := freelist e\<rparr>"
  have len: "i < length (BARecEntry T)" "w < length (MacTab T)"
    using rec_okD(1) [OF ok(3)] slot(1) mac_okD(1) [OF ok(1) w] w by simp_all
  note free = teardown_free [OF i(2) slot(1-4) w assms(2) len, of e]
  have guards: "\<not> w \<ge> MAX_LEN_OF_MAC_TABLE" "\<not> tid \<ge> NUM_OF_TID" "\<not> i \<ge> MAX_LEN_OF_BA_REC_TABLE"
    using w assms(2) slot(1) by (simp_all add: table_sizes)
  have sent: "(if \<not> bPassive then MlmeDELBAAction T w (Addr ?m) tid 0 else Some []) = Some (if bPassive then [] else o1)"
    using o1 by simp
  have "BARecSessionTearDown w tid bPassive T
      = Some (?T, (if bPassive then [] else o1) @ outs @ [RTMP_DEL_BA_SESSION_FROM_ASIC w tid])"
    unfolding BARecSessionTearDown_def Let_def i(1) if_not_P [OF guards(1)] if_not_P [OF guards(2)]
      if_not_P [OF i(2)] if_not_P [OF guards(3)] sent slot(2,4)
    by (simp only: if_True simp_thms option.case r(1) prod.case free [unfolded slot(4)] option.map)
  moreover have "table_ok ?T"
    using r(2,3) by (intro removed_ok [OF assms(1) w assms(2) i]) (simp_all add: ba_ok_def)
  moreover have "BARecWcidArray (MacTab ?T ! w) ! tid = 0"
    using len(2) mac_okD(5) [OF ok(1) w] assms(2) by simp
  ultimately show ?thesis by blast
qed

lemma teardown_turn_ok:
  assumes "table_ok (fst st)" and "i < 8"
  shows "\<exists>st'. teardown_turn w st i = Some st' \<and> table_ok (fst st')"
proof -
  obtain T1 o1 where "BAOriSessionTearDown w i False False (fst st) = Some (T1, o1)" "table_ok T1"
    using BAOriSessionTearDown_ok [OF assms] by blast
  moreover obtain T2 o2 where "BARecSessionTearDown w i False T1 = Some (T2, o2)" "table_ok T2"
    using BARecSessionTearDown_ok [OF \<open>table_ok T1\<close> assms(2)] by blast
  ultimately show ?thesis by (simp add: teardown_turn_def)
qed

lemma BASessionTearDownALL_ok:
  assumes "table_ok T"
  shows "\<exists>T' outs. BASessionTearDownALL w T = Some (T', outs) \<and> table_ok T'"
proof -
  have "\<exists>st'. feed (teardown_turn w) (T, []) [0..<NUM_OF_TID] = Some st' \<and> table_ok (fst st')"
    by (rule feed_total [where ok = "\<lambda>st. table_ok (fst st)"])
      (use assms teardown_turn_ok in \<open>auto simp: table_sizes\<close>)
  then show ?thesis by (auto simp: BASessionTearDownALL_def)
qed

lemma maintain_turn_ok:
  assumes "table_ok (fst st)" and "fst k < 32" and "snd k < 8"
  shows "\<exists>st'. maintain_turn OS_HZ Now32 st k = Some st' \<and> table_ok (fst st')"
proof -
  obtain T outs where st: "st = (T, outs)" by (cases st)
  have T: "table_ok T" using assms(1) st by simp
  let ?i = "BARecWcidArray (MacTab T ! fst k) ! snd k"
  have i: "?i < 128" using rec_slot_ok(1) [OF T assms(2,3) refl] by (cases "?i = 0") simp_all
  obtain e ind where e: "ba_flush_reordering_timeout_mpdus OS_HZ (pooled T ?i) Now32 = Some (e, ind)" "ba_ok e"
    using timeout_ok [OF pooled_ok [OF T i], of OS_HZ Now32] by (auto simp: kept_def)
  have "chain (rlist e) = []" if "chain (rlist (reorder (BARecEntry T ! ?i))) = []"
    using that e(1) pooled_ok [OF T i]
    by (auto simp: ba_flush_reordering_timeout_mpdus_def ba_ok_def list_ok_def split: if_splits)
  then have ok: "table_ok (put_back ?i e T)" by (rule put_back_ok [OF T i e(2)])
  have "with_pool (\<lambda>_. (e, ind)) ?i T = (put_back ?i e T, map Indicate ind)" by (rule with_pool_eq) simp
  then show ?thesis
    using T e(1) i ok by (simp add: maintain_turn_def st Let_def table_sizes)
qed

lemma BaReOrderingBufferMaintain_ok:
  assumes "table_ok T"
  shows "\<exists>T' outs. BaReOrderingBufferMaintain OS_HZ Now32 T = Some (T', outs) \<and> table_ok T'"
proof -
  have "\<exists>st'. feed (maintain_turn OS_HZ Now32) (T, [])
      [(w, t). w \<leftarrow> [1..<MAX_LEN_OF_MAC_TABLE], t \<leftarrow> [0..<NUM_OF_TID]] = Some st' \<and> table_ok (fst st')"
    by (rule feed_total [where ok = "\<lambda>st. table_ok (fst st)"])
      (use assms maintain_turn_ok in \<open>auto simp: table_sizes\<close>)
  then show ?thesis by (auto simp: BaReOrderingBufferMaintain_def)
qed

section \<open>The frames of a peer\<close>

lemma PeerAddBAReqAction_ok:
  assumes "table_ok T" and "33 \<le> length Msg" and "TID (Req_Parm Msg) < 8"
  shows "\<exists>T' outs. PeerAddBAReqAction cfg w Msg n T = Some (T', outs) \<and> table_ok T'"
proof (cases "w \<ge> 32")
  case True
  then show ?thesis using assms(1) by (simp add: PeerAddBAReqAction_def table_sizes)
next
  case False
  then obtain b T' outs where "BARecSessionAdd cfg w Msg T = Some (b, T', outs)" "table_ok T'"
    using BARecSessionAdd_ok [OF assms(1) _ assms(3), of w cfg] by auto
  then show ?thesis
    using False assms(1,2) by (auto simp: PeerAddBAReqAction_def table_sizes Let_def split: prod.split)
qed

lemma PeerAddBARspAction_ok:
  assumes "table_ok T" and "TID (Rsp_Parm Msg) < 8"
  shows "\<exists>T' outs. PeerAddBARspAction cfg w Msg n T = Some (T', outs) \<and> table_ok T'"
proof (cases "w \<ge> 32 \<or> \<not> PeerAddBARspActionSanity Msg n")
  case True
  then show ?thesis using assms(1) by (auto simp: PeerAddBARspAction_def table_sizes)
next
  case False
  obtain T1 o1 where "BAOriSessionAdd cfg w Msg T = Some (T1, o1)" "table_ok T1"
    using BAOriSessionAdd_ok [OF assms(1) _ assms(2), of w cfg] False by auto
  moreover obtain T2 o2 where "BAOriSessionTearDown w (TID (Rsp_Parm Msg)) True False T = Some (T2, o2)" "table_ok T2"
    using BAOriSessionTearDown_ok [OF assms] by blast
  moreover have "table_ok (upd_mac w (\<lambda>m. m\<lparr>BADeclineBitmap := BADeclineBitmap m OR x\<rparr>) T')" if "table_ok T'" for T' x
    by (intro table_ok_upd_mac [OF that]) simp_all
  ultimately show ?thesis
    using False by (cases "get_le16 Msg 27 = 0") (simp_all add: PeerAddBARspAction_def table_sizes Let_def)
qed

lemma PeerDelBAAction_ok:
  assumes "table_ok T" and "DELBA_TID (get_le16 Msg 26) < 8"
  shows "\<exists>T' outs. PeerDelBAAction w Msg n T = Some (T', outs) \<and> table_ok T'"
  using BAOriSessionTearDown_ok [OF assms, of w True False] BARecSessionTearDown_ok [OF assms, of w True] assms(1)
  by (auto simp: PeerDelBAAction_def Let_def)

end
