(* ===== verification/Ba_Session_Properties.thy ===== *)
theory Ba_Session_Properties
  imports Ba_Session_Ok
begin

text \<open>
  The properties of block-ack sessions: the invariant of all reachable tables, the search for a free
  entry, the end of the retries, what a teardown leaves, the agreement of both ends on the window,
  and the frames whose priority lies outside the arrays.
\<close>

section \<open>Reachable tables\<close>

text \<open>What can happen to the tables, and what the code does then.\<close>

datatype session_event =
    Set_Up nat nat u16 u32 bool
  | Setup_Timeout nat
  | Peer_Request nat bytes nat
  | Peer_Response nat bytes nat
  | Peer_Teardown nat bytes nat
  | Tear_Down_Originator nat nat bool bool
  | Tear_Down_Recipient nat nat bool
  | Tear_Down_All nat
  | Maintain u32 u32

definition session_handle :: "ba_config \<Rightarrow> session_event \<Rightarrow> ba_table \<Rightarrow> (ba_table \<times> ba_output list) option" where
  "session_handle cfg ev T =
     (case ev of
        Set_Up w tid to dl fc \<Rightarrow> map_option (\<lambda>T. (T, [])) (BAOriSessionSetUp cfg w tid to dl fc T)
      | Setup_Timeout i \<Rightarrow> BAOriSessionSetupTimeout cfg i T
      | Peer_Request w Msg n \<Rightarrow> PeerAddBAReqAction cfg w Msg n T
      | Peer_Response w Msg n \<Rightarrow> PeerAddBARspAction cfg w Msg n T
      | Peer_Teardown w Msg n \<Rightarrow> PeerDelBAAction w Msg n T
      | Tear_Down_Originator w tid p f \<Rightarrow> BAOriSessionTearDown w tid p f T
      | Tear_Down_Recipient w tid p \<Rightarrow> BARecSessionTearDown w tid p T
      | Tear_Down_All w \<Rightarrow> BASessionTearDownALL w T
      | Maintain hz now \<Rightarrow> BaReOrderingBufferMaintain hz now T)"

text \<open>
  \<open>Msg\<close> is the buffer of a queue element, of 1600 bytes, and \<open>n\<close> the length of the frame in it. The events
  for which a handler indexes outside an array, after its own checks: an argument of a call that is out of
  range (a station from 32 on, an entry from 128 on, a priority from 8 on), a buffer too short to hold a
  request, and the priority of a frame, a field of four bits that no handler compares with the eight of the
  arrays. \<open>BAOriSessionSetUp\<close> alone checks its priority; \<open>RT_OID_802_11_TEAR_IMME_BA\<close> of \<open>sta_cfg.c\<close>
  can pass the teardowns any priority.
\<close>

definition outside_arrays :: "ba_config \<Rightarrow> ba_table \<Rightarrow> session_event \<Rightarrow> bool" where
  "outside_arrays cfg T ev =
     (case ev of
        Set_Up w tid to dl fc \<Rightarrow> 32 \<le> w \<and> tid < 8 \<and> (AutoBA cfg \<or> fc) \<and> FixedTxMode cfg = FIXED_TXMODE_HT
      | Setup_Timeout i \<Rightarrow> 128 \<le> i \<and> \<not> monitor_on cfg
      | Peer_Request w Msg n \<Rightarrow> w < 32 \<and> (length Msg < 33 \<or> 33 \<le> n \<and> BAPolicy (Req_Parm Msg) \<and> \<not> bBADecline cfg
          \<and> HT_STA (MacTab T ! w) \<and> 8 \<le> TID (Req_Parm Msg))
      | Peer_Response w Msg n \<Rightarrow> w < 32 \<and> 33 \<le> n \<and> BAPolicy (Rsp_Parm Msg) \<and> 8 \<le> TID (Rsp_Parm Msg)
      | Peer_Teardown w Msg n \<Rightarrow> w < 32 \<and> n = 30 \<and> 8 \<le> DELBA_TID (get_le16 Msg 26)
      | Tear_Down_Originator w tid p f \<Rightarrow> w < 32 \<and> 8 \<le> tid
      | Tear_Down_Recipient w tid p \<Rightarrow> w < 32 \<and> 8 \<le> tid
      | Tear_Down_All w \<Rightarrow> False
      | Maintain hz now \<Rightarrow> False)"

text \<open>The zeroed tables, for any stations numbered by their place, with empty arrays, and any pool.\<close>

definition zero_timer :: ralink_timer where
  "zero_timer = \<lparr>Valid = False, tState = False, PeriodicType = False, Repeat = False, TimerValue = 0, pending = False\<rparr>"

definition zero_ori :: ba_ori_entry where
  "zero_ori = \<lparr>oWcid = 0, oTID = 0, oBAWinSize = 0, Token = 0, oSequence = 0, oTimeOutValue = 0,
     ORI_BA_Status = Originator_NONE, ORIBATimer = zero_timer\<rparr>"

definition zero_rec :: ba_rec_session where
  "zero_rec = \<lparr>rWcid = 0, rTID = 0, rTimeOutValue = 0, REC_BA_Status = Recipient_NONE, RECBATimer = zero_timer,
     reorder = \<lparr>BAWinSize = 0, LastIndSeq = 0, LastIndSeqAtTimer = 0, nDropPacket = 0, rcvSeq = 0,
       rlist = \<lparr>chain = [], qlen = 0\<rparr>, freelist = \<lparr>chain = [], qlen = 0\<rparr>\<rparr>\<rparr>"

definition fresh_station :: "nat \<Rightarrow> mac_table_entry \<Rightarrow> bool" where
  "fresh_station w m \<longleftrightarrow> Aid m = w \<and> TXBAbitmap m = 0 \<and> RXBAbitmap m = 0 \<and> length (TxSeq m) = 8
     \<and> BAOriWcidArray m = replicate 8 0 \<and> BARecWcidArray m = replicate 8 0"

definition session_start :: "mac_table_entry list \<Rightarrow> nat \<Rightarrow> ba_table" where
  "session_start M num = \<lparr>numAsRecipient = 0, numAsOriginator = 0, numDoneOriginator = 0,
     BAOriEntry = replicate MAX_LEN_OF_BA_ORI_TABLE zero_ori,
     BARecEntry = replicate MAX_LEN_OF_BA_REC_TABLE zero_rec, MacTab = M,
     mpdu_blk_pool = ba_reordering_resource_init num\<rparr>"

inductive session_reach :: "ba_config \<Rightarrow> ba_table \<Rightarrow> bool" for cfg where
  start: "length M = 32 \<Longrightarrow> (\<And>w. w < 32 \<Longrightarrow> fresh_station w (M ! w)) \<Longrightarrow> session_reach cfg (session_start M num)"
| handle: "session_reach cfg T \<Longrightarrow> session_handle cfg ev T = Some (T', outs) \<Longrightarrow> session_reach cfg T'"

lemma session_start_ok:
  assumes "length M = 32" and "\<And>w. w < 32 \<Longrightarrow> fresh_station w (M ! w)"
  shows "table_ok (session_start M num)"
proof -
  have slot: "slots BAOriWcidArray M = (\<lambda>k. 0)" "slots BARecWcidArray M = (\<lambda>k. 0)"
    using assms by (auto simp: slots_def fresh_station_def fun_eq_iff)
  have "mac_ok M" using assms by (simp add: mac_ok_def table_sizes fresh_station_def)
  moreover have "ori_ok (replicate 128 zero_ori) M 0 0"
    using assms(2) by (intro ori_okI)
      (simp_all add: slot linked_def zero_ori_def ori_entry_ok_def table_sizes fresh_station_def)
  moreover have "rec_ok (replicate 128 zero_rec) M 0 (ba_reordering_resource_init num)"
    using assms(2) resource_init_ok [of num] by (intro rec_okI)
      (simp_all add: slot linked_def zero_rec_def rec_entry_ok_def list_ok_def fresh_station_def)
  ultimately show ?thesis by (simp add: table_ok_def session_start_def table_sizes)
qed

lemma peer_request_outcome:
  assumes "table_ok T"
  shows "if outside_arrays cfg T (Peer_Request w Msg n) then PeerAddBAReqAction cfg w Msg n T = None
    else \<exists>T' outs. PeerAddBAReqAction cfg w Msg n T = Some (T', outs) \<and> table_ok T'"
proof (cases "33 \<le> length Msg \<and> TID (Req_Parm Msg) < 8")
  case True
  then show ?thesis using PeerAddBAReqAction_ok [OF assms, of Msg cfg w n] by (simp add: outside_arrays_def)
next
  case False
  then show ?thesis using assms
    by (auto simp: outside_arrays_def PeerAddBAReqAction_def PeerAddBAReqActionSanity_def BARecSessionAdd_def table_sizes Let_def)
qed

lemma peer_response_outcome:
  assumes "table_ok T"
  shows "if outside_arrays cfg T (Peer_Response w Msg n) then PeerAddBARspAction cfg w Msg n T = None
    else \<exists>T' outs. PeerAddBARspAction cfg w Msg n T = Some (T', outs) \<and> table_ok T'"
proof (cases "TID (Rsp_Parm Msg) < 8")
  case True
  then show ?thesis using PeerAddBARspAction_ok [OF assms True, of cfg w n] by (simp add: outside_arrays_def)
next
  case False
  then show ?thesis using assms
    by (auto simp: outside_arrays_def PeerAddBARspAction_def PeerAddBARspActionSanity_def BAOriSessionAdd_def
        BAOriSessionTearDown_def table_sizes Let_def)
qed

lemma teardown_outcome:
  assumes "table_ok T"
  shows "if w < 32 \<and> 8 \<le> tid then BAOriSessionTearDown w tid p f T = None
      else \<exists>T' outs. BAOriSessionTearDown w tid p f T = Some (T', outs) \<and> table_ok T'"
    and "if w < 32 \<and> 8 \<le> tid then BARecSessionTearDown w tid p T = None
      else \<exists>T' outs. BARecSessionTearDown w tid p T = Some (T', outs) \<and> table_ok T'"
  using BAOriSessionTearDown_ok [OF assms, of tid w p f] BARecSessionTearDown_ok [OF assms, of tid w p] assms
  by (cases "tid < 8"; auto simp: BAOriSessionTearDown_def BARecSessionTearDown_def table_sizes)+

lemma session_outcome:
  assumes "table_ok T"
  shows "if outside_arrays cfg T ev then session_handle cfg ev T = None
    else \<exists>T' outs. session_handle cfg ev T = Some (T', outs) \<and> table_ok T'"
proof (cases ev)
  case (Set_Up w tid to dl fc)
  then show ?thesis using BAOriSessionSetUp_ok [OF assms, of w cfg tid to dl fc] assms
    by (cases "w < 32") (auto simp: outside_arrays_def session_handle_def BAOriSessionSetUp_def table_sizes)
next
  case (Setup_Timeout i)
  then show ?thesis using BAOriSessionSetupTimeout_ok [OF assms, of i cfg] assms
    by (cases "i < 128") (auto simp: outside_arrays_def session_handle_def BAOriSessionSetupTimeout_def table_sizes Let_def)
next
  case (Peer_Request w Msg n)
  then show ?thesis using peer_request_outcome [OF assms, of cfg w Msg n] by (auto simp: session_handle_def split: if_splits)
next
  case (Peer_Response w Msg n)
  then show ?thesis using peer_response_outcome [OF assms, of cfg w Msg n] by (auto simp: session_handle_def split: if_splits)
next
  case (Peer_Teardown w Msg n)
  then show ?thesis
    using teardown_outcome(1) [OF assms, of w "DELBA_TID (get_le16 Msg 26)" True False]
      teardown_outcome(2) [OF assms, of w "DELBA_TID (get_le16 Msg 26)" True] assms
    by (cases "w < 32 \<and> 8 \<le> DELBA_TID (get_le16 Msg 26)")
      (auto simp: outside_arrays_def session_handle_def PeerDelBAAction_def PeerDelBAActionSanity_def table_sizes Let_def)
next
  case (Tear_Down_Originator w tid p f)
  then show ?thesis using teardown_outcome(1) [OF assms, of w tid p f]
    by (auto simp: outside_arrays_def session_handle_def split: if_splits)
next
  case (Tear_Down_Recipient w tid p)
  then show ?thesis using teardown_outcome(2) [OF assms, of w tid p]
    by (auto simp: outside_arrays_def session_handle_def split: if_splits)
next
  case (Tear_Down_All w)
  then show ?thesis using BASessionTearDownALL_ok [OF assms, of w] by (simp add: outside_arrays_def session_handle_def)
next
  case (Maintain hz now)
  then show ?thesis using BaReOrderingBufferMaintain_ok [OF assms, of hz now]
    by (simp add: outside_arrays_def session_handle_def)
qed

lemma session_handle_ok:
  assumes "table_ok T" and "session_handle cfg ev T = Some (T', outs)"
  shows "table_ok T'"
  using session_outcome [OF assms(1), of cfg ev] assms(2) by (auto split: if_splits)

lemma session_reach_ok: "session_reach cfg T \<Longrightarrow> table_ok T"
proof (induction rule: session_reach.induct)
  case (start M num)
  then show ?case by (rule session_start_ok)
next
  case (handle T ev T' outs)
  then show ?case using session_handle_ok by blast
qed

section \<open>The retries\<close>

primrec retry :: "ba_config \<Rightarrow> nat \<Rightarrow> nat \<Rightarrow> ba_table \<Rightarrow> (ba_table \<times> ba_output list) option" where
  "retry cfg i 0 T = Some (T, [])"
| "retry cfg i (Suc k) T =
     (case BAOriSessionSetupTimeout cfg i T of
        None \<Rightarrow> None
      | Some (T1, o1) \<Rightarrow> map_option (\<lambda>(T2, o2). (T2, o1 @ o2)) (retry cfg i k T1))"

lemma retry_last:
  assumes "retry cfg i n T = Some (T1, o1)" and "BAOriSessionSetupTimeout cfg i T1 = Some (T2, o2)"
  shows "retry cfg i (Suc n) T = Some (T2, o1 @ o2)"
  using assms(1)
proof (induction n arbitrary: T o1)
  case 0
  then show ?case using assms(2) by simp
next
  case (Suc n)
  from Suc.prems obtain T' o3 o4 where "BAOriSessionSetupTimeout cfg i T = Some (T', o3)"
    "retry cfg i n T' = Some (T1, o4)" "o1 = o3 @ o4" by (auto split: option.splits prod.splits)
  then show ?case using Suc.IH [of T' o4] by simp
qed

text \<open>An entry that awaits its answer, with the number of the next request.\<close>

definition awaits :: "ba_table \<Rightarrow> nat \<Rightarrow> nat \<Rightarrow> bool" where
  "awaits T i k \<longleftrightarrow> ORI_BA_Status (BAOriEntry T ! i) = Originator_WaitRes \<and> Token (BAOriEntry T ! i) = word_of_nat k"

lemma retry_step:
  assumes "table_ok T" and "i < 128" and "awaits T i k" and "k < 8" and "\<not> monitor_on cfg" and "\<not> scan_while_connected cfg"
  obtains T' where "BAOriSessionSetupTimeout cfg i T = Some (T', [Enqueue_ADDBA_Request (oWcid (BAOriEntry T ! i))
      (Addr (MacTab T ! oWcid (BAOriEntry T ! i))) (RxBAWinLimit cfg) 0 (oTID (BAOriEntry T ! i)) (word_of_nat k)])"
    and "table_ok T'" and "awaits T' i (Suc k)" and "MacTab T' = MacTab T"
    and "ori_key (BAOriEntry T' ! i) = ori_key (BAOriEntry T ! i)" and "numAsOriginator T' = numAsOriginator T"
proof -
  note ok = table_okD [OF assms(1)]
  let ?e = "BAOriEntry T ! i"
  let ?T = "upd_ori i (\<lambda>e. e\<lparr>Token := Token e + 1,
      ORIBATimer := RTMPSetTimer (halt_in_progress cfg) ORI_BA_SESSION_TIMEOUT (ORIBATimer e)\<rparr>) T"
  have w: "oWcid ?e < 32" using ori_okD(3) [OF ok(2) assms(2)] by (simp add: ori_entry_ok_def table_sizes)
  have small: "(word_of_nat k :: u8) < 8" using assms(4) by (simp add: word_less_nat_alt unat_of_nat)
  have "Aid (MacTab T ! oWcid ?e) mod 256 = oWcid ?e" using mac_okD(2) [OF ok(1) w] w by simp
  then have "BAOriSessionSetupTimeout cfg i T = Some (?T, [Enqueue_ADDBA_Request (oWcid ?e)
      (Addr (MacTab T ! oWcid ?e)) (RxBAWinLimit cfg) 0 (oTID ?e) (word_of_nat k)])"
    using assms(2-6) w small
    by (simp add: BAOriSessionSetupTimeout_def table_sizes Let_def awaits_def ORI_SESSION_MAX_RETRY_def)
  moreover have "table_ok ?T" by (intro table_ok_upd_ori [OF assms(1,2)]) simp_all
  moreover have "awaits ?T i (Suc k)" "ori_key (BAOriEntry ?T ! i) = ori_key ?e"
    using assms(2,3) ori_okD(1) [OF ok(2)] by (simp_all add: awaits_def upd_ori_def add.commute)
  ultimately show ?thesis using that by (simp add: upd_ori_def)
qed

abbreviation retry_request :: "ba_config \<Rightarrow> ba_table \<Rightarrow> nat \<Rightarrow> nat \<Rightarrow> ba_output" where
  "retry_request cfg T i k \<equiv> Enqueue_ADDBA_Request (oWcid (BAOriEntry T ! i))
     (Addr (MacTab T ! oWcid (BAOriEntry T ! i))) (RxBAWinLimit cfg) 0 (oTID (BAOriEntry T ! i)) (word_of_nat k)"

lemma retry_requests:
  assumes "table_ok T" and "i < 128" and "awaits T i (8 - n)" and "n \<le> 7" and "\<not> monitor_on cfg" and "\<not> scan_while_connected cfg"
  shows "\<exists>T'. retry cfg i n T = Some (T', map (retry_request cfg T i) [8 - n..<8]) \<and> table_ok T' \<and> awaits T' i 8
    \<and> MacTab T' = MacTab T \<and> ori_key (BAOriEntry T' ! i) = ori_key (BAOriEntry T ! i)
    \<and> numAsOriginator T' = numAsOriginator T"
  using assms(1,3,4)
proof (induction n arbitrary: T)
  case 0
  then show ?case by simp
next
  case (Suc n)
  have n: "8 - Suc n < 8" "Suc (8 - Suc n) = 8 - n" using Suc.prems(3) by simp_all
  obtain T1 where T1: "BAOriSessionSetupTimeout cfg i T = Some (T1, [retry_request cfg T i (8 - Suc n)])"
    "table_ok T1" "awaits T1 i (8 - n)" "MacTab T1 = MacTab T"
    "ori_key (BAOriEntry T1 ! i) = ori_key (BAOriEntry T ! i)" "numAsOriginator T1 = numAsOriginator T"
    using retry_step [OF Suc.prems(1) assms(2) Suc.prems(2) n(1) assms(5,6)] unfolding n(2) by blast
  obtain T2 where T2: "retry cfg i n T1 = Some (T2, map (retry_request cfg T1 i) [8 - n..<8])" "table_ok T2"
    "awaits T2 i 8" "MacTab T2 = MacTab T1" "ori_key (BAOriEntry T2 ! i) = ori_key (BAOriEntry T1 ! i)"
    "numAsOriginator T2 = numAsOriginator T1"
    using Suc.IH [OF T1(2,3)] Suc.prems(3) by auto
  have "retry_request cfg T1 i = retry_request cfg T i" using T1(4,5) by (simp add: fun_eq_iff)
  moreover have "[8 - Suc n..<8] = (8 - Suc n) # [8 - n..<8]" using n by (metis upt_conv_Cons)
  ultimately have "retry cfg i (Suc n) T = Some (T2, map (retry_request cfg T i) [8 - Suc n..<8])"
    using T1(1) T2(1) by simp
  then show ?case using T1 T2 by auto
qed

text \<open>The next expiry gives the entry back.\<close>

lemma BATableFreeOriEntry_eq:
  assumes "i \<noteq> 0" and "i < 128" and "ORI_BA_Status (BAOriEntry T ! i) = Originator_WaitRes"
    and "oWcid (BAOriEntry T ! i) = w" and "oTID (BAOriEntry T ! i) = tid" and "w < 32" and "tid < 8"
  shows "BATableFreeOriEntry i T = Some (T\<lparr>
    MacTab := (MacTab T)[w := (MacTab T ! w)\<lparr>BAOriWcidArray := (BAOriWcidArray (MacTab T ! w))[tid := 0]\<rparr>],
    numAsOriginator := numAsOriginator T - 1,
    BAOriEntry := (BAOriEntry T)[i := (BAOriEntry T ! i)\<lparr>ORI_BA_Status := Originator_NONE, Token := 0\<rparr>]\<rparr>)"
  using assms by (simp add: BATableFreeOriEntry_def table_sizes Let_def upd_mac_def upd_ori_def)

lemma retry_end:
  assumes "table_ok T" and "i < 128" and "awaits T i 8" and "\<not> monitor_on cfg"
    and "oWcid (BAOriEntry T ! i) = w" and "oTID (BAOriEntry T ! i) = tid"
  shows "\<exists>T'. BAOriSessionSetupTimeout cfg i T = Some (T', []) \<and> ORI_BA_Status (BAOriEntry T' ! i) = Originator_NONE
    \<and> BAOriWcidArray (MacTab T' ! w) ! tid = 0 \<and> numAsOriginator T' = numAsOriginator T - 1"
proof -
  note ok = table_okD [OF assms(1)]
  have k: "w < 32" "tid < 8"
    using ori_okD(3) [OF ok(2) assms(2)] assms(5,6) by (simp_all add: ori_entry_ok_def table_sizes)
  have used: "ori_used (BAOriEntry T ! i)" "ORI_BA_Status (BAOriEntry T ! i) = Originator_WaitRes"
    using assms(3) by (simp_all add: awaits_def)
  have len: "i < length (BAOriEntry T)" "w < length (MacTab T)" "tid < length (BAOriWcidArray (MacTab T ! w))"
    using ori_okD(1) [OF ok(2)] mac_okD [OF ok(1) k(1)] assms(2) k by simp_all
  have s: "i \<noteq> 0" "BAOriWcidArray (MacTab T ! w) ! tid = i"
    using ori.entry_slot [OF ori_okD(2) [OF ok(2)] len(1) used(1)] assms(5,6)
      slots_at [of w "MacTab T" tid BAOriWcidArray] len by simp_all
  note free = BATableFreeOriEntry_eq [OF s(1) assms(2) used(2) assms(5,6) k]
  have "\<not> Token (BAOriEntry T ! i) < ORI_SESSION_MAX_RETRY"
    using assms(3) by (simp add: awaits_def ORI_SESSION_MAX_RETRY_def)
  then have "BAOriSessionSetupTimeout cfg i T = map_option (\<lambda>T. (T, [])) (BATableFreeOriEntry i T)"
    using assms(2,4-6) k s(2) by (simp add: BAOriSessionSetupTimeout_def table_sizes Let_def)
  then show ?thesis unfolding free using len by simp
qed

section \<open>What a teardown leaves\<close>

lemma BATableFreeOriEntry_slots:
  assumes "BATableFreeOriEntry i T = Some T'" and "i \<noteq> 0" and "i < 128" and "ori_used (BAOriEntry T ! i)"
    and "oWcid (BAOriEntry T ! i) = w" and "oTID (BAOriEntry T ! i) = tid" and "w < 32" and "tid < 8" and "w < length (MacTab T)"
  shows "BAOriWcidArray (MacTab T' ! w) = (BAOriWcidArray (MacTab T ! w))[tid := 0]
    \<and> BARecWcidArray (MacTab T' ! w) = BARecWcidArray (MacTab T ! w)"
  using assms by (auto simp: BATableFreeOriEntry_def table_sizes Let_def upd_mac_def upd_ori_def)

lemma BAOriSessionTearDown_slots:
  assumes "table_ok T" and "w < 32" and "tid < 8" and "BAOriSessionTearDown w tid bPassive bForceSend T = Some (T', outs)"
  shows "BAOriWcidArray (MacTab T' ! w) = (BAOriWcidArray (MacTab T ! w))[tid := 0]
    \<and> BARecWcidArray (MacTab T' ! w) = BARecWcidArray (MacTab T ! w)"
proof (cases "BAOriWcidArray (MacTab T ! w) ! tid = 0")
  case True
  then have "T' = T" using assms by (auto simp: BAOriSessionTearDown_def table_sizes Let_def split: if_splits)
  moreover have "(BAOriWcidArray (MacTab T ! w))[tid := 0] = BAOriWcidArray (MacTab T ! w)" using True by (metis list_update_id)
  ultimately show ?thesis by simp
next
  case False
  note slot = ori_slot_ok [OF assms(1-3) refl False]
  let ?i = "BAOriWcidArray (MacTab T ! w) ! tid"
  let ?T = "upd_ori ?i (\<lambda>e. e\<lparr>ORIBATimer := RTMPCancelTimer (ORIBATimer e)\<rparr>) T"
  have len: "?i < length (BAOriEntry T)" "w < length (MacTab T)"
    using slot(1) ori_okD(1) [OF table_okD(2) [OF assms(1)]] mac_okD(1) [OF table_okD(1) [OF assms(1)] assms(2)] assms(2) by simp_all
  have "BATableFreeOriEntry ?i ?T = Some T'"
    using assms(2-4) False slot(1) by (auto simp: BAOriSessionTearDown_def table_sizes Let_def split: if_splits option.splits)
  from BATableFreeOriEntry_slots [OF this False slot(1) _ _ _ assms(2,3)] show ?thesis
    using slot len by (simp add: upd_ori_def)
qed

lemma BARecSessionTearDown_slots:
  assumes "table_ok T" and "w < 32" and "tid < 8" and "BARecSessionTearDown w tid bPassive T = Some (T', outs)"
  shows "BARecWcidArray (MacTab T' ! w) = (BARecWcidArray (MacTab T ! w))[tid := 0]
    \<and> BAOriWcidArray (MacTab T' ! w) = BAOriWcidArray (MacTab T ! w)"
proof (cases "BARecWcidArray (MacTab T ! w) ! tid = 0")
  case True
  then have "T' = T" using assms by (auto simp: BARecSessionTearDown_def table_sizes Let_def split: if_splits)
  moreover have "(BARecWcidArray (MacTab T ! w))[tid := 0] = BARecWcidArray (MacTab T ! w)" using True by (metis list_update_id)
  ultimately show ?thesis by simp
next
  case False
  note slot = rec_slot_ok [OF assms(1-3) refl False]
  have len: "BARecWcidArray (MacTab T ! w) ! tid < length (BARecEntry T)" "w < length (MacTab T)"
    using slot(1) rec_okD(1) [OF table_okD(3) [OF assms(1)]] mac_okD(1) [OF table_okD(1) [OF assms(1)] assms(2)] assms(2) by simp_all
  show ?thesis
    using assms(2-4) False slot len
    by (auto simp: BARecSessionTearDown_def BATableFreeRecEntry_def table_sizes Let_def upd_mac_def upd_rec_def with_pool_def
        split: if_splits option.splits prod.splits)
qed

text \<open>The priorities below \<open>n\<close> of a station without any session.\<close>

definition cleared :: "nat \<Rightarrow> nat \<Rightarrow> ba_table \<Rightarrow> bool" where
  "cleared w n T \<longleftrightarrow> (\<forall>t < n. BAOriWcidArray (MacTab T ! w) ! t = 0 \<and> BARecWcidArray (MacTab T ! w) ! t = 0)"

lemma teardown_turn_clears:
  assumes "table_ok (fst st)" and "cleared w n (fst st)" and "n < 8" and "w < 32"
  shows "\<exists>st'. teardown_turn w st n = Some st' \<and> table_ok (fst st') \<and> cleared w (Suc n) (fst st')"
proof -
  obtain T1 o1 where 1: "BAOriSessionTearDown w n False False (fst st) = Some (T1, o1)" "table_ok T1"
    using BAOriSessionTearDown_ok [OF assms(1,3)] by blast
  obtain T2 o2 where 2: "BARecSessionTearDown w n False T1 = Some (T2, o2)" "table_ok T2"
    using BARecSessionTearDown_ok [OF 1(2) assms(3)] by blast
  have len: "length (BAOriWcidArray (MacTab (fst st) ! w)) = 8" "length (BARecWcidArray (MacTab (fst st) ! w)) = 8"
    using mac_okD(4,5) [OF table_okD(1) [OF assms(1)] assms(4)] by simp_all
  have "cleared w (Suc n) T2"
    using BAOriSessionTearDown_slots [OF assms(1,4,3) 1(1)] BARecSessionTearDown_slots [OF 1(2) assms(4,3) 2(1)]
      assms(2,3) len by (auto simp: cleared_def less_Suc_eq)
  then show ?thesis using 1 2 by (simp add: teardown_turn_def)
qed

lemma teardown_clears:
  assumes "table_ok T" and "w < 32" and "n \<le> 8"
  shows "\<exists>st. feed (teardown_turn w) (T, []) [0..<n] = Some st \<and> table_ok (fst st) \<and> cleared w n (fst st)"
  using assms(3)
proof (induction n)
  case 0
  then show ?case using assms(1) by (simp add: cleared_def)
next
  case (Suc n)
  then obtain st where "feed (teardown_turn w) (T, []) [0..<n] = Some st" "table_ok (fst st)" "cleared w n (fst st)" by auto
  moreover obtain st' where "teardown_turn w st n = Some st'" "table_ok (fst st')" "cleared w (Suc n) (fst st')"
    using teardown_turn_clears [OF calculation(2,3) _ assms(2)] Suc.prems by auto
  ultimately show ?case by (simp add: feed_append)
qed

section \<open>The windows of both ends\<close>

text \<open>What the recipient grants, for the size a request asks for.\<close>

abbreviation granted :: "ba_config \<Rightarrow> nat \<Rightarrow> u8" where
  "granted cfg asked \<equiv> (let Buf = min (word_of_nat asked) (RxBAWinLimit cfg) in if Buf = 0 then 64 else Buf)"

abbreviation rec_session :: "ba_table \<Rightarrow> nat \<Rightarrow> nat \<Rightarrow> ba_rec_session" where
  "rec_session T w tid \<equiv> BARecEntry T ! (BARecWcidArray (MacTab T ! w) ! tid)"

abbreviation ori_session :: "ba_table \<Rightarrow> nat \<Rightarrow> nat \<Rightarrow> ba_ori_entry" where
  "ori_session T w tid \<equiv> BAOriEntry T ! (BAOriWcidArray (MacTab T ! w) ! tid)"

lemma BARecSessionAdd_window:
  assumes "table_ok T" and "w < 32" and "TID (Req_Parm Msg) = tid" and "tid < 8"
    and "BARecSessionAdd cfg w Msg T = Some (True, T', outs)"
  shows "REC_BA_Status (rec_session T' w tid) = Recipient_Accept
    \<and> BAWinSize (reorder (rec_session T' w tid)) = uint (granted cfg (BufSize (Req_Parm Msg)))"
proof -
  note ok = table_okD [OF assms(1)]
  have len: "length (BARecEntry T) = 128" "w < length (MacTab T)" "tid < length (BARecWcidArray (MacTab T ! w))"
    using rec_okD(1) [OF ok(3)] mac_okD [OF ok(1) assms(2)] assms(2,4) by simp_all
  show ?thesis
  proof (cases "BARecWcidArray (MacTab T ! w) ! tid = 0")
    case True
    from BATableAllocRecEntry_ok [OF assms(1)] show ?thesis
    proof (elim disjE exE conjE)
      assume "BATableAllocRecEntry T = (None, None, T)"
      then show ?thesis using assms(2-5) True by (simp add: BARecSessionAdd_def table_sizes Let_def)
    next
      fix i
      assume "0 < i" "i < 128" "BATableAllocRecEntry T = (Some i, Some i, T\<lparr>numAsRecipient := numAsRecipient T + 1,
            BARecEntry := (BARecEntry T)[i := (BARecEntry T ! i)\<lparr>REC_BA_Status := Recipient_USED\<rparr>]\<rparr>)"
      then show ?thesis
        using assms(2-5) True len by (auto simp: BARecSessionAdd_def table_sizes Let_def upd_mac_def upd_rec_def)
    qed
  next
    case False
    then show ?thesis
      using rec_slot_ok(1) [OF assms(1,2,4) refl False] assms(2-5) len
      by (auto simp: BARecSessionAdd_def table_sizes Let_def upd_mac_def upd_rec_def with_pool_def
          split: prod.splits)
  qed
qed

text \<open>An answer that reports success is the answer of \<open>BARecSessionAdd\<close>.\<close>

lemma PeerAddBAReqAction_granted:
  assumes "w < 32" and "PeerAddBAReqAction cfg w Msg n T = Some (T', outs)"
    and "last outs = Send_ADDBA_Response a tok 0 tid buf"
  shows "buf = unat (granted cfg (BufSize (Req_Parm Msg))) \<and> tid = TID (Req_Parm Msg)
    \<and> (\<exists>outs. BARecSessionAdd cfg w Msg T = Some (True, T', outs))"
  using assms
  by (auto simp: PeerAddBAReqAction_def table_sizes Let_def split: if_splits prod.splits option.splits)

lemma BAOriSessionAdd_window:
  assumes "table_ok T" and "w < 32" and "TID (Rsp_Parm Msg) = tid" and "tid < 8"
    and "BAOriSessionAdd cfg w Msg T = Some (T', outs)" and "BAOriWcidArray (MacTab T ! w) ! tid \<noteq> 0"
    and "ORI_BA_Status (ori_session T w tid) = Originator_WaitRes"
    and "0 < BufSize (Rsp_Parm Msg)" and "BufSize (Rsp_Parm Msg) < 256"
  shows "ORI_BA_Status (ori_session T' w tid) = Originator_Done
    \<and> uint (oBAWinSize (ori_session T' w tid)) < int (BufSize (Rsp_Parm Msg))"
proof -
  note ok = table_okD [OF assms(1)] and slot = ori_slot_ok [OF assms(1,2,4) refl assms(6)]
  let ?e = "ori_session T w tid" and ?size = "word_of_nat (BufSize (Rsp_Parm Msg)) :: u8"
  let ?win = "BA_MaxWinSizeReasign cfg (MacTab T ! w) (min (oBAWinSize ?e) (?size - 1))"
  have len: "length (BAOriEntry T) = 128" "w < length (MacTab T)"
    using ori_okD(1) [OF ok(2)] mac_okD [OF ok(1) assms(2)] assms(2) by simp_all
  have size: "unat ?size = BufSize (Rsp_Parm Msg)" using assms(9) by (simp add: unat_of_nat)
  then have pos: "0 < ?size" using assms(8) by (simp add: word_less_nat_alt)
  have "?win \<le> ?size - 1"
    by (auto simp: BA_MaxWinSizeReasign_def Let_def)
  also have "?size - 1 < ?size"
    using pos unat_sub [of 1 ?size] by (simp add: word_less_nat_alt word_le_nat_alt)
  finally have "uint ?win < int (BufSize (Rsp_Parm Msg))"
    unfolding word_less_def uint_nat [of ?size] size .
  moreover have "oBAWinSize (ori_session T' w tid) = ?win" "ORI_BA_Status (ori_session T' w tid) = Originator_Done"
    using assms(2-7) slot len pos
    by (auto simp: BAOriSessionAdd_def table_sizes Let_def upd_ori_def upd_mac_def)
  ultimately show ?thesis by simp
qed

section \<open>The properties\<close>

text \<open>Stations and a configuration to apply the properties to.\<close>

definition sample_station :: "nat \<Rightarrow> mac_table_entry" where
  "sample_station w = \<lparr>in_use = True, Aid = w, Addr = [0, 12, 67, 0, 0, word_of_nat w], TXBAbitmap = 0,
     RXBAbitmap = 0, BADeclineBitmap = 0, BARecWcidArray = replicate 8 0, BAOriWcidArray = replicate 8 0,
     TxSeq = replicate 8 0, MaxRAmpduFactor = 3, MCSSet2 = 0, ralink_chipset = True, HT_STA = True\<rparr>"

definition sample_config :: ba_config where
  "sample_config = \<lparr>AutoBA = True, bBADecline = False, RxBAWinLimit = 16, TxPath = 2, FixedTxMode = 0,
     monitor_on = False, scan_while_connected = False, tgn_wifi_on = False, halt_in_progress = False\<rparr>"

abbreviation sample_table :: ba_table where
  "sample_table \<equiv> session_start (map sample_station [0..<32]) 4"

lemma sample_reach: "session_reach cfg sample_table"
  by (rule session_reach.start) (simp_all add: fresh_station_def sample_station_def)

text \<open>C2: The tables are well formed (entries and the slots of the stations point at each other, the
counters count the entries, the bitmaps say which sessions stand, the buffers are consistent) in every
state that set-ups, expiries, frames of peers, teardowns and maintenance bring about, in any order and
with any arguments, as long as no handler has accessed memory outside an array. From such a state a
handler does so exactly for the events of \<open>outside_arrays\<close>: a request, response or teardown frame of a
station with a priority of 8 or more that passes the other checks, a buffer shorter than a request, or
a call for a station from 32 on (of a set-up), an entry from 128 on (of an expiry) or a priority from 8
on (of a teardown); in all other cases it returns, and leaves well-formed tables.\<close>

theorem ba_tables_invariant:
  assumes "session_reach cfg T"
  shows "table_ok T \<and> (session_handle cfg ev T = None \<longleftrightarrow> outside_arrays cfg T ev)
    \<and> (\<forall>T' outs. session_handle cfg ev T = Some (T', outs) \<longrightarrow> table_ok T')"
  using session_outcome [OF session_reach_ok [OF assms], of cfg ev] session_reach_ok [OF assms]
    session_handle_ok [OF session_reach_ok [OF assms]] by (auto split: if_splits)

theorem ba_tables_invariant_witness:
  "table_ok sample_table \<and> (\<exists>T' outs. session_handle sample_config (Set_Up 1 0 0 10 False) sample_table = Some (T', outs)
    \<and> table_ok T')"
  using ba_tables_invariant [where ev = "Set_Up 1 0 0 10 False", OF sample_reach [where cfg = sample_config]]
  by (cases "session_handle sample_config (Set_Up 1 0 0 10 False) sample_table") (auto simp: outside_arrays_def)

text \<open>C26: The two allocators either report a full table, with 127 entries in use, or return a free
entry other than the first and its index; the case where the search runs off the end and leaves
the index as it was never occurs.\<close>

theorem ba_allocators_bounds:
  assumes "session_reach cfg T"
  shows "(case BATableAllocOriEntry T of (p, set_Idx, T') \<Rightarrow> p = set_Idx
        \<and> (case p of None \<Rightarrow> numAsOriginator T = 127 \<and> T' = T
           | Some i \<Rightarrow> 0 < i \<and> i < 128 \<and> ORI_BA_Status (BAOriEntry T ! i) = Originator_NONE
               \<and> numAsOriginator T' = numAsOriginator T + 1 \<and> unat (numAsOriginator T') \<le> 127))
    \<and> (case BATableAllocRecEntry T of (p, set_Idx, T') \<Rightarrow> p = set_Idx
        \<and> (case p of None \<Rightarrow> numAsRecipient T = 127 \<and> T' = T
           | Some i \<Rightarrow> 0 < i \<and> i < 128 \<and> REC_BA_Status (BARecEntry T ! i) = Recipient_NONE
               \<and> numAsRecipient T' = numAsRecipient T + 1 \<and> unat (numAsRecipient T') \<le> 127))"
proof -
  have T: "table_ok T" by (rule session_reach_ok [OF assms])
  have less: "unat (n + 1) \<le> 127" if "unat n \<le> 127" "n \<noteq> 127" for n :: u32
    using that unat_inc [of n] by (simp add: word_unat_eq_iff)
  have "numAsOriginator T \<noteq> 127" if "BATableAllocOriEntry T = (Some i, q)" for i q
    using that by (auto simp: BATableAllocOriEntry_def table_sizes)
  moreover have "numAsRecipient T \<noteq> 127" if "BATableAllocRecEntry T = (Some i, q)" for i q
    using that by (auto simp: BATableAllocRecEntry_def table_sizes)
  ultimately show ?thesis
    using BATableAllocOriEntry_ok [OF T] BATableAllocRecEntry_ok [OF T]
      less [OF ori_counters(1) [OF table_okD(2) [OF T]]] less [OF rec_counter [OF table_okD(3) [OF T]]]
    by (elim disjE exE conjE) simp_all
qed

theorem ba_allocators_bounds_witness:
  "case BATableAllocOriEntry sample_table of (p, set_Idx, T') \<Rightarrow> p = set_Idx"
  using ba_allocators_bounds [OF sample_reach [of sample_config]] by (simp add: split_beta)

text \<open>C25: A set-up that no peer answers ends: after the first request, each of the next seven
expiries of the timer sends one more, numbered 1 to 7, and the eighth gives the entry back, clears
the slot of the station and counts the entry out.\<close>

theorem setup_gives_up:
  assumes "session_reach cfg T" and "i < 128" and "awaits T i 1"
    and "\<not> monitor_on cfg" and "\<not> scan_while_connected cfg"
  shows "\<exists>T'. retry cfg i 8 T = Some (T', map (retry_request cfg T i) [1, 2, 3, 4, 5, 6, 7])
    \<and> ORI_BA_Status (BAOriEntry T' ! i) = Originator_NONE
    \<and> BAOriWcidArray (MacTab T' ! oWcid (BAOriEntry T ! i)) ! oTID (BAOriEntry T ! i) = 0
    \<and> numAsOriginator T' = numAsOriginator T - 1"
proof -
  have T: "table_ok T" by (rule session_reach_ok [OF assms(1)])
  obtain T1 where T1: "retry cfg i 7 T = Some (T1, map (retry_request cfg T i) [8 - 7..<8])" "table_ok T1"
    "awaits T1 i 8" "ori_key (BAOriEntry T1 ! i) = ori_key (BAOriEntry T ! i)" "numAsOriginator T1 = numAsOriginator T"
    using retry_requests [OF T assms(2), of 7 cfg] assms(3-5) by auto
  obtain T2 where T2: "BAOriSessionSetupTimeout cfg i T1 = Some (T2, [])"
    "ORI_BA_Status (BAOriEntry T2 ! i) = Originator_NONE"
    "BAOriWcidArray (MacTab T2 ! oWcid (BAOriEntry T1 ! i)) ! oTID (BAOriEntry T1 ! i) = 0"
    "numAsOriginator T2 = numAsOriginator T1 - 1"
    using retry_end [OF T1(2) assms(2) T1(3) assms(4) refl refl] by blast
  have "[8 - 7..<8] = [1, 2, 3, 4, 5, 6, 7 :: nat]" by (simp add: upt_rec)
  then have "retry cfg i 8 T = Some (T2, map (retry_request cfg T i) [1, 2, 3, 4, 5, 6, 7])"
    using retry_last [OF T1(1) T2(1)] by simp
  then show ?thesis using T1(4,5) T2(2-4) by auto
qed

lemma sample_stations:
  "MacTab sample_table = map sample_station [0..<32]" "BAOriEntry sample_table = replicate 128 zero_ori"
  "BARecEntry sample_table = replicate 128 zero_rec" "numAsOriginator sample_table = 0" "numAsRecipient sample_table = 0"
  by (simp_all add: session_start_def table_sizes)

lemma first_entry: "P (Suc 0) \<Longrightarrow> find P [1..<128] = Some 1"
  by (simp add: upt_conv_Cons)

definition sample_set_up :: ba_table where
  "sample_set_up = the (BAOriSessionSetUp sample_config 1 0 0 10 False sample_table)"

lemma sample_set_up:
  "BAOriSessionSetUp sample_config 1 0 0 10 False sample_table = Some sample_set_up"
  "BAOriEntry sample_set_up ! 1 = zero_ori\<lparr>ORI_BA_Status := Originator_WaitRes, oWcid := 1, oBAWinSize := 16, Token := 1,
      ORIBATimer := RTMPSetTimer (halt_in_progress sample_config) 10 (RTMPInitTimer False zero_timer)\<rparr>"
  "BAOriWcidArray (MacTab sample_set_up ! 1) ! 0 = 1"
  using first_entry [of "\<lambda>i. ORI_BA_Status (BAOriEntry sample_table ! i) = Originator_NONE"]
  by (simp_all add: sample_set_up_def BAOriSessionSetUp_def BATableAllocOriEntry_def sample_stations table_sizes
      Let_def sample_config_def sample_station_def zero_ori_def FIXED_TXMODE_HT_def upd_mac_def upd_ori_def
      less_eq_ORI_BLOCKACK_STATUS_def)

lemma sample_set_up_reach: "session_reach sample_config sample_set_up"
  by (rule session_reach.handle [OF sample_reach, where ev = "Set_Up 1 0 0 10 False"])
    (simp_all add: session_handle_def sample_set_up(1) del: One_nat_def)

theorem setup_gives_up_witness:
  "\<exists>T'. retry sample_config 1 8 sample_set_up
      = Some (T', map (retry_request sample_config sample_set_up 1) [1, 2, 3, 4, 5, 6, 7])
    \<and> ORI_BA_Status (BAOriEntry T' ! 1) = Originator_NONE
    \<and> BAOriWcidArray (MacTab T' ! oWcid (BAOriEntry sample_set_up ! 1)) ! oTID (BAOriEntry sample_set_up ! 1) = 0
    \<and> numAsOriginator T' = numAsOriginator sample_set_up - 1"
  by (rule setup_gives_up [OF sample_set_up_reach])
    (simp_all only: awaits_def sample_set_up(2), simp_all add: sample_config_def)

text \<open>C27: The teardown of all sessions of a station returns and leaves the station without any: all
sixteen slots are empty and the sixteen bits of the two maps are clear.\<close>

theorem teardown_leaves_no_session:
  assumes "session_reach cfg T" and "w < 32"
  shows "\<exists>T' outs. BASessionTearDownALL w T = Some (T', outs)
    \<and> (\<forall>t < 8. BAOriWcidArray (MacTab T' ! w) ! t = 0 \<and> BARecWcidArray (MacTab T' ! w) ! t = 0
        \<and> \<not> bit (TXBAbitmap (MacTab T' ! w)) t \<and> \<not> bit (RXBAbitmap (MacTab T' ! w)) t)"
proof -
  obtain T' outs where T': "feed (teardown_turn w) (T, []) [0..<8] = Some (T', outs)" "table_ok T'" "cleared w 8 T'"
    using teardown_clears [OF session_reach_ok [OF assms(1)] assms(2), of 8] by auto
  note ok = table_okD [OF T'(2)]
  have "ori_slot (MacTab T') (w, t) = 0 \<and> rec_slot (MacTab T') (w, t) = 0" if "t < 8" for t
    using T'(3) that by (simp add: cleared_def slots_def)
  then show ?thesis
    using T' assms(2) ori_okD(5) [OF ok(2) assms(2)] rec_okD(4) [OF ok(3) assms(2)]
    by (simp add: BASessionTearDownALL_def table_sizes cleared_def)
qed

theorem teardown_leaves_no_session_witness:
  "\<exists>T' outs. BASessionTearDownALL 1 sample_set_up = Some (T', outs)
    \<and> (\<forall>t < 8. BAOriWcidArray (MacTab T' ! 1) ! t = 0 \<and> BARecWcidArray (MacTab T' ! 1) ! t = 0
        \<and> \<not> bit (TXBAbitmap (MacTab T' ! 1)) t \<and> \<not> bit (RXBAbitmap (MacTab T' ! 1)) t)"
  by (rule teardown_leaves_no_session [OF sample_set_up_reach]) simp

text \<open>C4: The two ends of a session agree on the window. If a recipient grants a request and the
originator, in a driver of its own, takes the size and priority of that answer, then both sides have
the session, and the originator keeps its window strictly below the one the recipient reorders with.\<close>

theorem ba_windows_agree:
  assumes "session_reach cfg R" and "w < 32"
    and "PeerAddBAReqAction cfg w Req n R = Some (R', outs)" and "tid < 8"
    and "last outs = Send_ADDBA_Response a tok 0 tid buf"
    and "session_reach cfg' T" and "w' < 32" and "BAOriWcidArray (MacTab T ! w') ! tid \<noteq> 0"
    and "ORI_BA_Status (ori_session T w' tid) = Originator_WaitRes"
    and "TID (Rsp_Parm Rsp) = tid" and "BufSize (Rsp_Parm Rsp) = buf"
    and "BAOriSessionAdd cfg' w' Rsp T = Some (T', outs')"
  shows "REC_BA_Status (rec_session R' w tid) = Recipient_Accept \<and> ORI_BA_Status (ori_session T' w' tid) = Originator_Done
    \<and> uint (oBAWinSize (ori_session T' w' tid)) < BAWinSize (reorder (rec_session R' w tid))
    \<and> BAWinSize (reorder (rec_session R' w tid)) = int buf"
proof -
  from PeerAddBAReqAction_granted [OF assms(2,3,5)] obtain o1 where
    r: "buf = unat (granted cfg (BufSize (Req_Parm Req)))" "TID (Req_Parm Req) = tid"
      "BARecSessionAdd cfg w Req R = Some (True, R', o1)" by blast
  have "granted cfg (BufSize (Req_Parm Req)) \<noteq> 0" by (simp add: Let_def)
  then obtain g where g: "granted cfg (BufSize (Req_Parm Req)) = g" "g \<noteq> 0" "buf = unat g" using r(1) by blast
  have buf: "0 < BufSize (Rsp_Parm Rsp)" "BufSize (Rsp_Parm Rsp) < 256" "int buf = uint g"
    using unsigned_less [of g] g(2) unfolding assms(11) g(3) by (simp_all add: unat_gt_0)
  show ?thesis
    using BARecSessionAdd_window [OF session_reach_ok [OF assms(1)] assms(2) r(2) assms(4) r(3), unfolded g(1)]
      BAOriSessionAdd_window [OF session_reach_ok [OF assms(6)] assms(7,10,4,12,8,9) buf(1,2), unfolded assms(11)] buf(3)
    by simp
qed

text \<open>A request and an answer of this driver.\<close>

definition sample_request :: bytes where
  "sample_request = replicate 10 0 @ [0, 12, 67, 0, 0, 1] @ replicate 10 0 @ [7, 2, 16, 0, 0, 0, 0]"

definition sample_answer :: bytes where
  "sample_answer = replicate 27 0 @ [0, 0, 2, 4, 0, 0]"

lemma sample_frames:
  "Req_Parm sample_request = \<lparr>AMSDUSupported = False, BAPolicy = True, TID = 0, BufSize = 64\<rparr>"
  "Rsp_Parm sample_answer = \<lparr>AMSDUSupported = False, BAPolicy = True, TID = 0, BufSize = 16\<rparr>"
  "length sample_request = 33" "sample_request ! 26 = 7" "take 6 (drop 10 sample_request) = [0, 12, 67, 0, 0, 1]"
  by (simp_all add: Req_Parm_def Rsp_Parm_def BA_PARM_def get_le16_def sample_request_def sample_answer_def nth_append)

lemma sample_granted:
  obtains R' outs where "PeerAddBAReqAction sample_config 1 sample_request 33 sample_table = Some (R', outs)"
    and "last outs = Send_ADDBA_Response (Some [0, 12, 67, 0, 0, 1]) 7 0 0 16"
  using first_entry [of "\<lambda>i. REC_BA_Status (BARecEntry sample_table ! i) = Recipient_NONE"]
  by (simp add: PeerAddBAReqAction_def BARecSessionAdd_def BATableAllocRecEntry_def PeerAddBAReqActionSanity_def
      sample_frames sample_stations table_sizes Let_def sample_config_def sample_station_def zero_rec_def)

lemma sample_agreed:
  obtains T' outs where "BAOriSessionAdd sample_config 1 sample_answer sample_set_up = Some (T', outs)"
  using BAOriSessionAdd_ok [OF session_reach_ok [OF sample_set_up_reach], of 1 sample_answer sample_config]
  by (auto simp: sample_frames)

theorem ba_windows_agree_witness:
  "\<exists>R' outs T' outs'. PeerAddBAReqAction sample_config 1 sample_request 33 sample_table = Some (R', outs)
    \<and> BAOriSessionAdd sample_config 1 sample_answer sample_set_up = Some (T', outs')
    \<and> REC_BA_Status (rec_session R' 1 0) = Recipient_Accept \<and> ORI_BA_Status (ori_session T' 1 0) = Originator_Done
    \<and> uint (oBAWinSize (ori_session T' 1 0)) < BAWinSize (reorder (rec_session R' 1 0))
    \<and> BAWinSize (reorder (rec_session R' 1 0)) = int 16"
proof -
  obtain R' outs where R: "PeerAddBAReqAction sample_config 1 sample_request 33 sample_table = Some (R', outs)"
    "last outs = Send_ADDBA_Response (Some [0, 12, 67, 0, 0, 1]) 7 0 0 16" by (rule sample_granted)
  obtain T' outs' where T: "BAOriSessionAdd sample_config 1 sample_answer sample_set_up = Some (T', outs')"
    by (rule sample_agreed)
  have slot: "BAOriWcidArray (MacTab sample_set_up ! 1) ! 0 \<noteq> 0"
    "ORI_BA_Status (ori_session sample_set_up 1 0) = Originator_WaitRes"
    unfolding sample_set_up(3) sample_set_up(2) by simp_all
  have frame: "TID (Rsp_Parm sample_answer) = 0" "BufSize (Rsp_Parm sample_answer) = 16" by (simp_all add: sample_frames)
  show ?thesis
    using R(1) T ba_windows_agree [OF sample_reach _ R(1) _ R(2) sample_set_up_reach _ slot frame T]
    by (simp only: less_numeral_extra one_less_numeral_iff zero_less_numeral semiring_norm simp_thms) blast
qed

text \<open>C40: The priority of a request is a field of four bits that indexes arrays of eight: a request
of a station with HT for a priority of eight or more, in a frame that passes the check, reads and
writes outside the array of the station.\<close>

theorem request_priority_out_of_range:
  assumes "session_reach cfg T" and "w < 32" and "33 \<le> length Msg" and "33 \<le> n" and "BAPolicy (Req_Parm Msg)"
    and "\<not> bBADecline cfg" and "HT_STA (MacTab T ! w)"
  shows "PeerAddBAReqAction cfg w Msg n T = None \<longleftrightarrow> 8 \<le> TID (Req_Parm Msg)"
proof
  assume "PeerAddBAReqAction cfg w Msg n T = None"
  then show "8 \<le> TID (Req_Parm Msg)"
    using PeerAddBAReqAction_ok [OF session_reach_ok [OF assms(1)] assms(3), of cfg w n] by force
next
  assume "8 \<le> TID (Req_Parm Msg)"
  then show "PeerAddBAReqAction cfg w Msg n T = None"
    using assms(2-7) by (simp add: PeerAddBAReqAction_def PeerAddBAReqActionSanity_def BARecSessionAdd_def table_sizes Let_def)
qed

definition bad_request :: bytes where
  "bad_request = replicate 27 0 @ [34, 16, 0, 0, 0, 0]"

theorem request_priority_out_of_range_witness:
  "PeerAddBAReqAction sample_config 1 bad_request 33 sample_table = None"
proof -
  have "Req_Parm bad_request = \<lparr>AMSDUSupported = False, BAPolicy = True, TID = 8, BufSize = 64\<rparr>"
    by (simp add: Req_Parm_def BA_PARM_def get_le16_def bad_request_def nth_append)
  then show ?thesis
    using request_priority_out_of_range [OF sample_reach, of 1 bad_request 33 sample_config]
    by (simp add: bad_request_def sample_config_def sample_stations sample_station_def)
qed

end
