(* ===== verification/Wpa_Kdf.thy ===== *)
theory Wpa_Kdf
  imports Crypt_Hmac
begin

text \<open>
  The derivation of keys in \<open>rt5572/common/cmm_wpa.c\<close>: the two pseudo-random functions, the pass
  phrase mapping, the pairwise and the group key and the random numbers, against IEEE 802.11,
  IEEE 802.11r and RFC 2898. Allocations succeed.
\<close>

section \<open>The routines\<close>

text \<open>
  \<open>PRF\<close> works on a buffer of 1024 bytes whose first contents are never read, and writes whole
  digests to the output. One turn hashes and increments the last byte.
\<close>

definition prf_turn :: "bytes \<Rightarrow> nat \<Rightarrow> bytes \<times> bytes \<Rightarrow> nat \<Rightarrow> (bytes \<times> bytes) option" where
  "prf_turn key total_len st i =
     (case st of (input, output) \<Rightarrow>
        (case RT_HMAC_SHA1 key (take total_len input) 20 of
           None \<Rightarrow> None
         | Some mac \<Rightarrow>
             map_option (\<lambda>output. (input[total_len - 1 := input ! (total_len - 1) + 1], output))
               (move_mem (20 * i) 20 mac output)))"

definition PRF :: "bytes \<Rightarrow> nat \<Rightarrow> bytes \<Rightarrow> nat \<Rightarrow> bytes \<Rightarrow> nat \<Rightarrow> bytes \<Rightarrow> nat \<Rightarrow> bytes option" where
  "PRF key key_len prefix prefix_len data data_len output len =
     (if length key < key_len then None
      else
        (case move_mem 0 prefix_len prefix (replicate 1024 0) of
           None \<Rightarrow> None
         | Some input \<Rightarrow>
             (case move_mem prefix_len 1 [0] input of
                None \<Rightarrow> None
              | Some input \<Rightarrow>
                  (case move_mem (prefix_len + 1) data_len data input of
                     None \<Rightarrow> None
                   | Some input \<Rightarrow>
                       let total_len = prefix_len + 1 + data_len in
                       (case move_mem total_len 1 [0] input of
                          None \<Rightarrow> None
                        | Some input \<Rightarrow>
                            let total_len = total_len + 1
                            in map_option snd (feed (prf_turn (take key_len key) total_len) (input, output)
                                 [0..<(len + 19) div 20]))))))"

text \<open>
  \<open>F\<close> of the pass phrase mapping. The state of the loop is \<open>digest1\<close> and the output; a digest of 36
  bytes holds the name of the network and the number of the block.
\<close>

definition f_turn :: "bytes \<Rightarrow> bytes \<times> bytes \<Rightarrow> nat \<Rightarrow> (bytes \<times> bytes) option" where
  "f_turn password st i =
     (case st of (digest1, output) \<Rightarrow>
        map_option (\<lambda>digest. (digest, xor_bytes output digest)) (RT_HMAC_SHA1 password digest1 20))"

definition password_F :: "bytes \<Rightarrow> bytes \<Rightarrow> nat \<Rightarrow> nat \<Rightarrow> nat \<Rightarrow> bytes option" where
  "password_F password ssid ssidlength iterations count =
     (case move_mem 0 ssidlength ssid (replicate 36 0) of
        None \<Rightarrow> None
      | Some digest \<Rightarrow>
          (case move_mem ssidlength 4 (put_be32 (word_of_nat count)) digest of
             None \<Rightarrow> None
           | Some digest \<Rightarrow>
               (case RT_HMAC_SHA1 password (take (ssidlength + 4) digest) 20 of
                  None \<Rightarrow> None
                | Some digest1 \<Rightarrow>
                    map_option snd (feed (f_turn password) (digest1, digest1) [1..<iterations]))))"

definition RtmpPasswordHash :: "bytes \<Rightarrow> bytes \<Rightarrow> nat \<Rightarrow> bytes \<Rightarrow> (nat \<times> bytes) option" where
  "RtmpPasswordHash password ssid ssidlength output =
     (if length password > 63 \<or> ssidlength > 32 then Some (0, output)
      else
        (case password_F password ssid ssidlength 4096 1 of
           None \<Rightarrow> None
         | Some d1 \<Rightarrow>
             (case move_mem 0 20 d1 output of
                None \<Rightarrow> None
              | Some output \<Rightarrow>
                  (case password_F password ssid ssidlength 4096 2 of
                     None \<Rightarrow> None
                   | Some d2 \<Rightarrow> map_option (Pair 1) (move_mem 20 20 d2 output)))))"

text \<open>\<open>KDF\<close>, with \<open>len\<close> of 16 bits; the iterations are counted in the first byte only.\<close>

definition kdf_turn :: "bytes \<Rightarrow> nat \<Rightarrow> bytes \<times> bytes \<Rightarrow> nat \<Rightarrow> (bytes \<times> bytes) option" where
  "kdf_turn key total_len st i =
     (case st of (input, output) \<Rightarrow>
        (case RT_HMAC_SHA256 key (take total_len input) 32 of
           None \<Rightarrow> None
         | Some mac \<Rightarrow>
             map_option (\<lambda>output. (input[0 := input ! 0 + 1], output)) (move_mem (32 * i) 32 mac output)))"

definition KDF :: "bytes \<Rightarrow> nat \<Rightarrow> bytes \<Rightarrow> nat \<Rightarrow> bytes \<Rightarrow> nat \<Rightarrow> bytes \<Rightarrow> u16 \<Rightarrow> bytes option" where
  "KDF key key_len label label_len data data_len output len =
     (if length key < key_len then None
      else
        let len_in_bits = unat len * 8 in
        (case move_mem 0 2 [1, 0] (replicate 1024 0) of
           None \<Rightarrow> None
         | Some input \<Rightarrow>
             (case move_mem 2 label_len label input of
                None \<Rightarrow> None
              | Some input \<Rightarrow>
                  (case move_mem (2 + label_len) data_len data input of
                     None \<Rightarrow> None
                   | Some input \<Rightarrow>
                       let total_len = 2 + label_len + data_len in
                       (case move_mem total_len 2 [word_of_nat len_in_bits, word_of_nat (len_in_bits div 256)] input of
                          None \<Rightarrow> None
                        | Some input \<Rightarrow>
                            let total_len = total_len + 2
                            in map_option snd (feed (kdf_turn (take key_len key) total_len) (input, output)
                                 [0..<(len_in_bits + 255) div 256]))))))"

text \<open>\<open>RTMPDerivePMKID\<close>; the text is \<open>PMK Name\<close> and the two addresses.\<close>

definition RTMPDerivePMKID :: "bytes \<Rightarrow> bytes \<Rightarrow> bytes \<Rightarrow> bytes option" where
  "RTMPDerivePMKID pAaddr pSpaddr pKey =
     (if length pAaddr < 6 \<or> length pSpaddr < 6 \<or> length pKey < 32 then None
      else
        let text_buf = [0x50, 0x4d, 0x4b, 0x20, 0x4e, 0x61, 0x6d, 0x65] @ take 6 pAaddr @ take 6 pSpaddr
        in map_option (take 16) (RT_HMAC_SHA1 (take 32 pKey) text_buf 20))"

text \<open>\<open>RTMPCompareMemory\<close> of \<open>rtmp_init.c\<close>, on memory that is long enough.\<close>

fun RTMPCompareMemory :: "bytes \<Rightarrow> bytes \<Rightarrow> nat \<Rightarrow> nat" where
  "RTMPCompareMemory pMem1 pMem2 0 = 0"
| "RTMPCompareMemory pMem1 pMem2 (Suc n) =
     (if hd pMem1 > hd pMem2 then 1 else if hd pMem1 < hd pMem2 then 2
      else RTMPCompareMemory (tl pMem1) (tl pMem2) n)"

text \<open>
  The 76 bytes that \<open>WpaDerivePTK\<close> expands. With equal nonces the code takes 32 bytes that hold the
  larger address instead of them.
\<close>

definition ptk_text :: "bytes \<Rightarrow> bytes \<Rightarrow> bytes \<Rightarrow> bytes \<Rightarrow> bytes" where
  "ptk_text ANonce AA SNonce SA =
     (let smaller = (if RTMPCompareMemory SA AA 6 = 1 then AA else SA);
          larger = (if RTMPCompareMemory SA AA 6 = 1 then SA else AA);
          temp = larger @ replicate 26 0;
          cmp = RTMPCompareMemory ANonce SNonce 32
      in smaller @ larger
         @ (if cmp = 0 then temp else if cmp = 1 then SNonce else ANonce)
         @ (if cmp = 0 then temp else if cmp = 1 then ANonce else SNonce))"

definition Prefix_PTK :: bytes where
  "Prefix_PTK = [0x50, 0x61, 0x69, 0x72, 0x77, 0x69, 0x73, 0x65, 0x20, 0x6b, 0x65, 0x79, 0x20,
     0x65, 0x78, 0x70, 0x61, 0x6e, 0x73, 0x69, 0x6f, 0x6e]"

definition WpaDerivePTK :: "bytes \<Rightarrow> bytes \<Rightarrow> bytes \<Rightarrow> bytes \<Rightarrow> bytes \<Rightarrow> bytes \<Rightarrow> nat \<Rightarrow> bytes option" where
  "WpaDerivePTK PMK ANonce AA SNonce SA output len =
     (if length AA < 6 \<or> length SA < 6 \<or> length ANonce < 32 \<or> length SNonce < 32 then None
      else PRF PMK 32 Prefix_PTK 22 (ptk_text (take 32 ANonce) (take 6 AA) (take 32 SNonce) (take 6 SA)) 76 output len)"

definition Prefix_GTK :: bytes where
  "Prefix_GTK = [0x47, 0x72, 0x6f, 0x75, 0x70, 0x20, 0x6b, 0x65, 0x79, 0x20,
     0x65, 0x78, 0x70, 0x61, 0x6e, 0x73, 0x69, 0x6f, 0x6e]"

definition WpaDeriveGTK :: "bytes \<Rightarrow> bytes \<Rightarrow> bytes \<Rightarrow> bytes \<Rightarrow> nat \<Rightarrow> bytes option" where
  "WpaDeriveGTK GMK GNonce AA output len =
     (if length AA < 6 \<or> length GNonce < 32 then None
      else
        (case PRF GMK 32 Prefix_GTK 19 (take 6 AA @ take 32 GNonce) 38 (replicate 80 0) len of
           None \<Rightarrow> None
         | Some temp \<Rightarrow> move_mem 0 len temp output))"

text \<open>\<open>GenRandom\<close>: \<open>now i\<close> is the system time in turn \<open>i\<close>, of four bytes.\<close>

definition Prefix_Random :: bytes where
  "Prefix_Random = [0x49, 0x6e, 0x69, 0x74, 0x20, 0x43, 0x6f, 0x75, 0x6e, 0x74, 0x65, 0x72]"

definition random_turn :: "(nat \<Rightarrow> u32) \<Rightarrow> bytes \<Rightarrow> bytes \<Rightarrow> nat \<Rightarrow> bytes option" where
  "random_turn now macAddr result i =
     PRF (replicate 32 0) 32 Prefix_Random 12
       (take 6 macAddr @ store32 (now i) @ take 32 result @ take 2 (store32 (word_of_nat i))) 44 result 32"

definition GenRandom :: "(nat \<Rightarrow> u32) \<Rightarrow> bytes \<Rightarrow> bytes option" where
  "GenRandom now macAddr =
     (if length macAddr < 6 then None
      else map_option (take 32) (feed (random_turn now macAddr) (replicate 80 0) [0..<32]))"

section \<open>The standards\<close>

abbreviation hmac_sha1 :: "bytes \<Rightarrow> bytes \<Rightarrow> bytes" where
  "hmac_sha1 \<equiv> rfc2104_hmac fips_sha1"

abbreviation hmac_sha256 :: "bytes \<Rightarrow> bytes \<Rightarrow> bytes" where
  "hmac_sha256 \<equiv> rfc2104_hmac fips_sha256"

text \<open>The function of IEEE 802.11, 8.5.1.1, for \<open>n\<close> bytes.\<close>

definition prf_80211 :: "bytes \<Rightarrow> bytes \<Rightarrow> bytes \<Rightarrow> nat \<Rightarrow> bytes" where
  "prf_80211 K A B n =
     take n (concat (map (\<lambda>i. hmac_sha1 K (A @ 0 # B @ [word_of_nat i])) [0..<(n + 19) div 20]))"

text \<open>The function of IEEE 802.11r, 8.5.1.5.2, for \<open>n\<close> bytes; the numbers are of 16 bits, low byte first.\<close>

definition le16 :: "nat \<Rightarrow> bytes" where
  "le16 n = [word_of_nat n, word_of_nat (n div 256)]"

definition kdf_80211r :: "bytes \<Rightarrow> bytes \<Rightarrow> bytes \<Rightarrow> nat \<Rightarrow> bytes" where
  "kdf_80211r K label context n =
     take n (concat (map (\<lambda>i. hmac_sha256 K (le16 i @ label @ context @ le16 (8 * n))) [1..<(8 * n + 255) div 256 + 1]))"

text \<open>RFC 2898: the sum of the iterates, for block \<open>i\<close>.\<close>

fun pbkdf2_U :: "bytes \<Rightarrow> bytes \<Rightarrow> nat \<Rightarrow> bytes" where
  "pbkdf2_U P s 0 = hmac_sha1 P s"
| "pbkdf2_U P s (Suc j) = hmac_sha1 P (pbkdf2_U P s j)"

definition pbkdf2_T :: "bytes \<Rightarrow> bytes \<Rightarrow> nat \<Rightarrow> nat \<Rightarrow> bytes" where
  "pbkdf2_T P S c i =
     (let s = S @ put_be32 (word_of_nat i)
      in foldl (\<lambda>T j. xor_bytes T (pbkdf2_U P s j)) (pbkdf2_U P s 0) [1..<c])"

text \<open>Bytes as a number, most significant first, which is how the standard orders addresses and nonces.\<close>

definition be_number :: "bytes \<Rightarrow> nat" where
  "be_number b = foldl (\<lambda>n x. 256 * n + unat x) 0 b"

definition smaller_first :: "bytes \<Rightarrow> bytes \<Rightarrow> bytes" where
  "smaller_first a b = (if be_number a \<le> be_number b then a @ b else b @ a)"

text \<open>The pairwise key of IEEE 802.11, 8.5.1.2.\<close>

definition ptk_80211 :: "bytes \<Rightarrow> bytes \<Rightarrow> bytes \<Rightarrow> bytes \<Rightarrow> bytes \<Rightarrow> nat \<Rightarrow> bytes" where
  "ptk_80211 PMK AA SPA ANonce SNonce n =
     prf_80211 PMK Prefix_PTK (smaller_first AA SPA @ smaller_first ANonce SNonce) n"

section \<open>Loops that write digests\<close>

lemma length_hmac [simp]: "length (hmac_sha1 K m) = 20" "length (hmac_sha256 K m) = 32"
  by (simp_all add: rfc2104_hmac_def Let_def sha1.digest_length sha256.digest_length)

lemma hmac_full:
  assumes "length K + 64 < 4294967296" and "length m + 64 < 4294967296"
  shows "RT_HMAC_SHA1 K m 20 = Some (hmac_sha1 K m)" "RT_HMAC_SHA256 K m 32 = Some (hmac_sha256 K m)"
  unfolding RT_HMAC_SHA1_def RT_HMAC_SHA256_def
  using sha1.hmac_frame_rfc [OF RT_SHA1_digest assms, of 20] sha256.hmac_frame_rfc [OF RT_SHA256_digest assms, of 32]
  by simp_all

lemma length_concat_upt: "(\<And>i. length (mac i) = d) \<Longrightarrow> length (concat (map mac [j..<k])) = d * (k - j)"
  by (simp add: length_concat o_def sum_list_triv)

text \<open>Turn \<open>i\<close> works on the input \<open>inp i\<close>, makes the next and writes the digest \<open>mac i\<close>.\<close>

lemma feed_digests:
  assumes turn: "\<And>i out. i < n \<Longrightarrow> turn (inp i, out) i = map_option (Pair (inp (Suc i))) (move_mem (d * i) d (mac i) out)"
    and mac: "\<And>i. length (mac i) = d" and "d * n \<le> length out" and "c \<le> n"
  shows "feed turn (inp 0, out) [0..<c] = Some (inp c, concat (map mac [0..<c]) @ drop (d * c) out)"
  using assms(4)
proof (induction c)
  case 0
  then show ?case by simp
next
  case (Suc c)
  let ?x = "concat (map mac [0..<c])"
  have x: "length ?x = d * c" using length_concat_upt [of mac d 0 c, OF mac] by simp
  have "d * Suc c \<le> d * n" using Suc.prems by (rule mult_le_mono2)
  then have room: "d * c + d \<le> length out" using assms(3) by simp
  have "move_mem (d * c) d (mac c) (?x @ drop (d * c) out) = Some (?x @ mac c @ drop (d * c + d) out)"
    using x room mac by (simp add: move_mem_def add.commute)
  then show ?case
    using Suc turn [of c] by (simp add: feed_append add.commute)
qed

section \<open>The functions\<close>

lemma prf_input:
  assumes "length A = n" and "length B = m" and "n + m + 2 \<le> 1024"
  obtains rest where "move_mem 0 n A (replicate 1024 0) = Some (A @ replicate (1024 - n) 0)"
    and "move_mem n 1 [0] (A @ replicate (1024 - n) 0) = Some (A @ 0 # replicate (1023 - n) 0)"
    and "move_mem (n + 1) m B (A @ 0 # replicate (1023 - n) 0) = Some (A @ 0 # B @ replicate (1023 - n - m) 0)"
    and "move_mem (n + 1 + m) 1 [0] (A @ 0 # B @ replicate (1023 - n - m) 0) = Some (A @ 0 # B @ 0 # rest)"
proof
  have "replicate (1024 - n) (0 :: u8) = 0 # replicate (1023 - n) 0"
    using assms(3) by (simp add: Suc_diff_le flip: replicate_Suc)
  then show "move_mem n 1 [0] (A @ replicate (1024 - n) 0) = Some (A @ 0 # replicate (1023 - n) 0)"
    using assms by (simp add: move_mem_def)
  show "move_mem 0 n A (replicate 1024 0) = Some (A @ replicate (1024 - n) 0)"
    "move_mem (n + 1) m B (A @ 0 # replicate (1023 - n) 0) = Some (A @ 0 # B @ replicate (1023 - n - m) 0)"
    "move_mem (n + 1 + m) 1 [0] (A @ 0 # B @ replicate (1023 - n - m) 0)
      = Some (A @ 0 # B @ 0 # drop 1 (replicate (1023 - n - m) 0))"
    using assms by (simp_all add: move_mem_def)
qed

lemma PRF_blocks:
  assumes "length A = n" and "length B = m" and "n + m + 2 \<le> 1024" and "length K = k" and "k + 64 < 4294967296"
    and "20 * ((len + 19) div 20) \<le> length out"
  shows "PRF K k A n B m out len
    = Some (concat (map (\<lambda>i. hmac_sha1 K (A @ 0 # B @ [word_of_nat i])) [0..<(len + 19) div 20])
        @ drop (20 * ((len + 19) div 20)) out)"
proof -
  obtain rest where init: "move_mem 0 n A (replicate 1024 0) = Some (A @ replicate (1024 - n) 0)"
    "move_mem n 1 [0] (A @ replicate (1024 - n) 0) = Some (A @ 0 # replicate (1023 - n) 0)"
    "move_mem (n + 1) m B (A @ 0 # replicate (1023 - n) 0) = Some (A @ 0 # B @ replicate (1023 - n - m) 0)"
    "move_mem (n + 1 + m) 1 [0] (A @ 0 # B @ replicate (1023 - n - m) 0) = Some (A @ 0 # B @ 0 # rest)"
    by (rule prf_input [OF assms(1-3)])
  let ?inp = "\<lambda>i. A @ 0 # B @ word_of_nat i # rest" and ?mac = "\<lambda>i. hmac_sha1 K (A @ 0 # B @ [word_of_nat i])"
  have turn: "prf_turn K (n + 1 + m + 1) (?inp i, o') i = map_option (Pair (?inp (Suc i))) (move_mem (20 * i) 20 (?mac i) o')"
    for i o'
  proof -
    have "take (n + 1 + m + 1) (?inp i) = A @ 0 # B @ [word_of_nat i]" using assms(1,2) by simp
    moreover have "RT_HMAC_SHA1 K (A @ 0 # B @ [word_of_nat i]) 20 = Some (?mac i)"
      using assms by (intro hmac_full) simp_all
    moreover have "?inp i ! (n + 1 + m + 1 - 1) = word_of_nat i"
      using assms(1,2) by (simp add: nth_append)
    moreover have "(?inp i)[n + 1 + m + 1 - 1 := word_of_nat i + 1] = ?inp (Suc i)"
      using assms(1,2) by (simp add: list_update_append add.commute)
    ultimately show ?thesis
      by (simp only: prf_turn_def prod.case option.case)
  qed
  have "feed (prf_turn K (n + 1 + m + 1)) (?inp 0, out) [0..<(len + 19) div 20]
      = Some (?inp ((len + 19) div 20), concat (map ?mac [0..<(len + 19) div 20]) @ drop (20 * ((len + 19) div 20)) out)"
    by (rule feed_digests [where inp = ?inp, OF turn _ assms(6) order_refl]) simp_all
  then show ?thesis
    using assms(4) by (simp only: PRF_def init option.case Let_def) simp
qed

lemma prf_room: "len \<le> 20 * ((len + 19) div 20)" for len :: nat
proof -
  have "20 * ((len + 19) div 20) + (len + 19) mod 20 = len + 19" by (rule mult_div_mod_eq)
  moreover have "(len + 19) mod 20 < 20" by simp
  ultimately show ?thesis by linarith
qed

lemma prf_80211_length [simp]: "length (prf_80211 K A B n) = n"
proof -
  have "length (concat (map (\<lambda>i. hmac_sha1 K (A @ 0 # B @ [word_of_nat i])) [0..<(n + 19) div 20])) = 20 * ((n + 19) div 20)"
    by (subst length_concat_upt [where d = 20]) simp_all
  then show ?thesis using prf_room [of n] by (simp add: prf_80211_def)
qed

lemma PRF_result:
  assumes "length A = n" and "length B = m" and "n + m + 2 \<le> 1024" and "length K = k" and "k + 64 < 4294967296"
    and "20 * ((len + 19) div 20) \<le> length out"
  obtains out' where "PRF K k A n B m out len = Some out'" and "take len out' = prf_80211 K A B len"
    and "length out' = length out"
proof
  let ?x = "concat (map (\<lambda>i. hmac_sha1 K (A @ 0 # B @ [word_of_nat i])) [0..<(len + 19) div 20])"
  have x: "length ?x = 20 * ((len + 19) div 20)" by (subst length_concat_upt [where d = 20]) simp_all
  show "PRF K k A n B m out len = Some (?x @ drop (20 * ((len + 19) div 20)) out)"
    by (rule PRF_blocks [OF assms])
  show "take len (?x @ drop (20 * ((len + 19) div 20)) out) = prf_80211 K A B len"
    using x prf_room [of len] by (simp add: prf_80211_def)
  show "length (?x @ drop (20 * ((len + 19) div 20)) out) = length out" using x assms(6) by simp
qed

lemma kdf_input:
  assumes "length A = n" and "length B = m" and "n + m + 4 \<le> 1024"
  obtains rest where "move_mem 0 2 [1, 0] (replicate 1024 0) = Some ([1, 0] @ replicate 1022 0 :: bytes)"
    and "move_mem 2 n A ([1, 0] @ replicate 1022 0) = Some ([1, 0] @ A @ replicate (1022 - n) 0)"
    and "move_mem (2 + n) m B ([1, 0] @ A @ replicate (1022 - n) 0) = Some ([1, 0] @ A @ B @ replicate (1022 - n - m) 0)"
    and "move_mem (2 + n + m) 2 [x, y] ([1, 0] @ A @ B @ replicate (1022 - n - m) 0) = Some ([1, 0] @ A @ B @ [x, y] @ rest)"
proof
  show "move_mem 0 2 [1, 0] (replicate 1024 0) = Some ([1, 0] @ replicate 1022 0 :: bytes)"
    "move_mem 2 n A ([1, 0] @ replicate 1022 0) = Some ([1, 0] @ A @ replicate (1022 - n) 0)"
    "move_mem (2 + n) m B ([1, 0] @ A @ replicate (1022 - n) 0) = Some ([1, 0] @ A @ B @ replicate (1022 - n - m) 0)"
    "move_mem (2 + n + m) 2 [x, y] ([1, 0] @ A @ B @ replicate (1022 - n - m) 0)
      = Some ([1, 0] @ A @ B @ [x, y] @ drop 2 (replicate (1022 - n - m) 0))"
    using assms by (simp_all add: move_mem_def)
qed

lemma upt_from_1: "map f [1..<n + 1] = map (\<lambda>i. f (Suc i)) [0..<n]"
  using map_Suc_upt [of 0 n] by (simp flip: map_map [unfolded o_def, of f Suc])

lemma KDF_blocks:
  assumes "length A = n" and "length B = m" and "n + m + 4 \<le> 1024" and "length K = k" and "k + 64 < 4294967296"
    and bits: "bits = unat len * 8" "(bits + 255) div 256 \<le> 255" and "32 * ((bits + 255) div 256) \<le> length out"
  shows "KDF K k A n B m out len
    = Some (concat (map (\<lambda>i. hmac_sha256 K (le16 i @ A @ B @ le16 bits)) [1..<(bits + 255) div 256 + 1])
        @ drop (32 * ((bits + 255) div 256)) out)"
proof -
  obtain rest where init: "move_mem 0 2 [1, 0] (replicate 1024 0) = Some ([1, 0] @ replicate 1022 0 :: bytes)"
    "move_mem 2 n A ([1, 0] @ replicate 1022 0) = Some ([1, 0] @ A @ replicate (1022 - n) 0)"
    "move_mem (2 + n) m B ([1, 0] @ A @ replicate (1022 - n) 0) = Some ([1, 0] @ A @ B @ replicate (1022 - n - m) 0)"
    "move_mem (2 + n + m) 2 [word_of_nat bits, word_of_nat (bits div 256)] ([1, 0] @ A @ B @ replicate (1022 - n - m) 0)
      = Some ([1, 0] @ A @ B @ [word_of_nat bits, word_of_nat (bits div 256)] @ rest)"
    by (rule kdf_input [OF assms(1-3), of "word_of_nat bits" "word_of_nat (bits div 256)"])
  let ?inp = "\<lambda>i. [word_of_nat (Suc i), 0] @ A @ B @ le16 bits @ rest"
  let ?mac = "\<lambda>i. hmac_sha256 K ([word_of_nat (Suc i), 0] @ A @ B @ le16 bits)"
  have turn: "kdf_turn K (2 + n + m + 2) (?inp i, o') i = map_option (Pair (?inp (Suc i))) (move_mem (32 * i) 32 (?mac i) o')"
    for i o'
  proof -
    have "take (2 + n + m + 2) (?inp i) = [word_of_nat (Suc i), 0] @ A @ B @ le16 bits"
      using assms(1,2) by (simp add: le16_def)
    moreover have "RT_HMAC_SHA256 K ([word_of_nat (Suc i), 0] @ A @ B @ le16 bits) 32 = Some (?mac i)"
      using assms by (intro hmac_full) (simp_all add: le16_def)
    moreover have "(?inp i)[0 := ?inp i ! 0 + 1] = ?inp (Suc i)" by (simp add: add.commute add.left_commute)
    ultimately show ?thesis by (simp only: kdf_turn_def prod.case option.case)
  qed
  have "feed (kdf_turn K (2 + n + m + 2)) (?inp 0, out) [0..<(bits + 255) div 256]
      = Some (?inp ((bits + 255) div 256), concat (map ?mac [0..<(bits + 255) div 256]) @ drop (32 * ((bits + 255) div 256)) out)"
    by (rule feed_digests [where inp = ?inp, OF turn _ assms(8) order_refl]) simp_all
  moreover have "map (\<lambda>i. hmac_sha256 K (le16 i @ A @ B @ le16 bits)) [1..<(bits + 255) div 256 + 1]
      = map ?mac [0..<(bits + 255) div 256]"
    unfolding upt_from_1 using assms(7) by (intro map_cong refl) (simp add: le16_def)
  ultimately show ?thesis
    using assms(4) by (simp only: KDF_def bits(1) [symmetric] init option.case Let_def) (simp add: le16_def)
qed

section \<open>The pass phrase\<close>

lemma f_turns:
  assumes "length P + 64 < 4294967296"
  shows "feed (f_turn P) (pbkdf2_U P s 0, T) [1..<Suc c]
    = Some (pbkdf2_U P s c, foldl (\<lambda>T j. xor_bytes T (pbkdf2_U P s j)) T [1..<Suc c])"
proof (induction c)
  case 0
  then show ?case by simp
next
  case (Suc c)
  have "length (pbkdf2_U P s c) = 20" by (cases c) simp_all
  then have "RT_HMAC_SHA1 P (pbkdf2_U P s c) 20 = Some (pbkdf2_U P s (Suc c))"
    using assms by (simp add: hmac_full)
  then show ?case using Suc by (simp add: feed_append f_turn_def)
qed

lemma password_F_pbkdf2:
  assumes "length ssid = n" and "n \<le> 32" and "length P + 64 < 4294967296" and "0 < c"
  shows "password_F P ssid n c i = Some (pbkdf2_T P ssid c i)"
proof -
  have "move_mem 0 n ssid (replicate 36 0) = Some (ssid @ replicate (36 - n) 0)"
    "move_mem n 4 (put_be32 (word_of_nat i)) (ssid @ replicate (36 - n) 0)
      = Some (ssid @ put_be32 (word_of_nat i) @ drop 4 (replicate (36 - n) 0))"
    using assms(1,2) by (simp_all add: move_mem_def)
  moreover have "RT_HMAC_SHA1 P (ssid @ put_be32 (word_of_nat i)) 20 = Some (pbkdf2_U P (ssid @ put_be32 (word_of_nat i)) 0)"
    using assms by (simp add: hmac_full)
  ultimately show ?thesis
    using assms(1,4) f_turns [OF assms(3), of "ssid @ put_be32 (word_of_nat i)" _ "c - 1"]
    by (simp add: password_F_def pbkdf2_T_def Let_def)
qed

section \<open>The order of addresses and nonces\<close>

lemma be_number_foldl: "foldl (\<lambda>n x. 256 * n + unat x) k b = k * 256 ^ length b + be_number b" for b :: bytes
proof (induction b arbitrary: k)
  case Nil
  then show ?case by (simp add: be_number_def)
next
  case (Cons x b)
  have step: "foldl (\<lambda>n x. 256 * n + unat x) j (x # b) = (256 * j + unat x) * 256 ^ length b + be_number b" for j
    using Cons.IH [of "256 * j + unat x"] by simp
  show ?case
    unfolding be_number_def [of "x # b"] step [of k] step [of 0] by (simp add: algebra_simps)
qed

lemma be_number_Cons: "be_number (x # b) = unat x * 256 ^ length b + be_number b"
  using be_number_foldl [of "unat x" b] by (simp add: be_number_def)

lemma be_number_less: "be_number b < 256 ^ length b"
proof (induction b)
  case Nil
  then show ?case by (simp add: be_number_def)
next
  case (Cons x b)
  have "unat x < 2 ^ LENGTH(8)" by (rule unsigned_less)
  then have "unat x + 1 \<le> 256" by simp
  then have "(unat x + 1) * 256 ^ length b \<le> 256 * 256 ^ length b" by (rule mult_le_mono1)
  moreover have "be_number (x # b) < (unat x + 1) * 256 ^ length b" using Cons by (simp add: be_number_Cons)
  ultimately show ?case unfolding list.size(4) add_Suc_right add_0_right power_Suc by (rule less_le_trans [rotated])
qed

lemma lex_less:
  fixes m n x y p :: nat
  assumes "m < p" and "n < p" and "x \<noteq> y"
  shows "x * p + m < y * p + n \<longleftrightarrow> x < y"
proof (cases "x < y")
  case True
  then have "(x + 1) * p \<le> y * p" by (intro mult_le_mono1) simp
  with True assms show ?thesis by (simp add: algebra_simps)
next
  case False
  then have "(y + 1) * p \<le> x * p" using assms(3) by (intro mult_le_mono1) simp
  with False assms show ?thesis by (simp add: algebra_simps)
qed

lemma RTMPCompareMemory_number:
  assumes "length a = n" and "length b = n"
  shows "RTMPCompareMemory a b n
    = (if be_number b < be_number a then 1 else if be_number a < be_number b then 2 else 0)"
  using assms
proof (induction n arbitrary: a b)
  case 0
  then show ?case by simp
next
  case (Suc n)
  obtain x a' y b' where ab: "a = x # a'" "b = y # b'" "length a' = n" "length b' = n"
    using Suc.prems by (auto simp: length_Suc_conv)
  note less = be_number_less [of a', unfolded ab(3)] be_number_less [of b', unfolded ab(4)]
  show ?case
  proof (cases "x = y")
    case True
    then show ?thesis using Suc.IH [OF ab(3,4)] ab by (simp add: be_number_Cons)
  next
    case False
    then have "unat x \<noteq> unat y" by (simp add: word_unat_eq_iff)
    then show ?thesis
      using lex_less [OF less] lex_less [OF less(2,1)] False ab
      by (auto simp: be_number_Cons word_less_nat_alt)
  qed
qed

lemma be_number_inj:
  assumes "length a = length b" and "be_number a = be_number b"
  shows "a = b"
  using assms
proof (induction a b rule: list_induct2)
  case Nil
  then show ?case by simp
next
  case (Cons x a y b)
  note less = be_number_less [of a, unfolded Cons.hyps] be_number_less [of b]
  have "unat x = unat y"
    using lex_less [OF less] lex_less [OF less(2,1)] Cons.prems Cons.hyps
    by (metis be_number_Cons less_irrefl linorder_neqE_nat)
  then show ?case using Cons by (simp add: be_number_Cons word_unat_eq_iff)
qed

lemma smaller_first_commute: "length a = length b \<Longrightarrow> smaller_first a b = smaller_first b a"
  by (auto simp: smaller_first_def dest: be_number_inj)

lemma ptk_text_80211:
  assumes "length AA = 6" and "length SA = 6" and "length AN = 32" and "length SN = 32" and "AN \<noteq> SN"
  shows "ptk_text AN AA SN SA = smaller_first AA SA @ smaller_first AN SN"
  using assms be_number_inj [of AN SN] be_number_inj [of AA SA]
  by (auto simp: ptk_text_def Let_def smaller_first_def RTMPCompareMemory_number)

lemma length_smaller_first [simp]: "length (smaller_first a b) = length a + length b"
  by (simp add: smaller_first_def)

lemma WpaDerivePTK_result:
  assumes "length PMK = 32" and "length AA = 6" and "length SA = 6" and "length AN = 32" and "length SN = 32"
    and "AN \<noteq> SN" and "20 * ((len + 19) div 20) \<le> length out"
  obtains out' where "WpaDerivePTK PMK AN AA SN SA out len = Some out'"
    and "take len out' = ptk_80211 PMK AA SA AN SN len" and "length out' = length out"
proof -
  have keyed: "ptk_text AN AA SN SA = smaller_first AA SA @ smaller_first AN SN"
    by (rule ptk_text_80211 [OF assms(2-6)])
  have "length (smaller_first AA SA @ smaller_first AN SN) = 76" using assms by simp
  then obtain out' where
    "PRF PMK 32 Prefix_PTK 22 (smaller_first AA SA @ smaller_first AN SN) 76 out len = Some out'"
    "take len out' = prf_80211 PMK Prefix_PTK (smaller_first AA SA @ smaller_first AN SN) len" "length out' = length out"
    using PRF_result [of Prefix_PTK 22 "smaller_first AA SA @ smaller_first AN SN" 76 PMK 32 len out] assms
    by (auto simp: Prefix_PTK_def)
  then show ?thesis
    using that [of out'] assms by (simp add: WpaDerivePTK_def keyed ptk_80211_def)
qed

section \<open>Properties\<close>

text \<open>\<open>PRF\<close> writes the pseudo-random function of IEEE 802.11 of the label and the data, for every
output length, when label and data fit the working buffer and the output holds whole digests.\<close>

theorem PRF_is_80211:
  assumes "length A + length B + 2 \<le> 1024" and "length K + 64 < 4294967296"
    and "20 * ((len + 19) div 20) \<le> length out"
  shows "\<exists>out'. PRF K (length K) A (length A) B (length B) out len = Some out'
    \<and> take len out' = prf_80211 K A B len \<and> length out' = length out"
  using PRF_result [OF refl refl assms(1) refl assms(2,3)] by blast

theorem PRF_is_80211_witness:
  "\<exists>out'. PRF [7] (length [7 :: u8]) [1, 2] (length [1, 2 :: u8]) [3] (length [3 :: u8]) (replicate 40 0) 32 = Some out'
    \<and> take 32 out' = prf_80211 [7] [1, 2] [3] 32 \<and> length out' = length (replicate 40 (0 :: u8))"
  by (rule PRF_is_80211) simp_all

text \<open>\<open>KDF\<close> writes the key derivation function of IEEE 802.11r, as long as the number of digests
fits the one byte it counts in (8160 bytes of output).\<close>

theorem KDF_is_80211r:
  assumes "length A + length B + 4 \<le> 1024" and "length K + 64 < 4294967296" and "n \<le> 8160"
    and "32 * ((8 * n + 255) div 256) \<le> length out"
  shows "\<exists>out'. KDF K (length K) A (length A) B (length B) out (word_of_nat n) = Some out'
    \<and> take n out' = kdf_80211r K A B n"
proof -
  let ?c = "(8 * n + 255) div 256"
  let ?x = "concat (map (\<lambda>i. hmac_sha256 K (le16 i @ A @ B @ le16 (8 * n))) [1..<?c + 1])"
  have n: "unat (word_of_nat n :: u16) * 8 = 8 * n" using assms(3) by (simp add: unat_of_nat)
  have "?c \<le> (8 * 8160 + 255) div 256" using assms(3) by (intro div_le_mono) simp
  then have "?c \<le> 255" by simp
  then have "KDF K (length K) A (length A) B (length B) out (word_of_nat n) = Some (?x @ drop (32 * ?c) out)"
    using KDF_blocks [OF refl refl assms(1) refl assms(2) n [symmetric] _ assms(4)] by simp
  moreover have "length ?x = 32 * ?c" by (subst length_concat_upt [where d = 32]) simp_all
  moreover have "n \<le> 32 * ?c"
  proof -
    have "256 * ?c + (8 * n + 255) mod 256 = 8 * n + 255" by (rule mult_div_mod_eq)
    moreover have "(8 * n + 255) mod 256 < 256" by simp
    ultimately show ?thesis by linarith
  qed
  ultimately show ?thesis by (simp add: kdf_80211r_def)
qed

theorem KDF_is_80211r_witness:
  "\<exists>out'. KDF [7] (length [7 :: u8]) [1, 2] (length [1, 2 :: u8]) [3] (length [3 :: u8]) (replicate 64 0) (word_of_nat 48) = Some out'
    \<and> take 48 out' = kdf_80211r [7] [1, 2] [3] 48"
  by (rule KDF_is_80211r) simp_all

text \<open>C18: \<open>RtmpPasswordHash\<close> is PBKDF2 of RFC 2898 with HMAC-SHA-1 and 4096 iterations, 40 bytes of
it, and refuses pass phrases over 63 and names over 32 bytes without touching the output.\<close>

theorem RtmpPasswordHash_is_PBKDF2:
  assumes "length output = 40"
  shows "RtmpPasswordHash password ssid (length ssid) output
    = (if length password > 63 \<or> length ssid > 32 then Some (0, output)
       else Some (1, pbkdf2_T password ssid 4096 1 @ pbkdf2_T password ssid 4096 2))"
proof -
  have len: "length (foldl (\<lambda>T j. xor_bytes T (pbkdf2_U P s j)) T js) = 20" if "length T = 20" for P s T js
  proof -
    have "length (pbkdf2_U P s j) = 20" for j by (cases j) simp_all
    then show ?thesis using that by (induction js arbitrary: T) simp_all
  qed
  have "length (pbkdf2_T password ssid 4096 i) = 20" for i by (simp add: pbkdf2_T_def Let_def len)
  then show ?thesis
    using assms password_F_pbkdf2 [OF refl, of ssid password 4096]
    by (simp add: RtmpPasswordHash_def move_mem_def)
qed

theorem RtmpPasswordHash_is_PBKDF2_witness:
  "RtmpPasswordHash (replicate 8 0x61) [0x6e] (length [0x6e :: u8]) (replicate 40 0)
    = (if length (replicate 8 (0x61 :: u8)) > 63 \<or> length [0x6e :: u8] > 32 then Some (0, replicate 40 0)
       else Some (1, pbkdf2_T (replicate 8 0x61) [0x6e] 4096 1 @ pbkdf2_T (replicate 8 0x61) [0x6e] 4096 2))"
  by (rule RtmpPasswordHash_is_PBKDF2) simp

text \<open>C19: \<open>WpaDerivePTK\<close> writes the pairwise key of IEEE 802.11 for different nonces, and exchanging the
roles of the two sides, their addresses and nonces, gives the same key.\<close>

theorem WpaDerivePTK_is_80211:
  assumes "length PMK = 32" and "length AA = 6" and "length SA = 6" and "length AN = 32" and "length SN = 32"
    and "AN \<noteq> SN" and "length out = 80" and "len \<le> 80"
  shows "\<exists>out' out''. WpaDerivePTK PMK AN AA SN SA out len = Some out' \<and> WpaDerivePTK PMK SN SA AN AA out len = Some out''
    \<and> take len out' = ptk_80211 PMK AA SA AN SN len \<and> take len out'' = take len out'"
proof -
  have "(len + 19) div 20 \<le> (80 + 19) div 20" using assms(8) by (intro div_le_mono) simp
  then have room: "20 * ((len + 19) div 20) \<le> length out" using assms(7) by simp
  obtain o1 where "WpaDerivePTK PMK AN AA SN SA out len = Some o1" "take len o1 = ptk_80211 PMK AA SA AN SN len"
    by (rule WpaDerivePTK_result [OF assms(1-6) room])
  moreover obtain o2 where "WpaDerivePTK PMK SN SA AN AA out len = Some o2" "take len o2 = ptk_80211 PMK SA AA SN AN len"
    by (rule WpaDerivePTK_result [OF assms(1,3,2,5,4) assms(6) [symmetric] room])
  moreover have "ptk_80211 PMK SA AA SN AN len = ptk_80211 PMK AA SA AN SN len"
    using assms(2-5) smaller_first_commute [of SA AA] smaller_first_commute [of SN AN] by (simp add: ptk_80211_def)
  ultimately show ?thesis by auto
qed

theorem WpaDerivePTK_is_80211_witness:
  "\<exists>out' out''. WpaDerivePTK (replicate 32 1) (replicate 32 2) (replicate 6 3) (replicate 32 4) (replicate 6 5) (replicate 80 0) 64
      = Some out'
    \<and> WpaDerivePTK (replicate 32 1) (replicate 32 4) (replicate 6 5) (replicate 32 2) (replicate 6 3) (replicate 80 0) 64 = Some out''
    \<and> take 64 out' = ptk_80211 (replicate 32 1) (replicate 6 3) (replicate 6 5) (replicate 32 2) (replicate 32 4) 64
    \<and> take 64 out'' = take 64 out'"
  by (rule WpaDerivePTK_is_80211) simp_all

end
