(* ===== verification/Wpa_Eapol.thy ===== *)
theory Wpa_Eapol
  imports Wpa_Kdf Aes_Keywrap Cmm_Tkip Aes_Cmac
begin

text \<open>
  The EAPOL-Key frames of \<open>rt5572/common/cmm_wpa.c\<close>, with the types of \<open>include/dot11i_wpa.h\<close> and
  \<open>include/oid.h\<close> and the macros of \<open>include/wpa.h\<close>: their layout, and how \<open>ConstructEapolMsg\<close> builds
  and protects them. Allocations succeed.
\<close>

section \<open>Modes and ciphers\<close>

datatype NDIS_802_11_AUTHENTICATION_MODE =
    Ndis802_11AuthModeOpen | Ndis802_11AuthModeShared | Ndis802_11AuthModeAutoSwitch
  | Ndis802_11AuthModeWPA | Ndis802_11AuthModeWPAPSK | Ndis802_11AuthModeWPANone
  | Ndis802_11AuthModeWPA2 | Ndis802_11AuthModeWPA2PSK
  | Ndis802_11AuthModeWPA1WPA2 | Ndis802_11AuthModeWPA1PSKWPA2PSK

text \<open>The names with one number, such as \<open>Ndis802_11WEPDisabled\<close>, are one constructor.\<close>

datatype NDIS_802_11_WEP_STATUS =
    Ndis802_11Encryption1Enabled | Ndis802_11EncryptionDisabled
  | Ndis802_11Encryption1KeyAbsent | Ndis802_11EncryptionNotSupported
  | Ndis802_11Encryption2Enabled | Ndis802_11Encryption2KeyAbsent
  | Ndis802_11Encryption3Enabled | Ndis802_11Encryption3KeyAbsent
  | Ndis802_11Encryption4Enabled | Ndis802_11Encryption4KeyAbsent
  | Ndis802_11GroupWEP40Enabled | Ndis802_11GroupWEP104Enabled

definition is_WPA2 :: "NDIS_802_11_AUTHENTICATION_MODE \<Rightarrow> bool" where
  "is_WPA2 m \<longleftrightarrow> m = Ndis802_11AuthModeWPA2 \<or> m = Ndis802_11AuthModeWPA2PSK"

text \<open>The six messages, which the code compares by their numbers.\<close>

definition EAPOL_PAIR_MSG_1 :: nat where "EAPOL_PAIR_MSG_1 = 1"
definition EAPOL_PAIR_MSG_2 :: nat where "EAPOL_PAIR_MSG_2 = 2"
definition EAPOL_PAIR_MSG_3 :: nat where "EAPOL_PAIR_MSG_3 = 3"
definition EAPOL_PAIR_MSG_4 :: nat where "EAPOL_PAIR_MSG_4 = 4"
definition EAPOL_GROUP_MSG_1 :: nat where "EAPOL_GROUP_MSG_1 = 5"
definition EAPOL_GROUP_MSG_2 :: nat where "EAPOL_GROUP_MSG_2 = 6"

lemmas msg_types = EAPOL_PAIR_MSG_1_def EAPOL_PAIR_MSG_2_def EAPOL_PAIR_MSG_3_def EAPOL_PAIR_MSG_4_def
  EAPOL_GROUP_MSG_1_def EAPOL_GROUP_MSG_2_def

definition KEY_DESC_TKIP :: u8 where "KEY_DESC_TKIP = 1"
definition KEY_DESC_AES :: u8 where "KEY_DESC_AES = 2"
definition KEY_DESC_EXT :: u8 where "KEY_DESC_EXT = 3"

lemmas desc_versions = KEY_DESC_TKIP_def KEY_DESC_AES_def KEY_DESC_EXT_def

section \<open>Layout\<close>

text \<open>\<open>KEY_INFO\<close>: the bits of two bytes, on a little-endian machine. \<open>kType\<close> says pairwise.\<close>

record key_info =
  kMic :: bool
  kSecure :: bool
  kError :: bool
  kRequest :: bool
  EKD_DL :: bool
  kRsvd :: u8
  KeyDescVer :: u8
  kType :: bool
  KeyIndex :: u8
  kInstall :: bool
  KeyAck :: bool

definition bit_at :: "nat \<Rightarrow> bool \<Rightarrow> u8" where
  "bit_at n b = (if b then push_bit n 1 else 0)"

definition KEY_INFO_bytes :: "key_info \<Rightarrow> bytes" where
  "KEY_INFO_bytes k =
     [bit_at 0 (kMic k) OR bit_at 1 (kSecure k) OR bit_at 2 (kError k) OR bit_at 3 (kRequest k) OR
        bit_at 4 (EKD_DL k) OR push_bit 5 (kRsvd k),
      KeyDescVer k OR bit_at 3 (kType k) OR push_bit 4 (KeyIndex k) OR bit_at 6 (kInstall k) OR
        bit_at 7 (KeyAck k)]"

definition KEY_INFO :: "bytes \<Rightarrow> key_info" where
  "KEY_INFO b = \<lparr>kMic = bit (b ! 0) 0, kSecure = bit (b ! 0) 1, kError = bit (b ! 0) 2, kRequest = bit (b ! 0) 3,
     EKD_DL = bit (b ! 0) 4, kRsvd = drop_bit 5 (b ! 0), KeyDescVer = take_bit 3 (b ! 1), kType = bit (b ! 1) 3,
     KeyIndex = take_bit 2 (drop_bit 4 (b ! 1)), kInstall = bit (b ! 1) 6, KeyAck = bit (b ! 1) 7\<rparr>"

text \<open>\<open>EAPOL_PACKET\<close> with its \<open>KEY_DESCRIPTER\<close>; \<open>KeyData\<close> is all that follows in the buffer.\<close>

record eapol_packet =
  ProVer :: u8
  ProType :: u8
  Body_Len :: bytes
  DescType :: u8
  KeyInfo :: key_info
  KeyLength :: bytes
  ReplayCounter :: bytes
  KeyNonce :: bytes
  KeyIv :: bytes
  KeyRsc :: bytes
  KeyId :: bytes
  KeyMic :: bytes
  KeyDataLen :: bytes
  KeyData :: bytes

definition EAPOL_bytes :: "eapol_packet \<Rightarrow> bytes" where
  "EAPOL_bytes p = [ProVer p, ProType p] @ Body_Len p @ [DescType p] @ KEY_INFO_bytes (KeyInfo p) @ KeyLength p
     @ ReplayCounter p @ KeyNonce p @ KeyIv p @ KeyRsc p @ KeyId p @ KeyMic p @ KeyDataLen p @ KeyData p"

text \<open>The cast of a buffer of at least 99 bytes.\<close>

definition EAPOL_PACKET :: "bytes \<Rightarrow> eapol_packet" where
  "EAPOL_PACKET b = \<lparr>ProVer = b ! 0, ProType = b ! 1, Body_Len = take 2 (drop 2 b), DescType = b ! 4,
     KeyInfo = KEY_INFO (take 2 (drop 5 b)), KeyLength = take 2 (drop 7 b), ReplayCounter = take 8 (drop 9 b),
     KeyNonce = take 32 (drop 17 b), KeyIv = take 16 (drop 49 b), KeyRsc = take 8 (drop 65 b),
     KeyId = take 8 (drop 73 b), KeyMic = take 16 (drop 81 b), KeyDataLen = take 2 (drop 97 b), KeyData = drop 99 b\<rparr>"

text \<open>The macros on numbers in two bytes, and on the replay counter.\<close>

definition SET_UINT16_TO_ARRARY :: "nat \<Rightarrow> bytes" where
  "SET_UINT16_TO_ARRARY len = [word_of_nat (len mod 65536 div 256), word_of_nat len]"

definition CONV_ARRARY_TO_UINT16 :: "bytes \<Rightarrow> nat" where
  "CONV_ARRARY_TO_UINT16 v = unat (v ! 0) * 256 + unat (v ! 1)"

definition INC_UINT16_TO_ARRARY :: "bytes \<Rightarrow> nat \<Rightarrow> bytes" where
  "INC_UINT16_TO_ARRARY v len = SET_UINT16_TO_ARRARY ((CONV_ARRARY_TO_UINT16 v + len) mod 65536)"

fun add_one_rev :: "bytes \<Rightarrow> bytes" where
  "add_one_rev [] = []"
| "add_one_rev (x # xs) = (if x + 1 = 0 then 0 # add_one_rev xs else (x + 1) # xs)"

definition ADD_ONE_To_64BIT_VAR :: "bytes \<Rightarrow> bytes" where
  "ADD_ONE_To_64BIT_VAR v = rev (add_one_rev (rev v))"

section \<open>Key data\<close>

text \<open>\<open>MakeOutgoingFrame\<close> of \<open>mlme.c\<close>: pieces one behind the other, from an offset of a buffer on.\<close>

fun MakeOutgoingFrame :: "bytes \<Rightarrow> nat \<Rightarrow> (nat \<times> bytes) list \<Rightarrow> (bytes \<times> nat) option" where
  "MakeOutgoingFrame Buffer off [] = Some (Buffer, 0)"
| "MakeOutgoingFrame Buffer off ((leng, p) # ps) =
     (case move_mem off leng p Buffer of
        None \<Rightarrow> None
      | Some Buffer \<Rightarrow> map_option (\<lambda>(b, n). (b, leng + n)) (MakeOutgoingFrame Buffer (off + leng) ps))"

text \<open>
  The element of the security parameters, at an offset of a buffer; the result has the number of
  bytes it takes. The identifiers of pairwise master keys follow it in WPA2.
\<close>

definition RTMPInsertRSNIE ::
  "bytes \<Rightarrow> nat \<Rightarrow> bytes \<Rightarrow> u8 \<Rightarrow> bytes \<Rightarrow> u8 \<Rightarrow> (bytes \<times> nat) option" where
  "RTMPInsertRSNIE pFrameBuf off rsnie_ptr rsnie_len pmkid_ptr pmkid_len =
     (let extra = (pmkid_len > 0 \<and> pmkid_len AND 0x0f = 0);
          extra_len = (if extra then 2 + pmkid_len else 0);
          pmk_count = (if extra then drop_bit 4 pmkid_len else 0) in
      if rsnie_len = 0 then Some (pFrameBuf, 0)
      else if length rsnie_ptr < 5 then None
      else
        let rsn = (take 3 (drop 2 rsnie_ptr) = [0x00, 0x0f, 0xac]);
            ie_num = (if rsn then 48 else 221);
            total_len = (if rsn then rsnie_len + extra_len else rsnie_len) in
        (case MakeOutgoingFrame pFrameBuf off [(1, [ie_num]), (1, [total_len]), (unat rsnie_len, rsnie_ptr)] of
           None \<Rightarrow> None
         | Some (buf, n) \<Rightarrow>
             if ie_num = 48 \<and> extra_len > 0
             then map_option (\<lambda>(buf, n2). (buf, n + n2))
               (MakeOutgoingFrame buf (off + n) [(2, [pmk_count, 0]), (unat pmkid_len, pmkid_ptr)])
             else Some (buf, n)))"

text \<open>The head of a key data element.\<close>

definition WPA_ConstructKdeHdr :: "u8 \<Rightarrow> u8 \<Rightarrow> bytes \<Rightarrow> nat \<Rightarrow> bytes option" where
  "WPA_ConstructKdeHdr data_type data_len pBuf off =
     move_mem off 6 [0xdd, 4 + data_len, 0x00, 0x0f, 0xac, data_type] pBuf"

definition LEN_AES_GTK :: nat where "LEN_AES_GTK = 16"
definition LEN_TKIP_GTK :: nat where "LEN_TKIP_GTK = 32"

text \<open>The group key behind \<open>data_offset\<close> bytes, in an element of its own in WPA2.\<close>

definition insert_GTK ::
  "bool \<Rightarrow> NDIS_802_11_WEP_STATUS \<Rightarrow> u8 \<Rightarrow> bytes \<Rightarrow> bytes \<times> nat \<Rightarrow> (bytes \<times> nat) option" where
  "insert_GTK bWPA2Capable GroupKeyWepStatus DefaultKeyIdx GTK st =
     (case st of (Key_Data, data_offset) \<Rightarrow>
        let gtk_len = (if GroupKeyWepStatus = Ndis802_11Encryption3Enabled then LEN_AES_GTK else LEN_TKIP_GTK) in
        (case (if bWPA2Capable then
                 (case WPA_ConstructKdeHdr 1 (2 + word_of_nat gtk_len) Key_Data data_offset of
                    None \<Rightarrow> None
                  | Some Key_Data \<Rightarrow>
                      map_option (\<lambda>b. (b, data_offset + 8))
                        (move_mem (data_offset + 6) 2 [DefaultKeyIdx AND 0x03, 0x00] Key_Data))
               else Some (Key_Data, data_offset)) of
           None \<Rightarrow> None
         | Some (Key_Data, data_offset) \<Rightarrow>
             map_option (\<lambda>b. (b, data_offset + gtk_len)) (move_mem data_offset gtk_len GTK Key_Data)))"

text \<open>The encryption of the key data: padding and key wrap, or RC4.\<close>

definition encrypt_Key_Data :: "u8 \<Rightarrow> bytes \<Rightarrow> bytes \<Rightarrow> bytes \<times> nat \<Rightarrow> (bytes \<times> nat) option" where
  "encrypt_Key_Data keyDescVer PTK iv st =
     (case st of (Key_Data, data_offset) \<Rightarrow>
        if length PTK < 32 then None
        else if keyDescVer = KEY_DESC_AES then
          let remainder = data_offset mod 8; pad_len = 8 - remainder in
          (case (if remainder \<noteq> 0
                 then map_option (\<lambda>b. (b, data_offset + pad_len))
                   (move_mem data_offset pad_len (0xdd # replicate (pad_len - 1) 0) Key_Data)
                 else Some (Key_Data, data_offset)) of
             None \<Rightarrow> None
           | Some (Key_Data, data_offset) \<Rightarrow>
               map_option (\<lambda>(r, eGTK, wrap_len). (eGTK, wrap_len))
                 (AES_Key_Wrap Key_Data data_offset (take 16 (drop 16 PTK)) 16 (replicate 512 0) 0))
        else
          map_option (\<lambda>eGTK. (eGTK, data_offset))
            (TKIP_GTK_KEY_WRAP (take 16 (drop 16 PTK)) iv Key_Data data_offset (replicate 512 0)))"

text \<open>
  The two working areas have 512 bytes each; the contents of the one for the encrypted data are
  never read before they are written. \<open>None\<close> is an access outside an area or the frame.
\<close>

definition ConstructEapolKeyData ::
  "NDIS_802_11_AUTHENTICATION_MODE \<Rightarrow> bytes \<Rightarrow> NDIS_802_11_WEP_STATUS \<Rightarrow> u8 \<Rightarrow> nat \<Rightarrow> u8 \<Rightarrow> bytes \<Rightarrow> bytes \<Rightarrow> u8
     \<Rightarrow> eapol_packet \<Rightarrow> eapol_packet option" where
  "ConstructEapolKeyData AuthMode PTK GroupKeyWepStatus keyDescVer MsgType DefaultKeyIdx GTK RSNIE RSNIE_LEN pMsg =
     (let bWPA2Capable = is_WPA2 AuthMode in
      if MsgType = EAPOL_PAIR_MSG_1 \<or> MsgType = EAPOL_PAIR_MSG_4 \<or> MsgType = EAPOL_GROUP_MSG_2 then Some pMsg
      else
        (case (if RSNIE_LEN \<noteq> 0 \<and> (MsgType = EAPOL_PAIR_MSG_2 \<or> MsgType = EAPOL_PAIR_MSG_3)
               then RTMPInsertRSNIE (replicate 512 0) 0 RSNIE RSNIE_LEN [] 0
               else Some (replicate 512 0, 0)) of
           None \<Rightarrow> None
         | Some st \<Rightarrow>
             let GTK_Included = (MsgType = EAPOL_PAIR_MSG_3 \<and> bWPA2Capable \<or> MsgType = EAPOL_GROUP_MSG_1) in
             (case (if GTK_Included then
                      (case insert_GTK bWPA2Capable GroupKeyWepStatus DefaultKeyIdx GTK st of
                         None \<Rightarrow> None
                       | Some st \<Rightarrow> encrypt_Key_Data keyDescVer PTK (KeyIv pMsg) st)
                    else Some st) of
                None \<Rightarrow> None
              | Some (out, data_offset) \<Rightarrow>
                  map_option (\<lambda>d. pMsg\<lparr>KeyData := d, KeyDataLen := SET_UINT16_TO_ARRARY data_offset,
                      Body_Len := INC_UINT16_TO_ARRARY (Body_Len pMsg) data_offset\<rparr>)
                    (move_mem 0 data_offset out (KeyData pMsg)))))"

section \<open>The integrity code\<close>

text \<open>The code of a text of \<open>FrameLen\<close> bytes, for the three versions of the descriptor.\<close>

definition eapol_mic :: "u8 \<Rightarrow> bytes \<Rightarrow> bytes \<Rightarrow> nat \<Rightarrow> bytes option" where
  "eapol_mic ver PTK OutBuffer FrameLen =
     (if length PTK < 16 \<or> length OutBuffer < FrameLen then None
      else if ver = KEY_DESC_AES
      then map_option (take 16) (RT_HMAC_SHA1 (take 16 PTK) (take FrameLen OutBuffer) 20)
      else if ver = KEY_DESC_TKIP then RT_HMAC_MD5 (take 16 PTK) (take FrameLen OutBuffer) 16
      else if ver = KEY_DESC_EXT
      then map_option fst (AES_CMAC (take FrameLen OutBuffer) FrameLen (take 16 PTK) 16 (replicate 16 0) 16)
      else Some (replicate 16 0))"

text \<open>\<open>CalculateMIC\<close> copies the frame to a buffer of 512 bytes first.\<close>

definition CalculateMIC :: "u8 \<Rightarrow> bytes \<Rightarrow> eapol_packet \<Rightarrow> eapol_packet option" where
  "CalculateMIC ver PTK pMsg =
     (case MakeOutgoingFrame (replicate 512 0) 0 [(CONV_ARRARY_TO_UINT16 (Body_Len pMsg) + 4, EAPOL_bytes pMsg)] of
        None \<Rightarrow> None
      | Some (OutBuffer, FrameLen) \<Rightarrow>
          map_option (\<lambda>mic. pMsg\<lparr>KeyMic := mic\<rparr>) (eapol_mic ver PTK OutBuffer FrameLen))"

section \<open>Frames\<close>

text \<open>The 1500 zeroed bytes that a frame is built in.\<close>

definition TX_EAPOL_BUFFER :: nat where "TX_EAPOL_BUFFER = 1500"

definition zero_eapol :: eapol_packet where
  "zero_eapol = EAPOL_PACKET (replicate TX_EAPOL_BUFFER 0)"

text \<open>
  The arguments of one message: those that are \<open>NULL\<close> in the code are empty here, and are not
  looked at. \<open>TxRSC\<close> has six bytes.
\<close>

definition eapol_key_info :: "bool \<Rightarrow> nat \<Rightarrow> u8 \<Rightarrow> u8 \<Rightarrow> key_info \<Rightarrow> key_info" where
  "eapol_key_info bWPA2 MsgType ver DefaultKeyIdx k =
     (let k = k\<lparr>KeyDescVer := take_bit 3 ver, kType := \<not> MsgType \<ge> EAPOL_GROUP_MSG_1\<rparr>;
          k = (if \<not> bWPA2 \<and> MsgType \<ge> EAPOL_GROUP_MSG_1 then k\<lparr>KeyIndex := take_bit 2 DefaultKeyIdx\<rparr> else k);
          k = (if MsgType = EAPOL_PAIR_MSG_3 then k\<lparr>kInstall := True\<rparr> else k);
          k = (if MsgType = EAPOL_PAIR_MSG_1 \<or> MsgType = EAPOL_PAIR_MSG_3 \<or> MsgType = EAPOL_GROUP_MSG_1
               then k\<lparr>KeyAck := True\<rparr> else k);
          k = (if MsgType \<noteq> EAPOL_PAIR_MSG_1 then k\<lparr>kMic := True\<rparr> else k);
          k = (if bWPA2 \<and> MsgType \<ge> EAPOL_PAIR_MSG_3 \<or> \<not> bWPA2 \<and> MsgType \<ge> EAPOL_GROUP_MSG_1
               then k\<lparr>kSecure := True\<rparr> else k)
      in (if bWPA2 \<and> (MsgType = EAPOL_PAIR_MSG_3 \<or> MsgType = EAPOL_GROUP_MSG_1) then k\<lparr>EKD_DL := True\<rparr> else k))"

definition eapol_key_length ::
  "bool \<Rightarrow> nat \<Rightarrow> NDIS_802_11_WEP_STATUS \<Rightarrow> NDIS_802_11_WEP_STATUS \<Rightarrow> bytes \<Rightarrow> bytes" where
  "eapol_key_length bWPA2 MsgType WepStatus GroupKeyWepStatus b =
     (if bWPA2 then
        if MsgType = EAPOL_PAIR_MSG_1 \<or> MsgType = EAPOL_PAIR_MSG_3
        then b[1 := if WepStatus = Ndis802_11Encryption2Enabled then 32 else 16] else b
      else if MsgType \<ge> EAPOL_GROUP_MSG_1
      then b[1 := if GroupKeyWepStatus = Ndis802_11Encryption2Enabled then 32 else 16]
      else b[1 := if WepStatus = Ndis802_11Encryption2Enabled then 32 else 16])"

text \<open>The descriptor's version, and the fields before the key data and the integrity code.\<close>

definition desc_version :: "NDIS_802_11_WEP_STATUS \<Rightarrow> NDIS_802_11_WEP_STATUS \<Rightarrow> u8" where
  "desc_version WepStatus GroupKeyWepStatus =
     (if WepStatus = Ndis802_11Encryption3Enabled \<or> GroupKeyWepStatus = Ndis802_11Encryption3Enabled
      then KEY_DESC_AES else KEY_DESC_TKIP)"

definition with_nonce :: "bool \<Rightarrow> nat \<Rightarrow> bool" where
  "with_nonce bWPA2 MsgType \<longleftrightarrow> MsgType \<le> EAPOL_PAIR_MSG_3 \<or> \<not> bWPA2 \<and> MsgType = EAPOL_GROUP_MSG_1"

definition with_rsc :: "bool \<Rightarrow> nat \<Rightarrow> bool" where
  "with_rsc bWPA2 MsgType \<longleftrightarrow> MsgType = EAPOL_PAIR_MSG_3 \<and> bWPA2 \<or> MsgType = EAPOL_GROUP_MSG_1"

definition eapol_head ::
  "bool \<Rightarrow> NDIS_802_11_WEP_STATUS \<Rightarrow> bytes \<Rightarrow> NDIS_802_11_WEP_STATUS \<Rightarrow> nat \<Rightarrow> u8 \<Rightarrow> bytes \<Rightarrow> bytes
     \<Rightarrow> eapol_packet \<Rightarrow> eapol_packet" where
  "eapol_head bWPA2 WepStatus R_Counter GroupKeyWepStatus MsgType DefaultKeyIdx Nonce TxRSC pMsg =
     (let pMsg = pMsg\<lparr>ProVer := 1, ProType := 3, Body_Len := SET_UINT16_TO_ARRARY 95,
                     DescType := (if bWPA2 then 0x02 else 0xfe)\<rparr>;
          pMsg = pMsg\<lparr>KeyInfo := eapol_key_info bWPA2 MsgType (desc_version WepStatus GroupKeyWepStatus) DefaultKeyIdx (KeyInfo pMsg),
                   KeyLength := eapol_key_length bWPA2 MsgType WepStatus GroupKeyWepStatus (KeyLength pMsg),
                   ReplayCounter := take 8 R_Counter\<rparr>;
          pMsg = (if with_nonce bWPA2 MsgType then pMsg\<lparr>KeyNonce := take 32 Nonce\<rparr> else pMsg);
          iv = take 16 (drop 16 Nonce);
          pMsg = (if \<not> bWPA2 \<and> MsgType = EAPOL_GROUP_MSG_1 then pMsg\<lparr>KeyIv := iv[15 := iv ! 15 + 2]\<rparr> else pMsg);
          pMsg = (if with_rsc bWPA2 MsgType then pMsg\<lparr>KeyRsc := take 6 TxRSC @ drop 6 (KeyRsc pMsg)\<rparr> else pMsg)
      in pMsg\<lparr>KeyMic := replicate 16 0\<rparr>)"

definition ConstructEapolMsg ::
  "NDIS_802_11_AUTHENTICATION_MODE \<Rightarrow> NDIS_802_11_WEP_STATUS \<Rightarrow> bytes \<Rightarrow> bytes \<Rightarrow> NDIS_802_11_WEP_STATUS \<Rightarrow> nat \<Rightarrow> u8
     \<Rightarrow> bytes \<Rightarrow> bytes \<Rightarrow> bytes \<Rightarrow> bytes \<Rightarrow> u8 \<Rightarrow> eapol_packet \<Rightarrow> eapol_packet option" where
  "ConstructEapolMsg AuthMode WepStatus R_Counter PTK GroupKeyWepStatus MsgType DefaultKeyIdx Nonce TxRSC GTK RSNIE
       RSNIE_Len pMsg =
     (let bWPA2 = is_WPA2 AuthMode; ver = desc_version WepStatus GroupKeyWepStatus in
      if length R_Counter < 8 \<or> with_nonce bWPA2 MsgType \<and> length Nonce < 32 \<or> with_rsc bWPA2 MsgType \<and> length TxRSC < 6
      then None
      else
        (case ConstructEapolKeyData AuthMode PTK GroupKeyWepStatus ver MsgType DefaultKeyIdx GTK RSNIE RSNIE_Len
                (eapol_head bWPA2 WepStatus R_Counter GroupKeyWepStatus MsgType DefaultKeyIdx Nonce TxRSC pMsg) of
           None \<Rightarrow> None
         | Some pMsg \<Rightarrow>
             if MsgType \<noteq> EAPOL_PAIR_MSG_1 then CalculateMIC ver PTK pMsg else Some pMsg))"

section \<open>The layout and its inverse\<close>

lemma bit_bit_at [simp]: "m < 8 \<Longrightarrow> bit (bit_at m b) n \<longleftrightarrow> b \<and> n = m"
  by (auto simp: bit_at_def bit_exp_iff)

definition key_info_ok :: "key_info \<Rightarrow> bool" where
  "key_info_ok k \<longleftrightarrow> take_bit 3 (kRsvd k) = kRsvd k \<and> take_bit 3 (KeyDescVer k) = KeyDescVer k
     \<and> take_bit 2 (KeyIndex k) = KeyIndex k"

lemma field_bit: "take_bit m x = x \<Longrightarrow> bit (x :: u8) n \<Longrightarrow> n < m"
  by (metis bit_take_bit_iff)

lemma KEY_INFO_round_trip:
  assumes "key_info_ok k"
  shows "KEY_INFO (KEY_INFO_bytes k) = k"
proof -
  define b0 b1 where "b0 = KEY_INFO_bytes k ! 0" and "b1 = KEY_INFO_bytes k ! 1"
  note ok = assms [unfolded key_info_ok_def]
  have b: "KEY_INFO_bytes k = [b0, b1]" by (simp add: b0_def b1_def KEY_INFO_bytes_def)
  have n0: "bit b0 n = (n = 0 \<and> kMic k \<or> n = 1 \<and> kSecure k \<or> n = 2 \<and> kError k \<or> n = 3 \<and> kRequest k \<or>
      n = 4 \<and> EKD_DL k \<or> 5 \<le> n \<and> n < 8 \<and> bit (kRsvd k) (n - 5))" for n
    by (auto simp: b0_def KEY_INFO_bytes_def bit_or_iff bit_push_bit_iff dest: bit_imp_le_length)
  have n1: "bit b1 n = (n < 3 \<and> bit (KeyDescVer k) n \<or> n = 3 \<and> kType k \<or> 4 \<le> n \<and> n < 6 \<and> bit (KeyIndex k) (n - 4) \<or>
      n = 6 \<and> kInstall k \<or> n = 7 \<and> KeyAck k)" for n
    using ok by (auto simp: b1_def KEY_INFO_bytes_def bit_or_iff bit_push_bit_iff dest: field_bit)
  have "drop_bit 5 b0 = kRsvd k" "take_bit 3 b1 = KeyDescVer k" "take_bit 2 (drop_bit 4 b1) = KeyIndex k"
    using ok by (intro bit_word_eqI; auto simp: bit_drop_bit_eq bit_take_bit_iff n0 n1 dest: field_bit)+
  then show ?thesis by (simp add: KEY_INFO_def b n0 n1)
qed

lemma below_8: "n < LENGTH(8) \<Longrightarrow> n = 0 \<or> n = 1 \<or> n = 2 \<or> n = 3 \<or> n = 4 \<or> n = 5 \<or> n = 6 \<or> n = 7"
  by simp linarith

lemma KEY_INFO_bytes_surj:
  assumes "length b = 2"
  shows "KEY_INFO_bytes (KEY_INFO b) = b"
proof -
  obtain x y where b: "b = [x, y]" using assms by (auto simp: length_Suc_conv numeral_2_eq_2)
  let ?k = "KEY_INFO b"
  have "bit_at 0 (kMic ?k) OR bit_at 1 (kSecure ?k) OR bit_at 2 (kError ?k) OR bit_at 3 (kRequest ?k) OR
      bit_at 4 (EKD_DL ?k) OR push_bit 5 (kRsvd ?k) = x"
    by (rule bit_word_eqI, drule below_8, elim disjE)
      (simp_all add: b KEY_INFO_def bit_or_iff bit_push_bit_iff bit_drop_bit_eq)
  moreover have "KeyDescVer ?k OR bit_at 3 (kType ?k) OR push_bit 4 (KeyIndex ?k) OR bit_at 6 (kInstall ?k) OR
      bit_at 7 (KeyAck ?k) = y"
    by (rule bit_word_eqI, drule below_8, elim disjE)
      (simp_all add: b KEY_INFO_def bit_or_iff bit_push_bit_iff bit_drop_bit_eq bit_take_bit_iff)
  ultimately show ?thesis by (simp only: b KEY_INFO_bytes_def)
qed

definition eapol_ok :: "eapol_packet \<Rightarrow> bool" where
  "eapol_ok p \<longleftrightarrow> key_info_ok (KeyInfo p) \<and> length (Body_Len p) = 2 \<and> length (KeyLength p) = 2
     \<and> length (ReplayCounter p) = 8 \<and> length (KeyNonce p) = 32 \<and> length (KeyIv p) = 16 \<and> length (KeyRsc p) = 8
     \<and> length (KeyId p) = 8 \<and> length (KeyMic p) = 16 \<and> length (KeyDataLen p) = 2"

lemma KEY_INFO_bytes_length [simp]: "length (KEY_INFO_bytes k) = 2"
  by (simp add: KEY_INFO_bytes_def)

lemma EAPOL_bytes_length: "eapol_ok p \<Longrightarrow> length (EAPOL_bytes p) = 99 + length (KeyData p)"
  by (simp add: eapol_ok_def EAPOL_bytes_def)

lemma EAPOL_round_trip:
  assumes "eapol_ok p"
  shows "EAPOL_PACKET (EAPOL_bytes p @ rest) = p\<lparr>KeyData := KeyData p @ rest\<rparr>"
  using assms KEY_INFO_round_trip [of "KeyInfo p"]
  by (simp add: eapol_ok_def EAPOL_bytes_def EAPOL_PACKET_def nth_append)

lemma length_SET [simp]: "length (SET_UINT16_TO_ARRARY n) = 2"
  by (simp add: SET_UINT16_TO_ARRARY_def)

lemma CONV_SET: "CONV_ARRARY_TO_UINT16 (SET_UINT16_TO_ARRARY n) = n mod 65536"
proof -
  let ?h = "n mod 65536 div 256"
  have "n mod 65536 < 65536" by simp
  then have "?h < 256" by (simp add: less_mult_imp_div_less)
  then have h: "unat (word_of_nat ?h :: u8) = ?h" by (simp add: unat_of_nat take_bit_eq_mod)
  have l: "unat (word_of_nat n :: u8) = n mod 256" by (simp add: unat_of_nat take_bit_eq_mod)
  have "n mod 65536 = ?h * 256 + n mod 65536 mod 256" by simp
  also have "n mod 65536 mod 256 = n mod 256" by (rule mod_mod_cancel) simp
  finally show ?thesis by (simp only: CONV_ARRARY_TO_UINT16_def SET_UINT16_TO_ARRARY_def nth_Cons_0 nth_Cons_Suc One_nat_def h l)
qed

text \<open>The replay counter is a number, most significant byte first, that wraps around.\<close>

lemma length_add_one [simp]: "length (ADD_ONE_To_64BIT_VAR v) = length v"
proof -
  have "length (add_one_rev xs) = length xs" for xs by (induction xs) auto
  then show ?thesis by (simp add: ADD_ONE_To_64BIT_VAR_def)
qed

lemma be_number_snoc: "be_number (b @ [x]) = 256 * be_number b + unat x"
  by (simp add: be_number_def)

lemma ADD_ONE_number: "be_number (ADD_ONE_To_64BIT_VAR v) = (be_number v + 1) mod 256 ^ length v"
proof -
  have "be_number (rev (add_one_rev r)) = (be_number (rev r) + 1) mod 256 ^ length r" for r
  proof (induction r)
    case Nil
    then show ?case by (simp add: be_number_def)
  next
    case (Cons x r)
    let ?b = "be_number (rev r)"
    show ?case
    proof (cases "x + 1 = 0")
      case True
      then have "x = -1" by (simp add: eq_neg_iff_add_eq_0)
      then have "unat x = 255" by (simp add: unsigned_minus_1_eq_mask mask_eq_exp_minus_1)
      then have "be_number (rev (x # r)) + 1 = 256 * (?b + 1)" by (simp add: be_number_snoc)
      moreover have "be_number (rev (add_one_rev (x # r))) = 256 * ((?b + 1) mod 256 ^ length r)"
        using True Cons.IH by (simp add: be_number_snoc)
      ultimately show ?thesis by (simp only: mult_mod_right length_Cons power_Suc)
    next
      case False
      then have "1 + x \<noteq> 0" by (simp add: add.commute)
      from unatSuc [OF this] have u: "unat (x + 1) = unat x + 1" by (simp add: add.commute)
      have "unat (x + 1) < 2 ^ LENGTH(8)" by (rule unsigned_less)
      then have "unat x + 1 < 256" by (simp only: u) simp
      moreover have "?b + 1 \<le> 256 ^ length r" using be_number_less [of "rev r"] by simp
      then have "256 * (?b + 1) \<le> 256 * 256 ^ length r" by (rule mult_le_mono2)
      ultimately have "256 * ?b + unat x + 1 < 256 ^ length (x # r)" by simp
      then have "(256 * ?b + unat x + 1) mod 256 ^ length (x # r) = 256 * ?b + unat x + 1" by (rule mod_less)
      moreover have "be_number (rev (add_one_rev (x # r))) = 256 * ?b + unat x + 1" "be_number (rev (x # r)) = 256 * ?b + unat x"
        using False u by (simp_all add: be_number_snoc)
      ultimately show ?thesis by (simp only:)
    qed
  qed
  from this [of "rev v"] show ?thesis by (simp add: ADD_ONE_To_64BIT_VAR_def)
qed

end
