(* ===== verification/Asic_Keys.thy ===== *)
theory Asic_Keys
  imports Cmm_Wep
begin

text \<open>
  The key tables of the hardware, as \<open>rt5572/common/cmm_asic.c\<close> and \<open>rtusb_io.c\<close> fill them, with the
  addresses of \<open>include/chip/rtmp_mac.h\<close>, and the random numbers of \<open>common/mlme.c\<close>. The memory of the
  hardware is a function from addresses to bytes; that the hardware itself advances the packet
  numbers in it is not modelled, nor are the beacons of networks 6 and 7, which share the memory of the
  pairwise keys from station 222 on (the driver reserves those stations then). \<open>ASSERT\<close>, which only prints
  in a debug build, is left out. Then: every table keeps to its own range of addresses, so that a key can be
  read back after others have been installed.
\<close>

section \<open>The memory\<close>

type_synonym asic = "nat \<Rightarrow> u8"

definition asic_write :: "nat \<Rightarrow> bytes \<Rightarrow> asic \<Rightarrow> asic" where
  "asic_write off bs M = (\<lambda>a. if off \<le> a \<and> a < off + length bs then bs ! (a - off) else M a)"

definition asic_read :: "asic \<Rightarrow> nat \<Rightarrow> nat \<Rightarrow> bytes" where
  "asic_read M off n = map M [off..<off + n]"

definition le_bytes :: "u32 \<Rightarrow> bytes" where
  "le_bytes w = [ucast w, ucast (drop_bit 8 w), ucast (drop_bit 16 w), ucast (drop_bit 24 w)]"

definition le_word :: "bytes \<Rightarrow> u32" where
  "le_word b = ucast (b ! 0) OR push_bit 8 (ucast (b ! 1)) OR push_bit 16 (ucast (b ! 2)) OR push_bit 24 (ucast (b ! 3))"

text \<open>The accesses of 32 bits, and the write of a number of bytes, two at a time.\<close>

definition RTMP_IO_WRITE32 :: "nat \<Rightarrow> u32 \<Rightarrow> asic \<Rightarrow> asic" where
  "RTMP_IO_WRITE32 off v M = asic_write off (le_bytes v) M"

definition RTMP_IO_READ32 :: "asic \<Rightarrow> nat \<Rightarrow> u32" where
  "RTMP_IO_READ32 M off = le_word (asic_read M off 4)"

definition RTUSBMultiWrite :: "nat \<Rightarrow> bytes \<Rightarrow> nat \<Rightarrow> asic \<Rightarrow> asic option" where
  "RTUSBMultiWrite Offset pData n M =
     (let n = n + n mod 2 in
      if length pData < n then None else Some (asic_write Offset (take n pData) M))"

section \<open>Addresses\<close>

definition MAC_WCID_BASE :: nat where "MAC_WCID_BASE = 0x1800"
definition PAIRWISE_KEY_TABLE_BASE :: nat where "PAIRWISE_KEY_TABLE_BASE = 0x4000"
definition MAC_IVEIV_TABLE_BASE :: nat where "MAC_IVEIV_TABLE_BASE = 0x6000"
definition MAC_WCID_ATTRIBUTE_BASE :: nat where "MAC_WCID_ATTRIBUTE_BASE = 0x6800"
definition SHARED_KEY_TABLE_BASE :: nat where "SHARED_KEY_TABLE_BASE = 0x6c00"
definition SHARED_KEY_MODE_BASE :: nat where "SHARED_KEY_MODE_BASE = 0x7000"
definition HW_KEY_ENTRY_SIZE :: nat where "HW_KEY_ENTRY_SIZE = 0x20"

lemmas asic_bases = MAC_WCID_BASE_def PAIRWISE_KEY_TABLE_BASE_def MAC_IVEIV_TABLE_BASE_def
  MAC_WCID_ATTRIBUTE_BASE_def SHARED_KEY_TABLE_BASE_def SHARED_KEY_MODE_BASE_def HW_KEY_ENTRY_SIZE_def

definition SHAREDKEYTABLE :: bool where "SHAREDKEYTABLE = False"
definition PAIRWISEKEYTABLE :: bool where "PAIRWISEKEYTABLE = True"

section \<open>Writing the tables\<close>

text \<open>A key with the two integrity keys behind it, in an entry of a key table.\<close>

definition write_key_entry :: "nat \<Rightarrow> cipher_key \<Rightarrow> asic \<Rightarrow> asic option" where
  "write_key_entry off k M =
     (case RTUSBMultiWrite off (Key k) 16 M of
        None \<Rightarrow> None
      | Some M \<Rightarrow>
          (case RTUSBMultiWrite (off + 16) (TxMic k) 8 M of
             None \<Rightarrow> None
           | Some M \<Rightarrow> RTUSBMultiWrite (off + 24) (RxMic k) 8 M))"

text \<open>
  The four bits of a key in \<open>SHAREDKEY_MODE_STRUC\<close>; \<open>alg\<close> is cut to the width of the field. An index
  beyond 3 stands for key 3.
\<close>

definition set_key_mode :: "nat \<Rightarrow> nat \<Rightarrow> u8 \<Rightarrow> u32 \<Rightarrow> u32" where
  "set_key_mode BssIndex KeyIdx alg w =
     (let n = 16 * (BssIndex mod 2) + 4 * min KeyIdx 3
      in (w AND NOT (push_bit n 0xf)) OR push_bit n (take_bit 4 (ucast alg)))"

definition AsicAddSharedKeyEntry :: "nat \<Rightarrow> nat \<Rightarrow> cipher_key \<Rightarrow> asic \<Rightarrow> asic option" where
  "AsicAddSharedKeyEntry BssIndex KeyIdx k M =
     map_option
       (\<lambda>M. let off = SHARED_KEY_MODE_BASE + 4 * (BssIndex div 2)
             in RTMP_IO_WRITE32 off (set_key_mode BssIndex KeyIdx (CipherAlg k) (RTMP_IO_READ32 M off)) M)
       (write_key_entry (SHARED_KEY_TABLE_BASE + (4 * BssIndex + KeyIdx) * HW_KEY_ENTRY_SIZE) k M)"

definition AsicRemoveSharedKeyEntry :: "nat \<Rightarrow> nat \<Rightarrow> asic \<Rightarrow> asic" where
  "AsicRemoveSharedKeyEntry BssIndex KeyIdx M =
     (let off = SHARED_KEY_MODE_BASE + 4 * (BssIndex div 2)
      in RTMP_IO_WRITE32 off (set_key_mode BssIndex KeyIdx 0 (RTMP_IO_READ32 M off)) M)"

definition AsicUpdateWCIDIVEIV :: "nat \<Rightarrow> u32 \<Rightarrow> u32 \<Rightarrow> asic \<Rightarrow> asic" where
  "AsicUpdateWCIDIVEIV WCID uIV uEIV M =
     (let offset = MAC_IVEIV_TABLE_BASE + WCID * 8
      in RTMP_IO_WRITE32 (offset + 4) uEIV (RTMP_IO_WRITE32 offset uIV M))"

definition AsicUpdateRxWCIDTable :: "nat \<Rightarrow> bytes \<Rightarrow> asic \<Rightarrow> asic" where
  "AsicUpdateRxWCIDTable WCID pAddr M =
     (let offset = MAC_WCID_BASE + WCID * 8;
          b = (\<lambda>i. ucast (pAddr ! i) :: u32)
      in RTMP_IO_WRITE32 (offset + 4) (b 4 + push_bit 8 (b 5))
           (RTMP_IO_WRITE32 offset (b 0 + push_bit 8 (b 1) + push_bit 16 (b 2) + push_bit 24 (b 3)) M))"

text \<open>\<open>WCID_ATTRIBUTE_STRUC\<close>: the table of the key, the cipher and the index of the BSS.\<close>

definition WCID_ATTRIBUTE :: "bool \<Rightarrow> u8 \<Rightarrow> u8 \<Rightarrow> u32" where
  "WCID_ATTRIBUTE KeyTab alg BssIdx =
     (if KeyTab then 1 else 0) OR push_bit 1 (take_bit 3 (ucast alg)) OR
     push_bit 4 (take_bit 3 (ucast BssIdx)) OR push_bit 10 (take_bit 1 (drop_bit 3 (ucast alg))) OR
     push_bit 11 (take_bit 1 (drop_bit 3 (ucast BssIdx)))"

definition AsicUpdateWcidAttributeEntry :: "u8 \<Rightarrow> u8 \<Rightarrow> nat \<Rightarrow> bool \<Rightarrow> asic \<Rightarrow> asic" where
  "AsicUpdateWcidAttributeEntry BssIdx alg Wcid KeyTabFlag M =
     (if Wcid > 254 then M
      else RTMP_IO_WRITE32 (MAC_WCID_ATTRIBUTE_BASE + Wcid * 4) (WCID_ATTRIBUTE KeyTabFlag alg BssIdx) M)"

definition AsicAddPairwiseKeyEntry :: "nat \<Rightarrow> cipher_key \<Rightarrow> asic \<Rightarrow> asic option" where
  "AsicAddPairwiseKeyEntry WCID k M = write_key_entry (PAIRWISE_KEY_TABLE_BASE + WCID * HW_KEY_ENTRY_SIZE) k M"

definition AsicRemovePairwiseKeyEntry :: "nat \<Rightarrow> asic \<Rightarrow> asic" where
  "AsicRemovePairwiseKeyEntry Wcid M = AsicUpdateWcidAttributeEntry 0 0 Wcid PAIRWISEKEYTABLE M"

section \<open>Random bytes\<close>

text \<open>\<open>RandomByte\<close>: a shift register, seeded with the time since the start when it is zero.\<close>

definition random_step :: "u32 \<times> u8 \<Rightarrow> u32 \<times> u8" where
  "random_step s =
     (case s of (r, R) \<Rightarrow>
        if r AND 1 \<noteq> 0 then (drop_bit 1 (r XOR 0x80000057) OR 0x80000000, push_bit 1 R OR 1)
        else (drop_bit 1 r, push_bit 1 R))"

definition RandomByte :: "u32 \<Rightarrow> u32 \<Rightarrow> u32 \<times> u8" where
  "RandomByte now ShiftReg = (random_step ^^ 8) (if ShiftReg = 0 then now else ShiftReg, 0)"

section \<open>Reading back\<close>

lemma asic_read_length [simp]: "length (asic_read M off n) = n"
  by (simp add: asic_read_def)

lemma asic_read_same: "length bs = n \<Longrightarrow> asic_read (asic_write off bs M) off n = bs"
  by (simp add: asic_read_def asic_write_def list_eq_iff_nth_eq)

lemma asic_read_other:
  "off + n \<le> a \<or> a + length bs \<le> off \<Longrightarrow> asic_read (asic_write a bs M) off n = asic_read M off n"
  by (auto simp: asic_read_def asic_write_def)

lemma le_bytes_length [simp]: "length (le_bytes w) = 4"
  by (simp add: le_bytes_def)

lemma le_word_bytes: "le_word (le_bytes w) = w"
proof (rule bit_word_eqI)
  fix n assume "n < LENGTH(32)"
  then consider "n < 8" | "8 \<le> n" "n < 16" | "16 \<le> n" "n < 24" | "24 \<le> n" "n < 32" by fastforce
  then show "bit (le_word (le_bytes w)) n = bit w n"
    by cases (auto simp: le_word_def le_bytes_def bit_simps)
qed


lemma asic_write_append:
  "n = length a \<Longrightarrow> asic_write (off + n) b (asic_write off a M) = asic_write off (a @ b) M"
  by (auto simp: asic_write_def nth_append fun_eq_iff)

lemma read32_write32: "RTMP_IO_READ32 (RTMP_IO_WRITE32 off v M) off = v"
  by (simp add: RTMP_IO_READ32_def RTMP_IO_WRITE32_def asic_read_same le_word_bytes)

lemma read32_same: "RTMP_IO_READ32 (asic_write off (le_bytes v) M) off = v"
  using read32_write32 [of off v M] by (simp add: RTMP_IO_WRITE32_def)

lemma read32_other: "off + 4 \<le> a \<or> a + length bs \<le> off \<Longrightarrow> RTMP_IO_READ32 (asic_write a bs M) off = RTMP_IO_READ32 M off"
  by (simp add: RTMP_IO_READ32_def asic_read_other)

text \<open>
  The five tables as lists, for \<open>nw\<close> stations and \<open>nb\<close> networks. The addresses leave room for 256 and 8:
  the shared keys of 8 networks end where their modes begin, \<open>NICInitializeAsic\<close> clears the modes of 8, and
  \<open>RtmpChipBcnInit\<close> allows as many. Comments and assertions in the sources speak of 64 stations and of 4
  networks with 16 keys, which are the tables with \<open>nw = 64\<close> and \<open>nb = 4\<close>.
\<close>

definition key_entry :: "cipher_key \<Rightarrow> bytes" where
  "key_entry k = Key k @ TxMic k @ RxMic k"

definition key_entry_ok :: "cipher_key \<Rightarrow> bool" where
  "key_entry_ok k \<longleftrightarrow> length (Key k) = 16 \<and> length (TxMic k) = 8 \<and> length (RxMic k) = 8"

definition pairwise_table :: "nat \<Rightarrow> asic \<Rightarrow> bytes list" where
  "pairwise_table nw M = map (\<lambda>w. asic_read M (PAIRWISE_KEY_TABLE_BASE + w * HW_KEY_ENTRY_SIZE) 32) [0..<nw]"

definition shared_table :: "nat \<Rightarrow> asic \<Rightarrow> bytes list" where
  "shared_table nb M = map (\<lambda>i. asic_read M (SHARED_KEY_TABLE_BASE + i * HW_KEY_ENTRY_SIZE) 32) [0..<4 * nb]"

definition mode_table :: "nat \<Rightarrow> asic \<Rightarrow> u32 list" where
  "mode_table nb M =
     map (\<lambda>i. take_bit 4 (drop_bit (4 * (i mod 8)) (RTMP_IO_READ32 M (SHARED_KEY_MODE_BASE + 4 * (i div 8))))) [0..<4 * nb]"

definition iv_table :: "nat \<Rightarrow> asic \<Rightarrow> (u32 \<times> u32) list" where
  "iv_table nw M = map (\<lambda>w. (RTMP_IO_READ32 M (MAC_IVEIV_TABLE_BASE + w * 8),
                              RTMP_IO_READ32 M (MAC_IVEIV_TABLE_BASE + w * 8 + 4))) [0..<nw]"

definition attribute_table :: "nat \<Rightarrow> asic \<Rightarrow> u32 list" where
  "attribute_table nw M = map (\<lambda>w. RTMP_IO_READ32 M (MAC_WCID_ATTRIBUTE_BASE + w * 4)) [0..<nw]"

definition asic_tables :: "nat \<Rightarrow> nat \<Rightarrow> asic \<Rightarrow> bytes list \<times> bytes list \<times> u32 list \<times> (u32 \<times> u32) list \<times> u32 list" where
  "asic_tables nw nb M = (pairwise_table nw M, shared_table nb M, mode_table nb M, iv_table nw M, attribute_table nw M)"

lemmas table_defs = pairwise_table_def shared_table_def mode_table_def iv_table_def attribute_table_def

lemma map_upt_update:
  "(\<And>j. j < n \<Longrightarrow> g j = (if j = i then v else f j)) \<Longrightarrow> map g [0..<n] = (map f [0..<n])[i := v]"
  by (simp add: list_eq_iff_nth_eq nth_list_update)

lemma map_upt_same: "(\<And>j. j < n \<Longrightarrow> g j = f j) \<Longrightarrow> map g [0..<n] = map f [0..<n]"
  by simp

lemma write_key_entry_ok:
  assumes "key_entry_ok k"
  shows "write_key_entry off k M = Some (asic_write off (key_entry k) M)"
proof -
  have "asic_write (off + 24) (RxMic k) (asic_write (off + 16) (TxMic k) (asic_write off (Key k) M))
      = asic_write off (key_entry k) M"
    using assms asic_write_append [of 16 "Key k" off "TxMic k" M]
      asic_write_append [of 24 "Key k @ TxMic k" off "RxMic k" M]
    by (simp add: key_entry_ok_def key_entry_def)
  with assms show ?thesis by (simp add: write_key_entry_def RTUSBMultiWrite_def key_entry_ok_def)
qed

lemma key_entry_length: "key_entry_ok k \<Longrightarrow> length (key_entry k) = 32"
  by (simp add: key_entry_ok_def key_entry_def)

lemma pairwise_write:
  fixes M :: asic
  assumes "length bs = 32" "w < nw" and nw: "nw \<le> 256" "nb \<le> 8"
  defines "M' \<equiv> asic_write (PAIRWISE_KEY_TABLE_BASE + w * HW_KEY_ENTRY_SIZE) bs M"
  shows "asic_tables nw nb M' = ((pairwise_table nw M)[w := bs], snd (asic_tables nw nb M))"
proof -
  have "pairwise_table nw M' = (pairwise_table nw M)[w := bs]"
    unfolding pairwise_table_def M'_def using assms(1,2) nw
    by (intro map_upt_update) (auto simp: asic_read_same asic_bases intro!: asic_read_other)
  moreover have "shared_table nb M' = shared_table nb M" "mode_table nb M' = mode_table nb M" "iv_table nw M' = iv_table nw M"
    "attribute_table nw M' = attribute_table nw M"
    unfolding M'_def table_defs using assms(1,2) nw
    by (intro map_upt_same; simp add: asic_bases asic_read_other read32_other)+
  ultimately show ?thesis by (simp add: asic_tables_def)
qed


lemma shared_write:
  fixes M :: asic
  assumes "length bs = 32" "i < 4 * nb" and nw: "nw \<le> 256" "nb \<le> 8"
  defines "M' \<equiv> asic_write (SHARED_KEY_TABLE_BASE + i * HW_KEY_ENTRY_SIZE) bs M"
  shows "asic_tables nw nb M' = (pairwise_table nw M, (shared_table nb M)[i := bs], mode_table nb M, iv_table nw M, attribute_table nw M)"
proof -
  have "shared_table nb M' = (shared_table nb M)[i := bs]"
    unfolding shared_table_def M'_def using assms(1,2) nw
    by (intro map_upt_update) (auto simp: asic_read_same asic_bases intro!: asic_read_other)
  moreover have "pairwise_table nw M' = pairwise_table nw M" "mode_table nb M' = mode_table nb M" "iv_table nw M' = iv_table nw M"
    "attribute_table nw M' = attribute_table nw M"
    unfolding M'_def table_defs using assms(1,2) nw
    by (intro map_upt_same; simp add: asic_bases asic_read_other read32_other)+
  ultimately show ?thesis by (simp add: asic_tables_def)
qed

lemma bit_nibble:
  fixes w v :: u32
  assumes "m < 32"
  shows "bit ((w AND NOT (push_bit p 15)) OR push_bit p (take_bit 4 v)) m =
    (if p \<le> m \<and> m < p + 4 then bit v (m - p) else bit w m)"
proof -
  have "(15 :: u32) = mask 4" by (simp add: mask_eq_exp_minus_1)
  then have "bit (push_bit p (15 :: u32)) m = bit (push_bit p (mask 4 :: u32)) m" by simp
  with assms show ?thesis by (auto simp: bit_simps)
qed

lemma set_key_mode_field:
  assumes "k < 4" "j < 8"
  shows "take_bit 4 (drop_bit (4 * j) (set_key_mode b k a w)) =
    (if j = 4 * (b mod 2) + k then take_bit 4 (ucast a) else take_bit 4 (drop_bit (4 * j) w))"
proof (rule bit_word_eqI)
  fix n assume n: "n < LENGTH(32)"
  define q where "q = 4 * (b mod 2) + k"
  have s: "set_key_mode b k a w = (w AND NOT (push_bit (4 * q) 15)) OR push_bit (4 * q) (take_bit 4 (ucast a))"
    using assms(1) by (simp add: set_key_mode_def q_def algebra_simps Let_def)
  have "bit (set_key_mode b k a w) (4 * j + n) = bit (if j = q then ucast a else drop_bit (4 * j) w :: u32) n"
    if "n < 4"
  proof -
    from that assms(2) have "4 * j + n < 32" by simp
    from bit_nibble [OF this, of w "4 * q" "ucast a"] that show ?thesis
      by (auto simp: s bit_drop_bit_eq)
  qed
  then show "bit (take_bit 4 (drop_bit (4 * j) (set_key_mode b k a w))) n =
      bit (if j = 4 * (b mod 2) + k then take_bit 4 (ucast a) else take_bit 4 (drop_bit (4 * j) w)) n"
    unfolding q_def [symmetric] by (auto simp: bit_take_bit_iff bit_drop_bit_eq)
qed

lemma mode_index:
  fixes i b k :: nat
  assumes "k < 4"
  shows "i = 4 * b + k \<longleftrightarrow> i div 8 = b div 2 \<and> i mod 8 = 4 * (b mod 2) + k"
proof -
  have "b = 2 * (b div 2) + b mod 2" by simp
  then have e: "4 * b + k = (4 * (b mod 2) + k) + 8 * (b div 2)" by linarith
  have "b mod 2 < 2" by simp
  with assms have l: "4 * (b mod 2) + k < 8" by linarith
  then have "(4 * b + k) div 8 = b div 2" "(4 * b + k) mod 8 = 4 * (b mod 2) + k" unfolding e by simp_all
  moreover have "i = 8 * (i div 8) + i mod 8" by simp
  ultimately show ?thesis using e by (metis add.commute)
qed

lemma mode_write:
  fixes M :: asic and a :: u8
  assumes "b < nb" "k < 4" and nw: "nw \<le> 256" "nb \<le> 8"
  defines "off \<equiv> SHARED_KEY_MODE_BASE + 4 * (b div 2)"
  defines "M' \<equiv> RTMP_IO_WRITE32 off (set_key_mode b k a (RTMP_IO_READ32 M off)) M"
  shows "asic_tables nw nb M' = (pairwise_table nw M, shared_table nb M, (mode_table nb M)[4 * b + k := take_bit 4 (ucast a)],
    iv_table nw M, attribute_table nw M)"
proof -
  have "mode_table nb M' = (mode_table nb M)[4 * b + k := take_bit 4 (ucast a)]"
    unfolding mode_table_def
  proof (rule map_upt_update)
    fix i :: nat assume i: "i < 4 * nb"
    let ?r = "\<lambda>M. RTMP_IO_READ32 M (SHARED_KEY_MODE_BASE + 4 * (i div 8))"
    show "take_bit 4 (drop_bit (4 * (i mod 8)) (?r M')) =
        (if i = 4 * b + k then take_bit 4 (ucast a) else take_bit 4 (drop_bit (4 * (i mod 8)) (?r M)))"
    proof (cases "i div 8 = b div 2")
      case True
      with mode_index [OF assms(2)] have "i = 4 * b + k \<longleftrightarrow> i mod 8 = 4 * (b mod 2) + k" by blast
      moreover from True have "?r M' = set_key_mode b k a (?r M)"
        by (simp only: M'_def off_def read32_write32)
      moreover have "i mod 8 < 8" by simp
      ultimately show ?thesis using set_key_mode_field [OF assms(2)] by (simp only:)
    next
      case False
      with mode_index [OF assms(2)] have "i \<noteq> 4 * b + k" by blast
      moreover from False have "?r M' = ?r M"
        unfolding M'_def RTMP_IO_WRITE32_def off_def by (intro read32_other) auto
      ultimately show ?thesis by simp
    qed
  qed
  moreover have "pairwise_table nw M' = pairwise_table nw M" "shared_table nb M' = shared_table nb M" "iv_table nw M' = iv_table nw M"
    "attribute_table nw M' = attribute_table nw M"
    unfolding M'_def off_def RTMP_IO_WRITE32_def table_defs using assms(1) nw
    by (intro map_upt_same; simp add: asic_bases asic_read_other read32_other)+
  ultimately show ?thesis by (simp add: asic_tables_def)
qed

lemma iv_write:
  assumes "w < nw" and nw: "nw \<le> 256" "nb \<le> 8"
  shows "asic_tables nw nb (AsicUpdateWCIDIVEIV w iv eiv M) =
    (pairwise_table nw M, shared_table nb M, mode_table nb M, (iv_table nw M)[w := (iv, eiv)], attribute_table nw M)"
proof -
  let ?M = "AsicUpdateWCIDIVEIV w iv eiv M"
  have "iv_table nw ?M = (iv_table nw M)[w := (iv, eiv)]"
    unfolding iv_table_def
  proof (rule map_upt_update)
    fix j :: nat
    show "(RTMP_IO_READ32 ?M (MAC_IVEIV_TABLE_BASE + j * 8), RTMP_IO_READ32 ?M (MAC_IVEIV_TABLE_BASE + j * 8 + 4)) =
        (if j = w then (iv, eiv)
         else (RTMP_IO_READ32 M (MAC_IVEIV_TABLE_BASE + j * 8), RTMP_IO_READ32 M (MAC_IVEIV_TABLE_BASE + j * 8 + 4)))"
    proof (cases "j = w")
      case True
      then show ?thesis unfolding AsicUpdateWCIDIVEIV_def Let_def
        by (simp add: read32_write32) (simp add: RTMP_IO_WRITE32_def read32_other read32_same)
    next
      case False
      then show ?thesis unfolding AsicUpdateWCIDIVEIV_def Let_def RTMP_IO_WRITE32_def
        by (cases "j < w") (simp_all add: read32_other)
    qed
  qed
  moreover have "pairwise_table nw ?M = pairwise_table nw M" "shared_table nb ?M = shared_table nb M" "mode_table nb ?M = mode_table nb M"
    "attribute_table nw ?M = attribute_table nw M"
    unfolding AsicUpdateWCIDIVEIV_def Let_def RTMP_IO_WRITE32_def table_defs using assms
    by (intro map_upt_same; simp add: asic_bases asic_read_other read32_other)+
  ultimately show ?thesis by (simp add: asic_tables_def)
qed

lemma attribute_write:
  assumes "w < nw" "w < 255" and nw: "nw \<le> 256" "nb \<le> 8"
  shows "asic_tables nw nb (AsicUpdateWcidAttributeEntry b a w tab M) =
    (pairwise_table nw M, shared_table nb M, mode_table nb M, iv_table nw M, (attribute_table nw M)[w := WCID_ATTRIBUTE tab a b])"
proof -
  let ?M = "AsicUpdateWcidAttributeEntry b a w tab M"
  have M: "?M = RTMP_IO_WRITE32 (MAC_WCID_ATTRIBUTE_BASE + w * 4) (WCID_ATTRIBUTE tab a b) M"
    using assms by (simp add: AsicUpdateWcidAttributeEntry_def)
  have "attribute_table nw ?M = (attribute_table nw M)[w := WCID_ATTRIBUTE tab a b]"
    unfolding attribute_table_def M
    by (intro map_upt_update) (auto simp: read32_same RTMP_IO_WRITE32_def intro!: read32_other)
  moreover have "pairwise_table nw ?M = pairwise_table nw M" "shared_table nb ?M = shared_table nb M" "mode_table nb ?M = mode_table nb M"
    "iv_table nw ?M = iv_table nw M"
    unfolding M RTMP_IO_WRITE32_def table_defs using assms
    by (intro map_upt_same; simp add: asic_bases asic_read_other read32_other)+
  ultimately show ?thesis by (simp add: asic_tables_def)
qed


section \<open>Properties\<close>

text \<open>C22: Seen as five tables of any number of stations up to 256 and of networks up to 8, the entry points
  change one entry each: adding a pairwise key replaces the entry of that station and nothing else; adding a
  shared key replaces one shared key and its cipher; removing one clears its cipher only; the packet number
  and the attributes of a station are its own. No address of one table belongs to another. With 64 stations
  and 4 networks these are the tables of the comments and of the assertion in \<open>AsicRemoveSharedKeyEntry\<close>
  (64 and 16 entries), with 256 and 8 those that the rest of the driver uses.\<close>

theorem asic_tables_refined:
  assumes "key_entry_ok k" and "nw \<le> 256" and "nb \<le> 8" and "w < nw" and "b < nb" and "i < 4"
  shows "(\<exists>M'. AsicAddPairwiseKeyEntry w k M = Some M' \<and>
      asic_tables nw nb M' = ((pairwise_table nw M)[w := key_entry k], snd (asic_tables nw nb M)))
    \<and> (\<exists>M'. AsicAddSharedKeyEntry b i k M = Some M' \<and>
      asic_tables nw nb M' = (pairwise_table nw M, (shared_table nb M)[4 * b + i := key_entry k],
        (mode_table nb M)[4 * b + i := take_bit 4 (ucast (CipherAlg k))], iv_table nw M, attribute_table nw M))
    \<and> asic_tables nw nb (AsicRemoveSharedKeyEntry b i M) =
        (pairwise_table nw M, shared_table nb M, (mode_table nb M)[4 * b + i := 0], iv_table nw M, attribute_table nw M)
    \<and> asic_tables nw nb (AsicUpdateWCIDIVEIV w iv eiv M) =
        (pairwise_table nw M, shared_table nb M, mode_table nb M, (iv_table nw M)[w := (iv, eiv)], attribute_table nw M)
    \<and> (w \<noteq> 255 \<longrightarrow> asic_tables nw nb (AsicRemovePairwiseKeyEntry w M) =
        (pairwise_table nw M, shared_table nb M, mode_table nb M, iv_table nw M, (attribute_table nw M)[w := 1]))"
proof (intro conjI impI)
  let ?p = "asic_write (PAIRWISE_KEY_TABLE_BASE + w * HW_KEY_ENTRY_SIZE) (key_entry k) M"
  let ?s = "asic_write (SHARED_KEY_TABLE_BASE + (4 * b + i) * HW_KEY_ENTRY_SIZE) (key_entry k) M"
  show "\<exists>M'. AsicAddPairwiseKeyEntry w k M = Some M' \<and>
      asic_tables nw nb M' = ((pairwise_table nw M)[w := key_entry k], snd (asic_tables nw nb M))"
    using pairwise_write [OF key_entry_length assms(4,2,3)] assms(1)
    by (simp add: AsicAddPairwiseKeyEntry_def write_key_entry_ok)
  have t: "asic_tables nw nb ?s = (pairwise_table nw M, (shared_table nb M)[4 * b + i := key_entry k], mode_table nb M, iv_table nw M,
      attribute_table nw M)"
    using shared_write [OF key_entry_length, of k "4 * b + i" nb nw M] assms by simp
  then show "\<exists>M'. AsicAddSharedKeyEntry b i k M = Some M' \<and>
      asic_tables nw nb M' = (pairwise_table nw M, (shared_table nb M)[4 * b + i := key_entry k],
        (mode_table nb M)[4 * b + i := take_bit 4 (ucast (CipherAlg k))], iv_table nw M, attribute_table nw M)"
    using mode_write [OF assms(5,6,2,3), of "CipherAlg k" ?s] assms(1)
    by (simp add: AsicAddSharedKeyEntry_def write_key_entry_ok Let_def asic_tables_def)
  show "asic_tables nw nb (AsicRemoveSharedKeyEntry b i M) =
      (pairwise_table nw M, shared_table nb M, (mode_table nb M)[4 * b + i := 0], iv_table nw M, attribute_table nw M)"
    using mode_write [OF assms(5,6,2,3), of 0 M] by (simp add: AsicRemoveSharedKeyEntry_def Let_def)
  show "asic_tables nw nb (AsicUpdateWCIDIVEIV w iv eiv M) =
      (pairwise_table nw M, shared_table nb M, mode_table nb M, (iv_table nw M)[w := (iv, eiv)], attribute_table nw M)"
    by (rule iv_write [OF assms(4,2,3)])
  assume "w \<noteq> 255"
  with assms(2,4) have "w < 255" by simp
  then show "asic_tables nw nb (AsicRemovePairwiseKeyEntry w M) =
      (pairwise_table nw M, shared_table nb M, mode_table nb M, iv_table nw M, (attribute_table nw M)[w := 1])"
    unfolding AsicRemovePairwiseKeyEntry_def using assms(2-4) by (simp add: attribute_write WCID_ATTRIBUTE_def PAIRWISEKEYTABLE_def)
qed

theorem asic_tables_refined_witness:
  "\<exists>M'. AsicAddPairwiseKeyEntry 255 \<lparr>Key = replicate 16 1, TxMic = replicate 8 2, RxMic = replicate 8 3, TxTsc = [],
      RxTsc = [], CipherAlg = 4, KeyLen = 16, BssId = [], KeyType = 0\<rparr> (\<lambda>_. 0) = Some M' \<and>
    pairwise_table 256 M' = (pairwise_table 256 (\<lambda>_. 0))[255 := replicate 16 1 @ replicate 8 2 @ replicate 8 3]"
proof -
  let ?k = "\<lparr>Key = replicate 16 1, TxMic = replicate 8 2, RxMic = replicate 8 3, TxTsc = [],
      RxTsc = [], CipherAlg = 4, KeyLen = 16, BssId = [], KeyType = 0\<rparr> :: cipher_key"
  have k: "key_entry_ok ?k" "key_entry ?k = replicate 16 1 @ replicate 8 2 @ replicate 8 3"
    by (simp_all only: key_entry_ok_def key_entry_def cipher_key.select_convs length_replicate simp_thms)
  have "(256 :: nat) \<le> 256" "(8 :: nat) \<le> 8" "(255 :: nat) < 256" "(7 :: nat) < 8" "(3 :: nat) < 4" by simp_all
  from conjunct1 [OF asic_tables_refined [OF k(1) this, of "\<lambda>_. 0"]] show ?thesis
    unfolding k(2) asic_tables_def by (simp only: prod.inject) blast
qed

end
