(* ===== verification/Wpa_State.thy ===== *)
theory Wpa_State
  imports Wpa_Eapol Asic_Keys Rtmp_Timer
begin

text \<open>
  The state that the key handshakes of \<open>rt5572/common/cmm_wpa.c\<close> work on: the fields of
  \<open>MAC_TABLE_ENTRY\<close>, \<open>MULTISSID_STRUCT\<close>, the station's configuration and the adapter
  (\<open>include/rtmp.h\<close>) that they read or write, and the look-up in the table of stations
  (\<open>common/cmm_data.c\<close>). The driver is built for access points and
  stations; links of an AP client, which have entries of their own type, are not modelled.
\<close>

section \<open>States, in the order of their numbers\<close>

datatype AP_WPA_STATE =
    AS_NOTUSE | AS_DISCONNECT | AS_DISCONNECTED | AS_INITIALIZE | AS_AUTHENTICATION | AS_AUTHENTICATION2
  | AS_INITPMK | AS_INITPSK | AS_PTKSTART | AS_PTKINIT_NEGOTIATING | AS_PTKINITDONE | AS_UPDATEKEYS
  | AS_INTEGRITY_FAILURE | AS_KEYUPDATE

fun wpa_state_number :: "AP_WPA_STATE \<Rightarrow> nat" where
  "wpa_state_number AS_NOTUSE = 0" | "wpa_state_number AS_DISCONNECT = 1" | "wpa_state_number AS_DISCONNECTED = 2"
| "wpa_state_number AS_INITIALIZE = 3" | "wpa_state_number AS_AUTHENTICATION = 4"
| "wpa_state_number AS_AUTHENTICATION2 = 5" | "wpa_state_number AS_INITPMK = 6" | "wpa_state_number AS_INITPSK = 7"
| "wpa_state_number AS_PTKSTART = 8" | "wpa_state_number AS_PTKINIT_NEGOTIATING = 9"
| "wpa_state_number AS_PTKINITDONE = 10" | "wpa_state_number AS_UPDATEKEYS = 11"
| "wpa_state_number AS_INTEGRITY_FAILURE = 12" | "wpa_state_number AS_KEYUPDATE = 13"

lemma wpa_state_number_inj: "wpa_state_number a = wpa_state_number b \<Longrightarrow> a = b"
  by (cases a; cases b) simp_all

instantiation AP_WPA_STATE :: linorder
begin

definition less_eq_AP_WPA_STATE :: "AP_WPA_STATE \<Rightarrow> AP_WPA_STATE \<Rightarrow> bool" where
  "less_eq_AP_WPA_STATE a b \<longleftrightarrow> wpa_state_number a \<le> wpa_state_number b"

definition less_AP_WPA_STATE :: "AP_WPA_STATE \<Rightarrow> AP_WPA_STATE \<Rightarrow> bool" where
  "less_AP_WPA_STATE a b \<longleftrightarrow> wpa_state_number a < wpa_state_number b"

instance
  by standard (auto simp: less_eq_AP_WPA_STATE_def less_AP_WPA_STATE_def intro: wpa_state_number_inj)

end

lemmas wpa_state_order = less_eq_AP_WPA_STATE_def less_AP_WPA_STATE_def

fun auth_mode_number :: "NDIS_802_11_AUTHENTICATION_MODE \<Rightarrow> nat" where
  "auth_mode_number Ndis802_11AuthModeOpen = 0" | "auth_mode_number Ndis802_11AuthModeShared = 1"
| "auth_mode_number Ndis802_11AuthModeAutoSwitch = 2" | "auth_mode_number Ndis802_11AuthModeWPA = 3"
| "auth_mode_number Ndis802_11AuthModeWPAPSK = 4" | "auth_mode_number Ndis802_11AuthModeWPANone = 5"
| "auth_mode_number Ndis802_11AuthModeWPA2 = 6" | "auth_mode_number Ndis802_11AuthModeWPA2PSK = 7"
| "auth_mode_number Ndis802_11AuthModeWPA1WPA2 = 8" | "auth_mode_number Ndis802_11AuthModeWPA1PSKWPA2PSK = 9"

lemma auth_mode_number_inj: "auth_mode_number a = auth_mode_number b \<Longrightarrow> a = b"
  by (cases a; cases b) simp_all

instantiation NDIS_802_11_AUTHENTICATION_MODE :: linorder
begin

definition less_eq_NDIS_802_11_AUTHENTICATION_MODE ::
  "NDIS_802_11_AUTHENTICATION_MODE \<Rightarrow> NDIS_802_11_AUTHENTICATION_MODE \<Rightarrow> bool" where
  "less_eq_NDIS_802_11_AUTHENTICATION_MODE a b \<longleftrightarrow> auth_mode_number a \<le> auth_mode_number b"

definition less_NDIS_802_11_AUTHENTICATION_MODE ::
  "NDIS_802_11_AUTHENTICATION_MODE \<Rightarrow> NDIS_802_11_AUTHENTICATION_MODE \<Rightarrow> bool" where
  "less_NDIS_802_11_AUTHENTICATION_MODE a b \<longleftrightarrow> auth_mode_number a < auth_mode_number b"

instance
  by standard (auto simp: less_eq_NDIS_802_11_AUTHENTICATION_MODE_def less_NDIS_802_11_AUTHENTICATION_MODE_def
      intro: auth_mode_number_inj)

end

lemmas auth_mode_order = less_eq_NDIS_802_11_AUTHENTICATION_MODE_def less_NDIS_802_11_AUTHENTICATION_MODE_def

datatype GTK_STATE = REKEY_NEGOTIATING | REKEY_ESTABLISHED | KEYERROR
datatype SST = SST_NOT_AUTH | SST_AUTH | SST_ASSOC
datatype PRIVACY_FILTER = Ndis802_11PrivFilterAcceptAll | Ndis802_11PrivFilter8021xWEP
datatype OPMODE = OPMODE_STA | OPMODE_AP
datatype ENTRY_TYPE = ENTRY_NONE | ENTRY_CLIENT | ENTRY_WDS | ENTRY_MESH | ENTRY_DLS | ENTRY_TDLS
datatype EAPOL_START = EAPOL_START_DISABLE | EAPOL_START_PSK | EAPOL_START_1X

section \<open>Records\<close>

text \<open>\<open>CIPHER_KEY\<close> set to zero.\<close>

definition zero_cipher_key :: cipher_key where
  "zero_cipher_key = \<lparr>Key = replicate 16 0, TxMic = replicate 8 0, RxMic = replicate 8 0, TxTsc = replicate 16 0,
     RxTsc = replicate 16 0, CipherAlg = 0, KeyLen = 0, BssId = replicate 6 0, KeyType = 0\<rparr>"

definition CIPHER_NONE :: u8 where "CIPHER_NONE = 0"
definition CIPHER_WEP64 :: u8 where "CIPHER_WEP64 = 1"
definition CIPHER_WEP128 :: u8 where "CIPHER_WEP128 = 2"
definition CIPHER_TKIP :: u8 where "CIPHER_TKIP = 3"
definition CIPHER_AES :: u8 where "CIPHER_AES = 4"

lemmas cipher_algs = CIPHER_NONE_def CIPHER_WEP64_def CIPHER_WEP128_def CIPHER_TKIP_def CIPHER_AES_def

text \<open>The fields of \<open>MAC_TABLE_ENTRY\<close> that the handshakes use; \<open>pNext\<close> is an index in the table.\<close>

record wpa_entry =
  EntryType :: ENTRY_TYPE
  EnqueueEapolStartTimerRunning :: EAPOL_START
  EnqueueStartForPSKTimer :: ralink_timer
  CMTimerRunning :: bool
  apidx :: nat
  ANonce :: bytes
  SNonce :: bytes
  R_Counter :: bytes
  PTK :: bytes
  ReTryCounter :: u8
  RetryTimer :: ralink_timer
  AuthMode :: NDIS_802_11_AUTHENTICATION_MODE
  WepStatus :: NDIS_802_11_WEP_STATUS
  WpaState :: AP_WPA_STATE
  GTKState :: GTK_STATE
  PortSecured :: bool
  PrivacyFilter :: PRIVACY_FILTER
  PairwiseKey :: cipher_key
  PMKID_CacheIdx :: nat
  Addr :: bytes
  Sst :: SST
  Aid :: nat
  pNext :: "nat option"

text \<open>\<open>NdisZeroMemory\<close> of an entry.\<close>

definition zero_timer :: ralink_timer where
  "zero_timer = \<lparr>Valid = False, tState = False, PeriodicType = False, Repeat = False, TimerValue = 0, pending = False\<rparr>"

definition zero_entry :: wpa_entry where
  "zero_entry = \<lparr>EntryType = ENTRY_NONE, EnqueueEapolStartTimerRunning = EAPOL_START_DISABLE, EnqueueStartForPSKTimer = zero_timer,
     CMTimerRunning = False, apidx = 0, ANonce = replicate 32 0, SNonce = replicate 32 0, R_Counter = replicate 8 0,
     PTK = replicate 64 0, ReTryCounter = 0, RetryTimer = zero_timer, AuthMode = Ndis802_11AuthModeOpen,
     WepStatus = Ndis802_11Encryption1Enabled, WpaState = AS_NOTUSE, GTKState = REKEY_NEGOTIATING, PortSecured = False,
     PrivacyFilter = Ndis802_11PrivFilterAcceptAll, PairwiseKey = zero_cipher_key, PMKID_CacheIdx = 0, Addr = replicate 6 0,
     Sst = SST_NOT_AUTH, Aid = 0, pNext = None\<rparr>"

text \<open>\<open>AP_BSSID_INFO\<close>, and the fields of \<open>MULTISSID_STRUCT\<close>.\<close>

record pmkid_info =
  iMAC :: bytes
  iPMKID :: bytes
  iPMK :: bytes
  RefreshTime :: u32
  iValid :: bool

record mbss =
  Bssid :: bytes
  GMK :: bytes
  PMK :: bytes
  GTK :: bytes
  GNonce :: bytes
  GroupKeyWepStatus :: NDIS_802_11_WEP_STATUS
  DefaultKeyId :: nat
  mAuthMode :: NDIS_802_11_AUTHENTICATION_MODE
  mWepStatus :: NDIS_802_11_WEP_STATUS
  WpaMixPairCipher :: u8
  RSN_IE :: "bytes list"
  RSNIE_Len :: "u8 list"
  RekeyCountDown :: u8
  REKEYCOUNTER :: u32
  ReKeyMethod :: nat
  ReKeyInterval :: u32
  REKEYTimer :: ralink_timer
  REKEYTimerRunning :: bool
  StaCount :: nat
  MaxStaNum :: nat
  PMKIDCache :: "pmkid_info list"
  PMKCachePeriod :: u32
  PreAuth :: bool
  IEEE8021X :: bool
  mPortSecured :: bool
  Hostapd :: bool

record sta_cfg =
  sPMK :: bytes
  sPTK :: bytes
  sGTK :: bytes
  sDefaultKeyId :: nat
  GroupCipher :: NDIS_802_11_WEP_STATUS
  sAuthMode :: NDIS_802_11_AUTHENTICATION_MODE
  sWepStatus :: NDIS_802_11_WEP_STATUS
  bMixCipher :: bool
  WpaSupplicantUP :: bool
  BssInfra :: bool
  sRSN_IE :: bytes
  sRSNIE_Len :: u8
  sPortSecured :: bool

text \<open>
  What the code hands to the rest of the driver, in order: frames for a station, with their
  Ethernet header, events for the operating system, the steps of \<open>STA_PORT_SECURED\<close> outside the
  state, deauthentication frames with addresses and reason, commands for the thread that sets up the
  chip, the calls of other components, and messages for later, of which
  \<open>RTMP_HANDLE_COUNTER_MEASURE\<close> holds a copy of the station's entry.
\<close>

datatype wpa_output =
    RTMPToWirelessSta nat bytes bytes bool
  | RTMPSendWirelessEvent nat bytes nat
  | RTMP_IndicateMediaState
  | MiniportMMRequest_DeAuth bytes bytes nat
  | DOT1X_InternalCmdAction bytes
  | BASessionTearDownALL nat
  | RTMP_STA_ENTRY_ADD nat bytes
  | RTMP_STA_ENTRY_MAC_RESET nat
  | RTMP_REMOVE_PAIRWISE_KEY_ENTRY nat
  | RTMP_UPDATE_PROTECT
  | RtmpOSWrielessEventSendExt bytes nat
  | RTMP_AP_UPDATE_CAPABILITY_AND_ERPIE
  | MlmeEnqueue_EAPOLStart bytes
  | DOT1X_EapTriggerAction nat
  | Enqueue_COUNTER_MEASURE wpa_entry
  | ApLogEvent bytes

record wpa_adapter =
  opmode :: OPMODE
  closing :: bool
  halted :: bool
  CurrentAddress :: bytes
  CommonBssid :: bytes
  StaCfg :: sta_cfg
  MBSSID :: "mbss list"
  BssidNum :: nat
  BcnMaxNum :: nat
  WcidHwRsvNum :: nat
  SharedKey :: "cipher_key list list"
  ShiftReg :: u32
  asic_mem :: asic
  Content :: "wpa_entry list"
  Hash :: "nat option list"
  MacTabSize :: nat
  EntryClientCount :: nat
  LinkDownTimer :: ralink_timer
  apCMTimerRunning :: bool
  CounterMeasureTimer :: ralink_timer
  MICFailureCounter :: u32
  BANClass3Data :: bool
  out :: "wpa_output list"

text \<open>The clocks: the system times that \<open>GenRandom\<close> reads in its turns, and the time since the start.\<close>

record wpa_clock =
  system_time :: "nat \<Rightarrow> u32"
  up_time :: u32

definition upd_entry :: "nat \<Rightarrow> (wpa_entry \<Rightarrow> wpa_entry) \<Rightarrow> wpa_adapter \<Rightarrow> wpa_adapter" where
  "upd_entry i f A = A\<lparr>Content := (Content A)[i := f (Content A ! i)]\<rparr>"

definition upd_mbss :: "nat \<Rightarrow> (mbss \<Rightarrow> mbss) \<Rightarrow> wpa_adapter \<Rightarrow> wpa_adapter" where
  "upd_mbss n f A = A\<lparr>MBSSID := (MBSSID A)[n := f (MBSSID A ! n)]\<rparr>"

definition put_out :: "wpa_output \<Rightarrow> wpa_adapter \<Rightarrow> wpa_adapter" where
  "put_out x A = A\<lparr>out := out A @ [x]\<rparr>"

section \<open>The table of stations\<close>

definition MAX_NUMBER_OF_MAC :: nat where "MAX_NUMBER_OF_MAC = 32"

definition MAC_ADDR_HASH_INDEX :: "bytes \<Rightarrow> nat" where
  "MAC_ADDR_HASH_INDEX a = unat (a ! 0 XOR a ! 1 XOR a ! 2 XOR a ! 3 XOR a ! 4 XOR a ! 5)"

text \<open>The walk along a chain may not end when the chain is a cycle.\<close>

partial_function (option) lookup_walk :: "wpa_entry list \<Rightarrow> bytes \<Rightarrow> nat option \<Rightarrow> nat option option" where
  "lookup_walk T pAddr e =
     (case e of
        None \<Rightarrow> Some None
      | Some i \<Rightarrow>
          if i \<ge> length T then None
          else if EntryType (T ! i) = ENTRY_NONE then Some (Some i)
          else if Addr (T ! i) = pAddr then Some (Some i)
          else lookup_walk T pAddr (pNext (T ! i)))"

definition MacTableLookup :: "wpa_adapter \<Rightarrow> bytes \<Rightarrow> nat option option" where
  "MacTableLookup A pAddr =
     (if length pAddr \<noteq> 6 \<or> length (Hash A) \<noteq> 256 then None
      else lookup_walk (Content A) pAddr (Hash A ! MAC_ADDR_HASH_INDEX pAddr))"

end
