(* ===== verification/Wpa_Keys.thy ===== *)
theory Wpa_Keys
  imports Wpa_State
begin

text \<open>
  The cache of pairwise master keys, the group key's packet number (\<open>rt5572/ap/ap_wpa.c\<close>) and the
  installation of pairwise and group keys (\<open>rt5572/common/cmm_wpa.c\<close>). \<open>SOFT_ENCRYPT\<close> is not defined.
  \<open>None\<close> is an access outside an array.
\<close>

section \<open>The cache of pairwise master keys\<close>

fun find_index :: "('a \<Rightarrow> bool) \<Rightarrow> 'a list \<Rightarrow> nat option" where
  "find_index P [] = None"
| "find_index P (x # xs) = (if P x then Some 0 else map_option Suc (find_index P xs))"

definition RTMPSearchPMKIDCache :: "pmkid_info list \<Rightarrow> bytes \<Rightarrow> nat option" where
  "RTMPSearchPMKIDCache cache pAddr = find_index (\<lambda>e. iValid e \<and> iMAC e = pAddr) cache"

text \<open>The choice of the entry that a full cache gives up.\<close>

definition pmkid_victim_step :: "pmkid_info list \<Rightarrow> u32 \<times> nat \<Rightarrow> nat \<Rightarrow> u32 \<times> nat" where
  "pmkid_victim_step cache s i =
     (case s of (timestamp, idx) \<Rightarrow>
        if iValid (cache ! i) \<and>
           (timestamp = 0 \<and> idx = 0 \<or> timestamp \<noteq> 0 \<and> timestamp < RefreshTime (cache ! i))
        then (RefreshTime (cache ! i), i) else s)"

definition pmkid_victim :: "pmkid_info list \<Rightarrow> nat" where
  "pmkid_victim cache = snd (foldl (pmkid_victim_step cache) (0, 0) [0..<length cache])"

definition RTMPAddPMKIDCache :: "u32 \<Rightarrow> bytes \<Rightarrow> bytes \<Rightarrow> bytes \<Rightarrow> pmkid_info list \<Rightarrow> pmkid_info list" where
  "RTMPAddPMKIDCache now pAddr PMKID pmk cache =
     (case RTMPSearchPMKIDCache cache pAddr of
        Some i \<Rightarrow> cache[i := (cache ! i)\<lparr>RefreshTime := now, iPMKID := PMKID, iPMK := pmk\<rparr>]
      | None \<Rightarrow>
          let new = \<lparr>iMAC = pAddr, iPMKID = PMKID, iPMK = pmk, RefreshTime = now, iValid = True\<rparr> in
          (case find_index (\<lambda>e. \<not> iValid e) cache of
             Some i \<Rightarrow> cache[i := new]
           | None \<Rightarrow> cache[pmkid_victim cache := new]))"

definition RTMPDeletePMKIDCache :: "nat \<Rightarrow> pmkid_info list \<Rightarrow> pmkid_info list" where
  "RTMPDeletePMKIDCache idx cache =
     (if iValid (cache ! idx) then cache[idx := (cache ! idx)\<lparr>iValid := False\<rparr>] else cache)"

section \<open>The packet number of the group key\<close>

definition GET_GroupKey_WCID :: "wpa_adapter \<Rightarrow> nat \<Rightarrow> nat" where
  "GET_GroupKey_WCID A bssidx = WcidHwRsvNum A - 2 - BcnMaxNum A + bssidx"

text \<open>
  The six bytes; \<open>None\<close> also stands for the caller's buffer left as it was, which the code does when the
  index is out of range.
\<close>

definition RTMPGetTxTscFromAsic :: "wpa_adapter \<Rightarrow> nat \<Rightarrow> bytes option" where
  "RTMPGetTxTscFromAsic A idx =
     (if idx \<ge> BcnMaxNum A \<or> idx \<ge> length (MBSSID A) then None
      else
        let m = MBSSID A ! idx;
            off = MAC_IVEIV_TABLE_BASE + GET_GroupKey_WCID A idx * 8;
            IvEiv = (if RekeyCountDown m > 0 then 1 # replicate 7 0
                     else le_bytes (RTMP_IO_READ32 (asic_mem A) off) @ le_bytes (RTMP_IO_READ32 (asic_mem A) (off + 4)))
        in Some (if GroupKeyWepStatus m = Ndis802_11Encryption3Enabled
                 then [IvEiv ! 0, IvEiv ! 1, IvEiv ! 4, IvEiv ! 5, IvEiv ! 6, IvEiv ! 7]
                 else [IvEiv ! 2, IvEiv ! 0, IvEiv ! 4, IvEiv ! 5, IvEiv ! 6, IvEiv ! 7]))"

section \<open>Installing keys\<close>

text \<open>The first packet number of a key, with three random bytes for WEP.\<close>

definition RTMPSetWcidSecurityInfo ::
  "wpa_clock \<Rightarrow> nat \<Rightarrow> nat \<Rightarrow> u8 \<Rightarrow> nat \<Rightarrow> bool \<Rightarrow> wpa_adapter \<Rightarrow> wpa_adapter" where
  "RTMPSetWcidSecurityInfo clk BssIdx KeyIdx alg Wcid KeyTabFlag A =
     (let (reg, t0) = RandomByte (up_time clk) (ShiftReg A);
          (reg, t1) = RandomByte (up_time clk) reg;
          (reg, t2) = RandomByte (up_time clk) reg;
          keyid = push_bit 6 (word_of_nat KeyIdx) :: u8;
          set = (\<lambda>IV A. A\<lparr>asic_mem := AsicUpdateWcidAttributeEntry (word_of_nat BssIdx) alg Wcid KeyTabFlag
                             (AsicUpdateWCIDIVEIV Wcid IV 0 (asic_mem A))\<rparr>) in
      if alg = CIPHER_WEP64 \<or> alg = CIPHER_WEP128
      then set (push_bit 24 (ucast keyid) OR push_bit 16 (ucast t2) OR push_bit 8 (ucast t1) OR ucast t0)
             (A\<lparr>ShiftReg := reg\<rparr>)
      else if alg = CIPHER_TKIP \<or> alg = CIPHER_AES then set (push_bit 24 (ucast (keyid OR 0x20)) OR 1) A
      else A)"

definition LEN_TK :: nat where "LEN_TK = 16"

text \<open>The pairwise key that \<open>WPAInstallPairwiseKey\<close> makes of the entry's \<open>PTK\<close>; \<open>bAE\<close> says authenticator.\<close>

definition pairwise_key_of :: "bool \<Rightarrow> NDIS_802_11_WEP_STATUS \<Rightarrow> bytes \<Rightarrow> cipher_key" where
  "pairwise_key_of bAE status ptk =
     (let k = zero_cipher_key\<lparr>CipherAlg := (if status = Ndis802_11Encryption2Enabled then CIPHER_TKIP else CIPHER_AES),
                             KeyLen := 16, Key := take 16 (drop 32 ptk)\<rparr> in
      if status = Ndis802_11Encryption2Enabled
      then k\<lparr>TxMic := take 8 (drop (if bAE then 48 else 56) ptk), RxMic := take 8 (drop (if bAE then 56 else 48) ptk)\<rparr>
      else k)"

definition WPAInstallPairwiseKey ::
  "wpa_clock \<Rightarrow> nat \<Rightarrow> nat \<Rightarrow> bool \<Rightarrow> wpa_adapter \<Rightarrow> wpa_adapter option" where
  "WPAInstallPairwiseKey clk BssIdx i bAE A =
     (let e = Content A ! i; wcid = Aid e mod 256 in
      if i \<ge> length (Content A) then None
      else if WepStatus e \<noteq> Ndis802_11Encryption2Enabled \<and> WepStatus e \<noteq> Ndis802_11Encryption3Enabled
      then Some (upd_entry i (\<lambda>e. e\<lparr>PairwiseKey := zero_cipher_key\<rparr>) A)
      else if length (PTK e) < 64 then None
      else
        let k = pairwise_key_of bAE (WepStatus e) (PTK e) in
        map_option (\<lambda>M. RTMPSetWcidSecurityInfo clk BssIdx 0 (CipherAlg k) wcid PAIRWISEKEYTABLE
                          (upd_entry i (\<lambda>e. e\<lparr>PairwiseKey := k\<rparr>) (A\<lparr>asic_mem := M\<rparr>)))
          (AsicAddPairwiseKeyEntry wcid k (asic_mem A)))"

text \<open>
  The group key; \<open>None\<close> in the second component of the helper's result is an early return, with the
  key as far as it has been filled in.
\<close>

definition group_key_of :: "NDIS_802_11_WEP_STATUS \<Rightarrow> bool \<Rightarrow> bytes \<Rightarrow> nat \<Rightarrow> (cipher_key \<times> bool) option" where
  "group_key_of cipher bAE pGtk GtkLen =
     (let k = zero_cipher_key; wep = (cipher = Ndis802_11GroupWEP40Enabled \<or> cipher = Ndis802_11GroupWEP104Enabled);
          alg = (if cipher = Ndis802_11GroupWEP40Enabled then CIPHER_WEP64
                 else if cipher = Ndis802_11GroupWEP104Enabled then CIPHER_WEP128
                 else if cipher = Ndis802_11Encryption2Enabled then CIPHER_TKIP
                 else if cipher = Ndis802_11Encryption3Enabled then CIPHER_AES else CIPHER_NONE);
          k1 = k\<lparr>CipherAlg := alg\<rparr> in
      if alg = CIPHER_NONE then Some (k, False)
      else if wep then
        if GtkLen \<noteq> 5 \<and> GtkLen \<noteq> 13 then Some (k1, False)
        else map_option (\<lambda>d. (k1\<lparr>KeyLen := word_of_nat GtkLen, Key := d\<rparr>, True)) (move_mem 0 GtkLen pGtk (Key k1))
      else if GtkLen < LEN_TK then Some (k1, False)
      else if length pGtk < (if alg = CIPHER_TKIP then 32 else 16) then None
      else
        let k2 = k1\<lparr>KeyLen := 16, Key := take 16 pGtk\<rparr> in
        Some (if alg = CIPHER_TKIP
              then k2\<lparr>TxMic := take 8 (drop (if bAE then 16 else 24) pGtk), RxMic := take 8 (drop (if bAE then 24 else 16) pGtk)\<rparr>
              else k2, True))"

definition WPAInstallSharedKey ::
  "wpa_clock \<Rightarrow> NDIS_802_11_WEP_STATUS \<Rightarrow> nat \<Rightarrow> nat \<Rightarrow> nat \<Rightarrow> bool \<Rightarrow> bytes \<Rightarrow> nat \<Rightarrow> wpa_adapter \<Rightarrow> wpa_adapter option" where
  "WPAInstallSharedKey clk cipher BssIdx KeyIdx Wcid bAE pGtk GtkLen A =
     (if BssIdx \<ge> BcnMaxNum A then Some A
      else if BssIdx \<ge> length (SharedKey A) \<or> KeyIdx \<ge> length (SharedKey A ! BssIdx) then None
      else (case group_key_of cipher bAE pGtk GtkLen of
              None \<Rightarrow> None
            | Some (k, ok) \<Rightarrow>
                let A1 = A\<lparr>SharedKey := (SharedKey A)[BssIdx := (SharedKey A ! BssIdx)[KeyIdx := k]]\<rparr> in
                if \<not> ok then Some A1
                else map_option (\<lambda>M. let A2 = A1\<lparr>asic_mem := M\<rparr> in
                                     if Wcid \<noteq> 0
                                     then RTMPSetWcidSecurityInfo clk BssIdx KeyIdx (CipherAlg k) Wcid SHAREDKEYTABLE A2
                                     else A2)
                       (AsicAddSharedKeyEntry BssIdx KeyIdx k (asic_mem A1))))"

end
