(* ===== verification/Wpa_Sanity.thy ===== *)
theory Wpa_Sanity
  imports Wpa_Keys
begin

text \<open>
  The checks on a received EAPOL-Key frame, \<open>PeerWpaMessageSanity\<close> and \<open>RTMPParseEapolKeyData\<close> of
  \<open>rt5572/common/cmm_wpa.c\<close>. A frame is all of the buffer that it was received in, from its EAPOL
  header on, so that a length field that says too much reads what is there; \<open>None\<close> is an access
  outside the buffer, the area of the key data (255 bytes) or that of the group key (32 bytes).
\<close>

section \<open>Key data\<close>

text \<open>
  The search for the group key among the elements: the index of the key, its length, the key, and
  whether the length was accepted.
\<close>

definition kde_gtk :: "bytes \<Rightarrow> nat \<Rightarrow> nat \<times> nat \<times> bytes \<Rightarrow> (bool \<times> nat \<times> nat \<times> bytes) option" where
  "kde_gtk D skip_offset st =
     (case st of (DefaultIdx, GTKLEN, gtk) \<Rightarrow>
        if length D < skip_offset + 2 then None
        else if D ! skip_offset \<noteq> 0xdd then Some (True, st)
        else if length D < skip_offset + 5 then None
        else if take 3 (drop (skip_offset + 2) D) \<noteq> [0x00, 0x0f, 0xac] then Some (True, st)
        else if length D < skip_offset + 6 then None
        else if D ! (skip_offset + 5) \<noteq> 1 then Some (True, st)
        else if length D < skip_offset + 7 then None
        else
          let idx = unat (D ! (skip_offset + 6) AND 3); n = unat (D ! (skip_offset + 1) - 6) in
          if n < 5 then Some (False, idx, n, gtk)
          else map_option (\<lambda>gtk. (True, idx, n, gtk)) (move_mem 0 n (drop (skip_offset + 8) D) gtk))"

function kde_loop :: "bytes \<Rightarrow> nat \<Rightarrow> nat \<Rightarrow> nat \<times> nat \<times> bytes \<Rightarrow> (bool \<times> nat \<times> nat \<times> bytes) option" where
  "kde_loop D KeyDataLength skip_offset st =
     (if length D < skip_offset + 2 then None
      else if skip_offset + 2 + unat (D ! (skip_offset + 1)) \<le> KeyDataLength then
        (case kde_gtk D skip_offset st of
           None \<Rightarrow> None
         | Some (ok, st') \<Rightarrow>
             if ok then kde_loop D KeyDataLength (skip_offset + 2 + unat (D ! (skip_offset + 1))) st'
             else Some (False, st'))
      else Some (True, st))"
  by pat_completeness auto

termination
  by (relation "measure (\<lambda>(D, n, s, _). n - s)") auto

declare kde_loop.simps [simp del]

definition BSS0 :: nat where "BSS0 = 0"
definition MCAST_WCID :: nat where "MCAST_WCID = 0"

definition RTMPParseEapolKeyData ::
  "wpa_clock \<Rightarrow> bytes \<Rightarrow> nat \<Rightarrow> nat \<Rightarrow> nat \<Rightarrow> bool \<Rightarrow> wpa_adapter \<Rightarrow> (bool \<times> wpa_adapter) option" where
  "RTMPParseEapolKeyData clk pKeyData len GroupKeyIndex MsgType bWPA2 A =
     (let KeyDataLength = len mod 256 in
      if (MsgType = EAPOL_PAIR_MSG_2 \<or> MsgType = EAPOL_PAIR_MSG_3) \<and> \<not> (bWPA2 \<and> MsgType = EAPOL_PAIR_MSG_3)
      then Some (True, A)
      else
        (case (if bWPA2 \<and> (MsgType = EAPOL_PAIR_MSG_3 \<or> MsgType = EAPOL_GROUP_MSG_1)
               then kde_loop pKeyData KeyDataLength 0 (0, 0, replicate 32 0)
               else if \<not> bWPA2 \<and> MsgType = EAPOL_GROUP_MSG_1
               then map_option (\<lambda>g. (True, GroupKeyIndex, KeyDataLength, g))
                      (move_mem 0 KeyDataLength pKeyData (replicate 32 0))
               else Some (True, 0, 0, replicate 32 0)) of
           None \<Rightarrow> None
         | Some (ok, DefaultIdx, GTKLEN, gtk) \<Rightarrow>
             if \<not> ok \<or> DefaultIdx > 3 then Some (False, A)
             else if opmode A = OPMODE_STA then
               (case move_mem 0 GTKLEN gtk (sGTK (StaCfg A)) of
                  None \<Rightarrow> None
                | Some g \<Rightarrow>
                    map_option (Pair True)
                      (WPAInstallSharedKey clk (GroupCipher (StaCfg A)) BSS0 DefaultIdx MCAST_WCID False g GTKLEN
                        (A\<lparr>StaCfg := (StaCfg A)\<lparr>sGTK := g, sDefaultKeyId := DefaultIdx\<rparr>\<rparr>)))
             else Some (True, A)))"

section \<open>The frame\<close>

definition IW_REPLAY_COUNTER_DIFF_EVENT_FLAG :: nat where "IW_REPLAY_COUNTER_DIFF_EVENT_FLAG = 0x0205"
definition IW_MIC_DIFF_EVENT_FLAG :: nat where "IW_MIC_DIFF_EVENT_FLAG = 0x0207"

text \<open>The check of the replay counter: for the station's side, and for the access point's side.\<close>

definition replay_ok :: "nat \<Rightarrow> bytes \<Rightarrow> bytes \<Rightarrow> bool" where
  "replay_ok MsgType received current =
     (if MsgType = EAPOL_PAIR_MSG_1 \<or> MsgType = EAPOL_PAIR_MSG_3 \<or> MsgType = EAPOL_GROUP_MSG_1
      then RTMPCompareMemory received current 8 = 1 \<or> RTMPCompareMemory received (replicate 8 0) 8 = 0
      else received = current)"

text \<open>The frame with a zeroed code, which the code is computed over.\<close>

definition zero_KeyMic :: "bytes \<Rightarrow> bytes" where
  "zero_KeyMic b = take 81 b @ replicate 16 0 @ drop 97 b"

text \<open>The clear key data, in an area of 255 zeroed bytes, with its length.\<close>

definition clear_KeyData :: "bool \<Rightarrow> nat \<Rightarrow> bytes \<Rightarrow> eapol_packet \<Rightarrow> (bytes \<times> nat) option" where
  "clear_KeyData bWPA2 MsgType ptk p =
     (let n = CONV_ARRARY_TO_UINT16 (KeyDataLen p); area = replicate 255 0; ver = KeyDescVer (KeyInfo p) in
      if MsgType = EAPOL_PAIR_MSG_3 \<and> bWPA2 \<or> MsgType = EAPOL_GROUP_MSG_1 then
        if length ptk < 32 then None
        else if ver = KEY_DESC_EXT \<or> ver = KEY_DESC_AES
        then map_option (\<lambda>(r, d, m). (d, CONV_ARRARY_TO_UINT16 (SET_UINT16_TO_ARRARY m)))
               (AES_Key_Unwrap (KeyData p) n (take 16 (drop 16 ptk)) 16 area 0)
        else map_option (\<lambda>d. (d, n)) (TKIP_GTK_KEY_UNWRAP (take 16 (drop 16 ptk)) (KeyIv p) (KeyData p) n area)
      else map_option (\<lambda>d. (d, n)) (move_mem 0 n (KeyData p) area))"

definition PeerWpaMessageSanity ::
  "wpa_clock \<Rightarrow> bytes \<Rightarrow> nat \<Rightarrow> nat \<Rightarrow> wpa_adapter \<Rightarrow> (bool \<times> wpa_adapter) option" where
  "PeerWpaMessageSanity clk pMsg MsgType i A =
     (let e = Content A ! i; p = EAPOL_PACKET pMsg; bWPA2 = is_WPA2 (AuthMode e);
          event = (\<lambda>flag. put_out (RTMPSendWirelessEvent flag (Addr e) (apidx e)) A) in
      if i \<ge> length (Content A) \<or> length pMsg < 99 \<or> length (R_Counter e) \<noteq> 8 then None
      else if MsgType > EAPOL_GROUP_MSG_2 \<or> MsgType < EAPOL_PAIR_MSG_1 then Some (False, A)
      else if \<not> replay_ok MsgType (ReplayCounter p) (R_Counter e)
      then Some (False, event IW_REPLAY_COUNTER_DIFF_EVENT_FLAG)
      else
        (case (if MsgType = EAPOL_PAIR_MSG_1 then Some (KeyMic p)
               else eapol_mic (KeyDescVer (KeyInfo p)) (PTK e) (zero_KeyMic pMsg)
                      (CONV_ARRARY_TO_UINT16 (Body_Len p) + 4)) of
           None \<Rightarrow> None
         | Some mic \<Rightarrow>
             if mic \<noteq> KeyMic p then Some (False, event IW_MIC_DIFF_EVENT_FLAG)
             else if CONV_ARRARY_TO_UINT16 (KeyDataLen p) = 0 \<or>
                     \<not> (MsgType = EAPOL_PAIR_MSG_2 \<or> MsgType = EAPOL_PAIR_MSG_3 \<or> MsgType = EAPOL_GROUP_MSG_1)
             then Some (True, A)
             else
               (case clear_KeyData bWPA2 MsgType (PTK e) p of
                  None \<Rightarrow> None
                | Some (d, n) \<Rightarrow>
                    RTMPParseEapolKeyData clk d n
                      (if \<not> bWPA2 \<and> MsgType = EAPOL_GROUP_MSG_1 then unat (KeyIndex (KeyInfo p)) else 0)
                      MsgType bWPA2 A)))"

end
