(* ===== verification/Wpa_Frames.thy ===== *)
theory Wpa_Frames
  imports Wpa_Sanity
begin

text \<open>
  What \<open>ConstructEapolMsg\<close> builds, and that the checks of the peer read it back: the integrity code
  over the frame, the encryption of the key data, the elements in it, and the frame as a whole.
\<close>

section \<open>The integrity code\<close>

definition eapol_code :: "u8 \<Rightarrow> bytes \<Rightarrow> bytes \<Rightarrow> bytes" where
  "eapol_code ver kck m =
     (if ver = KEY_DESC_AES then take 16 (rfc2104_hmac fips_sha1 kck m)
      else if ver = KEY_DESC_TKIP then take 16 (rfc2104_hmac rfc_md5 kck m)
      else if ver = KEY_DESC_EXT then cmac (AES_enc_block kck 16) m
      else replicate 16 0)"

lemma eapol_mic_code:
  assumes "16 \<le> length ptk" and "n \<le> length buf" and "n < 4294967232"
  shows "eapol_mic ver ptk buf n = Some (eapol_code ver (take 16 ptk) (take n buf))"
proof -
  have k: "length (take 16 ptk) = 16" using assms(1) by simp
  have m: "length (take n buf) = n" using assms(2) by simp
  have sha: "RT_HMAC_SHA1 (take 16 ptk) (take n buf) 20 = Some (take 20 (rfc2104_hmac fips_sha1 (take 16 ptk) (take n buf)))"
    and md5: "RT_HMAC_MD5 (take 16 ptk) (take n buf) 16 = Some (take 16 (rfc2104_hmac rfc_md5 (take 16 ptk) (take n buf)))"
    using assms(3) by (intro RT_HMAC_SHA1_rfc2104 RT_HMAC_MD5_rfc2104; simp add: k m)+
  have "AES_CMAC (take n buf) n (take 16 ptk) 16 (replicate 16 0) 16
      = Some (cmac (AES_enc_block (take 16 ptk) 16) (take n buf), 16)"
    using AES_CMAC_eq [of "take 16 ptk" "replicate 16 0" 16 "take n buf"] assms(1,2) by (simp add: k m min_absorb2)
  with assms(1,2) show ?thesis
    by (auto simp: eapol_mic_def eapol_code_def sha md5 KEY_DESC_TKIP_def KEY_DESC_AES_def)
qed

lemma length_hmac_md5: "length (rfc2104_hmac rfc_md5 K m) = 16"
  by (simp add: rfc2104_hmac_def Let_def md5.digest_length)

lemma eapol_code_length [simp]: "length (eapol_code ver kck m) = 16"
  by (simp add: eapol_code_def length_hmac_md5 cmac_def Let_def)

section \<open>Buffers filled from the front\<close>

definition filled :: "nat \<Rightarrow> bytes \<Rightarrow> bytes" where
  "filled n d = d @ replicate (n - length d) 0"

lemma filled_length [simp]: "length d \<le> n \<Longrightarrow> length (filled n d) = n"
  by (simp add: filled_def)

lemma take_filled [simp]: "take (length d) (filled n d) = d"
  by (simp add: filled_def)

lemma filled_Nil: "filled n [] = replicate n 0"
  by (simp add: filled_def)

lemma filled_append: "filled n (d @ replicate k 0) = filled n d" if "length d + k \<le> n"
  using that by (simp add: filled_def replicate_add [symmetric])

lemma move_mem_filled:
  assumes "k \<le> length src" and "length d + k \<le> n"
  shows "move_mem (length d) k src (filled n d) = Some (filled n (d @ take k src))"
  using assms by (simp add: move_mem_def filled_def)

lemma move_mem_filled_at:
  assumes "k \<le> length src" and "length d + k \<le> n" and "off = length d"
  shows "move_mem off k src (filled n d) = Some (filled n (d @ take k src))"
  unfolding assms(3) by (rule move_mem_filled [OF assms(1,2)])

section \<open>The encryption of the key data\<close>

text \<open>Key wrap on larger buffers, as the callers use it.\<close>

lemma key_wrap_buffers:
  assumes key: "aes_key_length kl" "kl \<le> length K"
    and n: "n \<le> length P" "n + 8 < 4294967296" and obuf: "n + 8 \<le> length obuf"
  obtains c where "length c = n + 8" "AES_Key_Wrap P n K kl obuf len = Some (0, c @ drop (n + 8) obuf, n + 8)"
    "\<And>rest obuf2 len2. n \<le> length obuf2 \<Longrightarrow>
       AES_Key_Unwrap (c @ rest) (n + 8) K kl obuf2 len2 = Some (0, take n P @ drop n obuf2, n)"
proof -
  let ?pt = "take n P"
  have l: "length ?pt = n" using n(1) by simp
  have "length (replicate (n + 8) (0 :: u8)) = length ?pt + 8" using l by simp
  from AES_Key_Wrap_run [OF key this, of len] obtain IV R where ir: "length IV = 8" "length R = n"
    "feed (wrap_turn K kl (n div 8)) (Default_IV, ?pt) (wrap_turns (n div 8)) = Some (IV, R)"
    "feed (unwrap_turn K kl (n div 8)) (IV, R) (rev (wrap_turns (n div 8))) = Some (Default_IV, ?pt)"
    unfolding l by blast
  have kl: "\<not> (kl \<noteq> 16 \<and> kl \<noteq> 24 \<and> kl \<noteq> 32)" using key(1) by (auto simp: aes_key_length_def)
  have mv: "move_mem 0 n P (replicate n 0) = Some ?pt" using n(1) by (simp add: move_mem_def)
  show ?thesis
  proof (rule that [of "IV @ R"])
    show "length (IV @ R) = n + 8" using ir by simp
    show "AES_Key_Wrap P n K kl obuf len = Some (0, (IV @ R) @ drop (n + 8) obuf, n + 8)"
      using ir obuf by (simp add: AES_Key_Wrap_def Let_def if_not_P [OF kl] mv del: de_Morgan_conj) (simp add: move_mem_def add.commute)
    fix rest obuf2 :: bytes and len2 assume o2: "n \<le> length obuf2"
    have s: "sub32 (n + 8) 8 = n" using sub32_le [of 8 "n + 8"] n(2) by simp
    have "move_mem 0 8 ((IV @ R) @ rest) (replicate 8 0) = Some IV"
      "move_mem 0 n (drop 8 ((IV @ R) @ rest)) (replicate n 0) = Some R"
      "move_mem 0 n ?pt obuf2 = Some (take n P @ drop n obuf2)"
      using ir o2 n(1) by (simp_all add: move_mem_def)
    with ir(4) show "AES_Key_Unwrap ((IV @ R) @ rest) (n + 8) K kl obuf2 len2 = Some (0, take n P @ drop n obuf2, n)"
      by (simp add: AES_Key_Unwrap_def Let_def if_not_P [OF kl] s del: append_assoc de_Morgan_conj)
  qed
qed

text \<open>The key data as it is encrypted: padded to whole blocks for the key wrap.\<close>

definition padded :: "u8 \<Rightarrow> bytes \<Rightarrow> bytes" where
  "padded ver d =
     (if ver = KEY_DESC_AES \<and> length d mod 8 \<noteq> 0 then d @ 0xdd # replicate (7 - length d mod 8) 0 else d)"

lemma padded_length: "length (padded ver d) \<le> length d + 7" "ver = KEY_DESC_AES \<Longrightarrow> length (padded ver d) mod 8 = 0"
proof -
  have "length d mod 8 < 8" by simp
  then show "length (padded ver d) \<le> length d + 7" by (auto simp: padded_def)
  have "length d = 8 * (length d div 8) + length d mod 8" by simp
  moreover have "Suc (q * 8 + r + (7 - r)) mod 8 = 0" if "r < 8" for q r :: nat
  proof -
    from that have "Suc (q * 8 + r + (7 - r)) = (q + 1) * 8" by simp
    then show ?thesis by (simp only: mod_mult_self2_is_0)
  qed
  from this [OF \<open>length d mod 8 < 8\<close>, of "length d div 8"] have "Suc (length d + (7 - length d mod 8)) mod 8 = 0" by simp
  then show "ver = KEY_DESC_AES \<Longrightarrow> length (padded ver d) mod 8 = 0" by (simp add: padded_def)
qed

lemma pad_Key_Data:
  assumes "length d \<le> 240" and "length d mod 8 \<noteq> 0"
  shows "move_mem (length d) (8 - length d mod 8) (0xdd # replicate (7 - length d mod 8) 0) (filled 512 d)
    = Some (filled 512 (padded KEY_DESC_AES d))"
    and "length d + (8 - length d mod 8) = length (padded KEY_DESC_AES d)"
proof -
  have "length d mod 8 < 8" by simp
  then have "8 - length d mod 8 = Suc (7 - length d mod 8)" by linarith
  moreover have "length d + Suc (7 - length d mod 8) \<le> 512" using assms(1) by simp
  ultimately show "move_mem (length d) (8 - length d mod 8) (0xdd # replicate (7 - length d mod 8) 0) (filled 512 d)
    = Some (filled 512 (padded KEY_DESC_AES d))"
    using assms(2) by (simp add: move_mem_filled padded_def)
  show "length d + (8 - length d mod 8) = length (padded KEY_DESC_AES d)"
    using assms(2) \<open>8 - length d mod 8 = Suc (7 - length d mod 8)\<close> by (simp add: padded_def)
qed

definition encrypted_type :: "bool \<Rightarrow> nat \<Rightarrow> bool" where
  "encrypted_type bWPA2 MsgType \<longleftrightarrow> MsgType = EAPOL_PAIR_MSG_3 \<and> bWPA2 \<or> MsgType = EAPOL_GROUP_MSG_1"

lemma encrypt_Key_Data_clear:
  assumes ver: "ver = KEY_DESC_AES \<or> ver = KEY_DESC_TKIP" and ptk: "length ptk = 64" and iv: "length iv = 16"
    and d: "length d \<le> 240"
  obtains c r where "encrypt_Key_Data ver ptk iv (filled 512 d, length d) = Some (c @ r, length c)"
    and "length c \<le> length d + 15" and "length (c @ r) = 512" and "d \<noteq> [] \<Longrightarrow> c \<noteq> []"
    and "\<And>(p :: eapol_packet) rest bWPA2 MsgType. KeyData p = c @ rest \<Longrightarrow> KeyDataLen p = SET_UINT16_TO_ARRARY (length c) \<Longrightarrow> KeyIv p = iv \<Longrightarrow>
      KeyDescVer (KeyInfo p) = ver \<Longrightarrow> encrypted_type bWPA2 MsgType \<Longrightarrow>
      clear_KeyData bWPA2 MsgType ptk p = Some (filled 255 (padded ver d), length (padded ver d))"
proof (cases "ver = KEY_DESC_AES")
  case True
  let ?d = "padded KEY_DESC_AES d" and ?K = "take 16 (drop 16 ptk)"
  have l: "length ?d \<le> 247" using padded_length(1) [of KEY_DESC_AES d] d by simp
  then have tf: "take (length ?d) (filled 512 ?d) = ?d" by simp
  have pad: "(if length d mod 8 \<noteq> 0
       then map_option (\<lambda>b. (b, length d + (8 - length d mod 8)))
              (move_mem (length d) (8 - length d mod 8) (0xdd # replicate (8 - length d mod 8 - 1) 0) (filled 512 d))
       else Some (filled 512 d, length d)) = Some (filled 512 ?d, length ?d)"
  proof (cases "length d mod 8 = 0")
    case False
    then have "8 - length d mod 8 - 1 = 7 - length d mod 8" by simp
    with False pad_Key_Data [OF d False] show ?thesis by simp
  qed (simp add: padded_def)
  have "aes_key_length 16" "16 \<le> length ?K" using ptk by (simp_all add: aes_key_length_def)
  from key_wrap_buffers [OF this, of "length ?d" "filled 512 ?d" "replicate 512 0" 0] l obtain c where
    c: "length c = length ?d + 8"
    and wrap: "AES_Key_Wrap (filled 512 ?d) (length ?d) ?K 16 (replicate 512 0) 0
      = Some (0, c @ drop (length ?d + 8) (replicate 512 0), length ?d + 8)"
    and unwrap: "\<And>rest obuf2 len2. length ?d \<le> length obuf2 \<Longrightarrow>
       AES_Key_Unwrap (c @ rest) (length ?d + 8) ?K 16 obuf2 len2 = Some (0, ?d @ drop (length ?d) obuf2, length ?d)"
    unfolding tf by auto
  show ?thesis
  proof (rule that [of c "drop (length ?d + 8) (replicate 512 0)"])
    show "encrypt_Key_Data ver ptk iv (filled 512 d, length d)
        = Some (c @ drop (length ?d + 8) (replicate 512 0), length c)"
      unfolding encrypt_Key_Data_def prod.case Let_def pad option.case
      using True ptk wrap c by simp
    show "length c \<le> length d + 15" using c padded_length(1) [of KEY_DESC_AES d] by simp
    show "length (c @ drop (length ?d + 8) (replicate 512 0)) = 512" using c l by simp
    show "c \<noteq> []" using c by auto
    fix p :: eapol_packet and rest bWPA2 MsgType
    assume p: "KeyData p = c @ rest" "KeyDataLen p = SET_UINT16_TO_ARRARY (length c)" "KeyIv p = iv"
      "KeyDescVer (KeyInfo p) = ver" "encrypted_type bWPA2 MsgType"
    have n: "CONV_ARRARY_TO_UINT16 (KeyDataLen p) = length ?d + 8" "length ?d mod 65536 = length ?d"
      using l c by (simp_all add: p(2) CONV_SET)
    have "AES_Key_Unwrap (KeyData p) (length ?d + 8) ?K 16 (replicate 255 0) 0 = Some (0, filled 255 ?d, length ?d)"
      using unwrap [of "replicate 255 0" rest 0] l by (simp add: p(1) filled_def)
    then show "clear_KeyData bWPA2 MsgType ptk p = Some (filled 255 (padded ver d), length (padded ver d))"
      using p(4,5) True ptk n by (simp add: clear_KeyData_def Let_def CONV_SET encrypted_type_def)
  qed
next
  case False
  with ver have tk: "ver = KEY_DESC_TKIP" "padded ver d = d" by (auto simp: padded_def)
  let ?K = "take 16 (drop 16 ptk)"
  have k: "16 \<le> length ?K" "16 \<le> length iv" "length d \<le> length (filled 512 d)" "length d \<le> length (replicate 512 (0 :: u8))"
    "length d \<le> length (replicate 255 (0 :: u8))"
    using ptk iv d by simp_all
  from TKIP_GTK_round_trip [OF k] obtain c where
    wrap: "TKIP_GTK_KEY_WRAP ?K iv (filled 512 d) (length d) (replicate 512 0) = Some (c @ drop (length d) (replicate 512 0))"
    and c: "c = xor_bytes (take (length d) (filled 512 d))
      (drop 256 (rc4_stream (rc4_setup (take 16 iv @ take 16 ?K)) (256 + length d)))"
    by blast
  have lc: "length c = length d" unfolding c by (simp add: length_rc4_stream)
  have unwrap: "TKIP_GTK_KEY_UNWRAP ?K iv (c @ rest) (length d) (replicate 255 0) = Some (filled 255 d)" for rest
  proof -
    have "length d \<le> length (c @ rest)" using lc by simp
    from TKIP_GTK_KEY_WRAP_rc4 [OF k(1,2) this k(5)] 
    have "TKIP_GTK_KEY_UNWRAP ?K iv (c @ rest) (length d) (replicate 255 0)
      = Some (xor_bytes c (drop 256 (rc4_stream (rc4_setup (take 16 iv @ take 16 ?K)) (256 + length d)))
          @ drop (length d) (replicate 255 0))"
      unfolding TKIP_GTK_KEY_UNWRAP_def using lc by simp
    also have "xor_bytes c (drop 256 (rc4_stream (rc4_setup (take 16 iv @ take 16 ?K)) (256 + length d))) = d"
      unfolding c by (subst xor_bytes_cancel) (simp_all add: length_rc4_stream)
    finally show ?thesis by (simp add: filled_def)
  qed
  show ?thesis
  proof (rule that [of c "drop (length d) (replicate 512 0)"])
    show "encrypt_Key_Data ver ptk iv (filled 512 d, length d) = Some (c @ drop (length d) (replicate 512 0), length c)"
      using False ptk wrap lc by (simp add: encrypt_Key_Data_def)
    show "length c \<le> length d + 15" using lc by simp
    show "length (c @ drop (length d) (replicate 512 0)) = 512" using lc d by simp
    show "d \<noteq> [] \<Longrightarrow> c \<noteq> []" using lc by auto
    fix p :: eapol_packet and rest bWPA2 MsgType
    assume p: "KeyData p = c @ rest" "KeyDataLen p = SET_UINT16_TO_ARRARY (length c)" "KeyIv p = iv"
      "KeyDescVer (KeyInfo p) = ver" "encrypted_type bWPA2 MsgType"
    have "CONV_ARRARY_TO_UINT16 (KeyDataLen p) = length d" using d lc by (simp add: p(2) CONV_SET)
    moreover have "\<not> (KeyDescVer (KeyInfo p) = KEY_DESC_EXT \<or> KeyDescVer (KeyInfo p) = KEY_DESC_AES)"
      using p(4) tk(1) by (simp add: desc_versions)
    ultimately show "clear_KeyData bWPA2 MsgType ptk p = Some (filled 255 (padded ver d), length (padded ver d))"
      using p(1,3,5) ptk unwrap tk(2) by (simp add: clear_KeyData_def Let_def encrypted_type_def)
  qed
qed

section \<open>The elements of the key data\<close>

definition rsn_oui :: "bytes \<Rightarrow> bool" where
  "rsn_oui RSNIE \<longleftrightarrow> take 3 (drop 2 RSNIE) = [0x00, 0x0f, 0xac]"

definition rsn_element :: "bytes \<Rightarrow> u8 \<Rightarrow> bytes" where
  "rsn_element RSNIE n = [if rsn_oui RSNIE then 48 else 221, n] @ take (unat n) RSNIE"

lemma RTMPInsertRSNIE_element:
  assumes "n \<noteq> 0" and "5 \<le> length RSNIE" and "unat n \<le> length RSNIE"
  shows "RTMPInsertRSNIE (replicate 512 0) 0 RSNIE n [] 0 = Some (filled 512 (rsn_element RSNIE n), 2 + unat n)"
proof -
  have "unat n < 2 ^ LENGTH(8)" by (rule unsigned_less)
  then have l: "unat n < 256" by simp
  let ?e = "if rsn_oui RSNIE then 48 else 221 :: u8"
  have "move_mem 0 1 [?e] (filled 512 []) = Some (filled 512 [?e])"
    "move_mem 1 1 [n] (filled 512 [?e]) = Some (filled 512 [?e, n])"
    "move_mem 2 (unat n) RSNIE (filled 512 [?e, n]) = Some (filled 512 ([?e, n] @ take (unat n) RSNIE))"
    using assms(3) l by (subst move_mem_filled_at; simp)+
  then have out: "MakeOutgoingFrame (replicate 512 0) 0 [(1, [?e]), (1, [n]), (unat n, RSNIE)]
      = Some (filled 512 (rsn_element RSNIE n), 2 + unat n)"
    by (simp add: filled_Nil rsn_element_def numeral_2_eq_2)
  have "\<not> length RSNIE < 5" using assms(2) by simp
  then show ?thesis using assms(1) out unfolding RTMPInsertRSNIE_def Let_def rsn_oui_def [symmetric]
    by (cases "rsn_oui RSNIE") (simp_all del: MakeOutgoingFrame.simps)
qed

definition gtk_length :: "NDIS_802_11_WEP_STATUS \<Rightarrow> nat" where
  "gtk_length cipher = (if cipher = Ndis802_11Encryption3Enabled then 16 else 32)"

definition gtk_element :: "bool \<Rightarrow> NDIS_802_11_WEP_STATUS \<Rightarrow> u8 \<Rightarrow> bytes \<Rightarrow> bytes" where
  "gtk_element bWPA2 cipher idx gtk =
     (if bWPA2 then [0xdd, 6 + word_of_nat (gtk_length cipher), 0x00, 0x0f, 0xac, 0x01, idx AND 3, 0x00] else [])
     @ take (gtk_length cipher) gtk"

lemma gtk_length_le: "gtk_length cipher \<le> 32" "16 \<le> gtk_length cipher"
  by (simp_all add: gtk_length_def)

lemma gtk_element_length:
  "32 \<le> length gtk \<Longrightarrow> length (gtk_element bWPA2 cipher idx gtk) = (if bWPA2 then 8 else 0) + gtk_length cipher"
  using gtk_length_le(1) [of cipher] by (simp add: gtk_element_def)

lemma insert_GTK_element:
  assumes "32 \<le> length gtk" and "length d \<le> 400"
  shows "insert_GTK bWPA2 cipher idx gtk (filled 512 d, length d)
    = Some (filled 512 (d @ gtk_element bWPA2 cipher idx gtk), length (d @ gtk_element bWPA2 cipher idx gtk))"
proof -
  let ?n = "gtk_length cipher"
  have n: "?n \<le> length gtk" "?n \<le> 32" using gtk_length_le(1) [of cipher] assms(1) by simp_all
  have len: "(if cipher = Ndis802_11Encryption3Enabled then LEN_AES_GTK else LEN_TKIP_GTK) = ?n"
    by (simp add: gtk_length_def LEN_AES_GTK_def LEN_TKIP_GTK_def)
  show ?thesis
  proof (cases bWPA2)
    case True
    let ?h = "[0xdd, 4 + (2 + word_of_nat ?n), 0x00, 0x0f, 0xac, 0x01] :: bytes" and ?i = "[idx AND 3, 0x00]"
    have 1: "move_mem (length d) 6 ?h (filled 512 d) = Some (filled 512 (d @ ?h))"
      using assms(2) by (subst move_mem_filled) simp_all
    have 2: "move_mem (length d + 6) 2 ?i (filled 512 (d @ ?h)) = Some (filled 512 (d @ ?h @ ?i))"
      using assms(2) by (subst move_mem_filled_at) simp_all
    have 3: "move_mem (length d + 8) ?n gtk (filled 512 (d @ ?h @ ?i)) = Some (filled 512 (d @ ?h @ ?i @ take ?n gtk))"
      using assms(2) n by (subst move_mem_filled_at) simp_all
    have "d @ gtk_element bWPA2 cipher idx gtk = d @ ?h @ ?i @ take ?n gtk"
      using True by (simp add: gtk_element_def add.assoc [symmetric])
    moreover from this n have "length (d @ gtk_element bWPA2 cipher idx gtk) = length d + 8 + ?n" by simp
    ultimately show ?thesis
      unfolding insert_GTK_def len Let_def prod.case WPA_ConstructKdeHdr_def 1 2 3 option.case
      using True 2 3 by simp
  next
    case False
    have "move_mem (length d) ?n gtk (filled 512 d) = Some (filled 512 (d @ take ?n gtk))"
      using assms(2) n by (simp add: move_mem_filled)
    then show ?thesis unfolding insert_GTK_def len Let_def prod.case
      using False n by (simp add: gtk_element_def)
  qed
qed

section \<open>Reading the elements\<close>

lemma kde_zeros:
  assumes "L + 2 \<le> length D" and "\<And>j. s \<le> j \<Longrightarrow> j < length D \<Longrightarrow> D ! j = 0" and "s \<le> L"
  shows "kde_loop D L s st = Some (True, st)"
  using assms(2,3)
proof (induction "L - s" arbitrary: s rule: less_induct)
  case less
  have z: "D ! s = 0" "D ! (s + 1) = 0" using less.prems assms(1) by simp_all
  show ?case
  proof (cases "s + 2 \<le> L")
    case True
    have "kde_gtk D s st = Some (True, st)"
      using assms(1) less.prems(2) z by (cases st) (simp add: kde_gtk_def)
    moreover have "kde_loop D L (s + 2) st = Some (True, st)" using True less by simp
    ultimately show ?thesis using True assms(1) z by (subst kde_loop.simps) simp
  next
    case False
    then show ?thesis using assms(1) less.prems(2) z by (subst kde_loop.simps) simp
  qed
qed

lemma kde_skip:
  assumes "D = pre @ [eid, len] @ body @ suf" and "length pre = s" and "unat len = length body"
    and "s + 2 + length body \<le> L" and "eid \<noteq> 0xdd"
  shows "kde_loop D L s st = kde_loop D L (s + 2 + length body) st"
proof -
  have d: "D ! s = eid" "D ! (s + 1) = len" "s + 2 \<le> length D" using assms(1,2) by (simp_all add: nth_append)
  then have "kde_gtk D s st = Some (True, st)" using assms(5) by (cases st) (simp add: kde_gtk_def)
  then show ?thesis using d assms(3,4) by (subst kde_loop.simps) simp
qed

lemma kde_hit:
  assumes "D = pre @ [0xdd, len, 0x00, 0x0f, 0xac, 0x01, kid, x] @ g @ suf" and "length pre = s"
    and "unat len = 6 + length g" and "s + 8 + length g \<le> L" and "5 \<le> length g" and "length g \<le> 32" and "length g0 = 32"
  shows "kde_loop D L s (i, n, g0) = kde_loop D L (s + 8 + length g) (unat (kid AND 3), length g, g @ drop (length g) g0)"
proof -
  have d: "D ! s = 0xdd" "D ! (s + 1) = len" "D ! (s + 5) = 0x01" "D ! (s + 6) = kid" "s + 8 + length g \<le> length D"
    "take 3 (drop (s + 2) D) = [0x00, 0x0f, 0xac]" "drop (s + 8) D = g @ suf"
    using assms(1,2) by (simp_all add: nth_append)
  have "6 \<le> len" using assms(3) by (simp add: word_le_nat_alt)
  then have g: "unat (len - 6) = length g" using assms(3) by (simp add: unat_sub)
  have "move_mem 0 (length g) (g @ suf) g0 = Some (g @ drop (length g) g0)"
    using assms(6,7) by (simp add: move_mem_def)
  then have "kde_gtk D s (i, n, g0) = Some (True, unat (kid AND 3), length g, g @ drop (length g) g0)"
    using d assms(5) by (simp add: kde_gtk_def g Let_def)
  moreover have "s + 2 + unat (D ! (s + 1)) = s + 8 + length g" using assms(3) d by simp
  ultimately show ?thesis using d(5) assms(4) by (subst kde_loop.simps) (simp add: ac_simps)
qed

lemma filled_nth_beyond: "length d \<le> j \<Longrightarrow> j < n \<Longrightarrow> filled n d ! j = 0"
  by (simp add: filled_def nth_append)

lemma kde_pad:
  assumes "L = length pre + 1 + k" and "L \<le> 250" and "k \<le> 6"
  shows "kde_loop (filled 255 (pre @ 0xdd # replicate k 0)) L (length pre) st = Some (True, st)"
proof -
  let ?D = "filled 255 (pre @ 0xdd # replicate k 0)" and ?s = "length pre"
  have l: "length ?D = 255" using assms by simp
  have z: "?D ! j = 0" if "?s + 1 \<le> j" "j < 255" for j
  proof -
    have "?D = filled 255 (pre @ [0xdd])" using assms filled_append [of "pre @ [0xdd]" k 255] by simp
    with that show ?thesis by (simp add: filled_nth_beyond)
  qed
  have s: "?D ! ?s = 0xdd" by (simp add: filled_def nth_append)
  have "?D ! (?s + 3) = 0" using assms by (intro z) simp_all
  then have "take 3 (drop (?s + 2) ?D) ! 1 = 0" using assms(1,2) l by (simp add: numeral_3_eq_3)
  moreover have "[0x00, 0x0f, 0xac :: u8] ! 1 \<noteq> 0" by simp
  ultimately have oui: "take 3 (drop (?s + 2) ?D) \<noteq> [0x00, 0x0f, 0xac]" by (rule_tac notI) (simp only: simp_thms)
  have gtk: "kde_gtk ?D ?s st = Some (True, st)"
    using assms l s oui by (cases st) (simp add: kde_gtk_def)
  have "kde_loop ?D L (?s + 2) st = Some (True, st)" if "?s + 2 \<le> L"
    using assms l z that by (intro kde_zeros) simp_all
  with gtk assms l z show ?thesis by (subst kde_loop.simps) simp
qed

lemma kde_padded:
  assumes "length d \<le> 240"
  shows "kde_loop (filled 255 (padded ver d)) (length (padded ver d)) (length d) st = Some (True, st)"
proof (cases "ver = KEY_DESC_AES \<and> length d mod 8 \<noteq> 0")
  case True
  then have "padded ver d = d @ 0xdd # replicate (7 - length d mod 8) 0" by (simp add: padded_def)
  moreover have "7 - length d mod 8 \<le> 6" using True by linarith
  moreover have "length d mod 8 < 8" by simp
  ultimately show ?thesis using assms by (simp add: kde_pad)
next
  case False
  then have "padded ver d = d" by (auto simp: padded_def)
  then show ?thesis using assms kde_zeros [of "length d" "filled 255 d" "length d" st]
    by (simp add: filled_nth_beyond)
qed

lemma padded_prefix: "\<exists>r. filled 255 (padded ver d) = d @ r"
  by (auto simp: padded_def filled_def)

lemma gtk_bytes: "length (take (gtk_length cipher) gtk) = gtk_length cipher" if "32 \<le> length gtk"
  using that gtk_length_le(1) [of cipher] by simp

text \<open>The elements before the key are skipped, the key is found, and what follows it changes nothing.\<close>

lemma kde_finds_gtk:
  assumes "32 \<le> length gtk" and "length (pre @ gtk_element True cipher idx gtk) \<le> 240"
    and skip: "\<And>D suf L st. D = pre @ suf \<Longrightarrow> length pre \<le> L \<Longrightarrow> kde_loop D L 0 st = kde_loop D L (length pre) st"
  defines "d \<equiv> pre @ gtk_element True cipher idx gtk"
  shows "kde_loop (filled 255 (padded ver d)) (length (padded ver d)) 0 (0, 0, replicate 32 0)
    = Some (True, unat (idx AND 3), gtk_length cipher, filled 32 (take (gtk_length cipher) gtk))"
proof -
  let ?D = "filled 255 (padded ver d)" and ?L = "length (padded ver d)" and ?n = "gtk_length cipher"
  let ?g = "take ?n gtk"
  have g: "length ?g = ?n" using assms(1) by (rule gtk_bytes)
  obtain r where r: "?D = d @ r" using padded_prefix by blast
  have dl: "length d = length pre + 8 + ?n" unfolding d_def using assms(1) by (simp add: gtk_element_length)
  have "\<exists>x. padded ver d = d @ x" by (simp add: padded_def)
  then have dL: "length d \<le> ?L" by auto
  have n: "unat (6 + word_of_nat ?n :: u8) = 6 + ?n" by (simp add: gtk_length_def)
  have "kde_loop ?D ?L 0 (0, 0, replicate 32 0) = kde_loop ?D ?L (length pre) (0, 0, replicate 32 0)"
    using r dl dL by (intro skip [of _ "gtk_element True cipher idx gtk @ r"]) (simp_all add: d_def)
  also have "\<dots> = kde_loop ?D ?L (length pre + 8 + length ?g)
      (unat ((idx AND 3) AND 3), length ?g, ?g @ drop (length ?g) (replicate 32 0))"
    using dl dL r g n gtk_length_le [of cipher]
    by (intro kde_hit [of _ pre "6 + word_of_nat ?n" "idx AND 3" "0x00" ?g r]) (simp_all add: d_def gtk_element_def)
  also have "length pre + 8 + length ?g = length d" using dl g by simp
  also have "(idx AND 3) AND 3 = idx AND 3" by (simp add: and.assoc)
  also have "kde_loop ?D ?L (length d) (unat (idx AND 3), length ?g, ?g @ drop (length ?g) (replicate 32 0))
      = Some (True, unat (idx AND 3), length ?g, ?g @ drop (length ?g) (replicate 32 0))"
    using assms(2) by (intro kde_padded) (simp add: d_def)
  finally show ?thesis unfolding g filled_def by simp
qed

section \<open>A frame on the wire\<close>

text \<open>The bytes that are sent: those of the frame with key data \<open>c\<close>.\<close>

definition wire :: "bytes \<Rightarrow> eapol_packet \<Rightarrow> bytes" where
  "wire c g = EAPOL_bytes (g\<lparr>KeyData := c\<rparr>)"

definition carries :: "bytes \<Rightarrow> eapol_packet \<Rightarrow> bool" where
  "carries c g \<longleftrightarrow> eapol_ok g \<and> (\<exists>r. KeyData g = c @ r) \<and> length c \<le> 400 \<and> Body_Len g = SET_UINT16_TO_ARRARY (95 + length c)
     \<and> KeyDataLen g = SET_UINT16_TO_ARRARY (length c)"

lemma carries_numbers:
  assumes "carries c g"
  shows "CONV_ARRARY_TO_UINT16 (Body_Len g) = 95 + length c" "CONV_ARRARY_TO_UINT16 (KeyDataLen g) = length c"
  using assms by (simp_all add: carries_def CONV_SET)

lemma carries_mic: "carries c g \<Longrightarrow> length mic = 16 \<Longrightarrow> carries c (g\<lparr>KeyMic := mic\<rparr>)"
  by (simp add: carries_def eapol_ok_def)

lemma wire_length: "carries c g \<Longrightarrow> length (wire c g) = 99 + length c"
  unfolding wire_def by (subst EAPOL_bytes_length) (simp_all add: carries_def eapol_ok_def)

lemma take_EAPOL_bytes:
  assumes "carries c g"
  shows "take (99 + length c) (EAPOL_bytes g) = wire c g"
proof -
  obtain r where r: "KeyData g = c @ r" using assms by (auto simp: carries_def)
  then have "EAPOL_bytes g = wire c g @ r" by (simp add: wire_def EAPOL_bytes_def)
  then show ?thesis using wire_length [OF assms] by simp
qed

lemma EAPOL_bytes_room: "carries c g \<Longrightarrow> 99 + length c \<le> length (EAPOL_bytes g)"
  by (auto simp: carries_def EAPOL_bytes_length)

lemma received_packet: "carries c g \<Longrightarrow> EAPOL_PACKET (wire c g @ junk) = g\<lparr>KeyData := c @ junk\<rparr>"
  unfolding wire_def by (subst EAPOL_round_trip) (simp_all add: carries_def eapol_ok_def)

lemma zero_KeyMic_wire:
  assumes "carries c g" and "length mic = 16"
  shows "zero_KeyMic (wire c (g\<lparr>KeyMic := mic\<rparr>) @ junk) = wire c (g\<lparr>KeyMic := replicate 16 0\<rparr>) @ junk"
proof -
  let ?a = "[ProVer g, ProType g] @ Body_Len g @ [DescType g] @ KEY_INFO_bytes (KeyInfo g) @ KeyLength g
     @ ReplayCounter g @ KeyNonce g @ KeyIv g @ KeyRsc g @ KeyId g"
  have a: "length ?a = 81" using assms(1) by (simp add: carries_def eapol_ok_def)
  have w: "wire c (g\<lparr>KeyMic := m\<rparr>) = ?a @ m @ KeyDataLen g @ c" for m by (simp add: wire_def EAPOL_bytes_def)
  show ?thesis using assms(2) a unfolding w zero_KeyMic_def by (simp del: append_assoc add: append_assoc [symmetric])
qed

text \<open>The code that the sender puts in is the one that the receiver computes.\<close>

definition coded :: "u8 \<Rightarrow> bytes \<Rightarrow> bytes \<Rightarrow> eapol_packet \<Rightarrow> eapol_packet" where
  "coded ver ptk c g = g\<lparr>KeyMic := eapol_code ver (take 16 ptk) (wire c (g\<lparr>KeyMic := replicate 16 0\<rparr>))\<rparr>"

lemma CalculateMIC_coded:
  assumes g: "carries c g" and "KeyMic g = replicate 16 0" and "16 \<le> length ptk"
  shows "CalculateMIC ver ptk g = Some (coded ver ptk c g)"
proof -
  let ?n = "99 + length c"
  have n: "?n \<le> 512" "?n \<le> length (EAPOL_bytes g)"
    using g EAPOL_bytes_room [OF g] by (simp_all add: carries_def)
  have "move_mem 0 ?n (EAPOL_bytes g) (filled 512 []) = Some (filled 512 (wire c g))"
    using n move_mem_filled_at [of ?n "EAPOL_bytes g" "[]" 512 0] by (simp add: take_EAPOL_bytes [OF g])
  then have "MakeOutgoingFrame (replicate 512 0) 0 [(?n, EAPOL_bytes g)] = Some (filled 512 (wire c g), ?n)"
    by (simp add: filled_Nil)
  moreover have "95 + length c + 4 = ?n" by simp
  moreover have "take ?n (filled 512 (wire c g)) = wire c g"
    using take_filled [of "wire c g"] by (simp add: wire_length [OF g])
  moreover have "?n \<le> length (filled 512 (wire c g))" using n wire_length [OF g] by simp
  moreover have "g\<lparr>KeyMic := replicate 16 0\<rparr> = g" using assms(2) by (cases g) simp
  ultimately show ?thesis
    using n assms(3) by (simp add: CalculateMIC_def carries_numbers [OF g] eapol_mic_code coded_def)
qed

lemma coded_code:
  assumes "carries c g" and "16 \<le> length ptk"
  shows "eapol_mic ver ptk (zero_KeyMic (wire c (coded ver ptk c g) @ junk)) (99 + length c)
    = Some (KeyMic (coded ver ptk c g))"
proof -
  have l: "length (wire c (g\<lparr>KeyMic := replicate 16 0\<rparr>)) = 99 + length c"
    using assms(1) by (intro wire_length carries_mic) simp_all
  have "zero_KeyMic (wire c (coded ver ptk c g) @ junk) = wire c (g\<lparr>KeyMic := replicate 16 0\<rparr>) @ junk"
    unfolding coded_def by (rule zero_KeyMic_wire [OF assms(1) eapol_code_length])
  then show ?thesis using assms l by (simp add: eapol_mic_code coded_def carries_def)
qed

text \<open>What the checks do with a frame that has the right code and an acceptable counter.\<close>

lemma sanity_coded:
  fixes junk :: bytes
  assumes g: "carries c g" and i: "i < length (Content A)" and e: "e = Content A ! i"
    and "length (R_Counter e) = 8" and "16 \<le> length (PTK e)" and "ver = KeyDescVer (KeyInfo g)"
    and "replay_ok MsgType (ReplayCounter g) (R_Counter e)" and "MsgType \<le> 6" and "1 < MsgType"
  defines "b \<equiv> wire c (coded ver (PTK e) c g) @ junk"
  shows "PeerWpaMessageSanity clk b MsgType i A =
    (if c = [] \<or> \<not> (MsgType = 2 \<or> MsgType = 3 \<or> MsgType = 5) then Some (True, A)
     else (case clear_KeyData (is_WPA2 (AuthMode e)) MsgType (PTK e) ((coded ver (PTK e) c g)\<lparr>KeyData := c @ junk\<rparr>) of
             None \<Rightarrow> None
           | Some (d, n) \<Rightarrow> RTMPParseEapolKeyData clk d n
               (if \<not> is_WPA2 (AuthMode e) \<and> MsgType = 5 then unat (KeyIndex (KeyInfo g)) else 0)
               MsgType (is_WPA2 (AuthMode e)) A))"
proof -
  let ?f = "coded ver (PTK e) c g"
  have f: "carries c ?f" unfolding coded_def by (rule carries_mic [OF g eapol_code_length])
  have p: "EAPOL_PACKET b = ?f\<lparr>KeyData := c @ junk\<rparr>" unfolding b_def by (rule received_packet [OF f])
  have len: "\<not> (i \<ge> length (Content A) \<or> length b < 99 \<or> length (R_Counter e) \<noteq> 8)"
    using assms wire_length [OF f] by simp
  have flds: "KeyInfo ?f = KeyInfo g" "ReplayCounter ?f = ReplayCounter g" by (simp_all add: coded_def)
  have "CONV_ARRARY_TO_UINT16 (Body_Len ?f) + 4 = 99 + length c" using carries_numbers [OF f] by simp
  then have mic: "eapol_mic (KeyDescVer (KeyInfo g)) (PTK e) (zero_KeyMic b) (CONV_ARRARY_TO_UINT16 (Body_Len ?f) + 4)
      = Some (KeyMic ?f)"
    using coded_code [OF g assms(5), of ver junk] by (simp add: b_def assms(6))
  show ?thesis
    unfolding PeerWpaMessageSanity_def Let_def e [symmetric] p if_not_P [OF len]
    using assms(7-9) carries_numbers [OF f] mic flds by (simp add: msg_types split: option.split)
qed

end
