(* ===== verification/Wpa_Handlers.thy ===== *)
theory Wpa_Handlers
  imports Wpa_Sanity "HOL-Library.Monad_Syntax"
begin

text \<open>
  The state machine of the key handshakes, \<open>rt5572/common/cmm_wpa.c\<close>: the handlers of the four
  messages of the pairwise handshake and the two of the group handshake, their starts, and the
  dispatch on received frames. A handler
  works on the adapter and the index of the station's entry; an early return gives the adapter as it
  is then, and \<open>None\<close> is an access outside an array or through a null pointer. A received frame is the
  whole buffer \<open>Elem->Msg\<close> with \<open>Elem->MsgLen\<close>.
\<close>

section \<open>Constants\<close>

definition LENGTH_802_11 :: nat where "LENGTH_802_11 = 24"
definition LENGTH_802_1_H :: nat where "LENGTH_802_1_H = 8"
definition LENGTH_EAPOL_H :: nat where "LENGTH_EAPOL_H = 4"
definition MIN_LEN_OF_EAPOL_KEY_MSG :: nat where "MIN_LEN_OF_EAPOL_KEY_MSG = 95"

lemmas eapol_lengths = LENGTH_802_11_def LENGTH_802_1_H_def LENGTH_EAPOL_H_def MIN_LEN_OF_EAPOL_KEY_MSG_def

definition PEER_MSG1_RETRY_TIMER_CTR :: u8 where "PEER_MSG1_RETRY_TIMER_CTR = 0"
definition PEER_MSG3_RETRY_TIMER_CTR :: u8 where "PEER_MSG3_RETRY_TIMER_CTR = 10"
definition GROUP_MSG1_RETRY_TIMER_CTR :: u8 where "GROUP_MSG1_RETRY_TIMER_CTR = 20"
definition PEER_MSG1_RETRY_EXEC_INTV :: u32 where "PEER_MSG1_RETRY_EXEC_INTV = 1000"
definition PEER_MSG3_RETRY_EXEC_INTV :: u32 where "PEER_MSG3_RETRY_EXEC_INTV = 3000"

lemmas retry_constants = PEER_MSG1_RETRY_TIMER_CTR_def PEER_MSG3_RETRY_TIMER_CTR_def
  GROUP_MSG1_RETRY_TIMER_CTR_def PEER_MSG1_RETRY_EXEC_INTV_def PEER_MSG3_RETRY_EXEC_INTV_def

definition IW_SET_KEY_DONE_WPA1_EVENT_FLAG :: nat where "IW_SET_KEY_DONE_WPA1_EVENT_FLAG = 0x020D"
definition IW_SET_KEY_DONE_WPA2_EVENT_FLAG :: nat where "IW_SET_KEY_DONE_WPA2_EVENT_FLAG = 0x020E"

section \<open>Pieces that the handlers share\<close>

abbreviation Entry :: "wpa_adapter \<Rightarrow> nat \<Rightarrow> wpa_entry" where
  "Entry A i \<equiv> Content A ! i"

abbreviation is_client :: "wpa_adapter \<Rightarrow> nat \<Rightarrow> bool" where
  "is_client A i \<equiv> EntryType (Entry A i) = ENTRY_CLIENT"

text \<open>\<open>MAKE_802_3_HEADER\<close> and \<open>RTMPToWirelessSta\<close> of as many bytes as the frame says it has.\<close>

definition send_eapol :: "nat \<Rightarrow> bytes \<Rightarrow> eapol_packet \<Rightarrow> bool \<Rightarrow> wpa_adapter \<Rightarrow> wpa_adapter option" where
  "send_eapol i src pEapolFrame bClearFrame A =
     (let n = CONV_ARRARY_TO_UINT16 (Body_Len pEapolFrame) + 4; b = EAPOL_bytes pEapolFrame in
      if n > length b then None
      else if \<not> is_client A i then Some A
      else Some (put_out (RTMPToWirelessSta (Aid (Entry A i)) (Addr (Entry A i) @ take 6 src @ [0x88, 0x8e])
                   (take n b) bClearFrame) A))"

text \<open>A message in a fresh zeroed buffer, from the fields of the entry.\<close>

definition construct ::
  "wpa_entry \<Rightarrow> NDIS_802_11_WEP_STATUS \<Rightarrow> nat \<Rightarrow> nat \<Rightarrow> bytes \<Rightarrow> bytes \<Rightarrow> bytes \<Rightarrow> bytes \<Rightarrow> u8 \<Rightarrow> eapol_packet option" where
  "construct e cipher MsgType key_idx nonce rsc gtk rsnie rsnie_len =
     ConstructEapolMsg (AuthMode e) (WepStatus e) (R_Counter e) (PTK e) cipher MsgType (word_of_nat key_idx)
       nonce rsc gtk rsnie rsnie_len zero_eapol"

text \<open>The EAPOL frame in a received buffer.\<close>

definition eapol_of :: "bytes \<Rightarrow> bytes" where
  "eapol_of Msg = drop (LENGTH_802_11 + LENGTH_802_1_H) Msg"

definition too_short :: "nat \<Rightarrow> bool" where
  "too_short MsgLen \<longleftrightarrow> MsgLen < LENGTH_802_11 + LENGTH_802_1_H + LENGTH_EAPOL_H + MIN_LEN_OF_EAPOL_KEY_MSG"

section \<open>The pairwise handshake\<close>

text \<open>The element with the identifier of a cached master key, and the master key in the configuration.\<close>

definition add_pmkid :: "nat \<Rightarrow> eapol_packet \<Rightarrow> wpa_adapter \<Rightarrow> (eapol_packet \<times> wpa_adapter) option" where
  "add_pmkid i f A =
     (let e = Entry A i; m = MBSSID A ! apidx e; c = PMKID_CacheIdx e in
      if AuthMode e = Ndis802_11AuthModeWPA2 \<and> c \<noteq> 0xFF then
        if c \<ge> length (PMKIDCache m) then None
        else
          Some (f\<lparr>KeyData := [0xDD, 0x14, 0x00, 0x0F, 0xAC, 0x04] @ take 16 (iPMKID (PMKIDCache m ! c)) @ drop 22 (KeyData f),
                  KeyDataLen := INC_UINT16_TO_ARRARY (KeyDataLen f) 22, Body_Len := INC_UINT16_TO_ARRARY (Body_Len f) 22\<rparr>,
                upd_mbss (apidx e) (\<lambda>m. m\<lparr>PMK := iPMK (PMKIDCache m ! c)\<rparr>) A)
      else Some (f, A))"

definition WPAStart4WayHS :: "wpa_clock \<Rightarrow> nat \<Rightarrow> u32 \<Rightarrow> wpa_adapter \<Rightarrow> wpa_adapter option" where
  "WPAStart4WayHS clk i TimeInterval A =
     (let e = Entry A i in
      if closing A \<or> opmode A \<noteq> OPMODE_AP \<or> \<not> is_client A i \<or> apidx e \<ge> BssidNum A then Some A
      else if apidx e \<ge> length (MBSSID A) then None
      else if WpaState e > AS_PTKSTART \<or> WpaState e < AS_INITPMK then Some A
      else do {
        let m = MBSSID A ! apidx e;
        nonce \<leftarrow> GenRandom (system_time clk) (Bssid m);
        let A = upd_entry i (\<lambda>e. e\<lparr>R_Counter := ADD_ONE_To_64BIT_VAR (R_Counter e), ANonce := nonce\<rparr>) A;
        f \<leftarrow> construct (Entry A i) (GroupKeyWepStatus m) EAPOL_PAIR_MSG_1 0 nonce [] [] [] 0;
        (f, A) \<leftarrow> add_pmkid i f A;
        A \<leftarrow> send_eapol i (Bssid m) f (\<not> PortSecured (Entry A i)) A;
        Some (upd_entry i (\<lambda>e. e\<lparr>RetryTimer := RTMPModTimer (halted A) TimeInterval (RetryTimer e),
                                 WpaState := AS_PTKSTART\<rparr>) A)
      })"

definition WpaEAPOLStartAction :: "wpa_clock \<Rightarrow> bytes \<Rightarrow> nat \<Rightarrow> wpa_adapter \<Rightarrow> wpa_adapter option" where
  "WpaEAPOLStartAction clk Msg MsgLen A = do {
     pEntry \<leftarrow> MacTableLookup A (if MsgLen = 6 then take 6 Msg else take 6 (drop 10 Msg));
     (case pEntry of
        None \<Rightarrow> Some A
      | Some i \<Rightarrow>
          let e = Entry A i in
          if \<not> PortSecured e \<and> WpaState e < AS_PTKSTART \<and>
             (AuthMode e = Ndis802_11AuthModeWPAPSK \<or> AuthMode e = Ndis802_11AuthModeWPA2PSK \<or>
              AuthMode e = Ndis802_11AuthModeWPA2 \<and> PMKID_CacheIdx e \<noteq> 0xFF)
          then WPAStart4WayHS clk i PEER_MSG1_RETRY_EXEC_INTV
                 (upd_entry i (\<lambda>e. e\<lparr>PrivacyFilter := Ndis802_11PrivFilter8021xWEP, WpaState := AS_INITPSK,
                    PortSecured := False, R_Counter := replicate (length (R_Counter e)) 0,
                    ReTryCounter := PEER_MSG1_RETRY_TIMER_CTR\<rparr>) A)
          else Some A)
   }"

text \<open>Message 1, at the station.\<close>

definition PeerPairMsg1Action :: "wpa_clock \<Rightarrow> nat \<Rightarrow> bytes \<Rightarrow> nat \<Rightarrow> wpa_adapter \<Rightarrow> wpa_adapter option" where
  "PeerPairMsg1Action clk i Msg MsgLen A =
     (if \<not> is_client A i \<or> too_short MsgLen \<or> opmode A \<noteq> OPMODE_STA then Some A
      else do {
        let pMsg1 = EAPOL_PACKET (eapol_of Msg);
        (ok, A) \<leftarrow> PeerWpaMessageSanity clk (eapol_of Msg) EAPOL_PAIR_MSG_1 i A;
        if \<not> ok then Some A
        else do {
          let A = upd_entry i (\<lambda>e. e\<lparr>R_Counter := ReplayCounter pMsg1, ANonce := KeyNonce pMsg1\<rparr>) A;
          nonce \<leftarrow> GenRandom (system_time clk) (CurrentAddress A);
          let A = upd_entry i (\<lambda>e. e\<lparr>SNonce := nonce\<rparr>) A;
          let e = Entry A i;
          ptk \<leftarrow> WpaDerivePTK (sPMK (StaCfg A)) (ANonce e) (Addr e) (SNonce e) (CurrentAddress A) (replicate 80 0) 64;
          let A = upd_entry i (\<lambda>e. e\<lparr>PTK := take 64 ptk, WpaState := AS_PTKINIT_NEGOTIATING\<rparr>) A;
          f \<leftarrow> construct (Entry A i) (GroupCipher (StaCfg A)) EAPOL_PAIR_MSG_2 0 nonce [] []
                 (sRSN_IE (StaCfg A)) (sRSNIE_Len (StaCfg A));
          send_eapol i (CurrentAddress A) f True A
        }
      })"

text \<open>The element of the security parameters that an access point has advertised.\<close>

definition mbss_rsnie :: "wpa_entry \<Rightarrow> mbss \<Rightarrow> bytes \<times> u8" where
  "mbss_rsnie e m =
     (let n = (if AuthMode e = Ndis802_11AuthModeWPA \<or> AuthMode e = Ndis802_11AuthModeWPAPSK then 0
               else if mAuthMode m = Ndis802_11AuthModeWPA1PSKWPA2PSK \<or> mAuthMode m = Ndis802_11AuthModeWPA1WPA2 then 1
               else 0)
      in (RSN_IE m ! n, RSNIE_Len m ! n))"

text \<open>Message 2, at the access point; on a station the code has no master key.\<close>

definition PeerPairMsg2Action :: "wpa_clock \<Rightarrow> nat \<Rightarrow> bytes \<Rightarrow> nat \<Rightarrow> wpa_adapter \<Rightarrow> wpa_adapter option" where
  "PeerPairMsg2Action clk i Msg MsgLen A =
     (let pMsg2 = EAPOL_PACKET (eapol_of Msg); store = upd_entry i (\<lambda>e. e\<lparr>SNonce := KeyNonce pMsg2\<rparr>) in
      if \<not> is_client A i \<or> too_short MsgLen \<or> WpaState (Entry A i) < AS_PTKSTART then Some A
      else if opmode A \<noteq> OPMODE_AP then Some (store A)
      else if apidx (Entry A i) \<ge> BssidNum A then Some A
      else if apidx (Entry A i) \<ge> length (MBSSID A) then None
      else do {
        let m = MBSSID A ! apidx (Entry A i);
        TxTsc \<leftarrow> RTMPGetTxTscFromAsic A (apidx (Entry A i));
        let (rsnie, rsnie_len) = mbss_rsnie (Entry A i) m;
        let A = store A;
        let e = Entry A i;
        ptk \<leftarrow> WpaDerivePTK (PMK m) (ANonce e) (Bssid m) (SNonce e) (Addr e) (replicate 80 0) 64;
        let A = upd_entry i (\<lambda>e. e\<lparr>PTK := take 64 ptk\<rparr>) A;
        (ok, A) \<leftarrow> PeerWpaMessageSanity clk (eapol_of Msg) EAPOL_PAIR_MSG_2 i A;
        if \<not> ok then Some A
        else do {
          let A = upd_entry i (\<lambda>e. e\<lparr>RetryTimer := RTMPCancelTimer (RetryTimer e), WpaState := AS_PTKINIT_NEGOTIATING,
                     R_Counter := ADD_ONE_To_64BIT_VAR (R_Counter e)\<rparr>) A;
          let e = Entry A i;
          f \<leftarrow> construct e (GroupKeyWepStatus m) EAPOL_PAIR_MSG_3 (DefaultKeyId m) (ANonce e) TxTsc (GTK m) rsnie rsnie_len;
          A \<leftarrow> send_eapol i (Bssid m) f (\<not> PortSecured e) A;
          Some (upd_entry i (\<lambda>e. e\<lparr>ReTryCounter := PEER_MSG3_RETRY_TIMER_CTR,
                  RetryTimer := RTMPSetTimer (halted A) PEER_MSG3_RETRY_EXEC_INTV (RetryTimer e)\<rparr>) A)
        }
      })"

text \<open>\<open>STA_PORT_SECURED\<close>: the entry of the access point is the first one.\<close>

definition BSSID_WCID :: nat where "BSSID_WCID = 1"

definition STA_PORT_SECURED :: "wpa_adapter \<Rightarrow> wpa_adapter" where
  "STA_PORT_SECURED A =
     (let A = put_out RTMP_IndicateMediaState (A\<lparr>StaCfg := (StaCfg A)\<lparr>sPortSecured := True\<rparr>\<rparr>);
          A = upd_entry BSSID_WCID (\<lambda>e. e\<lparr>PortSecured := sPortSecured (StaCfg A), PrivacyFilter := Ndis802_11PrivFilterAcceptAll\<rparr>) A
      in A\<lparr>LinkDownTimer := RTMPCancelTimer (LinkDownTimer A)\<rparr>)"

definition open_port :: "nat \<Rightarrow> wpa_adapter \<Rightarrow> wpa_adapter" where
  "open_port i A = upd_entry i (\<lambda>e. e\<lparr>PortSecured := True, PrivacyFilter := Ndis802_11PrivFilterAcceptAll\<rparr>) A"

text \<open>Message 3, at the station.\<close>

definition PeerPairMsg3Action :: "wpa_clock \<Rightarrow> nat \<Rightarrow> bytes \<Rightarrow> nat \<Rightarrow> wpa_adapter \<Rightarrow> wpa_adapter option" where
  "PeerPairMsg3Action clk i Msg MsgLen A =
     (if \<not> is_client A i \<or> too_short MsgLen \<or> opmode A \<noteq> OPMODE_STA then Some A
      else do {
        let pMsg3 = EAPOL_PACKET (eapol_of Msg);
        (ok, A) \<leftarrow> PeerWpaMessageSanity clk (eapol_of Msg) EAPOL_PAIR_MSG_3 i A;
        if \<not> ok then Some A
        else do {
          let A = upd_entry i (\<lambda>e. e\<lparr>R_Counter := ReplayCounter pMsg3\<rparr>) A;
          if ANonce (Entry A i) \<noteq> KeyNonce pMsg3 then Some A
          else do {
            f \<leftarrow> construct (Entry A i) (GroupCipher (StaCfg A)) EAPOL_PAIR_MSG_4 0 [] [] [] [] 0;
            let A = upd_entry i (\<lambda>e. e\<lparr>WpaState := AS_PTKINITDONE\<rparr>) A;
            let A = A\<lparr>StaCfg := (StaCfg A)\<lparr>sPTK := PTK (Entry A i)\<rparr>\<rparr>;
            A \<leftarrow> WPAInstallPairwiseKey clk BSS0 i False A;
            let A = (if is_WPA2 (AuthMode (Entry A i)) then STA_PORT_SECURED (open_port i A) else A);
            send_eapol i (CurrentAddress A) f True A
          }
        }
      })"

section \<open>The group handshake\<close>

text \<open>On a station there is no group key to send: the code reads through null pointers.\<close>

definition WPAStart2WayGroupHS :: "nat \<Rightarrow> wpa_adapter \<Rightarrow> wpa_adapter option" where
  "WPAStart2WayGroupHS i A =
     (if \<not> is_client A i then Some A
      else if opmode A \<noteq> OPMODE_AP then None
      else if apidx (Entry A i) \<ge> BssidNum A then Some A
      else if apidx (Entry A i) \<ge> length (MBSSID A) then None
      else do {
        let m = MBSSID A ! apidx (Entry A i);
        TxTsc \<leftarrow> RTMPGetTxTscFromAsic A (apidx (Entry A i));
        let A = upd_entry i (\<lambda>e. e\<lparr>R_Counter := ADD_ONE_To_64BIT_VAR (R_Counter e)\<rparr>) A;
        f \<leftarrow> construct (Entry A i) (GroupKeyWepStatus m) EAPOL_GROUP_MSG_1 (DefaultKeyId m) (GNonce m) TxTsc (GTK m) [] 0;
        send_eapol i (Bssid m) f False A
      })"

text \<open>The identifier of the master key, which \<open>PeerPairMsg4Action\<close> caches.\<close>

definition PMK_Name :: bytes where
  "PMK_Name = [0x50, 0x4d, 0x4b, 0x20, 0x4e, 0x61, 0x6d, 0x65]"

definition cache_pmkid :: "wpa_clock \<Rightarrow> nat \<Rightarrow> wpa_adapter \<Rightarrow> wpa_adapter option" where
  "cache_pmkid clk i A =
     (let e = Entry A i; m = MBSSID A ! apidx e in
      if AuthMode e \<noteq> Ndis802_11AuthModeWPA2 then Some A
      else if apidx e \<ge> length (MBSSID A) then None
      else do {
        digest \<leftarrow> RT_HMAC_SHA1 (PMK m) (PMK_Name @ take 6 (Bssid m) @ take 6 (Addr e)) 20;
        Some (upd_mbss (apidx e)
          (\<lambda>m. m\<lparr>PMKIDCache := RTMPAddPMKIDCache (up_time clk) (Addr e) (take 16 digest) (PMK m) (PMKIDCache m)\<rparr>) A)
      })"

text \<open>Message 4 of the pairwise handshake, at the access point; the group handshake follows it in WPA.\<close>

definition PeerPairMsg4Action :: "wpa_clock \<Rightarrow> nat \<Rightarrow> bytes \<Rightarrow> nat \<Rightarrow> wpa_adapter \<Rightarrow> wpa_adapter option" where
  "PeerPairMsg4Action clk i Msg MsgLen A =
     (if \<not> is_client A i \<or> too_short MsgLen \<or> WpaState (Entry A i) < AS_PTKINIT_NEGOTIATING
         \<or> opmode A = OPMODE_AP \<and> apidx (Entry A i) \<ge> BssidNum A
      then Some A
      else do {
        (ok, A) \<leftarrow> PeerWpaMessageSanity clk (eapol_of Msg) EAPOL_PAIR_MSG_4 i A;
        if \<not> ok then Some A
        else do {
          A \<leftarrow> WPAInstallPairwiseKey clk (apidx (Entry A i)) i True A;
          let A = upd_entry i (\<lambda>e. e\<lparr>PrivacyFilter := Ndis802_11PrivFilterAcceptAll, WpaState := AS_PTKINITDONE,
                     PortSecured := True\<rparr>) A;
          if is_WPA2 (AuthMode (Entry A i)) then do {
            let A = upd_entry i (\<lambda>e. e\<lparr>GTKState := REKEY_ESTABLISHED, RetryTimer := RTMPCancelTimer (RetryTimer e)\<rparr>) A;
            A \<leftarrow> cache_pmkid clk i A;
            Some (put_out (RTMPSendWirelessEvent IW_SET_KEY_DONE_WPA2_EVENT_FLAG (Addr (Entry A i)) (apidx (Entry A i))) A)
          }
          else do {
            A \<leftarrow> WPAStart2WayGroupHS i A;
            Some (upd_entry i (\<lambda>e. e\<lparr>ReTryCounter := GROUP_MSG1_RETRY_TIMER_CTR,
                    RetryTimer := RTMPModTimer (halted A) PEER_MSG3_RETRY_EXEC_INTV (RetryTimer e)\<rparr>) A)
          }
        }
      })"

text \<open>
  Message 1 of the group handshake, at the station. The stop of a scan that would delay the answer
  is not modelled.
\<close>

definition PeerGroupMsg1Action :: "wpa_clock \<Rightarrow> nat \<Rightarrow> bytes \<Rightarrow> nat \<Rightarrow> wpa_adapter \<Rightarrow> wpa_adapter option" where
  "PeerGroupMsg1Action clk i Msg MsgLen A =
     (if \<not> is_client A i \<or> opmode A \<noteq> OPMODE_STA then Some A
      else do {
        let pGroup = EAPOL_PACKET (eapol_of Msg);
        let default_key = sDefaultKeyId (StaCfg A);
        (ok, A) \<leftarrow> PeerWpaMessageSanity clk (eapol_of Msg) EAPOL_GROUP_MSG_1 i A;
        if \<not> ok then Some A
        else do {
          let A = upd_entry i (\<lambda>e. e\<lparr>R_Counter := ReplayCounter pGroup\<rparr>) A;
          f \<leftarrow> construct (Entry A i) (GroupCipher (StaCfg A)) EAPOL_GROUP_MSG_2 default_key [] [] [] [] 0;
          send_eapol i (CurrentAddress A) f False (STA_PORT_SECURED (open_port i A))
        }
      })"

text \<open>Message 2 of the group handshake, at the access point: \<open>Msg\<close> begins behind the 802.11 header.\<close>

definition PeerGroupMsg2Action :: "wpa_clock \<Rightarrow> nat \<Rightarrow> bytes \<Rightarrow> nat \<Rightarrow> wpa_adapter \<Rightarrow> wpa_adapter option" where
  "PeerGroupMsg2Action clk i Msg MsgLen A =
     (if \<not> is_client A i \<or> MsgLen < LENGTH_802_1_H + LENGTH_EAPOL_H + MIN_LEN_OF_EAPOL_KEY_MSG
         \<or> WpaState (Entry A i) \<noteq> AS_PTKINITDONE \<or> opmode A = OPMODE_AP \<and> apidx (Entry A i) \<ge> BssidNum A
      then Some A
      else do {
        (ok, A) \<leftarrow> PeerWpaMessageSanity clk (drop LENGTH_802_1_H Msg) EAPOL_GROUP_MSG_2 i A;
        if \<not> ok then Some A
        else do {
          let A = upd_entry i (\<lambda>e. e\<lparr>RetryTimer := RTMPCancelTimer (RetryTimer e), GTKState := REKEY_ESTABLISHED\<rparr>) A;
          let e = Entry A i;
          Some (put_out (RTMPSendWirelessEvent
            (if is_WPA2 (AuthMode e) then IW_SET_KEY_DONE_WPA2_EVENT_FLAG else IW_SET_KEY_DONE_WPA1_EVENT_FLAG)
            (Addr e) (apidx e)) A)
        }
      })"

section \<open>Requests of a station\<close>

text \<open>A new group key for one network, and the group handshake with each of its stations.\<close>

definition new_group_key :: "wpa_clock \<Rightarrow> nat \<Rightarrow> wpa_adapter \<Rightarrow> wpa_adapter option" where
  "new_group_key clk n A =
     (if n \<ge> length (MBSSID A) then None
      else do {
        nonce \<leftarrow> GenRandom (system_time clk) (Bssid (MBSSID A ! n));
        gtk \<leftarrow> WpaDeriveGTK (GMK (MBSSID A ! n)) nonce (Bssid (MBSSID A ! n)) (GTK (MBSSID A ! n)) 32;
        Some (upd_mbss n (\<lambda>m. m\<lparr>GNonce := nonce, DefaultKeyId := (if DefaultKeyId m = 1 then 2 else 1), GTK := gtk\<rparr>) A)
      })"

definition has_keys :: "wpa_adapter \<Rightarrow> nat \<Rightarrow> nat \<Rightarrow> bool" where
  "has_keys A n j \<longleftrightarrow> is_client A j \<and> WpaState (Entry A j) = AS_PTKINITDONE \<and> apidx (Entry A j) = n"

definition rekey_station :: "nat \<Rightarrow> wpa_adapter \<Rightarrow> nat \<Rightarrow> wpa_adapter option" where
  "rekey_station n A j =
     (if j \<ge> length (Content A) then None
      else if has_keys A n j then do {
        A \<leftarrow> WPAStart2WayGroupHS j (upd_entry j (\<lambda>e. e\<lparr>GTKState := REKEY_NEGOTIATING\<rparr>) A);
        Some (upd_entry j (\<lambda>e. e\<lparr>ReTryCounter := GROUP_MSG1_RETRY_TIMER_CTR,
                RetryTimer := RTMPModTimer (halted A) PEER_MSG3_RETRY_EXEC_INTV (RetryTimer e)\<rparr>) A)
      }
      else Some A)"

definition install_group_key :: "wpa_clock \<Rightarrow> nat \<Rightarrow> wpa_adapter \<Rightarrow> wpa_adapter option" where
  "install_group_key clk n A =
     (let m = MBSSID A ! n in
      WPAInstallSharedKey clk (GroupKeyWepStatus m) n (DefaultKeyId m) (GET_GroupKey_WCID A n mod 256) True (GTK m) 32 A)"

definition group_key_request :: "wpa_clock \<Rightarrow> nat \<Rightarrow> wpa_adapter \<Rightarrow> wpa_adapter option" where
  "group_key_request clk i A = do {
     let n = apidx (Entry A i);
     A \<leftarrow> new_group_key clk n A;
     A \<leftarrow> feed (rekey_station n) A [0..<MAX_NUMBER_OF_MAC];
     install_group_key clk n A
   }"

definition pairwise_key_request :: "wpa_clock \<Rightarrow> nat \<Rightarrow> wpa_adapter \<Rightarrow> wpa_adapter option" where
  "pairwise_key_request clk i A =
     (let A = A\<lparr>asic_mem := AsicRemovePairwiseKeyEntry (Aid (Entry A i) mod 256) (asic_mem A)\<rparr> in
      WPAStart4WayHS clk i PEER_MSG1_RETRY_EXEC_INTV
        (upd_entry i (\<lambda>e. e\<lparr>PairwiseKey := zero_cipher_key, Sst := SST_ASSOC,
           WpaState := (if AuthMode e = Ndis802_11AuthModeWPA \<or> AuthMode e = Ndis802_11AuthModeWPA2 then AS_INITPMK
                        else if AuthMode e = Ndis802_11AuthModeWPAPSK \<or> AuthMode e = Ndis802_11AuthModeWPA2PSK
                        then AS_INITPSK else WpaState e),
           GTKState := REKEY_NEGOTIATING, PrivacyFilter := Ndis802_11PrivFilter8021xWEP,
           ReTryCounter := PEER_MSG1_RETRY_TIMER_CTR, PortSecured := False,
           R_Counter := replicate (length (R_Counter e)) 0\<rparr>) A))"

section \<open>The dispatch\<close>

text \<open>The checks of \<open>WpaEAPOLKeyAction\<close> before it looks at the kind of message.\<close>

definition eapol_key_ok :: "wpa_entry \<Rightarrow> eapol_packet \<Rightarrow> nat \<Rightarrow> bool" where
  "eapol_key_ok e p MsgLen \<longleftrightarrow>
     EntryType e = ENTRY_CLIENT \<and> AuthMode e \<ge> Ndis802_11AuthModeWPA \<and>
     CONV_ARRARY_TO_UINT16 (Body_Len p) + LENGTH_EAPOL_H \<le> sub32 MsgLen (LENGTH_802_11 + LENGTH_802_1_H) \<and>
     (ProVer p = 1 \<or> ProVer p = 2) \<and> (DescType p = 0xfe \<or> DescType p = 0x02) \<and>
     (WepStatus e = Ndis802_11Encryption2Enabled \<longrightarrow> KeyDescVer (KeyInfo p) = KEY_DESC_TKIP) \<and>
     (WepStatus e = Ndis802_11Encryption3Enabled \<longrightarrow>
        KeyDescVer (KeyInfo p) = KEY_DESC_AES \<or> KeyDescVer (KeyInfo p) = KEY_DESC_EXT) \<and>
     Sst e = SST_ASSOC \<and> WpaState e \<ge> AS_INITPSK"

definition WpaEAPOLKeyAction :: "wpa_clock \<Rightarrow> bytes \<Rightarrow> nat \<Rightarrow> wpa_adapter \<Rightarrow> wpa_adapter option" where
  "WpaEAPOLKeyAction clk Msg MsgLen A =
     (let p = EAPOL_PACKET (eapol_of Msg); k = KeyInfo p in
      if length (eapol_of Msg) < 99 then None
      else do {
        pEntry \<leftarrow> MacTableLookup A (take 6 (drop 10 Msg));
        (case pEntry of
           None \<Rightarrow> Some A
         | Some i \<Rightarrow>
             if \<not> eapol_key_ok (Entry A i) p MsgLen then Some A
             else if KeyAck k then
               if \<not> kSecure k \<and> \<not> kRequest k \<and> \<not> kError k \<and> kType k then
                 if \<not> kMic k then PeerPairMsg1Action clk i Msg MsgLen A else PeerPairMsg3Action clk i Msg MsgLen A
               else if kSecure k \<and> kMic k \<and> \<not> kRequest k \<and> \<not> kError k then
                 if kType k then PeerPairMsg3Action clk i Msg MsgLen A else PeerGroupMsg1Action clk i Msg MsgLen A
               else Some A
             else if kMic k \<and> kRequest k \<and> kError k then Some (put_out (Enqueue_COUNTER_MEASURE (Entry A i)) A)
             else if \<not> kRequest k \<and> \<not> kError k \<and> kMic k then
               if \<not> kSecure k \<and> kType k then
                 if CONV_ARRARY_TO_UINT16 (KeyDataLen p) = 0 then PeerPairMsg4Action clk i Msg MsgLen A
                 else PeerPairMsg2Action clk i Msg MsgLen A
               else if kSecure k \<and> kType k then PeerPairMsg4Action clk i Msg MsgLen A
               else if kSecure k \<and> \<not> kType k
               then PeerGroupMsg2Action clk i (drop LENGTH_802_11 Msg) (sub32 MsgLen LENGTH_802_11) A
               else Some A
             else if kRequest k \<and> \<not> kError k then
               if \<not> kType k then group_key_request clk i A else pairwise_key_request clk i A
             else Some A)
      })"

end
