(* ===== verification/Wpa_Messages.thy ===== *)
theory Wpa_Messages
  imports Wpa_Frames Wpa_Handlers
begin

text \<open>
  What \<open>construct\<close> makes of the fields of an entry, as a message on the wire; that the keys and random
  numbers of the handlers exist; and what the look-up of a station depends on.
\<close>

section \<open>The head of a frame\<close>

lemma zero_eapol_fields [simp]:
  "KeyInfo zero_eapol = KEY_INFO [0, 0]" "KeyLength zero_eapol = [0, 0]" "KeyDataLen zero_eapol = [0, 0]"
  "KeyNonce zero_eapol = replicate 32 0" "KeyIv zero_eapol = replicate 16 0" "KeyRsc zero_eapol = replicate 8 0"
  "KeyId zero_eapol = replicate 8 0" "KeyData zero_eapol = replicate 1401 0"
  by (simp_all add: zero_eapol_def EAPOL_PACKET_def TX_EAPOL_BUFFER_def numeral_2_eq_2)

lemma eapol_key_info_ok: "key_info_ok (eapol_key_info bWPA2 MsgType ver idx (KEY_INFO [0, 0]))"
  by (simp add: key_info_ok_def eapol_key_info_def KEY_INFO_def Let_def)

text \<open>The arguments that the code does not leave out.\<close>

definition head_args :: "bool \<Rightarrow> nat \<Rightarrow> bytes \<Rightarrow> bytes \<Rightarrow> bytes \<Rightarrow> bool" where
  "head_args bWPA2 MsgType rc nonce rsc \<longleftrightarrow>
     length rc = 8 \<and> (with_nonce bWPA2 MsgType \<longrightarrow> length nonce = 32) \<and> (with_rsc bWPA2 MsgType \<longrightarrow> length rsc = 6)"

abbreviation head :: "bool \<Rightarrow> NDIS_802_11_WEP_STATUS \<Rightarrow> bytes \<Rightarrow> NDIS_802_11_WEP_STATUS \<Rightarrow> nat \<Rightarrow> u8 \<Rightarrow> bytes \<Rightarrow> bytes
     \<Rightarrow> eapol_packet" where
  "head bWPA2 ws rc cipher MsgType idx nonce rsc \<equiv>
     eapol_head bWPA2 ws rc cipher MsgType idx nonce rsc zero_eapol"

lemma head_fields:
  fixes rc nonce rsc :: bytes and idx :: u8 and ws cipher :: NDIS_802_11_WEP_STATUS
  assumes "head_args bWPA2 MsgType rc nonce rsc"
  defines "h \<equiv> head bWPA2 ws rc cipher MsgType idx nonce rsc"
  shows "ProVer h = 1" "DescType h = (if bWPA2 then 0x02 else 0xfe)" "Body_Len h = SET_UINT16_TO_ARRARY 95"
    "KeyInfo h = eapol_key_info bWPA2 MsgType (desc_version ws cipher) idx (KEY_INFO [0, 0])"
    "ReplayCounter h = rc" "with_nonce bWPA2 MsgType \<Longrightarrow> KeyNonce h = nonce" "KeyMic h = replicate 16 0"
    "KeyDataLen h = SET_UINT16_TO_ARRARY 0" "KeyData h = replicate 1401 0" "length (KeyIv h) = 16"
  using assms(1)
  by (simp_all add: h_def head_args_def eapol_head_def Let_def SET_UINT16_TO_ARRARY_def with_nonce_def)

lemma with_nonce_group [simp]: "with_nonce False EAPOL_GROUP_MSG_1"
  by (simp add: with_nonce_def)

lemma head_ok:
  assumes "head_args bWPA2 MsgType rc nonce rsc"
  shows "eapol_ok (head bWPA2 ws rc cipher MsgType idx nonce rsc)"
  using assms
  by (auto simp: eapol_ok_def head_args_def eapol_head_def Let_def eapol_key_info_ok eapol_key_length_def split: if_splits)

section \<open>The key data\<close>

definition key_data :: "bool \<Rightarrow> nat \<Rightarrow> NDIS_802_11_WEP_STATUS \<Rightarrow> u8 \<Rightarrow> bytes \<Rightarrow> bytes \<Rightarrow> u8 \<Rightarrow> bytes" where
  "key_data bWPA2 MsgType cipher idx gtk rsnie n =
     (if n \<noteq> 0 \<and> (MsgType = EAPOL_PAIR_MSG_2 \<or> MsgType = EAPOL_PAIR_MSG_3) then rsn_element rsnie n else [])
     @ (if encrypted_type bWPA2 MsgType then gtk_element bWPA2 cipher idx gtk else [])"

definition data_args :: "bool \<Rightarrow> nat \<Rightarrow> bytes \<Rightarrow> bytes \<Rightarrow> bytes \<Rightarrow> u8 \<Rightarrow> bool" where
  "data_args bWPA2 MsgType ptk gtk rsnie n \<longleftrightarrow>
     length ptk = 64 \<and> (encrypted_type bWPA2 MsgType \<longrightarrow> 32 \<le> length gtk)
     \<and> (n \<noteq> 0 \<longrightarrow> 5 \<le> length rsnie \<and> unat n \<le> length rsnie \<and> unat n \<le> 190)"

lemma key_data_length: "data_args bWPA2 MsgType ptk gtk rsnie n \<Longrightarrow> length (key_data bWPA2 MsgType cipher idx gtk rsnie n) \<le> 240"
  using gtk_length_le(1) [of cipher] by (auto simp: data_args_def key_data_def gtk_element_length rsn_element_def)

lemma key_data_none:
  "MsgType = EAPOL_PAIR_MSG_1 \<or> MsgType = EAPOL_PAIR_MSG_4 \<or> MsgType = EAPOL_GROUP_MSG_2 \<Longrightarrow>
    key_data bWPA2 MsgType cipher idx gtk rsnie n = []"
  by (auto simp: key_data_def encrypted_type_def msg_types)

lemma conv_inc: "a + b < 65536 \<Longrightarrow> INC_UINT16_TO_ARRARY (SET_UINT16_TO_ARRARY a) b = SET_UINT16_TO_ARRARY (a + b)"
  by (simp add: INC_UINT16_TO_ARRARY_def CONV_SET)

text \<open>The key data goes into the frame, clear or encrypted.\<close>

lemma ConstructEapolKeyData_carries:
  fixes idx n :: u8 and cipher :: NDIS_802_11_WEP_STATUS and ptk gtk rsnie :: bytes
  assumes mt: "EAPOL_PAIR_MSG_1 \<le> MsgType" "MsgType \<le> EAPOL_GROUP_MSG_2"
    and data: "data_args (is_WPA2 am) MsgType ptk gtk rsnie n"
    and h: "eapol_ok h" "Body_Len h = SET_UINT16_TO_ARRARY 95" "KeyDataLen h = SET_UINT16_TO_ARRARY 0"
      "KeyData h = replicate 1401 0"
    and ver: "ver = KEY_DESC_AES \<or> ver = KEY_DESC_TKIP"
  defines "d \<equiv> key_data (is_WPA2 am) MsgType cipher idx gtk rsnie n"
  obtains c r where
    "ConstructEapolKeyData am ptk cipher ver MsgType idx gtk rsnie n h
      = Some (h\<lparr>KeyData := c @ r, KeyDataLen := SET_UINT16_TO_ARRARY (length c),
             Body_Len := SET_UINT16_TO_ARRARY (95 + length c)\<rparr>)"
    "length c \<le> 255" "d \<noteq> [] \<Longrightarrow> c \<noteq> []" "\<not> encrypted_type (is_WPA2 am) MsgType \<Longrightarrow> c = d"
    "\<And>(p :: eapol_packet) rest. encrypted_type (is_WPA2 am) MsgType \<Longrightarrow> KeyData p = c @ rest \<Longrightarrow>
       KeyDataLen p = SET_UINT16_TO_ARRARY (length c) \<Longrightarrow> KeyIv p = KeyIv h \<Longrightarrow> KeyDescVer (KeyInfo p) = ver \<Longrightarrow>
       clear_KeyData (is_WPA2 am) MsgType ptk p = Some (filled 255 (padded ver d), length (padded ver d))"
proof (cases "MsgType = EAPOL_PAIR_MSG_1 \<or> MsgType = EAPOL_PAIR_MSG_4 \<or> MsgType = EAPOL_GROUP_MSG_2")
  case True
  then have "d = []" "\<not> encrypted_type (is_WPA2 am) MsgType"
    by (auto simp: d_def key_data_none encrypted_type_def msg_types)
  moreover have "h\<lparr>KeyData := [] @ replicate 1401 0, KeyDataLen := SET_UINT16_TO_ARRARY (length ([] :: bytes)),
      Body_Len := SET_UINT16_TO_ARRARY (95 + length ([] :: bytes))\<rparr> = h"
    using h by (cases h) simp
  ultimately show ?thesis using True
    by (intro that [of "[]" "replicate 1401 0"]) (auto simp: ConstructEapolKeyData_def)
next
  case False
  have ie: "(if n \<noteq> 0 \<and> (MsgType = EAPOL_PAIR_MSG_2 \<or> MsgType = EAPOL_PAIR_MSG_3)
        then RTMPInsertRSNIE (replicate 512 0) 0 rsnie n [] 0 else Some (replicate 512 0, 0))
      = Some (filled 512 e, length e)"
    if "e = (if n \<noteq> 0 \<and> (MsgType = EAPOL_PAIR_MSG_2 \<or> MsgType = EAPOL_PAIR_MSG_3) then rsn_element rsnie n else [])" for e
    using data that by (simp add: data_args_def RTMPInsertRSNIE_element filled_Nil rsn_element_def)
  let ?e = "if n \<noteq> 0 \<and> (MsgType = EAPOL_PAIR_MSG_2 \<or> MsgType = EAPOL_PAIR_MSG_3) then rsn_element rsnie n else []"
  have enc: "(MsgType = EAPOL_PAIR_MSG_3 \<and> is_WPA2 am \<or> MsgType = EAPOL_GROUP_MSG_1) = encrypted_type (is_WPA2 am) MsgType"
    by (simp add: encrypted_type_def)
  have dl: "length d \<le> 240" unfolding d_def by (rule key_data_length [OF data])
  have len: "length ptk = 64" "length (KeyIv h) = 16" using data h(1) by (simp_all add: data_args_def eapol_ok_def)
  have room: "move_mem 0 (length c) (c @ r) (KeyData h) = Some (c @ drop (length c) (replicate 1401 0))"
    if "length c \<le> 255" for c r using that h(4) by (simp add: move_mem_def)
  show ?thesis
  proof (cases "encrypted_type (is_WPA2 am) MsgType")
    case False2: False
    then have d: "d = ?e" by (simp add: d_def key_data_def)
    have "length (filled 512 d) = 512" using dl by simp
    obtain r where r: "filled 512 d = d @ r" by (simp add: filled_def)
    show ?thesis
    proof (rule that [of d "drop (length d) (replicate 1401 0)"])
      show "ConstructEapolKeyData am ptk cipher ver MsgType idx gtk rsnie n h
          = Some (h\<lparr>KeyData := d @ drop (length d) (replicate 1401 0), KeyDataLen := SET_UINT16_TO_ARRARY (length d),
              Body_Len := SET_UINT16_TO_ARRARY (95 + length d)\<rparr>)"
        unfolding ConstructEapolKeyData_def Let_def enc ie [OF d]
        using False False2 dl room [of d r] by (simp add: h(2) conv_inc r)
    qed (use dl False2 in simp_all)
  next
    case True
    have "insert_GTK (is_WPA2 am) cipher idx gtk (filled 512 ?e, length ?e) = Some (filled 512 d, length d)"
      using insert_GTK_element [of gtk ?e "is_WPA2 am" cipher idx] True data dl
      by (simp add: d_def key_data_def data_args_def)
    moreover obtain c r where "encrypt_Key_Data ver ptk (KeyIv h) (filled 512 d, length d) = Some (c @ r, length c)"
      and c: "length c \<le> length d + 15" "d \<noteq> [] \<Longrightarrow> c \<noteq> []"
      and clear: "\<And>(p :: eapol_packet) rest bWPA2 MsgType. KeyData p = c @ rest \<Longrightarrow> KeyDataLen p = SET_UINT16_TO_ARRARY (length c) \<Longrightarrow> KeyIv p = KeyIv h \<Longrightarrow>
        KeyDescVer (KeyInfo p) = ver \<Longrightarrow> encrypted_type bWPA2 MsgType \<Longrightarrow>
        clear_KeyData bWPA2 MsgType ptk p = Some (filled 255 (padded ver d), length (padded ver d))"
      by (rule encrypt_Key_Data_clear [OF ver len dl]) blast
    ultimately have "ConstructEapolKeyData am ptk cipher ver MsgType idx gtk rsnie n h
        = Some (h\<lparr>KeyData := c @ drop (length c) (replicate 1401 0), KeyDataLen := SET_UINT16_TO_ARRARY (length c),
            Body_Len := SET_UINT16_TO_ARRARY (95 + length c)\<rparr>)"
      unfolding ConstructEapolKeyData_def Let_def enc ie [OF refl]
      using False True dl room [of c r] by (simp add: h(2) conv_inc)
    then show ?thesis using c dl clear True by (intro that) (simp_all, blast?)
  qed
qed

section \<open>Messages\<close>

text \<open>The head with its key data, and the message that is sent: with an integrity code from message 2 on.\<close>

definition with_data :: "bytes \<Rightarrow> bytes \<Rightarrow> eapol_packet \<Rightarrow> eapol_packet" where
  "with_data c r h = h\<lparr>KeyData := c @ r, KeyDataLen := SET_UINT16_TO_ARRARY (length c),
     Body_Len := SET_UINT16_TO_ARRARY (95 + length c)\<rparr>"

lemma with_data_fields [simp]:
  "KeyInfo (with_data c r h) = KeyInfo h" "ReplayCounter (with_data c r h) = ReplayCounter h"
  "KeyNonce (with_data c r h) = KeyNonce h" "KeyIv (with_data c r h) = KeyIv h" "KeyMic (with_data c r h) = KeyMic h"
  "ProVer (with_data c r h) = ProVer h" "DescType (with_data c r h) = DescType h"
  by (simp_all add: with_data_def)

lemma with_data_carries: "eapol_ok h \<Longrightarrow> length c \<le> 400 \<Longrightarrow> carries c (with_data c r h)"
  by (simp add: carries_def with_data_def eapol_ok_def)

lemma coded_fields [simp]:
  "KeyInfo (coded ver ptk c g) = KeyInfo g" "ReplayCounter (coded ver ptk c g) = ReplayCounter g"
  "KeyNonce (coded ver ptk c g) = KeyNonce g" "KeyIv (coded ver ptk c g) = KeyIv g"
  "KeyDataLen (coded ver ptk c g) = KeyDataLen g" "ProVer (coded ver ptk c g) = ProVer g"
  "DescType (coded ver ptk c g) = DescType g"
  by (simp_all add: coded_def)

lemma coded_carries: "carries c g \<Longrightarrow> carries c (coded ver ptk c g)"
  unfolding coded_def by (rule carries_mic) simp_all

definition message :: "nat \<Rightarrow> u8 \<Rightarrow> bytes \<Rightarrow> bytes \<Rightarrow> eapol_packet \<Rightarrow> eapol_packet" where
  "message MsgType ver ptk c g = (if MsgType = EAPOL_PAIR_MSG_1 then g else coded ver ptk c g)"

lemma construct_message:
  assumes mt: "EAPOL_PAIR_MSG_1 \<le> MsgType" "MsgType \<le> EAPOL_GROUP_MSG_2"
    and args: "head_args (is_WPA2 (AuthMode e)) MsgType (R_Counter e) nonce rsc"
    and data: "data_args (is_WPA2 (AuthMode e)) MsgType (PTK e) gtk rsnie n"
  fixes cipher k
  defines "h \<equiv> head (is_WPA2 (AuthMode e)) (WepStatus e) (R_Counter e) cipher MsgType (word_of_nat k) nonce rsc"
    and "ver \<equiv> desc_version (WepStatus e) cipher"
    and "d \<equiv> key_data (is_WPA2 (AuthMode e)) MsgType cipher (word_of_nat k) gtk rsnie n"
  obtains c r where
    "construct e cipher MsgType k nonce rsc gtk rsnie n = Some (message MsgType ver (PTK e) c (with_data c r h))"
    "carries c (with_data c r h)" "length c \<le> 255" "d \<noteq> [] \<Longrightarrow> c \<noteq> []"
    "\<not> encrypted_type (is_WPA2 (AuthMode e)) MsgType \<Longrightarrow> c = d"
    "\<And>(p :: eapol_packet) rest. encrypted_type (is_WPA2 (AuthMode e)) MsgType \<Longrightarrow> KeyData p = c @ rest \<Longrightarrow>
       KeyDataLen p = SET_UINT16_TO_ARRARY (length c) \<Longrightarrow> KeyIv p = KeyIv h \<Longrightarrow> KeyDescVer (KeyInfo p) = ver \<Longrightarrow>
       clear_KeyData (is_WPA2 (AuthMode e)) MsgType (PTK e) p = Some (filled 255 (padded ver d), length (padded ver d))"
proof -
  note f = head_fields [OF args]
  have ok: "eapol_ok h" unfolding h_def by (rule head_ok [OF args])
  have v: "ver = KEY_DESC_AES \<or> ver = KEY_DESC_TKIP" by (simp add: ver_def desc_version_def)
  obtain c r where kd: "ConstructEapolKeyData (AuthMode e) (PTK e) cipher ver MsgType (word_of_nat k) gtk rsnie n h
      = Some (with_data c r h)"
    and c: "length c \<le> 255" "d \<noteq> [] \<Longrightarrow> c \<noteq> []" "\<not> encrypted_type (is_WPA2 (AuthMode e)) MsgType \<Longrightarrow> c = d"
    and clear: "\<And>(p :: eapol_packet) rest. encrypted_type (is_WPA2 (AuthMode e)) MsgType \<Longrightarrow> KeyData p = c @ rest \<Longrightarrow>
       KeyDataLen p = SET_UINT16_TO_ARRARY (length c) \<Longrightarrow> KeyIv p = KeyIv h \<Longrightarrow> KeyDescVer (KeyInfo p) = ver \<Longrightarrow>
       clear_KeyData (is_WPA2 (AuthMode e)) MsgType (PTK e) p = Some (filled 255 (padded ver d), length (padded ver d))"
    unfolding d_def with_data_def h_def
    by (rule ConstructEapolKeyData_carries [OF mt data ok [unfolded h_def] f(3,8,9) v]) blast
  have car: "carries c (with_data c r h)" using c(1) by (intro with_data_carries [OF ok]) simp
  have "CalculateMIC ver (PTK e) (with_data c r h) = Some (coded ver (PTK e) c (with_data c r h))"
    using data f(7) by (intro CalculateMIC_coded [OF car]) (simp_all add: h_def data_args_def)
  moreover have "\<not> (length (R_Counter e) < 8 \<or> with_nonce (is_WPA2 (AuthMode e)) MsgType \<and> length nonce < 32 \<or>
      with_rsc (is_WPA2 (AuthMode e)) MsgType \<and> length rsc < 6)"
    using args by (auto simp: head_args_def)
  ultimately have "construct e cipher MsgType k nonce rsc gtk rsnie n
      = Some (message MsgType ver (PTK e) c (with_data c r h))"
    unfolding construct_def ConstructEapolMsg_def Let_def ver_def [symmetric] h_def [symmetric] kd
    by (simp add: message_def kd del: de_Morgan_disj not_less)
  then show ?thesis using car c clear by (rule that)
qed

lemma message_fields [simp]:
  "KeyInfo (message t ver ptk c g) = KeyInfo g" "ReplayCounter (message t ver ptk c g) = ReplayCounter g"
  "KeyNonce (message t ver ptk c g) = KeyNonce g" "KeyIv (message t ver ptk c g) = KeyIv g"
  "ProVer (message t ver ptk c g) = ProVer g" "DescType (message t ver ptk c g) = DescType g"
  by (simp_all add: message_def)

lemma message_carries: "carries c g \<Longrightarrow> carries c (message t ver ptk c g)"
  by (simp add: message_def coded_carries)

text \<open>What goes on the air is the header and the bytes of the message.\<close>

definition sent :: "wpa_entry \<Rightarrow> bytes \<Rightarrow> bytes \<Rightarrow> bool \<Rightarrow> wpa_output" where
  "sent e src b clear = RTMPToWirelessSta (Aid e) (Addr e @ take 6 src @ [0x88, 0x8e]) b clear"

lemma send_eapol_wire:
  assumes "carries c f" and "is_client A i"
  shows "send_eapol i src f clear A = Some (put_out (sent (Entry A i) src (wire c f) clear) A)"
  using assms EAPOL_bytes_room [OF assms(1)] take_EAPOL_bytes [OF assms(1)]
  by (simp add: send_eapol_def Let_def carries_numbers [OF assms(1)] sent_def add.commute)

section \<open>Keys and random numbers exist\<close>

lemma ptk_text_length: "length AN = 32 \<Longrightarrow> length SN = 32 \<Longrightarrow> length AA = 6 \<Longrightarrow> length SA = 6 \<Longrightarrow> length (ptk_text AN AA SN SA) = 76"
  by (simp add: ptk_text_def Let_def)

lemma WpaDerivePTK_total:
  assumes "length K = 32" and "length AA = 6" and "length SA = 6" and "length AN = 32" and "length SN = 32"
  obtains b where "WpaDerivePTK K AN AA SN SA (replicate 80 0) 64 = Some b" and "length b = 80"
proof -
  obtain b where "PRF K 32 Prefix_PTK 22 (ptk_text AN AA SN SA) 76 (replicate 80 0) 64 = Some b"
    and "length b = length (replicate 80 (0 :: u8))"
    using PRF_result [of Prefix_PTK 22 "ptk_text AN AA SN SA" 76 K 32 64 "replicate 80 0"] assms
    by (auto simp: Prefix_PTK_def ptk_text_length)
  then show ?thesis using assms that [of b] by (simp add: WpaDerivePTK_def)
qed

lemma random_turn_total:
  assumes "length r = 80" and "6 \<le> length a"
  shows "\<exists>r'. random_turn now a r i = Some r' \<and> length r' = 80"
proof -
  have "length (take 6 a @ store32 (now i) @ take 32 r @ take 2 (store32 (word_of_nat i))) = 44"
    using assms by simp
  then obtain r' where "random_turn now a r i = Some r'" "length r' = length r"
    using PRF_result [of Prefix_Random 12 "take 6 a @ store32 (now i) @ take 32 r @ take 2 (store32 (word_of_nat i))" 44
        "replicate 32 0" 32 32 r] assms(1)
    by (auto simp: random_turn_def Prefix_Random_def)
  then show ?thesis using assms(1) by simp
qed

lemma GenRandom_total:
  assumes "6 \<le> length a"
  obtains r where "GenRandom now a = Some r" and "length r = 32"
proof -
  have "\<exists>r. feed (random_turn now a) (replicate 80 0) [0..<32] = Some r \<and> length r = 80"
    by (rule feed_total) (simp_all add: random_turn_total assms)
  then obtain r where "feed (random_turn now a) (replicate 80 0) [0..<32] = Some r" "length r = 80" by blast
  then show ?thesis using assms that [of "take 32 r"] by (simp add: GenRandom_def)
qed

section \<open>Looking up a station\<close>

text \<open>What the look-up reads of the table.\<close>

definition lookup_keys :: "wpa_entry list \<Rightarrow> (ENTRY_TYPE \<times> bytes \<times> nat option) list" where
  "lookup_keys T = map (\<lambda>e. (EntryType e, Addr e, pNext e)) T"

lemma lookup_keys_nth:
  assumes "lookup_keys T' = lookup_keys T"
  shows "length T' = length T" "j < length T \<Longrightarrow> EntryType (T' ! j) = EntryType (T ! j)"
    "j < length T \<Longrightarrow> Addr (T' ! j) = Addr (T ! j)" "j < length T \<Longrightarrow> pNext (T' ! j) = pNext (T ! j)"
proof -
  show l: "length T' = length T" using arg_cong [OF assms, of length] by (simp add: lookup_keys_def)
  show "EntryType (T' ! j) = EntryType (T ! j)" "Addr (T' ! j) = Addr (T ! j)" "pNext (T' ! j) = pNext (T ! j)"
    if "j < length T"
    using arg_cong [OF assms, of "\<lambda>x. x ! j"] that l by (simp_all add: lookup_keys_def)
qed

lemma lookup_walk_cong:
  assumes "lookup_walk T a e = Some r" and "lookup_keys T' = lookup_keys T"
  shows "lookup_walk T' a e = Some r"
proof -
  have "\<forall>T'. lookup_keys T' = lookup_keys T \<longrightarrow> lookup_walk T' a e = Some r"
  proof (rule lookup_walk.raw_induct [OF _ assms(1)])
    fix walk T a e r
    assume IH: "\<And>T a e r. walk T a e = Some r \<Longrightarrow> \<forall>T'. lookup_keys T' = lookup_keys T \<longrightarrow> lookup_walk T' a e = Some r"
      and step: "(case e of None \<Rightarrow> Some None | Some i \<Rightarrow> if length T \<le> i then None
        else if EntryType (T ! i) = ENTRY_NONE then Some (Some i) else if Addr (T ! i) = a then Some (Some i)
        else walk T a (pNext (T ! i))) = Some r"
    show "\<forall>T'. lookup_keys T' = lookup_keys T \<longrightarrow> lookup_walk T' a e = Some r"
    proof (intro allI impI)
      fix T' assume k: "lookup_keys T' = lookup_keys T"
      show "lookup_walk T' a e = Some r"
        using step IH [of T a "pNext (T ! the e)" r] lookup_keys_nth(1) [OF k] lookup_keys_nth(2-4) [OF k, of "the e"] k
        by (subst lookup_walk.simps) (auto split: option.splits if_splits)
    qed
  qed
  with assms(2) show ?thesis by blast
qed

lemma MacTableLookup_cong:
  assumes "MacTableLookup A a = Some r" and "lookup_keys (Content B) = lookup_keys (Content A)" and "Hash B = Hash A"
  shows "MacTableLookup B a = Some r"
  using assms(1,3) lookup_walk_cong [OF _ assms(2)] by (simp add: MacTableLookup_def split: if_splits)

end
