(* ===== verification/Wpa_Handshake.thy ===== *)
theory Wpa_Handshake
  imports Wpa_Messages
begin

text \<open>
  The four messages of the pairwise handshake between the adapter of an access point and that of a
  station: what each handler does with the message of its peer, and the dispatch that calls it.
\<close>

section \<open>The two sides\<close>

text \<open>The arrays of an entry have their lengths.\<close>

definition entry_ok :: "wpa_entry \<Rightarrow> bool" where
  "entry_ok e \<longleftrightarrow> length (ANonce e) = 32 \<and> length (SNonce e) = 32 \<and> length (R_Counter e) = 8
     \<and> length (PTK e) = 64 \<and> length (Addr e) = 6"

text \<open>WPA2 with a pass phrase, TKIP or AES; TKIP for one station goes with TKIP for the group.\<close>

definition psk_modes :: "wpa_entry \<Rightarrow> NDIS_802_11_WEP_STATUS \<Rightarrow> bool" where
  "psk_modes e cipher \<longleftrightarrow> AuthMode e = Ndis802_11AuthModeWPA2PSK
     \<and> (WepStatus e = Ndis802_11Encryption2Enabled \<and> cipher = Ndis802_11Encryption2Enabled
        \<or> WepStatus e = Ndis802_11Encryption3Enabled
           \<and> (cipher = Ndis802_11Encryption2Enabled \<or> cipher = Ndis802_11Encryption3Enabled))"

lemma psk_modesD:
  assumes "psk_modes e cipher"
  shows "AuthMode e = Ndis802_11AuthModeWPA2PSK" "is_WPA2 (AuthMode e)"
    "WepStatus e = Ndis802_11Encryption2Enabled \<or> WepStatus e = Ndis802_11Encryption3Enabled"
    "desc_version (WepStatus e) cipher = (if WepStatus e = Ndis802_11Encryption2Enabled then KEY_DESC_TKIP else KEY_DESC_AES)"
  using assms by (auto simp: psk_modes_def is_WPA2_def desc_version_def)

definition rsn_ie_ok :: "bytes \<Rightarrow> u8 \<Rightarrow> bool" where
  "rsn_ie_ok ie n \<longleftrightarrow> 5 \<le> length ie \<and> unat n \<le> length ie \<and> unat n \<le> 190 \<and> rsn_oui ie"

section \<open>The dispatch\<close>

text \<open>A frame as it is received: 32 bytes of headers, with the sender's address, the frame, and what follows.\<close>

definition received :: "bytes \<Rightarrow> bytes \<Rightarrow> bytes \<Rightarrow> nat \<Rightarrow> bool" where
  "received a b Msg MsgLen \<longleftrightarrow> 32 + length b \<le> MsgLen \<and> MsgLen < 4294967296 \<and> take 6 (drop 10 Msg) = a
     \<and> (\<exists>h j. Msg = h @ b @ j \<and> length h = 32)"

lemma received_eapol:
  assumes "received a b Msg MsgLen"
  obtains j where "eapol_of Msg = b @ j"
  using assms by (auto simp: received_def eapol_of_def eapol_lengths)

lemma received_long: "received a (wire c f) Msg MsgLen \<Longrightarrow> carries c f \<Longrightarrow> \<not> too_short MsgLen"
  by (simp add: received_def too_short_def eapol_lengths wire_length)

text \<open>A message of the pairwise handshake in WPA2 reaches its handler.\<close>

lemma key_action_dispatch:
  assumes look: "MacTableLookup X a = Some (Some i)"
    and e: "e = Entry X i" "EntryType e = ENTRY_CLIENT" "Sst e = SST_ASSOC" "WpaState e \<ge> AS_INITPSK" "psk_modes e cipher"
    and f: "carries c f" "ProVer f = 1" "DescType f = 2"
      "KeyInfo f = eapol_key_info True t (desc_version (WepStatus e) cipher) idx (KEY_INFO [0, 0])"
    and rcv: "received a (wire c f) Msg MsgLen"
  shows "t = EAPOL_PAIR_MSG_1 \<Longrightarrow> WpaEAPOLKeyAction clk Msg MsgLen X = PeerPairMsg1Action clk i Msg MsgLen X"
    and "t = EAPOL_PAIR_MSG_2 \<Longrightarrow> c \<noteq> [] \<Longrightarrow> WpaEAPOLKeyAction clk Msg MsgLen X = PeerPairMsg2Action clk i Msg MsgLen X"
    and "t = EAPOL_PAIR_MSG_3 \<Longrightarrow> WpaEAPOLKeyAction clk Msg MsgLen X = PeerPairMsg3Action clk i Msg MsgLen X"
    and "t = EAPOL_PAIR_MSG_4 \<Longrightarrow> WpaEAPOLKeyAction clk Msg MsgLen X = PeerPairMsg4Action clk i Msg MsgLen X"
proof -
  obtain j where j: "eapol_of Msg = wire c f @ j" by (rule received_eapol [OF rcv])
  have p: "EAPOL_PACKET (eapol_of Msg) = f\<lparr>KeyData := c @ j\<rparr>" unfolding j by (rule received_packet [OF f(1)])
  have n: "99 \<le> length (eapol_of Msg)" by (simp add: j wire_length [OF f(1)])
  have len: "99 + length c \<le> sub32 MsgLen 32"
    using rcv sub32_le [of 32 MsgLen] by (auto simp: received_def wire_length [OF f(1)])
  have ver: "KeyDescVer (KeyInfo f) = desc_version (WepStatus e) cipher"
    using psk_modesD(4) [OF e(5)] by (simp add: f(4) eapol_key_info_def Let_def desc_versions)
  have ok: "eapol_key_ok (Entry X i) (f\<lparr>KeyData := c @ j\<rparr>) MsgLen"
    unfolding eapol_key_ok_def e(1) [symmetric]
    using e f(2,3) len carries_numbers(1) [OF f(1)] ver psk_modesD [OF e(5)]
    by (auto simp: eapol_lengths auth_mode_order)
  have a: "take 6 (drop 10 Msg) = a" using rcv by (simp add: received_def)
  have k: "KeyAck (KeyInfo f) = (t = EAPOL_PAIR_MSG_1 \<or> t = EAPOL_PAIR_MSG_3 \<or> t = EAPOL_GROUP_MSG_1)"
    "kMic (KeyInfo f) = (t \<noteq> EAPOL_PAIR_MSG_1)" "kSecure (KeyInfo f) = (t \<ge> EAPOL_PAIR_MSG_3)"
    "kType (KeyInfo f) = (t < EAPOL_GROUP_MSG_1)" "\<not> kError (KeyInfo f)" "\<not> kRequest (KeyInfo f)"
    by (simp_all add: f(4) eapol_key_info_def KEY_INFO_def Let_def msg_types not_le)
  note defs = WpaEAPOLKeyAction_def Let_def a look p
  show "t = EAPOL_PAIR_MSG_1 \<Longrightarrow> WpaEAPOLKeyAction clk Msg MsgLen X = PeerPairMsg1Action clk i Msg MsgLen X"
    using n ok k by (simp add: defs msg_types)
  show "t = EAPOL_PAIR_MSG_2 \<Longrightarrow> c \<noteq> [] \<Longrightarrow> WpaEAPOLKeyAction clk Msg MsgLen X = PeerPairMsg2Action clk i Msg MsgLen X"
    using n ok k carries_numbers(2) [OF f(1)] by (simp add: defs msg_types)
  show "t = EAPOL_PAIR_MSG_3 \<Longrightarrow> WpaEAPOLKeyAction clk Msg MsgLen X = PeerPairMsg3Action clk i Msg MsgLen X"
    using n ok k by (simp add: defs msg_types)
  show "t = EAPOL_PAIR_MSG_4 \<Longrightarrow> WpaEAPOLKeyAction clk Msg MsgLen X = PeerPairMsg4Action clk i Msg MsgLen X"
    using n ok k by (simp add: defs msg_types)
qed

section \<open>Messages of the pairwise handshake\<close>

text \<open>Message \<open>t\<close> that is built from the entry \<open>e\<close>, with key data \<open>c\<close>.\<close>

definition hs_message :: "nat \<Rightarrow> wpa_entry \<Rightarrow> NDIS_802_11_WEP_STATUS \<Rightarrow> u8 \<Rightarrow> bytes \<Rightarrow> eapol_packet \<Rightarrow> bool" where
  "hs_message t e cipher idx c f \<longleftrightarrow>
     carries c f \<and> ProVer f = 1 \<and> DescType f = 2 \<and> ReplayCounter f = R_Counter e
     \<and> KeyInfo f = eapol_key_info True t (desc_version (WepStatus e) cipher) idx (KEY_INFO [0, 0])
     \<and> (t \<noteq> EAPOL_PAIR_MSG_1 \<longrightarrow> (\<exists>g. carries c g \<and> f = coded (desc_version (WepStatus e) cipher) (PTK e) c g))"

text \<open>The receiver of message 3 finds the data \<open>d\<close> in it, padded and with zeros behind them.\<close>

definition clears :: "u8 \<Rightarrow> bytes \<Rightarrow> bytes \<Rightarrow> eapol_packet \<Rightarrow> bytes \<Rightarrow> bool" where
  "clears ver ptk c f d \<longleftrightarrow>
     (\<forall>(p :: eapol_packet) rest. KeyData p = c @ rest \<longrightarrow> KeyDataLen p = KeyDataLen f \<longrightarrow> KeyIv p = KeyIv f \<longrightarrow>
        KeyDescVer (KeyInfo p) = ver \<longrightarrow>
        clear_KeyData True EAPOL_PAIR_MSG_3 ptk p = Some (filled 255 (padded ver d), length (padded ver d)))"

lemma psk_message:
  assumes e: "psk_modes e cipher" "entry_ok e"
    and t: "EAPOL_PAIR_MSG_1 \<le> t" "t \<le> EAPOL_PAIR_MSG_4"
    and args: "t \<le> EAPOL_PAIR_MSG_3 \<Longrightarrow> length nonce = 32" "t = EAPOL_PAIR_MSG_3 \<Longrightarrow> length rsc = 6 \<and> length gtk = 32"
      "n \<noteq> 0 \<Longrightarrow> rsn_ie_ok rsnie n"
  fixes k
  defines "d \<equiv> key_data True t cipher (word_of_nat k) gtk rsnie n"
  obtains c f where "construct e cipher t k nonce rsc gtk rsnie n = Some f"
    "hs_message t e cipher (word_of_nat k) c f" "t \<le> EAPOL_PAIR_MSG_3 \<Longrightarrow> KeyNonce f = nonce"
    "length c \<le> 255" "d \<noteq> [] \<Longrightarrow> c \<noteq> []" "t \<noteq> EAPOL_PAIR_MSG_3 \<Longrightarrow> c = d"
    "t = EAPOL_PAIR_MSG_3 \<Longrightarrow> clears (desc_version (WepStatus e) cipher) (PTK e) c f d"
proof -
  let ?ver = "desc_version (WepStatus e) cipher"
  have w: "is_WPA2 (AuthMode e)" by (rule psk_modesD(2) [OF e(1)])
  have t6: "t \<le> EAPOL_GROUP_MSG_2" using t(2) by (simp add: msg_types)
  have ha: "head_args True t (R_Counter e) nonce rsc"
    using args e(2) t by (auto simp: head_args_def with_nonce_def with_rsc_def entry_ok_def msg_types)
  have da: "data_args True t (PTK e) gtk rsnie n"
    using args e(2) t by (auto simp: data_args_def encrypted_type_def entry_ok_def rsn_ie_ok_def msg_types)
  let ?h = "head True (WepStatus e) (R_Counter e) cipher t (word_of_nat k) nonce rsc"
  note hf = head_fields [OF ha, of "WepStatus e" cipher "word_of_nat k"]
  obtain c r where c: "construct e cipher t k nonce rsc gtk rsnie n = Some (message t ?ver (PTK e) c (with_data c r ?h))"
    "carries c (with_data c r ?h)" "length c \<le> 255" "d \<noteq> [] \<Longrightarrow> c \<noteq> []" "\<not> encrypted_type True t \<Longrightarrow> c = d"
    "\<And>(p :: eapol_packet) rest. encrypted_type True t \<Longrightarrow> KeyData p = c @ rest \<Longrightarrow>
       KeyDataLen p = SET_UINT16_TO_ARRARY (length c) \<Longrightarrow> KeyIv p = KeyIv ?h \<Longrightarrow> KeyDescVer (KeyInfo p) = ?ver \<Longrightarrow>
       clear_KeyData True t (PTK e) p = Some (filled 255 (padded ?ver d), length (padded ?ver d))"
    by (rule construct_message [OF t(1) t6, of e nonce rsc gtk rsnie n cipher k]) (use ha da w in \<open>simp_all add: d_def\<close>)
  let ?f = "message t ?ver (PTK e) c (with_data c r ?h)"
  have f: "carries c ?f" by (rule message_carries [OF c(2)])
  then have kdl: "KeyDataLen ?f = SET_UINT16_TO_ARRARY (length c)" by (simp add: carries_def)
  have enc: "encrypted_type True t = (t = EAPOL_PAIR_MSG_3)" using t by (auto simp: encrypted_type_def msg_types)
  have "hs_message t e cipher (word_of_nat k) c ?f"
    using f c(2) hf(1,2,4,5) by (auto simp: hs_message_def message_def)
  moreover have "t \<le> EAPOL_PAIR_MSG_3 \<Longrightarrow> KeyNonce ?f = nonce" using hf(6) by (simp add: with_nonce_def)
  moreover have "t = EAPOL_PAIR_MSG_3 \<Longrightarrow> clears ?ver (PTK e) c ?f d" using c(6) kdl enc by (simp add: clears_def)
  ultimately show ?thesis using c enc by (intro that [of ?f c]) simp_all
qed

lemma hs_messageD:
  assumes "hs_message t e cipher idx c f"
  shows "carries c f" "ProVer f = 1" "DescType f = 2" "ReplayCounter f = R_Counter e"
    "KeyInfo f = eapol_key_info True t (desc_version (WepStatus e) cipher) idx (KEY_INFO [0, 0])"
  using assms by (simp_all add: hs_message_def)

lemma hs_message_version:
  assumes "hs_message t e cipher idx c f"
  shows "KeyDescVer (KeyInfo f) = desc_version (WepStatus e) cipher"
  by (simp add: hs_messageD(5) [OF assms] eapol_key_info_def Let_def desc_version_def desc_versions)

section \<open>Message 1\<close>

text \<open>The access point: its network, and the entry of the station.\<close>

definition ap_side :: "wpa_adapter \<Rightarrow> nat \<Rightarrow> bool" where
  "ap_side A i \<longleftrightarrow> (let e = Entry A i; m = MBSSID A ! apidx e in
     opmode A = OPMODE_AP \<and> \<not> closing A \<and> i < length (Content A) \<and> is_client A i \<and> entry_ok e \<and> Sst e = SST_ASSOC
     \<and> apidx e < BssidNum A \<and> apidx e < length (MBSSID A) \<and> apidx e < BcnMaxNum A \<and> psk_modes e (GroupKeyWepStatus m)
     \<and> length (Bssid m) = 6 \<and> length (PMK m) = 32 \<and> length (GTK m) = 32
     \<and> snd (mbss_rsnie e m) \<noteq> 0 \<and> rsn_ie_ok (fst (mbss_rsnie e m)) (snd (mbss_rsnie e m))
     \<and> MacTableLookup A (Addr e) = Some (Some i))"

lemma Entry_upd [simp]: "i < length (Content A) \<Longrightarrow> Entry (upd_entry i f A) i = f (Entry A i)"
  by (simp add: upd_entry_def)

lemma upd_entry_fields [simp]:
  "opmode (upd_entry i f A) = opmode A" "closing (upd_entry i f A) = closing A" "halted (upd_entry i f A) = halted A"
  "CurrentAddress (upd_entry i f A) = CurrentAddress A" "StaCfg (upd_entry i f A) = StaCfg A"
  "MBSSID (upd_entry i f A) = MBSSID A" "BssidNum (upd_entry i f A) = BssidNum A" "BcnMaxNum (upd_entry i f A) = BcnMaxNum A"
  "WcidHwRsvNum (upd_entry i f A) = WcidHwRsvNum A" "SharedKey (upd_entry i f A) = SharedKey A"
  "asic_mem (upd_entry i f A) = asic_mem A" "Hash (upd_entry i f A) = Hash A" "out (upd_entry i f A) = out A"
  "length (Content (upd_entry i f A)) = length (Content A)"
  by (simp_all add: upd_entry_def)

lemma put_out_fields [simp]:
  "opmode (put_out x A) = opmode A" "closing (put_out x A) = closing A" "halted (put_out x A) = halted A"
  "CurrentAddress (put_out x A) = CurrentAddress A" "StaCfg (put_out x A) = StaCfg A"
  "MBSSID (put_out x A) = MBSSID A" "BssidNum (put_out x A) = BssidNum A" "BcnMaxNum (put_out x A) = BcnMaxNum A"
  "WcidHwRsvNum (put_out x A) = WcidHwRsvNum A" "SharedKey (put_out x A) = SharedKey A"
  "asic_mem (put_out x A) = asic_mem A" "Hash (put_out x A) = Hash A" "Content (put_out x A) = Content A"
  "out (put_out x A) = out A @ [x]"
  by (simp_all add: put_out_def)

text \<open>An update that keeps what the look-up and the access point's side read of the entry.\<close>

lemma lookup_upd:
  assumes "MacTableLookup A a = Some r" and "i < length (Content A)"
    and "EntryType (f (Entry A i)) = EntryType (Entry A i)" "Addr (f (Entry A i)) = Addr (Entry A i)" "pNext (f (Entry A i)) = pNext (Entry A i)"
  shows "MacTableLookup (upd_entry i f A) a = Some r"
proof (rule MacTableLookup_cong [OF assms(1)])
  show "lookup_keys (Content (upd_entry i f A)) = lookup_keys (Content A)"
    using assms(2-5) by (simp add: upd_entry_def lookup_keys_def map_update list_update_same_conv)
qed simp

lemma lookup_put_out: "MacTableLookup A a = Some r \<Longrightarrow> MacTableLookup (put_out x A) a = Some r"
  by (erule MacTableLookup_cong) simp_all

lemma WPAStart4WayHS_message1:
  assumes A: "ap_side A i" and st: "AS_INITPMK \<le> WpaState (Entry A i)" "WpaState (Entry A i) \<le> AS_PTKSTART"
  fixes clk TimeInterval
  defines "m \<equiv> MBSSID A ! apidx (Entry A i)"
  obtains nonce f e where "length nonce = 32" "e = (Entry A i)\<lparr>R_Counter := ADD_ONE_To_64BIT_VAR (R_Counter (Entry A i)), ANonce := nonce\<rparr>"
    "hs_message EAPOL_PAIR_MSG_1 e (GroupKeyWepStatus m) 0 [] f" "KeyNonce f = nonce"
    "WPAStart4WayHS clk i TimeInterval A =
      Some (upd_entry i (\<lambda>e. e\<lparr>RetryTimer := RTMPModTimer (halted A) TimeInterval (RetryTimer e), WpaState := AS_PTKSTART\<rparr>)
        (put_out (sent e (Bssid m) (wire [] f) (\<not> PortSecured e)) (upd_entry i (\<lambda>_. e) A)))"
proof -
  note a = A [unfolded ap_side_def Let_def, folded m_def]
  have "6 \<le> length (Bssid m)" using a by simp
  then obtain nonce where nonce: "GenRandom (system_time clk) (Bssid m) = Some nonce" "length nonce = 32"
    by (rule GenRandom_total)
  define e where "e = (Entry A i)\<lparr>R_Counter := ADD_ONE_To_64BIT_VAR (R_Counter (Entry A i)), ANonce := nonce\<rparr>"
  have e: "psk_modes e (GroupKeyWepStatus m)" "entry_ok e" "EntryType e = ENTRY_CLIENT" "AuthMode e \<noteq> Ndis802_11AuthModeWPA2"
    using a nonce(2) by (auto simp: e_def psk_modes_def entry_ok_def)
  have t: "EAPOL_PAIR_MSG_1 \<le> EAPOL_PAIR_MSG_4" "EAPOL_PAIR_MSG_1 \<noteq> EAPOL_PAIR_MSG_3" by (simp_all add: msg_types)
  obtain c f where f: "construct e (GroupKeyWepStatus m) EAPOL_PAIR_MSG_1 0 nonce [] [] [] 0 = Some f"
    "hs_message EAPOL_PAIR_MSG_1 e (GroupKeyWepStatus m) (word_of_nat 0) c f" "KeyNonce f = nonce"
    "c = key_data True EAPOL_PAIR_MSG_1 (GroupKeyWepStatus m) (word_of_nat 0) [] [] 0"
    by (rule psk_message [OF e(1,2) order_refl t(1), of nonce "[]" "[]" 0 "[]" 0])
      (use nonce(2) t(2) in \<open>simp_all add: msg_types\<close>)
  then have c: "c = []" by (simp add: key_data_none)
  have u: "upd_entry i (\<lambda>e. e\<lparr>R_Counter := ADD_ONE_To_64BIT_VAR (R_Counter e), ANonce := nonce\<rparr>) A = upd_entry i (\<lambda>_. e) A"
    by (simp add: upd_entry_def e_def)
  have ps: "PortSecured (Entry A i) = PortSecured e" by (simp add: e_def)
  let ?A1 = "upd_entry i (\<lambda>_. e) A"
  have add: "add_pmkid i f ?A1 = Some (f, ?A1)" using a e(4) by (simp add: add_pmkid_def Let_def)
  have snd: "send_eapol i (Bssid m) f (\<not> PortSecured e) ?A1 = Some (put_out (sent e (Bssid m) (wire [] f) (\<not> PortSecured e)) ?A1)"
    using send_eapol_wire [OF hs_messageD(1) [OF f(2)], of ?A1 i] a e(3) c by simp
  have "WPAStart4WayHS clk i TimeInterval A =
      Some (upd_entry i (\<lambda>e. e\<lparr>RetryTimer := RTMPModTimer (halted A) TimeInterval (RetryTimer e), WpaState := AS_PTKSTART\<rparr>)
        (put_out (sent e (Bssid m) (wire [] f) (\<not> PortSecured e)) ?A1))"
    using a st nonce(1) f(1) add snd ps unfolding WPAStart4WayHS_def Let_def m_def [symmetric]
    by (simp add: u e_def [symmetric])
  then show ?thesis using f c nonce(2) by (intro that [OF _ e_def]) simp_all
qed

section \<open>Message 2\<close>

text \<open>The station: its configuration, and the entry of the access point.\<close>

definition sta_side :: "wpa_adapter \<Rightarrow> bool" where
  "sta_side S \<longleftrightarrow> (let e = Entry S BSSID_WCID; g = StaCfg S in
     opmode S = OPMODE_STA \<and> BSSID_WCID < length (Content S) \<and> is_client S BSSID_WCID \<and> entry_ok e \<and> Sst e = SST_ASSOC
     \<and> AS_INITPSK \<le> WpaState e \<and> psk_modes e (GroupCipher g) \<and> length (CurrentAddress S) = 6 \<and> length (sPMK g) = 32
     \<and> length (sGTK g) = 32 \<and> sRSNIE_Len g \<noteq> 0 \<and> rsn_ie_ok (sRSN_IE g) (sRSNIE_Len g)
     \<and> 0 < BcnMaxNum S \<and> 0 < length (SharedKey S) \<and> 4 \<le> length (SharedKey S ! 0)
     \<and> MacTableLookup S (Addr e) = Some (Some BSSID_WCID))"

lemma received_message:
  assumes "hs_message t e cipher idx c f" and "received a (wire c f) Msg MsgLen"
  obtains junk where "eapol_of Msg = wire c f @ junk" "EAPOL_PACKET (eapol_of Msg) = f\<lparr>KeyData := c @ junk\<rparr>"
proof -
  obtain j where j: "eapol_of Msg = wire c f @ j" by (rule received_eapol [OF assms(2)])
  moreover have "EAPOL_PACKET (eapol_of Msg) = f\<lparr>KeyData := c @ j\<rparr>"
    unfolding j by (rule received_packet [OF hs_messageD(1) [OF assms(1)]])
  ultimately show ?thesis by (rule that)
qed

lemma larger_counter:
  assumes "length a = 8" "length b = 8" "be_number b < be_number a"
  shows "RTMPCompareMemory a b 8 = 1"
  using assms by (simp add: RTMPCompareMemory_number)

lemma sanity_message1:
  assumes m: "hs_message EAPOL_PAIR_MSG_1 e cipher idx c f" and rcv: "received a (wire c f) Msg MsgLen"
    and X: "i < length (Content X)" "length (R_Counter (Entry X i)) = 8" "length (ReplayCounter f) = 8"
      "be_number (R_Counter (Entry X i)) < be_number (ReplayCounter f)"
  shows "PeerWpaMessageSanity clk (eapol_of Msg) EAPOL_PAIR_MSG_1 i X = Some (True, X)"
proof -
  obtain j where j: "eapol_of Msg = wire c f @ j" "EAPOL_PACKET (eapol_of Msg) = f\<lparr>KeyData := c @ j\<rparr>"
    by (rule received_message [OF m rcv])
  have "\<not> (i \<ge> length (Content X) \<or> length (eapol_of Msg) < 99 \<or> length (R_Counter (Entry X i)) \<noteq> 8)"
    using X(1,2) by (simp add: j wire_length [OF hs_messageD(1) [OF m]])
  moreover have "replay_ok EAPOL_PAIR_MSG_1 (ReplayCounter f) (R_Counter (Entry X i))"
    using larger_counter [OF X(3,2,4)] by (simp add: replay_ok_def)
  ultimately show ?thesis unfolding PeerWpaMessageSanity_def Let_def j(2)
    by (simp add: msg_types)
qed

lemma PeerPairMsg1Action_message2:
  assumes S: "sta_side S" and m: "hs_message EAPOL_PAIR_MSG_1 e0 cipher idx c0 f"
    and rcv: "received a (wire c0 f) Msg MsgLen" and f: "length (KeyNonce f) = 32" "length (ReplayCounter f) = 8"
    and later: "be_number (R_Counter (Entry S BSSID_WCID)) < be_number (ReplayCounter f)"
  fixes clk
  defines "e1 \<equiv> Entry S BSSID_WCID"
  obtains nonce ptk e c g where
    "WpaDerivePTK (sPMK (StaCfg S)) (KeyNonce f) (Addr e1) nonce (CurrentAddress S) (replicate 80 0) 64 = Some ptk"
    "length ptk = 80" "length nonce = 32"
    "e = e1\<lparr>R_Counter := ReplayCounter f, ANonce := KeyNonce f, SNonce := nonce, PTK := take 64 ptk,
           WpaState := AS_PTKINIT_NEGOTIATING\<rparr>"
    "hs_message EAPOL_PAIR_MSG_2 e (GroupCipher (StaCfg S)) 0 c g" "KeyNonce g = nonce" "c \<noteq> []" "length c \<le> 255"
    "PeerPairMsg1Action clk BSSID_WCID Msg MsgLen S
      = Some (put_out (sent e (CurrentAddress S) (wire c g) True) (upd_entry BSSID_WCID (\<lambda>_. e) S))"
proof -
  let ?i = BSSID_WCID and ?g = "StaCfg S"
  note s = S [unfolded sta_side_def Let_def, folded e1_def]
  have "6 \<le> length (CurrentAddress S)" using s by simp
  then obtain nonce where nonce: "GenRandom (system_time clk) (CurrentAddress S) = Some nonce" "length nonce = 32"
    by (rule GenRandom_total)
  have ln: "length (sPMK ?g) = 32" "length (Addr e1) = 6" "length (CurrentAddress S) = 6" using s by (simp_all add: entry_ok_def)
  obtain ptk where ptk: "WpaDerivePTK (sPMK ?g) (KeyNonce f) (Addr e1) nonce (CurrentAddress S) (replicate 80 0) 64 = Some ptk"
    "length ptk = 80"
    by (rule WpaDerivePTK_total [OF ln f(1) nonce(2)])
  define e where "e = e1\<lparr>R_Counter := ReplayCounter f, ANonce := KeyNonce f, SNonce := nonce, PTK := take 64 ptk,
           WpaState := AS_PTKINIT_NEGOTIATING\<rparr>"
  have e: "psk_modes e (GroupCipher ?g)" "entry_ok e" "EntryType e = ENTRY_CLIENT"
    using s nonce(2) ptk(2) f by (auto simp: e_def psk_modes_def entry_ok_def)
  have t: "EAPOL_PAIR_MSG_1 \<le> EAPOL_PAIR_MSG_2" "EAPOL_PAIR_MSG_2 \<le> EAPOL_PAIR_MSG_4" "EAPOL_PAIR_MSG_2 \<noteq> EAPOL_PAIR_MSG_3"
    by (simp_all add: msg_types)
  obtain c g where g: "construct e (GroupCipher ?g) EAPOL_PAIR_MSG_2 0 nonce [] [] (sRSN_IE ?g) (sRSNIE_Len ?g) = Some g"
    "hs_message EAPOL_PAIR_MSG_2 e (GroupCipher ?g) (word_of_nat 0) c g" "KeyNonce g = nonce" "length c \<le> 255"
    "c = key_data True EAPOL_PAIR_MSG_2 (GroupCipher ?g) (word_of_nat 0) [] (sRSN_IE ?g) (sRSNIE_Len ?g)"
    by (rule psk_message [OF e(1,2) t(1,2), of nonce "[]" "[]" "sRSNIE_Len ?g" "sRSN_IE ?g" 0])
      (use nonce(2) t(3) s in \<open>simp_all add: msg_types\<close>)
  have c: "c \<noteq> []" using s g(5) by (simp add: key_data_def rsn_element_def)
  obtain j where j: "EAPOL_PACKET (eapol_of Msg) = f\<lparr>KeyData := c0 @ j\<rparr>" by (rule received_message [OF m rcv])
  have ok: "PeerWpaMessageSanity clk (eapol_of Msg) EAPOL_PAIR_MSG_1 ?i S = Some (True, S)"
    using s f(2) later by (intro sanity_message1 [OF m rcv]) (simp_all add: e1_def entry_ok_def)
  have "\<not> too_short MsgLen" by (rule received_long [OF rcv hs_messageD(1) [OF m]])
  then have go: "\<not> (\<not> is_client S ?i \<or> too_short MsgLen \<or> opmode S \<noteq> OPMODE_STA)" using s by (simp add: e1_def)
  have snd: "send_eapol ?i (CurrentAddress S) g True (upd_entry ?i (\<lambda>_. e) S)
      = Some (put_out (sent e (CurrentAddress S) (wire c g) True) (upd_entry ?i (\<lambda>_. e) S))"
    using send_eapol_wire [OF hs_messageD(1) [OF g(2)], of "upd_entry ?i (\<lambda>_. e) S" ?i] s e(3) by simp
  have upd: "upd_entry ?i (\<lambda>e. e\<lparr>PTK := take 64 ptk, WpaState := AS_PTKINIT_NEGOTIATING\<rparr>)
      (upd_entry ?i (\<lambda>e. e\<lparr>SNonce := nonce\<rparr>) (upd_entry ?i (\<lambda>e. e\<lparr>R_Counter := ReplayCounter f, ANonce := KeyNonce f\<rparr>) S))
      = upd_entry ?i (\<lambda>_. e) S"
    using s by (simp add: upd_entry_def e_def e1_def)
  have "PeerPairMsg1Action clk ?i Msg MsgLen S
      = Some (put_out (sent e (CurrentAddress S) (wire c g) True) (upd_entry ?i (\<lambda>_. e) S))"
    unfolding PeerPairMsg1Action_def if_not_P [OF go] Let_def j
    using s nonce(1) ptk(1) g(1) by (simp add: ok upd snd e1_def e_def [unfolded e1_def, symmetric])
  then show ?thesis using ptk nonce(2) e_def g c by (intro that [of nonce ptk e c g]) simp_all
qed

section \<open>Message 3\<close>

text \<open>What the checks do with messages 2 to 4 when both sides have the same key.\<close>

lemma sanity_hs:
  assumes m: "hs_message t e0 cipher idx c f" "EAPOL_PAIR_MSG_2 \<le> t" "t \<le> EAPOL_PAIR_MSG_4"
    and rcv: "received a (wire c f) Msg MsgLen"
    and X: "i < length (Content X)" "length (R_Counter (Entry X i)) = 8" "PTK (Entry X i) = PTK e0" "length (PTK e0) = 64"
      "is_WPA2 (AuthMode (Entry X i))" "replay_ok t (ReplayCounter f) (R_Counter (Entry X i))"
  obtains junk where "PeerWpaMessageSanity clk (eapol_of Msg) t i X =
    (if c = [] \<or> t = EAPOL_PAIR_MSG_4 then Some (True, X)
     else (case clear_KeyData True t (PTK e0) (f\<lparr>KeyData := c @ junk\<rparr>) of
             None \<Rightarrow> None | Some (d, n) \<Rightarrow> RTMPParseEapolKeyData clk d n 0 t True X))"
proof -
  obtain j where j: "eapol_of Msg = wire c f @ j" by (rule received_eapol [OF rcv])
  let ?ver = "desc_version (WepStatus e0) cipher"
  obtain g where g: "carries c g" "f = coded ?ver (PTK e0) c g"
    using m by (auto simp: hs_message_def msg_types)
  have v: "?ver = KeyDescVer (KeyInfo g)" using hs_message_version [OF m(1)] g(2) by simp
  have t: "t \<le> 6" "1 < t" using m(2,3) by (simp_all add: msg_types)
  have w: "is_WPA2 (AuthMode (Entry X i)) = True" using X(5) by simp
  have "PeerWpaMessageSanity clk (wire c (coded ?ver (PTK (Entry X i)) c g) @ j) t i X =
    (if c = [] \<or> \<not> (t = 2 \<or> t = 3 \<or> t = 5) then Some (True, X)
     else (case clear_KeyData (is_WPA2 (AuthMode (Entry X i))) t (PTK (Entry X i)) ((coded ?ver (PTK (Entry X i)) c g)\<lparr>KeyData := c @ j\<rparr>) of
             None \<Rightarrow> None
           | Some (d, n) \<Rightarrow> RTMPParseEapolKeyData clk d n
               (if \<not> is_WPA2 (AuthMode (Entry X i)) \<and> t = 5 then unat (KeyIndex (KeyInfo g)) else 0)
               t (is_WPA2 (AuthMode (Entry X i))) X))"
    by (rule sanity_coded [OF g(1) X(1) refl X(2) _ v _ t]) (use X(3,4,6) g(2) in \<open>simp_all\<close>)
  note this [unfolded w not_True_eq_False simp_thms if_False X(3) g(2) [symmetric] j [symmetric]]
  with m(2,3) show ?thesis by (intro that [of j]) (auto simp: msg_types)
qed

lemma sanity_message2:
  assumes m: "hs_message EAPOL_PAIR_MSG_2 e0 cipher idx c f" and rcv: "received a (wire c f) Msg MsgLen"
    and X: "i < length (Content X)" "length (R_Counter (Entry X i)) = 8" "PTK (Entry X i) = PTK e0" "length (PTK e0) = 64"
      "is_WPA2 (AuthMode (Entry X i))" "ReplayCounter f = R_Counter (Entry X i)" and c: "length c \<le> 255"
  shows "PeerWpaMessageSanity clk (eapol_of Msg) EAPOL_PAIR_MSG_2 i X = Some (True, X)"
proof -
  have "EAPOL_PAIR_MSG_2 \<le> EAPOL_PAIR_MSG_4" "replay_ok EAPOL_PAIR_MSG_2 (ReplayCounter f) (R_Counter (Entry X i))"
    using X(6) by (simp_all add: replay_ok_def msg_types)
  then obtain j where j: "PeerWpaMessageSanity clk (eapol_of Msg) EAPOL_PAIR_MSG_2 i X =
    (if c = [] \<or> EAPOL_PAIR_MSG_2 = EAPOL_PAIR_MSG_4 then Some (True, X)
     else (case clear_KeyData True EAPOL_PAIR_MSG_2 (PTK e0) (f\<lparr>KeyData := c @ j\<rparr>) of
             None \<Rightarrow> None | Some (d, n) \<Rightarrow> RTMPParseEapolKeyData clk d n 0 EAPOL_PAIR_MSG_2 True X))"
    by (rule sanity_hs [OF m order_refl _ rcv X(1-5)])
  have "move_mem 0 (length c) (c @ j) (replicate 255 0) \<noteq> None" using c by (simp add: move_mem_def)
  then obtain d where "clear_KeyData True EAPOL_PAIR_MSG_2 (PTK e0) (f\<lparr>KeyData := c @ j\<rparr>) = Some (d, length c)"
    using carries_numbers(2) [OF hs_messageD(1) [OF m]] by (auto simp: clear_KeyData_def msg_types)
  then show ?thesis unfolding j by (simp add: RTMPParseEapolKeyData_def msg_types)
qed

lemma RTMPGetTxTscFromAsic_total:
  assumes "idx < BcnMaxNum A" and "idx < length (MBSSID A)"
  obtains tsc where "RTMPGetTxTscFromAsic A idx = Some tsc" and "length tsc = 6"
  using assms that unfolding RTMPGetTxTscFromAsic_def Let_def by (simp split: if_splits)

text \<open>The key data of message 3.\<close>

definition msg3_data :: "wpa_entry \<Rightarrow> mbss \<Rightarrow> bytes" where
  "msg3_data e m = rsn_element (fst (mbss_rsnie e m)) (snd (mbss_rsnie e m))
     @ gtk_element True (GroupKeyWepStatus m) (word_of_nat (DefaultKeyId m)) (GTK m)"

lemma PeerPairMsg2Action_message3:
  assumes A: "ap_side A i" and st: "AS_PTKSTART \<le> WpaState (Entry A i)"
    and m2: "hs_message EAPOL_PAIR_MSG_2 e0 cipher idx c0 f" "length c0 \<le> 255"
    and rcv: "received a (wire c0 f) Msg MsgLen" and f: "length (KeyNonce f) = 32" "ReplayCounter f = R_Counter (Entry A i)"
  fixes clk
  defines "e1 \<equiv> Entry A i" and "m \<equiv> MBSSID A ! apidx (Entry A i)"
  assumes ptk: "WpaDerivePTK (PMK m) (ANonce e1) (Bssid m) (KeyNonce f) (Addr e1) (replicate 80 0) 64 = Some ptk"
    "length ptk = 80" "PTK e0 = take 64 ptk"
  obtains e c g where
    "e = e1\<lparr>SNonce := KeyNonce f, PTK := take 64 ptk, RetryTimer := RTMPCancelTimer (RetryTimer e1),
           WpaState := AS_PTKINIT_NEGOTIATING, R_Counter := ADD_ONE_To_64BIT_VAR (R_Counter e1)\<rparr>"
    "hs_message EAPOL_PAIR_MSG_3 e (GroupKeyWepStatus m) (word_of_nat (DefaultKeyId m)) c g" "KeyNonce g = ANonce e1" "c \<noteq> []"
    "clears (desc_version (WepStatus e) (GroupKeyWepStatus m)) (PTK e) c g (msg3_data e1 m)"
    "PeerPairMsg2Action clk i Msg MsgLen A
      = Some (upd_entry i (\<lambda>e. e\<lparr>ReTryCounter := PEER_MSG3_RETRY_TIMER_CTR,
                 RetryTimer := RTMPSetTimer (halted A) PEER_MSG3_RETRY_EXEC_INTV (RetryTimer e)\<rparr>)
          (put_out (sent e (Bssid m) (wire c g) (\<not> PortSecured e)) (upd_entry i (\<lambda>_. e) A)))"
proof -
  let ?ie = "fst (mbss_rsnie e1 m)" and ?n = "snd (mbss_rsnie e1 m)" and ?k = "DefaultKeyId m" and ?G = "GroupKeyWepStatus m"
  note a = A [unfolded ap_side_def Let_def, folded e1_def m_def, unfolded m_def [symmetric, folded e1_def] e1_def [symmetric]]
  obtain tsc where tsc: "RTMPGetTxTscFromAsic A (apidx e1) = Some tsc" "length tsc = 6"
    using a by (auto elim: RTMPGetTxTscFromAsic_total)
  define e where "e = e1\<lparr>SNonce := KeyNonce f, PTK := take 64 ptk, RetryTimer := RTMPCancelTimer (RetryTimer e1),
           WpaState := AS_PTKINIT_NEGOTIATING, R_Counter := ADD_ONE_To_64BIT_VAR (R_Counter e1)\<rparr>"
  have e: "psk_modes e ?G" "entry_ok e" "EntryType e = ENTRY_CLIENT" "ANonce e = ANonce e1"
    using a f(1) ptk(2) by (auto simp: e_def psk_modes_def entry_ok_def)
  have t: "EAPOL_PAIR_MSG_1 \<le> EAPOL_PAIR_MSG_3" "EAPOL_PAIR_MSG_3 \<le> EAPOL_PAIR_MSG_4" by (simp_all add: msg_types)
  have nonce: "length (ANonce e1) = 32" "length (GTK m) = 32" "?n \<noteq> 0 \<Longrightarrow> rsn_ie_ok ?ie ?n" using a by (auto simp: entry_ok_def)
  have d: "key_data True EAPOL_PAIR_MSG_3 ?G (word_of_nat ?k) (GTK m) ?ie ?n = msg3_data e1 m"
    using a by (simp add: key_data_def encrypted_type_def msg3_data_def)
  obtain c g where g: "construct e ?G EAPOL_PAIR_MSG_3 ?k (ANonce e1) tsc (GTK m) ?ie ?n = Some g"
    "hs_message EAPOL_PAIR_MSG_3 e ?G (word_of_nat ?k) c g" "KeyNonce g = ANonce e1"
    "msg3_data e1 m \<noteq> [] \<Longrightarrow> c \<noteq> []" "clears (desc_version (WepStatus e) ?G) (PTK e) c g (msg3_data e1 m)"
    unfolding d [symmetric]
    by (rule psk_message [OF e(1,2) t nonce(1) _ nonce(3), of tsc "GTK m" ?k]) (use tsc(2) nonce(2) in \<open>simp_all\<close>)
  have c: "c \<noteq> []" using g(4) by (simp add: msg3_data_def rsn_element_def)
  define e2 where "e2 = e1\<lparr>SNonce := KeyNonce f, PTK := take 64 ptk\<rparr>"
  let ?A2 = "upd_entry i (\<lambda>_. e2) A"
  obtain j where j: "EAPOL_PACKET (eapol_of Msg) = f\<lparr>KeyData := c0 @ j\<rparr>" by (rule received_message [OF m2(1) rcv])
  have e2: "Entry ?A2 i = e2" using a by simp
  have ok: "PeerWpaMessageSanity clk (eapol_of Msg) EAPOL_PAIR_MSG_2 i ?A2 = Some (True, ?A2)"
    using a f(2) ptk(2,3) psk_modesD(2) [of e1 ?G] unfolding e1_def [symmetric]
    by (intro sanity_message2 [OF m2(1) rcv _ _ _ _ _ _ m2(2)]) (simp_all add: e2_def entry_ok_def)
  have "\<not> too_short MsgLen" by (rule received_long [OF rcv hs_messageD(1) [OF m2(1)]])
  moreover have "\<not> WpaState e1 < AS_PTKSTART" using st by (simp add: e1_def not_less)
  moreover have ee: "Entry A i = e1" "MBSSID A ! apidx e1 = m" by (simp_all add: e1_def m_def)
  ultimately have go: "\<not> (\<not> is_client A i \<or> too_short MsgLen \<or> WpaState (Entry A i) < AS_PTKSTART)" using a by simp
  have upd: "upd_entry i (\<lambda>e. e\<lparr>PTK := take 64 ptk\<rparr>) (upd_entry i (\<lambda>e. e\<lparr>SNonce := KeyNonce f\<rparr>) A) = ?A2"
    "upd_entry i (\<lambda>e. e\<lparr>RetryTimer := RTMPCancelTimer (RetryTimer e), WpaState := AS_PTKINIT_NEGOTIATING,
        R_Counter := ADD_ONE_To_64BIT_VAR (R_Counter e)\<rparr>) ?A2 = upd_entry i (\<lambda>_. e) A"
    using a by (simp_all add: upd_entry_def e_def e1_def e2_def)
  have snd: "send_eapol i (Bssid m) g (\<not> PortSecured e) (upd_entry i (\<lambda>_. e) A)
      = Some (put_out (sent e (Bssid m) (wire c g) (\<not> PortSecured e)) (upd_entry i (\<lambda>_. e) A))"
    using send_eapol_wire [OF hs_messageD(1) [OF g(2)], of "upd_entry i (\<lambda>_. e) A" i] a e(3) by simp
  have "PeerPairMsg2Action clk i Msg MsgLen A
      = Some (upd_entry i (\<lambda>e. e\<lparr>ReTryCounter := PEER_MSG3_RETRY_TIMER_CTR,
                 RetryTimer := RTMPSetTimer (halted A) PEER_MSG3_RETRY_EXEC_INTV (RetryTimer e)\<rparr>)
          (put_out (sent e (Bssid m) (wire c g) (\<not> PortSecured e)) (upd_entry i (\<lambda>_. e) A)))"
    unfolding PeerPairMsg2Action_def Let_def j if_not_P [OF go]
    using a tsc(1) ptk(1) g(1) e(4) by (simp add: ee ok upd snd split_beta not_le)
  then show ?thesis using e_def g c by (intro that [of e c g]) simp_all
qed

section \<open>Installing the keys\<close>

text \<open>For TKIP and AES only the memory of the chip changes besides the key of the entry.\<close>

lemma key_algs [simp]:
  "CipherAlg (pairwise_key_of b Ndis802_11Encryption2Enabled ptk) = CIPHER_TKIP"
  "CipherAlg (pairwise_key_of b Ndis802_11Encryption3Enabled ptk) = CIPHER_AES"
  by (simp_all add: pairwise_key_of_def Let_def)

lemma RTMPSetWcidSecurityInfo_asic:
  assumes "alg = CIPHER_TKIP \<or> alg = CIPHER_AES"
  obtains M where "RTMPSetWcidSecurityInfo clk b k alg w t A = A\<lparr>asic_mem := M\<rparr>"
proof -
  have "\<exists>M. RTMPSetWcidSecurityInfo clk b k alg w t A = A\<lparr>asic_mem := M\<rparr>"
    using assms by (auto simp: RTMPSetWcidSecurityInfo_def Let_def split_beta cipher_algs)
  with that show ?thesis by blast
qed

lemma pairwise_key_ok: "length ptk = 64 \<Longrightarrow> key_entry_ok (pairwise_key_of b status ptk)"
  by (simp add: key_entry_ok_def pairwise_key_of_def zero_cipher_key_def Let_def)

lemma WPAInstallPairwiseKey_installs:
  assumes "i < length (Content A)" and "length (PTK (Entry A i)) = 64"
    and "WepStatus (Entry A i) = Ndis802_11Encryption2Enabled \<or> WepStatus (Entry A i) = Ndis802_11Encryption3Enabled"
  obtains M where "WPAInstallPairwiseKey clk b i bAE A
    = Some ((upd_entry i (\<lambda>e. e\<lparr>PairwiseKey := pairwise_key_of bAE (WepStatus (Entry A i)) (PTK (Entry A i))\<rparr>) A)\<lparr>asic_mem := M\<rparr>)"
proof -
  let ?e = "Entry A i"
  define k where "k = pairwise_key_of bAE (WepStatus ?e) (PTK ?e)"
  have "key_entry_ok k" unfolding k_def by (rule pairwise_key_ok [OF assms(2)])
  then obtain M where M: "AsicAddPairwiseKeyEntry (Aid ?e mod 256) k (asic_mem A) = Some M"
    by (simp add: AsicAddPairwiseKeyEntry_def write_key_entry_ok)
  have "CipherAlg k = CIPHER_TKIP \<or> CipherAlg k = CIPHER_AES" using assms(3) by (auto simp: k_def)
  then obtain M' where "RTMPSetWcidSecurityInfo clk b 0 (CipherAlg k) (Aid ?e mod 256) PAIRWISEKEYTABLE
      (upd_entry i (\<lambda>e. e\<lparr>PairwiseKey := k\<rparr>) (A\<lparr>asic_mem := M\<rparr>))
    = (upd_entry i (\<lambda>e. e\<lparr>PairwiseKey := k\<rparr>) (A\<lparr>asic_mem := M\<rparr>))\<lparr>asic_mem := M'\<rparr>"
    by (rule RTMPSetWcidSecurityInfo_asic)
  moreover have "(upd_entry i (\<lambda>e. e\<lparr>PairwiseKey := k\<rparr>) (A\<lparr>asic_mem := M\<rparr>))\<lparr>asic_mem := M'\<rparr>
      = (upd_entry i (\<lambda>e. e\<lparr>PairwiseKey := k\<rparr>) A)\<lparr>asic_mem := M'\<rparr>"
    by (simp add: upd_entry_def)
  ultimately have "WPAInstallPairwiseKey clk b i bAE A
      = Some ((upd_entry i (\<lambda>e. e\<lparr>PairwiseKey := k\<rparr>) A)\<lparr>asic_mem := M'\<rparr>)"
    using assms M unfolding WPAInstallPairwiseKey_def Let_def k_def [symmetric] by auto
  then show ?thesis unfolding k_def by (rule that)
qed

text \<open>The group key of a station: the key that the access point uses, with the integrity keys exchanged.\<close>

definition group_alg :: "NDIS_802_11_WEP_STATUS \<Rightarrow> u8" where
  "group_alg cipher = (if cipher = Ndis802_11Encryption2Enabled then CIPHER_TKIP else CIPHER_AES)"

definition sta_group_key :: "NDIS_802_11_WEP_STATUS \<Rightarrow> bytes \<Rightarrow> cipher_key" where
  "sta_group_key cipher gtk = zero_cipher_key\<lparr>CipherAlg := group_alg cipher, KeyLen := 16, Key := take 16 gtk,
     TxMic := (if cipher = Ndis802_11Encryption2Enabled then take 8 (drop 24 gtk) else replicate 8 0),
     RxMic := (if cipher = Ndis802_11Encryption2Enabled then take 8 (drop 16 gtk) else replicate 8 0)\<rparr>"

lemma group_key_of_sta:
  assumes "cipher = Ndis802_11Encryption2Enabled \<or> cipher = Ndis802_11Encryption3Enabled"
    and "length g = 32" and "take (gtk_length cipher) g = take (gtk_length cipher) gtk" and "length gtk = 32"
  shows "group_key_of cipher False g (gtk_length cipher) = Some (sta_group_key cipher gtk, True)"
proof -
  have "take 16 g = take 16 gtk" "cipher = Ndis802_11Encryption2Enabled \<Longrightarrow> g = gtk"
    using assms by (auto simp: gtk_length_def)
  then show ?thesis using assms(1,2)
    by (auto simp: group_key_of_def sta_group_key_def group_alg_def gtk_length_def Let_def LEN_TK_def cipher_algs zero_cipher_key_def)
qed

lemma WPAInstallSharedKey_sta:
  assumes "cipher = Ndis802_11Encryption2Enabled \<or> cipher = Ndis802_11Encryption3Enabled"
    and "length g = 32" "take (gtk_length cipher) g = take (gtk_length cipher) gtk" "length gtk = 32"
    and "0 < BcnMaxNum A" "0 < length (SharedKey A)" "k < length (SharedKey A ! 0)"
  obtains M where "WPAInstallSharedKey clk cipher BSS0 k MCAST_WCID False g (gtk_length cipher) A
    = Some (A\<lparr>SharedKey := (SharedKey A)[0 := (SharedKey A ! 0)[k := sta_group_key cipher gtk]], asic_mem := M\<rparr>)"
proof -
  have "key_entry_ok (sta_group_key cipher gtk)"
    using assms(4) by (simp add: key_entry_ok_def sta_group_key_def)
  then obtain M where "AsicAddSharedKeyEntry 0 k (sta_group_key cipher gtk) (asic_mem A) = Some M"
    by (simp add: AsicAddSharedKeyEntry_def write_key_entry_ok)
  then show ?thesis using assms(5-7) group_key_of_sta [OF assms(1-4)]
    by (intro that [of M]) (simp add: WPAInstallSharedKey_def Let_def BSS0_def MCAST_WCID_def)
qed

section \<open>Message 4\<close>

text \<open>The station with a new group key in its configuration, its table of keys and the chip.\<close>

definition with_group_key :: "nat \<Rightarrow> NDIS_802_11_WEP_STATUS \<Rightarrow> bytes \<Rightarrow> bytes \<Rightarrow> asic \<Rightarrow> wpa_adapter \<Rightarrow> wpa_adapter" where
  "with_group_key k cipher gtk g M S = S\<lparr>StaCfg := (StaCfg S)\<lparr>sGTK := g, sDefaultKeyId := k\<rparr>,
     SharedKey := (SharedKey S)[0 := (SharedKey S ! 0)[k := sta_group_key cipher gtk]], asic_mem := M\<rparr>"

lemma key_index: "k < 4 \<Longrightarrow> unat ((word_of_nat k :: u8) AND 3) = k"
proof -
  assume "k < 4"
  then have "k = 0 \<or> k = 1 \<or> k = 2 \<or> k = 3" by linarith
  then show "unat ((word_of_nat k :: u8) AND 3) = k" by auto
qed

lemma msg3_skip:
  assumes "rsn_ie_ok ie n" and "D = rsn_element ie n @ suf" and "length (rsn_element ie n) \<le> L"
  shows "kde_loop D L 0 st = kde_loop D L (length (rsn_element ie n)) st"
proof -
  have b: "unat n = length (take (unat n) ie)" using assms(1) by (simp add: rsn_ie_ok_def)
  have D: "D = [] @ [48, n] @ take (unat n) ie @ suf" using assms(1,2) by (simp add: rsn_element_def rsn_ie_ok_def)
  have L: "0 + 2 + length (take (unat n) ie) \<le> L" using assms(3) by (simp add: rsn_element_def)
  have "kde_loop D L 0 st = kde_loop D L (0 + 2 + length (take (unat n) ie)) st"
    using b L by (intro kde_skip [OF D]) simp_all
  then show ?thesis by (simp add: rsn_element_def)
qed

lemma parse_msg3:
  assumes ie: "rsn_ie_ok (fst (mbss_rsnie e m)) (snd (mbss_rsnie e m))" and m: "length (GTK m) = 32" "DefaultKeyId m < 4"
    and S: "opmode S = OPMODE_STA" "GroupCipher (StaCfg S) = GroupKeyWepStatus m" "length (sGTK (StaCfg S)) = 32"
      "0 < BcnMaxNum S" "0 < length (SharedKey S)" "4 \<le> length (SharedKey S ! 0)"
    and cipher: "GroupKeyWepStatus m = Ndis802_11Encryption2Enabled \<or> GroupKeyWepStatus m = Ndis802_11Encryption3Enabled"
  obtains g M where
    "RTMPParseEapolKeyData clk (filled 255 (padded ver (msg3_data e m))) (length (padded ver (msg3_data e m))) 0 EAPOL_PAIR_MSG_3 True S
      = Some (True, with_group_key (DefaultKeyId m) (GroupKeyWepStatus m) (GTK m) g M S)"
    "length g = 32" "take (gtk_length (GroupKeyWepStatus m)) g = take (gtk_length (GroupKeyWepStatus m)) (GTK m)"
proof -
  let ?ie = "fst (mbss_rsnie e m)" and ?n = "snd (mbss_rsnie e m)" and ?G = "GroupKeyWepStatus m" and ?k = "DefaultKeyId m"
  let ?l = "gtk_length ?G"
  define d where "d = msg3_data e m"
  have l: "?l \<le> 32" by (rule gtk_length_le)
  have "length (rsn_element ?ie ?n) \<le> 192" using ie by (simp add: rsn_element_def rsn_ie_ok_def)
  then have dl: "length d \<le> 240" using m l by (simp add: d_def msg3_data_def gtk_element_length)
  have "\<not> length (padded ver d) \<ge> 256" using padded_length(1) [of ver d] dl by simp
  then have md: "length (padded ver d) mod 256 = length (padded ver d)" by simp
  have loop: "kde_loop (filled 255 (padded ver d)) (length (padded ver d)) 0 (0, 0, replicate 32 0)
      = Some (True, unat ((word_of_nat ?k :: u8) AND 3), ?l, filled 32 (take ?l (GTK m)))"
    unfolding d_def msg3_data_def
    using m dl by (intro kde_finds_gtk msg3_skip [OF ie]) (simp_all add: d_def msg3_data_def)
  define g where "g = take ?l (GTK m) @ drop ?l (sGTK (StaCfg S))"
  have g: "length g = 32" "take ?l g = take ?l (GTK m)" using m S(3) l by (simp_all add: g_def)
  have "take ?l (filled 32 (take ?l (GTK m))) = take ?l (GTK m)" using m l by (simp add: filled_def)
  then have mv: "move_mem 0 ?l (filled 32 (take ?l (GTK m))) (sGTK (StaCfg S)) = Some g"
    using m S(3) l by (simp add: move_mem_def g_def)
  let ?S = "S\<lparr>StaCfg := (StaCfg S)\<lparr>sGTK := g, sDefaultKeyId := ?k\<rparr>\<rparr>"
  have "?k < length (SharedKey ?S ! 0)" "0 < BcnMaxNum ?S" "0 < length (SharedKey ?S)" using m(2) S(4-6) by simp_all
  then obtain M where M: "WPAInstallSharedKey clk ?G BSS0 ?k MCAST_WCID False g ?l ?S
      = Some (?S\<lparr>SharedKey := (SharedKey ?S)[0 := (SharedKey ?S ! 0)[?k := sta_group_key ?G (GTK m)]], asic_mem := M\<rparr>)"
    using WPAInstallSharedKey_sta [OF cipher g m(1)] by blast
  have ds: "DefaultKeyId m \<le> 3" using m(2) by simp
  have tt: "(EAPOL_PAIR_MSG_3 = EAPOL_PAIR_MSG_2 \<or> EAPOL_PAIR_MSG_3 = EAPOL_PAIR_MSG_3) \<and> \<not> (True \<and> EAPOL_PAIR_MSG_3 = EAPOL_PAIR_MSG_3) \<longleftrightarrow> False"
    by simp
  have "RTMPParseEapolKeyData clk (filled 255 (padded ver d)) (length (padded ver d)) 0 EAPOL_PAIR_MSG_3 True S
      = Some (True, with_group_key ?k ?G (GTK m) g M S)"
    unfolding RTMPParseEapolKeyData_def Let_def md
    using S(1,2) ds M by (simp add: loop key_index [OF m(2)] mv with_group_key_def)
  then show ?thesis using g by (intro that [of g M]) (simp_all add: d_def)
qed

lemma with_group_key_fields [simp]:
  "opmode (with_group_key k c t g M S) = opmode S" "Content (with_group_key k c t g M S) = Content S"
  "CurrentAddress (with_group_key k c t g M S) = CurrentAddress S" "out (with_group_key k c t g M S) = out S"
  "StaCfg (with_group_key k c t g M S) = (StaCfg S)\<lparr>sGTK := g, sDefaultKeyId := k\<rparr>"
  "SharedKey (with_group_key k c t g M S) = (SharedKey S)[0 := (SharedKey S ! 0)[k := sta_group_key c t]]"
  by (simp_all add: with_group_key_def)

lemma sanity_message3:
  assumes m3: "hs_message EAPOL_PAIR_MSG_3 e0 (GroupKeyWepStatus m) idx c f" "c \<noteq> []"
      "clears (desc_version (WepStatus e0) (GroupKeyWepStatus m)) (PTK e0) c f (msg3_data e' m)"
    and rcv: "received a (wire c f) Msg MsgLen"
    and X: "i < length (Content S)" "length (R_Counter (Entry S i)) = 8" "PTK (Entry S i) = PTK e0" "length (PTK e0) = 64"
      "is_WPA2 (AuthMode (Entry S i))" "length (ReplayCounter f) = 8" "be_number (R_Counter (Entry S i)) < be_number (ReplayCounter f)"
  shows "PeerWpaMessageSanity clk (eapol_of Msg) EAPOL_PAIR_MSG_3 i S =
    RTMPParseEapolKeyData clk (filled 255 (padded (desc_version (WepStatus e0) (GroupKeyWepStatus m)) (msg3_data e' m)))
      (length (padded (desc_version (WepStatus e0) (GroupKeyWepStatus m)) (msg3_data e' m))) 0 EAPOL_PAIR_MSG_3 True S"
proof -
  have t: "EAPOL_PAIR_MSG_2 \<le> EAPOL_PAIR_MSG_3" "EAPOL_PAIR_MSG_3 \<le> EAPOL_PAIR_MSG_4" "EAPOL_PAIR_MSG_3 \<noteq> EAPOL_PAIR_MSG_4"
    by (simp_all add: msg_types)
  have "replay_ok EAPOL_PAIR_MSG_3 (ReplayCounter f) (R_Counter (Entry S i))"
    using larger_counter [OF X(6,2,7)] by (simp add: replay_ok_def)
  then obtain j where j: "PeerWpaMessageSanity clk (eapol_of Msg) EAPOL_PAIR_MSG_3 i S =
    (if c = [] \<or> EAPOL_PAIR_MSG_3 = EAPOL_PAIR_MSG_4 then Some (True, S)
     else (case clear_KeyData True EAPOL_PAIR_MSG_3 (PTK e0) (f\<lparr>KeyData := c @ j\<rparr>) of
             None \<Rightarrow> None | Some (d, n) \<Rightarrow> RTMPParseEapolKeyData clk d n 0 EAPOL_PAIR_MSG_3 True S))"
    by (rule sanity_hs [OF m3(1) t(1,2) rcv X(1-5)])
  have "KeyDescVer (KeyInfo f) = desc_version (WepStatus e0) (GroupKeyWepStatus m)" by (rule hs_message_version [OF m3(1)])
  with m3(3) have "clear_KeyData True EAPOL_PAIR_MSG_3 (PTK e0) (f\<lparr>KeyData := c @ j\<rparr>)
    = Some (filled 255 (padded (desc_version (WepStatus e0) (GroupKeyWepStatus m)) (msg3_data e' m)),
        length (padded (desc_version (WepStatus e0) (GroupKeyWepStatus m)) (msg3_data e' m)))"
    by (simp add: clears_def)
  with m3(2) t(3) show ?thesis unfolding j by simp
qed

lemma PeerPairMsg3Action_message4:
  assumes S: "sta_side S" and m3: "hs_message EAPOL_PAIR_MSG_3 e0 (GroupKeyWepStatus m) idx c0 f" "c0 \<noteq> []"
      "clears (desc_version (WepStatus e0) (GroupKeyWepStatus m)) (PTK e0) c0 f (msg3_data e' m)"
    and rcv: "received a (wire c0 f) Msg MsgLen"
  fixes clk
  defines "e1 \<equiv> Entry S BSSID_WCID"
  assumes f: "KeyNonce f = ANonce e1" "length (ReplayCounter f) = 8" "be_number (R_Counter e1) < be_number (ReplayCounter f)"
    and keys: "PTK e1 = PTK e0" "GroupCipher (StaCfg S) = GroupKeyWepStatus m"
    and m: "rsn_ie_ok (fst (mbss_rsnie e' m)) (snd (mbss_rsnie e' m))" "length (GTK m) = 32" "DefaultKeyId m < 4"
  obtains e h g S' where "e = e1\<lparr>R_Counter := ReplayCounter f\<rparr>" "hs_message EAPOL_PAIR_MSG_4 e (GroupCipher (StaCfg S)) 0 [] h"
    "PeerPairMsg3Action clk BSSID_WCID Msg MsgLen S = Some S'"
    "Entry S' BSSID_WCID = e\<lparr>WpaState := AS_PTKINITDONE, PairwiseKey := pairwise_key_of False (WepStatus e) (PTK e),
       PortSecured := True, PrivacyFilter := Ndis802_11PrivFilterAcceptAll\<rparr>"
    "StaCfg S' = (StaCfg S)\<lparr>sGTK := g, sDefaultKeyId := DefaultKeyId m, sPTK := PTK e, sPortSecured := True\<rparr>"
    "length g = 32" "take (gtk_length (GroupKeyWepStatus m)) g = take (gtk_length (GroupKeyWepStatus m)) (GTK m)"
    "SharedKey S' = (SharedKey S)[0 := (SharedKey S ! 0)[DefaultKeyId m := sta_group_key (GroupKeyWepStatus m) (GTK m)]]"
    "out S' = out S @ [RTMP_IndicateMediaState, sent e (CurrentAddress S) (wire [] h) True]"
proof -
  let ?i = BSSID_WCID and ?G = "GroupKeyWepStatus m" and ?k = "DefaultKeyId m"
  note s = S [unfolded sta_side_def Let_def, folded e1_def]
  have w: "is_WPA2 (AuthMode e1)" using s psk_modesD(2) by blast
  have len: "length (R_Counter e1) = 8" "length (PTK e0) = 64" using s keys by (simp_all add: entry_ok_def)
  have cipher: "?G = Ndis802_11Encryption2Enabled \<or> ?G = Ndis802_11Encryption3Enabled"
    using s keys(2) by (auto simp: psk_modes_def)
  obtain g M where g: "RTMPParseEapolKeyData clk (filled 255 (padded (desc_version (WepStatus e0) ?G) (msg3_data e' m)))
      (length (padded (desc_version (WepStatus e0) ?G) (msg3_data e' m))) 0 EAPOL_PAIR_MSG_3 True S
      = Some (True, with_group_key ?k ?G (GTK m) g M S)"
    "length g = 32" "take (gtk_length ?G) g = take (gtk_length ?G) (GTK m)"
    by (rule parse_msg3 [OF m _ keys(2) _ _ _ _ cipher]) (use s in simp_all)
  let ?S1 = "with_group_key ?k ?G (GTK m) g M S"
  have ok: "PeerWpaMessageSanity clk (eapol_of Msg) EAPOL_PAIR_MSG_3 ?i S = Some (True, ?S1)"
    using s w len f(2,3) keys(1) g(1) by (subst sanity_message3 [OF m3 rcv]) (simp_all add: e1_def)
  define e where "e = e1\<lparr>R_Counter := ReplayCounter f\<rparr>"
  have e: "psk_modes e (GroupCipher (StaCfg S))" "entry_ok e" "EntryType e = ENTRY_CLIENT" "ANonce e = KeyNonce f"
    "is_WPA2 (AuthMode e)" "length (PTK e) = 64"
    using s f w by (auto simp: e_def psk_modes_def entry_ok_def)
  have t: "EAPOL_PAIR_MSG_1 \<le> EAPOL_PAIR_MSG_4" "\<not> EAPOL_PAIR_MSG_4 \<le> EAPOL_PAIR_MSG_3" "EAPOL_PAIR_MSG_4 \<noteq> EAPOL_PAIR_MSG_3"
    by (simp_all add: msg_types)
  obtain c h where h: "construct e (GroupCipher (StaCfg S)) EAPOL_PAIR_MSG_4 0 [] [] [] [] 0 = Some h"
    "hs_message EAPOL_PAIR_MSG_4 e (GroupCipher (StaCfg S)) (word_of_nat 0) c h"
    "c = key_data True EAPOL_PAIR_MSG_4 (GroupCipher (StaCfg S)) (word_of_nat 0) [] [] 0"
    by (rule psk_message [OF e(1,2) t(1) order_refl, of "[]" "[]" "[]" 0 "[]" 0]) (use t in simp_all)
  have c: "c = []" using h(3) by (simp add: key_data_none)
  obtain j where j: "EAPOL_PACKET (eapol_of Msg) = f\<lparr>KeyData := c0 @ j\<rparr>" by (rule received_message [OF m3(1) rcv])
  have "\<not> too_short MsgLen" by (rule received_long [OF rcv hs_messageD(1) [OF m3(1)]])
  then have go: "\<not> (\<not> is_client S ?i \<or> too_short MsgLen \<or> opmode S \<noteq> OPMODE_STA)" using s by (simp add: e1_def)
  let ?S2 = "upd_entry ?i (\<lambda>e. e\<lparr>R_Counter := ReplayCounter f\<rparr>) ?S1"
  have e2: "Entry ?S2 ?i = e" using s by (simp add: e_def e1_def)
  define S4 where "S4 = (upd_entry ?i (\<lambda>e. e\<lparr>WpaState := AS_PTKINITDONE\<rparr>) ?S2)\<lparr>StaCfg := (StaCfg ?S2)\<lparr>sPTK := PTK e\<rparr>\<rparr>"
  have e4: "Entry S4 ?i = e\<lparr>WpaState := AS_PTKINITDONE\<rparr>" "?i < length (Content S4)" using s e2 by (simp_all add: S4_def)
  obtain M' where inst: "WPAInstallPairwiseKey clk BSS0 ?i False S4
    = Some ((upd_entry ?i (\<lambda>e. e\<lparr>PairwiseKey := pairwise_key_of False (WepStatus (Entry S4 ?i)) (PTK (Entry S4 ?i))\<rparr>) S4)\<lparr>asic_mem := M'\<rparr>)"
    using e4 e(6) psk_modesD(3) [OF e(1)] by (auto elim!: WPAInstallPairwiseKey_installs)
  define k where "k = pairwise_key_of False (WepStatus e) (PTK e)"
  let ?S5 = "(upd_entry ?i (\<lambda>e. e\<lparr>PairwiseKey := k\<rparr>) S4)\<lparr>asic_mem := M'\<rparr>"
  have inst: "WPAInstallPairwiseKey clk BSS0 ?i False S4 = Some ?S5" using inst by (simp add: e4 k_def)
  define S6 where "S6 = STA_PORT_SECURED (open_port ?i ?S5)"
  have e6: "?i < length (Content S6)" "Entry S6 ?i = e\<lparr>WpaState := AS_PTKINITDONE, PairwiseKey := k,
       PortSecured := True, PrivacyFilter := Ndis802_11PrivFilterAcceptAll\<rparr>"
    using e4 by (simp_all add: S6_def STA_PORT_SECURED_def open_port_def Let_def upd_entry_def put_out_def)
  have s6: "StaCfg S6 = (StaCfg S)\<lparr>sGTK := g, sDefaultKeyId := ?k, sPTK := PTK e, sPortSecured := True\<rparr>"
    "SharedKey S6 = (SharedKey S)[0 := (SharedKey S ! 0)[?k := sta_group_key ?G (GTK m)]]"
    "out S6 = out S @ [RTMP_IndicateMediaState]" "CurrentAddress S6 = CurrentAddress S"
    by (simp_all add: S6_def STA_PORT_SECURED_def open_port_def Let_def upd_entry_def put_out_def S4_def)
  have s4: "(upd_entry ?i (\<lambda>e. e\<lparr>WpaState := AS_PTKINITDONE\<rparr>) ?S2)\<lparr>StaCfg := (StaCfg S)\<lparr>sGTK := g, sDefaultKeyId := ?k, sPTK := PTK e\<rparr>\<rparr> = S4"
    by (simp add: S4_def)
  have e5: "is_WPA2 (AuthMode (Entry (upd_entry ?i (\<lambda>e. e\<lparr>PairwiseKey := k\<rparr>) S4) ?i))" using e4 e(5) by simp
  have se: "sent (Entry S6 ?i) = sent e" by (simp add: e6 sent_def fun_eq_iff)
  have snd: "send_eapol ?i (CurrentAddress S) h True S6 = Some (put_out (sent e (CurrentAddress S) (wire [] h) True) S6)"
    using send_eapol_wire [OF hs_messageD(1) [OF h(2)], of S6 ?i] e6 e(3) c by (simp add: se [symmetric])
  have "PeerPairMsg3Action clk ?i Msg MsgLen S = Some (put_out (sent e (CurrentAddress S) (wire [] h) True) S6)"
    unfolding PeerPairMsg3Action_def if_not_P [OF go] Let_def j
    using h(1) s by (simp add: ok e2 e(4) s4 inst e5 s6(4) snd S6_def [symmetric])
  then show ?thesis using g e6 s6 h c by (intro that [where S' = "put_out (sent e (CurrentAddress S) (wire [] h) True) S6" and g = g, OF e_def]) (simp_all add: k_def)
qed

section \<open>The end at the access point\<close>

lemma PeerPairMsg4Action_done:
  assumes A: "ap_side A i" and st: "AS_PTKINIT_NEGOTIATING \<le> WpaState (Entry A i)"
    and m4: "hs_message EAPOL_PAIR_MSG_4 e0 cipher idx [] f" and rcv: "received a (wire [] f) Msg MsgLen"
    and f: "ReplayCounter f = R_Counter (Entry A i)" "PTK (Entry A i) = PTK e0"
  fixes clk
  defines "e \<equiv> Entry A i"
  obtains A' where "PeerPairMsg4Action clk i Msg MsgLen A = Some A'"
    "Entry A' i = e\<lparr>PairwiseKey := pairwise_key_of True (WepStatus e) (PTK e), PrivacyFilter := Ndis802_11PrivFilterAcceptAll,
       WpaState := AS_PTKINITDONE, PortSecured := True, GTKState := REKEY_ESTABLISHED, RetryTimer := RTMPCancelTimer (RetryTimer e)\<rparr>"
    "MBSSID A' = MBSSID A"
    "out A' = out A @ [RTMPSendWirelessEvent IW_SET_KEY_DONE_WPA2_EVENT_FLAG (Addr e) (apidx e)]"
proof -
  note a = A [unfolded ap_side_def Let_def, folded e_def]
  have psk: "psk_modes e (GroupKeyWepStatus (MBSSID A ! apidx e))" using a by blast
  have len: "length (R_Counter e) = 8" "length (PTK e) = 64" using a by (simp_all add: entry_ok_def)
  have t: "EAPOL_PAIR_MSG_2 \<le> EAPOL_PAIR_MSG_4" by (simp add: msg_types)
  have rep: "replay_ok EAPOL_PAIR_MSG_4 (ReplayCounter f) (R_Counter e)"
    using f(1) by (simp add: replay_ok_def msg_types e_def)
  obtain j where "PeerWpaMessageSanity clk (eapol_of Msg) EAPOL_PAIR_MSG_4 i A =
    (if ([] :: bytes) = [] \<or> EAPOL_PAIR_MSG_4 = EAPOL_PAIR_MSG_4 then Some (True, A)
     else (case clear_KeyData True EAPOL_PAIR_MSG_4 (PTK e0) (f\<lparr>KeyData := [] @ j\<rparr>) of
             None \<Rightarrow> None | Some (d, n) \<Rightarrow> RTMPParseEapolKeyData clk d n 0 EAPOL_PAIR_MSG_4 True A))"
    by (rule sanity_hs [OF m4 t order_refl rcv, of i A])
      (use a len rep f(2) psk_modesD(2) [OF psk] in \<open>simp_all add: e_def\<close>)
  then have ok: "PeerWpaMessageSanity clk (eapol_of Msg) EAPOL_PAIR_MSG_4 i A = Some (True, A)" by simp
  obtain M where "WPAInstallPairwiseKey clk (apidx (Entry A i)) i True A
    = Some ((upd_entry i (\<lambda>e. e\<lparr>PairwiseKey := pairwise_key_of True (WepStatus (Entry A i)) (PTK (Entry A i))\<rparr>) A)\<lparr>asic_mem := M\<rparr>)"
    by (rule WPAInstallPairwiseKey_installs [of i A]) (use a len psk_modesD(3) [OF psk] in \<open>simp_all add: e_def\<close>)
  then have inst: "WPAInstallPairwiseKey clk (apidx e) i True A
    = Some ((upd_entry i (\<lambda>e'. e'\<lparr>PairwiseKey := pairwise_key_of True (WepStatus e) (PTK e)\<rparr>) A)\<lparr>asic_mem := M\<rparr>)"
    by (simp add: e_def)
  have "\<not> too_short MsgLen" by (rule received_long [OF rcv hs_messageD(1) [OF m4]])
  then have go: "\<not> (\<not> is_client A i \<or> too_short MsgLen \<or> WpaState (Entry A i) < AS_PTKINIT_NEGOTIATING
         \<or> opmode A = OPMODE_AP \<and> apidx (Entry A i) \<ge> BssidNum A)"
    using a st by (simp add: e_def not_less not_le)
  have ee: "Entry A i = e" by (simp add: e_def)
  define A1 where "A1 = (upd_entry i (\<lambda>e'. e'\<lparr>PairwiseKey := pairwise_key_of True (WepStatus e) (PTK e)\<rparr>) A)\<lparr>asic_mem := M\<rparr>"
  define A2 where "A2 = upd_entry i (\<lambda>e. e\<lparr>GTKState := REKEY_ESTABLISHED, RetryTimer := RTMPCancelTimer (RetryTimer e)\<rparr>)
    (upd_entry i (\<lambda>e. e\<lparr>PrivacyFilter := Ndis802_11PrivFilterAcceptAll, WpaState := AS_PTKINITDONE, PortSecured := True\<rparr>) A1)"
  have e2: "Entry A2 i = e\<lparr>PairwiseKey := pairwise_key_of True (WepStatus e) (PTK e), PrivacyFilter := Ndis802_11PrivFilterAcceptAll,
       WpaState := AS_PTKINITDONE, PortSecured := True, GTKState := REKEY_ESTABLISHED, RetryTimer := RTMPCancelTimer (RetryTimer e)\<rparr>"
    "MBSSID A2 = MBSSID A" "out A2 = out A"
    using a by (simp_all add: A2_def A1_def ee)
  have w: "is_WPA2 (AuthMode e)" "AuthMode e \<noteq> Ndis802_11AuthModeWPA2" using psk_modesD(1,2) [OF psk] by simp_all
  have cache: "cache_pmkid clk i A2 = Some A2" using w(2) by (simp add: cache_pmkid_def Let_def e2)
  have w1: "is_WPA2 (AuthMode (Entry (upd_entry i (\<lambda>e. e\<lparr>PrivacyFilter := Ndis802_11PrivFilterAcceptAll,
      WpaState := AS_PTKINITDONE, PortSecured := True\<rparr>) A1) i))"
    using a w by (simp add: A1_def ee)
  have "PeerPairMsg4Action clk i Msg MsgLen A
      = Some (put_out (RTMPSendWirelessEvent IW_SET_KEY_DONE_WPA2_EVENT_FLAG (Addr e) (apidx e)) A2)"
    unfolding PeerPairMsg4Action_def if_not_P [OF go] Let_def ok
    using w1 by (simp add: ee inst A1_def [symmetric] A2_def [symmetric] cache e2)
  then show ?thesis using e2 by (intro that [where A' = "put_out (RTMPSendWirelessEvent IW_SET_KEY_DONE_WPA2_EVENT_FLAG (Addr e) (apidx e)) A2"]) simp_all
qed

end
