(* ===== verification/Wpa_Examples.thy ===== *)
theory Wpa_Examples
  imports Wpa_Handshake
begin

text \<open>
  Adapters for the witnesses: an access point and a station that know each other, and an access point
  with an empty table of stations.
\<close>

text \<open>An access point \<open>02:00:00:00:00:04\<close> and a station \<open>02:00:00:00:00:01\<close> that use AES.\<close>

definition ex_timer :: ralink_timer where
  "ex_timer = \<lparr>Valid = True, tState = False, PeriodicType = False, Repeat = False, TimerValue = 0, pending = False\<rparr>"

definition ex_entry :: "bytes \<Rightarrow> AP_WPA_STATE \<Rightarrow> wpa_entry" where
  "ex_entry addr st = \<lparr>EntryType = ENTRY_CLIENT, EnqueueEapolStartTimerRunning = EAPOL_START_DISABLE, EnqueueStartForPSKTimer = ex_timer,
     CMTimerRunning = False, apidx = 0, ANonce = replicate 32 0, SNonce = replicate 32 0, R_Counter = replicate 8 0,
     PTK = replicate 64 0, ReTryCounter = 0, RetryTimer = ex_timer, AuthMode = Ndis802_11AuthModeWPA2PSK,
     WepStatus = Ndis802_11Encryption3Enabled, WpaState = st, GTKState = REKEY_NEGOTIATING, PortSecured = False,
     PrivacyFilter = Ndis802_11PrivFilter8021xWEP, PairwiseKey = zero_cipher_key, PMKID_CacheIdx = 255, Addr = addr,
     Sst = SST_ASSOC, Aid = 1, pNext = None\<rparr>"

definition ex_rsn_ie :: bytes where
  "ex_rsn_ie = [1, 0, 0, 0x0f, 0xac, 4, 1, 0, 0, 0x0f, 0xac, 4, 1, 0, 0, 0x0f, 0xac, 2, 0, 0]"

definition ex_mbss :: mbss where
  "ex_mbss = \<lparr>Bssid = [2, 0, 0, 0, 0, 4], GMK = replicate 32 7, PMK = replicate 32 5, GTK = replicate 32 9, GNonce = replicate 32 0,
     GroupKeyWepStatus = Ndis802_11Encryption3Enabled, DefaultKeyId = 1, mAuthMode = Ndis802_11AuthModeWPA2PSK,
     mWepStatus = Ndis802_11Encryption3Enabled, WpaMixPairCipher = 0, RSN_IE = [ex_rsn_ie, []], RSNIE_Len = [20, 0], RekeyCountDown = 0, REKEYCOUNTER = 0, ReKeyMethod = 0, ReKeyInterval = 0,
     REKEYTimer = ex_timer, REKEYTimerRunning = False, StaCount = 1, MaxStaNum = 0, PMKIDCache = [], PMKCachePeriod = 0,
     PreAuth = False, IEEE8021X = False, mPortSecured = False, Hostapd = False\<rparr>"

definition ex_cfg :: sta_cfg where
  "ex_cfg = \<lparr>sPMK = replicate 32 5, sPTK = replicate 64 0, sGTK = replicate 32 0, sDefaultKeyId = 0,
     GroupCipher = Ndis802_11Encryption3Enabled, sAuthMode = Ndis802_11AuthModeWPA2PSK, sWepStatus = Ndis802_11Encryption3Enabled,
     bMixCipher = False, WpaSupplicantUP = False, BssInfra = True, sRSN_IE = ex_rsn_ie, sRSNIE_Len = 20, sPortSecured = False\<rparr>"

definition ex_adapter :: "OPMODE \<Rightarrow> bytes \<Rightarrow> wpa_entry \<Rightarrow> nat \<Rightarrow> wpa_adapter" where
  "ex_adapter mode addr e n = \<lparr>opmode = mode, closing = False, halted = False, CurrentAddress = addr, CommonBssid = replicate 6 0, StaCfg = ex_cfg,
     MBSSID = [ex_mbss], BssidNum = 1, BcnMaxNum = 8, WcidHwRsvNum = 255,
     SharedKey = [replicate 4 zero_cipher_key], ShiftReg = 0, asic_mem = (\<lambda>_. 0), Content = (replicate MAX_NUMBER_OF_MAC zero_entry)[1 := e],
     Hash = (replicate 256 None)[n := Some 1], MacTabSize = 1, EntryClientCount = 1, LinkDownTimer = ex_timer, apCMTimerRunning = False, CounterMeasureTimer = ex_timer,
     MICFailureCounter = 0, BANClass3Data = False, out = []\<rparr>"

definition ex_ap :: wpa_adapter where
  "ex_ap = ex_adapter OPMODE_AP [2, 0, 0, 0, 0, 4] (ex_entry [2, 0, 0, 0, 0, 1] AS_INITPSK) 3"

definition ex_sta :: wpa_adapter where
  "ex_sta = ex_adapter OPMODE_STA [2, 0, 0, 0, 0, 1] (ex_entry [2, 0, 0, 0, 0, 4] AS_INITPSK) 6"

definition ex_header :: "nat \<Rightarrow> bytes" where
  "ex_header n = replicate 10 0 @ (if odd n then [2, 0, 0, 0, 0, 4] else [2, 0, 0, 0, 0, 1]) @ replicate 16 0"

lemma be_number_zeros: "be_number (replicate n 0) = 0"
  by (induction n) (simp_all add: be_number_Cons, simp add: be_number_def)

lemmas ex_defs = MAX_NUMBER_OF_MAC_def ex_adapter_def ex_cfg_def ex_mbss_def ex_rsn_ie_def ex_entry_def

end
