(* ===== verification/Mac_Table.thy ===== *)
theory Mac_Table
  imports Wpa_Examples
begin

text \<open>
  The table of stations, \<open>rt5572/common/cmm_data.c\<close>: an array of 32 entries, of which the live ones are
  linked in 256 chains by a hash of their address. Insertion takes the first free entry and links it
  at the end of its chain; removal unlinks it and marks it free. The properties: in every state that
  the operations reach, each chain ends and holds exactly the live entries with its hash, and the table
  is a map from addresses to indices. Entries of links other than a network's stations (\<open>apidx\<close> from
  16 on) are not modelled. \<open>None\<close> is an access outside an array or a walk that does not end.
\<close>

section \<open>Operations\<close>

definition HW_BEACON_MAX_NUM :: nat where "HW_BEACON_MAX_NUM = 16"

definition MBSS_MR_APIDX_SANITY_CHECK :: "wpa_adapter \<Rightarrow> nat \<Rightarrow> nat" where
  "MBSS_MR_APIDX_SANITY_CHECK A n = (if n \<ge> BcnMaxNum A \<or> n \<ge> HW_BEACON_MAX_NUM then 0 else n)"

text \<open>The fields of a new entry; \<open>n\<close> is the checked index of its network.\<close>

definition new_entry :: "wpa_adapter \<Rightarrow> bytes \<Rightarrow> nat \<Rightarrow> nat \<Rightarrow> nat \<Rightarrow> wpa_entry" where
  "new_entry A pAddr idx n i =
     (let e = zero_entry\<lparr>EntryType := ENTRY_CLIENT, EnqueueStartForPSKTimer := RTMPInitTimer False zero_timer,
                RetryTimer := (if opmode A = OPMODE_AP then RTMPInitTimer False zero_timer else zero_timer),
                CMTimerRunning := False, EnqueueEapolStartTimerRunning := EAPOL_START_DISABLE, R_Counter := replicate 8 0,
                ReTryCounter := PEER_MSG1_RETRY_TIMER_CTR, apidx := idx\<rparr>;
          m = MBSSID A ! n;
          e = (if opmode A = OPMODE_AP
               then e\<lparr>AuthMode := mAuthMode m, WepStatus := mWepStatus m,
                      WpaState := (if mAuthMode m < Ndis802_11AuthModeWPA then AS_NOTUSE else AS_INITIALIZE),
                      PrivacyFilter := Ndis802_11PrivFilterAcceptAll\<rparr>
               else e\<lparr>AuthMode := sAuthMode (StaCfg A), WepStatus := sWepStatus (StaCfg A),
                      PrivacyFilter := Ndis802_11PrivFilterAcceptAll\<rparr>)
      in e\<lparr>GTKState := REKEY_NEGOTIATING, PairwiseKey := (PairwiseKey e)\<lparr>KeyLen := 0, CipherAlg := CIPHER_NONE\<rparr>,
           PortSecured := False, PMKID_CacheIdx := 0xFF, Addr := pAddr, Sst := SST_NOT_AUTH, Aid := i\<rparr>)"

text \<open>The first free entry from \<open>FirstWcid\<close> on.\<close>

definition find_free :: "wpa_entry list \<Rightarrow> nat \<Rightarrow> nat option" where
  "find_free T FirstWcid = List.find (\<lambda>i. EntryType (T ! i) = ENTRY_NONE) [FirstWcid..<MAX_NUMBER_OF_MAC]"

text \<open>The last entry of a chain, and the link of a new one.\<close>

partial_function (option) chain_last :: "wpa_entry list \<Rightarrow> nat \<Rightarrow> nat option" where
  "chain_last T j =
     (if j \<ge> length T then None
      else case pNext (T ! j) of None \<Rightarrow> Some j | Some k \<Rightarrow> chain_last T k)"

definition link_entry :: "nat \<Rightarrow> nat \<Rightarrow> wpa_adapter \<Rightarrow> wpa_adapter option" where
  "link_entry h i A =
     (case Hash A ! h of
        None \<Rightarrow> Some (A\<lparr>Hash := (Hash A)[h := Some i]\<rparr>)
      | Some j \<Rightarrow> map_option (\<lambda>l. upd_entry l (\<lambda>e. e\<lparr>pNext := Some i\<rparr>) A) (chain_last (Content A) j))"

definition MacTableInsertEntry :: "wpa_adapter \<Rightarrow> bytes \<Rightarrow> nat \<Rightarrow> (nat option \<times> wpa_adapter) option" where
  "MacTableInsertEntry A pAddr idx =
     (if length pAddr \<noteq> 6 \<or> length (Hash A) \<noteq> 256 \<or> length (Content A) \<noteq> MAX_NUMBER_OF_MAC then None
      else if MacTabSize A \<ge> MAX_NUMBER_OF_MAC then Some (None, A)
      else (case find_free (Content A) (if opmode A = OPMODE_STA \<and> BssInfra (StaCfg A) then 2 else 1) of
              None \<Rightarrow> Some (None, A)
            | Some i \<Rightarrow>
                let m = MBSSID A ! idx; n = MBSS_MR_APIDX_SANITY_CHECK A idx in
                if opmode A = OPMODE_AP \<and> idx < BssidNum A \<and> idx < BcnMaxNum A \<and> idx < HW_BEACON_MAX_NUM
                   \<and> MaxStaNum m \<noteq> 0 \<and> StaCount m \<ge> MaxStaNum m
                then Some (None, upd_entry i (\<lambda>_. zero_entry) A)
                else if opmode A = OPMODE_AP \<and> n \<ge> length (MBSSID A) then None
                else
                  let e = new_entry A pAddr idx n i;
                      A = upd_entry i (\<lambda>_. e) A;
                      A = (if opmode A = OPMODE_AP
                           then (upd_mbss n (\<lambda>m. m\<lparr>StaCount := (StaCount m + 1) mod 256\<rparr>) A)
                                  \<lparr>EntryClientCount := (EntryClientCount A + 1) mod 256\<rparr>
                           else A);
                      A = A\<lparr>MacTabSize := MacTabSize A + 1\<rparr>;
                      A = put_out (RTMP_STA_ENTRY_ADD i pAddr) (put_out (RTMP_REMOVE_PAIRWISE_KEY_ENTRY i) A)
                  in map_option (Pair (Some i)) (link_entry (MAC_ADDR_HASH_INDEX pAddr) i A)))"

text \<open>The entry before \<open>i\<close> in a chain, if it has one, when \<open>i\<close> is in the chain.\<close>

partial_function (option) find_prev ::
  "wpa_entry list \<Rightarrow> nat \<Rightarrow> nat option \<Rightarrow> nat \<Rightarrow> nat option option option" where
  "find_prev T i prev cur =
     (if cur = i then Some (Some prev)
      else if cur \<ge> length T then None
      else case pNext (T ! cur) of None \<Rightarrow> Some None | Some k \<Rightarrow> find_prev T i (Some cur) k)"

definition unlink_entry :: "nat \<Rightarrow> nat \<Rightarrow> wpa_adapter \<Rightarrow> wpa_adapter option" where
  "unlink_entry h i A =
     (case Hash A ! h of
        None \<Rightarrow> Some A
      | Some j \<Rightarrow>
          map_option (\<lambda>r. case r of
              None \<Rightarrow> A
            | Some None \<Rightarrow> A\<lparr>Hash := (Hash A)[h := pNext (Entry A i)]\<rparr>
            | Some (Some p) \<Rightarrow> upd_entry p (\<lambda>e. e\<lparr>pNext := pNext (Entry A i)\<rparr>) A)
            (find_prev (Content A) i None j))"

definition RTMPReleaseTimer :: "ralink_timer \<Rightarrow> ralink_timer" where
  "RTMPReleaseTimer t =
     (if Valid t then (RTMPCancelTimer t)\<lparr>Valid := False\<rparr> else t)"

text \<open>What the access point keeps of a station: the 802.1X daemon, the cache of master keys, the counters.\<close>

definition forget_client :: "nat \<Rightarrow> wpa_adapter \<Rightarrow> wpa_adapter option" where
  "forget_client i A =
     (let e = Entry A i; n = apidx e; m = MBSSID A ! n in
      if n \<ge> length (MBSSID A) then None
      else
        let A = (if AuthMode e = Ndis802_11AuthModeWPA \<or> AuthMode e = Ndis802_11AuthModeWPA2 \<or> IEEE8021X m
                 then put_out (DOT1X_InternalCmdAction (Addr e)) A else A);
            c = (case RTMPSearchPMKIDCache (PMKIDCache m) (Addr e) of
                   None \<Rightarrow> PMKIDCache m | Some k \<Rightarrow> RTMPDeletePMKIDCache k (PMKIDCache m));
            A = (upd_mbss n (\<lambda>m. m\<lparr>PMKIDCache := c, StaCount := (StaCount m + 255) mod 256\<rparr>) A)
                  \<lparr>EntryClientCount := (EntryClientCount A + 255) mod 256\<rparr>
        in Some (if Hostapd m then put_out (RtmpOSWrielessEventSendExt (Addr e) n) A else A))"

definition MacTableDeleteEntry :: "wpa_adapter \<Rightarrow> nat \<Rightarrow> bytes \<Rightarrow> (bool \<times> wpa_adapter) option" where
  "MacTableDeleteEntry A wcid pAddr =
     (if wcid \<ge> MAX_NUMBER_OF_MAC then Some (False, A)
      else if length pAddr \<noteq> 6 \<or> length (Hash A) \<noteq> 256 \<or> length (Content A) \<noteq> MAX_NUMBER_OF_MAC then None
      else do {
        A \<leftarrow> (if EntryType (Entry A wcid) = ENTRY_NONE then Some A
             else do {
               let A = upd_entry wcid (\<lambda>e. e\<lparr>RetryTimer := RTMPCancelTimer (RetryTimer e),
                         EnqueueStartForPSKTimer := RTMPCancelTimer (EnqueueStartForPSKTimer e)\<rparr>) A;
               if Addr (Entry A wcid) \<noteq> pAddr then Some A
               else do {
                 let A = put_out (RTMP_STA_ENTRY_MAC_RESET wcid) (put_out (BASessionTearDownALL (Aid (Entry A wcid))) A);
                 A \<leftarrow> (if is_client A wcid
                      then forget_client wcid (upd_entry wcid (\<lambda>e. e\<lparr>RetryTimer := RTMPReleaseTimer (RetryTimer e)\<rparr>) A)
                      else Some A);
                 A \<leftarrow> unlink_entry (MAC_ADDR_HASH_INDEX pAddr) wcid A;
                 Some ((upd_entry wcid (\<lambda>e. e\<lparr>EnqueueStartForPSKTimer := RTMPReleaseTimer (EnqueueStartForPSKTimer e),
                          EnqueueEapolStartTimerRunning := EAPOL_START_DISABLE,
                          Addr := replicate 6 0, EntryType := ENTRY_NONE\<rparr>) A)\<lparr>MacTabSize := MacTabSize A - 1\<rparr>)
               }
             });
        let A = (if MacTabSize A = 0 then put_out RTMP_UPDATE_PROTECT A else A);
        Some (True, put_out RTMP_AP_UPDATE_CAPABILITY_AND_ERPIE A)
      })"


definition IW_DEAUTH_EVENT_FLAG :: nat where "IW_DEAUTH_EVENT_FLAG = 0x0202"
definition REASON_NO_LONGER_VALID :: nat where "REASON_NO_LONGER_VALID = 2"

text \<open>A deauthentication frame for a station, and its removal.\<close>

definition MlmeDeAuthAction :: "nat \<Rightarrow> nat \<Rightarrow> wpa_adapter \<Rightarrow> wpa_adapter option" where
  "MlmeDeAuthAction i Reason A =
     (let e = Entry A i in
      if i \<ge> length (Content A) \<or> opmode A = OPMODE_AP \<and> apidx e \<ge> length (MBSSID A) then None
      else
        let A = put_out (RTMPSendWirelessEvent IW_DEAUTH_EVENT_FLAG (Addr e) (apidx e)) A;
            src = (if opmode A = OPMODE_AP then Bssid (MBSSID A ! apidx e) else CommonBssid A);
            A = put_out (MiniportMMRequest_DeAuth (Addr e) src Reason) A
        in map_option snd (MacTableDeleteEntry A (Aid e) (Addr e)))"

definition reset_entry :: "wpa_adapter \<Rightarrow> nat \<Rightarrow> wpa_adapter option" where
  "reset_entry A i =
     (if i \<ge> length (Content A) then None
      else if is_client A i then do {
        let A = upd_entry i (\<lambda>e. e\<lparr>EnqueueStartForPSKTimer := RTMPReleaseTimer (EnqueueStartForPSKTimer e),
                  EnqueueEapolStartTimerRunning := EAPOL_START_DISABLE\<rparr>) A;
        let e = Entry A i;
        A \<leftarrow> (if opmode A = OPMODE_AP \<and> Sst e = SST_ASSOC
             then if apidx e \<ge> length (MBSSID A) then None
                  else Some (put_out (MiniportMMRequest_DeAuth (Addr e) (Bssid (MBSSID A ! apidx e)) REASON_NO_LONGER_VALID) A)
             else Some A);
        map_option snd (MacTableDeleteEntry A i (Addr (Entry A i)))
      }
      else map_option snd (MacTableDeleteEntry A i (Addr (Entry A i))))"

definition MacTableReset :: "wpa_adapter \<Rightarrow> wpa_adapter option" where
  "MacTableReset A = do {
     A \<leftarrow> feed reset_entry A [1..<MAX_NUMBER_OF_MAC];
     if opmode A = OPMODE_AP then
       if BssidNum A > length (MBSSID A) then None
       else Some (A\<lparr>MBSSID := map (\<lambda>m. m\<lparr>StaCount := 0\<rparr>) (take (BssidNum A) (MBSSID A)) @ drop (BssidNum A) (MBSSID A),
                    MacTabSize := 0\<rparr>)
     else Some A
   }"

section \<open>Chains\<close>

fun chain :: "wpa_entry list \<Rightarrow> nat option \<Rightarrow> nat list \<Rightarrow> bool" where
  "chain T p [] \<longleftrightarrow> p = None"
| "chain T p (i # cs) \<longleftrightarrow> p = Some i \<and> i < length T \<and> chain T (pNext (T ! i)) cs"

definition live :: "wpa_entry list \<Rightarrow> nat \<Rightarrow> bool" where
  "live T i \<longleftrightarrow> i < length T \<and> EntryType (T ! i) \<noteq> ENTRY_NONE"

lemma chain_cong:
  "chain T p cs \<Longrightarrow> length T' = length T \<Longrightarrow> (\<And>i. i \<in> set cs \<Longrightarrow> pNext (T' ! i) = pNext (T ! i)) \<Longrightarrow> chain T' p cs"
  by (induction T p cs rule: chain.induct) auto

lemma lookup_walk_chain:
  "chain T p cs \<Longrightarrow> \<forall>i\<in>set cs. EntryType (T ! i) \<noteq> ENTRY_NONE \<Longrightarrow>
    lookup_walk T a p = Some (List.find (\<lambda>i. Addr (T ! i) = a) cs)"
  by (induction T p cs rule: chain.induct) (auto simp: lookup_walk.simps)

lemma chain_last_chain: "chain T (Some j) cs \<Longrightarrow> chain_last T j = Some (last cs)"
proof (induction cs arbitrary: j)
  case (Cons i cs)
  then show ?case by (cases cs) (auto simp: chain_last.simps)
qed simp

lemma find_prev_chain:
  "chain T (Some j) (xs @ i # ys) \<Longrightarrow> i \<notin> set xs \<Longrightarrow>
    find_prev T i prev j = Some (Some (if xs = [] then prev else Some (last xs)))"
proof (induction xs arbitrary: j prev)
  case Nil
  then show ?case by (simp add: find_prev.simps)
next
  case (Cons x xs)
  obtain k where k: "pNext (T ! x) = Some k" "chain T (Some k) (xs @ i # ys)"
    using Cons.prems by (cases xs) auto
  have "find_prev T i (Some x) k = Some (Some (if xs = [] then Some x else Some (last xs)))"
    using Cons.IH [OF k(2), of "Some x"] Cons.prems by simp
  with Cons.prems k(1) show ?case by (auto simp: find_prev.simps)
qed

lemma chain_snoc:
  assumes "chain T p cs" "cs \<noteq> []" "distinct cs" "i \<notin> set cs" "i < length T" "pNext (T ! i) = None"
    and "length T' = length T" "\<And>j. j < length T \<Longrightarrow> pNext (T' ! j) = (if j = last cs then Some i else pNext (T ! j))"
  shows "chain T' p (cs @ [i])"
  using assms
proof (induction T p cs rule: chain.induct)
  case (2 T p x cs)
  show ?case
  proof (cases "cs = []")
    case True
    with 2 show ?thesis by auto
  next
    case False
    then have "x \<noteq> last cs" using 2(4) by auto
    moreover have "chain T' (pNext (T ! x)) (cs @ [i])" by (rule 2(1)) (use 2 False in auto)
    ultimately show ?thesis using 2 False by auto
  qed
qed simp

lemma chain_delete:
  assumes "chain T p (xs @ i # ys)" "distinct (xs @ i # ys)" "xs \<noteq> []"
    and "length T' = length T" "\<And>j. j \<in> set (xs @ ys) \<Longrightarrow> pNext (T' ! j) = (if j = last xs then pNext (T ! i) else pNext (T ! j))"
  shows "chain T' p (xs @ ys)"
  using assms
proof (induction T p xs rule: chain.induct)
  case (2 T p x xs)
  show ?case
  proof (cases "xs = []")
    case True
    have "chain T' (pNext (T ! i)) ys" by (rule chain_cong [of T]) (use 2 True in auto)
    with 2 True show ?thesis by auto
  next
    case False
    then have "x \<noteq> last xs" using 2(3) by auto
    moreover have "chain T' (pNext (T ! x)) (xs @ ys)" by (rule 2(1)) (use 2 False in auto)
    ultimately show ?thesis using 2 False by auto
  qed
qed simp


text \<open>The entries of \<open>S\<close> are linked: each chain holds those with its hash.\<close>

definition linked :: "wpa_entry list \<Rightarrow> nat option list \<Rightarrow> (nat \<Rightarrow> nat list) \<Rightarrow> nat set \<Rightarrow> bool" where
  "linked T H cs S \<longleftrightarrow> (\<forall>h<256. chain T (H ! h) (cs h) \<and> distinct (cs h)
     \<and> set (cs h) = {i \<in> S. MAC_ADDR_HASH_INDEX (Addr (T ! i)) = h})"

lemma linkedD:
  assumes "linked T H cs S" "h < 256"
  shows "chain T (H ! h) (cs h)" "distinct (cs h)" "set (cs h) = {i \<in> S. MAC_ADDR_HASH_INDEX (Addr (T ! i)) = h}"
  using assms by (auto simp: linked_def)

lemma hash_less: "MAC_ADDR_HASH_INDEX a < 256"
  by (simp add: MAC_ADDR_HASH_INDEX_def unat_u8)

lemma linked_cong:
  assumes "linked T H cs S" "length T' = length T"
    and "\<And>i. i \<in> S \<Longrightarrow> pNext (T' ! i) = pNext (T ! i) \<and> Addr (T' ! i) = Addr (T ! i)"
  shows "linked T' H cs S"
  unfolding linked_def
proof (intro allI impI)
  fix h :: nat assume h: "h < 256"
  note l = linkedD [OF assms(1) h]
  have "chain T' (H ! h) (cs h)" by (rule chain_cong [OF l(1) assms(2)]) (use l(3) assms(3) in auto)
  with l assms(3) show "chain T' (H ! h) (cs h) \<and> distinct (cs h) \<and> set (cs h) = {i \<in> S. MAC_ADDR_HASH_INDEX (Addr (T' ! i)) = h}"
    by auto
qed

definition ids :: "wpa_entry list \<Rightarrow> (ENTRY_TYPE \<times> bytes \<times> nat \<times> nat) list" where
  "ids T = map (\<lambda>e. (EntryType e, Addr e, Aid e, apidx e)) T"

lemma ids_nth:
  assumes "ids T' = ids T"
  shows "length T' = length T" "live T' j = live T j" "j < length T \<Longrightarrow> Addr (T' ! j) = Addr (T ! j)"
    "j < length T \<Longrightarrow> EntryType (T' ! j) = EntryType (T ! j)" "j < length T \<Longrightarrow> Aid (T' ! j) = Aid (T ! j)"
    "j < length T \<Longrightarrow> apidx (T' ! j) = apidx (T ! j)"
proof -
  show l: "length T' = length T" using arg_cong [OF assms, of length] by (simp add: ids_def)
  show a: "Addr (T' ! j) = Addr (T ! j)" "EntryType (T' ! j) = EntryType (T ! j)" "Aid (T' ! j) = Aid (T ! j)"
    "apidx (T' ! j) = apidx (T ! j)" if "j < length T"
    using arg_cong [OF assms, of "\<lambda>x. x ! j"] that l by (simp_all add: ids_def)
  show "live T' j = live T j" using a l by (auto simp: live_def)
qed

lemma ids_update:
  "EntryType e = EntryType (T ! i) \<Longrightarrow> Addr e = Addr (T ! i) \<Longrightarrow> Aid e = Aid (T ! i) \<Longrightarrow> apidx e = apidx (T ! i) \<Longrightarrow> ids (T[i := e]) = ids T"
  by (cases "i < length T") (simp_all add: ids_def map_update list_update_same_conv list_update_beyond)

lemma linked_link:
  fixes A :: wpa_adapter
  defines "T \<equiv> Content A" and "H \<equiv> Hash A"
  assumes l: "linked T H cs S" and i: "i \<notin> S" "i < length T" "pNext (T ! i) = None" and S: "S \<subseteq> {..<length T}" and H: "length H = 256"
  obtains T' H' cs' where "link_entry (MAC_ADDR_HASH_INDEX (Addr (T ! i))) i A = Some (A\<lparr>Content := T', Hash := H'\<rparr>)"
    "ids T' = ids T" "length H' = 256" "linked T' H' cs' (insert i S)"
proof -
  let ?h = "MAC_ADDR_HASH_INDEX (Addr (T ! i))"
  note c = linkedD [OF l hash_less [of "Addr (T ! i)"]]
  show ?thesis
  proof (cases "H ! ?h")
    case None
    then have e: "cs ?h = []" using c(1) by (cases "cs ?h") auto
    have "linked T (H[?h := Some i]) (cs(?h := [i])) (insert i S)"
      using l i(2,3) c(3) e H by (auto simp: linked_def nth_list_update)
    then show ?thesis using None H by (intro that [where T' = T and H' = "H[?h := Some i]"]) (simp_all add: link_entry_def T_def H_def)
  next
    case (Some j)
    then have ne: "cs ?h \<noteq> []" using c(1) by (cases "cs ?h") auto
    define k where "k = last (cs ?h)"
    have "k \<in> set (cs ?h)" using ne by (simp add: k_def)
    then have k: "k \<in> set (cs ?h)" "k \<in> S" "k < length T" "k \<noteq> i" using c(3) i(1) S by auto
    let ?T = "T[k := (T ! k)\<lparr>pNext := Some i\<rparr>]"
    have n: "pNext (?T ! m) = (if m = k then Some i else pNext (T ! m))" if "m < length T" for m using that by (simp add: nth_list_update)
    have a: "Addr (?T ! m) = Addr (T ! m)" for m using k(3) by (cases "m = k") simp_all
    have "linked ?T H (cs(?h := cs ?h @ [i])) (insert i S)"
      unfolding linked_def
    proof (intro allI impI)
      fix h :: nat assume h: "h < 256"
      note d = linkedD [OF l h]
      show "chain ?T (H ! h) ((cs(?h := cs ?h @ [i])) h) \<and> distinct ((cs(?h := cs ?h @ [i])) h)
        \<and> set ((cs(?h := cs ?h @ [i])) h) = {m \<in> insert i S. MAC_ADDR_HASH_INDEX (Addr (?T ! m)) = h}"
      proof (cases "h = ?h")
        case True
        have "i \<notin> set (cs ?h)" using c(3) i(1) by auto
        then have "chain ?T (H ! ?h) (cs ?h @ [i])"
          by (intro chain_snoc [OF c(1) ne c(2) _ i(2,3)]) (use n k_def in auto)
        with True c(2,3) \<open>i \<notin> set (cs ?h)\<close> show ?thesis by (auto simp: a)
      next
        case False
        then have "k \<notin> set (cs h)" using d(3) c(3) k(1) by auto
        moreover have "set (cs h) \<subseteq> {..<length T}" using d(3) S by auto
        ultimately have "chain ?T (H ! h) (cs h)" by (intro chain_cong [OF d(1)]) (auto simp: n)
        with False d(2,3) show ?thesis by (auto simp: a)
      qed
    qed
    moreover have "link_entry ?h i A = Some (A\<lparr>Content := ?T, Hash := H\<rparr>)"
      using Some c(1) chain_last_chain [of T j "cs ?h"] by (simp add: link_entry_def T_def H_def k_def upd_entry_def)
    ultimately show ?thesis using H by (intro that [where T' = ?T and H' = H]) (simp_all add: ids_update)
  qed
qed

lemma linked_unlink:
  fixes A :: wpa_adapter
  defines "T \<equiv> Content A" and "H \<equiv> Hash A"
  assumes l: "linked T H cs S" and i: "i \<in> S" and S: "S \<subseteq> {..<length T}" and H: "length H = 256"
  obtains T' H' cs' where "unlink_entry (MAC_ADDR_HASH_INDEX (Addr (T ! i))) i A = Some (A\<lparr>Content := T', Hash := H'\<rparr>)"
    "ids T' = ids T" "length H' = 256" "linked T' H' cs' (S - {i})"
proof -
  let ?h = "MAC_ADDR_HASH_INDEX (Addr (T ! i))"
  note c = linkedD [OF l hash_less [of "Addr (T ! i)"]]
  have "i \<in> set (cs ?h)" using c(3) i by auto
  then obtain xs ys where cs: "cs ?h = xs @ i # ys" by (auto simp: in_set_conv_decomp)
  then obtain j where j: "H ! ?h = Some j" using c(1) by (cases xs) auto
  have p: "find_prev T i None j = Some (Some (if xs = [] then None else Some (last xs)))"
    by (rule find_prev_chain [of T j xs i ys None]) (use c cs j in auto)
  show ?thesis
  proof (cases "xs = []")
    case True
    have "linked T (H[?h := pNext (T ! i)]) (cs(?h := ys)) (S - {i})"
      unfolding linked_def
    proof (intro allI impI)
      fix h :: nat assume h: "h < 256"
      show "chain T (H[?h := pNext (T ! i)] ! h) ((cs(?h := ys)) h) \<and> distinct ((cs(?h := ys)) h)
        \<and> set ((cs(?h := ys)) h) = {m \<in> S - {i}. MAC_ADDR_HASH_INDEX (Addr (T ! m)) = h}"
        using c cs True linkedD [OF l h] H h by (cases "h = ?h") (auto simp: nth_list_update)
    qed
    then show ?thesis using j p True H
      by (intro that [where T' = T and H' = "H[?h := pNext (T ! i)]"]) (simp_all add: unlink_entry_def T_def H_def)
  next
    case False
    define k where "k = last xs"
    have k: "k \<in> set xs" "k \<in> set (cs ?h)" "k < length T" "k \<noteq> i" using False c(2,3) cs S by (auto simp: k_def)
    let ?T = "T[k := (T ! k)\<lparr>pNext := pNext (T ! i)\<rparr>]"
    have n: "pNext (?T ! m) = (if m = k then pNext (T ! i) else pNext (T ! m))" for m
      using k(3) by (cases "m = k") simp_all
    have a: "Addr (?T ! m) = Addr (T ! m)" for m using k(3) by (cases "m = k") simp_all
    have "linked ?T H (cs(?h := xs @ ys)) (S - {i})"
      unfolding linked_def
    proof (intro allI impI)
      fix h :: nat assume h: "h < 256"
      note d = linkedD [OF l h]
      show "chain ?T (H ! h) ((cs(?h := xs @ ys)) h) \<and> distinct ((cs(?h := xs @ ys)) h)
        \<and> set ((cs(?h := xs @ ys)) h) = {m \<in> S - {i}. MAC_ADDR_HASH_INDEX (Addr (?T ! m)) = h}"
      proof (cases "h = ?h")
        case True
        have "chain ?T (H ! ?h) (xs @ ys)"
          by (rule chain_delete [of T _ xs i ys]) (use c cs False n in \<open>auto simp: k_def\<close>)
        with True c(2,3) cs show ?thesis by (auto simp: a)
      next
        case False
        then have "k \<notin> set (cs h)" using d(3) c(3) k(2) by auto
        then have "chain ?T (H ! h) (cs h)" by (intro chain_cong [OF d(1)]) (auto simp: n)
        with False d(2,3) show ?thesis by (auto simp: a)
      qed
    qed
    moreover have "unlink_entry ?h i A = Some (A\<lparr>Content := ?T, Hash := H\<rparr>)"
      using j p False by (simp add: unlink_entry_def T_def H_def k_def upd_entry_def)
    ultimately show ?thesis using H by (intro that [where T' = ?T and H' = H]) (simp_all add: ids_update)
  qed
qed


section \<open>The table as a map\<close>

abbreviation live_set :: "wpa_adapter \<Rightarrow> nat set" where
  "live_set A \<equiv> {i. live (Content A) i}"

definition tab_ok :: "wpa_adapter \<Rightarrow> bool" where
  "tab_ok A \<longleftrightarrow> length (Content A) = MAX_NUMBER_OF_MAC \<and> length (Hash A) = 256
     \<and> (\<forall>i<MAX_NUMBER_OF_MAC. length (Addr (Entry A i)) = 6) \<and> inj_on (\<lambda>i. Addr (Entry A i)) (live_set A)
     \<and> MacTabSize A = card (live_set A) \<and> (\<exists>cs. linked (Content A) (Hash A) cs (live_set A))"

definition table_map :: "wpa_adapter \<Rightarrow> bytes \<Rightarrow> nat option" where
  "table_map A a = List.find (\<lambda>i. live (Content A) i \<and> Addr (Entry A i) = a) [0..<length (Content A)]"

lemma live_set_sub: "live_set A \<subseteq> {..<length (Content A)}"
  by (auto simp: live_def)

lemma finite_live: "finite (live_set A)"
  by (rule finite_subset [OF live_set_sub]) simp

lemma table_map_None: "table_map A a = None \<longleftrightarrow> (\<forall>i\<in>live_set A. Addr (Entry A i) \<noteq> a)"
  by (auto simp: table_map_def find_None_iff live_def)

lemma table_map_Some:
  assumes "inj_on (\<lambda>i. Addr (Entry A i)) (live_set A)"
  shows "table_map A a = Some i \<longleftrightarrow> i \<in> live_set A \<and> Addr (Entry A i) = a"
proof
  assume "table_map A a = Some i"
  then show "i \<in> live_set A \<and> Addr (Entry A i) = a" by (auto simp: table_map_def find_Some_iff)
next
  assume i: "i \<in> live_set A \<and> Addr (Entry A i) = a"
  then obtain j where j: "table_map A a = Some j" using table_map_None [of A a] by (cases "table_map A a") auto
  then have "j \<in> live_set A" "Addr (Entry A j) = a" by (auto simp: table_map_def find_Some_iff)
  with i assms have "j = i" by (auto simp: inj_on_def)
  with j show "table_map A a = Some i" by simp
qed

lemma find_unique:
  assumes "\<And>i. i \<in> set xs \<Longrightarrow> P i \<Longrightarrow> i = k" and "k \<in> set xs" "P k"
  shows "List.find P xs = Some k"
proof (cases "List.find P xs")
  case None
  with assms(2,3) show ?thesis by (auto simp: find_None_iff)
next
  case (Some j)
  then have "j \<in> set xs" "P j" by (auto simp: find_Some_iff)
  with Some assms(1) show ?thesis by simp
qed

lemma lookup_is_map:
  assumes A: "tab_ok A" and a: "length a = 6"
  shows "MacTableLookup A a = Some (table_map A a)"
proof -
  obtain cs where l: "linked (Content A) (Hash A) cs (live_set A)" using A by (auto simp: tab_ok_def)
  note c = linkedD [OF l hash_less [of a]]
  have inj: "inj_on (\<lambda>i. Addr (Entry A i)) (live_set A)" using A by (simp add: tab_ok_def)
  have "lookup_walk (Content A) a (Hash A ! MAC_ADDR_HASH_INDEX a)
      = Some (List.find (\<lambda>i. Addr (Entry A i) = a) (cs (MAC_ADDR_HASH_INDEX a)))"
    by (rule lookup_walk_chain [OF c(1)]) (use c(3) in \<open>auto simp: live_def\<close>)
  moreover have "List.find (\<lambda>i. Addr (Entry A i) = a) (cs (MAC_ADDR_HASH_INDEX a)) = table_map A a"
  proof (cases "table_map A a")
    case None
    then have "List.find (\<lambda>i. Addr (Entry A i) = a) (cs (MAC_ADDR_HASH_INDEX a)) = None"
      using c(3) by (auto simp: find_None_iff table_map_None)
    with None show ?thesis by simp
  next
    case (Some k)
    then have k: "k \<in> live_set A" "Addr (Entry A k) = a" using table_map_Some [OF inj] by auto
    have "List.find (\<lambda>i. Addr (Entry A i) = a) (cs (MAC_ADDR_HASH_INDEX a)) = Some k"
    proof (rule find_unique)
      show "k \<in> set (cs (MAC_ADDR_HASH_INDEX a))" using c(3) k by auto
      fix i assume "i \<in> set (cs (MAC_ADDR_HASH_INDEX a))" "Addr (Entry A i) = a"
      with c(3) k inj show "i = k" by (auto simp: inj_on_def)
    qed (rule k)
    with Some show ?thesis by simp
  qed
  ultimately show ?thesis using A a by (simp add: MacTableLookup_def tab_ok_def)
qed

text \<open>What keeps the keys of the entries and the chains keeps the table.\<close>

lemma tab_ok_cong:
  assumes "tab_ok A" "lookup_keys (Content B) = lookup_keys (Content A)" "Hash B = Hash A" "MacTabSize B = MacTabSize A"
  shows "tab_ok B" "table_map B = table_map A"
proof -
  note k = lookup_keys_nth [OF assms(2)]
  have live: "live (Content B) i = live (Content A) i" for i using k by (auto simp: live_def)
  have addr: "i \<in> live_set A \<Longrightarrow> Addr (Entry B i) = Addr (Entry A i)" for i using k(3) by (auto simp: live_def)
  obtain cs where "linked (Content A) (Hash A) cs (live_set A)" using assms(1) by (auto simp: tab_ok_def)
  then have "linked (Content B) (Hash A) cs (live_set A)" by (rule linked_cong) (use k in \<open>auto simp: live_def\<close>)
  moreover have "inj_on (\<lambda>i. Addr (Entry B i)) (live_set A)"
    using assms(1) addr by (auto simp: tab_ok_def inj_on_def)
  ultimately show "tab_ok B" using assms k by (auto simp: tab_ok_def live)
  have "live (Content A) i \<and> Addr (Entry B i) = a \<longleftrightarrow> live (Content A) i \<and> Addr (Entry A i) = a" for i a using addr by auto
  then show "table_map B = table_map A" by (auto simp: fun_eq_iff table_map_def live k(1))
qed

section \<open>Insertion and removal\<close>

lemma find_free_Some:
  assumes "find_free T k = Some i" "length T = MAX_NUMBER_OF_MAC"
  shows "i < length T" "\<not> live T i" "k \<le> i"
  using assms by (auto simp: find_free_def find_Some_iff live_def)

lemma new_entry_fields:
  "EntryType (new_entry A a idx n i) = ENTRY_CLIENT" "Addr (new_entry A a idx n i) = a" "pNext (new_entry A a idx n i) = None"
  "Aid (new_entry A a idx n i) = i" "apidx (new_entry A a idx n i) = idx" "Sst (new_entry A a idx n i) = SST_NOT_AUTH"
  "\<not> PortSecured (new_entry A a idx n i)"
  by (simp_all add: new_entry_def Let_def zero_entry_def)

text \<open>A table in which \<open>i\<close> becomes live with the address \<open>a\<close>.\<close>

lemma add_live:
  assumes A: "tab_ok A" and new: "table_map A a = None" "length a = 6" "i < length (Content A)" "\<not> live (Content A) i"
    and e: "EntryType e \<noteq> ENTRY_NONE" "Addr e = a" "pNext e = None"
    and B: "Content B = (Content A)[i := e]" "Hash B = Hash A" "MacTabSize B = MacTabSize A + 1"
  obtains T H where "link_entry (MAC_ADDR_HASH_INDEX a) i B = Some (B\<lparr>Content := T, Hash := H\<rparr>)"
    "tab_ok (B\<lparr>Content := T, Hash := H\<rparr>)" "table_map (B\<lparr>Content := T, Hash := H\<rparr>) = (table_map A)(a \<mapsto> i)"
    "ids T = ids (Content B)"
proof -
  have ok: "length (Content A) = MAX_NUMBER_OF_MAC" "length (Hash A) = 256" "\<And>j. j < MAX_NUMBER_OF_MAC \<Longrightarrow> length (Addr (Entry A j)) = 6"
    and inj: "inj_on (\<lambda>i. Addr (Entry A i)) (live_set A)" and size: "MacTabSize A = card (live_set A)"
    using A by (auto simp: tab_ok_def)
  obtain cs where "linked (Content A) (Hash A) cs (live_set A)" using A by (auto simp: tab_ok_def)
  then have l: "linked (Content B) (Hash B) cs (live_set A)"
    unfolding B
  proof (rule linked_cong)
    fix j assume "j \<in> live_set A"
    then have "j \<noteq> i" using new(4) by auto
    then show "pNext ((Content A)[i := e] ! j) = pNext (Entry A j) \<and> Addr ((Content A)[i := e] ! j) = Addr (Entry A j)" by simp
  qed simp
  have eB: "Entry B j = (if j = i then e else Entry A j)" if "j < length (Content A)" for j using that by (simp add: B nth_list_update)
  have "live (Content B) j \<longleftrightarrow> j = i \<or> live (Content A) j" for j
    using new(3) e(1) by (cases "j = i") (auto simp: live_def B)
  then have live: "live_set B = insert i (live_set A)" by auto
  obtain T H cs' where r: "link_entry (MAC_ADDR_HASH_INDEX (Addr (Entry B i))) i B = Some (B\<lparr>Content := T, Hash := H\<rparr>)"
      "ids T = ids (Content B)" "length H = 256" "linked T H cs' (insert i (live_set A))"
    by (rule linked_link [OF l]) (use new e ok live_set_sub [of A] in \<open>auto simp: B\<close>)
  let ?C = "B\<lparr>Content := T, Hash := H\<rparr>"
  have liveC: "live_set ?C = insert i (live_set A)" using ids_nth(2) [OF r(2)] live by simp
  have addr: "Addr (T ! j) = (if j = i then a else Addr (Entry A j))" if "j < length (Content A)" for j
    using ids_nth(3) [OF r(2), of j] that eB [OF that] e(2) by (simp add: B)
  have lenT: "length T = length (Content A)" using ids_nth(1) [OF r(2)] by (simp add: B)
  have other: "j \<in> live_set A \<Longrightarrow> j \<noteq> i \<and> j < length (Content A) \<and> Addr (Entry A j) \<noteq> a" for j
    using new(1,4) by (auto simp: table_map_None live_def)
  have injC: "inj_on (\<lambda>j. Addr (Entry ?C j)) (live_set ?C)"
    unfolding liveC using inj other addr new(3) by (auto simp: inj_on_def)
  have "card (live_set ?C) = card (live_set A) + 1" unfolding liveC using new(4) finite_live [of A] by simp
  moreover have "\<exists>cs. linked (Content ?C) (Hash ?C) cs (live_set ?C)" using r(4) liveC by auto
  ultimately have ok: "tab_ok ?C" using r(3) ok lenT injC size addr new(2) by (auto simp: tab_ok_def B)
  have "table_map ?C b = ((table_map A)(a \<mapsto> i)) b" for b
  proof -
    have "table_map ?C b = Some j \<longleftrightarrow> ((table_map A)(a \<mapsto> i)) b = Some j" for j
      using table_map_Some [OF injC, of b j] table_map_Some [OF inj, of b j] other addr new(3) unfolding liveC by auto
    then show ?thesis by (cases "table_map ?C b") (metis not_Some_eq)+
  qed
  then show ?thesis using r e(2) ok new(3) by (intro that [where T = T and H = H]) (auto simp: B)
qed

text \<open>A table in which the live entry \<open>i\<close> becomes free.\<close>

lemma remove_live:
  assumes A: "tab_ok A" and i: "live (Content A) i"
  obtains T H where "unlink_entry (MAC_ADDR_HASH_INDEX (Addr (Entry A i))) i A = Some (A\<lparr>Content := T, Hash := H\<rparr>)"
    "ids T = ids (Content A)" "length H = 256"
    "\<And>(B :: wpa_adapter) f. Content B = T[i := f (T ! i)] \<Longrightarrow> Hash B = H \<Longrightarrow> MacTabSize B = MacTabSize A - 1 \<Longrightarrow>
       EntryType (f (T ! i)) = ENTRY_NONE \<Longrightarrow> length (Addr (f (T ! i))) = 6 \<Longrightarrow>
       tab_ok B \<and> table_map B = (table_map A)(Addr (Entry A i) := None)"
proof -
  have ok: "length (Content A) = MAX_NUMBER_OF_MAC" "length (Hash A) = 256" "\<And>j. j < MAX_NUMBER_OF_MAC \<Longrightarrow> length (Addr (Entry A j)) = 6"
    and inj: "inj_on (\<lambda>i. Addr (Entry A i)) (live_set A)" and size: "MacTabSize A = card (live_set A)"
    using A by (auto simp: tab_ok_def)
  obtain cs where l: "linked (Content A) (Hash A) cs (live_set A)" using A by (auto simp: tab_ok_def)
  obtain T H cs' where r: "unlink_entry (MAC_ADDR_HASH_INDEX (Addr (Entry A i))) i A = Some (A\<lparr>Content := T, Hash := H\<rparr>)"
      "ids T = ids (Content A)" "length H = 256" "linked T H cs' (live_set A - {i})"
    by (rule linked_unlink [OF l]) (use i ok live_set_sub [of A] in auto)
  have il: "i < length (Content A)" "length T = length (Content A)" using i ids_nth(1) [OF r(2)] by (auto simp: live_def)
  show ?thesis
  proof (rule that [OF r(1-3)])
    fix B :: wpa_adapter and f
    assume B: "Content B = T[i := f (T ! i)]" "Hash B = H" "MacTabSize B = MacTabSize A - 1"
      and e: "EntryType (f (T ! i)) = ENTRY_NONE" "length (Addr (f (T ! i))) = 6"
    have n: "Entry B j = (if j = i then f (T ! i) else T ! j)" if "j < length (Content A)" for j
      using that il by (simp add: B nth_list_update)
    have "live (Content B) j \<longleftrightarrow> j \<noteq> i \<and> live (Content A) j" for j
      using ids_nth(4) [OF r(2), of j] e(1) il by (cases "j = i") (auto simp: live_def B)
    then have live: "live_set B = live_set A - {i}" by auto
    have addr: "Addr (Entry B j) = Addr (Entry A j)" if "j \<in> live_set A - {i}" for j
      using that ids_nth(3) [OF r(2), of j] n by (auto simp: live_def)
    have injB: "inj_on (\<lambda>j. Addr (Entry B j)) (live_set B)"
      unfolding live using inj addr by (auto simp: inj_on_def)
    have "linked (Content B) H cs' (live_set A - {i})"
      by (rule linked_cong [OF r(4)]) (use n il in \<open>auto simp: live_def B(1)\<close>)
    then have "\<exists>cs. linked (Content B) (Hash B) cs (live_set B)" using live B(2) by auto
    moreover have "length (Addr (Entry B j)) = 6" if "j < MAX_NUMBER_OF_MAC" for j
      using that n e(2) ids_nth(3) [OF r(2), of j] ok by auto
    moreover have "card (live_set B) = card (live_set A) - 1"
      unfolding live using i finite_live [of A] by simp
    ultimately have "tab_ok B" using injB B ok il size r(3) by (simp add: tab_ok_def)
    moreover have "table_map B b = ((table_map A)(Addr (Entry A i) := None)) b" for b
    proof -
      have "i \<in> live_set A" using i by simp
      then have "table_map B b = Some j \<longleftrightarrow> ((table_map A)(Addr (Entry A i) := None)) b = Some j" for j
        using table_map_Some [OF injB, of b j] table_map_Some [OF inj, of b j] addr [of j] inj
        unfolding live by (auto simp: inj_on_def)
      then show ?thesis by (cases "table_map B b") (metis not_Some_eq)+
    qed
    ultimately show "tab_ok B \<and> table_map B = (table_map A)(Addr (Entry A i) := None)" by auto
  qed
qed


lemma upd_mbss_fields [simp]:
  "Content (upd_mbss n f A) = Content A" "Hash (upd_mbss n f A) = Hash A" "MacTabSize (upd_mbss n f A) = MacTabSize A"
  "opmode (upd_mbss n f A) = opmode A" "EntryClientCount (upd_mbss n f A) = EntryClientCount A"
  "length (MBSSID (upd_mbss n f A)) = length (MBSSID A)" "BssidNum (upd_mbss n f A) = BssidNum A"
  "CommonBssid (put_out x A) = CommonBssid A"
  "MacTabSize (put_out x A) = MacTabSize A" "EntryClientCount (put_out x A) = EntryClientCount A"
  "MacTabSize (upd_entry i g A) = MacTabSize A" "EntryClientCount (upd_entry i g A) = EntryClientCount A"
  by (simp_all add: upd_mbss_def put_out_def upd_entry_def)

lemma Content_upd_entry: "Content (upd_entry i f A) = (Content A)[i := f (Entry A i)]"
  by (simp add: upd_entry_def)

lemma table_cong:
  assumes "tab_ok A" "Content B = Content A" "Hash B = Hash A" "MacTabSize B = MacTabSize A"
  shows "tab_ok B" "table_map B = table_map A"
  using tab_ok_cong [OF assms(1) _ assms(3,4)] assms(2) by simp_all

lemma table_upd:
  assumes "tab_ok A" "EntryType (f (Entry A i)) = EntryType (Entry A i)" "Addr (f (Entry A i)) = Addr (Entry A i)"
    "pNext (f (Entry A i)) = pNext (Entry A i)"
  shows "tab_ok (upd_entry i f A)" "table_map (upd_entry i f A) = table_map A"
proof -
  have "lookup_keys (Content (upd_entry i f A)) = lookup_keys (Content A)"
    using assms(2-4) by (cases "i < length (Content A)")
      (simp_all add: upd_entry_def lookup_keys_def map_update list_update_same_conv list_update_beyond)
  from tab_ok_cong [OF assms(1) this] show "tab_ok (upd_entry i f A)" "table_map (upd_entry i f A) = table_map A"
    by simp_all
qed

lemma clear_free:
  assumes A: "tab_ok A" and i: "\<not> live (Content A) i" "i < length (Content A)"
  shows "tab_ok (upd_entry i (\<lambda>_. zero_entry) A)" "table_map (upd_entry i (\<lambda>_. zero_entry) A) = table_map A"
proof -
  let ?B = "upd_entry i (\<lambda>_. zero_entry) A"
  have n: "Entry ?B j = (if j = i then zero_entry else Entry A j)" for j using i(2) by (cases "j = i") (simp_all add: upd_entry_def)
  have z: "EntryType zero_entry = ENTRY_NONE" "length (Addr zero_entry) = 6" by (simp_all add: zero_entry_def)
  have live: "live (Content ?B) j = live (Content A) j" for j using i z(1) by (simp add: live_def n)
  obtain cs where l: "linked (Content A) (Hash A) cs (live_set A)" using A by (auto simp: tab_ok_def)
  have "linked (Content ?B) (Hash A) cs (live_set A)" by (rule linked_cong [OF l]) (use i n in auto)
  moreover have "inj_on (\<lambda>j. Addr (Entry ?B j)) (live_set A)" using A i(1) by (auto simp: tab_ok_def inj_on_def n)
  ultimately show "tab_ok ?B" using A z(2) by (auto simp: tab_ok_def live n simp del: Entry_upd)
  show "table_map ?B = table_map A"
  proof
    fix a
    have "(\<lambda>j. live (Content A) j \<and> Addr (Entry ?B j) = a) = (\<lambda>j. live (Content A) j \<and> Addr (Entry A j) = a)"
      using i(1) by (auto simp: fun_eq_iff n simp del: Entry_upd)
    then show "table_map ?B a = table_map A a" by (simp add: table_map_def live)
  qed
qed

text \<open>The network of a new entry exists; its limit of stations is reached; the first index for an entry.\<close>

definition room :: "wpa_adapter \<Rightarrow> nat \<Rightarrow> bool" where
  "room A idx \<longleftrightarrow> (opmode A = OPMODE_AP \<longrightarrow> MBSS_MR_APIDX_SANITY_CHECK A idx < length (MBSSID A))"

definition full_network :: "wpa_adapter \<Rightarrow> nat \<Rightarrow> bool" where
  "full_network A idx \<longleftrightarrow> opmode A = OPMODE_AP \<and> idx < BssidNum A \<and> idx < BcnMaxNum A \<and> idx < HW_BEACON_MAX_NUM
     \<and> MaxStaNum (MBSSID A ! idx) \<noteq> 0 \<and> StaCount (MBSSID A ! idx) \<ge> MaxStaNum (MBSSID A ! idx)"

definition first_index :: "wpa_adapter \<Rightarrow> nat" where
  "first_index A = (if opmode A = OPMODE_STA \<and> BssInfra (StaCfg A) then 2 else 1)"

lemma insert_updates:
  assumes A: "tab_ok A" and a: "table_map A a = None" "length a = 6" and idx: "room A idx"
  obtains r A' where "MacTableInsertEntry A a idx = Some (r, A')" "tab_ok A'"
    "table_map A' = (case r of None \<Rightarrow> table_map A | Some i \<Rightarrow> (table_map A)(a \<mapsto> i))"
    "r = None \<longleftrightarrow> full_network A idx \<or> (\<forall>i. first_index A \<le> i \<and> i < MAX_NUMBER_OF_MAC \<longrightarrow> live (Content A) i)"
proof -
  have len: "length (Content A) = MAX_NUMBER_OF_MAC" "length (Hash A) = 256" and size: "MacTabSize A = card (live_set A)"
    using A by (simp_all add: tab_ok_def)
  have go: "\<not> (length a \<noteq> 6 \<or> length (Hash A) \<noteq> 256 \<or> length (Content A) \<noteq> MAX_NUMBER_OF_MAC)" using a(2) len by simp
  have free: "find_free (Content A) (first_index A) = None
      \<longleftrightarrow> (\<forall>i. first_index A \<le> i \<and> i < MAX_NUMBER_OF_MAC \<longrightarrow> live (Content A) i)"
    using len(1) by (auto simp: find_free_def find_None_iff live_def)
  note def = MacTableInsertEntry_def if_not_P [OF go] first_index_def [symmetric] full_network_def [symmetric] Let_def
  consider (full) "MacTabSize A \<ge> MAX_NUMBER_OF_MAC" | (none) "MacTabSize A < MAX_NUMBER_OF_MAC" "find_free (Content A) (first_index A) = None"
    | (some) i where "MacTabSize A < MAX_NUMBER_OF_MAC" "find_free (Content A) (first_index A) = Some i"
    by (cases "find_free (Content A) (first_index A)") force+
  then show ?thesis
  proof cases
    case full
    have "live_set A = {..<MAX_NUMBER_OF_MAC}"
      by (rule card_seteq) (use full size live_set_sub [of A] len(1) in auto)
    then have "\<forall>i. first_index A \<le> i \<and> i < MAX_NUMBER_OF_MAC \<longrightarrow> live (Content A) i" by auto
    with full A a(2) len show ?thesis by (intro that [of None A]) (simp_all add: def)
  next
    case none
    then show ?thesis using A free a(2) len by (intro that [of None A]) (simp_all add: def not_le)
  next
    case (some i)
    note i = find_free_Some [OF some(2) len(1)]
    show ?thesis
    proof (cases "full_network A idx")
      case True
      let ?A = "upd_entry i (\<lambda>_. zero_entry) A"
      have "MacTableInsertEntry A a idx = Some (None, ?A)" unfolding def using some True by (simp add: full_network_def)
      with clear_free [OF A i(2,1)] True show ?thesis by (intro that [of None ?A]) simp_all
    next
      case False
      let ?n = "MBSS_MR_APIDX_SANITY_CHECK A idx"
      define e where "e = new_entry A a idx ?n i"
      define B0 where "B0 = upd_entry i (\<lambda>_. e) A"
      define B1 where "B1 = (if opmode A = OPMODE_AP then (upd_mbss ?n (\<lambda>m. m\<lparr>StaCount := (StaCount m + 1) mod 256\<rparr>) B0)
                                  \<lparr>EntryClientCount := (EntryClientCount B0 + 1) mod 256\<rparr> else B0)"
      define B where "B = put_out (RTMP_STA_ENTRY_ADD i a) (put_out (RTMP_REMOVE_PAIRWISE_KEY_ENTRY i) (B1\<lparr>MacTabSize := MacTabSize B1 + 1\<rparr>))"
      have b: "Content B = (Content A)[i := e]" "Hash B = Hash A" "MacTabSize B = MacTabSize A + 1"
        by (simp_all add: B_def B1_def B0_def Content_upd_entry)
      have ee: "EntryType e \<noteq> ENTRY_NONE" "Addr e = a" "pNext e = None" by (simp_all add: e_def new_entry_fields)
      obtain T H where l: "link_entry (MAC_ADDR_HASH_INDEX a) i B = Some (B\<lparr>Content := T, Hash := H\<rparr>)"
        "tab_ok (B\<lparr>Content := T, Hash := H\<rparr>)" "table_map (B\<lparr>Content := T, Hash := H\<rparr>) = (table_map A)(a \<mapsto> i)"
        by (rule add_live [OF A a i(1,2) ee b])
      have ob: "opmode B0 = opmode A" by (simp add: B0_def)
      have m: "\<not> (opmode A = OPMODE_AP \<and> ?n \<ge> length (MBSSID A))" using idx by (auto simp: room_def)
      have "MacTableInsertEntry A a idx = Some (Some i, B\<lparr>Content := T, Hash := H\<rparr>)"
        unfolding def some(2) option.case if_not_P [OF m] using some(1) False l(1)
        by (cases "opmode A = OPMODE_AP") (simp_all add: e_def [symmetric] B0_def [symmetric] B_def B1_def ob)
      moreover have "\<not> (\<forall>i. first_index A \<le> i \<and> i < MAX_NUMBER_OF_MAC \<longrightarrow> live (Content A) i)" using i len(1) by auto
      ultimately show ?thesis using l(2,3) False by (intro that) auto
    qed
  qed
qed


text \<open>What removal leaves of the entries and networks.\<close>

definition rows :: "wpa_adapter \<Rightarrow> wpa_adapter \<Rightarrow> bool" where
  "rows A B \<longleftrightarrow> length (Content B) = length (Content A) \<and> length (MBSSID B) = length (MBSSID A) \<and> opmode B = opmode A
     \<and> BssidNum B = BssidNum A
     \<and> (\<forall>j<length (Content A). Aid (Entry B j) = Aid (Entry A j) \<and> apidx (Entry B j) = apidx (Entry A j)
          \<and> (EntryType (Entry B j) = EntryType (Entry A j) \<or> EntryType (Entry B j) = ENTRY_NONE))"

lemma rows_refl: "rows A A" by (simp add: rows_def)

lemma rows_trans: "rows A B \<Longrightarrow> rows B C \<Longrightarrow> rows A C"
  by (simp add: rows_def) metis

lemma rows_cong: "Content B = Content A \<Longrightarrow> length (MBSSID B) = length (MBSSID A) \<Longrightarrow> opmode B = opmode A \<Longrightarrow>
    BssidNum B = BssidNum A \<Longrightarrow> rows A B"
  by (simp add: rows_def)

lemma rows_upd:
  "Aid (f (Entry A i)) = Aid (Entry A i) \<Longrightarrow> apidx (f (Entry A i)) = apidx (Entry A i) \<Longrightarrow>
    EntryType (f (Entry A i)) = EntryType (Entry A i) \<or> EntryType (f (Entry A i)) = ENTRY_NONE \<Longrightarrow> rows A (upd_entry i f A)"
  by (cases "i < length (Content A)") (auto simp: rows_def upd_entry_def nth_list_update list_update_beyond)

lemma forget_client_keeps:
  assumes "apidx (Entry A i) < length (MBSSID A)"
  obtains B where "forget_client i A = Some B" "Content B = Content A" "Hash B = Hash A" "MacTabSize B = MacTabSize A" "rows A B"
  using assms that unfolding forget_client_def Let_def by (simp add: rows_cong split: if_splits)

text \<open>The network of an entry that is removed exists.\<close>

definition network_exists :: "wpa_adapter \<Rightarrow> nat \<Rightarrow> bool" where
  "network_exists A i \<longleftrightarrow> (i < length (Content A) \<longrightarrow> is_client A i \<longrightarrow> apidx (Entry A i) < length (MBSSID A))"

lemma delete_updates:
  assumes A: "tab_ok A" and a: "length a = 6" and net: "network_exists A i"
  obtains r A' where "MacTableDeleteEntry A i a = Some (r, A')" "tab_ok A'" "rows A A'"
    "table_map A' = (if table_map A a = Some i then (table_map A)(a := None) else table_map A)"
proof -
  have len: "length (Content A) = MAX_NUMBER_OF_MAC" "length (Hash A) = 256" using A by (simp_all add: tab_ok_def)
  have inj: "inj_on (\<lambda>i. Addr (Entry A i)) (live_set A)" using A by (simp add: tab_ok_def)
  note found = table_map_Some [OF inj, of a i]
  let ?fin = "\<lambda>A. put_out RTMP_AP_UPDATE_CAPABILITY_AND_ERPIE (if MacTabSize A = 0 then put_out RTMP_UPDATE_PROTECT A else A)"
  have fin: "tab_ok (?fin B)" "table_map (?fin B) = table_map B" if "tab_ok B" for B
    using table_cong [OF that, of "?fin B"] by simp_all
  have rend: "rows A B \<Longrightarrow> rows A (?fin B)" for B by (erule rows_trans) (simp add: rows_cong)
  let ?A0 = "upd_entry i (\<lambda>e. e\<lparr>RetryTimer := RTMPCancelTimer (RetryTimer e),
                         EnqueueStartForPSKTimer := RTMPCancelTimer (EnqueueStartForPSKTimer e)\<rparr>) A"
  note t0 = table_upd [OF A, of "\<lambda>e. e\<lparr>RetryTimer := RTMPCancelTimer (RetryTimer e),
                         EnqueueStartForPSKTimer := RTMPCancelTimer (EnqueueStartForPSKTimer e)\<rparr>" i, simplified]
  have step: "MacTableDeleteEntry A i a = Some (True, ?fin B)"
    if "i < MAX_NUMBER_OF_MAC" "(if EntryType (Entry A i) = ENTRY_NONE then Some A
             else do {
               let A = ?A0;
               if Addr (Entry A i) \<noteq> a then Some A
               else do {
                 let A = put_out (RTMP_STA_ENTRY_MAC_RESET i) (put_out (BASessionTearDownALL (Aid (Entry A i))) A);
                 A \<leftarrow> (if is_client A i
                      then forget_client i (upd_entry i (\<lambda>e. e\<lparr>RetryTimer := RTMPReleaseTimer (RetryTimer e)\<rparr>) A)
                      else Some A);
                 A \<leftarrow> unlink_entry (MAC_ADDR_HASH_INDEX a) i A;
                 Some ((upd_entry i (\<lambda>e. e\<lparr>EnqueueStartForPSKTimer := RTMPReleaseTimer (EnqueueStartForPSKTimer e),
                          EnqueueEapolStartTimerRunning := EAPOL_START_DISABLE,
                          Addr := replicate 6 0, EntryType := ENTRY_NONE\<rparr>) A)\<lparr>MacTabSize := MacTabSize A - 1\<rparr>)
               }
             }) = Some B" for B
    using that a len unfolding MacTableDeleteEntry_def by (simp add: Let_def)
  have r0: "rows A ?A0" by (rule rows_upd) simp_all
  consider (out) "\<not> i < MAX_NUMBER_OF_MAC" | (free) "i < MAX_NUMBER_OF_MAC" "EntryType (Entry A i) = ENTRY_NONE"
    | (other) "i < MAX_NUMBER_OF_MAC" "EntryType (Entry A i) \<noteq> ENTRY_NONE" "Addr (Entry A i) \<noteq> a"
    | (del) "i < MAX_NUMBER_OF_MAC" "EntryType (Entry A i) \<noteq> ENTRY_NONE" "Addr (Entry A i) = a"
    by blast
  then show ?thesis
  proof cases
    case out
    then show ?thesis using A found len rows_refl by (intro that [of False A]) (auto simp: MacTableDeleteEntry_def live_def)
  next
    case free
    then have "MacTableDeleteEntry A i a = Some (True, ?fin A)" by (intro step) simp_all
    then show ?thesis by (rule that) (use fin [OF A] rend [OF rows_refl] A free found len in \<open>auto simp: live_def\<close>)
  next
    case other
    then have "MacTableDeleteEntry A i a = Some (True, ?fin ?A0)" using len by (intro step) simp_all
    then show ?thesis by (rule that) (use fin [OF t0(1)] rend [OF r0] t0 other found in \<open>auto simp: live_def\<close>)
  next
    case del
    let ?A1 = "put_out (RTMP_STA_ENTRY_MAC_RESET i) (put_out (BASessionTearDownALL (Aid (Entry ?A0 i))) ?A0)"
    note t1 = table_cong [OF t0(1), of ?A1, simplified]
    let ?A2 = "upd_entry i (\<lambda>e. e\<lparr>RetryTimer := RTMPReleaseTimer (RetryTimer e)\<rparr>) ?A1"
    note t2 = table_upd [OF t1(1), of "\<lambda>e. e\<lparr>RetryTimer := RTMPReleaseTimer (RetryTimer e)\<rparr>" i, simplified]
    obtain B where B: "(if is_client ?A1 i then forget_client i ?A2 else Some ?A1) = Some B" "tab_ok B" "table_map B = table_map A"
      "live (Content B) i" "Addr (Entry B i) = a" "rows ?A1 B"
    proof (cases "is_client A i")
      case True
      then have "apidx (Entry ?A2 i) < length (MBSSID ?A2)" using net del len by (simp add: network_exists_def)
      then obtain B where b: "forget_client i ?A2 = Some B" "Content B = Content ?A2" "Hash B = Hash ?A2" "MacTabSize B = MacTabSize ?A2" "rows ?A2 B"
        by (rule forget_client_keeps)
      have "rows ?A1 ?A2" by (rule rows_upd) simp_all
      then have "rows ?A1 B" by (rule rows_trans [OF _ b(5)])
      with table_cong [OF t2(1) b(2-4)] b show ?thesis using True del len t0 t1 t2
        by (intro that [of B]) (simp_all add: live_def)
    next
      case False
      with del len t0 t1 rows_refl show ?thesis by (intro that [of ?A1]) (simp_all add: live_def)
    qed
    obtain T H where u: "unlink_entry (MAC_ADDR_HASH_INDEX a) i B = Some (B\<lparr>Content := T, Hash := H\<rparr>)" "ids T = ids (Content B)"
      "\<And>(C :: wpa_adapter) f. Content C = T[i := f (T ! i)] \<Longrightarrow> Hash C = H \<Longrightarrow> MacTabSize C = MacTabSize B - 1 \<Longrightarrow>
       EntryType (f (T ! i)) = ENTRY_NONE \<Longrightarrow> length (Addr (f (T ! i))) = 6 \<Longrightarrow> tab_ok C \<and> table_map C = (table_map B)(a := None)"
      using remove_live [OF B(2,4)] unfolding B(5) by metis
    let ?f = "\<lambda>e :: wpa_entry. e\<lparr>EnqueueStartForPSKTimer := RTMPReleaseTimer (EnqueueStartForPSKTimer e),
                          EnqueueEapolStartTimerRunning := EAPOL_START_DISABLE, Addr := replicate 6 0, EntryType := ENTRY_NONE\<rparr>"
    let ?C = "(upd_entry i ?f
                 (B\<lparr>Content := T, Hash := H\<rparr>))\<lparr>MacTabSize := MacTabSize B - 1\<rparr>"
    have C: "tab_ok ?C \<and> table_map ?C = (table_map B)(a := None)" by (rule u(3) [of _ ?f]) (simp_all add: Content_upd_entry)
    have go: "\<not> EntryType (Entry A i) = ENTRY_NONE" "\<not> Addr (Entry ?A0 i) \<noteq> a" using del len by simp_all
    have "MacTableDeleteEntry A i a = Some (True, ?fin ?C)"
    proof (rule step [OF del(1)], unfold if_not_P [OF go(1)] Let_def if_not_P [OF go(2)] B(1) Option.bind.bind_lunit u(1))
    qed simp
    moreover have "rows A ?C"
    proof (rule rows_trans [OF rows_trans [OF rows_trans [OF r0, of ?A1] B(6)]])
      show "rows ?A0 ?A1" by (rule rows_cong) simp_all
      have "rows B (B\<lparr>Content := T, Hash := H\<rparr>)" using ids_nth [OF u(2)] by (simp add: rows_def)
      moreover have "rows (B\<lparr>Content := T, Hash := H\<rparr>) (upd_entry i ?f (B\<lparr>Content := T, Hash := H\<rparr>))" by (rule rows_upd) simp_all
      ultimately show "rows B ?C" by (rule rows_trans [OF rows_trans]) (simp add: rows_cong)
    qed
    ultimately show ?thesis
      by (intro that [of True "?fin ?C"]) (use fin [of ?C] rend [of ?C] C B(3) del found len in \<open>auto simp: live_def\<close>)
  qed
qed


section \<open>Removing every entry\<close>

text \<open>Each live entry has its index as \<open>Aid\<close>, and every entry's network exists.\<close>

definition table_ok :: "wpa_adapter \<Rightarrow> bool" where
  "table_ok A \<longleftrightarrow> tab_ok A \<and> (\<forall>i\<in>live_set A. Aid (Entry A i) = i) \<and> (\<forall>i<MAX_NUMBER_OF_MAC. apidx (Entry A i) < length (MBSSID A))"

lemma rows_live: "rows A B \<Longrightarrow> live (Content B) i \<Longrightarrow> live (Content A) i"
  by (auto simp: rows_def live_def)

lemma table_ok_rows: "table_ok A \<Longrightarrow> rows A B \<Longrightarrow> tab_ok B \<Longrightarrow> table_ok B"
  using rows_live [of A B] by (auto simp: table_ok_def rows_def live_def tab_ok_def)

lemma table_map_live: "tab_ok A \<Longrightarrow> live (Content A) i \<Longrightarrow> table_map A (Addr (Entry A i)) = Some i"
  by (simp add: table_map_Some tab_ok_def)

text \<open>An entry that is removed under its address is free, and so are those that were.\<close>

lemma delete_own:
  assumes A: "table_ok A" and i: "i < MAX_NUMBER_OF_MAC" and a: "live (Content A) i \<Longrightarrow> a = Addr (Entry A i)" "length a = 6"
  obtains r B where "MacTableDeleteEntry A i a = Some (r, B)" "table_ok B" "rows A B" "\<not> live (Content B) i"
    "live (Content A) i \<Longrightarrow> table_map B = (table_map A)(a := None)"
proof -
  have t: "tab_ok A" and n: "network_exists A i" using A i by (simp_all add: table_ok_def network_exists_def)
  obtain r B where B: "MacTableDeleteEntry A i a = Some (r, B)" "tab_ok B" "rows A B"
    "table_map B = (if table_map A a = Some i then (table_map A)(a := None) else table_map A)"
    by (rule delete_updates [OF t a(2) n])
  have "\<not> live (Content B) i"
  proof
    assume l: "live (Content B) i"
    then have m: "live (Content A) i" by (rule rows_live [OF B(3)])
    then have "table_map A a = Some i" using table_map_live [OF t m] a(1) by simp
    with B(4) have map: "table_map B = (table_map A)(a := None)" by simp
    then have "table_map A (Addr (Entry B i)) = Some i" "Addr (Entry B i) \<noteq> a"
      using table_map_live [OF B(2) l] by (simp_all split: if_splits)
    with t m a(1) show False by (simp add: table_map_Some tab_ok_def)
  qed
  moreover have "live (Content A) i \<Longrightarrow> table_map B = (table_map A)(a := None)"
    using B(4) table_map_live [OF t, of i] a(1) by simp
  ultimately show ?thesis using B table_ok_rows [OF A B(3,2)] by (intro that)
qed

lemma MlmeDeAuthAction_removes:
  assumes A: "table_ok A" and i: "live (Content A) i"
  obtains B where "MlmeDeAuthAction i Reason A = Some B" "table_ok B" "rows A B" "\<not> live (Content B) i"
    "table_map B = (table_map A)(Addr (Entry A i) := None)"
proof -
  let ?e = "Entry A i"
  let ?A1 = "put_out (MiniportMMRequest_DeAuth (Addr ?e) (if opmode A = OPMODE_AP then Bssid (MBSSID A ! apidx ?e) else CommonBssid A) Reason)
    (put_out (RTMPSendWirelessEvent IW_DEAUTH_EVENT_FLAG (Addr ?e) (apidx ?e)) A)"
  have n: "i < MAX_NUMBER_OF_MAC" "length (Addr ?e) = 6" "Aid ?e = i" "apidx ?e < length (MBSSID A)"
    using A i by (auto simp: table_ok_def tab_ok_def live_def)
  have r: "rows A ?A1" by (rule rows_cong) simp_all
  have t: "tab_ok ?A1" "table_map ?A1 = table_map A" using A table_cong [of A ?A1] by (simp_all add: table_ok_def)
  have ok: "table_ok ?A1" by (rule table_ok_rows [OF A r t(1)])
  obtain x B where B: "MacTableDeleteEntry ?A1 i (Addr ?e) = Some (x, B)" "table_ok B" "rows ?A1 B" "\<not> live (Content B) i"
    "live (Content ?A1) i \<Longrightarrow> table_map B = (table_map ?A1)(Addr ?e := None)"
    by (rule delete_own [OF ok n(1), of "Addr ?e"]) (use n(2) in simp_all)
  have "MlmeDeAuthAction i Reason A = Some B" unfolding MlmeDeAuthAction_def Let_def using B(1) n i
    by (cases "opmode A = OPMODE_AP") (simp_all add: live_def)
  then show ?thesis by (rule that [OF _ B(2) rows_trans [OF r B(3)] B(4)]) (use B(5) t(2) i in simp)
qed

lemma clear_entries:
  assumes f: "\<And>A i. table_ok A \<Longrightarrow> k \<le> i \<Longrightarrow> i < MAX_NUMBER_OF_MAC \<Longrightarrow>
      \<exists>B. f A i = Some B \<and> table_ok B \<and> rows A B \<and> (P A i \<longrightarrow> \<not> live (Content B) i)"
    and P: "\<And>A B i. rows A B \<Longrightarrow> live (Content B) i \<Longrightarrow> i < MAX_NUMBER_OF_MAC \<Longrightarrow> P A i \<Longrightarrow> P B i"
    and A: "table_ok A"
  shows "n \<le> MAX_NUMBER_OF_MAC \<Longrightarrow> \<exists>B. feed f A [k..<n] = Some B \<and> table_ok B \<and> rows A B
    \<and> (\<forall>i. k \<le> i \<and> i < n \<and> P A i \<longrightarrow> \<not> live (Content B) i)"
proof (induction n)
  case 0
  then show ?case using A rows_refl by simp
next
  case (Suc n)
  then obtain B where B: "feed f A [k..<n] = Some B" "table_ok B" "rows A B" "\<forall>i. k \<le> i \<and> i < n \<and> P A i \<longrightarrow> \<not> live (Content B) i"
    by auto
  show ?case
  proof (cases "k \<le> n")
    case True
    obtain C where C: "f B n = Some C" "table_ok C" "rows B C" "P B n \<longrightarrow> \<not> live (Content C) n"
      using f [OF B(2) True] Suc.prems by auto
    have "\<not> live (Content C) i" if "k \<le> i" "i < Suc n" "P A i" for i
      using that B(4) C(4) P [OF B(3), of i] rows_live [OF C(3), of i] Suc.prems by (cases "i = n") auto
    with True B C rows_trans [OF B(3) C(3)] show ?thesis by (simp add: feed_append)
  next
    case False
    with B Suc show ?thesis using A rows_refl by auto
  qed
qed

lemma reset_entry_removes:
  assumes B: "table_ok B" "1 \<le> i" "i < MAX_NUMBER_OF_MAC"
  shows "\<exists>C. reset_entry B i = Some C \<and> table_ok C \<and> rows B C \<and> (True \<longrightarrow> \<not> live (Content C) i)"
proof -
  have l: "i < length (Content B)" "apidx (Entry B i) < length (MBSSID B)" "length (Addr (Entry B i)) = 6"
    using B by (simp_all add: table_ok_def tab_ok_def)
  define B1 where "B1 = (if is_client B i then upd_entry i (\<lambda>e. e\<lparr>EnqueueStartForPSKTimer := RTMPReleaseTimer (EnqueueStartForPSKTimer e),
                EnqueueEapolStartTimerRunning := EAPOL_START_DISABLE\<rparr>) B else B)"
  have b1: "tab_ok B1" "rows B B1" "Addr (Entry B1 i) = Addr (Entry B i)"
    using B l by (auto simp: B1_def table_ok_def intro!: table_upd rows_upd rows_refl)
  define B2 where "B2 = (if is_client B i \<and> opmode B = OPMODE_AP \<and> Sst (Entry B i) = SST_ASSOC
    then put_out (MiniportMMRequest_DeAuth (Addr (Entry B i)) (Bssid (MBSSID B ! apidx (Entry B i))) REASON_NO_LONGER_VALID) B1 else B1)"
  have "rows B1 B2" by (simp add: B2_def rows_cong rows_refl)
  then have b2: "tab_ok B2" "rows B B2" "Addr (Entry B2 i) = Addr (Entry B i)"
    using b1 table_cong [OF b1(1), of B2] rows_trans [OF b1(2)] by (simp_all add: B2_def)
  obtain r C where C: "MacTableDeleteEntry B2 i (Addr (Entry B2 i)) = Some (r, C)" "table_ok C" "rows B2 C" "\<not> live (Content C) i"
    by (rule delete_own [OF table_ok_rows [OF B(1) b2(2,1)] B(3), of "Addr (Entry B2 i)"]) (use b2 l in simp_all)
  have "reset_entry B i = map_option snd (MacTableDeleteEntry B2 i (Addr (Entry B2 i)))"
    using l b2(3) by (auto simp: reset_entry_def Let_def B2_def B1_def)
  with C rows_trans [OF b2(2) C(3)] show ?thesis by auto
qed

lemma reset_loop:
  assumes A: "table_ok A" and zero: "\<not> live (Content A) 0"
  obtains B where "feed reset_entry A [1..<MAX_NUMBER_OF_MAC] = Some B" "table_ok B" "rows A B" "live_set B = {}"
proof -
  obtain B where B: "feed reset_entry A [1..<MAX_NUMBER_OF_MAC] = Some B" "table_ok B" "rows A B"
      "\<forall>i. 1 \<le> i \<and> i < MAX_NUMBER_OF_MAC \<and> True \<longrightarrow> \<not> live (Content B) i"
    using clear_entries [of 1 reset_entry "\<lambda>_ _. True", OF reset_entry_removes _ A order_refl] by auto
  have "\<not> live (Content B) i" for i
    using B(2,4) zero rows_live [OF B(3), of 0] by (cases "i = 0") (auto simp: live_def table_ok_def tab_ok_def)
  then have "live_set B = {}" by auto
  with B show ?thesis by (intro that)
qed

lemma MacTableReset_empties:
  assumes A: "table_ok A" and zero: "\<not> live (Content A) 0" and n: "BssidNum A \<le> length (MBSSID A)"
  shows "\<exists>B. MacTableReset A = Some B \<and> (\<forall>a. length a = 6 \<longrightarrow> MacTableLookup B a = Some None)"
proof -
  obtain B where B: "feed reset_entry A [1..<MAX_NUMBER_OF_MAC] = Some B" "table_ok B" "rows A B" and empty: "live_set B = {}"
    by (rule reset_loop [OF A zero])
  define C where "C = (if opmode B = OPMODE_AP then B\<lparr>MBSSID := map (\<lambda>m. m\<lparr>StaCount := 0\<rparr>) (take (BssidNum B) (MBSSID B)) @ drop (BssidNum B) (MBSSID B),
                    MacTabSize := 0\<rparr> else B)"
  have "MacTabSize B = 0" using B(2) empty by (simp add: table_ok_def tab_ok_def)
  then have c: "tab_ok C" using B(2) table_cong [of B C] by (simp add: C_def table_ok_def)
  have "table_map C a = None" for a using empty by (simp add: table_map_None C_def)
  moreover have "MacTableReset A = Some C"
    using B(1,3) n by (auto simp: MacTableReset_def C_def rows_def not_less)
  ultimately show ?thesis using lookup_is_map [OF c] by auto
qed

section \<open>The contract of a table\<close>

text \<open>What the clients of the table rely on: it is a finite map from addresses to indices.\<close>

locale address_table =
  fixes ok :: "'s \<Rightarrow> bool" and to_map :: "'s \<Rightarrow> bytes \<Rightarrow> nat option"
    and lookup :: "'s \<Rightarrow> bytes \<Rightarrow> nat option option"
    and insert_entry :: "'s \<Rightarrow> bytes \<Rightarrow> nat \<Rightarrow> (nat option \<times> 's) option" and can_insert :: "'s \<Rightarrow> nat \<Rightarrow> bool"
    and remove_entry :: "'s \<Rightarrow> nat \<Rightarrow> bytes \<Rightarrow> (bool \<times> 's) option" and can_remove :: "'s \<Rightarrow> nat \<Rightarrow> bool"
  assumes lookup_law: "ok s \<Longrightarrow> length a = 6 \<Longrightarrow> lookup s a = Some (to_map s a)"
    and insert_law: "ok s \<Longrightarrow> length a = 6 \<Longrightarrow> to_map s a = None \<Longrightarrow> can_insert s n \<Longrightarrow>
      \<exists>r s'. insert_entry s a n = Some (r, s') \<and> ok s'
        \<and> to_map s' = (case r of None \<Rightarrow> to_map s | Some i \<Rightarrow> (to_map s)(a \<mapsto> i))"
    and remove_law: "ok s \<Longrightarrow> length a = 6 \<Longrightarrow> can_remove s i \<Longrightarrow>
      \<exists>r s'. remove_entry s i a = Some (r, s') \<and> ok s'
        \<and> to_map s' = (if to_map s a = Some i then (to_map s)(a := None) else to_map s)"
begin

lemma inserted:
  assumes "ok s" "length a = 6" "lookup s a = Some None" "can_insert s n"
  shows "\<exists>r s'. insert_entry s a n = Some (r, s') \<and> ok s' \<and> lookup s' a = Some r
    \<and> (\<forall>b. length b = 6 \<longrightarrow> b \<noteq> a \<longrightarrow> lookup s' b = lookup s b)"
proof -
  have "to_map s a = None" using lookup_law [OF assms(1,2)] assms(3) by simp
  from insert_law [OF assms(1,2) this assms(4)] obtain r s' where
    r: "insert_entry s a n = Some (r, s')" "ok s'" "to_map s' = (case r of None \<Rightarrow> to_map s | Some i \<Rightarrow> (to_map s)(a \<mapsto> i))"
    by blast
  then have "lookup s' a = Some r" using lookup_law [OF r(2) assms(2)] \<open>to_map s a = None\<close> by (cases r) auto
  moreover have "lookup s' b = lookup s b" if "length b = 6" "b \<noteq> a" for b
    using lookup_law [OF r(2) that(1)] lookup_law [OF assms(1) that(1)] that(2) r(3) by (cases r) auto
  ultimately show ?thesis using r(1,2) by blast
qed

lemma removed:
  assumes "ok s" "length a = 6" "lookup s a = Some (Some i)" "can_remove s i"
  shows "\<exists>r s'. remove_entry s i a = Some (r, s') \<and> ok s' \<and> lookup s' a = Some None
    \<and> (\<forall>b. length b = 6 \<longrightarrow> b \<noteq> a \<longrightarrow> lookup s' b = lookup s b)"
proof -
  have "to_map s a = Some i" using lookup_law [OF assms(1,2)] assms(3) by simp
  with remove_law [OF assms(1,2,4)] obtain r s' where
    r: "remove_entry s i a = Some (r, s')" "ok s'" "to_map s' = (to_map s)(a := None)"
    by auto
  moreover have "lookup s' b = lookup s b" if "length b = 6" "b \<noteq> a" for b
    using lookup_law [OF r(2) that(1)] lookup_law [OF assms(1) that(1)] that(2) r(3) by simp
  moreover have "lookup s' a = Some None" using lookup_law [OF r(2) assms(2)] r(3) by simp
  ultimately show ?thesis by blast
qed

end

interpretation mac: address_table tab_ok table_map MacTableLookup MacTableInsertEntry room MacTableDeleteEntry network_exists
proof unfold_locales
  show "MacTableLookup A a = Some (table_map A a)" if "tab_ok A" "length a = 6" for A a
    by (rule lookup_is_map [OF that])
  show "\<exists>r A'. MacTableInsertEntry A a n = Some (r, A') \<and> tab_ok A'
      \<and> table_map A' = (case r of None \<Rightarrow> table_map A | Some i \<Rightarrow> (table_map A)(a \<mapsto> i))"
    if "tab_ok A" "length a = 6" "table_map A a = None" "room A n" for A a n
    by (rule insert_updates [OF that(1,3,2,4)]) blast
  show "\<exists>r A'. MacTableDeleteEntry A i a = Some (r, A') \<and> tab_ok A'
      \<and> table_map A' = (if table_map A a = Some i then (table_map A)(a := None) else table_map A)"
    if "tab_ok A" "length a = 6" "network_exists A i" for A a i
    by (rule delete_updates [OF that]) blast
qed

text \<open>C9: The table of stations is a map from addresses to indices. In a well-formed table (\<open>tab_ok\<close>: chains
  that end and hold exactly the live entries with their hash, no address twice, the right count) the look-up ends
  and gives the entry of the address. Insertion of an address that is not in the table never faults, and the
  look-up then gives the new entry, and what it gave before for every other address; it fails only when
  the network is full or no entry is free. Removal of an entry under its address leaves no entry for it
  and the look-ups of all others as they were. Both give a well-formed table again.\<close>

theorem MacTable_is_map:
  assumes "tab_ok A" and "length a = 6"
  shows "(\<exists>r. MacTableLookup A a = Some r)
    \<and> (MacTableLookup A a = Some None \<longrightarrow> room A n \<longrightarrow>
      (\<exists>r A'. MacTableInsertEntry A a n = Some (r, A') \<and> tab_ok A' \<and> MacTableLookup A' a = Some r
        \<and> (\<forall>b. length b = 6 \<longrightarrow> b \<noteq> a \<longrightarrow> MacTableLookup A' b = MacTableLookup A b)
        \<and> (r = None \<longrightarrow> full_network A n \<or> (\<forall>i. first_index A \<le> i \<and> i < MAX_NUMBER_OF_MAC \<longrightarrow> live (Content A) i))))
    \<and> (\<forall>i. MacTableLookup A a = Some (Some i) \<longrightarrow> network_exists A i \<longrightarrow>
      (\<exists>r A'. MacTableDeleteEntry A i a = Some (r, A') \<and> tab_ok A' \<and> MacTableLookup A' a = Some None
        \<and> (\<forall>b. length b = 6 \<longrightarrow> b \<noteq> a \<longrightarrow> MacTableLookup A' b = MacTableLookup A b)))"
proof (intro conjI impI allI)
  show "\<exists>r. MacTableLookup A a = Some r" using mac.lookup_law [OF assms] by blast
  assume l: "MacTableLookup A a = Some None" and n: "room A n"
  then have "table_map A a = None" using mac.lookup_law [OF assms] by simp
  then obtain r A' where "MacTableInsertEntry A a n = Some (r, A')"
    "r = None \<longleftrightarrow> full_network A n \<or> (\<forall>i. first_index A \<le> i \<and> i < MAX_NUMBER_OF_MAC \<longrightarrow> live (Content A) i)"
    using insert_updates [OF assms(1) _ assms(2) n] by metis
  with mac.inserted [OF assms l n] show "\<exists>r A'. MacTableInsertEntry A a n = Some (r, A') \<and> tab_ok A' \<and> MacTableLookup A' a = Some r
        \<and> (\<forall>b. length b = 6 \<longrightarrow> b \<noteq> a \<longrightarrow> MacTableLookup A' b = MacTableLookup A b)
        \<and> (r = None \<longrightarrow> full_network A n \<or> (\<forall>i. first_index A \<le> i \<and> i < MAX_NUMBER_OF_MAC \<longrightarrow> live (Content A) i))"
    by auto
next
  fix i assume "MacTableLookup A a = Some (Some i)" "network_exists A i"
  from mac.removed [OF assms this] show "\<exists>r A'. MacTableDeleteEntry A i a = Some (r, A') \<and> tab_ok A' \<and> MacTableLookup A' a = Some None
        \<and> (\<forall>b. length b = 6 \<longrightarrow> b \<noteq> a \<longrightarrow> MacTableLookup A' b = MacTableLookup A b)" .
qed

definition ex_table :: wpa_adapter where
  "ex_table = (ex_adapter OPMODE_AP [2, 0, 0, 0, 0, 4] zero_entry 0)
     \<lparr>Hash := replicate 256 None, MacTabSize := 0\<rparr>"

lemma ex_table_ok: "tab_ok ex_table"
proof -
  have n: "Entry ex_table i = zero_entry" if "i < MAX_NUMBER_OF_MAC" for i
    using that by (cases "i = 1") (simp_all add: ex_table_def ex_adapter_def)
  have "length (Content ex_table) = MAX_NUMBER_OF_MAC" by (simp add: ex_table_def ex_adapter_def)
  then have "live_set ex_table = {}" using n by (auto simp: live_def zero_entry_def)
  moreover from this have "linked (Content ex_table) (Hash ex_table) (\<lambda>_. []) (live_set ex_table)"
    by (simp add: linked_def ex_table_def)
  ultimately show ?thesis using n by (auto simp: tab_ok_def ex_table_def ex_adapter_def zero_entry_def)
qed

theorem MacTable_is_map_witness:
  "\<exists>r A'. MacTableInsertEntry ex_table [2, 0, 0, 0, 0, 1] 0 = Some (r, A') \<and> tab_ok A'
    \<and> MacTableLookup A' [2, 0, 0, 0, 0, 1] = Some r"
proof -
  have "MacTableLookup ex_table [2, 0, 0, 0, 0, 1] = Some None"
    by (simp add: MacTableLookup_def ex_table_def MAC_ADDR_HASH_INDEX_def lookup_walk.simps)
  moreover have "room ex_table 0" by (simp add: room_def MBSS_MR_APIDX_SANITY_CHECK_def ex_table_def ex_adapter_def)
  ultimately show ?thesis using MacTable_is_map [OF ex_table_ok, of "[2, 0, 0, 0, 0, 1]" 0] by auto
qed

end
