(* ===== verification/Wpa_Properties.thy ===== *)
theory Wpa_Properties
  imports Wpa_Examples
begin

text \<open>
  The properties of the key handshakes. The first runs the pairwise handshake between two adapters,
  from the start at the access point to the last message.
\<close>

section \<open>A run of the handshake\<close>

definition last_frame :: "wpa_adapter \<Rightarrow> bytes" where
  "last_frame X = (case last (out X) of RTMPToWirelessSta _ _ b _ \<Rightarrow> b | _ \<Rightarrow> [])"

text \<open>The frame that \<open>X\<close> has sent last arrives at \<open>Y\<close>, behind headers \<open>h\<close> and followed by \<open>j\<close>.\<close>

definition deliver :: "wpa_clock \<Rightarrow> bytes \<Rightarrow> bytes \<Rightarrow> wpa_adapter \<Rightarrow> wpa_adapter \<Rightarrow> wpa_adapter option" where
  "deliver clk h j X Y = WpaEAPOLKeyAction clk (h @ last_frame X @ j) (length (h @ last_frame X @ j)) Y"

definition four_way :: "(nat \<Rightarrow> wpa_clock) \<Rightarrow> (nat \<Rightarrow> bytes) \<Rightarrow> (nat \<Rightarrow> bytes) \<Rightarrow> nat \<Rightarrow> wpa_adapter \<Rightarrow> wpa_adapter
    \<Rightarrow> (wpa_adapter \<times> wpa_adapter) option" where
  "four_way clk h j i A S = do {
     A \<leftarrow> WPAStart4WayHS (clk 0) i PEER_MSG1_RETRY_EXEC_INTV A;
     S \<leftarrow> deliver (clk 1) (h 1) (j 1) A S;
     A \<leftarrow> deliver (clk 2) (h 2) (j 2) S A;
     S \<leftarrow> deliver (clk 3) (h 3) (j 3) A S;
     A \<leftarrow> deliver (clk 4) (h 4) (j 4) S A;
     Some (A, S)
   }"

text \<open>The headers of a frame from the address \<open>a\<close>, and what may follow a frame.\<close>

definition header_from :: "bytes \<Rightarrow> bytes \<Rightarrow> bool" where
  "header_from a h \<longleftrightarrow> length h = 32 \<and> take 6 (drop 10 h) = a"

lemma last_frame_sent: "out X = xs @ [sent e src b x] \<Longrightarrow> last_frame X = b"
  by (simp add: last_frame_def sent_def)

lemma delivered:
  assumes "header_from a h" and "length j < 65536" and "hs_message t e cipher idx c f" and "length c \<le> 400"
  shows "received a (wire c f) (h @ wire c f @ j) (length (h @ wire c f @ j))"
  using assms wire_length [OF hs_messageD(1) [OF assms(3)]]
  by (auto simp: received_def header_from_def)

lemma hs_message_short: "hs_message t e cipher idx c f \<Longrightarrow> length c \<le> 400"
  by (simp add: hs_message_def carries_def)

section \<open>The sides stay what they are\<close>

definition same_station :: "wpa_entry \<Rightarrow> wpa_entry \<Rightarrow> bool" where
  "same_station e e' \<longleftrightarrow> EntryType e' = EntryType e \<and> AuthMode e' = AuthMode e \<and> WepStatus e' = WepStatus e \<and> Sst e' = Sst e
     \<and> apidx e' = apidx e \<and> Addr e' = Addr e \<and> pNext e' = pNext e \<and> entry_ok e'"

lemma ap_side_upd:
  assumes "ap_side A i" and "same_station (Entry A i) e'"
  shows "ap_side (upd_entry i (\<lambda>_. e') A) i"
proof -
  note a = assms(1) [unfolded ap_side_def Let_def]
  have "MacTableLookup (upd_entry i (\<lambda>_. e') A) (Addr (Entry A i)) = Some (Some i)"
    using a assms(2) by (intro lookup_upd) (simp_all add: same_station_def)
  moreover have "mbss_rsnie e' m = mbss_rsnie (Entry A i) m" for m
    using assms(2) by (simp add: mbss_rsnie_def same_station_def)
  ultimately show ?thesis using a assms(2)
    by (simp add: ap_side_def Let_def same_station_def psk_modes_def)
qed

lemma ap_side_put_out: "ap_side A i \<Longrightarrow> ap_side (put_out x A) i"
  by (simp add: ap_side_def Let_def lookup_put_out)

lemma sta_side_upd:
  assumes "sta_side S" and "same_station (Entry S BSSID_WCID) e'" and "AS_INITPSK \<le> WpaState e'"
  shows "sta_side (upd_entry BSSID_WCID (\<lambda>_. e') S)"
proof -
  note s = assms(1) [unfolded sta_side_def Let_def]
  have "MacTableLookup (upd_entry BSSID_WCID (\<lambda>_. e') S) (Addr (Entry S BSSID_WCID)) = Some (Some BSSID_WCID)"
    using s assms(2) by (intro lookup_upd) (simp_all add: same_station_def)
  then show ?thesis using s assms(2,3)
    by (simp add: sta_side_def Let_def same_station_def psk_modes_def)
qed

lemma sta_side_put_out: "sta_side S \<Longrightarrow> sta_side (put_out x S)"
  by (simp add: sta_side_def Let_def lookup_put_out)

text \<open>The next replay counter.\<close>

lemma next_counter:
  assumes "length v = 8" and "be_number v + 1 < 256 ^ 8"
  shows "be_number (ADD_ONE_To_64BIT_VAR v) = be_number v + 1"
  using assms by (simp add: ADD_ONE_number)

section \<open>The steps of the run\<close>

lemma hs_message_cong:
  "R_Counter e' = R_Counter e \<Longrightarrow> WepStatus e' = WepStatus e \<Longrightarrow> PTK e' = PTK e \<Longrightarrow>
    hs_message t e' cipher idx c f = hs_message t e cipher idx c f"
  by (simp add: hs_message_def)

text \<open>The adapters belong to one network and have the same master key.\<close>

definition peers :: "wpa_adapter \<Rightarrow> nat \<Rightarrow> wpa_adapter \<Rightarrow> bool" where
  "peers A i S \<longleftrightarrow> (let e = Entry A i; m = MBSSID A ! apidx e; e' = Entry S BSSID_WCID in
     Addr e = CurrentAddress S \<and> Addr e' = Bssid m \<and> sPMK (StaCfg S) = PMK m \<and> WepStatus e' = WepStatus e
     \<and> GroupCipher (StaCfg S) = GroupKeyWepStatus m \<and> DefaultKeyId m < 4)"

lemma peers_keep:
  assumes "peers A i S" and "same_station (Entry A i) (Entry A' i)" and "MBSSID A' = MBSSID A"
    and "same_station (Entry S BSSID_WCID) (Entry S' BSSID_WCID)" and "CurrentAddress S' = CurrentAddress S"
    and "sPMK (StaCfg S') = sPMK (StaCfg S)" and "GroupCipher (StaCfg S') = GroupCipher (StaCfg S)"
  shows "peers A' i S'"
  using assms by (simp add: peers_def Let_def same_station_def)

abbreviation net :: "wpa_adapter \<Rightarrow> nat \<Rightarrow> mbss" where
  "net A i \<equiv> MBSSID A ! apidx (Entry A i)"

lemma start_run:
  assumes A: "ap_side A i" and st: "AS_INITPMK \<le> WpaState (Entry A i)" "WpaState (Entry A i) \<le> AS_PTKSTART"
  obtains A1 f where "WPAStart4WayHS clk i TimeInterval A = Some A1" "ap_side A1 i" "same_station (Entry A i) (Entry A1 i)"
    "MBSSID A1 = MBSSID A" "WpaState (Entry A1 i) = AS_PTKSTART" "R_Counter (Entry A1 i) = ADD_ONE_To_64BIT_VAR (R_Counter (Entry A i))"
    "hs_message EAPOL_PAIR_MSG_1 (Entry A1 i) (GroupKeyWepStatus (net A i)) 0 [] f" "KeyNonce f = ANonce (Entry A1 i)"
    "last_frame A1 = wire [] f"
proof -
  note a = A [unfolded ap_side_def Let_def]
  obtain nonce f e where n: "length nonce = 32" and e: "e = (Entry A i)\<lparr>R_Counter := ADD_ONE_To_64BIT_VAR (R_Counter (Entry A i)), ANonce := nonce\<rparr>"
    and f: "hs_message EAPOL_PAIR_MSG_1 e (GroupKeyWepStatus (net A i)) 0 [] f" "KeyNonce f = nonce"
    and run: "WPAStart4WayHS clk i TimeInterval A =
      Some (upd_entry i (\<lambda>e. e\<lparr>RetryTimer := RTMPModTimer (halted A) TimeInterval (RetryTimer e), WpaState := AS_PTKSTART\<rparr>)
        (put_out (sent e (Bssid (net A i)) (wire [] f) (\<not> PortSecured e)) (upd_entry i (\<lambda>_. e) A)))"
    by (rule WPAStart4WayHS_message1 [OF A st, of clk TimeInterval])
  let ?e1 = "e\<lparr>RetryTimer := RTMPModTimer (halted A) TimeInterval (RetryTimer e), WpaState := AS_PTKSTART\<rparr>"
  let ?A1 = "put_out (sent e (Bssid (net A i)) (wire [] f) (\<not> PortSecured e)) (upd_entry i (\<lambda>_. ?e1) A)"
  have eq: "upd_entry i (\<lambda>e. e\<lparr>RetryTimer := RTMPModTimer (halted A) TimeInterval (RetryTimer e), WpaState := AS_PTKSTART\<rparr>)
        (put_out x (upd_entry i (\<lambda>_. e) A)) = put_out x (upd_entry i (\<lambda>_. ?e1) A)" for x
    using a by (simp add: upd_entry_def put_out_def)
  have same: "same_station (Entry A i) ?e1" using a n by (simp add: same_station_def e entry_ok_def)
  have e1: "Entry ?A1 i = ?e1" using a by simp
  show ?thesis
  proof (rule that [of ?A1 f])
    show "WPAStart4WayHS clk i TimeInterval A = Some ?A1" unfolding run eq ..
    show "ap_side ?A1 i" by (intro ap_side_put_out ap_side_upd A same)
    show "hs_message EAPOL_PAIR_MSG_1 (Entry ?A1 i) (GroupKeyWepStatus (net A i)) 0 [] f"
      unfolding e1 using f(1) by (simp add: hs_message_cong [of ?e1 e])
    show "last_frame ?A1 = wire [] f" by (rule last_frame_sent) simp
  qed (use same e1 f(2) in \<open>simp_all add: e\<close>)
qed

text \<open>The pairwise key of two nonces.\<close>

definition derived :: "bytes \<Rightarrow> bytes \<Rightarrow> bytes \<Rightarrow> bytes \<Rightarrow> bytes \<Rightarrow> bytes \<Rightarrow> bool" where
  "derived K an aa sn sa ptk \<longleftrightarrow> (\<exists>b. WpaDerivePTK K an aa sn sa (replicate 80 0) 64 = Some b \<and> length b = 80 \<and> ptk = take 64 b)"

lemma message1_run:
  assumes A: "ap_side A i" and S: "sta_side S" and p: "peers A i S"
    and m1: "hs_message EAPOL_PAIR_MSG_1 (Entry A i) (GroupKeyWepStatus (net A i)) 0 [] f" "KeyNonce f = ANonce (Entry A i)"
      "last_frame A = wire [] f"
    and h: "header_from (Bssid (net A i)) h" "length j < 65536"
    and later: "be_number (R_Counter (Entry S BSSID_WCID)) < be_number (R_Counter (Entry A i))"
  obtains S1 c g where "deliver clk h j A S = Some S1" "sta_side S1" "same_station (Entry S BSSID_WCID) (Entry S1 BSSID_WCID)"
    "StaCfg S1 = StaCfg S" "CurrentAddress S1 = CurrentAddress S" "SharedKey S1 = SharedKey S"
    "R_Counter (Entry S1 BSSID_WCID) = R_Counter (Entry A i)" "ANonce (Entry S1 BSSID_WCID) = ANonce (Entry A i)"
    "derived (PMK (net A i)) (ANonce (Entry A i)) (Bssid (net A i)) (SNonce (Entry S1 BSSID_WCID)) (Addr (Entry A i)) (PTK (Entry S1 BSSID_WCID))"
    "hs_message EAPOL_PAIR_MSG_2 (Entry S1 BSSID_WCID) (GroupKeyWepStatus (net A i)) 0 c g" "KeyNonce g = SNonce (Entry S1 BSSID_WCID)"
    "c \<noteq> []" "length c \<le> 255" "last_frame S1 = wire c g"
proof -
  let ?i = BSSID_WCID
  note a = A [unfolded ap_side_def Let_def] and s = S [unfolded sta_side_def Let_def] and q = p [unfolded peers_def Let_def]
  let ?Msg = "h @ wire [] f @ j"
  have rcv: "received (Bssid (net A i)) (wire [] f) ?Msg (length ?Msg)" by (rule delivered [OF h m1(1)]) simp
  have len: "length (KeyNonce f) = 32" "length (ReplayCounter f) = 8" "ReplayCounter f = R_Counter (Entry A i)"
    using a m1(2) hs_messageD(4) [OF m1(1)] by (simp_all add: entry_ok_def)
  obtain nonce ptk e c g where
    ptk: "WpaDerivePTK (sPMK (StaCfg S)) (KeyNonce f) (Addr (Entry S ?i)) nonce (CurrentAddress S) (replicate 80 0) 64 = Some ptk" "length ptk = 80" "length nonce = 32"
    and e: "e = (Entry S ?i)\<lparr>R_Counter := ReplayCounter f, ANonce := KeyNonce f, SNonce := nonce, PTK := take 64 ptk,
           WpaState := AS_PTKINIT_NEGOTIATING\<rparr>"
    and g: "hs_message EAPOL_PAIR_MSG_2 e (GroupCipher (StaCfg S)) 0 c g" "KeyNonce g = nonce" "c \<noteq> []" "length c \<le> 255"
    and run: "PeerPairMsg1Action clk ?i ?Msg (length ?Msg) S
      = Some (put_out (sent e (CurrentAddress S) (wire c g) True) (upd_entry ?i (\<lambda>_. e) S))"
    by (rule PeerPairMsg1Action_message2 [OF S m1(1) rcv len(1,2) later [folded len(3)], of clk])
  let ?S1 = "put_out (sent e (CurrentAddress S) (wire c g) True) (upd_entry ?i (\<lambda>_. e) S)"
  have same: "same_station (Entry S ?i) e" using s len ptk(2,3) by (simp add: same_station_def e entry_ok_def)
  have look: "MacTableLookup S (Bssid (net A i)) = Some (Some ?i)" using s q by simp
  have psk: "psk_modes (Entry S ?i) (GroupKeyWepStatus (net A i))" using s q by simp
  have ki: "KeyInfo f = eapol_key_info True EAPOL_PAIR_MSG_1 (desc_version (WepStatus (Entry S ?i)) (GroupKeyWepStatus (net A i))) 0 (KEY_INFO [0, 0])"
    using hs_messageD(5) [OF m1(1)] q by simp
  have "WpaEAPOLKeyAction clk ?Msg (length ?Msg) S = PeerPairMsg1Action clk ?i ?Msg (length ?Msg) S"
    using s by (intro key_action_dispatch(1) [OF look refl _ _ _ psk hs_messageD(1-3) [OF m1(1)] ki rcv]) simp_all
  then have del: "deliver clk h j A S = Some ?S1" unfolding deliver_def m1(3) by (simp only: run)
  show ?thesis
  proof (rule that [of ?S1 c g])
    show "sta_side ?S1" by (intro sta_side_put_out sta_side_upd S same) (simp add: e wpa_state_order)
    show "last_frame ?S1 = wire c g" by (rule last_frame_sent) simp
    show "derived (PMK (net A i)) (ANonce (Entry A i)) (Bssid (net A i)) (SNonce (Entry ?S1 ?i)) (Addr (Entry A i)) (PTK (Entry ?S1 ?i))"
      using ptk q m1(2) s by (simp add: derived_def e)
  qed (use del same s q g len m1(2) in \<open>simp_all add: e\<close>)
qed

lemma message2_run:
  assumes A: "ap_side A i" and st: "WpaState (Entry A i) = AS_PTKSTART" and q: "peers A i S"
    and m2: "hs_message EAPOL_PAIR_MSG_2 e0 (GroupKeyWepStatus (net A i)) 0 c0 f" "c0 \<noteq> []" "length c0 \<le> 255" "last_frame S = wire c0 f"
      "WepStatus e0 = WepStatus (Entry A i)" "R_Counter e0 = R_Counter (Entry A i)" "length (KeyNonce f) = 32"
    and ptk: "derived (PMK (net A i)) (ANonce (Entry A i)) (Bssid (net A i)) (KeyNonce f) (Addr (Entry A i)) (PTK e0)"
    and h: "header_from (CurrentAddress S) h" "length j < 65536"
  obtains A1 c g where "deliver clk h j S A = Some A1" "ap_side A1 i" "same_station (Entry A i) (Entry A1 i)" "MBSSID A1 = MBSSID A"
    "WpaState (Entry A1 i) = AS_PTKINIT_NEGOTIATING" "PTK (Entry A1 i) = PTK e0" "ANonce (Entry A1 i) = ANonce (Entry A i)"
    "SNonce (Entry A1 i) = KeyNonce f" "R_Counter (Entry A1 i) = ADD_ONE_To_64BIT_VAR (R_Counter (Entry A i))"
    "hs_message EAPOL_PAIR_MSG_3 (Entry A1 i) (GroupKeyWepStatus (net A i)) (word_of_nat (DefaultKeyId (net A i))) c g"
    "KeyNonce g = ANonce (Entry A i)" "c \<noteq> []"
    "clears (desc_version (WepStatus (Entry A1 i)) (GroupKeyWepStatus (net A i))) (PTK (Entry A1 i)) c g (msg3_data (Entry A i) (net A i))"
    "last_frame A1 = wire c g"
proof -
  note a = A [unfolded ap_side_def Let_def] and q = q [unfolded peers_def Let_def]
  let ?Msg = "h @ wire c0 f @ j"
  have rcv: "received (CurrentAddress S) (wire c0 f) ?Msg (length ?Msg)"
    by (rule delivered [OF h m2(1)]) (use m2(3) in simp)
  obtain ptk where k: "WpaDerivePTK (PMK (net A i)) (ANonce (Entry A i)) (Bssid (net A i)) (KeyNonce f) (Addr (Entry A i)) (replicate 80 0) 64 = Some ptk"
    "length ptk = 80" "PTK e0 = take 64 ptk"
    using ptk by (auto simp: derived_def)
  have cnt: "ReplayCounter f = R_Counter (Entry A i)" using hs_messageD(4) [OF m2(1)] m2(6) by simp
  have "AS_PTKSTART \<le> WpaState (Entry A i)" using st by simp
  then obtain e c g where
    e: "e = (Entry A i)\<lparr>SNonce := KeyNonce f, PTK := take 64 ptk, RetryTimer := RTMPCancelTimer (RetryTimer (Entry A i)),
           WpaState := AS_PTKINIT_NEGOTIATING, R_Counter := ADD_ONE_To_64BIT_VAR (R_Counter (Entry A i))\<rparr>"
    and g: "hs_message EAPOL_PAIR_MSG_3 e (GroupKeyWepStatus (net A i)) (word_of_nat (DefaultKeyId (net A i))) c g"
      "KeyNonce g = ANonce (Entry A i)" "c \<noteq> []"
      "clears (desc_version (WepStatus e) (GroupKeyWepStatus (net A i))) (PTK e) c g (msg3_data (Entry A i) (net A i))"
    and run: "PeerPairMsg2Action clk i ?Msg (length ?Msg) A
      = Some (upd_entry i (\<lambda>e. e\<lparr>ReTryCounter := PEER_MSG3_RETRY_TIMER_CTR,
                 RetryTimer := RTMPSetTimer (halted A) PEER_MSG3_RETRY_EXEC_INTV (RetryTimer e)\<rparr>)
          (put_out (sent e (Bssid (net A i)) (wire c g) (\<not> PortSecured e)) (upd_entry i (\<lambda>_. e) A)))"
    by (rule PeerPairMsg2Action_message3 [OF A _ m2(1,3) rcv m2(7) cnt k, of clk]) blast
  let ?e1 = "e\<lparr>ReTryCounter := PEER_MSG3_RETRY_TIMER_CTR,
                 RetryTimer := RTMPSetTimer (halted A) PEER_MSG3_RETRY_EXEC_INTV (RetryTimer e)\<rparr>"
  let ?A1 = "put_out (sent e (Bssid (net A i)) (wire c g) (\<not> PortSecured e)) (upd_entry i (\<lambda>_. ?e1) A)"
  have eq: "upd_entry i (\<lambda>e. e\<lparr>ReTryCounter := PEER_MSG3_RETRY_TIMER_CTR,
                 RetryTimer := RTMPSetTimer (halted A) PEER_MSG3_RETRY_EXEC_INTV (RetryTimer e)\<rparr>)
        (put_out x (upd_entry i (\<lambda>_. e) A)) = put_out x (upd_entry i (\<lambda>_. ?e1) A)" for x
    using a by (simp add: upd_entry_def put_out_def)
  have same: "same_station (Entry A i) ?e1" using a m2(7) k(2) by (simp add: same_station_def e entry_ok_def)
  have e1: "Entry ?A1 i = ?e1" using a by simp
  have look: "MacTableLookup A (CurrentAddress S) = Some (Some i)" using a q by simp
  have psk: "psk_modes (Entry A i) (GroupKeyWepStatus (net A i))" using a by blast
  have ki: "KeyInfo f = eapol_key_info True EAPOL_PAIR_MSG_2 (desc_version (WepStatus (Entry A i)) (GroupKeyWepStatus (net A i))) 0 (KEY_INFO [0, 0])"
    using hs_messageD(5) [OF m2(1)] m2(5) by simp
  have "WpaEAPOLKeyAction clk ?Msg (length ?Msg) A = PeerPairMsg2Action clk i ?Msg (length ?Msg) A"
    using a st by (intro key_action_dispatch(2) [OF look refl _ _ _ psk hs_messageD(1-3) [OF m2(1)] ki rcv refl m2(2)])
      (simp_all add: wpa_state_order)
  then have del: "deliver clk h j S A = Some ?A1" unfolding deliver_def m2(4) by (simp only: run eq)
  show ?thesis
  proof (rule that [of ?A1 c g])
    show "ap_side ?A1 i" by (intro ap_side_put_out ap_side_upd A same)
    show "hs_message EAPOL_PAIR_MSG_3 (Entry ?A1 i) (GroupKeyWepStatus (net A i)) (word_of_nat (DefaultKeyId (net A i))) c g"
      unfolding e1 using g(1) by (simp add: hs_message_cong [of ?e1 e])
    show "clears (desc_version (WepStatus (Entry ?A1 i)) (GroupKeyWepStatus (net A i))) (PTK (Entry ?A1 i)) c g (msg3_data (Entry A i) (net A i))"
      unfolding e1 using g(4) by simp
    show "last_frame ?A1 = wire c g" by (rule last_frame_sent) simp
  qed (use del same e1 g k(3) in \<open>simp_all add: e\<close>)
qed


lemma message3_run:
  assumes S: "sta_side S" and p: "peers A i S"
    and m3: "hs_message EAPOL_PAIR_MSG_3 (Entry A i) (GroupKeyWepStatus (net A i)) idx c0 f" "c0 \<noteq> []" "last_frame A = wire c0 f"
      "clears (desc_version (WepStatus (Entry A i)) (GroupKeyWepStatus (net A i))) (PTK (Entry A i)) c0 f (msg3_data e' (net A i))"
    and m: "rsn_ie_ok (fst (mbss_rsnie e' (net A i))) (snd (mbss_rsnie e' (net A i)))" "length (GTK (net A i)) = 32"
    and f: "KeyNonce f = ANonce (Entry S BSSID_WCID)" "length (R_Counter (Entry A i)) = 8"
      "be_number (R_Counter (Entry S BSSID_WCID)) < be_number (R_Counter (Entry A i))"
    and ptk: "PTK (Entry S BSSID_WCID) = PTK (Entry A i)"
    and h: "header_from (Bssid (net A i)) h" "length j < 65536"
  obtains S1 g where "deliver clk h j A S = Some S1" "WpaState (Entry S1 BSSID_WCID) = AS_PTKINITDONE"
    "PTK (Entry S1 BSSID_WCID) = PTK (Entry A i)" "WepStatus (Entry S1 BSSID_WCID) = WepStatus (Entry A i)"
    "R_Counter (Entry S1 BSSID_WCID) = R_Counter (Entry A i)"
    "PairwiseKey (Entry S1 BSSID_WCID) = pairwise_key_of False (WepStatus (Entry A i)) (PTK (Entry A i))"
    "PortSecured (Entry S1 BSSID_WCID)" "sPortSecured (StaCfg S1)" "sPTK (StaCfg S1) = PTK (Entry A i)"
    "sDefaultKeyId (StaCfg S1) = DefaultKeyId (net A i)"
    "take (gtk_length (GroupKeyWepStatus (net A i))) (sGTK (StaCfg S1)) = take (gtk_length (GroupKeyWepStatus (net A i))) (GTK (net A i))"
    "SharedKey S1 ! 0 ! DefaultKeyId (net A i) = sta_group_key (GroupKeyWepStatus (net A i)) (GTK (net A i))"
    "hs_message EAPOL_PAIR_MSG_4 (Entry S1 BSSID_WCID) (GroupKeyWepStatus (net A i)) 0 [] g" "last_frame S1 = wire [] g"
proof -
  let ?i = BSSID_WCID
  note s = S [unfolded sta_side_def Let_def] and q = p [unfolded peers_def Let_def]
  let ?Msg = "h @ wire c0 f @ j"
  have rcv: "received (Bssid (net A i)) (wire c0 f) ?Msg (length ?Msg)"
    by (rule delivered [OF h m3(1) hs_message_short [OF m3(1)]])
  have cnt: "ReplayCounter f = R_Counter (Entry A i)" by (rule hs_messageD(4) [OF m3(1)])
  obtain e g G S' where e: "e = (Entry S ?i)\<lparr>R_Counter := ReplayCounter f\<rparr>"
    and g: "hs_message EAPOL_PAIR_MSG_4 e (GroupCipher (StaCfg S)) 0 [] g"
    and run: "PeerPairMsg3Action clk ?i ?Msg (length ?Msg) S = Some S'"
    and e': "Entry S' ?i = e\<lparr>WpaState := AS_PTKINITDONE, PairwiseKey := pairwise_key_of False (WepStatus e) (PTK e),
       PortSecured := True, PrivacyFilter := Ndis802_11PrivFilterAcceptAll\<rparr>"
    and cfg: "StaCfg S' = (StaCfg S)\<lparr>sGTK := G, sDefaultKeyId := DefaultKeyId (net A i), sPTK := PTK e, sPortSecured := True\<rparr>"
    and G: "take (gtk_length (GroupKeyWepStatus (net A i))) G = take (gtk_length (GroupKeyWepStatus (net A i))) (GTK (net A i))"
    and sk: "SharedKey S' = (SharedKey S)[0 := (SharedKey S ! 0)[DefaultKeyId (net A i) := sta_group_key (GroupKeyWepStatus (net A i)) (GTK (net A i))]]"
    and o: "out S' = out S @ [RTMP_IndicateMediaState, sent e (CurrentAddress S) (wire [] g) True]"
    by (rule PeerPairMsg3Action_message4 [OF S m3(1,2,4) rcv f(1) _ _ ptk _ m, of clk]) (use q f cnt in simp_all)
  have look: "MacTableLookup S (Bssid (net A i)) = Some (Some ?i)" using s q by simp
  have psk: "psk_modes (Entry S ?i) (GroupKeyWepStatus (net A i))" using s q by simp
  have ki: "KeyInfo f = eapol_key_info True EAPOL_PAIR_MSG_3 (desc_version (WepStatus (Entry S ?i)) (GroupKeyWepStatus (net A i))) idx (KEY_INFO [0, 0])"
    using hs_messageD(5) [OF m3(1)] q by simp
  have "WpaEAPOLKeyAction clk ?Msg (length ?Msg) S = PeerPairMsg3Action clk ?i ?Msg (length ?Msg) S"
    using s by (intro key_action_dispatch(3) [OF look refl _ _ _ psk hs_messageD(1-3) [OF m3(1)] ki rcv]) simp_all
  then have del: "deliver clk h j A S = Some S'" unfolding deliver_def m3(3) by (simp only: run)
  show ?thesis
  proof (rule that [of S' g])
    show "hs_message EAPOL_PAIR_MSG_4 (Entry S' ?i) (GroupKeyWepStatus (net A i)) 0 [] g"
      using g q by (subst hs_message_cong [of _ e]) (simp_all add: e')
    show "last_frame S' = wire [] g" using o by (intro last_frame_sent [where xs = "out S @ [RTMP_IndicateMediaState]"]) simp
    show "SharedKey S' ! 0 ! DefaultKeyId (net A i) = sta_group_key (GroupKeyWepStatus (net A i)) (GTK (net A i))"
      using s q by (simp add: sk)
  qed (use del e' e q cnt ptk cfg G in simp_all)
qed

lemma message4_run:
  assumes A: "ap_side A i" and st: "WpaState (Entry A i) = AS_PTKINIT_NEGOTIATING"
    and m4: "hs_message EAPOL_PAIR_MSG_4 e0 (GroupKeyWepStatus (net A i)) 0 [] f" "last_frame S = wire [] f"
      "WepStatus e0 = WepStatus (Entry A i)" "R_Counter e0 = R_Counter (Entry A i)" "PTK e0 = PTK (Entry A i)"
    and h: "header_from (Addr (Entry A i)) h" "length j < 65536"
  obtains A1 where "deliver clk h j S A = Some A1" "WpaState (Entry A1 i) = AS_PTKINITDONE" "PortSecured (Entry A1 i)"
    "PTK (Entry A1 i) = PTK (Entry A i)"
    "PairwiseKey (Entry A1 i) = pairwise_key_of True (WepStatus (Entry A i)) (PTK (Entry A i))"
    "GTKState (Entry A1 i) = REKEY_ESTABLISHED" "MBSSID A1 = MBSSID A"
    "SNonce (Entry A1 i) = SNonce (Entry A i)" "ANonce (Entry A1 i) = ANonce (Entry A i)" "same_station (Entry A i) (Entry A1 i)"
proof -
  note a = A [unfolded ap_side_def Let_def]
  let ?Msg = "h @ wire [] f @ j"
  have rcv: "received (Addr (Entry A i)) (wire [] f) ?Msg (length ?Msg)" by (rule delivered [OF h m4(1)]) simp
  have cnt: "ReplayCounter f = R_Counter (Entry A i)" using hs_messageD(4) [OF m4(1)] m4(4) by simp
  have "AS_PTKINIT_NEGOTIATING \<le> WpaState (Entry A i)" using st by simp
  then obtain A' where run: "PeerPairMsg4Action clk i ?Msg (length ?Msg) A = Some A'"
    and A': "Entry A' i = (Entry A i)\<lparr>PairwiseKey := pairwise_key_of True (WepStatus (Entry A i)) (PTK (Entry A i)), PrivacyFilter := Ndis802_11PrivFilterAcceptAll,
       WpaState := AS_PTKINITDONE, PortSecured := True, GTKState := REKEY_ESTABLISHED, RetryTimer := RTMPCancelTimer (RetryTimer (Entry A i))\<rparr>"
      "MBSSID A' = MBSSID A"
    by (rule PeerPairMsg4Action_done [OF A _ m4(1) rcv cnt m4(5) [symmetric], of clk])
  have look: "MacTableLookup A (Addr (Entry A i)) = Some (Some i)" using a by simp
  have psk: "psk_modes (Entry A i) (GroupKeyWepStatus (net A i))" using a by blast
  have ki: "KeyInfo f = eapol_key_info True EAPOL_PAIR_MSG_4 (desc_version (WepStatus (Entry A i)) (GroupKeyWepStatus (net A i))) 0 (KEY_INFO [0, 0])"
    using hs_messageD(5) [OF m4(1)] m4(3) by simp
  have "WpaEAPOLKeyAction clk ?Msg (length ?Msg) A = PeerPairMsg4Action clk i ?Msg (length ?Msg) A"
    using a st by (intro key_action_dispatch(4) [OF look refl _ _ _ psk hs_messageD(1-3) [OF m4(1)] ki rcv refl])
      (simp_all add: wpa_state_order)
  then have del: "deliver clk h j S A = Some A'" unfolding deliver_def m4(2) by (simp only: run)
  show ?thesis by (rule that [of A']) (use del A' a in \<open>simp_all add: same_station_def entry_ok_def\<close>)
qed


text \<open>The first two messages: both sides have the pairwise key, and message 3 is on its way.\<close>

lemma first_half:
  assumes A: "ap_side A i" and S: "sta_side S" and p: "peers A i S"
    and st: "AS_INITPMK \<le> WpaState (Entry A i)" "WpaState (Entry A i) \<le> AS_PTKSTART"
    and h: "header_from (Bssid (net A i)) (h 1)" "header_from (CurrentAddress S) (h 2)" and j: "\<And>n. length (j n) < 65536"
    and cnt: "be_number (R_Counter (Entry S BSSID_WCID)) \<le> be_number (R_Counter (Entry A i))"
      "be_number (R_Counter (Entry A i)) + 2 < 256 ^ 8"
  obtains A1 A2 S1 c f where "WPAStart4WayHS (clk 0) i TimeInterval A = Some A1"
    "deliver (clk 1) (h 1) (j 1) A1 S = Some S1" "deliver (clk 2) (h 2) (j 2) S1 A1 = Some A2"
    "ap_side A2 i" "sta_side S1" "peers A2 i S1" "net A2 i = net A i" "MBSSID A2 = MBSSID A" "CurrentAddress S1 = CurrentAddress S"
    "WpaState (Entry A2 i) = AS_PTKINIT_NEGOTIATING"
    "derived (PMK (net A2 i)) (ANonce (Entry A2 i)) (Bssid (net A2 i)) (SNonce (Entry A2 i)) (Addr (Entry A2 i)) (PTK (Entry A2 i))"
    "PTK (Entry S1 BSSID_WCID) = PTK (Entry A2 i)" "ANonce (Entry S1 BSSID_WCID) = ANonce (Entry A2 i)"
    "be_number (R_Counter (Entry S1 BSSID_WCID)) < be_number (R_Counter (Entry A2 i))"
    "hs_message EAPOL_PAIR_MSG_3 (Entry A2 i) (GroupKeyWepStatus (net A2 i)) (word_of_nat (DefaultKeyId (net A2 i))) c f" "c \<noteq> []"
    "last_frame A2 = wire c f" "KeyNonce f = ANonce (Entry A2 i)"
    "clears (desc_version (WepStatus (Entry A2 i)) (GroupKeyWepStatus (net A2 i))) (PTK (Entry A2 i)) c f (msg3_data (Entry A2 i) (net A2 i))"
proof -
  let ?i = BSSID_WCID
  have l8: "length (R_Counter (Entry A i)) = 8" using A by (simp add: ap_side_def Let_def entry_ok_def)
  obtain A1 f1 where r1: "WPAStart4WayHS (clk 0) i TimeInterval A = Some A1" "ap_side A1 i"
      "same_station (Entry A i) (Entry A1 i)" "MBSSID A1 = MBSSID A" "WpaState (Entry A1 i) = AS_PTKSTART"
      "R_Counter (Entry A1 i) = ADD_ONE_To_64BIT_VAR (R_Counter (Entry A i))"
    and m1: "hs_message EAPOL_PAIR_MSG_1 (Entry A1 i) (GroupKeyWepStatus (net A i)) 0 [] f1" "KeyNonce f1 = ANonce (Entry A1 i)"
      "last_frame A1 = wire [] f1"
    by (rule start_run [OF A st, of "clk 0" TimeInterval])
  have n1: "net A1 i = net A i" using r1(3,4) by (simp add: same_station_def)
  have c1: "be_number (R_Counter (Entry A1 i)) = be_number (R_Counter (Entry A i)) + 1"
    using next_counter [OF l8] cnt(2) r1(6) by simp
  have "same_station (Entry S ?i) (Entry S ?i)" using S by (simp add: same_station_def sta_side_def Let_def)
  then have p1: "peers A1 i S" by (rule peers_keep [OF p r1(3,4)]) simp_all
  obtain S1 c2 f2 where r2: "deliver (clk 1) (h 1) (j 1) A1 S = Some S1" "sta_side S1" "same_station (Entry S ?i) (Entry S1 ?i)"
      "StaCfg S1 = StaCfg S" "CurrentAddress S1 = CurrentAddress S" "SharedKey S1 = SharedKey S"
      "R_Counter (Entry S1 ?i) = R_Counter (Entry A1 i)" "ANonce (Entry S1 ?i) = ANonce (Entry A1 i)"
      "derived (PMK (net A1 i)) (ANonce (Entry A1 i)) (Bssid (net A1 i)) (SNonce (Entry S1 ?i)) (Addr (Entry A1 i)) (PTK (Entry S1 ?i))"
    and m2: "hs_message EAPOL_PAIR_MSG_2 (Entry S1 ?i) (GroupKeyWepStatus (net A1 i)) 0 c2 f2" "KeyNonce f2 = SNonce (Entry S1 ?i)"
      "c2 \<noteq> []" "length c2 \<le> 255" "last_frame S1 = wire c2 f2"
    by (rule message1_run [OF r1(2) S p1, unfolded n1, OF m1 h(1) j, of "clk 1"]) (use cnt c1 n1 in simp_all)
  have p2: "peers A1 i S1"
    by (rule peers_keep [OF p1 _ refl r2(3,5)]) (use r1(2) r2(4) in \<open>simp_all add: same_station_def ap_side_def Let_def\<close>)
  have sn: "length (SNonce (Entry S1 ?i)) = 32" "WepStatus (Entry S1 ?i) = WepStatus (Entry A1 i)"
    using r2(2) p2 by (simp_all add: sta_side_def entry_ok_def peers_def Let_def)
  obtain A2 c3 f3 where r3: "deliver (clk 2) (h 2) (j 2) S1 A1 = Some A2" "ap_side A2 i" "same_station (Entry A1 i) (Entry A2 i)"
      "MBSSID A2 = MBSSID A1" "WpaState (Entry A2 i) = AS_PTKINIT_NEGOTIATING" "PTK (Entry A2 i) = PTK (Entry S1 ?i)"
      "ANonce (Entry A2 i) = ANonce (Entry A1 i)" "SNonce (Entry A2 i) = KeyNonce f2"
      "R_Counter (Entry A2 i) = ADD_ONE_To_64BIT_VAR (R_Counter (Entry A1 i))"
    and m3: "hs_message EAPOL_PAIR_MSG_3 (Entry A2 i) (GroupKeyWepStatus (net A1 i)) (word_of_nat (DefaultKeyId (net A1 i))) c3 f3"
      "KeyNonce f3 = ANonce (Entry A1 i)" "c3 \<noteq> []"
      "clears (desc_version (WepStatus (Entry A2 i)) (GroupKeyWepStatus (net A1 i))) (PTK (Entry A2 i)) c3 f3 (msg3_data (Entry A1 i) (net A1 i))"
      "last_frame A2 = wire c3 f3"
    by (rule message2_run [OF r1(2,5) p2 m2(1,3,4,5) sn(2) r2(7) _ _ _ j, where clk = "clk 2" and h = "h 2"])
      (use sn m2(2) r2(5,9) h(2) in simp_all)
  have n2: "net A2 i = net A1 i" using r3(3,4) by (simp add: same_station_def)
  have "length (R_Counter (Entry A1 i)) = 8" using r1(3) by (simp add: same_station_def entry_ok_def)
  then have c2: "be_number (R_Counter (Entry A2 i)) = be_number (R_Counter (Entry A1 i)) + 1"
    using next_counter cnt(2) c1 r3(9) by simp
  have d: "msg3_data (Entry A1 i) (net A2 i) = msg3_data (Entry A2 i) (net A2 i)"
    using r3(3) by (simp add: msg3_data_def mbss_rsnie_def same_station_def)
  show ?thesis
  proof (rule that [OF r1(1) r2(1) r3(1,2) r2(2) _ _ _ r2(5) r3(5) _ r3(6) [symmetric] _ _ m3(1) [folded n2] m3(3,5) _ m3(4) [folded n2, unfolded d]])
    show "peers A2 i S1"
      by (rule peers_keep [OF p2 r3(3,4)]) (use r2(2) in \<open>simp_all add: same_station_def sta_side_def Let_def\<close>)
    have "Addr (Entry A2 i) = Addr (Entry A1 i)" using r3(3) by (simp add: same_station_def)
    then show "derived (PMK (net A2 i)) (ANonce (Entry A2 i)) (Bssid (net A2 i)) (SNonce (Entry A2 i)) (Addr (Entry A2 i)) (PTK (Entry A2 i))"
      using r2(9) r3(6-8) m2(2) by (simp add: n2)
  qed (use n1 n2 r1(4) r3(4,7) r2(7,8) c2 m3(2) in simp_all)
qed

lemma pairwise_keys_agree:
  "CipherAlg (pairwise_key_of False w k) = CipherAlg (pairwise_key_of True w k)"
  "Key (pairwise_key_of False w k) = Key (pairwise_key_of True w k)"
  "TxMic (pairwise_key_of False w k) = RxMic (pairwise_key_of True w k)"
  "RxMic (pairwise_key_of False w k) = TxMic (pairwise_key_of True w k)"
  by (simp_all add: pairwise_key_of_def Let_def zero_cipher_key_def)

text \<open>What the two adapters have at the end.\<close>

definition keys_agree :: "wpa_adapter \<Rightarrow> nat \<Rightarrow> wpa_adapter \<Rightarrow> bool" where
  "keys_agree A i S \<longleftrightarrow> (let e = Entry A i; m = MBSSID A ! apidx e; e' = Entry S BSSID_WCID; g = StaCfg S in
     derived (PMK m) (ANonce e) (Bssid m) (SNonce e) (Addr e) (PTK e) \<and> PTK e' = PTK e \<and> sPTK g = PTK e
     \<and> PairwiseKey e = pairwise_key_of True (WepStatus e) (PTK e) \<and> CipherAlg (PairwiseKey e') = CipherAlg (PairwiseKey e)
     \<and> Key (PairwiseKey e') = Key (PairwiseKey e)
     \<and> TxMic (PairwiseKey e') = RxMic (PairwiseKey e) \<and> RxMic (PairwiseKey e') = TxMic (PairwiseKey e)
     \<and> sDefaultKeyId g = DefaultKeyId m \<and> take (gtk_length (GroupKeyWepStatus m)) (sGTK g) = take (gtk_length (GroupKeyWepStatus m)) (GTK m)
     \<and> SharedKey S ! 0 ! DefaultKeyId m = sta_group_key (GroupKeyWepStatus m) (GTK m))"

definition finished :: "wpa_entry \<Rightarrow> bool" where
  "finished e \<longleftrightarrow> WpaState e = AS_PTKINITDONE \<and> PortSecured e"

text \<open>C6: The pairwise handshake succeeds. An access point (\<open>ap_side\<close>) and a station (\<open>sta_side\<close>) of one
  network with WPA2 and a pass phrase have the same master key (\<open>peers\<close>), and the station has not seen a
  larger replay counter than the access point's. When \<open>WPAStart4WayHS\<close> has sent message 1 and each
  message arrives behind the headers of its sender, no step faults, both sides end in \<open>AS_PTKINITDONE\<close>
  with the port open, and they agree: on the pairwise key, which is derived from the master key and the
  two nonces, on the temporal key, on the integrity keys, crosswise, and on the group key and its index.\<close>

theorem four_way_handshake:
  assumes A: "ap_side A i" and S: "sta_side S" and p: "peers A i S"
    and st: "AS_INITPMK \<le> WpaState (Entry A i)" "WpaState (Entry A i) \<le> AS_PTKSTART"
    and ap: "header_from (Bssid (MBSSID A ! apidx (Entry A i))) (h 1)" "header_from (Bssid (MBSSID A ! apidx (Entry A i))) (h 3)"
    and sta: "header_from (CurrentAddress S) (h 2)" "header_from (CurrentAddress S) (h 4)"
    and j: "\<And>n. length (j n) < 65536"
    and cnt: "be_number (R_Counter (Entry S BSSID_WCID)) \<le> be_number (R_Counter (Entry A i))"
      "be_number (R_Counter (Entry A i)) + 2 < 256 ^ 8"
  shows "\<exists>A' S'. four_way clk h j i A S = Some (A', S') \<and> finished (Entry A' i) \<and> finished (Entry S' BSSID_WCID)
    \<and> sPortSecured (StaCfg S') \<and> MBSSID A' = MBSSID A \<and> keys_agree A' i S'"
proof -
  let ?i = BSSID_WCID
  obtain A1 A2 S1 c f where r: "WPAStart4WayHS (clk 0) i PEER_MSG1_RETRY_EXEC_INTV A = Some A1"
    "deliver (clk 1) (h 1) (j 1) A1 S = Some S1" "deliver (clk 2) (h 2) (j 2) S1 A1 = Some A2"
    and s: "ap_side A2 i" "sta_side S1" "peers A2 i S1" "net A2 i = net A i" "MBSSID A2 = MBSSID A" "CurrentAddress S1 = CurrentAddress S"
    and st: "WpaState (Entry A2 i) = AS_PTKINIT_NEGOTIATING"
    and d: "derived (PMK (net A2 i)) (ANonce (Entry A2 i)) (Bssid (net A2 i)) (SNonce (Entry A2 i)) (Addr (Entry A2 i)) (PTK (Entry A2 i))"
    and k: "PTK (Entry S1 ?i) = PTK (Entry A2 i)" "ANonce (Entry S1 ?i) = ANonce (Entry A2 i)"
      "be_number (R_Counter (Entry S1 ?i)) < be_number (R_Counter (Entry A2 i))"
    and m3: "hs_message EAPOL_PAIR_MSG_3 (Entry A2 i) (GroupKeyWepStatus (net A2 i)) (word_of_nat (DefaultKeyId (net A2 i))) c f" "c \<noteq> []"
      "last_frame A2 = wire c f" "KeyNonce f = ANonce (Entry A2 i)"
      "clears (desc_version (WepStatus (Entry A2 i)) (GroupKeyWepStatus (net A2 i))) (PTK (Entry A2 i)) c f (msg3_data (Entry A2 i) (net A2 i))"
    by (rule first_half [where clk = clk, OF A S p st ap(1) sta(1) j cnt]) (rule that)
  note a2 = s(1) [unfolded ap_side_def Let_def] and p2 = s(3) [unfolded peers_def Let_def]
  have ie: "rsn_ie_ok (fst (mbss_rsnie (Entry A2 i) (net A2 i))) (snd (mbss_rsnie (Entry A2 i) (net A2 i)))"
    "length (GTK (net A2 i)) = 32" "length (R_Counter (Entry A2 i)) = 8"
    using a2 by (simp_all add: entry_ok_def)
  have hh: "header_from (Bssid (net A2 i)) (h 3)" "header_from (Addr (Entry A2 i)) (h 4)" using ap(2) sta(2) p2 s(4,6) by simp_all
  obtain S2 g where r4: "deliver (clk 3) (h 3) (j 3) A2 S1 = Some S2" "WpaState (Entry S2 ?i) = AS_PTKINITDONE"
    "PTK (Entry S2 ?i) = PTK (Entry A2 i)" "WepStatus (Entry S2 ?i) = WepStatus (Entry A2 i)" "R_Counter (Entry S2 ?i) = R_Counter (Entry A2 i)"
    "PairwiseKey (Entry S2 ?i) = pairwise_key_of False (WepStatus (Entry A2 i)) (PTK (Entry A2 i))"
    "PortSecured (Entry S2 ?i)" "sPortSecured (StaCfg S2)" "sPTK (StaCfg S2) = PTK (Entry A2 i)"
    "sDefaultKeyId (StaCfg S2) = DefaultKeyId (net A2 i)"
    "take (gtk_length (GroupKeyWepStatus (net A2 i))) (sGTK (StaCfg S2)) = take (gtk_length (GroupKeyWepStatus (net A2 i))) (GTK (net A2 i))"
    "SharedKey S2 ! 0 ! DefaultKeyId (net A2 i) = sta_group_key (GroupKeyWepStatus (net A2 i)) (GTK (net A2 i))"
    and m4: "hs_message EAPOL_PAIR_MSG_4 (Entry S2 ?i) (GroupKeyWepStatus (net A2 i)) 0 [] g" "last_frame S2 = wire [] g"
    by (rule message3_run [where clk = "clk 3", OF s(2,3) m3(1-3,5) ie(1,2) m3(4) [folded k(2)] ie(3) k(3,1) hh(1) j]) (rule that)
  obtain A3 where r5: "deliver (clk 4) (h 4) (j 4) S2 A2 = Some A3" "WpaState (Entry A3 i) = AS_PTKINITDONE" "PortSecured (Entry A3 i)"
    "PTK (Entry A3 i) = PTK (Entry A2 i)" "PairwiseKey (Entry A3 i) = pairwise_key_of True (WepStatus (Entry A2 i)) (PTK (Entry A2 i))"
    "MBSSID A3 = MBSSID A2" "SNonce (Entry A3 i) = SNonce (Entry A2 i)" "ANonce (Entry A3 i) = ANonce (Entry A2 i)"
    "same_station (Entry A2 i) (Entry A3 i)"
    by (rule message4_run [where clk = "clk 4", OF s(1) st m4 r4(4,5,3) hh(2) j]) (rule that)
  have "four_way clk h j i A S = Some (A3, S2)" by (simp add: four_way_def r r4(1) r5(1) del: One_nat_def)
  moreover have "keys_agree A3 i S2"
    using d r4(3,6,9-12) r5(4-9) by (simp add: keys_agree_def Let_def same_station_def pairwise_keys_agree)
  ultimately show ?thesis using r4(2,7,8) r5(2,3,6) s(5) by (auto simp: finished_def)
qed


section \<open>An example\<close>

lemma ex_lookup:
  "MacTableLookup ex_ap [2, 0, 0, 0, 0, 1] = Some (Some 1)"
  "MacTableLookup ex_sta [2, 0, 0, 0, 0, 4] = Some (Some 1)"
  by (simp_all add: ex_ap_def ex_sta_def MacTableLookup_def MAC_ADDR_HASH_INDEX_def ex_defs lookup_walk.simps nth_list_update)

lemma ex_sides: "ap_side ex_ap 1" "sta_side ex_sta" "peers ex_ap 1 ex_sta"
proof -
  show "ap_side ex_ap 1" using ex_lookup(1)
    by (simp add: ap_side_def Let_def ex_ap_def ex_defs entry_ok_def psk_modes_def mbss_rsnie_def rsn_ie_ok_def rsn_oui_def)
  show "sta_side ex_sta" using ex_lookup(2)
    by (simp add: sta_side_def Let_def ex_sta_def ex_defs entry_ok_def psk_modes_def rsn_ie_ok_def rsn_oui_def BSSID_WCID_def wpa_state_order)
  show "peers ex_ap 1 ex_sta" by (simp add: peers_def Let_def ex_ap_def ex_sta_def ex_defs BSSID_WCID_def)
qed

theorem four_way_handshake_witness:
  "\<exists>A' S'. four_way (\<lambda>_. \<lparr>system_time = \<lambda>_. 0, up_time = 0\<rparr>) ex_header (\<lambda>_. []) 1 ex_ap ex_sta = Some (A', S')
    \<and> finished (Entry A' 1) \<and> finished (Entry S' BSSID_WCID) \<and> sPortSecured (StaCfg S') \<and> MBSSID A' = MBSSID ex_ap \<and> keys_agree A' 1 S'"
  by (rule four_way_handshake [OF ex_sides])
    (simp_all add: ex_ap_def ex_sta_def ex_defs wpa_state_order header_from_def ex_header_def BSSID_WCID_def be_number_zeros)

end
