(* ===== verification/Ap_Wpa.thy ===== *)
theory Ap_Wpa
  imports Mac_Table Wpa_Properties
begin

text \<open>
  The timers and the other events of the access point that drive the key handshakes:
  \<open>rt5572/ap/ap_wpa.c\<close> (retries, the periodic change of the group key, countermeasures against attacks on TKIP,
  frames of the 802.1X daemon, the ageing of cached master keys) and \<open>EnqueueStartForPSKExec\<close> of
  \<open>common/cmm_wpa.c\<close>. A timer's function works on the adapter and the index of the entry or network that its
  context points to. The times of the last failures, which only the management information base
  reports, are left out.
\<close>

section \<open>Constants\<close>

definition IW_COUNTER_MEASURES_EVENT_FLAG :: nat where "IW_COUNTER_MEASURES_EVENT_FLAG = 0x0204"
definition IW_MIC_ERROR_EVENT_FLAG :: nat where "IW_MIC_ERROR_EVENT_FLAG = 0x0209"
definition IW_GROUP_HS_TIMEOUT_EVENT_FLAG :: nat where "IW_GROUP_HS_TIMEOUT_EVENT_FLAG = 0x020A"
definition IW_PAIRWISE_HS_TIMEOUT_EVENT_FLAG :: nat where "IW_PAIRWISE_HS_TIMEOUT_EVENT_FLAG = 0x020B"
definition REASON_MIC_FAILURE :: nat where "REASON_MIC_FAILURE = 14"
definition REASON_4_WAY_TIMEOUT :: nat where "REASON_4_WAY_TIMEOUT = 15"
definition REASON_GROUP_KEY_HS_TIMEOUT :: nat where "REASON_GROUP_KEY_HS_TIMEOUT = 16"
definition TIME_REKEY :: nat where "TIME_REKEY = 0"
definition PKT_REKEY :: nat where "PKT_REKEY = 1"
definition GROUP_KEY_UPDATE_EXEC_INTV :: u32 where "GROUP_KEY_UPDATE_EXEC_INTV = 1000"
definition EAPPacket :: u8 where "EAPPacket = 0"
definition EAPOLKey :: u8 where "EAPOLKey = 3"
definition EAP_CODE_REQUEST :: u8 where "EAP_CODE_REQUEST = 1"
definition EAP_CODE_SUCCESS :: u8 where "EAP_CODE_SUCCESS = 3"

section \<open>Countermeasures\<close>

text \<open>
  On USB the entry is the copy that the message holds: \<open>CMTimerRunning\<close> is set in the copy and lost. The
  timer is for 60 seconds of \<open>MLME_TASK_EXEC_INTV * MLME_TASK_EXEC_MULTIPLE\<close> milliseconds.
\<close>

definition HandleCounterMeasure :: "wpa_clock \<Rightarrow> wpa_entry \<Rightarrow> wpa_adapter \<Rightarrow> wpa_adapter option" where
  "HandleCounterMeasure clk e A =
     (if WpaState e < AS_PTKINITDONE \<or> GTKState e \<noteq> REKEY_ESTABLISHED then Some A
      else do {
        let A = put_out (RTMPSendWirelessEvent IW_MIC_ERROR_EVENT_FLAG (Addr e) 0) (A\<lparr>MICFailureCounter := MICFailureCounter A + 1\<rparr>);
        A \<leftarrow> (if apCMTimerRunning A then
               if apidx e \<ge> length (MBSSID A) then None
               else do {
                 let A = put_out (ApLogEvent (Addr e)) (put_out (RTMPSendWirelessEvent IW_COUNTER_MEASURES_EVENT_FLAG (Addr e) 0) A);
                 nonce \<leftarrow> GenRandom (system_time clk) (Bssid (MBSSID A ! apidx e));
                 let A = (upd_mbss (apidx e) (\<lambda>m. m\<lparr>GNonce := nonce\<rparr>) A)
                           \<lparr>CounterMeasureTimer := RTMPCancelTimer (CounterMeasureTimer A), apCMTimerRunning := False\<rparr>;
                 A \<leftarrow> feed (\<lambda>A i. if i \<ge> length (Content A) then None
                                 else if is_client A i then MlmeDeAuthAction i REASON_MIC_FAILURE A else Some A)
                       A [0..<MAX_NUMBER_OF_MAC];
                 Some (A\<lparr>BANClass3Data := True\<rparr>)
               }
             else Some A);
        Some (A\<lparr>CounterMeasureTimer := RTMPSetTimer (halted A) (60 * 100 * 10) (CounterMeasureTimer A), apCMTimerRunning := True\<rparr>)
      })"

definition CMTimerExec :: "wpa_adapter \<Rightarrow> wpa_adapter" where
  "CMTimerExec A = A\<lparr>BANClass3Data := False, apCMTimerRunning := False,
     Content := map (\<lambda>e. if EntryType e = ENTRY_CLIENT \<and> CMTimerRunning e then e\<lparr>CMTimerRunning := False\<rparr> else e) (Content A)\<rparr>"

section \<open>Retries\<close>

definition WPARetryExec :: "wpa_clock \<Rightarrow> nat \<Rightarrow> wpa_adapter \<Rightarrow> wpa_adapter option" where
  "WPARetryExec clk i A =
     (if i \<ge> length (Content A) then None
      else if \<not> is_client A i then Some A
      else do {
        let A = upd_entry i (\<lambda>e. e\<lparr>ReTryCounter := ReTryCounter e + 1\<rparr>) A;
        let e = Entry A i;
        let c = ReTryCounter e;
        if AuthMode e \<notin> {Ndis802_11AuthModeWPA, Ndis802_11AuthModeWPAPSK, Ndis802_11AuthModeWPA2, Ndis802_11AuthModeWPA2PSK}
        then Some A
        else if c > GROUP_MSG1_RETRY_TIMER_CTR + 1
        then MlmeDeAuthAction i REASON_GROUP_KEY_HS_TIMEOUT
               (put_out (RTMPSendWirelessEvent IW_GROUP_HS_TIMEOUT_EVENT_FLAG (Addr e) (apidx e)) A)
        else if c > GROUP_MSG1_RETRY_TIMER_CTR then
          if GTKState e = REKEY_NEGOTIATING then do {
            A \<leftarrow> WPAStart2WayGroupHS i A;
            Some (upd_entry i (\<lambda>e. e\<lparr>RetryTimer := RTMPSetTimer (halted A) PEER_MSG3_RETRY_EXEC_INTV (RetryTimer e)\<rparr>) A)
          }
          else Some A
        else if c > PEER_MSG1_RETRY_TIMER_CTR + 3
        then MlmeDeAuthAction i REASON_4_WAY_TIMEOUT
               (put_out (RTMPSendWirelessEvent IW_PAIRWISE_HS_TIMEOUT_EVENT_FLAG (Addr e) (apidx e)) A)
        else if c = PEER_MSG1_RETRY_TIMER_CTR + 3 then WPAStart4WayHS clk i PEER_MSG3_RETRY_EXEC_INTV A
        else if WpaState e = AS_PTKSTART \<or> WpaState e = AS_INITPSK \<or> WpaState e = AS_INITPMK
        then WPAStart4WayHS clk i PEER_MSG1_RETRY_EXEC_INTV A
        else Some A
      })"

section \<open>The group key\<close>

text \<open>The start of a change of the group key, and the count down to its installation.\<close>

definition rekey_start :: "wpa_clock \<Rightarrow> nat \<Rightarrow> wpa_adapter \<Rightarrow> wpa_adapter option" where
  "rekey_start clk n A = do {
     let A = upd_mbss n (\<lambda>m. m\<lparr>REKEYCOUNTER := 0, RekeyCountDown := 3\<rparr>) A;
     if StaCount (MBSSID A ! n) > 0 then do {
       A \<leftarrow> new_group_key clk n A;
       feed (\<lambda>A j. if j \<ge> length (Content A) then None
                    else if has_keys A n j
                    then WPAStart2WayGroupHS j (upd_entry j (\<lambda>e. e\<lparr>GTKState := REKEY_NEGOTIATING\<rparr>) A)
                    else Some A) A [0..<MAX_NUMBER_OF_MAC]
     }
     else Some A
   }"

definition rekey_countdown :: "wpa_clock \<Rightarrow> nat \<Rightarrow> wpa_adapter \<Rightarrow> wpa_adapter option" where
  "rekey_countdown clk n A =
     (if RekeyCountDown (MBSSID A ! n) > 0 then
        let A = upd_mbss n (\<lambda>m. m\<lparr>RekeyCountDown := RekeyCountDown m - 1\<rparr>) A in
        if RekeyCountDown (MBSSID A ! n) = 0 then install_group_key clk n A else Some A
      else Some A)"

definition GREKEYPeriodicExec :: "wpa_clock \<Rightarrow> nat \<Rightarrow> wpa_adapter \<Rightarrow> wpa_adapter option" where
  "GREKEYPeriodicExec clk n A =
     (let m = MBSSID A ! n in
      if n \<ge> BssidNum A then Some A
      else if n \<ge> length (MBSSID A) then None
      else if mAuthMode m < Ndis802_11AuthModeWPA \<or> mAuthMode m > Ndis802_11AuthModeWPA1PSKWPA2PSK then Some A
      else if ReKeyMethod m = TIME_REKEY \<and> REKEYCOUNTER m < 0xffffffff \<or> ReKeyMethod m = PKT_REKEY then do {
        let A = (if ReKeyMethod m = TIME_REKEY then upd_mbss n (\<lambda>m. m\<lparr>REKEYCOUNTER := REKEYCOUNTER m + 1\<rparr>) A else A);
        let temp_counter = (if ReKeyMethod m = TIME_REKEY then REKEYCOUNTER (MBSSID A ! n) else REKEYCOUNTER m div 1000);
        A \<leftarrow> (if temp_counter > ReKeyInterval m then rekey_start clk n A else Some A);
        rekey_countdown clk n A
      }
      else Some A)"

definition set_rekey_timer :: "bool \<Rightarrow> mbss \<Rightarrow> mbss" where
  "set_rekey_timer hlt m =
     (if mWepStatus m = Ndis802_11Encryption2Enabled \<or> mWepStatus m = Ndis802_11Encryption3Enabled
         \<or> mWepStatus m = Ndis802_11Encryption4Enabled
      then if ReKeyInterval m \<noteq> 0 \<and> (ReKeyMethod m = TIME_REKEY \<or> ReKeyMethod m = PKT_REKEY)
        then if \<not> REKEYTimerRunning m
          then m\<lparr>REKEYTimer := RTMPSetTimer hlt GROUP_KEY_UPDATE_EXEC_INTV (REKEYTimer m), REKEYTimerRunning := True, REKEYCOUNTER := 0\<rparr>
          else m
        else m\<lparr>REKEYTimerRunning := False\<rparr>
      else m)"

definition WPA_APSetGroupRekeyAction :: "wpa_adapter \<Rightarrow> wpa_adapter option" where
  "WPA_APSetGroupRekeyAction A =
     (if BssidNum A > length (MBSSID A) then None
      else Some (A\<lparr>MBSSID := map (set_rekey_timer (halted A)) (take (BssidNum A) (MBSSID A)) @ drop (BssidNum A) (MBSSID A)\<rparr>))"

section \<open>The 802.1X daemon and the cache of master keys\<close>

text \<open>A frame of the daemon for a station: the frame is handed on, and its EAP code moves the state.\<close>

definition WpaSend :: "wpa_clock \<Rightarrow> bytes \<Rightarrow> nat \<Rightarrow> wpa_adapter \<Rightarrow> wpa_adapter option" where
  "WpaSend clk pPacket Len A =
     (if length pPacket < 19 then None
      else do {
        r \<leftarrow> MacTableLookup A (take 6 pPacket);
        let ProType = pPacket ! 15;
        let code = pPacket ! 18;
        (case r of
           None \<Rightarrow> Some A
         | Some i \<Rightarrow> do {
             let wpa = (AuthMode (Entry A i) \<ge> Ndis802_11AuthModeWPA \<and> ProType \<noteq> EAPOLKey);
             if \<not> wpa \<and> apidx (Entry A i) \<ge> length (MBSSID A) then None
             else do {
               A \<leftarrow> (if wpa \<or> IEEE8021X (MBSSID A ! apidx (Entry A i)) then
                      if Len < 14 \<or> length pPacket < Len then None
                      else if is_client A i
                      then Some (put_out (RTMPToWirelessSta (Aid (Entry A i)) (take 14 pPacket) (take (Len - 14) (drop 14 pPacket))
                                   (\<not> PortSecured (Entry A i))) A)
                      else Some A
                    else Some A);
               if take 2 (drop 12 pPacket) \<noteq> [0x88, 0x8e] then MlmeDeAuthAction i REASON_NO_LONGER_VALID A
               else if code = EAP_CODE_REQUEST then
                 Some (if WpaState (Entry A i) \<ge> AS_PTKINITDONE \<and> ProType = EAPPacket
                       then upd_entry i (\<lambda>e. e\<lparr>WpaState := AS_AUTHENTICATION\<rparr>) A else A)
               else if code = EAP_CODE_SUCCESS then
                 if wpa then
                   if Sst (Entry A i) = SST_ASSOC
                   then WPAStart4WayHS clk i PEER_MSG1_RETRY_EXEC_INTV
                          (upd_entry i (\<lambda>e. e\<lparr>WpaState := AS_INITPMK, ReTryCounter := PEER_MSG1_RETRY_TIMER_CTR\<rparr>) A)
                   else Some A
                 else Some (upd_entry i (\<lambda>e. e\<lparr>PrivacyFilter := Ndis802_11PrivFilterAcceptAll, WpaState := AS_PTKINITDONE, PortSecured := True\<rparr>)
                        (upd_mbss (apidx (Entry A i)) (\<lambda>m. m\<lparr>mPortSecured := True\<rparr>) A))
               else Some A
             }
           })
      })"

definition RTMP_TIME_AFTER :: "u32 \<Rightarrow> u32 \<Rightarrow> bool" where
  "RTMP_TIME_AFTER a b \<longleftrightarrow> sint (b - a) < 0"

definition RTMPMaintainPMKIDCache :: "u32 \<Rightarrow> wpa_adapter \<Rightarrow> wpa_adapter option" where
  "RTMPMaintainPMKIDCache Now A =
     (if BcnMaxNum A > length (MBSSID A) then None
      else Some (A\<lparr>MBSSID :=
        map (\<lambda>m. m\<lparr>PMKIDCache := foldl (\<lambda>c j. if iValid (c ! j) \<and> RTMP_TIME_AFTER Now (RefreshTime (c ! j) + PMKCachePeriod m)
                                    then RTMPDeletePMKIDCache j c else c) (PMKIDCache m) [0..<length (PMKIDCache m)]\<rparr>)
          (take (BcnMaxNum A) (MBSSID A)) @ drop (BcnMaxNum A) (MBSSID A)\<rparr>))"

section \<open>The start of a handshake by timer\<close>

definition EnqueueStartForPSKExec :: "nat \<Rightarrow> wpa_adapter \<Rightarrow> wpa_adapter option" where
  "EnqueueStartForPSKExec i A =
     (if i \<ge> length (Content A) then None
      else
        let e = Entry A i;
            A = (if is_client A i \<and> WpaState e < AS_PTKSTART then
                   if EnqueueEapolStartTimerRunning e = EAPOL_START_PSK then put_out (MlmeEnqueue_EAPOLStart (Addr e)) A
                   else if EnqueueEapolStartTimerRunning e = EAPOL_START_1X then put_out (DOT1X_EapTriggerAction (Aid e)) A
                   else A
                 else A)
        in Some (upd_entry i (\<lambda>e. e\<lparr>EnqueueEapolStartTimerRunning := EAPOL_START_DISABLE\<rparr>) A))"

end
