(* ===== verification/Ap_Properties.thy ===== *)
theory Ap_Properties
  imports Ap_Wpa
begin

text \<open>
  The properties of the access point's timers: a handshake that nobody answers ends, and two failures of
  TKIP's integrity code within a minute remove every station.
\<close>

section \<open>Retries\<close>

text \<open>The pending timer of the entry \<open>i\<close> expires \<open>n\<close> times, and nothing else happens.\<close>

definition fire :: "wpa_clock \<Rightarrow> nat \<Rightarrow> wpa_adapter \<Rightarrow> wpa_adapter option" where
  "fire clk i A =
     (if pending (RetryTimer (Entry A i))
      then WPARetryExec clk i (upd_entry i (\<lambda>e. e\<lparr>RetryTimer := (RetryTimer e)\<lparr>pending := False\<rparr>\<rparr>) A) else None)"

primrec expire :: "(nat \<Rightarrow> wpa_clock) \<Rightarrow> nat \<Rightarrow> nat \<Rightarrow> wpa_adapter \<Rightarrow> wpa_adapter option" where
  "expire clk i 0 A = Some A"
| "expire clk i (Suc n) A = do { A \<leftarrow> expire clk i n A; fire (clk n) i A }"

text \<open>Message 1, as it is sent to the station of the entry \<open>e\<close>.\<close>

definition sends_message1 :: "wpa_adapter \<Rightarrow> nat \<Rightarrow> wpa_output \<Rightarrow> bool" where
  "sends_message1 A i x \<longleftrightarrow> (\<exists>e f. Addr e = Addr (Entry A i) \<and> Aid e = Aid (Entry A i)
     \<and> hs_message EAPOL_PAIR_MSG_1 e (GroupKeyWepStatus (net A i)) 0 [] f
     \<and> x = sent e (Bssid (net A i)) (wire [] f) (\<not> PortSecured (Entry A i)))"

text \<open>The access point waits for message 2 after \<open>n\<close> expiries.\<close>

definition waiting :: "wpa_adapter \<Rightarrow> nat \<Rightarrow> nat \<Rightarrow> wpa_adapter \<Rightarrow> bool" where
  "waiting A i n B \<longleftrightarrow> ap_side B i \<and> table_ok B \<and> same_station (Entry A i) (Entry B i) \<and> Aid (Entry B i) = Aid (Entry A i)
     \<and> MBSSID B = MBSSID A \<and> PortSecured (Entry B i) = PortSecured (Entry A i)
     \<and> AS_INITPMK \<le> WpaState (Entry B i) \<and> WpaState (Entry B i) \<le> AS_PTKSTART
     \<and> ReTryCounter (Entry B i) = word_of_nat n \<and> Valid (RetryTimer (Entry B i)) \<and> \<not> PeriodicType (RetryTimer (Entry B i))
     \<and> table_map B = table_map A
     \<and> (\<exists>xs. out B = out A @ xs \<and> length xs = n \<and> (\<forall>x\<in>set xs. sends_message1 A i x))
     \<and> pending (RetryTimer (Entry B i))"

lemma table_ok_upd:
  assumes "table_ok A" "EntryType (f (Entry A i)) = EntryType (Entry A i)" "Addr (f (Entry A i)) = Addr (Entry A i)"
    "pNext (f (Entry A i)) = pNext (Entry A i)" "Aid (f (Entry A i)) = Aid (Entry A i)" "apidx (f (Entry A i)) = apidx (Entry A i)"
  shows "table_ok (upd_entry i f A)" "table_map (upd_entry i f A) = table_map A"
proof -
  have t: "tab_ok A" using assms(1) by (simp add: table_ok_def)
  show "table_map (upd_entry i f A) = table_map A" by (rule table_upd [where f = f and i = i, OF t assms(2-4)])
  show "table_ok (upd_entry i f A)"
    by (rule table_ok_rows [OF assms(1) rows_upd table_upd(1) [where f = f and i = i, OF t assms(2-4)]]) (use assms in simp_all)
qed

lemma table_ok_put_out: "table_ok A \<Longrightarrow> table_ok (put_out x A)" "table_ok A \<Longrightarrow> table_map (put_out x A) = table_map A"
  using table_ok_rows [of A "put_out x A"] table_cong [of A "put_out x A"] by (simp_all add: rows_cong table_ok_def)

lemma waiting_step:
  assumes W: "waiting A i n B" and n: "n < 3"
  obtains C where "fire clk i B = Some C" "waiting A i (Suc n) C"
proof -
  note w = W [unfolded waiting_def]
  define c :: u8 where "c = word_of_nat (Suc n)"
  let ?e1 = "(Entry B i)\<lparr>RetryTimer := (RetryTimer (Entry B i))\<lparr>pending := False\<rparr>, ReTryCounter := c\<rparr>"
  let ?B1 = "upd_entry i (\<lambda>_. ?e1) B"
  let ?I = "if n = 2 then PEER_MSG3_RETRY_EXEC_INTV else PEER_MSG1_RETRY_EXEC_INTV"
  have bs: "ap_side B i" using w by blast
  note b = bs [unfolded ap_side_def Let_def]
  have same: "same_station (Entry B i) ?e1" using b by (simp add: same_station_def entry_ok_def)
  have ap: "ap_side ?B1 i" by (rule ap_side_upd [OF bs same])
  have e1: "Entry ?B1 i = ?e1" using b by simp
  have st: "AS_INITPMK \<le> WpaState (Entry ?B1 i)" "WpaState (Entry ?B1 i) \<le> AS_PTKSTART" using w by (simp_all add: e1)
  obtain nonce f e where e: "length nonce = 32" "e = (Entry ?B1 i)\<lparr>R_Counter := ADD_ONE_To_64BIT_VAR (R_Counter (Entry ?B1 i)), ANonce := nonce\<rparr>"
    and f: "hs_message EAPOL_PAIR_MSG_1 e (GroupKeyWepStatus (net ?B1 i)) 0 [] f"
    and run: "WPAStart4WayHS clk i ?I ?B1 =
      Some (upd_entry i (\<lambda>e. e\<lparr>RetryTimer := RTMPModTimer (halted ?B1) ?I (RetryTimer e), WpaState := AS_PTKSTART\<rparr>)
        (put_out (sent e (Bssid (net ?B1 i)) (wire [] f) (\<not> PortSecured e)) (upd_entry i (\<lambda>_. e) ?B1)))"
    by (rule WPAStart4WayHS_message1 [OF ap st, of clk ?I])
  let ?x = "sent e (Bssid (net B i)) (wire [] f) (\<not> PortSecured e)"
  let ?e2 = "e\<lparr>RetryTimer := RTMPModTimer (halted B) ?I (RetryTimer e), WpaState := AS_PTKSTART\<rparr>"
  let ?B2 = "upd_entry i (\<lambda>_. ?e2) B"
  have n1: "net ?B1 i = net B i" using b by simp
  have run2: "WPAStart4WayHS clk i ?I ?B1 = Some (put_out ?x ?B2)"
    unfolding run n1 using b by (simp add: upd_entry_def put_out_def)
  have ef: "EntryType e = EntryType (Entry B i)" "Addr e = Addr (Entry B i)" "pNext e = pNext (Entry B i)" "Aid e = Aid (Entry B i)"
    "apidx e = apidx (Entry B i)" "PortSecured e = PortSecured (Entry B i)" "AuthMode e = AuthMode (Entry B i)"
    "RetryTimer e = (RetryTimer (Entry B i))\<lparr>pending := False\<rparr>" "ReTryCounter e = c" "WepStatus e = WepStatus (Entry B i)"
    "Sst e = Sst (Entry B i)"
    by (simp_all only: e(2) e1) simp_all
  have cnt: "c = 1 \<or> c = 2 \<or> c = 3" "c = 3 \<longleftrightarrow> n = 2"
    using n by (auto simp: c_def numeral_3_eq_3 numeral_2_eq_2 less_Suc_eq)
  have auth: "AuthMode (Entry B i) = Ndis802_11AuthModeWPA2PSK" using b psk_modesD(1) by blast
  have stb: "WpaState (Entry B i) = AS_PTKSTART \<or> WpaState (Entry B i) = AS_INITPSK \<or> WpaState (Entry B i) = AS_INITPMK"
    using w by (cases "WpaState (Entry B i)") (simp_all add: wpa_state_order)
  let ?F = "upd_entry i (\<lambda>e. e\<lparr>RetryTimer := (RetryTimer e)\<lparr>pending := False\<rparr>\<rparr>) B"
  have "ReTryCounter (Entry B i) + 1 = c" using w by (simp add: c_def)
  then have B1: "upd_entry i (\<lambda>e. e\<lparr>ReTryCounter := ReTryCounter e + 1\<rparr>) ?F = ?B1" using b by (simp add: upd_entry_def)
  have F: "i < length (Content ?F)" "is_client ?F i" using b by simp_all
  have ret: "WPARetryExec clk i ?F = WPAStart4WayHS clk i ?I ?B1"
    using cnt auth stb F unfolding WPARetryExec_def Let_def B1 e1 by (auto simp: retry_constants)
  have eok: "entry_ok e" using b e(1) unfolding e(2) e1 by (simp add: entry_ok_def)
  have same2: "same_station (Entry B i) ?e2" "same_station (Entry A i) ?e2"
    using w b eok by (simp_all add: same_station_def ef, simp_all add: entry_ok_def)
  have W': "waiting A i (Suc n) (put_out ?x ?B2)"
    unfolding waiting_def
  proof (intro conjI)
    have e2: "Entry (put_out ?x ?B2) i = ?e2" using b by simp
    have t: "table_ok ?B2" "table_map ?B2 = table_map B"
      by (rule table_ok_upd; use w in \<open>simp add: ef\<close>)+
    show "ap_side (put_out ?x ?B2) i" by (rule ap_side_put_out [OF ap_side_upd [OF bs same2(1)]])
    show "table_ok (put_out ?x ?B2)" "table_map (put_out ?x ?B2) = table_map A" using table_ok_put_out [OF t(1)] t(2) w by simp_all
    show "same_station (Entry A i) (Entry (put_out ?x ?B2) i)" unfolding e2 by (rule same2)
    have "sends_message1 A i ?x" unfolding sends_message1_def
      using f w n1 by (intro exI [of _ e] exI [of _ f]) (simp add: ef same_station_def)
    with w show "\<exists>xs. out (put_out ?x ?B2) = out A @ xs \<and> length xs = Suc n \<and> (\<forall>x\<in>set xs. sends_message1 A i x)"
      by (auto simp: put_out_def)
  qed (use w b ef wpa_state_order in \<open>simp_all add: RTMPModTimer_def c_def\<close>)
  show ?thesis using w ret run2 by (intro that [OF _ W']) (simp add: fire_def)
qed

text \<open>A count above 3, of messages 1 or the 10 from which message 3 counts, ends the handshake at the next expiry.\<close>

lemma expiry_removes:
  assumes A: "table_ok A" and i: "i < length (Content A)" "is_client A i" "pending (RetryTimer (Entry A i))"
    and auth: "AuthMode (Entry A i) \<in> {Ndis802_11AuthModeWPA, Ndis802_11AuthModeWPAPSK, Ndis802_11AuthModeWPA2, Ndis802_11AuthModeWPA2PSK}"
    and c: "3 \<le> ReTryCounter (Entry A i)" "ReTryCounter (Entry A i) < GROUP_MSG1_RETRY_TIMER_CTR"
  obtains C where "fire clk i A = Some C" "table_ok C" "\<not> live (Content C) i" "table_map C = (table_map A)(Addr (Entry A i) := None)"
proof -
  let ?F = "upd_entry i (\<lambda>e. e\<lparr>RetryTimer := (RetryTimer e)\<lparr>pending := False\<rparr>\<rparr>) A"
  let ?B = "upd_entry i (\<lambda>e. e\<lparr>ReTryCounter := ReTryCounter e + 1\<rparr>) ?F"
  let ?C = "put_out (RTMPSendWirelessEvent IW_PAIRWISE_HS_TIMEOUT_EVENT_FLAG (Addr (Entry A i)) (apidx (Entry A i))) ?B"
  have F: "table_ok ?F" "table_map ?F = table_map A" by (rule table_ok_upd; use A in simp)+
  have B: "table_ok ?B" "table_map ?B = table_map ?F" by (rule table_ok_upd; use F in simp)+
  have C: "table_ok ?C" "table_map ?C = table_map A" using table_ok_put_out [OF B(1)] F(2) B(2) by simp_all
  have l: "live (Content ?C) i" using i by (simp add: live_def)
  obtain D where D: "MlmeDeAuthAction i REASON_4_WAY_TIMEOUT ?C = Some D" "table_ok D" "\<not> live (Content D) i"
    "table_map D = (table_map ?C)(Addr (Entry ?C i) := None)"
    by (rule MlmeDeAuthAction_removes [OF C(1) l])
  have c1: "3 < ReTryCounter (Entry A i) + 1" "\<not> GROUP_MSG1_RETRY_TIMER_CTR < ReTryCounter (Entry A i) + 1"
    "\<not> GROUP_MSG1_RETRY_TIMER_CTR + 1 < ReTryCounter (Entry A i) + 1"
    using c by (simp_all add: retry_constants word_less_nat_alt word_le_nat_alt unat_word_ariths)
  have "fire clk i A = MlmeDeAuthAction i REASON_4_WAY_TIMEOUT ?C"
    using i auth c1 by (simp add: fire_def WPARetryExec_def Let_def PEER_MSG1_RETRY_TIMER_CTR_def del: insert_iff)
  then show ?thesis using D i(1) C(2) by (intro that [of D]) simp_all
qed

text \<open>C8: A pairwise handshake that the station does not answer ends, and never faults. From the start of the
  handshake, with the retry timer pending, each of the first three expiries sends message 1 to the station
  again and leaves the timer pending; the fourth removes the station from the table, whose look-ups of every
  other address stay as they were.\<close>

theorem unanswered_handshake_ends:
  assumes "ap_side A i" and "table_ok A" and "AS_INITPMK \<le> WpaState (Entry A i)" and "WpaState (Entry A i) \<le> AS_PTKSTART"
    and "ReTryCounter (Entry A i) = 0" and "Valid (RetryTimer (Entry A i))" and "\<not> PeriodicType (RetryTimer (Entry A i))"
    and "pending (RetryTimer (Entry A i))"
  shows "(\<forall>n\<le>3. \<exists>B xs. expire clk i n A = Some B \<and> pending (RetryTimer (Entry B i))
      \<and> out B = out A @ xs \<and> length xs = n \<and> (\<forall>x\<in>set xs. sends_message1 A i x)
      \<and> MacTableLookup B (Addr (Entry A i)) = Some (Some i))
    \<and> (\<exists>C. expire clk i 4 A = Some C \<and> \<not> live (Content C) i
      \<and> (\<forall>a. length a = 6 \<longrightarrow> MacTableLookup C a = (if a = Addr (Entry A i) then Some None else MacTableLookup A a)))"
proof -
  have run: "n \<le> 3 \<Longrightarrow> \<exists>B. expire clk i n A = Some B \<and> waiting A i n B" for n
  proof (induction n)
    case 0
    have "same_station (Entry A i) (Entry A i)" using assms(1) by (simp add: same_station_def ap_side_def Let_def)
    with assms show ?case by (simp add: waiting_def)
  next
    case (Suc n)
    then obtain B where B: "expire clk i n A = Some B" "waiting A i n B" "n < 3" by auto
    obtain C where "fire (clk n) i B = Some C" "waiting A i (Suc n) C" by (rule waiting_step [OF B(2,3)])
    with B(1) show ?case by simp
  qed
  have first: "\<exists>B xs. expire clk i n A = Some B \<and> pending (RetryTimer (Entry B i))
      \<and> out B = out A @ xs \<and> length xs = n \<and> (\<forall>x\<in>set xs. sends_message1 A i x)
      \<and> MacTableLookup B (Addr (Entry A i)) = Some (Some i)" if "n \<le> 3" for n
  proof -
    obtain B where "expire clk i n A = Some B" "waiting A i n B" using run \<open>n \<le> 3\<close> by blast
    then show ?thesis by (auto simp: waiting_def ap_side_def Let_def same_station_def)
  qed
  obtain B where B: "expire clk i 3 A = Some B" "waiting A i 3 B" using run [of 3] by blast
  note w = B(2) [unfolded waiting_def]
  have b: "i < length (Content B)" "is_client B i" "AuthMode (Entry B i) = Ndis802_11AuthModeWPA2PSK" "Addr (Entry B i) = Addr (Entry A i)"
    using w psk_modesD(1) by (auto simp: ap_side_def Let_def same_station_def)
  obtain C where C: "fire (clk 3) i B = Some C" "table_ok C" "\<not> live (Content C) i" "table_map C = (table_map B)(Addr (Entry B i) := None)"
    by (rule expiry_removes [of B i]) (use w b in \<open>auto simp: retry_constants\<close>)
  have "expire clk i 4 A = Some C" using B(1) C(1) by (simp add: numeral_eq_Suc)
  moreover have "MacTableLookup C a = (if a = Addr (Entry A i) then Some None else MacTableLookup A a)" if "length a = 6" for a
    using lookup_is_map [OF _ that, of C] lookup_is_map [OF _ that, of A] C(2,4) assms(2) w b(4) by (simp add: table_ok_def)
  ultimately show ?thesis using first C(3) by blast
qed

definition ex_waiting :: wpa_adapter where
  "ex_waiting = upd_entry 1 (\<lambda>e. e\<lparr>RetryTimer := ex_timer\<lparr>pending := True\<rparr>\<rparr>) ex_ap"

lemma ex_ap_table: "table_ok ex_ap"
proof -
  have e: "Entry ex_ap i = (if i = 1 then ex_entry [2, 0, 0, 0, 0, 1] AS_INITPSK else zero_entry)" if "i < MAX_NUMBER_OF_MAC" for i
    using that by (cases "i = 1") (simp_all add: ex_ap_def ex_adapter_def)
  have n: "length (Content ex_ap) = MAX_NUMBER_OF_MAC" "length (Hash ex_ap) = 256" by (simp_all add: ex_ap_def ex_adapter_def)
  have l: "live_set ex_ap = {1}" using e n by (auto simp: live_def zero_entry_def ex_entry_def MAX_NUMBER_OF_MAC_def split: if_splits)
  have h: "Hash ex_ap ! h = (if h = 3 then Some 1 else None)" if "h < 256" for h
    using that by (simp add: ex_ap_def ex_adapter_def nth_list_update)
  have e1: "Entry ex_ap 1 = ex_entry [2, 0, 0, 0, 0, 1] AS_INITPSK" using e [of 1] by (simp add: MAX_NUMBER_OF_MAC_def)
  have a: "MAC_ADDR_HASH_INDEX (Addr (Entry ex_ap 1)) = 3" "pNext (Entry ex_ap 1) = None" "Aid (Entry ex_ap 1) = 1"
    unfolding e1 by (simp_all add: ex_entry_def MAC_ADDR_HASH_INDEX_def)
  have "linked (Content ex_ap) (Hash ex_ap) (\<lambda>h. if h = 3 then [1] else []) {1}"
    using h a n by (auto simp: linked_def MAX_NUMBER_OF_MAC_def)
  moreover have "\<forall>i<MAX_NUMBER_OF_MAC. length (Addr (Entry ex_ap i)) = 6 \<and> apidx (Entry ex_ap i) = 0"
    using e by (simp add: ex_entry_def zero_entry_def)
  moreover have "MacTabSize ex_ap = 1" "length (MBSSID ex_ap) = 1" by (simp_all add: ex_ap_def ex_adapter_def)
  ultimately show ?thesis using n a unfolding table_ok_def tab_ok_def l by auto
qed

theorem unanswered_handshake_ends_witness:
  "\<exists>C. expire (\<lambda>_. \<lparr>system_time = \<lambda>_. 0, up_time = 0\<rparr>) 1 4 ex_waiting = Some C \<and> \<not> live (Content C) 1"
proof -
  let ?e = "(Entry ex_ap 1)\<lparr>RetryTimer := ex_timer\<lparr>pending := True\<rparr>\<rparr>"
  have x: "Entry ex_ap 1 = ex_entry [2, 0, 0, 0, 0, 1] AS_INITPSK" "1 < length (Content ex_ap)"
    by (simp_all add: ex_ap_def ex_adapter_def MAX_NUMBER_OF_MAC_def)
  have "same_station (Entry ex_ap 1) ?e" unfolding x(1) by (simp add: same_station_def entry_ok_def ex_entry_def)
  from ap_side_upd [OF ex_sides(1) this] have s: "ap_side ex_waiting 1" by (simp add: ex_waiting_def upd_entry_def)
  have t: "table_ok ex_waiting" unfolding ex_waiting_def by (rule table_ok_upd [OF ex_ap_table]) simp_all
  have e: "Entry ex_waiting 1 = ?e" using x(2) by (simp add: ex_waiting_def)
  show ?thesis
    using unanswered_handshake_ends [OF s t, of "\<lambda>_. \<lparr>system_time = \<lambda>_. 0, up_time = 0\<rparr>"]
    unfolding e x(1) by (simp add: ex_entry_def ex_timer_def wpa_state_order) blast
qed

section \<open>Countermeasures\<close>

text \<open>The station of every entry is removed.\<close>

abbreviation remove_client :: "wpa_adapter \<Rightarrow> nat \<Rightarrow> wpa_adapter option" where
  "remove_client A i \<equiv> (if i \<ge> length (Content A) then None
     else if is_client A i then MlmeDeAuthAction i REASON_MIC_FAILURE A else Some A)"

lemma clients_removed:
  assumes A: "table_ok A"
  shows "\<exists>B. feed remove_client A [0..<MAX_NUMBER_OF_MAC] = Some B \<and> table_ok B \<and> (\<forall>i<MAX_NUMBER_OF_MAC. \<not> is_client B i)"
proof -
  have step: "\<exists>C. remove_client B i = Some C \<and> table_ok C \<and> rows B C \<and> (is_client B i \<longrightarrow> \<not> live (Content C) i)"
    if b: "table_ok B" "0 \<le> i" "i < MAX_NUMBER_OF_MAC" for B i
  proof (cases "is_client B i")
    case True
    have l: "i < length (Content B)" using b by (simp add: table_ok_def tab_ok_def)
    obtain C where "MlmeDeAuthAction i REASON_MIC_FAILURE B = Some C" "table_ok C" "rows B C" "\<not> live (Content C) i"
      by (rule MlmeDeAuthAction_removes [OF b(1), of i]) (use True l in \<open>simp_all add: live_def\<close>)
    with True l show ?thesis by simp
  next
    case False
    with b show ?thesis by (simp add: rows_refl table_ok_def tab_ok_def)
  qed
  have keep: "is_client C i" if "rows B C" "live (Content C) i" "i < MAX_NUMBER_OF_MAC" "is_client B i" for B C i
    using that rows_live [OF that(1,2)] by (auto simp: rows_def live_def)
  have "\<exists>B. feed remove_client A [0..<MAX_NUMBER_OF_MAC] = Some B \<and> table_ok B \<and> rows A B
      \<and> (\<forall>i. 0 \<le> i \<and> i < MAX_NUMBER_OF_MAC \<and> is_client A i \<longrightarrow> \<not> live (Content B) i)"
    by (rule clear_entries [where P = is_client and k = 0, OF step _ A order_refl]) (assumption+, rule keep)
  then obtain B where B: "feed remove_client A [0..<MAX_NUMBER_OF_MAC] = Some B" "table_ok B" "rows A B"
      "\<forall>i. 0 \<le> i \<and> i < MAX_NUMBER_OF_MAC \<and> is_client A i \<longrightarrow> \<not> live (Content B) i"
    by blast
  have "\<not> is_client B i" if i: "i < MAX_NUMBER_OF_MAC" for i
  proof
    assume c: "is_client B i"
    then have "live (Content B) i" "i < length (Content A)" using A B(2) i by (simp_all add: live_def table_ok_def tab_ok_def)
    with c B(3,4) i show False by (auto simp: rows_def live_def)
  qed
  with B(1,2) show ?thesis by blast
qed

text \<open>C10: A failure of TKIP's integrity code, which a station with keys reports or meets, starts the watch of the
  access point and removes nobody. A second failure while the watch runs removes every station, bars new
  associations and starts the watch anew; it never faults.\<close>

theorem countermeasures:
  assumes "table_ok A" and "AS_PTKINITDONE \<le> WpaState e" and "GTKState e = REKEY_ESTABLISHED"
    and "apidx e < length (MBSSID A)" and "length (Bssid (MBSSID A ! apidx e)) = 6"
  shows "(\<not> apCMTimerRunning A \<longrightarrow> (\<exists>B. HandleCounterMeasure clk e A = Some B \<and> Content B = Content A
      \<and> apCMTimerRunning B \<and> BANClass3Data B = BANClass3Data A))
    \<and> (apCMTimerRunning A \<longrightarrow> (\<exists>B. HandleCounterMeasure clk e A = Some B \<and> table_ok B \<and> apCMTimerRunning B
      \<and> BANClass3Data B \<and> (\<forall>i<MAX_NUMBER_OF_MAC. \<not> is_client B i)))"
proof (intro conjI impI)
  have keyed: "\<not> WpaState e < AS_PTKINITDONE" by (rule leD [OF assms(2)])
  assume "\<not> apCMTimerRunning A"
  with assms keyed show "\<exists>B. HandleCounterMeasure clk e A = Some B \<and> Content B = Content A \<and> apCMTimerRunning B
      \<and> BANClass3Data B = BANClass3Data A"
    by (simp add: HandleCounterMeasure_def put_out_def)
next
  assume run: "apCMTimerRunning A"
  obtain nonce where nonce: "GenRandom (system_time clk) (Bssid (MBSSID A ! apidx e)) = Some nonce"
    by (rule GenRandom_total [of "Bssid (MBSSID A ! apidx e)" "system_time clk"]) (use assms(5) in simp)
  define A1 where "A1 = (upd_mbss (apidx e) (\<lambda>m. m\<lparr>GNonce := nonce\<rparr>) (put_out (ApLogEvent (Addr e))
      (put_out (RTMPSendWirelessEvent IW_COUNTER_MEASURES_EVENT_FLAG (Addr e) 0)
      (put_out (RTMPSendWirelessEvent IW_MIC_ERROR_EVENT_FLAG (Addr e) 0) (A\<lparr>MICFailureCounter := MICFailureCounter A + 1\<rparr>)))))
      \<lparr>CounterMeasureTimer := RTMPCancelTimer (CounterMeasureTimer A), apCMTimerRunning := False\<rparr>"
  have A1: "table_ok A1" by (rule table_ok_rows [OF assms(1)])
      (use table_cong(1) [of A A1] assms(1) in \<open>simp_all add: A1_def rows_cong table_ok_def\<close>)
  obtain B where B: "feed remove_client A1 [0..<MAX_NUMBER_OF_MAC] = Some B" "table_ok B" "\<forall>i<MAX_NUMBER_OF_MAC. \<not> is_client B i"
    using clients_removed [OF A1] by blast
  let ?C = "B\<lparr>BANClass3Data := True, CounterMeasureTimer := RTMPSetTimer (halted B) (60 * 100 * 10) (CounterMeasureTimer B), apCMTimerRunning := True\<rparr>"
  have "HandleCounterMeasure clk e A = Some ?C"
    using leD [OF assms(2)] assms(3,4) run nonce B(1) unfolding HandleCounterMeasure_def Let_def A1_def by (simp add: put_out_def)
  moreover have "table_ok ?C" by (rule table_ok_rows [OF B(2)])
      (use table_cong(1) [of B ?C] B(2) in \<open>simp_all add: rows_cong table_ok_def\<close>)
  ultimately show "\<exists>B. HandleCounterMeasure clk e A = Some B \<and> table_ok B \<and> apCMTimerRunning B \<and> BANClass3Data B
      \<and> (\<forall>i<MAX_NUMBER_OF_MAC. \<not> is_client B i)" using B(3) by auto
qed

theorem countermeasures_witness:
  "\<exists>B. HandleCounterMeasure \<lparr>system_time = \<lambda>_. 0, up_time = 0\<rparr>
      ((ex_entry [2, 0, 0, 0, 0, 1] AS_PTKINITDONE)\<lparr>GTKState := REKEY_ESTABLISHED\<rparr>) (ex_ap\<lparr>apCMTimerRunning := True\<rparr>) = Some B
    \<and> BANClass3Data B"
proof -
  let ?A = "ex_ap\<lparr>apCMTimerRunning := True\<rparr>"
  have t: "table_ok ?A" by (rule table_ok_rows [OF ex_ap_table])
    (use table_cong(1) [of ex_ap ?A] ex_ap_table in \<open>simp_all add: rows_cong table_ok_def\<close>)
  show ?thesis
    using countermeasures [OF t, of "(ex_entry [2, 0, 0, 0, 0, 1] AS_PTKINITDONE)\<lparr>GTKState := REKEY_ESTABLISHED\<rparr>"
        "\<lparr>system_time = \<lambda>_. 0, up_time = 0\<rparr>"]
    by (simp add: ex_entry_def ex_ap_def ex_adapter_def ex_mbss_def) blast
qed

end
