(* ===== verification/Wpa_Safety.thy ===== *)
theory Wpa_Safety
  imports Wpa_Properties
begin

text \<open>
  What a frame can do to the keys. Without the request bit, a frame changes an installed key or opens a
  port only if its code is right under the pairwise key of the entry. That is as good as the
  pairwise key: the entry of a station that has derived none holds zeros, and a message 3 that
  is coded with zeros is accepted.
\<close>

section \<open>Authentic frames\<close>

text \<open>The keys in use and the ports: the memory of the controller, the key tables, the group keys.\<close>

definition installed :: "wpa_adapter \<Rightarrow> (nat \<Rightarrow> u8) \<times> cipher_key list list \<times> bytes list \<times> (bytes \<times> bytes \<times> bool) \<times> (cipher_key \<times> bool) list" where
  "installed A = (asic_mem A, SharedKey A, map GTK (MBSSID A), (sGTK (StaCfg A), sPTK (StaCfg A), sPortSecured (StaCfg A)),
     map (\<lambda>e. (PairwiseKey e, PortSecured e)) (Content A))"

text \<open>A frame with a replay counter that the entry accepts and the right code.\<close>

definition authentic :: "nat \<Rightarrow> wpa_entry \<Rightarrow> bytes \<Rightarrow> bool" where
  "authentic t e pMsg \<longleftrightarrow> (let p = EAPOL_PACKET pMsg in
     t \<noteq> EAPOL_PAIR_MSG_1 \<and> t \<noteq> EAPOL_PAIR_MSG_2 \<and> replay_ok t (ReplayCounter p) (R_Counter e)
     \<and> eapol_mic (KeyDescVer (KeyInfo p)) (PTK e) (zero_KeyMic pMsg) (CONV_ARRARY_TO_UINT16 (Body_Len p) + 4) = Some (KeyMic p))"

lemma installed_put_out [simp]: "installed (put_out x A) = installed A"
  by (simp add: installed_def)

lemma installed_upd [simp]:
  "PairwiseKey (f (Entry A i)) = PairwiseKey (Entry A i) \<Longrightarrow> PortSecured (f (Entry A i)) = PortSecured (Entry A i) \<Longrightarrow>
    installed (upd_entry i f A) = installed A"
  by (cases "i < length (Content A)")
    (simp_all add: installed_def upd_entry_def map_update list_update_same_conv list_update_beyond)

lemma installed_send_eapol: "send_eapol i src f c A = Some B \<Longrightarrow> installed B = installed A"
  by (auto simp: send_eapol_def Let_def split: if_splits)

lemma sanity_authentic:
  assumes "PeerWpaMessageSanity clk pMsg t i A = Some (ok, B)"
  shows "authentic t (Entry A i) pMsg \<or> installed B = installed A \<and> (ok \<longrightarrow> t = EAPOL_PAIR_MSG_1 \<or> t = EAPOL_PAIR_MSG_2)"
proof (cases "authentic t (Entry A i) pMsg \<or> \<not> ok \<and> installed B = installed A")
  case False
  note run = assms [unfolded PeerWpaMessageSanity_def Let_def]
  have mic: "t = EAPOL_PAIR_MSG_1 \<or> t = EAPOL_PAIR_MSG_2"
    using run False by (auto simp: authentic_def Let_def split: if_splits option.splits)
  moreover have "installed B = installed A"
    using run mic by (auto simp: msg_types RTMPParseEapolKeyData_def split: if_splits option.splits)
  ultimately show ?thesis by blast
qed auto

lemma not_authentic [simp]: "\<not> authentic EAPOL_PAIR_MSG_1 e pMsg" "\<not> authentic EAPOL_PAIR_MSG_2 e pMsg"
  by (simp_all add: authentic_def Let_def)

text \<open>What each handler changes.\<close>

lemma message1_keeps: "PeerPairMsg1Action clk i Msg MsgLen A = Some B \<Longrightarrow> installed B = installed A"
  using sanity_authentic [of clk "eapol_of Msg" EAPOL_PAIR_MSG_1 i A]
  by (auto simp: PeerPairMsg1Action_def Let_def bind_eq_Some_conv dest!: installed_send_eapol split: if_splits)

lemma sanity2_keeps: "PeerWpaMessageSanity clk pMsg EAPOL_PAIR_MSG_2 i A = Some (ok, B) \<Longrightarrow> installed B = installed A"
  using sanity_authentic [of clk pMsg EAPOL_PAIR_MSG_2 i A] by simp

lemma message2_keeps:
  assumes "PeerPairMsg2Action clk i Msg MsgLen A = Some B"
  shows "installed B = installed A"
proof (cases "\<not> is_client A i \<or> too_short MsgLen \<or> WpaState (Entry A i) < AS_PTKSTART \<or> opmode A \<noteq> OPMODE_AP
    \<or> apidx (Entry A i) \<ge> BssidNum A \<or> apidx (Entry A i) \<ge> length (MBSSID A)")
  case True
  with assms show ?thesis by (auto simp: PeerPairMsg2Action_def Let_def split: if_splits)
next
  case go: False
  obtain rsnie n where ie: "mbss_rsnie (Entry A i) (net A i) = (rsnie, n)" by fastforce
  define A1 where "A1 = upd_entry i (\<lambda>e. e\<lparr>SNonce := KeyNonce (EAPOL_PACKET (eapol_of Msg))\<rparr>) A"
  obtain ptk ok A2 where A2: "PeerWpaMessageSanity clk (eapol_of Msg) EAPOL_PAIR_MSG_2 i (upd_entry i (\<lambda>e. e\<lparr>PTK := take 64 ptk\<rparr>) A1) = Some (ok, A2)"
    and B: "installed B = installed A2"
    using assms go ie unfolding PeerPairMsg2Action_def Let_def A1_def [symmetric]
    by (auto simp: bind_eq_Some_conv dest!: installed_send_eapol split: if_splits)
  with sanity2_keeps [OF A2] show ?thesis by (simp add: A1_def)
qed

lemma message3_authentic:
  "PeerPairMsg3Action clk i Msg MsgLen A = Some B \<Longrightarrow> installed B = installed A \<or> authentic EAPOL_PAIR_MSG_3 (Entry A i) (eapol_of Msg)"
  using sanity_authentic [of clk "eapol_of Msg" EAPOL_PAIR_MSG_3 i A]
  by (auto simp: PeerPairMsg3Action_def Let_def bind_eq_Some_conv msg_types split: if_splits)

lemma message4_authentic:
  "PeerPairMsg4Action clk i Msg MsgLen A = Some B \<Longrightarrow> installed B = installed A \<or> authentic EAPOL_PAIR_MSG_4 (Entry A i) (eapol_of Msg)"
  using sanity_authentic [of clk "eapol_of Msg" EAPOL_PAIR_MSG_4 i A]
  by (auto simp: PeerPairMsg4Action_def Let_def bind_eq_Some_conv msg_types split: if_splits)

lemma group1_authentic:
  "PeerGroupMsg1Action clk i Msg MsgLen A = Some B \<Longrightarrow> installed B = installed A \<or> authentic EAPOL_GROUP_MSG_1 (Entry A i) (eapol_of Msg)"
  using sanity_authentic [of clk "eapol_of Msg" EAPOL_GROUP_MSG_1 i A]
  by (auto simp: PeerGroupMsg1Action_def Let_def bind_eq_Some_conv msg_types split: if_splits)

lemma group2_authentic:
  "PeerGroupMsg2Action clk i (drop LENGTH_802_11 Msg) MsgLen A = Some B \<Longrightarrow>
    installed B = installed A \<or> authentic EAPOL_GROUP_MSG_2 (Entry A i) (eapol_of Msg)"
  using sanity_authentic [of clk "eapol_of Msg" EAPOL_GROUP_MSG_2 i A]
  by (auto simp: PeerGroupMsg2Action_def Let_def bind_eq_Some_conv msg_types eapol_of_def add.commute split: if_splits)

text \<open>The dispatch: nothing happens, or the handler of the frame does what it does.\<close>

lemma key_action_cases:
  assumes "WpaEAPOLKeyAction clk Msg MsgLen A = Some B"
  obtains "B = A" | i where "99 \<le> length (eapol_of Msg)" "MacTableLookup A (take 6 (drop 10 Msg)) = Some (Some i)"
    "eapol_key_ok (Entry A i) (EAPOL_PACKET (eapol_of Msg)) MsgLen"
    "PeerPairMsg1Action clk i Msg MsgLen A = Some B \<or> PeerPairMsg2Action clk i Msg MsgLen A = Some B
      \<or> PeerPairMsg3Action clk i Msg MsgLen A = Some B \<or> PeerPairMsg4Action clk i Msg MsgLen A = Some B
      \<or> PeerGroupMsg1Action clk i Msg MsgLen A = Some B
      \<or> PeerGroupMsg2Action clk i (drop LENGTH_802_11 Msg) (sub32 MsgLen LENGTH_802_11) A = Some B
      \<or> kRequest (KeyInfo (EAPOL_PACKET (eapol_of Msg))) \<and> (B = put_out (Enqueue_COUNTER_MEASURE (Entry A i)) A
          \<or> group_key_request clk i A = Some B \<or> pairwise_key_request clk i A = Some B)"
proof -
  obtain r where r: "\<not> length (eapol_of Msg) < 99" "MacTableLookup A (take 6 (drop 10 Msg)) = Some r"
    using assms by (cases "length (eapol_of Msg) < 99"; cases "MacTableLookup A (take 6 (drop 10 Msg))")
      (simp_all add: WpaEAPOLKeyAction_def Let_def)
  show ?thesis
  proof (cases r)
    case None
    with assms r that(1) show ?thesis by (simp add: WpaEAPOLKeyAction_def Let_def)
  next
    case (Some i)
    note run = assms [unfolded WpaEAPOLKeyAction_def Let_def]
    show ?thesis
    proof (cases "eapol_key_ok (Entry A i) (EAPOL_PACKET (eapol_of Msg)) MsgLen")
      case False
      with run r Some that(1) show ?thesis by simp
    next
      case True
      have "B = A \<or> PeerPairMsg1Action clk i Msg MsgLen A = Some B \<or> PeerPairMsg2Action clk i Msg MsgLen A = Some B
        \<or> PeerPairMsg3Action clk i Msg MsgLen A = Some B \<or> PeerPairMsg4Action clk i Msg MsgLen A = Some B
        \<or> PeerGroupMsg1Action clk i Msg MsgLen A = Some B
        \<or> PeerGroupMsg2Action clk i (drop LENGTH_802_11 Msg) (sub32 MsgLen LENGTH_802_11) A = Some B
        \<or> kRequest (KeyInfo (EAPOL_PACKET (eapol_of Msg))) \<and> (B = put_out (Enqueue_COUNTER_MEASURE (Entry A i)) A
            \<or> group_key_request clk i A = Some B \<or> pairwise_key_request clk i A = Some B)"
        using run r Some True by (simp split: if_splits)
      then show ?thesis using that(1) that(2) [OF _ _ True] r Some by auto
    qed
  qed
qed

text \<open>C7: A received EAPOL-Key frame without the request bit changes an installed key (pairwise, group or shared, in
  the tables of the driver or of the controller) or opens a port only if it comes from a station in the table,
  its replay counter is one that the entry accepts, and its integrity code is right under the
  pairwise key of the entry.\<close>

theorem keys_only_with_mic:
  assumes "WpaEAPOLKeyAction clk Msg MsgLen A = Some B" and "\<not> kRequest (KeyInfo (EAPOL_PACKET (eapol_of Msg)))"
  shows "installed B = installed A
    \<or> (\<exists>i t. MacTableLookup A (take 6 (drop 10 Msg)) = Some (Some i) \<and> eapol_key_ok (Entry A i) (EAPOL_PACKET (eapol_of Msg)) MsgLen
        \<and> authentic t (Entry A i) (eapol_of Msg))"
proof (rule key_action_cases [OF assms(1)])
  fix i assume "MacTableLookup A (take 6 (drop 10 Msg)) = Some (Some i)" "eapol_key_ok (Entry A i) (EAPOL_PACKET (eapol_of Msg)) MsgLen"
    "PeerPairMsg1Action clk i Msg MsgLen A = Some B \<or> PeerPairMsg2Action clk i Msg MsgLen A = Some B
      \<or> PeerPairMsg3Action clk i Msg MsgLen A = Some B \<or> PeerPairMsg4Action clk i Msg MsgLen A = Some B
      \<or> PeerGroupMsg1Action clk i Msg MsgLen A = Some B
      \<or> PeerGroupMsg2Action clk i (drop LENGTH_802_11 Msg) (sub32 MsgLen LENGTH_802_11) A = Some B
      \<or> kRequest (KeyInfo (EAPOL_PACKET (eapol_of Msg))) \<and> (B = put_out (Enqueue_COUNTER_MEASURE (Entry A i)) A
          \<or> group_key_request clk i A = Some B \<or> pairwise_key_request clk i A = Some B)"
  with assms(2) show ?thesis
    using message1_keeps message2_keeps message3_authentic message4_authentic group1_authentic group2_authentic by metis
qed simp

section \<open>A message 3 without the master key\<close>

text \<open>The same station with another master key.\<close>

definition with_PMK :: "bytes \<Rightarrow> wpa_adapter \<Rightarrow> wpa_adapter" where
  "with_PMK K S = S\<lparr>StaCfg := (StaCfg S)\<lparr>sPMK := K\<rparr>\<rparr>"

lemma with_PMK_fields [simp]:
  "opmode (with_PMK K S) = opmode S" "Content (with_PMK K S) = Content S" "Hash (with_PMK K S) = Hash S" "SharedKey (with_PMK K S) = SharedKey S"
  "CurrentAddress (with_PMK K S) = CurrentAddress S" "BcnMaxNum (with_PMK K S) = BcnMaxNum S" "StaCfg (with_PMK K S) = (StaCfg S)\<lparr>sPMK := K\<rparr>"
  by (simp_all add: with_PMK_def)

lemma with_PMK_lookup [simp]: "MacTableLookup (with_PMK K S) a = MacTableLookup S a"
  by (simp add: MacTableLookup_def)

lemma with_PMK_sta_side: "sta_side S \<Longrightarrow> length K = 32 \<Longrightarrow> sta_side (with_PMK K S)"
  by (simp add: sta_side_def Let_def)

text \<open>The station has accepted message 3: the keys that it uses, and the port.\<close>

definition accepted :: "bytes \<Rightarrow> nat \<Rightarrow> bytes \<Rightarrow> wpa_adapter \<Rightarrow> wpa_adapter \<Rightarrow> bool" where
  "accepted ptk k gtk S S' \<longleftrightarrow> (let e = Entry S BSSID_WCID; e' = Entry S' BSSID_WCID; c = GroupCipher (StaCfg S) in
     WpaState e' = AS_PTKINITDONE \<and> PortSecured e' \<and> sPortSecured (StaCfg S') \<and> sPTK (StaCfg S') = ptk
     \<and> PairwiseKey e' = pairwise_key_of False (WepStatus e) ptk
     \<and> SharedKey S' = (SharedKey S)[0 := (SharedKey S ! 0)[k := sta_group_key c gtk]])"

text \<open>Whoever knows the pairwise key and the nonce of the entry can make message 3, with a group key of his choice.\<close>

lemma message3_from_ptk:
  assumes S: "sta_side S" and gtk: "length gtk = 32" and k: "k < 4"
    and cnt: "be_number (R_Counter (Entry S BSSID_WCID)) + 1 < 256 ^ 8"
  obtains Msg where "\<not> kRequest (KeyInfo (EAPOL_PACKET (eapol_of Msg)))"
    "\<And>clk K. length K = 32 \<Longrightarrow> \<exists>S'. WpaEAPOLKeyAction clk Msg (length Msg) (with_PMK K S) = Some S'
      \<and> accepted (PTK (Entry S BSSID_WCID)) k gtk S S'"
proof -
  let ?e = "Entry S BSSID_WCID"
  note s = S [unfolded sta_side_def Let_def]
  define m where "m = ex_mbss\<lparr>GTK := gtk, GroupKeyWepStatus := GroupCipher (StaCfg S), DefaultKeyId := k\<rparr>"
  define e where "e = ?e\<lparr>R_Counter := ADD_ONE_To_64BIT_VAR (R_Counter ?e)\<rparr>"
  have e: "psk_modes e (GroupCipher (StaCfg S))" "entry_ok e" "length (ANonce ?e) = 32" "length (R_Counter ?e) = 8"
    using s by (auto simp: e_def psk_modes_def entry_ok_def)
  have t: "EAPOL_PAIR_MSG_1 \<le> EAPOL_PAIR_MSG_3" "EAPOL_PAIR_MSG_3 \<le> EAPOL_PAIR_MSG_4" by (simp_all add: msg_types)
  have ie: "mbss_rsnie e m = (ex_rsn_ie, 20)" using e(1) by (simp add: mbss_rsnie_def m_def ex_mbss_def psk_modes_def)
  have ok: "rsn_ie_ok ex_rsn_ie 20" by (simp add: rsn_ie_ok_def rsn_oui_def ex_rsn_ie_def)
  have d: "key_data True EAPOL_PAIR_MSG_3 (GroupKeyWepStatus m) (word_of_nat k) (GTK m) ex_rsn_ie 20 = msg3_data e m"
    using ie by (simp add: key_data_def encrypted_type_def msg3_data_def m_def)
  obtain c f where "construct e (GroupKeyWepStatus m) EAPOL_PAIR_MSG_3 k (ANonce ?e) (replicate 6 0) (GTK m) ex_rsn_ie 20 = Some f"
    and f: "hs_message EAPOL_PAIR_MSG_3 e (GroupKeyWepStatus m) (word_of_nat k) c f" "KeyNonce f = ANonce ?e"
      "msg3_data e m \<noteq> [] \<Longrightarrow> c \<noteq> []" "clears (desc_version (WepStatus e) (GroupKeyWepStatus m)) (PTK e) c f (msg3_data e m)"
    unfolding d [symmetric]
    by (rule psk_message [of e "GroupKeyWepStatus m" EAPOL_PAIR_MSG_3 "ANonce ?e" "replicate 6 0" "GTK m" 20 ex_rsn_ie k])
      (use e t ok gtk in \<open>simp_all add: m_def\<close>)
  have c: "c \<noteq> []" using f(3) by (simp add: msg3_data_def rsn_element_def)
  define Msg where "Msg = (replicate 10 0 @ Addr ?e @ replicate 16 0) @ wire c f @ []"
  have rcv: "received (Addr ?e) (wire c f) Msg (length Msg)" unfolding Msg_def
    by (rule delivered [OF _ _ f(1) hs_message_short [OF f(1)]]) (use s in \<open>simp_all add: header_from_def entry_ok_def\<close>)
  obtain j where j: "EAPOL_PACKET (eapol_of Msg) = f\<lparr>KeyData := c @ j\<rparr>" by (rule received_message [OF f(1) rcv])
  have "\<not> kRequest (KeyInfo (EAPOL_PACKET (eapol_of Msg)))"
    by (simp add: j hs_messageD(5) [OF f(1)] eapol_key_info_def KEY_INFO_def Let_def)
  moreover have "\<exists>S'. WpaEAPOLKeyAction clk Msg (length Msg) (with_PMK K S) = Some S' \<and> accepted (PTK ?e) k gtk S S'"
    if K: "length K = 32" for clk K
  proof -
    let ?S = "with_PMK K S"
    have s': "sta_side ?S" by (rule with_PMK_sta_side [OF S K])
    have ki: "KeyInfo f = eapol_key_info True EAPOL_PAIR_MSG_3 (desc_version (WepStatus ?e) (GroupKeyWepStatus m)) (word_of_nat k) (KEY_INFO [0, 0])"
      using hs_messageD(5) [OF f(1)] by (simp add: e_def)
    have "WpaEAPOLKeyAction clk Msg (length Msg) ?S = PeerPairMsg3Action clk BSSID_WCID Msg (length Msg) ?S"
      using s' s by (intro key_action_dispatch(3) [OF _ refl _ _ _ _ hs_messageD(1-3) [OF f(1)] _ rcv]) (simp_all add: ki sta_side_def Let_def m_def)
    moreover obtain e1 h g S' where "e1 = (Entry ?S BSSID_WCID)\<lparr>R_Counter := ReplayCounter f\<rparr>"
        "PeerPairMsg3Action clk BSSID_WCID Msg (length Msg) ?S = Some S'"
        "Entry S' BSSID_WCID = e1\<lparr>WpaState := AS_PTKINITDONE, PairwiseKey := pairwise_key_of False (WepStatus e1) (PTK e1),
           PortSecured := True, PrivacyFilter := Ndis802_11PrivFilterAcceptAll\<rparr>"
        "StaCfg S' = (StaCfg ?S)\<lparr>sGTK := g, sDefaultKeyId := DefaultKeyId m, sPTK := PTK e1, sPortSecured := True\<rparr>"
        "SharedKey S' = (SharedKey ?S)[0 := (SharedKey ?S ! 0)[DefaultKeyId m := sta_group_key (GroupKeyWepStatus m) (GTK m)]]"
      by (rule PeerPairMsg3Action_message4 [OF s' f(1) c f(4) rcv, of clk])
        (use f(2) hs_messageD(4) [OF f(1)] e cnt ie ok gtk k in \<open>simp_all add: e_def m_def next_counter\<close>)
    ultimately show ?thesis by (auto simp: accepted_def Let_def m_def)
  qed
  ultimately show ?thesis by (rule that)
qed

theorem keys_only_with_mic_witness:
  "\<exists>Msg B i t. WpaEAPOLKeyAction \<lparr>system_time = \<lambda>_. 0, up_time = 0\<rparr> Msg (length Msg) ex_sta = Some B \<and> installed B \<noteq> installed ex_sta
    \<and> authentic t (Entry ex_sta i) (eapol_of Msg)"
proof -
  have x: "be_number (R_Counter (Entry ex_sta BSSID_WCID)) + 1 < 256 ^ 8" "with_PMK (replicate 32 5) ex_sta = ex_sta"
      "\<not> sPortSecured (StaCfg ex_sta)"
    by (simp_all add: ex_sta_def ex_defs BSSID_WCID_def be_number_zeros with_PMK_def)
  obtain Msg where Msg: "\<not> kRequest (KeyInfo (EAPOL_PACKET (eapol_of Msg)))"
    "\<And>clk K. length K = 32 \<Longrightarrow> \<exists>S'. WpaEAPOLKeyAction clk Msg (length Msg) (with_PMK K ex_sta) = Some S'
      \<and> accepted (PTK (Entry ex_sta BSSID_WCID)) 1 (replicate 32 9) ex_sta S'"
    by (rule message3_from_ptk [OF ex_sides(2) _ _ x(1), of "replicate 32 9" 1]) simp_all
  let ?clk = "\<lparr>system_time = \<lambda>_. 0, up_time = 0\<rparr> :: wpa_clock"
  obtain B where B: "WpaEAPOLKeyAction ?clk Msg (length Msg) ex_sta = Some B" "sPortSecured (StaCfg B)"
    using Msg(2) [of "replicate 32 5" ?clk] x(2) by (auto simp: accepted_def Let_def)
  then have new: "installed B \<noteq> installed ex_sta" using x(3) by (auto simp: installed_def)
  then have "\<exists>i t. authentic t (Entry ex_sta i) (eapol_of Msg)" using keys_only_with_mic [OF B(1) Msg(1)] by blast
  with B(1) new show ?thesis by blast
qed

text \<open>C11: A station that has derived no pairwise key, as after \<open>LinkDown\<close>, which zeroes the entry of the access
  point, accepts a message 3 that is coded with zeros: there is a frame that it accepts whatever its master key
  is. It then uses the pairwise key of zeros and the group key that the frame brings, and opens its port.\<close>

theorem station_accepts_keyless_message3:
  assumes "sta_side S" and "PTK (Entry S BSSID_WCID) = replicate 64 0" and "be_number (R_Counter (Entry S BSSID_WCID)) + 1 < 256 ^ 8"
    and "length gtk = 32" and "k < 4"
  shows "\<exists>Msg. \<forall>clk K. length K = 32 \<longrightarrow> (\<exists>S'. WpaEAPOLKeyAction clk Msg (length Msg) (with_PMK K S) = Some S'
    \<and> accepted (replicate 64 0) k gtk S S')"
proof -
  obtain Msg where "\<And>clk K. length K = 32 \<Longrightarrow> \<exists>S'. WpaEAPOLKeyAction clk Msg (length Msg) (with_PMK K S) = Some S'
      \<and> accepted (PTK (Entry S BSSID_WCID)) k gtk S S'"
    by (rule message3_from_ptk [OF assms(1,4,5,3)]) blast
  then show ?thesis unfolding assms(2) by blast
qed

theorem station_accepts_keyless_message3_witness:
  "\<exists>Msg. \<forall>clk K. length K = 32 \<longrightarrow> (\<exists>S'. WpaEAPOLKeyAction clk Msg (length Msg) (with_PMK K ex_sta) = Some S'
    \<and> accepted (replicate 64 0) 1 (replicate 32 9) ex_sta S')"
  by (rule station_accepts_keyless_message3 [OF ex_sides(2)])
    (simp_all add: ex_sta_def ex_defs BSSID_WCID_def be_number_zeros)

end
