(* ===== verification/Wpa_Keeps.thy ===== *)
theory Wpa_Keeps
  imports Ap_Properties Wpa_Safety
begin

text \<open>
  What the key handshakes leave alone: no handler changes what the table of stations depends on, and
  every buffer keeps its length.
\<close>

section \<open>What the handlers keep\<close>

text \<open>What the table depends on, and the sizes of the arrays.\<close>

definition shape :: "wpa_adapter \<Rightarrow> (ENTRY_TYPE \<times> bytes \<times> nat option) list \<times> (ENTRY_TYPE \<times> bytes \<times> nat \<times> nat) list
    \<times> nat option list \<times> nat \<times> nat \<times> OPMODE \<times> nat" where
  "shape A = (lookup_keys (Content A), ids (Content A), Hash A, MacTabSize A, length (MBSSID A), opmode A, BssidNum A)"

definition entry_lens :: "wpa_entry \<Rightarrow> bool" where
  "entry_lens e \<longleftrightarrow> length (ANonce e) = 32 \<and> length (SNonce e) = 32 \<and> length (R_Counter e) = 8 \<and> length (PTK e) = 64"

definition mbss_lens :: "mbss \<Rightarrow> bool" where
  "mbss_lens m \<longleftrightarrow> length (Bssid m) = 6 \<and> length (PMK m) = 32 \<and> length (GTK m) = 32 \<and> length (GNonce m) = 32
     \<and> (\<forall>c\<in>set (PMKIDCache m). length (iPMK c) = 32)"

definition buffers_ok :: "wpa_adapter \<Rightarrow> bool" where
  "buffers_ok A \<longleftrightarrow> (\<forall>e\<in>set (Content A). entry_lens e) \<and> (\<forall>m\<in>set (MBSSID A). mbss_lens m)
     \<and> length (sGTK (StaCfg A)) = 32 \<and> length (sPTK (StaCfg A)) = 64"

definition keeps :: "wpa_adapter \<Rightarrow> wpa_adapter \<Rightarrow> bool" where
  "keeps A B \<longleftrightarrow> shape B = shape A \<and> (buffers_ok A \<longrightarrow> buffers_ok B)"

lemma keeps_refl [simp]: "keeps A A"
  by (simp add: keeps_def)

lemma keeps_trans: "keeps A B \<Longrightarrow> keeps B C \<Longrightarrow> keeps A C"
  by (simp add: keeps_def)

text \<open>An update of an entry that keeps its place and its buffers.\<close>

definition tame :: "(wpa_entry \<Rightarrow> wpa_entry) \<Rightarrow> bool" where
  "tame f \<longleftrightarrow> (\<forall>e. EntryType (f e) = EntryType e \<and> Addr (f e) = Addr e \<and> pNext (f e) = pNext e \<and> Aid (f e) = Aid e
     \<and> apidx (f e) = apidx e \<and> (entry_lens e \<longrightarrow> entry_lens (f e)))"

definition tame_mbss :: "(mbss \<Rightarrow> mbss) \<Rightarrow> bool" where
  "tame_mbss f \<longleftrightarrow> (\<forall>m. mbss_lens m \<longrightarrow> mbss_lens (f m))"

lemma keeps_upd [simp]:
  assumes "tame f"
  shows "keeps A (upd_entry i f A)"
proof (cases "i < length (Content A)")
  case True
  have f: "EntryType (f e) = EntryType e" "Addr (f e) = Addr e" "pNext (f e) = pNext e" "Aid (f e) = Aid e"
    "apidx (f e) = apidx e" "entry_lens e \<Longrightarrow> entry_lens (f e)" for e
    using assms by (simp_all add: tame_def)
  have "shape (upd_entry i f A) = shape A"
    using True f by (simp add: shape_def upd_entry_def lookup_keys_def ids_def map_update list_update_same_conv)
  moreover have "buffers_ok A \<Longrightarrow> buffers_ok (upd_entry i f A)"
    using True f(6) nth_mem [OF True] by (auto simp: buffers_ok_def upd_entry_def dest!: subsetD [OF set_update_subset_insert])
  ultimately show ?thesis by (simp add: keeps_def)
next
  case False
  then have "upd_entry i f A = A" by (simp add: upd_entry_def list_update_beyond)
  then show ?thesis by simp
qed

lemma keeps_mbss_at:
  assumes "mbss_lens (MBSSID A ! n) \<Longrightarrow> mbss_lens (f (MBSSID A ! n))"
  shows "keeps A (upd_mbss n f A)"
proof (cases "n < length (MBSSID A)")
  case True
  with assms nth_mem [OF True] show ?thesis
    by (auto simp: keeps_def shape_def buffers_ok_def upd_mbss_def dest!: subsetD [OF set_update_subset_insert])
next
  case False
  then have "upd_mbss n f A = A" by (simp add: upd_mbss_def list_update_beyond)
  then show ?thesis by simp
qed

lemma keeps_upd_mbss [simp]: "tame_mbss f \<Longrightarrow> keeps A (upd_mbss n f A)"
  by (rule keeps_mbss_at) (simp add: tame_mbss_def)

lemma keeps_cong:
  "shape B = shape A \<Longrightarrow> Content B = Content A \<Longrightarrow> MBSSID B = MBSSID A \<Longrightarrow> StaCfg B = StaCfg A \<Longrightarrow> keeps A B"
  by (simp add: keeps_def buffers_ok_def)

lemma keeps_put_out [simp]: "keeps A (put_out x A)"
  by (rule keeps_cong) (simp_all add: shape_def put_out_def)

lemma keeps_feed:
  assumes "\<And>B x C. f B x = Some C \<Longrightarrow> keeps B C"
  shows "feed f A xs = Some B \<Longrightarrow> keeps A B"
proof (induction xs arbitrary: A)
  case (Cons x xs)
  then obtain C where "f A x = Some C" "feed f C xs = Some B" by (auto split: option.splits)
  with assms Cons.IH show ?case by (blast intro: keeps_trans)
qed simp

section \<open>Lengths\<close>

lemma prf_turn_lengths:
  "prf_turn k n st i = Some st' \<Longrightarrow> length (snd st') = length (snd st)"
  by (auto simp: prf_turn_def split: prod.splits option.splits dest: move_mem_length)

lemma feed_prf_lengths:
  "feed (prf_turn k n) st xs = Some st' \<Longrightarrow> length (snd st') = length (snd st)"
  by (induction xs arbitrary: st) (auto split: option.splits dest: prf_turn_lengths)

lemma PRF_length: "PRF k kl p pl d dl output len = Some b \<Longrightarrow> length b = length output"
  by (auto simp: PRF_def Let_def split: if_splits option.splits dest!: feed_prf_lengths)

lemma WpaDerivePTK_length: "WpaDerivePTK pmk an aa sn sa output len = Some b \<Longrightarrow> length b = length output"
  by (auto simp: WpaDerivePTK_def split: if_splits dest: PRF_length)

lemma WpaDeriveGTK_length: "WpaDeriveGTK gmk n aa output len = Some b \<Longrightarrow> length b = length output"
  by (auto simp: WpaDeriveGTK_def split: if_splits option.splits dest: move_mem_length)

lemma GenRandom_length:
  assumes "GenRandom now a = Some r"
  shows "length r = 32"
proof -
  have "6 \<le> length a" using assms by (simp add: GenRandom_def split: if_splits)
  then show ?thesis by (rule GenRandom_total [of a now]) (use assms in simp)
qed

lemma EAPOL_PACKET_lengths:
  "99 \<le> length b \<Longrightarrow> length (ReplayCounter (EAPOL_PACKET b)) = 8" "99 \<le> length b \<Longrightarrow> length (KeyNonce (EAPOL_PACKET b)) = 32"
  by (simp_all add: EAPOL_PACKET_def)

section \<open>The key handshakes\<close>

text \<open>The rules that lead back from a state to one that it keeps.\<close>

lemma keeps_upd_trans: "keeps A B \<Longrightarrow> tame f \<Longrightarrow> keeps A (upd_entry i f B)"
  by (erule keeps_trans) simp

lemma keeps_mbss_trans: "keeps A B \<Longrightarrow> tame_mbss f \<Longrightarrow> keeps A (upd_mbss n f B)"
  by (erule keeps_trans) simp

lemma keeps_out_trans: "keeps A B \<Longrightarrow> keeps A (put_out x B)"
  by (erule keeps_trans) simp

lemmas keeps_intros = keeps_upd_trans keeps_mbss_trans keeps_out_trans

lemma keeps_send_eapol: "send_eapol i src f c A = Some B \<Longrightarrow> keeps A B"
  by (auto simp: send_eapol_def Let_def split: if_splits)

lemma keeps_RTMPSetWcidSecurityInfo: "keeps A (RTMPSetWcidSecurityInfo clk b k alg w tab A)"
  by (rule keeps_cong) (simp_all add: RTMPSetWcidSecurityInfo_def Let_def shape_def split_beta)

lemma keeps_asic: "keeps A (A\<lparr>asic_mem := M\<rparr>)" "keeps A (A\<lparr>SharedKey := K\<rparr>)"
  by (rule keeps_cong; simp add: shape_def)+

lemma keeps_WPAInstallPairwiseKey:
  assumes "WPAInstallPairwiseKey clk n i bAE A = Some B"
  shows "keeps A B"
proof -
  have t: "tame (\<lambda>e. e\<lparr>PairwiseKey := k\<rparr>)" for k by (simp add: tame_def entry_lens_def)
  have "keeps A (RTMPSetWcidSecurityInfo clk n 0 c w tab (upd_entry i (\<lambda>e. e\<lparr>PairwiseKey := k\<rparr>) (A\<lparr>asic_mem := M\<rparr>)))" for c w tab k M
    using keeps_trans [OF keeps_trans [OF keeps_asic(1) keeps_upd [OF t]] keeps_RTMPSetWcidSecurityInfo] .
  with assms t show ?thesis by (auto simp: WPAInstallPairwiseKey_def Let_def split: if_splits)
qed

lemma keeps_WPAInstallSharedKey:
  assumes "WPAInstallSharedKey clk c n k w bAE g l A = Some B"
  shows "keeps A B"
proof -
  have "keeps A (RTMPSetWcidSecurityInfo clk n k c' w tab (A\<lparr>SharedKey := K, asic_mem := M\<rparr>))" for c' w tab K M
    using keeps_trans [OF keeps_trans [OF keeps_asic(2) keeps_asic(1)] keeps_RTMPSetWcidSecurityInfo] .
  moreover have "keeps A (A\<lparr>SharedKey := K, asic_mem := M\<rparr>)" for K M using keeps_trans [OF keeps_asic(2) keeps_asic(1)] .
  ultimately show ?thesis
    using assms keeps_asic(2) by (auto simp: WPAInstallSharedKey_def Let_def split: if_splits option.splits)
qed

lemma keeps_RTMPParseEapolKeyData:
  assumes "RTMPParseEapolKeyData clk d n g t w A = Some (ok, B)"
  shows "keeps A B"
proof -
  have "keeps A (A\<lparr>StaCfg := (StaCfg A)\<lparr>sGTK := g, sDefaultKeyId := k\<rparr>\<rparr>)" if "move_mem 0 l x (sGTK (StaCfg A)) = Some g" for g k l x
    using move_mem_length [OF that] by (simp add: keeps_def shape_def buffers_ok_def)
  then have "keeps A B" if "move_mem 0 l x (sGTK (StaCfg A)) = Some g"
      "WPAInstallSharedKey clk c BSS0 k MCAST_WCID False g l (A\<lparr>StaCfg := (StaCfg A)\<lparr>sGTK := g, sDefaultKeyId := k\<rparr>\<rparr>) = Some B" for g k l x c
    using that by (blast intro: keeps_trans keeps_WPAInstallSharedKey)
  with assms show ?thesis
    by (auto simp: RTMPParseEapolKeyData_def Let_def split: if_splits option.splits)
qed

lemma keeps_PeerWpaMessageSanity: "PeerWpaMessageSanity clk p t i A = Some (ok, B) \<Longrightarrow> keeps A B"
  by (auto simp: PeerWpaMessageSanity_def Let_def split: if_splits option.splits dest: keeps_RTMPParseEapolKeyData)

lemmas keeps_ops = keeps_send_eapol [THEN [2] keeps_trans, rotated] keeps_PeerWpaMessageSanity [THEN [2] keeps_trans, rotated]
  keeps_WPAInstallPairwiseKey [THEN [2] keeps_trans, rotated] keeps_WPAInstallSharedKey [THEN [2] keeps_trans, rotated]
lemmas tames = tame_def tame_mbss_def entry_lens_def mbss_lens_def

lemma keeps_PeerPairMsg1Action:
  assumes "PeerPairMsg1Action clk i Msg MsgLen A = Some B" and "99 \<le> length (eapol_of Msg)"
  shows "keeps A B"
  using assms unfolding PeerPairMsg1Action_def Let_def
  by (auto simp: bind_eq_Some_conv tames EAPOL_PACKET_lengths split: if_splits
      dest!: GenRandom_length WpaDerivePTK_length intro!: keeps_intros elim!: keeps_ops)

lemma keeps_add_pmkid:
  assumes "add_pmkid i f A = Some (g, B)"
  shows "keeps A B"
proof -
  have "keeps A (upd_mbss n (\<lambda>m. m\<lparr>PMK := iPMK (PMKIDCache m ! c)\<rparr>) A)" if "c < length (PMKIDCache (MBSSID A ! n))" for n c
    using nth_mem [OF that] by (intro keeps_mbss_at) (simp add: mbss_lens_def)
  with assms show ?thesis by (auto simp: add_pmkid_def Let_def not_le split: if_splits)
qed

lemmas keeps_pmkid = keeps_add_pmkid [THEN [2] keeps_trans, rotated]

lemma keeps_WPAStart4WayHS: "WPAStart4WayHS clk i t A = Some B \<Longrightarrow> keeps A B"
  unfolding WPAStart4WayHS_def Let_def
  by (auto simp: bind_eq_Some_conv tames split: if_splits dest!: GenRandom_length intro!: keeps_intros elim!: keeps_ops keeps_pmkid)

lemmas keeps_start = keeps_WPAStart4WayHS [THEN [2] keeps_trans, rotated]

lemma keeps_WpaEAPOLStartAction: "WpaEAPOLStartAction clk Msg n A = Some B \<Longrightarrow> keeps A B"
  unfolding WpaEAPOLStartAction_def Let_def
  by (auto simp: bind_eq_Some_conv tames split: if_splits option.splits intro!: keeps_intros elim!: keeps_start)

lemma keeps_PeerPairMsg2Action:
  assumes "PeerPairMsg2Action clk i Msg MsgLen A = Some B" and n: "99 \<le> length (eapol_of Msg)"
  shows "keeps A B"
proof (cases "\<not> is_client A i \<or> too_short MsgLen \<or> WpaState (Entry A i) < AS_PTKSTART \<or> opmode A \<noteq> OPMODE_AP
    \<or> apidx (Entry A i) \<ge> BssidNum A \<or> apidx (Entry A i) \<ge> length (MBSSID A)")
  case True
  have "tame (\<lambda>e. e\<lparr>SNonce := KeyNonce (EAPOL_PACKET (eapol_of Msg))\<rparr>)" using n by (simp add: tames EAPOL_PACKET_lengths)
  with True assms(1) show ?thesis by (auto simp: PeerPairMsg2Action_def Let_def split: if_splits)
next
  case go: False
  define A1 where "A1 = upd_entry i (\<lambda>e. e\<lparr>SNonce := KeyNonce (EAPOL_PACKET (eapol_of Msg))\<rparr>) A"
  define rest where "rest tsc ok A2 = (if \<not> ok then Some A2
        else do {
          let C = upd_entry i (\<lambda>e. e\<lparr>RetryTimer := RTMPCancelTimer (RetryTimer e), WpaState := AS_PTKINIT_NEGOTIATING,
                     R_Counter := ADD_ONE_To_64BIT_VAR (R_Counter e)\<rparr>) A2;
          let e = Entry C i;
          f \<leftarrow> construct e (GroupKeyWepStatus (net A i)) EAPOL_PAIR_MSG_3 (DefaultKeyId (net A i)) (ANonce e) tsc (GTK (net A i))
                 (fst (mbss_rsnie (Entry A i) (net A i))) (snd (mbss_rsnie (Entry A i) (net A i)));
          D \<leftarrow> send_eapol i (Bssid (net A i)) f (\<not> PortSecured e) C;
          Some (upd_entry i (\<lambda>e. e\<lparr>ReTryCounter := PEER_MSG3_RETRY_TIMER_CTR,
                  RetryTimer := RTMPSetTimer (halted D) PEER_MSG3_RETRY_EXEC_INTV (RetryTimer e)\<rparr>) D)
        })" for tsc ok A2
  have A1: "keeps A A1" using n by (simp add: A1_def tames EAPOL_PACKET_lengths)
  have rest: "rest tsc ok A2 = Some B \<Longrightarrow> keeps A2 B" for tsc ok A2 unfolding rest_def Let_def
    by (auto simp: bind_eq_Some_conv tames split: if_splits intro!: keeps_intros elim!: keeps_ops)
  have eq: "PeerPairMsg2Action clk i Msg MsgLen A = do {
      tsc \<leftarrow> RTMPGetTxTscFromAsic A (apidx (Entry A i));
      ptk \<leftarrow> WpaDerivePTK (PMK (net A i)) (ANonce (Entry A1 i)) (Bssid (net A i)) (SNonce (Entry A1 i)) (Addr (Entry A1 i)) (replicate 80 0) 64;
      (ok, A2) \<leftarrow> PeerWpaMessageSanity clk (eapol_of Msg) EAPOL_PAIR_MSG_2 i (upd_entry i (\<lambda>e. e\<lparr>PTK := take 64 ptk\<rparr>) A1);
      rest tsc ok A2 }"
    using go unfolding PeerPairMsg2Action_def Let_def A1_def rest_def by (simp add: split_beta)
  obtain tsc ptk ok A2 where "length ptk = 80" "rest tsc ok A2 = Some B"
      "PeerWpaMessageSanity clk (eapol_of Msg) EAPOL_PAIR_MSG_2 i (upd_entry i (\<lambda>e. e\<lparr>PTK := take 64 ptk\<rparr>) A1) = Some (ok, A2)"
    using assms(1) unfolding eq by (auto simp: bind_eq_Some_conv dest!: WpaDerivePTK_length)
  then have "keeps A1 A2" "keeps A2 B" using rest by (auto simp: tames intro!: keeps_intros elim!: keeps_ops)
  with A1 show ?thesis by (blast intro: keeps_trans)
qed


lemma keeps_port: "keeps A (open_port i A)" "keeps A (STA_PORT_SECURED A)"
proof -
  show "keeps A (open_port i A)" unfolding open_port_def by (rule keeps_upd) (simp add: tames)
  have c: "keeps B (B\<lparr>StaCfg := (StaCfg B)\<lparr>sPortSecured := True\<rparr>\<rparr>)" "keeps B (B\<lparr>LinkDownTimer := t\<rparr>)" for B t
    by (simp_all add: keeps_def shape_def buffers_ok_def)
  have t: "tame (\<lambda>e. e\<lparr>PortSecured := s, PrivacyFilter := f\<rparr>)" for s f by (simp add: tames)
  show "keeps A (STA_PORT_SECURED A)" unfolding STA_PORT_SECURED_def Let_def
    by (rule keeps_trans [OF keeps_upd_trans [OF keeps_out_trans [OF c(1)] t] c(2)])
qed

lemma keeps_sPTK:
  assumes i: "i < length (Content A)" and C: "keeps A C"
  shows "keeps A (C\<lparr>StaCfg := (StaCfg A)\<lparr>sPTK := PTK (Entry A i)\<rparr>\<rparr>)"
proof -
  have "buffers_ok A \<Longrightarrow> length (PTK (Entry A i)) = 64 \<and> length (sGTK (StaCfg A)) = 32"
    using nth_mem [OF i] by (auto simp: buffers_ok_def entry_lens_def)
  moreover have "shape (C\<lparr>StaCfg := s\<rparr>) = shape C" for s by (simp add: shape_def)
  moreover have "buffers_ok C \<Longrightarrow> length (sGTK s) = 32 \<Longrightarrow> length (sPTK s) = 64 \<Longrightarrow> buffers_ok (C\<lparr>StaCfg := s\<rparr>)" for s
    by (simp add: buffers_ok_def)
  ultimately show ?thesis using C by (auto simp: keeps_def)
qed

lemmas keeps_steps = keeps_port [THEN [2] keeps_trans] keeps_sPTK

lemma keeps_PeerPairMsg3Action:
  assumes "PeerPairMsg3Action clk i Msg MsgLen A = Some B" and n: "99 \<le> length (eapol_of Msg)"
  shows "keeps A B"
proof (cases "\<not> is_client A i \<or> too_short MsgLen \<or> opmode A \<noteq> OPMODE_STA")
  case True
  with assms(1) show ?thesis by (auto simp: PeerPairMsg3Action_def Let_def split: if_splits)
next
  case go: False
  obtain ok A2 where A2: "PeerWpaMessageSanity clk (eapol_of Msg) EAPOL_PAIR_MSG_3 i A = Some (ok, A2)"
    using assms(1) go by (auto simp: PeerPairMsg3Action_def Let_def bind_eq_Some_conv)
  have i: "i < length (Content A)" using A2 by (cases "i < length (Content A)") (simp_all add: PeerWpaMessageSanity_def Let_def)
  have k: "keeps A A2" by (rule keeps_PeerWpaMessageSanity [OF A2])
  then have i2: "i < length (Content A2)" using i by (auto simp: keeps_def shape_def lookup_keys_def dest: map_eq_imp_length_eq)
  have "keeps A2 B" using assms(1) go i2 n unfolding PeerPairMsg3Action_def Let_def
    by (auto simp: A2 bind_eq_Some_conv tames EAPOL_PACKET_lengths split: if_splits intro!: keeps_intros keeps_steps elim!: keeps_ops)
  with k show ?thesis by (rule keeps_trans)
qed

lemma keeps_WPAStart2WayGroupHS: "WPAStart2WayGroupHS i A = Some B \<Longrightarrow> keeps A B"
  unfolding WPAStart2WayGroupHS_def Let_def
  by (auto simp: bind_eq_Some_conv tames split: if_splits intro!: keeps_intros elim!: keeps_ops)

lemmas keeps_group = keeps_WPAStart2WayGroupHS [THEN [2] keeps_trans, rotated]

lemma keeps_cache_pmkid:
  assumes "cache_pmkid clk i A = Some B"
  shows "keeps A B"
proof -
  have "c \<in> set (RTMPAddPMKIDCache t a d k C) \<Longrightarrow> length k = 32 \<Longrightarrow> \<forall>c\<in>set C. length (iPMK c) = 32 \<Longrightarrow> length (iPMK c) = 32" for c t a d k C
    by (auto simp: RTMPAddPMKIDCache_def Let_def split: option.splits dest!: subsetD [OF set_update_subset_insert])
  then have "keeps A (upd_mbss n (\<lambda>m. m\<lparr>PMKIDCache := RTMPAddPMKIDCache t a d (PMK m) (PMKIDCache m)\<rparr>) A)" for n t a d
    by (intro keeps_upd_mbss) (simp add: tames)
  with assms show ?thesis by (auto simp: cache_pmkid_def Let_def bind_eq_Some_conv split: if_splits)
qed

lemmas keeps_cache = keeps_cache_pmkid [THEN [2] keeps_trans, rotated]

lemma keeps_PeerPairMsg4Action: "PeerPairMsg4Action clk i Msg MsgLen A = Some B \<Longrightarrow> keeps A B"
  unfolding PeerPairMsg4Action_def Let_def
  by (auto simp: bind_eq_Some_conv tames split: if_splits intro!: keeps_intros elim!: keeps_ops keeps_group keeps_cache)

lemma keeps_PeerGroupMsg1Action: "PeerGroupMsg1Action clk i Msg MsgLen A = Some B \<Longrightarrow> 99 \<le> length (eapol_of Msg) \<Longrightarrow> keeps A B"
  unfolding PeerGroupMsg1Action_def Let_def
  by (auto simp: bind_eq_Some_conv tames EAPOL_PACKET_lengths split: if_splits intro!: keeps_intros keeps_port [THEN [2] keeps_trans] elim!: keeps_ops)

lemma keeps_PeerGroupMsg2Action: "PeerGroupMsg2Action clk i Msg MsgLen A = Some B \<Longrightarrow> keeps A B"
  unfolding PeerGroupMsg2Action_def Let_def
  by (auto simp: bind_eq_Some_conv tames split: if_splits intro!: keeps_intros elim!: keeps_ops)

lemma keeps_new_group_key:
  assumes "new_group_key clk n A = Some B"
  shows "keeps A B"
proof -
  have "keeps A (upd_mbss n (\<lambda>m. m\<lparr>GNonce := nonce, DefaultKeyId := f m, GTK := gtk\<rparr>) A)"
    if "length nonce = 32" "length gtk = length (GTK (MBSSID A ! n))" for nonce gtk f
    using that by (intro keeps_mbss_at) (simp add: mbss_lens_def)
  with assms show ?thesis
    by (auto simp: new_group_key_def bind_eq_Some_conv split: if_splits dest!: GenRandom_length WpaDeriveGTK_length)
qed

lemma keeps_rekey_station: "rekey_station n A j = Some B \<Longrightarrow> keeps A B"
  unfolding rekey_station_def
  by (auto simp: bind_eq_Some_conv tames split: if_splits intro!: keeps_intros elim!: keeps_group)

lemma keeps_group_key_request:
  assumes "group_key_request clk i A = Some B"
  shows "keeps A B"
proof -
  obtain C D where "new_group_key clk (apidx (Entry A i)) A = Some C" "feed (rekey_station (apidx (Entry A i))) C [0..<MAX_NUMBER_OF_MAC] = Some D"
      "install_group_key clk (apidx (Entry A i)) D = Some B"
    using assms unfolding group_key_request_def Let_def by (auto simp: bind_eq_Some_conv)
  then have "keeps A C" "keeps C D" "keeps D B"
    by (simp_all add: keeps_new_group_key keeps_feed [OF keeps_rekey_station] keeps_WPAInstallSharedKey install_group_key_def Let_def)
  then show ?thesis by (blast intro: keeps_trans)
qed

lemma keeps_pairwise_key_request: "pairwise_key_request clk i A = Some B \<Longrightarrow> keeps A B"
  unfolding pairwise_key_request_def Let_def
  by (erule keeps_start, rule keeps_upd_trans [OF keeps_asic(1)]) (simp add: tames)

lemma keeps_WpaEAPOLKeyAction:
  assumes "WpaEAPOLKeyAction clk Msg MsgLen A = Some B"
  shows "keeps A B"
  by (rule key_action_cases [OF assms])
    (auto simp: keeps_PeerPairMsg1Action keeps_PeerPairMsg2Action keeps_PeerPairMsg3Action keeps_PeerPairMsg4Action
      keeps_PeerGroupMsg1Action keeps_PeerGroupMsg2Action keeps_group_key_request keeps_pairwise_key_request)

end
