(* ===== verification/Ap_Invariant.thy ===== *)
theory Ap_Invariant
  imports Wpa_Keeps
begin

text \<open>
  The invariant of the access point: whatever frames arrive, timers expire and stations come and go, the
  table of stations stays well formed and every buffer keeps its length.
\<close>

section \<open>Stations that come and go\<close>

lemma buffers_upd:
  "buffers_ok A \<Longrightarrow> (entry_lens (Entry A i) \<Longrightarrow> entry_lens (f (Entry A i))) \<Longrightarrow> buffers_ok (upd_entry i f A)"
  by (cases "i < length (Content A)")
    (auto simp: buffers_ok_def upd_entry_def list_update_beyond dest!: subsetD [OF set_update_subset_insert])

lemma buffers_cong:
  "Content B = Content A \<Longrightarrow> MBSSID B = MBSSID A \<Longrightarrow> StaCfg B = StaCfg A \<Longrightarrow> buffers_ok B = buffers_ok A"
  by (simp add: buffers_ok_def)

lemma buffers_out [simp]: "buffers_ok (put_out x A) = buffers_ok A"
  by (rule buffers_cong) simp_all

lemma buffers_mbss: "buffers_ok A \<Longrightarrow> tame_mbss f \<Longrightarrow> buffers_ok (upd_mbss n f A)"
  using keeps_upd_mbss [of f A n] by (simp add: keeps_def)

lemma link_entry_keeps:
  assumes "link_entry h i A = Some B"
  shows "ids (Content B) = ids (Content A)" "MBSSID B = MBSSID A" "buffers_ok A \<Longrightarrow> buffers_ok B"
  using assms by (auto simp: link_entry_def upd_entry_def [symmetric] Content_upd_entry buffers_upd entry_lens_def ids_update
      buffers_cong [of "A\<lparr>Hash := H\<rparr>" A for H] split: option.splits intro!: buffers_upd)

lemma unlink_entry_buffers:
  assumes "unlink_entry h i A = Some B" and A: "buffers_ok A"
  shows "buffers_ok B"
proof (cases "Hash A ! h")
  case None
  with assms show ?thesis by (simp add: unlink_entry_def)
next
  case (Some j)
  then obtain r where r: "find_prev (Content A) i None j = Some r"
    "B = (case r of None \<Rightarrow> A | Some None \<Rightarrow> A\<lparr>Hash := (Hash A)[h := pNext (Entry A i)]\<rparr>
          | Some (Some p) \<Rightarrow> upd_entry p (\<lambda>e. e\<lparr>pNext := pNext (Entry A i)\<rparr>) A)"
    using assms(1) by (auto simp: unlink_entry_def)
  have "buffers_ok (A\<lparr>Hash := H\<rparr>)" for H using A by (simp add: buffers_ok_def)
  then show ?thesis using A unfolding r(2) by (auto simp: entry_lens_def split: option.split intro!: buffers_upd)
qed

lemma find_index_less: "find_index P xs = Some k \<Longrightarrow> k < length xs"
  by (induction xs arbitrary: k) (auto split: if_splits)

lemma forget_client_buffers:
  assumes "forget_client i A = Some B" "buffers_ok A"
  shows "buffers_ok B"
proof -
  have d: "x \<in> set (RTMPDeletePMKIDCache k c) \<Longrightarrow> \<forall>x\<in>set c. length (iPMK x) = 32 \<Longrightarrow> k < length c \<Longrightarrow> length (iPMK x) = 32" for x k c
    by (auto simp: RTMPDeletePMKIDCache_def split: if_splits dest!: subsetD [OF set_update_subset_insert])
  have k: "RTMPSearchPMKIDCache c a = Some k \<Longrightarrow> k < length c" for c a k
    unfolding RTMPSearchPMKIDCache_def by (rule find_index_less)
  let ?m = "MBSSID A ! apidx (Entry A i)"
  define c where "c = (case RTMPSearchPMKIDCache (PMKIDCache ?m) (Addr (Entry A i)) of
      None \<Rightarrow> PMKIDCache ?m | Some k \<Rightarrow> RTMPDeletePMKIDCache k (PMKIDCache ?m))"
  have n: "apidx (Entry A i) < length (MBSSID A)" using assms(1) by (simp add: forget_client_def Let_def split: if_splits)
  then have "mbss_lens ?m" using assms(2) by (simp add: buffers_ok_def)
  then have c: "\<forall>x\<in>set c. length (iPMK x) = 32" by (auto simp: c_def mbss_lens_def split: option.splits dest!: d k)
  have "buffers_ok C \<Longrightarrow> buffers_ok ((upd_mbss n (\<lambda>m. m\<lparr>PMKIDCache := c, StaCount := f m\<rparr>) C)\<lparr>EntryClientCount := k\<rparr>)" for C n f k
    using buffers_mbss [of C "\<lambda>m. m\<lparr>PMKIDCache := c, StaCount := f m\<rparr>" n] c by (simp add: buffers_ok_def tames)
  with assms n show ?thesis by (auto simp: forget_client_def Let_def c_def)
qed

lemma delete_buffers:
  assumes "MacTableDeleteEntry A i a = Some (r, B)" and A: "buffers_ok A"
  shows "buffers_ok B"
proof (cases "i \<ge> MAX_NUMBER_OF_MAC")
  case True
  with assms show ?thesis by (simp add: MacTableDeleteEntry_def)
next
  case False
  have e: "buffers_ok (C\<lparr>MacTabSize := n\<rparr>) = buffers_ok C" for C n by (rule buffers_cong) simp_all
  let ?A0 = "upd_entry i (\<lambda>e. e\<lparr>RetryTimer := RTMPCancelTimer (RetryTimer e),
                         EnqueueStartForPSKTimer := RTMPCancelTimer (EnqueueStartForPSKTimer e)\<rparr>) A"
  let ?A1 = "put_out (RTMP_STA_ENTRY_MAC_RESET i) (put_out (BASessionTearDownALL (Aid (Entry ?A0 i))) ?A0)"
  have a0: "buffers_ok ?A0" "buffers_ok ?A1" using A by (auto simp: entry_lens_def intro!: buffers_upd)
  let ?fin = "\<lambda>C. put_out RTMP_AP_UPDATE_CAPABILITY_AND_ERPIE (if MacTabSize C = 0 then put_out RTMP_UPDATE_PROTECT C else C)"
  let ?own = "\<lambda>C. do {
      D \<leftarrow> unlink_entry (MAC_ADDR_HASH_INDEX a) i C;
      Some ((upd_entry i (\<lambda>e. e\<lparr>EnqueueStartForPSKTimer := RTMPReleaseTimer (EnqueueStartForPSKTimer e),
                EnqueueEapolStartTimerRunning := EAPOL_START_DISABLE,
                Addr := replicate 6 0, EntryType := ENTRY_NONE\<rparr>) D)\<lparr>MacTabSize := MacTabSize D - 1\<rparr>) }"
  have go: "\<not> (length a \<noteq> 6 \<or> length (Hash A) \<noteq> 256 \<or> length (Content A) \<noteq> MAX_NUMBER_OF_MAC)"
    using assms(1) False by (auto simp: MacTableDeleteEntry_def split: if_splits)
  obtain C where C: "B = ?fin C" "C = A \<or> C = ?A0 \<or> (\<exists>D. (D = ?A1 \<or> forget_client i (upd_entry i (\<lambda>e. e\<lparr>RetryTimer := RTMPReleaseTimer (RetryTimer e)\<rparr>) ?A1) = Some D)
      \<and> ?own D = Some C)"
  proof (cases "EntryType (Entry A i) = ENTRY_NONE \<or> Addr (Entry ?A0 i) \<noteq> a")
    case True
    have "B = ?fin (if EntryType (Entry A i) = ENTRY_NONE then A else ?A0)"
      using assms(1) False go True unfolding MacTableDeleteEntry_def if_not_P [OF go] Let_def by auto
    then show thesis by (rule that) simp
  next
    case own: False
    with assms(1) False go that show thesis unfolding MacTableDeleteEntry_def if_not_P [OF go] Let_def
      by (cases "is_client ?A1 i") (auto simp: bind_eq_Some_conv)
  qed
  have own: "?own D = Some E \<Longrightarrow> buffers_ok D \<Longrightarrow> buffers_ok E" for D E
    by (auto simp: bind_eq_Some_conv e entry_lens_def dest!: unlink_entry_buffers intro!: buffers_upd)
  have "buffers_ok (upd_entry i (\<lambda>e. e\<lparr>RetryTimer := RTMPReleaseTimer (RetryTimer e)\<rparr>) ?A1)"
    by (rule buffers_upd [OF a0(2)]) (simp add: entry_lens_def)
  then have "buffers_ok C" using C(2) A a0 own forget_client_buffers by blast
  then show ?thesis unfolding C(1) by simp
qed

lemma insert_buffers:
  assumes "MacTableInsertEntry A a n = Some (r, B)" and A: "buffers_ok A"
  shows "buffers_ok B"
proof -
  have z: "entry_lens (new_entry C a n m i)" "entry_lens zero_entry" for C m i by (simp_all add: entry_lens_def new_entry_def zero_entry_def Let_def)
  have e: "buffers_ok (C\<lparr>MacTabSize := n\<rparr>) = buffers_ok C" "buffers_ok (C\<lparr>EntryClientCount := n\<rparr>) = buffers_ok C" for C n
    by (rule buffers_cong; simp)+
  have t: "tame_mbss (\<lambda>m. m\<lparr>StaCount := f m\<rparr>)" for f by (simp add: tames)
  show ?thesis using assms unfolding MacTableInsertEntry_def Let_def
    by (auto simp: e z t split: if_splits option.splits dest!: link_entry_keeps(3) intro!: buffers_upd buffers_mbss)
qed

text \<open>Insertion keeps the indices of the entries and their networks.\<close>

lemma link_entry_ids: "link_entry h i A = Some B \<Longrightarrow> ids (Content B) = ids (Content A) \<and> MBSSID B = MBSSID A"
  using link_entry_keeps(1,2) by blast

lemma insert_cases:
  assumes "MacTableInsertEntry A a n = Some (r, B)"
  obtains "B = A" | i where "B = upd_entry i (\<lambda>_. zero_entry) A" "\<not> live (Content A) i"
    | i m where "ids (Content B) = ids ((Content A)[i := new_entry A a n m i])" "length (MBSSID B) = length (MBSSID A)" "0 < i"
proof (cases "MacTabSize A \<ge> MAX_NUMBER_OF_MAC \<or> find_free (Content A) (first_index A) = None")
  case True
  with assms that(1) show ?thesis by (auto simp: MacTableInsertEntry_def first_index_def split: if_splits)
next
  case False
  then obtain i where i: "find_free (Content A) (first_index A) = Some i" "\<not> MacTabSize A \<ge> MAX_NUMBER_OF_MAC" by auto
  have len: "length (Content A) = MAX_NUMBER_OF_MAC" using assms by (simp add: MacTableInsertEntry_def split: if_splits)
  have run: "MacTableInsertEntry A a n = Some (r, B)" by (rule assms)
  have "\<not> live (Content A) i" "0 < i" using find_free_Some [OF i(1) len] by (auto simp: first_index_def split: if_splits)
  moreover have "B = upd_entry i (\<lambda>_. zero_entry) A
      \<or> (\<exists>m. ids (Content B) = ids ((Content A)[i := new_entry A a n m i]) \<and> length (MBSSID B) = length (MBSSID A))"
    using run i unfolding MacTableInsertEntry_def first_index_def [symmetric]
    by (auto simp: Let_def Content_upd_entry split: if_splits dest!: link_entry_ids)
  ultimately show ?thesis using that(2,3) by blast
qed

lemma nth_update: "j < length xs \<Longrightarrow> xs[i := x] ! j = (if i = j then x else xs ! j)"
  by (cases "i = j") simp_all

lemma insert_table:
  assumes A: "table_ok A" and a: "MacTableLookup A a = Some None" "length a = 6" and n: "n < length (MBSSID A)" "room A n"
    and run: "MacTableInsertEntry A a n = Some (r, B)"
  shows "table_ok B"
proof -
  have t: "tab_ok A" "table_map A a = None" using A a lookup_is_map [of A a] by (simp_all add: table_ok_def)
  have t': "length (Content A) = MAX_NUMBER_OF_MAC" "\<forall>i\<in>live_set A. Aid (Entry A i) = i"
      "\<forall>i<MAX_NUMBER_OF_MAC. apidx (Entry A i) < length (MBSSID A)"
    using A by (simp_all add: table_ok_def tab_ok_def)
  have B: "tab_ok B" by (rule insert_updates [OF t a(2) n(2)]) (use run in simp)
  have z: "apidx zero_entry = 0" "EntryType zero_entry = ENTRY_NONE" "apidx (new_entry A a n m i) = n" "Aid (new_entry A a n m i) = i" for m i
    by (simp_all add: zero_entry_def new_entry_def Let_def)
  have "0 < length (MBSSID A)" by (rule le_less_trans [OF le0 n(1)])
  with insert_cases [OF run] show ?thesis
  proof cases
    case 1
    with A show ?thesis by simp
  next
    case (2 i)
    with B t' z \<open>0 < length (MBSSID A)\<close> show ?thesis unfolding table_ok_def
      by (auto simp: live_def Content_upd_entry nth_update)
  next
    case (3 i m)
    note k = ids_nth [OF 3(1)]
    show ?thesis using B t' z n(1) k 3(2) unfolding table_ok_def by (auto simp: live_def nth_update)
  qed
qed

section \<open>The events\<close>

text \<open>
  What happens to the access point: stations join (after a look-up has not found them) and leave, the
  handlers of authentication and association note their result in an entry, frames arrive from
  stations and from the 802.1X daemon, timers expire.
\<close>

inductive ap_event :: "wpa_adapter \<Rightarrow> wpa_adapter \<Rightarrow> bool" where
  join: "MacTableLookup A a = Some None \<Longrightarrow> length a = 6 \<Longrightarrow> n < length (MBSSID A) \<Longrightarrow> room A n \<Longrightarrow>
    MacTableInsertEntry A a n = Some (r, B) \<Longrightarrow> ap_event A B"
| leave: "MacTableDeleteEntry A i (Addr (Entry A i)) = Some (r, B) \<Longrightarrow> ap_event A B"
| associate: "ap_event A (upd_entry i (\<lambda>e. e\<lparr>Sst := s, AuthMode := am, WepStatus := ws, WpaState := st, GTKState := gs,
    PrivacyFilter := pf, PortSecured := ps, PMKID_CacheIdx := c, EnqueueEapolStartTimerRunning := er, EnqueueStartForPSKTimer := t\<rparr>) A)"
| deauth: "live (Content A) i \<Longrightarrow> MlmeDeAuthAction i reason A = Some B \<Longrightarrow> ap_event A B"
| reset: "MacTableReset A = Some B \<Longrightarrow> ap_event A B"
| key_frame: "WpaEAPOLKeyAction clk Msg MsgLen A = Some B \<Longrightarrow> ap_event A B"
| start_frame: "WpaEAPOLStartAction clk Msg MsgLen A = Some B \<Longrightarrow> ap_event A B"
| daemon_frame: "WpaSend clk p n A = Some B \<Longrightarrow> ap_event A B"
| start_timer: "EnqueueStartForPSKExec i A = Some B \<Longrightarrow> ap_event A B"
| retry_timer: "WPARetryExec clk i A = Some B \<Longrightarrow> ap_event A B"
| rekey_timer: "GREKEYPeriodicExec clk n A = Some B \<Longrightarrow> ap_event A B"
| rekey_set: "WPA_APSetGroupRekeyAction A = Some B \<Longrightarrow> ap_event A B"
| mic_failure: "HandleCounterMeasure clk e A = Some B \<Longrightarrow> ap_event A B"
| mic_timer: "ap_event A (CMTimerExec A)"
| cache_timer: "RTMPMaintainPMKIDCache now A = Some B \<Longrightarrow> ap_event A B"

definition ap_ok :: "wpa_adapter \<Rightarrow> bool" where
  "ap_ok A \<longleftrightarrow> table_ok A \<and> buffers_ok A \<and> \<not> live (Content A) 0"

lemma keeps_ap_ok:
  assumes "keeps A B" and "ap_ok A"
  shows "ap_ok B"
proof -
  have k: "lookup_keys (Content B) = lookup_keys (Content A)" "ids (Content B) = ids (Content A)" "Hash B = Hash A" "MacTabSize B = MacTabSize A"
    "length (MBSSID B) = length (MBSSID A)" "opmode B = opmode A" "BssidNum B = BssidNum A" and b: "buffers_ok B"
    using assms by (simp_all add: keeps_def shape_def ap_ok_def)
  have t: "table_ok A" "tab_ok A" using assms(2) by (simp_all add: ap_ok_def table_ok_def)
  have "rows A B" using ids_nth [OF k(2)] k by (simp add: rows_def)
  moreover have "tab_ok B" by (rule tab_ok_cong [OF t(2) k(1,3,4)])
  ultimately show ?thesis using table_ok_rows [OF t(1), of B] rows_live [of A B 0] b assms(2) by (auto simp: ap_ok_def)
qed

lemma deauth_ok:
  assumes "MlmeDeAuthAction i reason A = Some B" and "ap_ok A" and "live (Content A) i"
  shows "ap_ok B"
proof -
  obtain C where "MlmeDeAuthAction i reason A = Some C" "table_ok C" "rows A C"
    by (rule MlmeDeAuthAction_removes [of A i reason]) (use assms in \<open>simp_all add: ap_ok_def\<close>)
  moreover have "buffers_ok B" using assms(1,2)
    by (auto simp: MlmeDeAuthAction_def Let_def ap_ok_def split: if_splits dest!: delete_buffers)
  ultimately show ?thesis using assms(1,2) rows_live [of A C 0] by (auto simp: ap_ok_def)
qed

text \<open>The events that only touch entries, networks and timers.\<close>

lemma keeps_timers: "keeps A (A\<lparr>MICFailureCounter := c\<rparr>)" "keeps A (A\<lparr>CounterMeasureTimer := t\<rparr>)" "keeps A (A\<lparr>apCMTimerRunning := r\<rparr>)"
  "keeps A (A\<lparr>BANClass3Data := b\<rparr>)"
  by (rule keeps_cong; simp add: shape_def)+

lemma keeps_associate:
  "keeps A (upd_entry i (\<lambda>e. e\<lparr>Sst := s, AuthMode := am, WepStatus := ws, WpaState := st, GTKState := gs,
    PrivacyFilter := pf, PortSecured := ps, PMKID_CacheIdx := c, EnqueueEapolStartTimerRunning := er, EnqueueStartForPSKTimer := t\<rparr>) A)"
  by (rule keeps_upd) (simp add: tames)

lemma keeps_EnqueueStartForPSKExec: "EnqueueStartForPSKExec i A = Some B \<Longrightarrow> keeps A B"
  unfolding EnqueueStartForPSKExec_def Let_def
  by (auto simp: tames split: if_splits intro!: keeps_intros)

lemma keeps_CMTimerExec: "keeps A (CMTimerExec A)"
proof -
  let ?f = "\<lambda>e. if EntryType e = ENTRY_CLIENT \<and> CMTimerRunning e then e\<lparr>CMTimerRunning := False\<rparr> else e"
  have "lookup_keys (map ?f xs) = lookup_keys xs" "ids (map ?f xs) = ids xs" for xs by (simp_all add: lookup_keys_def ids_def)
  moreover have "entry_lens e \<Longrightarrow> entry_lens (e\<lparr>CMTimerRunning := r\<rparr>)" for e r by (simp add: entry_lens_def)
  ultimately show ?thesis by (auto simp: keeps_def shape_def buffers_ok_def CMTimerExec_def)
qed

lemma keeps_networks:
  assumes "\<And>m. mbss_lens m \<Longrightarrow> mbss_lens (f m)" and "k \<le> length (MBSSID A)"
  shows "keeps A (A\<lparr>MBSSID := map f (take k (MBSSID A)) @ drop k (MBSSID A)\<rparr>)"
  using assms by (auto simp: keeps_def shape_def buffers_ok_def dest!: in_set_takeD in_set_dropD)

lemma keeps_WPA_APSetGroupRekeyAction: "WPA_APSetGroupRekeyAction A = Some B \<Longrightarrow> keeps A B"
  by (auto simp: WPA_APSetGroupRekeyAction_def not_less set_rekey_timer_def mbss_lens_def Let_def split: if_splits intro!: keeps_networks)

lemma foldl_keeps: "(\<And>c j. P c \<Longrightarrow> P (f c j)) \<Longrightarrow> P c \<Longrightarrow> P (foldl f c js)"
  by (induction js arbitrary: c) simp_all

lemma keeps_RTMPMaintainPMKIDCache:
  assumes "RTMPMaintainPMKIDCache now A = Some B"
  shows "keeps A B"
proof -
  define P where "P c \<longleftrightarrow> (\<forall>x\<in>set c. length (iPMK x) = 32)" for c :: "pmkid_info list"
  have d: "P (RTMPDeletePMKIDCache k c)" if "P c" for k c
  proof (cases "k < length c")
    case True
    with that show ?thesis by (auto simp: P_def RTMPDeletePMKIDCache_def dest!: subsetD [OF set_update_subset_insert])
  next
    case False
    with that show ?thesis by (simp add: RTMPDeletePMKIDCache_def list_update_beyond)
  qed
  define g where "g m = m\<lparr>PMKIDCache := foldl (\<lambda>c j. if iValid (c ! j) \<and> RTMP_TIME_AFTER now (RefreshTime (c ! j) + PMKCachePeriod m)
                                    then RTMPDeletePMKIDCache j c else c) (PMKIDCache m) [0..<length (PMKIDCache m)]\<rparr>" for m :: mbss
  have "P (PMKIDCache m) \<Longrightarrow> P (foldl (\<lambda>c j. if f c j then RTMPDeletePMKIDCache j c else c) (PMKIDCache m) js)" for m :: mbss and f and js :: "nat list"
    by (rule foldl_keeps) (simp_all add: d)
  then have g: "mbss_lens m \<Longrightarrow> mbss_lens (g m)" for m by (simp add: mbss_lens_def g_def P_def [symmetric])
  have "B = A\<lparr>MBSSID := map g (take (BcnMaxNum A) (MBSSID A)) @ drop (BcnMaxNum A) (MBSSID A)\<rparr>" "BcnMaxNum A \<le> length (MBSSID A)"
    using assms unfolding RTMPMaintainPMKIDCache_def g_def by (simp_all split: if_splits)
  with keeps_networks [of g, OF g] show ?thesis by blast
qed

lemma keeps_install_group_key: "install_group_key clk n A = Some B \<Longrightarrow> keeps A B"
  by (simp add: keeps_WPAInstallSharedKey install_group_key_def Let_def)

lemma keeps_GREKEYPeriodicExec:
  assumes "GREKEYPeriodicExec clk n A = Some B"
  shows "keeps A B"
proof -
  have t: "tame_mbss (\<lambda>m. m\<lparr>REKEYCOUNTER := f m\<rparr>)" "tame_mbss (\<lambda>m. m\<lparr>RekeyCountDown := g m\<rparr>)"
    "tame_mbss (\<lambda>m. m\<lparr>REKEYCOUNTER := f m, RekeyCountDown := g m\<rparr>)" for f g by (simp_all add: tames)
  have turn: "(if j \<ge> length (Content C) then None else if has_keys C n j
        then WPAStart2WayGroupHS j (upd_entry j (\<lambda>e. e\<lparr>GTKState := REKEY_NEGOTIATING\<rparr>) C) else Some C) = Some D \<Longrightarrow> keeps C D" for j C D
    by (auto simp: tames split: if_splits intro!: keeps_intros elim!: keeps_group)
  let ?turn = "\<lambda>A j. if j \<ge> length (Content A) then None else if has_keys A n j
        then WPAStart2WayGroupHS j (upd_entry j (\<lambda>e. e\<lparr>GTKState := REKEY_NEGOTIATING\<rparr>) A) else Some A"
  have loop: "feed ?turn C js = Some D \<Longrightarrow> keeps C D" for C D js by (rule keeps_feed [where f = ?turn]) (rule turn)
  have s: "keeps C D" if "rekey_start clk n C = Some D" for C D
  proof -
    let ?C1 = "upd_mbss n (\<lambda>m. m\<lparr>REKEYCOUNTER := 0, RekeyCountDown := 3\<rparr>) C"
    have k: "keeps C ?C1" using t(3) by simp
    have "D = ?C1 \<or> (\<exists>E. new_group_key clk n ?C1 = Some E \<and> keeps E D)"
      using that unfolding rekey_start_def Let_def
      by (auto simp: bind_eq_Some_conv split: if_splits dest: loop)
    then show ?thesis using k keeps_trans keeps_new_group_key by blast
  qed
  have c: "rekey_countdown clk n C = Some D \<Longrightarrow> keeps C D" for C D
    using t(2) by (auto simp: rekey_countdown_def Let_def split: if_splits elim!: keeps_install_group_key [THEN [2] keeps_trans, rotated])
  show ?thesis using assms t(1) unfolding GREKEYPeriodicExec_def Let_def
    by (auto simp: bind_eq_Some_conv split: if_splits elim!: s [THEN [2] keeps_trans, rotated] c [THEN [2] keeps_trans, rotated])
qed

lemma delete_ok:
  assumes "MacTableDeleteEntry A i (Addr (Entry A i)) = Some (r, B)" and "ap_ok A"
  shows "ap_ok B"
proof (cases "i < MAX_NUMBER_OF_MAC")
  case True
  have l: "length (Addr (Entry A i)) = 6" using assms(2) True by (simp add: ap_ok_def table_ok_def tab_ok_def)
  obtain q C where "MacTableDeleteEntry A i (Addr (Entry A i)) = Some (q, C)" "table_ok C" "rows A C"
    by (rule delete_own [of A i "Addr (Entry A i)"]) (use assms(2) True l in \<open>simp_all add: ap_ok_def\<close>)
  with assms delete_buffers [OF assms(1)] rows_live [of A C 0] show ?thesis by (auto simp: ap_ok_def)
next
  case False
  with assms show ?thesis by (simp add: MacTableDeleteEntry_def)
qed

lemma feed_ok:
  assumes "\<And>B x C. f B x = Some C \<Longrightarrow> ap_ok B \<Longrightarrow> ap_ok C"
  shows "feed f A xs = Some B \<Longrightarrow> ap_ok A \<Longrightarrow> ap_ok B"
proof (induction xs arbitrary: A)
  case (Cons x xs)
  then obtain C where "f A x = Some C" "feed f C xs = Some B" by (auto split: option.splits)
  with assms Cons show ?case by blast
qed simp

lemma reset_entry_ok:
  assumes "reset_entry A i = Some B" and A: "ap_ok A"
  shows "ap_ok B"
proof -
  let ?A1 = "upd_entry i (\<lambda>e. e\<lparr>EnqueueStartForPSKTimer := RTMPReleaseTimer (EnqueueStartForPSKTimer e),
                  EnqueueEapolStartTimerRunning := EAPOL_START_DISABLE\<rparr>) A"
  have i: "i < length (Content A)" using assms(1) by (simp add: reset_entry_def split: if_splits)
  have k: "keeps A ?A1" by (simp add: tames)
  have "\<exists>C r. keeps A C \<and> MacTableDeleteEntry C i (Addr (Entry C i)) = Some (r, B)"
  proof (cases "is_client A i")
    case True
    then obtain x where "MacTableDeleteEntry ?A1 i (Addr (Entry ?A1 i)) = Some (x, B) \<or>
        (\<exists>o'. MacTableDeleteEntry (put_out o' ?A1) i (Addr (Entry ?A1 i)) = Some (x, B))"
      using assms(1) i by (auto simp: reset_entry_def Let_def split: if_splits)
    then show ?thesis using k keeps_out_trans [OF k] by (auto simp del: Entry_upd) (use i in fastforce)+
  next
    case False
    then show ?thesis using assms(1) i by (auto simp: reset_entry_def intro: keeps_refl)
  qed
  then show ?thesis using A keeps_ap_ok delete_ok by blast
qed

lemma MacTableReset_ok:
  assumes "MacTableReset A = Some B" and A: "ap_ok A"
  shows "ap_ok B"
proof -
  obtain C where C: "feed reset_entry A [1..<MAX_NUMBER_OF_MAC] = Some C" "table_ok C" "rows A C" "live_set C = {}"
    by (rule reset_loop [of A]) (use A in \<open>simp_all add: ap_ok_def\<close>)
  have c: "ap_ok C" by (rule feed_ok [OF reset_entry_ok C(1) A])
  have n: "MacTabSize C = 0" using C(2,4) by (simp add: table_ok_def tab_ok_def)
  show ?thesis
  proof (cases "opmode C = OPMODE_AP")
    case False
    with assms(1) C c show ?thesis by (simp add: MacTableReset_def)
  next
    case True
    define D where "D = C\<lparr>MBSSID := map (\<lambda>m. m\<lparr>StaCount := 0\<rparr>) (take (BssidNum C) (MBSSID C)) @ drop (BssidNum C) (MBSSID C)\<rparr>"
    have B: "B = D\<lparr>MacTabSize := 0\<rparr>" and k: "BssidNum C \<le> length (MBSSID C)"
      using assms(1) C(1) True by (simp_all add: MacTableReset_def D_def split: if_splits)
    have "B = D" using B n by (simp add: D_def)
    moreover have "ap_ok D" unfolding D_def by (rule keeps_ap_ok [OF keeps_networks c]) (use k in \<open>simp_all add: mbss_lens_def\<close>)
    ultimately show ?thesis by simp
  qed
qed

lemma remove_client_ok:
  assumes "(if i \<ge> length (Content A) then None else if is_client A i then MlmeDeAuthAction i r A else Some A) = Some B" and "ap_ok A"
  shows "ap_ok B"
proof (cases "is_client A i")
  case True
  with assms(1) have "MlmeDeAuthAction i r A = Some B" "live (Content A) i" by (simp_all add: live_def split: if_splits)
  with assms(2) show ?thesis using deauth_ok by blast
next
  case False
  with assms show ?thesis by (simp split: if_splits)
qed

lemma HandleCounterMeasure_ok:
  assumes "HandleCounterMeasure clk e A = Some B" and A: "ap_ok A"
  shows "ap_ok B"
proof -
  have k: "ap_ok C \<Longrightarrow> ap_ok (put_out x C)" "ap_ok C \<Longrightarrow> ap_ok (C\<lparr>MICFailureCounter := n\<rparr>)" "ap_ok C \<Longrightarrow> ap_ok (C\<lparr>BANClass3Data := b\<rparr>)"
    "ap_ok C \<Longrightarrow> ap_ok (C\<lparr>CounterMeasureTimer := t, apCMTimerRunning := b\<rparr>)" for C x n b t
    using keeps_ap_ok [OF keeps_put_out] keeps_ap_ok [OF keeps_timers(1)] keeps_ap_ok [OF keeps_timers(4)]
      keeps_ap_ok [OF keeps_trans [OF keeps_timers(2) keeps_timers(3)]] by blast+
  have m: "ap_ok C \<Longrightarrow> length nonce = 32 \<Longrightarrow> ap_ok (upd_mbss n (\<lambda>m. m\<lparr>GNonce := nonce\<rparr>) C)" for C n nonce
    by (rule keeps_ap_ok [OF keeps_upd_mbss]) (simp_all add: tames)
  let ?A1 = "put_out (RTMPSendWirelessEvent IW_MIC_ERROR_EVENT_FLAG (Addr e) 0) (A\<lparr>MICFailureCounter := MICFailureCounter A + 1\<rparr>)"
  let ?fin = "\<lambda>C. C\<lparr>CounterMeasureTimer := RTMPSetTimer (halted C) (60 * 100 * 10) (CounterMeasureTimer C), apCMTimerRunning := True\<rparr>"
  have a1: "ap_ok ?A1" using A by (simp add: k)
  let ?A2 = "\<lambda>nonce. (upd_mbss (apidx e) (\<lambda>m. m\<lparr>GNonce := nonce\<rparr>) (put_out (ApLogEvent (Addr e))
      (put_out (RTMPSendWirelessEvent IW_COUNTER_MEASURES_EVENT_FLAG (Addr e) 0) ?A1)))
      \<lparr>CounterMeasureTimer := RTMPCancelTimer (CounterMeasureTimer A), apCMTimerRunning := False\<rparr>"
  let ?f = "\<lambda>A i. if i \<ge> length (Content A) then None else if is_client A i then MlmeDeAuthAction i REASON_MIC_FAILURE A else Some A"
  have eq: "HandleCounterMeasure clk e A = (if WpaState e < AS_PTKINITDONE \<or> GTKState e \<noteq> REKEY_ESTABLISHED then Some A
      else if \<not> apCMTimerRunning A then Some (?fin ?A1) else if apidx e \<ge> length (MBSSID A) then None
      else do { nonce \<leftarrow> GenRandom (system_time clk) (Bssid (MBSSID A ! apidx e));
                C \<leftarrow> feed ?f (?A2 nonce) [0..<MAX_NUMBER_OF_MAC];
                Some (?fin (C\<lparr>BANClass3Data := True\<rparr>)) })"
    by (cases "WpaState e < AS_PTKINITDONE \<or> GTKState e \<noteq> REKEY_ESTABLISHED"; cases "apCMTimerRunning A"; cases "apidx e \<ge> length (MBSSID A)")
      (simp_all add: HandleCounterMeasure_def Let_def put_out_def upd_mbss_def)
  show ?thesis
  proof (cases "WpaState e < AS_PTKINITDONE \<or> GTKState e \<noteq> REKEY_ESTABLISHED")
    case True
    with assms show ?thesis unfolding eq by simp
  next
    case go: False
    show ?thesis
    proof (cases "apCMTimerRunning A")
      case False
      with assms(1) go have "B = ?fin ?A1" unfolding eq by simp
      then show ?thesis using a1 by (simp only: k)
    next
      case True
      with assms(1) go have n: "\<not> apidx e \<ge> length (MBSSID A)" unfolding eq by (simp split: if_splits)
      have "do { nonce \<leftarrow> GenRandom (system_time clk) (Bssid (MBSSID A ! apidx e));
                C \<leftarrow> feed ?f (?A2 nonce) [0..<MAX_NUMBER_OF_MAC];
                Some (?fin (C\<lparr>BANClass3Data := True\<rparr>)) } = Some B"
        using assms(1) unfolding eq if_not_P [OF go] if_not_P [OF n] using True by simp
      then obtain nonce C where C: "GenRandom (system_time clk) (Bssid (MBSSID A ! apidx e)) = Some nonce"
          "feed ?f (?A2 nonce) [0..<MAX_NUMBER_OF_MAC] = Some C" "B = ?fin (C\<lparr>BANClass3Data := True\<rparr>)"
        unfolding bind_eq_Some_conv option.inject by blast
      have a2: "ap_ok (?A2 nonce)" by (intro k m A GenRandom_length [OF C(1)])
      have "ap_ok C" by (rule feed_ok [where f = ?f, OF _ C(2) a2]) (rule remove_client_ok)
      then show ?thesis unfolding C(3) by (simp only: k)
    qed
  qed
qed

lemma WPARetryExec_ok:
  assumes "WPARetryExec clk i A = Some B" and A: "ap_ok A"
  shows "ap_ok B"
proof (cases "i < length (Content A) \<and> is_client A i")
  case False
  with assms show ?thesis by (auto simp: WPARetryExec_def split: if_splits)
next
  case True
  let ?A1 = "upd_entry i (\<lambda>e. e\<lparr>ReTryCounter := ReTryCounter e + 1\<rparr>) A"
  have k: "keeps A ?A1" by (simp add: tames)
  have l: "live (Content ?A1) i" using True by (simp add: live_def)
  have "B = ?A1 \<or> (\<exists>C. WPAStart2WayGroupHS i ?A1 = Some C \<and> B = upd_entry i (\<lambda>e. e\<lparr>RetryTimer := RTMPSetTimer (halted C) PEER_MSG3_RETRY_EXEC_INTV (RetryTimer e)\<rparr>) C)
    \<or> (\<exists>t. WPAStart4WayHS clk i t ?A1 = Some B) \<or> (\<exists>x r. MlmeDeAuthAction i r (put_out x ?A1) = Some B)"
    using assms(1) True by (auto simp: WPARetryExec_def Let_def bind_eq_Some_conv simp del: Entry_upd split: if_splits)
  then show ?thesis
  proof (elim disjE exE conjE)
    show "B = ?A1 \<Longrightarrow> ap_ok B" using keeps_ap_ok [OF k A] by simp
  next
    fix C assume C: "WPAStart2WayGroupHS i ?A1 = Some C" "B = upd_entry i (\<lambda>e. e\<lparr>RetryTimer := RTMPSetTimer (halted C) PEER_MSG3_RETRY_EXEC_INTV (RetryTimer e)\<rparr>) C"
    have "keeps A B" using C k by (auto simp: tames intro!: keeps_intros elim!: keeps_group)
    then show "ap_ok B" using A by (rule keeps_ap_ok)
  next
    fix t assume "WPAStart4WayHS clk i t ?A1 = Some B"
    then have "keeps A B" using k by (rule keeps_start)
    then show "ap_ok B" using A by (rule keeps_ap_ok)
  next
    fix x r assume "MlmeDeAuthAction i r (put_out x ?A1) = Some B"
    then show "ap_ok B" by (rule deauth_ok) (use l keeps_ap_ok [OF keeps_out_trans [OF k] A] in simp_all)
  qed
qed

lemma WpaSend_ok:
  assumes "WpaSend clk p n A = Some B" and A: "ap_ok A"
  shows "ap_ok B"
proof -
  obtain r where p: "\<not> length p < 19" and r: "MacTableLookup A (take 6 p) = Some r"
    using assms(1) by (cases "length p < 19"; cases "MacTableLookup A (take 6 p)") (simp_all add: WpaSend_def)
  show ?thesis
  proof (cases r)
    case None
    with assms r p show ?thesis by (simp add: WpaSend_def Let_def)
  next
    case (Some i)
    have t: "tab_ok A" using A by (simp add: ap_ok_def table_ok_def)
    have "length (take 6 p) = 6" using p by simp
    then have "table_map A (take 6 p) = Some i" using lookup_is_map [OF t, of "take 6 p"] r Some by simp
    then have l: "live (Content A) i" using table_map_Some [of A "take 6 p" i] t by (simp add: tab_ok_def)
    obtain C where C: "C = A \<or> (\<exists>x. C = put_out x A)"
      and B: "B = C \<or> MlmeDeAuthAction i REASON_NO_LONGER_VALID C = Some B \<or> (\<exists>f. tame f \<and> B = upd_entry i f C)
        \<or> (\<exists>t f. tame f \<and> WPAStart4WayHS clk i t (upd_entry i f C) = Some B)
        \<or> (\<exists>f g n. tame f \<and> tame_mbss g \<and> B = upd_entry i f (upd_mbss n g C))"
    proof -
      let ?wpa = "AuthMode (Entry A i) \<ge> Ndis802_11AuthModeWPA \<and> p ! 15 \<noteq> EAPOLKey"
      let ?go = "\<not> ?wpa \<and> apidx (Entry A i) \<ge> length (MBSSID A)"
      define C where "C = (if (?wpa \<or> IEEE8021X (net A i)) \<and> is_client A i
        then put_out (RTMPToWirelessSta (Aid (Entry A i)) (take 14 p) (take (n - 14) (drop 14 p)) (\<not> PortSecured (Entry A i))) A else A)"
      have tm: "tame (\<lambda>e. e\<lparr>WpaState := AS_AUTHENTICATION\<rparr>)" "tame (\<lambda>e. e\<lparr>WpaState := AS_INITPMK, ReTryCounter := PEER_MSG1_RETRY_TIMER_CTR\<rparr>)"
        "tame (\<lambda>e. e\<lparr>PrivacyFilter := Ndis802_11PrivFilterAcceptAll, WpaState := AS_PTKINITDONE, PortSecured := True\<rparr>)"
        "tame_mbss (\<lambda>m. m\<lparr>mPortSecured := True\<rparr>)" by (simp_all add: tames)
      have "B = C \<or> MlmeDeAuthAction i REASON_NO_LONGER_VALID C = Some B \<or> B = upd_entry i (\<lambda>e. e\<lparr>WpaState := AS_AUTHENTICATION\<rparr>) C
        \<or> WPAStart4WayHS clk i PEER_MSG1_RETRY_EXEC_INTV (upd_entry i (\<lambda>e. e\<lparr>WpaState := AS_INITPMK, ReTryCounter := PEER_MSG1_RETRY_TIMER_CTR\<rparr>) C) = Some B
        \<or> B = upd_entry i (\<lambda>e. e\<lparr>PrivacyFilter := Ndis802_11PrivFilterAcceptAll, WpaState := AS_PTKINITDONE, PortSecured := True\<rparr>)
            (upd_mbss (apidx (Entry C i)) (\<lambda>m. m\<lparr>mPortSecured := True\<rparr>) C)"
        using assms(1) p r Some unfolding WpaSend_def Let_def C_def
        by (cases ?go; cases "(?wpa \<or> IEEE8021X (net A i))"; cases "is_client A i") (auto split: if_splits)
      moreover have "C = A \<or> (\<exists>x. C = put_out x A)" by (auto simp: C_def)
      ultimately show thesis using tm by (intro that [of C]) blast+
    qed
    have k: "keeps A C" using C by auto
    then have c: "ap_ok C" "live (Content C) i" using A l C keeps_ap_ok by auto
    from B show ?thesis
    proof (elim disjE exE conjE)
      show "B = C \<Longrightarrow> ap_ok B" using c by simp
      show "MlmeDeAuthAction i REASON_NO_LONGER_VALID C = Some B \<Longrightarrow> ap_ok B" by (rule deauth_ok [OF _ c])
      show "ap_ok B" if "tame f" "B = upd_entry i f C" for f using keeps_ap_ok [OF keeps_upd c(1)] that by simp
      show "ap_ok B" if f: "tame f" and r: "WPAStart4WayHS clk i t (upd_entry i f C) = Some B" for f t
        by (rule keeps_ap_ok [OF keeps_trans [OF keeps_upd [OF f] keeps_WPAStart4WayHS [OF r]] c(1)])
      show "ap_ok B" if "tame f" "tame_mbss g" "B = upd_entry i f (upd_mbss n g C)" for f g n
        using keeps_ap_ok [OF keeps_trans [OF keeps_upd_mbss keeps_upd] c(1)] that by simp
    qed
  qed
qed

section \<open>The invariant\<close>

inductive ap_reaches :: "wpa_adapter \<Rightarrow> wpa_adapter \<Rightarrow> bool" where
  start: "ap_reaches A A"
| event: "ap_reaches A B \<Longrightarrow> ap_event B C \<Longrightarrow> ap_reaches A C"

lemma event_ok:
  assumes "ap_event A B"
  shows "ap_ok A \<Longrightarrow> ap_ok B"
  using assms
proof cases
  case (join a n r)
  assume A: "ap_ok A"
  have "table_ok B" by (rule insert_table [OF _ join(1-4,5)]) (use A in \<open>simp add: ap_ok_def\<close>)
  moreover have "buffers_ok B" using insert_buffers [OF join(5)] A by (simp add: ap_ok_def)
  moreover have "\<not> live (Content B) 0"
  proof (rule insert_cases [OF join(5)])
    fix i m assume i: "ids (Content B) = ids ((Content A)[i := new_entry A a n m i])" "0 < i"
    then show ?thesis using A ids_nth(2) [OF i(1), of 0] by (simp add: ap_ok_def live_def)
  next
    fix i assume "B = upd_entry i (\<lambda>_. zero_entry) A"
    then have "Content B = (Content A)[i := zero_entry]" by (simp add: Content_upd_entry)
    moreover have "EntryType zero_entry = ENTRY_NONE" by (simp add: zero_entry_def)
    ultimately show ?thesis using A by (cases "Content A"; cases i) (auto simp: ap_ok_def live_def)
  qed (use A in \<open>simp add: ap_ok_def\<close>)
  ultimately show ?thesis by (simp add: ap_ok_def)
qed (blast intro: keeps_ap_ok keeps_associate keeps_WpaEAPOLKeyAction keeps_WpaEAPOLStartAction keeps_EnqueueStartForPSKExec
    keeps_GREKEYPeriodicExec keeps_WPA_APSetGroupRekeyAction keeps_CMTimerExec keeps_RTMPMaintainPMKIDCache
    delete_ok deauth_ok MacTableReset_ok WPARetryExec_ok WpaSend_ok HandleCounterMeasure_ok)+

text \<open>C3: Every state that the access point reaches from a well-formed one, by any sequence of its events, is
  well formed: each chain of the table ends and holds exactly the live entries with its hash, no address is in the
  table twice, the count is right, every live entry knows its index and a network that exists, and the nonces,
  counters and keys of entries and networks have their lengths. So a look-up always ends, with the only entry
  of its address.\<close>

theorem reachable_ok:
  assumes "ap_reaches A B" and "ap_ok A"
  shows "ap_ok B \<and> (\<forall>a. length a = 6 \<longrightarrow> (\<exists>r. MacTableLookup B a = Some r
    \<and> (\<forall>i. r = Some i \<longleftrightarrow> live (Content B) i \<and> Addr (Entry B i) = a)))"
proof -
  have ok: "ap_ok B" using assms by (induction rule: ap_reaches.induct) (auto intro: event_ok)
  then have t: "tab_ok B" by (simp add: ap_ok_def table_ok_def)
  then have "table_map B a = Some i \<longleftrightarrow> live (Content B) i \<and> Addr (Entry B i) = a" for a i
    using table_map_Some [of B a i] by (simp add: tab_ok_def)
  with ok lookup_is_map [OF t] show ?thesis by simp
qed

lemma ex_ap_ok: "ap_ok ex_ap"
proof -
  have c: "Content ex_ap = (replicate MAX_NUMBER_OF_MAC zero_entry)[1 := ex_entry [2, 0, 0, 0, 0, 1] AS_INITPSK]"
    "MBSSID ex_ap = [ex_mbss]" "StaCfg ex_ap = ex_cfg" by (simp_all add: ex_ap_def ex_adapter_def)
  have "entry_lens zero_entry" "entry_lens (ex_entry [2, 0, 0, 0, 0, 1] AS_INITPSK)" "mbss_lens ex_mbss"
    by (simp_all add: entry_lens_def mbss_lens_def zero_entry_def ex_entry_def ex_mbss_def)
  then have "buffers_ok ex_ap" unfolding buffers_ok_def c
    by (auto simp: ex_cfg_def dest!: subsetD [OF set_update_subset_insert])
  moreover have "\<not> live (Content ex_ap) 0" unfolding c by (simp add: live_def MAX_NUMBER_OF_MAC_def zero_entry_def)
  ultimately show ?thesis using ex_ap_table by (simp add: ap_ok_def)
qed

theorem reachable_ok_witness:
  "\<exists>B. ap_reaches ex_ap B \<and> \<not> live (Content B) 1 \<and> ap_ok B"
proof -
  have l: "live (Content ex_ap) 1" by (simp add: live_def ex_ap_def ex_adapter_def MAX_NUMBER_OF_MAC_def ex_entry_def)
  obtain B where B: "MlmeDeAuthAction 1 0 ex_ap = Some B" "\<not> live (Content B) 1"
    by (rule MlmeDeAuthAction_removes [OF ex_ap_table l])
  have "ap_reaches ex_ap B" by (rule ap_reaches.event [OF ap_reaches.start ap_event.deauth [OF l B(1)]])
  with reachable_ok [OF this ex_ap_ok] B(2) show ?thesis by blast
qed

end
