(* ===== verification/Spec2Isabelle.thy ===== *)
theory Spec2Isabelle
  imports Crypt_Hmac Cmm_Wep Aes_Fips Aes_Keywrap Cmm_Tkip Aes_Cmac Ccmp_Properties Ba_Properties
    Ba_Session_Properties Ap_Invariant
begin

text \<open>
  Verification of the security core and of the block-ack engine of the wireless driver in
  \<open>src/rt5572\<close> (Ralink RT5572, a USB chip). The driver is C for the Linux kernel. It is modelled for a
  little-endian machine with 32-bit words (\<open>ULONG\<close> and \<open>UINT\<close> have 32 bits) and for a build that can be an
  access point or a station (\<open>CONFIG_AP_SUPPORT\<close>, \<open>CONFIG_STA_SUPPORT\<close>, \<open>DOT1X_SUPPORT\<close>, \<open>DOT11_N_SUPPORT\<close>,
  \<open>RTMP_MAC_USB\<close>; not \<open>SOFT_ENCRYPT\<close>, \<open>QOS_DLS_SUPPORT\<close> or \<open>IDS_SUPPORT\<close>). Allocations of memory succeed.

  How the parts work together. A station and an access point agree on a pairwise master key
  (\<open>RtmpPasswordHash\<close> makes it of a pass phrase). The key handshake (\<open>cmm_wpa.c\<close>) derives a pairwise key
  from it and two nonces with the pseudo-random functions, which are built on the keyed digests; its
  frames carry an integrity code (HMAC, AES-CMAC) and key data under AES key wrap or RC4. The
  handshake installs the keys in the tables of the chip (\<open>cmm_asic.c\<close>). Data frames are protected with
  WEP, TKIP or CCMP (\<open>cmm_wep.c\<close>, \<open>cmm_tkip.c\<close>, \<open>cmm_aes.c\<close>), in software where the chip does not do it,
  on top of ARC4, the Michael code and AES. Frames of a block-ack session come in any order; the
  receiver brings them in order before it hands them on, and the sessions are agreed upon in a
  handshake of their own (\<open>ba_action.c\<close>). The access point keeps its stations in a hash table (\<open>cmm_data.c\<close>);
  its timers (\<open>ap/ap_wpa.c\<close>) repeat messages, remove stations that do not answer, change the group key and
  answer attacks on TKIP.

  Conventions. Bytes and words are \<open>8 word\<close>, \<open>16 word\<close> and \<open>32 word\<close>, a buffer is a list of
  bytes, and lengths and indices are natural numbers, with the wrap-around written out where the code
  can reach it (\<open>sub32\<close>). An operation of type \<open>option\<close> gives \<open>None\<close> where the code would access memory
  outside a buffer or an array; \<open>move_mem\<close> is \<open>NdisMoveMemory\<close> with that check. \<open>feed\<close> is a loop whose
  body can fault. What a component hands to other layers is collected in its state, in order. Locks,
  debug output and statistics are left out.

  The theories, from the bottom:
    \<^item> \<open>Prelude\<close>: lists, buffers, words, big- and little-endian numbers, loops with faults, and the
      \<open>named_theorems\<close> of the development.
    \<^item> \<open>Hash_Stream\<close>: the buffering of the three digests, and the locale \<open>message_digest\<close>, the contract that they
      give to their callers: the digest does not depend on how a text is cut into pieces.
    \<^item> \<open>Crypt_Sha2\<close>, \<open>Crypt_Md5\<close>, \<open>Crypt_Hmac\<close> (\<open>common/crypt_sha2.c\<close>, \<open>crypt_md5.c\<close>, \<open>crypt_hmac.c\<close>): the digests, each
      equal to the definition of its standard, and the keyed digests of RFC 2104.
    \<^item> \<open>Crypt_Arc4\<close>, \<open>Wep_Fcs\<close>, \<open>Cmm_Wep\<close> (\<open>crypt_arc4.c\<close>, \<open>cmm_wep.c\<close>): the stream cipher with its permutation
      invariant and the contract of its callers (locale \<open>keystream_cipher\<close>), the checksum with its table, WEP frames and their round trip.
    \<^item> \<open>Aes_Tables\<close>, \<open>Crypt_Aes\<close>, \<open>Aes_Fips\<close> (\<open>crypt_aes.c\<close>): the tables as functions on the field, the cipher, and
      its equality with FIPS 197; over the contract of a cipher (locale \<open>block_cipher\<close>), the modes \<open>Aes_Cbc\<close>, \<open>Aes_Keywrap\<close>, \<open>Aes_Cmac\<close>, \<open>Aes_Ccm\<close>, \<open>Ccm_Properties\<close>.
    \<^item> \<open>Tkip_Michael\<close>, \<open>Tkip_Mix\<close>, \<open>Cmm_Tkip\<close> (\<open>cmm_tkip.c\<close>): the Michael code, the mixing of keys, TKIP frames and
      the protection of group keys.
    \<^item> \<open>Cmm_Aes\<close>, \<open>Cmm_Ccmp\<close>, \<open>Ccmp_Properties\<close> (\<open>cmm_aes.c\<close>): the older CCMP routine with its own cipher, the newer
      one, and what both accept and give back.
    \<^item> \<open>Rtmp_Timer\<close> (\<open>rtmp_init.c\<close>): timers, as flags.
    \<^item> \<open>Ba_Reorder\<close>, \<open>Ba_Invariant\<close>, \<open>Ba_Window\<close>, \<open>Ba_Properties\<close> (\<open>ba_action.c\<close>): the reordering of received
      frames. In every reachable state the list is sorted, within its window and free of duplicates, and
      the blocks of the pool are each in one place; the handler refines an abstract window.
    \<^item> \<open>Ba_Session\<close>, \<open>Ba_Links\<close>, \<open>Ba_Handlers\<close>, \<open>Ba_Session_Ok\<close>, \<open>Ba_Session_Properties\<close> (\<open>ba_action.c\<close>,
      \<open>action.c\<close>, \<open>cmm_sanity.c\<close>): the tables of sessions, the handlers of requests, answers, teardowns and
      expiry, and the invariant of the two tables and the arrays of the stations, which is proved once for
      both tables in the locale \<open>session_table\<close> of \<open>Ba_Links\<close>.
    \<^item> \<open>Asic_Keys\<close> (\<open>cmm_asic.c\<close>, \<open>rtusb_io.c\<close>): the key tables in the memory of the chip, refined by five lists.
    \<^item> \<open>Wpa_Kdf\<close> (\<open>cmm_wpa.c\<close>): pseudo-random functions, pass phrases, pairwise and group keys, random numbers.
    \<^item> \<open>Wpa_Eapol\<close> (\<open>cmm_wpa.c\<close>, \<open>dot11i_wpa.h\<close>): the layout of EAPOL-Key frames and how they are built.
    \<^item> \<open>Wpa_State\<close>, \<open>Wpa_Keys\<close> (\<open>rtmp.h\<close>, \<open>cmm_data.c\<close>, \<open>ap/ap_wpa.c\<close>, \<open>cmm_wpa.c\<close>): the state of an adapter, the
      cache of master keys and the installation of keys.
    \<^item> \<open>Wpa_Sanity\<close>, \<open>Wpa_Handlers\<close> (\<open>cmm_wpa.c\<close>): the checks on received frames and the handlers of the six
      messages and of requests.
    \<^item> \<open>Wpa_Frames\<close>, \<open>Wpa_Messages\<close>, \<open>Wpa_Handshake\<close>, \<open>Wpa_Examples\<close>, \<open>Wpa_Properties\<close>: what the sender builds is what
      the receiver reads back, each handler's effect on an expected message, their composition over two
      adapters, the adapters of the witnesses, and the run of the four messages to keys that agree.
    \<^item> \<open>Mac_Table\<close> (\<open>cmm_data.c\<close>, \<open>cmm_wpa.c\<close>): insertion, removal and reset of the table of stations, whose chains
      are lists (\<open>chain\<close>), and the table as a map from addresses (locale \<open>address_table\<close>).
    \<^item> \<open>Ap_Wpa\<close>, \<open>Ap_Properties\<close> (\<open>ap/ap_wpa.c\<close>): the timers and the other events of the access point; handshakes
      that are not answered end, and attacks on TKIP are answered.
    \<^item> \<open>Wpa_Safety\<close>: which frames can change a key that is in use.
    \<^item> \<open>Wpa_Keeps\<close>, \<open>Ap_Invariant\<close>: the handlers keep the table and the lengths of all buffers, and so does every
      sequence of events of an access point (\<open>ap_reaches\<close>). The event \<open>associate\<close> stands for the handlers of
      authentication and association and lets them write any value to the fields of an entry that they set.

  Bounds and fuel. Loops over buffers are structural or have a measure. \<open>ccm_aad_loop\<close>, \<open>lookup_walk\<close>
  (\<open>MacTableLookup\<close>), \<open>chain_last\<close> and \<open>find_prev\<close> are \<open>partial_function (option)\<close>: the first counts with a
  variable that can wrap around, the others follow a chain that could be a cycle. The lemmas show that they
  return, the last three in every state that an access point reaches (\<open>reachable_ok\<close>). The bounds in
  the properties are those of the code's buffers and counters: 4080 bytes of text in CCM, 0xFF00 bytes
  of additional data, 42 blocks in the key wrap, 128 block-ack sessions for 32 stations with 8
  priorities, 8160 bytes from \<open>KDF\<close>, a text of 1024 bytes in \<open>PRF\<close>, 255 bytes of clear key data, 32 bytes of
  group key, 512 and 1500 bytes for a frame in construction.

  Not modelled. \<open>CCMP_test_vector\<close>, a self-test that nothing calls. The links of an AP client in
  \<open>cmm_wpa.c\<close> and \<open>cmm_data.c\<close>, whose entries have a type of their own; in \<open>cmm_wpa.c\<close> and \<open>ap_wpa.c\<close>, too, the
  parsing and building of security parameters (\<open>RTMPMakeRSNIE\<close>, \<open>RTMPCheckRSNIE\<close>, \<open>WPA_ExtractSuiteFromRSNIE\<close>),
  which is about configuration and not about keys. The other files of \<open>rt5572\<close> (association, scanning, rate control, power save, queues and
  descriptors of the USB, registers of the radio, \<open>ioctl\<close> and \<open>proc\<close> interfaces), because their effects are on
  hardware and on the kernel's network layer, whose behaviour the sources do not state. The drivers
  \<open>rtl8188eu\<close>, \<open>rtl8192cu\<close> and \<open>rtl8192su\<close>, which are Realtek's code for other chips, and \<open>hostapd\<close>, which is copied
  from another project.
\<close>

end
